(* ===== verification/Prelude.thy ===== *)
theory Prelude
  imports Complex_Main "HOL-Library.Product_Lexorder"
begin

text \<open>
  Shared ground of the development: the error envelope of \<^verbatim>\<open>app/core/errors.py\<close> and the
  result type of every operation that may raise, the string primitives of Python that the
  code uses, and tables as lists of rows with a primary key. The named collections
  \<open>table_simps\<close> and \<open>res_simps\<close> carry the component proofs.
\<close>

named_theorems table_simps
named_theorems res_simps

section \<open>Errors as values\<close>

text \<open>
  One constructor per subclass of \<^verbatim>\<open>AppError\<close>, with its sentence. \<open>Unhandled\<close> is every
  exception that is not an \<^verbatim>\<open>AppError\<close>: the handler answers 500 to it.
\<close>

datatype app_error =
    BadRequest string
  | Unauthorized string
  | Forbidden string
  | NotFound string
  | Conflict string
  | TooManyRequests string
  | Unhandled string

fun status_code :: "app_error \<Rightarrow> nat" where
  "status_code (BadRequest _) = 400"
| "status_code (Unauthorized _) = 401"
| "status_code (Forbidden _) = 403"
| "status_code (NotFound _) = 404"
| "status_code (Conflict _) = 409"
| "status_code (TooManyRequests _) = 429"
| "status_code (Unhandled _) = 500"

text \<open>What the client is shown: the sentence of an \<^verbatim>\<open>AppError\<close>, and never an internal one.\<close>

fun error_detail :: "app_error \<Rightarrow> string" where
  "error_detail (BadRequest d) = d"
| "error_detail (Unauthorized d) = d"
| "error_detail (Forbidden d) = d"
| "error_detail (NotFound d) = d"
| "error_detail (Conflict d) = d"
| "error_detail (TooManyRequests d) = d"
| "error_detail (Unhandled _) = ''Something went wrong. Please try again.''"

type_synonym 'a result = "app_error + 'a"

definition bind_res :: "'a result \<Rightarrow> ('a \<Rightarrow> 'b result) \<Rightarrow> 'b result" where
  "bind_res m f = (case m of Inl e \<Rightarrow> Inl e | Inr x \<Rightarrow> f x)"

text \<open>A guard that raises: \<open>if not c: raise e\<close>.\<close>

definition require :: "bool \<Rightarrow> app_error \<Rightarrow> unit result" where
  "require c e = (if c then Inr () else Inl e)"

lemma bind_res_simps [simp]:
  "bind_res (Inl e) f = Inl e"
  "bind_res (Inr x) f = f x"
  by (simp_all add: bind_res_def)

lemma bind_res_Inr_iff [res_simps]:
  "bind_res m f = Inr y \<longleftrightarrow> (\<exists>x. m = Inr x \<and> f x = Inr y)"
  by (cases m) auto

lemma bind_res_Inl_iff:
  "bind_res m f = Inl e \<longleftrightarrow> m = Inl e \<or> (\<exists>x. m = Inr x \<and> f x = Inl e)"
  by (cases m) auto

lemma bind_res_assoc: "bind_res (bind_res m f) g = bind_res m (\<lambda>x. bind_res (f x) g)"
  by (cases m) auto

lemma require_simps [simp]:
  "require True e = Inr ()"
  "require False e = Inl e"
  by (simp_all add: require_def)

lemma require_Inr_iff [res_simps]: "require c e = Inr u \<longleftrightarrow> c"
  by (simp add: require_def)

lemma require_Inl_iff [res_simps]: "require c e = Inl d \<longleftrightarrow> \<not> c \<and> d = e"
  by (auto simp: require_def)

text \<open>A loop whose body may raise: the first error ends it.\<close>

fun fold_res :: "('a \<Rightarrow> 's \<Rightarrow> 's result) \<Rightarrow> 'a list \<Rightarrow> 's \<Rightarrow> 's result" where
  "fold_res f [] s = Inr s"
| "fold_res f (x # xs) s = bind_res (f x s) (fold_res f xs)"

fun map_res :: "('a \<Rightarrow> 'b result) \<Rightarrow> 'a list \<Rightarrow> 'b list result" where
  "map_res f [] = Inr []"
| "map_res f (x # xs) = bind_res (f x) (\<lambda>y. bind_res (map_res f xs) (\<lambda>ys. Inr (y # ys)))"

lemma map_res_length: "map_res f xs = Inr ys \<Longrightarrow> length ys = length xs"
  by (induction xs arbitrary: ys) (auto simp: res_simps)

lemma map_res_Inr_all2: "map_res f xs = Inr ys \<Longrightarrow> list_all2 (\<lambda>x y. f x = Inr y) xs ys"
  by (induction xs arbitrary: ys) (auto simp: res_simps)

lemma fold_res_invariant:
  assumes "\<And>x s s'. x \<in> set xs \<Longrightarrow> P s \<Longrightarrow> f x s = Inr s' \<Longrightarrow> P s'"
    and "P s" and "fold_res f xs s = Inr s'"
  shows "P s'"
  using assms by (induction xs arbitrary: s) (auto simp: res_simps)

section \<open>Strings\<close>

text \<open>
  Strings are the bytes of the UTF-8 encoding. \<open>is_space\<close> is \<^verbatim>\<open>str.isspace\<close> on ASCII, the set
  that \<^verbatim>\<open>str.strip()\<close> and \<^verbatim>\<open>str.split()\<close> remove.
\<close>

definition is_space :: "char \<Rightarrow> bool" where
  "is_space c \<longleftrightarrow> (let n = (of_char c :: nat) in n = 32 \<or> (9 \<le> n \<and> n \<le> 13) \<or> (28 \<le> n \<and> n \<le> 31))"

definition strip :: "string \<Rightarrow> string" where
  "strip s = rev (dropWhile is_space (rev (dropWhile is_space s)))"

text \<open>\<^verbatim>\<open>"".join(s.split())\<close>\<close>

definition squeeze :: "string \<Rightarrow> string" where
  "squeeze s = filter (\<lambda>c. \<not> is_space c) s"

text \<open>\<^verbatim>\<open>s.split(sep)\<close> for a one-character separator; \<^verbatim>\<open>"".split(",")\<close> is \<^verbatim>\<open>[""]\<close>.\<close>

fun split_on :: "char \<Rightarrow> string \<Rightarrow> string list" where
  "split_on d [] = [[]]"
| "split_on d (c # cs) =
     (if c = d then [] # split_on d cs
      else (case split_on d cs of [] \<Rightarrow> [[c]] | w # ws \<Rightarrow> (c # w) # ws))"

fun join_with :: "string \<Rightarrow> string list \<Rightarrow> string" where
  "join_with sep [] = []"
| "join_with sep [w] = w"
| "join_with sep (w # v # ws) = w @ sep @ join_with sep (v # ws)"

definition is_digit :: "char \<Rightarrow> bool" where
  "is_digit c \<longleftrightarrow> (let n = (of_char c :: nat) in 48 \<le> n \<and> n \<le> 57)"

definition digit_val :: "char \<Rightarrow> nat" where
  "digit_val c = of_char c - 48"

definition digit_char :: "nat \<Rightarrow> char" where
  "digit_char d = char_of (48 + d)"

text \<open>\<^verbatim>\<open>int(s)\<close> on a string of digits.\<close>

definition nat_of_digits :: "string \<Rightarrow> nat" where
  "nat_of_digits s = foldl (\<lambda>acc c. 10 * acc + digit_val c) 0 s"

text \<open>\<^verbatim>\<open>str(n)\<close>\<close>

fun show_nat :: "nat \<Rightarrow> string" where
  "show_nat n = (if n < 10 then [digit_char n] else show_nat (n div 10) @ [digit_char (n mod 10)])"

declare show_nat.simps [simp del]

definition show_int :: "int \<Rightarrow> string" where
  "show_int i = (if i < 0 then CHR ''-'' # show_nat (nat (- i)) else show_nat (nat i))"

lemma digit_char_val [simp]: "d < 10 \<Longrightarrow> digit_val (digit_char d) = d"
  by (simp add: digit_val_def digit_char_def)

lemma digit_char_is_digit [simp]: "d < 10 \<Longrightarrow> is_digit (digit_char d)"
  by (simp add: is_digit_def digit_char_def Let_def)

lemma is_digit_not_space: "is_digit c \<Longrightarrow> \<not> is_space c"
  by (auto simp: is_digit_def is_space_def Let_def)

lemma is_digit_distinct: "is_digit c \<Longrightarrow> c \<noteq> CHR '','' \<and> c \<noteq> CHR ''-''"
  by (auto simp: is_digit_def Let_def)

lemma show_nat_digits: "\<forall>c \<in> set (show_nat n). is_digit c"
proof (induction n rule: show_nat.induct)
  case (1 n)
  then show ?case by (subst show_nat.simps) auto
qed

lemma show_nat_nonempty: "show_nat n \<noteq> []"
  by (subst show_nat.simps) simp

lemma nat_of_digits_snoc: "nat_of_digits (s @ [c]) = 10 * nat_of_digits s + digit_val c"
  by (simp add: nat_of_digits_def)

lemma nat_of_digits_show_nat [simp]: "nat_of_digits (show_nat n) = n"
proof (induction n rule: show_nat.induct)
  case (1 n)
  show ?case
  proof (cases "n < 10")
    case True
    then show ?thesis
      by (subst show_nat.simps) (simp add: nat_of_digits_def)
  next
    case False
    with "1.IH" have "nat_of_digits (show_nat (n div 10)) = n div 10" by simp
    with False show ?thesis
      by (subst show_nat.simps) (simp add: nat_of_digits_snoc)
  qed
qed

lemma split_on_nonempty [simp]: "split_on d s \<noteq> []"
  by (induction s) (auto split: list.splits)

lemma split_on_free: "d \<notin> set s \<Longrightarrow> split_on d s = [s]"
  by (induction s) auto

lemma split_on_append: "d \<notin> set s \<Longrightarrow> split_on d (s @ d # t) = s # split_on d t"
  by (induction s) auto

lemma split_on_join:
  "ws \<noteq> [] \<Longrightarrow> \<forall>w \<in> set ws. d \<notin> set w \<Longrightarrow> split_on d (join_with [d] ws) = ws"
proof (induction ws rule: induct_list012)
  case (3 w v ws)
  then show ?case by (simp add: split_on_append)
qed (simp_all add: split_on_free)

lemma takeWhile_until: "d \<notin> set s \<Longrightarrow> takeWhile (\<lambda>c. c \<noteq> d) (s @ d # t) = s"
  by (induction s) auto

lemma dropWhile_until: "d \<notin> set s \<Longrightarrow> dropWhile (\<lambda>c. c \<noteq> d) (s @ d # t) = d # t"
  by (induction s) auto

lemma squeeze_id: "\<forall>c \<in> set s. \<not> is_space c \<Longrightarrow> squeeze s = s"
  by (simp add: squeeze_def)

text \<open>
  \<^verbatim>\<open>repr\<close> of a string of printable ASCII: single quotes, or double quotes when the string holds
  a single quote and no double one; backslashes and the chosen quote are escaped.
\<close>

definition py_repr :: "string \<Rightarrow> string" where
  "py_repr s =
     (let q = (if CHR 39 \<in> set s \<and> CHR 34 \<notin> set s then CHR 34 else CHR 39) in
      q # concat (map (\<lambda>c. if c = CHR 92 \<or> c = q then [CHR 92, c] else [c]) s) @ [q])"

text \<open>The rupee sign and the dash of the sentences, as UTF-8.\<close>

definition rupee :: string where
  "rupee = [CHR 0xE2, CHR 0x82, CHR 0xB9]"

definition em_dash :: string where
  "em_dash = [CHR 0xE2, CHR 0x80, CHR 0x94]"

text \<open>Python's truth of an optional string: \<^verbatim>\<open>None\<close> and the empty string are false.\<close>

definition truthy :: "string option \<Rightarrow> bool" where
  "truthy s \<longleftrightarrow> s \<noteq> None \<and> s \<noteq> Some []"

definition or_else :: "string option \<Rightarrow> string option \<Rightarrow> string option" where
  "or_else s t = (if truthy s then s else t)"

section \<open>Tables\<close>

text \<open>
  A table is the list of its rows in the order they were inserted, \<open>key\<close> its primary key.
  \<open>fresh_key\<close> is the id the sequence hands to the next row, \<open>put_row\<close> an UPDATE of one row by
  its key, \<open>row_by\<close> the lookup of one row.
\<close>

definition row_by :: "('r \<Rightarrow> nat) \<Rightarrow> 'r list \<Rightarrow> nat \<Rightarrow> 'r option" where
  "row_by key rows i = find (\<lambda>r. key r = i) rows"

definition put_row :: "('r \<Rightarrow> nat) \<Rightarrow> 'r \<Rightarrow> 'r list \<Rightarrow> 'r list" where
  "put_row key r rows = map (\<lambda>x. if key x = key r then r else x) rows"

definition fresh_key :: "('r \<Rightarrow> nat) \<Rightarrow> 'r list \<Rightarrow> nat" where
  "fresh_key key rows = Suc (fold max (map key rows) 0)"

text \<open>\<^verbatim>\<open>.scalars().first()\<close> of a query without an ordering: the first row that matches.\<close>

definition first_where :: "('r \<Rightarrow> bool) \<Rightarrow> 'r list \<Rightarrow> 'r option" where
  "first_where p rows = find p rows"

lemma fold_max_ge: "(a::nat) \<le> fold max xs a \<and> (\<forall>x \<in> set xs. x \<le> fold max xs a)"
proof (induction xs arbitrary: a)
  case (Cons x xs)
  have "max x a \<le> fold max xs (max x a)" and "\<forall>y \<in> set xs. y \<le> fold max xs (max x a)"
    using Cons.IH[of "max x a"] by auto
  then show ?case by auto
qed simp

lemma fresh_key_gt: "r \<in> set rows \<Longrightarrow> key r < fresh_key key rows"
  using fold_max_ge[of 0 "map key rows"] by (force simp: fresh_key_def less_Suc_eq_le)

lemma fresh_key_notin [table_simps]: "fresh_key key rows \<notin> key ` set rows"
proof
  assume "fresh_key key rows \<in> key ` set rows"
  then obtain r where r: "r \<in> set rows" and eq: "key r = fresh_key key rows" by force
  from fresh_key_gt[of r rows key, OF r] eq show False by simp
qed

lemma row_by_SomeD: "row_by key rows i = Some r \<Longrightarrow> r \<in> set rows \<and> key r = i"
  by (auto simp: row_by_def find_Some_iff)

lemma row_by_None_iff: "row_by key rows i = None \<longleftrightarrow> i \<notin> key ` set rows"
  by (auto simp: row_by_def find_None_iff)

lemma row_by_Nil [simp]: "row_by key [] i = None"
  by (simp add: row_by_def)

lemma row_by_Cons [simp]:
  "row_by key (r # rs) i = (if key r = i then Some r else row_by key rs i)"
  by (simp add: row_by_def)

lemma row_by_append [table_simps]:
  "row_by key (rs @ [r]) i =
     (case row_by key rs i of Some x \<Rightarrow> Some x | None \<Rightarrow> if key r = i then Some r else None)"
  by (induction rs) auto

lemma first_where_SomeD: "first_where p rows = Some r \<Longrightarrow> r \<in> set rows \<and> p r"
  by (auto simp: first_where_def find_Some_iff)

lemma first_where_None_iff: "first_where p rows = None \<longleftrightarrow> (\<forall>r \<in> set rows. \<not> p r)"
  by (auto simp: first_where_def find_None_iff)

lemma first_where_simps [simp]:
  "first_where p [] = None"
  "first_where p (r # rs) = (if p r then Some r else first_where p rs)"
  by (simp_all add: first_where_def)

lemma first_where_append [table_simps]:
  "first_where p (rs @ [r]) =
     (case first_where p rs of Some x \<Rightarrow> Some x | None \<Rightarrow> if p r then Some r else None)"
  by (induction rs) auto

lemma first_where_unique:
  "distinct (map f rows) \<Longrightarrow> r \<in> set rows \<Longrightarrow> first_where (\<lambda>x. f x = f r) rows = Some r"
  by (induction rows) force+

lemma put_row_Nil [simp]: "put_row key r [] = []"
  by (simp add: put_row_def)

lemma put_row_Cons [simp]:
  "put_row key r (x # xs) = (if key x = key r then r else x) # put_row key r xs"
  by (simp add: put_row_def)

lemma map_key_put_row [table_simps]: "map key (put_row key r rows) = map key rows"
  by (induction rows) auto

lemma length_put_row [table_simps]: "length (put_row key r rows) = length rows"
  by (simp add: put_row_def)

lemma row_by_put_row [table_simps]:
  "row_by key (put_row key r rows) i =
     (if key r = i then map_option (\<lambda>_. r) (row_by key rows i) else row_by key rows i)"
  by (induction rows) auto

lemma set_put_row_subset: "set (put_row key r rows) \<subseteq> insert r (set rows)"
  by (auto simp: put_row_def)

lemma set_put_row [table_simps]:
  "set (put_row key r rows) =
     {x \<in> set rows. key x \<noteq> key r} \<union> (if key r \<in> key ` set rows then {r} else {})"
  by (induction rows) auto

lemma put_row_absent: "key r \<notin> key ` set rows \<Longrightarrow> put_row key r rows = rows"
  by (induction rows) auto

lemma put_row_id: "r \<in> set rows \<Longrightarrow> distinct (map key rows) \<Longrightarrow> put_row key r rows = rows"
proof (induction rows)
  case (Cons x xs)
  then show ?case
    by (cases "x = r") (auto simp: put_row_absent intro: rev_image_eqI)
qed simp

lemma map_put_row_same:
  "(\<And>x. x \<in> set rows \<Longrightarrow> key x = key r \<Longrightarrow> f x = f r) \<Longrightarrow> map f (put_row key r rows) = map f rows"
  by (induction rows) auto

lemma distinct_key_eq:
  "distinct (map key rows) \<Longrightarrow> r \<in> set rows \<Longrightarrow> x \<in> set rows \<Longrightarrow> key x = key r \<Longrightarrow> x = r"
  by (induction rows) (auto simp: rev_image_eqI)

lemma row_by_distinct: "distinct (map key rows) \<Longrightarrow> r \<in> set rows \<Longrightarrow> row_by key rows (key r) = Some r"
  by (induction rows) force+

lemma distinct_put_row [table_simps]:
  "distinct (map key (put_row key r rows)) = distinct (map key rows)"
  by (simp add: map_key_put_row)

lemma distinct_append_fresh [table_simps]:
  "key r = fresh_key key rows \<Longrightarrow> distinct (map key (rows @ [r])) = distinct (map key rows)"
  using fresh_key_notin[of key rows] by auto

text \<open>A sum over a table after one row changed.\<close>

lemma sum_put_row:
  fixes f :: "'r \<Rightarrow> 'a::ab_group_add"
  assumes "distinct (map key rows)" and "row_by key rows (key r) = Some old"
  shows "sum_list (map f (put_row key r rows)) = sum_list (map f rows) - f old + f r"
  using assms
proof (induction rows)
  case (Cons x xs)
  show ?case
  proof (cases "key x = key r")
    case True
    with Cons.prems have "key r \<notin> key ` set xs" by auto
    then have "put_row key r xs = xs"
      by (rule put_row_absent)
    with True Cons.prems show ?thesis by simp
  next
    case False
    with Cons show ?thesis by simp
  qed
qed simp

lemma filter_put_row_same:
  "(\<And>x. x \<in> set rows \<Longrightarrow> key x = key r \<Longrightarrow> P x = P r) \<Longrightarrow>
   map key (filter P (put_row key r rows)) = map key (filter P rows)"
  by (induction rows) auto

text \<open>A nullable column with a unique constraint: no two rows hold the same value in it.\<close>

definition unique_col :: "('r \<Rightarrow> 'c option) \<Rightarrow> 'r list \<Rightarrow> bool" where
  "unique_col f rows \<longleftrightarrow> distinct (filter (\<lambda>v. v \<noteq> None) (map f rows))"

lemma unique_col_Nil [simp]: "unique_col f []"
  by (simp add: unique_col_def)

lemma unique_col_append [table_simps]:
  "unique_col f (rows @ [r]) \<longleftrightarrow> unique_col f rows \<and> (f r = None \<or> (\<forall>x \<in> set rows. f x \<noteq> f r))"
  by (cases "f r") (auto simp: unique_col_def image_iff)

lemma unique_col_eq:
  "unique_col f rows \<Longrightarrow> x \<in> set rows \<Longrightarrow> y \<in> set rows \<Longrightarrow> f x = f y \<Longrightarrow> f x \<noteq> None \<Longrightarrow> x = y"
  by (induction rows) (force simp: unique_col_def split: if_splits)+

lemma first_where_unique_col:
  assumes "unique_col f rows" and "r \<in> set rows" and "f r = Some v"
  shows "first_where (\<lambda>x. f x = Some v) rows = Some r"
proof (cases "first_where (\<lambda>x. f x = Some v) rows")
  case None
  then show ?thesis using assms(2,3) by (auto simp: first_where_None_iff)
next
  case (Some x)
  then have "x \<in> set rows" "f x = Some v" by (auto dest: first_where_SomeD)
  with unique_col_eq[OF assms(1) this(1) assms(2)] assms(3) Some show ?thesis by simp
qed

lemma unique_col_put_row:
  assumes "unique_col f rows" and "distinct (map key rows)"
    and "f r = None \<or> (\<forall>x \<in> set rows. key x \<noteq> key r \<longrightarrow> f x \<noteq> f r)"
  shows "unique_col f (put_row key r rows)"
  using assms
proof (induction rows)
  case (Cons x xs)
  show ?case
  proof (cases "key x = key r")
    case True
    then have "key r \<notin> key ` set xs" using Cons.prems(2) by auto
    then have "put_row key r xs = xs \<and> (\<forall>y \<in> set xs. key y \<noteq> key r)"
      using put_row_absent[of key r xs] by (metis image_eqI)
    with True Cons.prems show ?thesis by (auto simp: unique_col_def split: if_splits)
  next
    case False
    with Cons show ?thesis by (fastforce simp: unique_col_def put_row_def split: if_splits)
  qed
qed simp

section \<open>Sums in buckets\<close>

lemma sum_list_bump:
  fixes h :: "'d \<Rightarrow> 'a::comm_monoid_add"
  shows "distinct ds \<Longrightarrow> k \<in> set ds \<Longrightarrow> sum_list (map (\<lambda>d. if k = d then v + h d else h d) ds) = v + sum_list (map h ds)"
proof (induction ds)
  case (Cons d ds)
  show ?case
  proof (cases "k = d")
    case True
    then have same: "map (\<lambda>d. if k = d then v + h d else h d) ds = map h ds" using Cons.prems by (intro map_cong) auto
    show ?thesis unfolding list.map sum_list.Cons same using True by (simp add: add.assoc)
  next
    case False
    with Cons show ?thesis by (simp add: add.left_commute)
  qed
qed simp

text \<open>Rows grouped by a key, summed group by group, sum to the whole.\<close>

lemma sum_list_buckets:
  fixes f :: "'r \<Rightarrow> 'a::comm_monoid_add"
  assumes "distinct ds" and "\<forall>x \<in> set xs. g x \<in> set ds"
  shows "sum_list (map (\<lambda>d. sum_list (map f (filter (\<lambda>x. g x = d) xs))) ds) = sum_list (map f xs)"
  using assms(2)
proof (induction xs)
  case (Cons x xs)
  have "map (\<lambda>d. sum_list (map f (filter (\<lambda>y. g y = d) (x # xs)))) ds
      = map (\<lambda>d. if g x = d then f x + sum_list (map f (filter (\<lambda>y. g y = d) xs))
                else sum_list (map f (filter (\<lambda>y. g y = d) xs))) ds" by (intro map_cong) auto
  then show ?case
    unfolding sum_list_bump[OF assms(1), of "g x" "f x" "\<lambda>d. sum_list (map f (filter (\<lambda>y. g y = d) xs))",
      OF Cons.prems[unfolded list.set ball_simps, THEN conjunct1]]
    using Cons.IH Cons.prems
      sum_list_bump[OF assms(1), of "g x" "f x" "\<lambda>d. sum_list (map f (filter (\<lambda>y. g y = d) xs))"]
    by (simp only: list.map sum_list.Cons list.set_intros(1)) simp
qed simp

end
