(* ===== verification/Money.thy ===== *)
theory Money
  imports Prelude
begin

text \<open>
  \<^verbatim>\<open>app/core/money.py\<close>: rupees as exact decimals (\<open>rat\<close>), quantised to two places with
  ROUND_HALF_UP, which rounds ties away from zero. \<open>is_money\<close> is the set of values that a
  \<^verbatim>\<open>Numeric(10, 2)\<close> column holds; the lemmas show it is closed under the arithmetic the code
  does, so that quantising again changes nothing.
\<close>

section \<open>The operations\<close>

definition TWO_PLACES :: rat where
  "TWO_PLACES = 1 / 100"

definition round_half_up :: "rat \<Rightarrow> int" where
  "round_half_up x = (if x < 0 then - \<lfloor>- x + 1 / 2\<rfloor> else \<lfloor>x + 1 / 2\<rfloor>)"

definition as_money :: "rat \<Rightarrow> rat" where
  "as_money v = of_int (round_half_up (v / TWO_PLACES)) * TWO_PLACES"

text \<open>\<^verbatim>\<open>int(x)\<close> truncates towards zero.\<close>

definition py_int :: "rat \<Rightarrow> int" where
  "py_int x = (if x < 0 then - \<lfloor>- x\<rfloor> else \<lfloor>x\<rfloor>)"

definition to_paise :: "rat \<Rightarrow> int" where
  "to_paise v = py_int (as_money v * 100)"

definition from_paise :: "int \<Rightarrow> rat" where
  "from_paise p = as_money (of_int p / 100)"

definition sum_money :: "rat list \<Rightarrow> rat" where
  "sum_money vs = as_money (foldl (+) 0 vs)"

text \<open>\<^verbatim>\<open>f"{v}"\<close> of a two-place decimal.\<close>

definition show_money :: "rat \<Rightarrow> string" where
  "show_money v =
     (let p = to_paise v; q = nat \<bar>p\<bar> in
      (if p < 0 then ''-'' else []) @ show_nat (q div 100) @ ''.'' @
      [digit_char (q mod 100 div 10), digit_char (q mod 10)])"

text \<open>Closed rational floors evaluate.\<close>

lemma floor_rat_numeral [simp]:
  "\<lfloor>numeral a / numeral b :: rat\<rfloor> = numeral a div numeral b"
  "\<lfloor>1 / numeral b :: rat\<rfloor> = 1 div numeral b"
  using floor_divide_of_int_eq[of "numeral a" "numeral b", where 'a = rat]
    floor_divide_of_int_eq[of 1 "numeral b", where 'a = rat] by simp_all

section \<open>Values with two places\<close>

definition is_money :: "rat \<Rightarrow> bool" where
  "is_money v \<longleftrightarrow> as_money v = v"

lemma round_half_up_of_int [simp]: "round_half_up (of_int k) = k"
proof (cases "k < 0")
  case True
  have "\<lfloor>- of_int k + 1 / 2 :: rat\<rfloor> = - k"
    by (rule floor_unique) (simp_all)
  with True show ?thesis by (simp add: round_half_up_def)
next
  case False
  have "\<lfloor>of_int k + 1 / 2 :: rat\<rfloor> = k"
    by (rule floor_unique) (simp_all)
  with False show ?thesis by (simp add: round_half_up_def)
qed

lemma as_money_hundredth [simp]: "as_money (of_int k / 100) = of_int k / 100"
  by (simp add: as_money_def TWO_PLACES_def)

lemma is_money_iff: "is_money v \<longleftrightarrow> (\<exists>k. v = of_int k / 100)"
proof
  assume "is_money v"
  then have "v = of_int (round_half_up (v / TWO_PLACES)) / 100"
    by (simp add: is_money_def as_money_def TWO_PLACES_def)
  then show "\<exists>k. v = of_int k / 100" by blast
next
  assume "\<exists>k. v = of_int k / 100"
  then obtain k where "v = of_int k / 100" ..
  then show "is_money v" by (simp only: is_money_def as_money_hundredth)
qed

lemma as_money_id [simp]: "is_money v \<Longrightarrow> as_money v = v"
  by (simp add: is_money_def)

lemma is_money_as_money [simp, intro]: "is_money (as_money v)"
  by (auto simp: is_money_iff as_money_def TWO_PLACES_def)

lemma is_money_0 [simp]: "is_money 0"
  by (auto simp: is_money_iff intro: exI[of _ 0])

lemma is_money_of_int [simp]: "is_money (of_int n)"
  by (auto simp: is_money_iff intro: exI[of _ "100 * n"])

lemma is_money_numeral [simp]: "is_money (numeral n)"
  using is_money_of_int[of "numeral n"] by simp

lemma is_money_1 [simp]: "is_money 1"
  using is_money_of_int[of 1] by simp

lemma is_money_add [simp]: "is_money a \<Longrightarrow> is_money b \<Longrightarrow> is_money (a + b)"
proof (unfold is_money_iff, elim exE)
  fix i j assume "a = of_int i / 100" "b = of_int j / 100"
  then show "\<exists>k. a + b = of_int k / 100"
    by (intro exI[of _ "i + j"]) (simp add: add_divide_distrib)
qed

lemma is_money_minus [simp]: "is_money a \<Longrightarrow> is_money (- a)"
proof (unfold is_money_iff, elim exE)
  fix i assume "a = of_int i / 100"
  then show "\<exists>k. - a = of_int k / 100" by (intro exI[of _ "- i"]) simp
qed

lemma is_money_diff [simp]: "is_money a \<Longrightarrow> is_money b \<Longrightarrow> is_money (a - b)"
  using is_money_add[of a "- b"] by simp

lemma is_money_mult_int [simp]: "is_money a \<Longrightarrow> is_money (a * of_int n)"
proof (unfold is_money_iff, elim exE)
  fix i assume "a = of_int i / 100"
  then show "\<exists>k. a * of_int n = of_int k / 100" by (intro exI[of _ "i * n"]) simp
qed

lemma is_money_min [simp]: "is_money a \<Longrightarrow> is_money b \<Longrightarrow> is_money (min a b)"
  by (simp add: min_def)

lemma is_money_max [simp]: "is_money a \<Longrightarrow> is_money b \<Longrightarrow> is_money (max a b)"
  by (simp add: max_def)

lemma foldl_plus_sum: "foldl (+) (a::rat) vs = a + sum_list vs"
  by (induction vs arbitrary: a) (auto simp: add.assoc)

lemma is_money_sum_list [simp]: "\<forall>v \<in> set vs. is_money v \<Longrightarrow> is_money (sum_list vs)"
  by (induction vs) auto

lemma sum_money_exact: "\<forall>v \<in> set vs. is_money v \<Longrightarrow> sum_money vs = sum_list vs"
  by (simp add: sum_money_def foldl_plus_sum)

section \<open>Rounding\<close>

lemma round_half_up_bounds: "\<bar>of_int (round_half_up x) - x\<bar> \<le> 1 / 2"
  unfolding round_half_up_def abs_le_iff by (cases "x < 0") (simp; linarith)+

lemma round_half_up_mono: "x \<le> y \<Longrightarrow> round_half_up x \<le> round_half_up y"
proof -
  assume le: "x \<le> y"
  consider "y < 0" | "x < 0" "0 \<le> y" | "0 \<le> x" using le by linarith
  then show ?thesis
  proof cases
    case 1
    then have "\<lfloor>- y + 1 / 2\<rfloor> \<le> \<lfloor>- x + 1 / 2\<rfloor>" using le by (intro floor_mono) simp
    with 1 le show ?thesis by (simp add: round_half_up_def)
  next
    case 2
    then have "0 \<le> \<lfloor>- x + 1 / 2\<rfloor>" and "0 \<le> \<lfloor>y + 1 / 2\<rfloor>" by simp_all
    then have "- \<lfloor>- x + 1 / 2\<rfloor> \<le> \<lfloor>y + 1 / 2\<rfloor>" by linarith
    with 2 show ?thesis by (simp only: round_half_up_def) simp
  next
    case 3
    then have "\<lfloor>x + 1 / 2\<rfloor> \<le> \<lfloor>y + 1 / 2\<rfloor>" using le by (intro floor_mono) simp
    with 3 le show ?thesis by (simp add: round_half_up_def)
  qed
qed

lemma as_money_mono: "x \<le> y \<Longrightarrow> as_money x \<le> as_money y"
  by (simp add: as_money_def TWO_PLACES_def round_half_up_mono divide_right_mono)

lemma as_money_nonneg: "0 \<le> x \<Longrightarrow> 0 \<le> as_money x"
  using as_money_mono[of 0 x] by simp

lemma as_money_near: "\<bar>as_money v - v\<bar> \<le> 1 / 200"
proof -
  have "\<bar>of_int (round_half_up (v * 100)) - v * 100\<bar> \<le> 1 / 2"
    by (rule round_half_up_bounds)
  then show ?thesis by (simp add: as_money_def TWO_PLACES_def abs_le_iff field_simps)
qed

lemma py_int_of_int [simp]: "py_int (of_int k) = k"
  by (simp add: py_int_def)

text \<open>
  (Property). Quantising moves a value by at most half a paisa, and never reorders two values: a
  larger sum is never quantised below a smaller one.
\<close>

theorem as_money_nearest:
  "\<bar>as_money v - v\<bar> \<le> 1 / 200 \<and> is_money (as_money v) \<and> (v \<le> w \<longrightarrow> as_money v \<le> as_money w)"
  using as_money_near[of v] by (auto simp: as_money_mono)

theorem as_money_nearest_witness:
  "(1005 / 1000 :: rat) \<le> 2 \<and> as_money (1005 / 1000) = 101 / 100 \<and> as_money (1005 / 1000) \<le> as_money 2"
  using as_money_nearest[of "1005 / 1000" 2]
  by (simp add: as_money_def TWO_PLACES_def round_half_up_def)

text \<open>
  (Property). Rupees survive the trip to Razorpay and back: a two-place amount sent as integer paise
  and read back is the same amount, and integer paise read as rupees and sent again are the
  same paise.
\<close>

theorem paise_roundtrip: "from_paise (to_paise v) = as_money v \<and> to_paise (from_paise p) = p"
proof -
  obtain k where k: "as_money v = of_int k / 100"
    using is_money_as_money[of v] by (auto simp: is_money_iff)
  then have "to_paise v = k" by (simp add: to_paise_def)
  with k have "from_paise (to_paise v) = as_money v" by (simp add: from_paise_def)
  moreover have "to_paise (from_paise p) = p" by (simp add: to_paise_def from_paise_def)
  ultimately show ?thesis by simp
qed

end
