(* ===== verification/Ids.thy ===== *)
theory Ids
  imports Money
begin

text \<open>
  The foundation every module shares: opaque prefixed ids (\<^verbatim>\<open>app/core/ids.py\<close>), the part of
  the database session that belongs to no module (\<open>core_db\<close>: the transaction's clock, the
  random source ids are drawn from, and the wakes queued on \<^verbatim>\<open>Session.info\<close>) and the wake
  bus (\<^verbatim>\<open>app/core/bus.py\<close>).
\<close>

section \<open>Public ids\<close>

definition ALPHABET :: string where
  "ALPHABET = ''0123456789abcdefghjkmnpqrstvwxyz''"

definition BODY_LENGTH :: nat where
  "BODY_LENGTH = 16"

datatype id_prefix =
    USER | KIOSK | DEVICE | DOCUMENT | ORDER | PRINT_TASK | PAYMENT | REFUND
  | WALLET_ENTRY | SUBSCRIPTION | ALERT | PAYMENT_CONFIG_CHANGE | DEVICE_COMMAND

fun prefix_value :: "id_prefix \<Rightarrow> string" where
  "prefix_value USER = ''usr''"
| "prefix_value KIOSK = ''ksk''"
| "prefix_value DEVICE = ''dev''"
| "prefix_value DOCUMENT = ''doc''"
| "prefix_value ORDER = ''ord''"
| "prefix_value PRINT_TASK = ''tsk''"
| "prefix_value PAYMENT = ''pay''"
| "prefix_value REFUND = ''rfd''"
| "prefix_value WALLET_ENTRY = ''wlt''"
| "prefix_value SUBSCRIPTION = ''sub''"
| "prefix_value ALERT = ''alr''"
| "prefix_value PAYMENT_CONFIG_CHANGE = ''pcr''"
| "prefix_value DEVICE_COMMAND = ''cmd''"

text \<open>\<open>choice\<close> is the random source: \<open>choice i\<close> picks the i-th letter of the body.\<close>

definition new_id :: "id_prefix \<Rightarrow> (nat \<Rightarrow> nat) \<Rightarrow> string" where
  "new_id prefix choice =
     prefix_value prefix @ ''_'' @
     map (\<lambda>i. ALPHABET ! (choice i mod length ALPHABET)) [0..<BODY_LENGTH]"

text \<open>The three refusals of \<^verbatim>\<open>parse_id\<close>, all \<^verbatim>\<open>InvalidId\<close> in the code.\<close>

datatype invalid_id = Malformed | WrongKind | MalformedBody

text \<open>\<^verbatim>\<open>value.partition("_")\<close> on a value that holds an underscore.\<close>

definition partition_at :: "char \<Rightarrow> string \<Rightarrow> string \<times> string" where
  "partition_at d s = (takeWhile (\<lambda>c. c \<noteq> d) s, drop 1 (dropWhile (\<lambda>c. c \<noteq> d) s))"

definition parse_id :: "string \<Rightarrow> id_prefix \<Rightarrow> invalid_id + string" where
  "parse_id v expected =
     (if CHR ''_'' \<notin> set v then Inl Malformed
      else let (prefix, body) = partition_at (CHR ''_'') v in
        if prefix \<noteq> prefix_value expected then Inl WrongKind
        else if length body \<noteq> BODY_LENGTH \<or> \<not> list_all (\<lambda>c. c \<in> set ALPHABET) body
        then Inl MalformedBody
        else Inr body)"

lemma prefix_value_inject [simp]: "prefix_value p = prefix_value q \<longleftrightarrow> p = q"
  by (cases p; cases q) simp_all

lemma prefix_value_no_underscore [simp]: "CHR ''_'' \<notin> set (prefix_value p)"
  by (cases p) simp_all

lemma length_ALPHABET [simp]: "length ALPHABET = 32"
  by (simp add: ALPHABET_def)

lemma partition_at_first:
  "d \<notin> set s \<Longrightarrow> partition_at d (s @ d # t) = (s, t)"
  by (simp add: partition_at_def takeWhile_until dropWhile_until)

text \<open>
  (Property). A freshly minted id parses under its own prefix and under no other: an id of the wrong
  kind is refused as such, so a document id can never pass for a kiosk id.
\<close>

theorem parse_new_id:
  "parse_id (new_id p choice) q =
     (if p = q then Inr (map (\<lambda>i. ALPHABET ! (choice i mod 32)) [0..<16]) else Inl WrongKind)"
proof -
  let ?b = "map (\<lambda>i. ALPHABET ! (choice i mod 32)) [0..<16]"
  have v: "new_id p choice = prefix_value p @ CHR ''_'' # ?b"
    by (simp add: new_id_def BODY_LENGTH_def)
  have "partition_at (CHR ''_'') (new_id p choice) = (prefix_value p, ?b)"
    unfolding v by (rule partition_at_first) simp
  moreover have "list_all (\<lambda>c. c \<in> set ALPHABET) ?b"
    by (simp add: list_all_iff)
  moreover have "CHR ''_'' \<in> set (new_id p choice)"
    by (simp add: v)
  ultimately show ?thesis
    by (simp add: parse_id_def BODY_LENGTH_def del: upt_Suc upt_conv_Cons)
qed

lemma parse_id_SomeD:
  "parse_id v p = Inr body \<Longrightarrow> \<exists>rest. v = prefix_value p @ CHR ''_'' # rest \<and> body = rest"
proof -
  assume p: "parse_id v p = Inr body"
  then have u: "CHR ''_'' \<in> set v"
    by (auto simp: parse_id_def split: if_splits)
  then obtain a b where v: "v = a @ CHR ''_'' # b" and a: "CHR ''_'' \<notin> set a"
    by (meson split_list_first)
  with p show ?thesis
    by (auto simp: parse_id_def partition_at_first split: if_splits)
qed

section \<open>The session\<close>

text \<open>
  \<open>tx_now\<close> is Postgres's \<^verbatim>\<open>now()\<close>, the start of the transaction, which fills every
  \<^verbatim>\<open>server_default=func.now()\<close> column. Instants are microseconds. \<open>entropy\<close> is the random
  source and \<open>drawn\<close> how much of it has been used. \<open>kiosks_to_wake\<close> is the set kept under
  \<^verbatim>\<open>WAKE_KEY\<close> in \<^verbatim>\<open>Session.info\<close>. Each module extends this record with its own tables.
\<close>

type_synonym datetime = int

record core_db =
  tx_now :: datetime
  entropy :: "nat \<Rightarrow> nat"
  drawn :: nat
  kiosks_to_wake :: "nat list"

definition seconds :: "int \<Rightarrow> datetime" where
  "seconds n = n * 1000000"

definition minutes :: "int \<Rightarrow> datetime" where
  "minutes n = seconds (60 * n)"

definition hours :: "int \<Rightarrow> datetime" where
  "hours n = minutes (60 * n)"

definition days :: "int \<Rightarrow> datetime" where
  "days n = hours (24 * n)"

lemma minutes_pos [simp]: "0 < n \<Longrightarrow> 0 < minutes n"
  by (simp add: minutes_def seconds_def)

lemma days_pos [simp]: "0 < n \<Longrightarrow> 0 < days n"
  by (simp add: days_def hours_def minutes_def seconds_def)

lemma days_mono [simp]: "days m \<le> days n \<longleftrightarrow> m \<le> n"
  by (simp add: days_def hours_def minutes_def seconds_def)

text \<open>The \<^verbatim>\<open>default=lambda: new_id(...)\<close> of a \<^verbatim>\<open>public_id\<close> column.\<close>

definition mint :: "id_prefix \<Rightarrow> 'a core_db_scheme \<Rightarrow> string \<times> 'a core_db_scheme" where
  "mint p db = (new_id p (\<lambda>i. entropy db (drawn db + i)), db\<lparr>drawn := drawn db + BODY_LENGTH\<rparr>)"

section \<open>Waking a kiosk\<close>

definition CHANNEL_PREFIX :: string where
  "CHANNEL_PREFIX = ''kiosk.wake''"

definition WAKE :: string where
  "WAKE = ''wake''"

definition channel :: "nat \<Rightarrow> string" where
  "channel kiosk_id = CHANNEL_PREFIX @ ''.'' @ show_nat kiosk_id"

text \<open>
  \<open>publish\<close> is Redis: it may raise (\<open>None\<close>), and \<^verbatim>\<open>RedisBus.wake\<close> swallows that.
\<close>

definition wake :: "(string \<Rightarrow> string \<Rightarrow> 'b \<Rightarrow> 'b option) \<Rightarrow> nat \<Rightarrow> 'b \<Rightarrow> 'b" where
  "wake publish kiosk_id b = (case publish (channel kiosk_id) WAKE b of None \<Rightarrow> b | Some b' \<Rightarrow> b')"

definition mark_for_wake :: "nat \<Rightarrow> 'a core_db_scheme \<Rightarrow> 'a core_db_scheme" where
  "mark_for_wake kiosk_id db = db\<lparr>kiosks_to_wake := List.insert kiosk_id (kiosks_to_wake db)\<rparr>"

definition flush_wakes ::
  "(string \<Rightarrow> string \<Rightarrow> 'b \<Rightarrow> 'b option) \<Rightarrow> 'a core_db_scheme \<Rightarrow> 'b \<Rightarrow> 'a core_db_scheme \<times> 'b" where
  "flush_wakes publish db b =
     (let pending = kiosks_to_wake db; db' = db\<lparr>kiosks_to_wake := []\<rparr> in
      if pending = [] then (db', b) else (db', fold (wake publish) pending b))"

lemma flush_wakes_drains: "kiosks_to_wake (fst (flush_wakes publish db b)) = []"
  by (simp add: flush_wakes_def Let_def)

lemma flush_wakes_again:
  "flush_wakes publish (fst (flush_wakes publish db b)) b' = (fst (flush_wakes publish db b), b')"
  by (simp add: flush_wakes_def Let_def)

lemma mark_for_wake_set [simp]:
  "set (kiosks_to_wake (mark_for_wake k db)) = insert k (set (kiosks_to_wake db))"
  by (simp add: mark_for_wake_def)

lemma mark_for_wake_distinct:
  "distinct (kiosks_to_wake db) \<Longrightarrow> distinct (kiosks_to_wake (mark_for_wake k db))"
  by (simp add: mark_for_wake_def)

end
