(* ===== verification/RateLimit.thy ===== *)
theory RateLimit
  imports Ids "HOL-Library.AList"
begin

text \<open>
  \<^verbatim>\<open>app/core/ratelimit.py\<close>: counting in a window aligned to the clock, over two stores. The
  in-process dictionary is \<open>memory_hit\<close>; \<open>redis_hit\<close> runs the INCR/EXPIRE pipeline of a Redis
  server, which is a parameter. The claim of the module docstring, that both stores answer
  identically, is a theorem under the documented behaviour of INCR and EXPIRE. Time is an
  exact number of seconds.
\<close>

section \<open>Decisions\<close>

record decision =
  allowed :: bool
  retry_after :: int

definition ALLOWED :: decision where
  "ALLOWED = \<lparr>allowed = True, retry_after = 0\<rparr>"

definition window_of :: "rat \<Rightarrow> int \<Rightarrow> int \<times> rat" where
  "window_of now window_seconds =
     (let index = \<lfloor>now / of_int window_seconds\<rfloor> in (index, of_int ((index + 1) * window_seconds)))"

definition refusal :: "rat \<Rightarrow> rat \<Rightarrow> decision" where
  "refusal now ends_at = \<lparr>allowed = False, retry_after = max 1 \<lceil>ends_at - now\<rceil>\<rparr>"

section \<open>The two stores\<close>

type_synonym bucket = "string \<times> int \<times> int"
type_synonym memory_counts = "(bucket \<times> (int \<times> rat)) list"

definition sweep :: "rat \<Rightarrow> memory_counts \<Rightarrow> memory_counts" where
  "sweep now counts = filter (\<lambda>(b, (c, ends_at)). now < ends_at) counts"

definition memory_hit ::
  "string \<Rightarrow> int \<Rightarrow> int \<Rightarrow> rat \<Rightarrow> memory_counts \<Rightarrow> decision \<times> memory_counts" where
  "memory_hit key limit window_seconds now counts =
     (let (index, ends_at) = window_of now window_seconds;
          live = sweep now counts;
          bucket = (key, window_seconds, index);
          count = (case map_of live bucket of None \<Rightarrow> 0 | Some (c, _) \<Rightarrow> c)
      in if limit \<le> count then (refusal now ends_at, live)
         else (ALLOWED, AList.update bucket (count + 1, ends_at) live))"

definition tracked :: "memory_counts \<Rightarrow> nat" where
  "tracked counts = length counts"

definition redis_key :: "string \<Rightarrow> int \<Rightarrow> int \<Rightarrow> string" where
  "redis_key key window_seconds index =
     ''rl:'' @ key @ '':'' @ show_int window_seconds @ '':'' @ show_int index"

text \<open>
  \<open>pipeline now key ttl r\<close> is \<^verbatim>\<open>INCR key; EXPIRE key ttl\<close> at the server: the count after the
  increment and the server's state, or \<open>None\<close> when the server cannot be reached.
\<close>

definition redis_hit ::
  "(rat \<Rightarrow> string \<Rightarrow> int \<Rightarrow> 'r \<Rightarrow> (int \<times> 'r) option) \<Rightarrow>
   string \<Rightarrow> int \<Rightarrow> int \<Rightarrow> rat \<Rightarrow> 'r \<Rightarrow> decision \<times> 'r" where
  "redis_hit pipeline key limit window_seconds now r =
     (let (index, ends_at) = window_of now window_seconds in
      case pipeline now (redis_key key window_seconds index) (window_seconds * 2) r of
        None \<Rightarrow> (ALLOWED, r)
      | Some (count, r') \<Rightarrow> (if limit < count then refusal now ends_at else ALLOWED, r'))"

text \<open>A run of hits under one limit and window, each a key and the time it arrives.\<close>

fun memory_run :: "int \<Rightarrow> int \<Rightarrow> (string \<times> rat) list \<Rightarrow> memory_counts \<Rightarrow> decision list" where
  "memory_run limit w [] m = []"
| "memory_run limit w ((key, now) # hits) m =
     (let (d, m') = memory_hit key limit w now m in d # memory_run limit w hits m')"

fun redis_run ::
  "(rat \<Rightarrow> string \<Rightarrow> int \<Rightarrow> 'r \<Rightarrow> (int \<times> 'r) option) \<Rightarrow>
   int \<Rightarrow> int \<Rightarrow> (string \<times> rat) list \<Rightarrow> 'r \<Rightarrow> decision list" where
  "redis_run pipeline limit w [] r = []"
| "redis_run pipeline limit w ((key, now) # hits) r =
     (let (d, r') = redis_hit pipeline key limit w now r in d # redis_run pipeline limit w hits r')"

section \<open>Windows and keys\<close>

lemma window_of_bounds:
  assumes "0 < w" and "window_of now w = (index, ends_at)"
  shows "of_int (index * w) \<le> now" and "now < ends_at" and "ends_at = of_int ((index + 1) * w)"
proof -
  have i: "index = \<lfloor>now / of_int w\<rfloor>" and e: "ends_at = of_int ((index + 1) * w)"
    using assms(2) by (auto simp: window_of_def Let_def)
  have lo: "of_int index \<le> now / of_int w" unfolding i by (rule of_int_floor_le)
  have hi: "now / of_int w < of_int index + 1" unfolding i by linarith
  have w: "(0::rat) < of_int w" using assms(1) by simp
  show "of_int (index * w) \<le> now"
    using lo w by (simp add: pos_le_divide_eq)
  show "now < ends_at"
    using hi w by (simp add: e pos_divide_less_eq algebra_simps)
  show "ends_at = of_int ((index + 1) * w)" by (rule e)
qed

lemma refusal_retry_bounds:
  assumes "0 < w" and "window_of now w = (index, ends_at)"
  shows "1 \<le> retry_after (refusal now ends_at) \<and> retry_after (refusal now ends_at) \<le> max 1 w"
proof -
  note b = window_of_bounds[OF assms]
  have "ends_at - now \<le> of_int w"
    using b(1,3) by (simp add: algebra_simps)
  then have "\<lceil>ends_at - now\<rceil> \<le> w" by (simp add: ceiling_le_iff)
  then show ?thesis by (auto simp: refusal_def)
qed

lemma show_int_no_colon: "CHR '':'' \<notin> set (show_int i)"
proof -
  have "CHR '':'' \<notin> set (show_nat n)" for n
    using show_nat_digits[of n] by (auto simp: is_digit_def Let_def)
  then show ?thesis by (simp add: show_int_def)
qed

lemma show_nat_inject: "show_nat m = show_nat n \<longleftrightarrow> m = n"
  by (metis nat_of_digits_show_nat)

lemma show_int_inject: "show_int i = show_int j \<longleftrightarrow> i = j"
proof -
  have m: "CHR ''-'' \<notin> set (show_nat n)" for n
    using show_nat_digits[of n] by (auto simp: is_digit_def Let_def)
  have "show_nat a \<noteq> CHR ''-'' # xs" for a xs
    using m[of a] by (metis list.set_intros(1))
  then show ?thesis
    by (auto simp: show_int_def show_nat_inject not_less) (metis)+
qed

lemma last_field_unique:
  assumes "a @ d # b = a' @ d # b'" and "d \<notin> set b" and "d \<notin> set b'"
  shows "a = a' \<and> b = b'"
proof -
  have "takeWhile (\<lambda>c. c \<noteq> d) (rev (a @ d # b)) = rev b"
    using assms(2) by (simp add: takeWhile_until)
  moreover have "takeWhile (\<lambda>c. c \<noteq> d) (rev (a' @ d # b')) = rev b'"
    using assms(3) by (simp add: takeWhile_until)
  ultimately have "b = b'" using assms(1) by (metis rev_rev_ident)
  with assms(1) show ?thesis by simp
qed

lemma redis_key_inject:
  assumes "redis_key k w i = redis_key k' w' i'"
  shows "k = k' \<and> w = w' \<and> i = i'"
proof -
  have "(''rl:'' @ k @ '':'' @ show_int w) @ CHR '':'' # show_int i =
        (''rl:'' @ k' @ '':'' @ show_int w') @ CHR '':'' # show_int i'"
    using assms by (simp add: redis_key_def)
  then have 1: "''rl:'' @ k @ '':'' @ show_int w = ''rl:'' @ k' @ '':'' @ show_int w'"
    and i: "show_int i = show_int i'"
    using last_field_unique[OF _ show_int_no_colon show_int_no_colon] by blast+
  from 1 have "(''rl:'' @ k) @ CHR '':'' # show_int w = (''rl:'' @ k') @ CHR '':'' # show_int w'"
    by simp
  then have "''rl:'' @ k = ''rl:'' @ k'" and "show_int w = show_int w'"
    using last_field_unique[OF _ show_int_no_colon show_int_no_colon] by blast+
  with i show ?thesis by (simp add: show_int_inject)
qed

section \<open>What every store promises\<close>

text \<open>
  The \<^verbatim>\<open>Counter\<close> protocol: an allowed hit carries no delay, and a refused one never tells the
  caller to come back at once, nor later than one window.
\<close>

locale rate_counter =
  fixes hit :: "string \<Rightarrow> int \<Rightarrow> int \<Rightarrow> rat \<Rightarrow> 's \<Rightarrow> decision \<times> 's"
  assumes allowed_now: "allowed (fst (hit key limit w now s)) \<Longrightarrow> retry_after (fst (hit key limit w now s)) = 0"
    and refused_later: "0 < w \<Longrightarrow> \<not> allowed (fst (hit key limit w now s)) \<Longrightarrow>
      1 \<le> retry_after (fst (hit key limit w now s)) \<and> retry_after (fst (hit key limit w now s)) \<le> w"
begin

lemma allowed_iff_no_delay:
  "0 < w \<Longrightarrow> allowed (fst (hit key limit w now s)) \<longleftrightarrow> retry_after (fst (hit key limit w now s)) = 0"
  using allowed_now[of key limit w now s] refused_later[of w key limit now s] by fastforce

end

lemma refusal_bounds:
  assumes "0 < w" and "window_of now w = (index, ends_at)"
  shows "1 \<le> retry_after (refusal now ends_at) \<and> retry_after (refusal now ends_at) \<le> w"
  using refusal_retry_bounds[OF assms] assms(1) by auto

interpretation memory: rate_counter memory_hit
  by unfold_locales
    (auto simp: memory_hit_def Let_def ALLOWED_def split: prod.splits if_splits
       dest!: refusal_bounds, simp_all add: refusal_def)

interpretation redis: rate_counter "redis_hit pipeline"
  by unfold_locales
    (auto simp: redis_hit_def ALLOWED_def split: prod.splits if_splits option.splits
       dest!: refusal_bounds, simp_all add: refusal_def)

section \<open>Both stores answer identically\<close>

text \<open>
  The documented behaviour of the pipeline: \<open>cnt r t k\<close> is the live value of key \<open>k\<close> at time
  \<open>t\<close> (0 when missing or expired). INCR returns that value plus one; EXPIRE keeps the key for
  \<open>ttl\<close> seconds; no other key is touched.
\<close>

definition redis_counts ::
  "('r \<Rightarrow> rat \<Rightarrow> string \<Rightarrow> int) \<Rightarrow> (rat \<Rightarrow> string \<Rightarrow> int \<Rightarrow> 'r \<Rightarrow> (int \<times> 'r) option) \<Rightarrow> bool" where
  "redis_counts cnt pipeline \<longleftrightarrow>
     (\<forall>t k ttl r. \<exists>r'. pipeline t k ttl r = Some (cnt r t k + 1, r') \<and>
        (\<forall>t'. t \<le> t' \<and> t' < t + of_int ttl \<longrightarrow> cnt r' t' k = cnt r t k + 1) \<and>
        (\<forall>k' t'. k' \<noteq> k \<longrightarrow> cnt r' t' k' = cnt r t' k'))"

definition mem_count :: "memory_counts \<Rightarrow> bucket \<Rightarrow> int" where
  "mem_count m b = (case map_of m b of None \<Rightarrow> 0 | Some (c, _) \<Rightarrow> c)"

definition mem_wf :: "memory_counts \<Rightarrow> bool" where
  "mem_wf m \<longleftrightarrow> distinct (map fst m) \<and>
     (\<forall>(b, (c, e)) \<in> set m. e = of_int ((snd (snd b) + 1) * fst (snd b)))"

definition stores_agree ::
  "('r \<Rightarrow> rat \<Rightarrow> string \<Rightarrow> int) \<Rightarrow> int \<Rightarrow> int \<Rightarrow> rat \<Rightarrow> memory_counts \<Rightarrow> 'r \<Rightarrow> bool" where
  "stores_agree cnt limit w t m r \<longleftrightarrow> mem_wf m \<and>
     (\<forall>key idx t'. t \<le> t' \<and> t' < of_int ((idx + 1) * w) \<longrightarrow>
        mem_count m (key, w, idx) = min limit (cnt r t' (redis_key key w idx)))"

lemma map_of_filter_value:
  "distinct (map fst m) \<Longrightarrow>
   map_of (filter (\<lambda>(b, v). P v) m) b =
     (case map_of m b of None \<Rightarrow> None | Some v \<Rightarrow> if P v then Some v else None)"
proof (induction m)
  case (Cons a m)
  obtain k v where a: "a = (k, v)" by force
  have "map_of m k = None"
    using Cons.prems a by (simp add: map_of_eq_None_iff)
  with Cons a show ?case by auto
qed simp

lemma sweep_filter: "sweep now m = filter (\<lambda>(b, v). now < snd v) m"
  by (simp add: sweep_def case_prod_unfold)

lemma mem_wf_sweep: "mem_wf m \<Longrightarrow> mem_wf (sweep now m)"
  by (auto simp: mem_wf_def sweep_def distinct_map_filter)

lemma mem_count_sweep:
  assumes "mem_wf m" and "now < of_int ((idx + 1) * w)"
  shows "mem_count (sweep now m) (key, w, idx) = mem_count m (key, w, idx)"
proof -
  have e: "now < snd v" if "map_of m (key, w, idx) = Some v" for v
  proof -
    have "((key, w, idx), v) \<in> set m" using that by (rule map_of_SomeD)
    then have "snd v = of_int ((idx + 1) * w)"
      using assms(1) by (fastforce simp: mem_wf_def)
    with assms(2) show ?thesis by simp
  qed
  have "map_of (sweep now m) (key, w, idx) = map_of m (key, w, idx)"
    using assms(1) e unfolding sweep_filter mem_wf_def
    by (auto simp: map_of_filter_value split: option.splits)
  then show ?thesis by (simp add: mem_count_def)
qed

lemma mem_wf_update:
  assumes "mem_wf m"
  shows "mem_wf (AList.update (key, w, idx) (c, of_int ((idx + 1) * w)) m)"
proof -
  let ?v = "(c, of_int ((idx + 1) * w))"
  have sub: "set (AList.update (key, w, idx) ?v m) \<subseteq> insert ((key, w, idx), ?v) (set m)"
    by (induction m) auto
  have "case x of (b, (c, e)) \<Rightarrow> e = of_int ((snd (snd b) + 1) * fst (snd b))"
    if "x \<in> set (AList.update (key, w, idx) ?v m)" for x
  proof -
    from that sub consider "x = ((key, w, idx), ?v)" | "x \<in> set m" by blast
    then show ?thesis using assms by cases (auto simp: mem_wf_def)
  qed
  moreover have "distinct (map fst (AList.update (key, w, idx) ?v m))"
    using assms by (simp add: mem_wf_def distinct_update)
  ultimately show ?thesis unfolding mem_wf_def by blast
qed

lemma mem_count_update:
  "mem_count (AList.update b (c, e) m) b' = (if b' = b then c else mem_count m b')"
  by (simp add: mem_count_def update_conv')

text \<open>One hit, at a time not before the last one, gives the same decision and keeps agreement.\<close>

lemma hit_agrees:
  assumes redis: "redis_counts cnt pipeline" and w: "0 < w" and limit: "0 \<le> limit"
    and agree: "stores_agree cnt limit w t m r" and t: "t \<le> now"
    and mem: "memory_hit key limit w now m = (d, m')"
    and red: "redis_hit pipeline key limit w now r = (d', r')"
  shows "d = d' \<and> stores_agree cnt limit w now m' r'"
proof -
  obtain index ends where win: "window_of now w = (index, ends)" by force
  note b = window_of_bounds[OF w win]
  let ?k = "redis_key key w index" and ?n = "cnt r now (redis_key key w index)"
  obtain r1 where p: "pipeline now ?k (w * 2) r = Some (?n + 1, r1)"
    and live: "\<And>t'. now \<le> t' \<Longrightarrow> t' < now + of_int (w * 2) \<Longrightarrow> cnt r1 t' ?k = ?n + 1"
    and other: "\<And>k' t'. k' \<noteq> ?k \<Longrightarrow> cnt r1 t' k' = cnt r t' k'"
    using redis unfolding redis_counts_def by meson
  have wf: "mem_wf m" using agree by (simp add: stores_agree_def)
  have cnt_m: "mem_count (sweep now m) (k, w, i) = min limit (cnt r t' (redis_key k w i))"
    if "now \<le> t'" "t' < of_int ((i + 1) * w)" for k i t'
    using agree t that by (simp add: mem_count_sweep[OF wf] stores_agree_def)
  have c: "mem_count (sweep now m) (key, w, index) = min limit ?n"
    using cnt_m[of now index key] b(2,3) by simp
  have long: "t' < now + of_int (w * 2)" if "t' < of_int ((index + 1) * w)" for t' :: rat
    using that b(1) w by (simp add: algebra_simps)
  have r': "r' = r1" and d': "d' = (if limit \<le> ?n then refusal now ends else ALLOWED)"
    using red p win by (auto simp: redis_hit_def)
  have m': "m' = (if limit \<le> ?n then sweep now m
      else AList.update (key, w, index) (?n + 1, ends) (sweep now m))"
    and d: "d = (if limit \<le> ?n then refusal now ends else ALLOWED)"
    using mem win c by (auto simp: memory_hit_def mem_count_def Let_def split: if_splits)
  have "mem_wf m'"
    unfolding m' b(3) using wf by (simp only: mem_wf_sweep mem_wf_update split: if_split) simp
  moreover have "mem_count m' (k, w, i) = min limit (cnt r' t' (redis_key k w i))"
    if "now \<le> t'" "t' < of_int ((i + 1) * w)" for k i t'
  proof (cases "k = key \<and> i = index")
    case True
    then have "cnt r' t' (redis_key k w i) = ?n + 1"
      using live[OF that(1) long] that(2) r' by simp
    then show ?thesis using True c by (auto simp: m' mem_count_update)
  next
    case False
    then have "redis_key k w i \<noteq> ?k" using redis_key_inject by blast
    then show ?thesis using False cnt_m[OF that] r' other by (auto simp: m' mem_count_update)
  qed
  ultimately show ?thesis by (simp add: d d' stores_agree_def)
qed

text \<open>
  C23. The dictionary of one process and the Redis server give the same decisions to the same
  hits: under the documented behaviour of INCR and EXPIRE, starting empty, for any limit that
  is not negative, any window and any list of hits in order of time.
\<close>

theorem stores_equivalent:
  assumes "redis_counts cnt pipeline" and "0 < w" and "0 \<le> limit"
    and "sorted (map snd hits)" and "\<And>t k. cnt r t k = 0"
  shows "memory_run limit w hits [] = redis_run pipeline limit w hits r"
proof -
  have "memory_run limit w hits m = redis_run pipeline limit w hits r"
    if "stores_agree cnt limit w t m r" "\<forall>h \<in> set hits. t \<le> snd h" "sorted (map snd hits)"
    for t m r
    using that
  proof (induction hits arbitrary: t m r)
    case (Cons h hits)
    obtain key now where h: "h = (key, now)" by force
    obtain d m' where m: "memory_hit key limit w now m = (d, m')" by force
    obtain d' r' where r: "redis_hit pipeline key limit w now r = (d', r')" by force
    have "d = d' \<and> stores_agree cnt limit w now m' r'"
      using hit_agrees[OF assms(1-3) Cons.prems(1) _ m r] Cons.prems(2) h by simp
    with Cons.IH[of now m' r'] Cons.prems(3) show ?case by (simp add: h m r)
  qed simp
  moreover have "stores_agree cnt limit w (Min (insert 0 (snd ` set hits))) [] r"
    using assms(3,5) by (simp add: stores_agree_def mem_wf_def mem_count_def)
  ultimately show ?thesis using assms(4) by auto
qed

text \<open>A server as the documentation describes it, for the witness: each key's count and deadline.\<close>

definition demo_cnt :: "(string \<Rightarrow> int \<times> rat) \<Rightarrow> rat \<Rightarrow> string \<Rightarrow> int" where
  "demo_cnt r t k = (if t < snd (r k) then fst (r k) else 0)"

definition demo_pipeline ::
  "rat \<Rightarrow> string \<Rightarrow> int \<Rightarrow> (string \<Rightarrow> int \<times> rat) \<Rightarrow> (int \<times> (string \<Rightarrow> int \<times> rat)) option" where
  "demo_pipeline t k ttl r =
     Some (demo_cnt r t k + 1, r(k := (demo_cnt r t k + 1, t + of_int ttl)))"

theorem stores_equivalent_witness:
  "memory_run 1 60 [(''a'', 1), (''a'', 2), (''a'', 61)] [] =
     redis_run demo_pipeline 1 60 [(''a'', 1), (''a'', 2), (''a'', 61)] (\<lambda>_. (0, 0))
   \<and> map allowed (memory_run 1 60 [(''a'', 1), (''a'', 2), (''a'', 61)] []) = [True, False, True]"
proof -
  have "redis_counts demo_cnt demo_pipeline"
    by (auto simp: redis_counts_def demo_cnt_def demo_pipeline_def)
  from stores_equivalent[OF this, of 60 1 "[(''a'', 1), (''a'', 2), (''a'', 61)]" "\<lambda>_. (0, 0)"]
  have "memory_run 1 60 [(''a'', 1), (''a'', 2), (''a'', 61)] [] =
     redis_run demo_pipeline 1 60 [(''a'', 1), (''a'', 2), (''a'', 61)] (\<lambda>_. (0, 0))"
    by (simp add: demo_cnt_def del: memory_run.simps redis_run.simps)
  moreover have "map allowed (memory_run 1 60 [(''a'', 1), (''a'', 2), (''a'', 61)] []) = [True, False, True]"
    by (simp add: floor_divide_of_int_eq[of 1 60, simplified] floor_divide_of_int_eq[of 61 60, simplified]
        floor_divide_of_int_eq[of 1 30, simplified] memory_hit_def window_of_def sweep_def ALLOWED_def refusal_def Let_def)
  ultimately show ?thesis by (rule conjI)
qed

end
