(* ===== verification/PrintOptions.thy ===== *)
theory PrintOptions
  imports Money
begin

text \<open>
  \<^verbatim>\<open>app/modules/printing/options.py\<close>: what a student asked for, and the pages, impressions and
  sheets that follow from it. The lemmas show what a page range selects, that the normalised
  form selects the same pages, and how the workload's numbers relate.
\<close>

section \<open>Page ranges\<close>

definition MAX_COPIES :: int where
  "MAX_COPIES = 50"

text \<open>\<^verbatim>\<open>RANGE_TOKEN\<close>, \<^verbatim>\<open>^(\d+)(?:-(\d+))?$\<close>: the two groups as numbers.\<close>

definition match_range :: "string \<Rightarrow> (int \<times> int option) option" where
  "match_range tok =
     (let d = takeWhile is_digit tok; rest = dropWhile is_digit tok in
      if d = [] then None
      else case rest of
          [] \<Rightarrow> Some (int (nat_of_digits d), None)
        | c # cs \<Rightarrow>
            if c = CHR ''-'' \<and> cs \<noteq> [] \<and> list_all is_digit cs
            then Some (int (nat_of_digits d), Some (int (nat_of_digits cs)))
            else None)"

definition NO_PAGES :: string where
  "NO_PAGES = ''That document has no pages to print.''"

definition not_a_range :: "string \<Rightarrow> string" where
  "not_a_range tok = py_repr tok @ '' is not a page or page range. Use something like 1,4-6.''"

definition runs_backwards :: "string \<Rightarrow> int \<Rightarrow> int \<Rightarrow> string" where
  "runs_backwards tok start stop =
     py_repr tok @ '' runs backwards. Write it as '' @ show_int stop @ ''-'' @ show_int start @ ''.''"

definition no_such_page :: "int \<Rightarrow> int \<Rightarrow> string" where
  "no_such_page total_pages stop =
     ''This document has '' @ show_int total_pages @ '' page'' @
     (if total_pages \<noteq> 1 then ''s'' else []) @ '', so page '' @ show_int stop @ '' does not exist.''"

text \<open>One token of the loop: the pages it adds to the selection.\<close>

definition parse_token :: "int \<Rightarrow> string \<Rightarrow> int list result" where
  "parse_token total_pages raw_token =
     (let tok = squeeze raw_token in
      if tok = [] then Inr []
      else case match_range tok of
          None \<Rightarrow> Inl (BadRequest (not_a_range tok))
        | Some (start, second) \<Rightarrow>
            (let stop = (case second of Some e \<Rightarrow> e | None \<Rightarrow> start) in
             if start < 1 \<or> stop < 1 then Inl (BadRequest ''Page numbers start at 1.'')
             else if stop < start then Inl (BadRequest (runs_backwards tok start stop))
             else if total_pages < stop then Inl (BadRequest (no_such_page total_pages stop))
             else Inr [start..stop]))"

definition parse_page_range :: "string option \<Rightarrow> int \<Rightarrow> int list result" where
  "parse_page_range raw total_pages =
     (case raw of
        None \<Rightarrow> Inr [1..total_pages]
      | Some text \<Rightarrow>
          if strip text = [] then Inr [1..total_pages]
          else if total_pages < 1 then Inl (BadRequest NO_PAGES)
          else bind_res (map_res (parse_token total_pages) (split_on (CHR '','') text)) (\<lambda>selected.
            if concat selected = [] then Inl (BadRequest ''Choose at least one page to print.'')
            else Inr (sort (remdups (concat selected)))))"

text \<open>The loop of \<^verbatim>\<open>format_page_range\<close>: the run from \<open>start\<close> to \<open>previous\<close> is still open.\<close>

definition render_run :: "int \<Rightarrow> int \<Rightarrow> string" where
  "render_run start previous =
     (if start = previous then show_int start else show_int start @ ''-'' @ show_int previous)"

fun format_runs :: "int \<Rightarrow> int \<Rightarrow> int list \<Rightarrow> string list" where
  "format_runs start previous [] = [render_run start previous]"
| "format_runs start previous (page # pages) =
     (if page = previous + 1 then format_runs start page pages
      else render_run start previous # format_runs page page pages)"

definition format_page_range :: "int list \<Rightarrow> string" where
  "format_page_range pages =
     (case pages of [] \<Rightarrow> [] | p # ps \<Rightarrow> join_with '','' (format_runs p p ps))"

section \<open>Options and workload\<close>

record print_opts =
  po_colour :: bool
  po_duplex :: bool
  po_copies :: int
  po_page_range :: "string option"

definition create_options ::
  "int \<Rightarrow> bool \<Rightarrow> bool \<Rightarrow> int \<Rightarrow> string option \<Rightarrow> print_opts result" where
  "create_options total_pages colour duplex copies page_range =
     (if total_pages < 1 then Inl (BadRequest NO_PAGES)
      else if copies < 1 then Inl (BadRequest ''Print at least one copy.'')
      else if MAX_COPIES < copies then
        Inl (BadRequest (show_int copies @ '' copies is more than a kiosk will do in one job (limit '' @
          show_int MAX_COPIES @ ''). Split it into separate jobs.''))
      else bind_res (parse_page_range page_range total_pages) (\<lambda>pages.
        Inr \<lparr>po_colour = colour, po_duplex = duplex, po_copies = copies,
             po_page_range = (if int (length pages) = total_pages then None
                              else Some (format_page_range pages))\<rparr>))"

record workload =
  wl_pages :: int
  wl_selected_pages :: int
  wl_impressions :: int
  wl_sheets :: int
  wl_sheets_both_sides :: int
  wl_sheets_one_side :: int

definition workload_of :: "print_opts \<Rightarrow> int \<Rightarrow> workload result" where
  "workload_of options total_pages =
     bind_res (parse_page_range (po_page_range options) total_pages) (\<lambda>pages.
       let selected = int (length pages);
           impressions = selected * po_copies options;
           both_sides = (if po_duplex options then (selected div 2) * po_copies options else 0);
           one_side = (if po_duplex options then (selected mod 2) * po_copies options else impressions)
       in Inr \<lparr>wl_pages = total_pages, wl_selected_pages = selected,
               wl_impressions = impressions, wl_sheets = both_sides + one_side,
               wl_sheets_both_sides = both_sides, wl_sheets_one_side = one_side\<rparr>)"

section \<open>What a range selects\<close>

lemma parse_token_pages:
  "parse_token n_pages tok = Inr ps \<Longrightarrow> \<forall>p \<in> set ps. 1 \<le> p \<and> p \<le> n_pages"
  by (auto simp: parse_token_def Let_def split: if_splits option.splits)

lemma map_res_concat_pages:
  "map_res (parse_token n_pages) toks = Inr pss \<Longrightarrow> \<forall>p \<in> set (concat pss). 1 \<le> p \<and> p \<le> n_pages"
  by (induction toks arbitrary: pss) (fastforce simp: res_simps dest: parse_token_pages)+

lemma parse_page_range_None [simp]: "parse_page_range None n_pages = Inr [1..n_pages]"
  by (simp add: parse_page_range_def)

text \<open>
  (Property). A range that is accepted selects pages of the document, in order and without repeats, and
  at least one when the document has any; a range on a document without pages is refused.
\<close>

theorem parse_page_range_sound:
  assumes "parse_page_range raw n_pages = Inr pages"
  shows "sorted pages \<and> distinct pages \<and> set pages \<subseteq> {1..n_pages} \<and> (1 \<le> n_pages \<longrightarrow> pages \<noteq> [])"
proof (cases "raw = None \<or> strip (the raw) = []")
  case True
  then have "pages = [1..n_pages]"
    using assms by (auto simp: parse_page_range_def split: option.splits)
  then show ?thesis by auto
next
  case False
  then obtain pss where pss: "map_res (parse_token n_pages) (split_on (CHR '','') (the raw)) = Inr pss"
    and ne: "concat pss \<noteq> []" and pages: "pages = sort (remdups (concat pss))"
    using assms by (auto simp: parse_page_range_def res_simps split: option.splits if_splits)
  have "pages \<noteq> []"
    using ne unfolding pages by (metis remdups_eq_nil_iff set_empty set_sort)
  with map_res_concat_pages[OF pss] show ?thesis
    by (auto simp: pages)
qed

theorem parse_page_range_sound_witness:
  "parse_page_range (Some ''12-14, 1'') 20 = Inr [1, 12, 13, 14] \<and>
   sorted [1, 12, 13, 14 :: int] \<and> set [1, 12, 13, 14 :: int] \<subseteq> {1..20}"
proof -
  have p: "parse_page_range (Some ''12-14, 1'') 20 = Inr [1, 12, 13, 14]"
    by (simp add: parse_page_range_def strip_def is_space_def parse_token_def squeeze_def
        match_range_def is_digit_def nat_of_digits_def digit_val_def Let_def upto.simps)
  from parse_page_range_sound[OF p] p show ?thesis by blast
qed

section \<open>Normal form\<close>

fun runs :: "int \<Rightarrow> int \<Rightarrow> int list \<Rightarrow> (int \<times> int) list" where
  "runs start previous [] = [(start, previous)]"
| "runs start previous (p # ps) =
     (if p = previous + 1 then runs start p ps else (start, previous) # runs p p ps)"

lemma format_runs_map: "format_runs s p ps = map (\<lambda>(a, b). render_run a b) (runs s p ps)"
  by (induction ps arbitrary: s p) auto

lemma runs_nonempty [simp]: "runs s p ps \<noteq> []"
  by (induction ps arbitrary: s p) auto

lemma runs_pages: "s \<le> p \<Longrightarrow> concat (map (\<lambda>(a, b). [a..b]) (runs s p ps)) = [s..p] @ ps"
proof (induction ps arbitrary: s p)
  case (Cons q ps)
  have "[s..p + 1] = [s..p] @ [p + 1]"
    using Cons.prems by (simp add: upto_rec2)
  with Cons show ?case by auto
qed simp

lemma runs_bounds:
  "s \<le> p \<Longrightarrow> 1 \<le> s \<Longrightarrow> p \<le> n \<Longrightarrow> \<forall>q \<in> set ps. 1 \<le> q \<and> q \<le> n \<Longrightarrow>
   \<forall>(a, b) \<in> set (runs s p ps). 1 \<le> a \<and> a \<le> b \<and> b \<le> n"
proof (induction ps arbitrary: s p)
  case (Cons q ps)
  then show ?case
    using Cons.IH[of s q] Cons.IH[of q q] by (cases "q = p + 1") auto
qed simp

lemma show_int_nonneg: "0 \<le> i \<Longrightarrow> show_int i = show_nat (nat i)"
  by (simp add: show_int_def)

lemma takeWhile_digits: "\<not> is_digit c \<Longrightarrow> takeWhile is_digit (show_nat n @ c # s) = show_nat n"
  using show_nat_digits[of n] by (induction "show_nat n") (auto simp: takeWhile_append2)

lemma dropWhile_digits: "\<not> is_digit c \<Longrightarrow> dropWhile is_digit (show_nat n @ c # s) = c # s"
  using show_nat_digits[of n] by (simp add: dropWhile_append2)

lemma takeWhile_all_digits [simp]: "takeWhile is_digit (show_nat n) = show_nat n"
  using show_nat_digits[of n] by (simp add: takeWhile_eq_all_conv)

lemma dropWhile_all_digits [simp]: "dropWhile is_digit (show_nat n) = []"
  using show_nat_digits[of n] by simp

lemma not_digit_hyphen [simp]: "\<not> is_digit (CHR ''-'')"
  by (simp add: is_digit_def Let_def)

lemma match_render:
  assumes "1 \<le> a" and "a \<le> b"
  shows "match_range (render_run a b) = Some (a, if a = b then None else Some b)"
  using assms show_nat_digits[of "nat b"] show_nat_nonempty
  by (auto simp: match_range_def render_run_def show_int_nonneg takeWhile_digits dropWhile_digits
      list_all_iff Let_def)

lemma render_chars:
  assumes "1 \<le> a" and "a \<le> b" and "c \<in> set (render_run a b)"
  shows "\<not> is_space c \<and> c \<noteq> CHR '',''"
proof -
  have "is_digit c \<or> c = CHR ''-''"
    using assms show_nat_digits by (auto simp: render_run_def show_int_nonneg split: if_splits)
  then show ?thesis
    using is_digit_not_space is_digit_distinct by (auto simp: is_space_def Let_def)
qed

lemma render_nonempty [simp]: "1 \<le> a \<Longrightarrow> render_run a b \<noteq> []"
  by (simp add: render_run_def show_int_nonneg show_nat_nonempty)

lemma parse_token_render:
  assumes "1 \<le> a" and "a \<le> b" and "b \<le> n"
  shows "parse_token n (render_run a b) = Inr [a..b]"
proof -
  have "squeeze (render_run a b) = render_run a b"
    using render_chars[OF assms(1,2)] by (intro squeeze_id) blast
  with assms show ?thesis
    by (simp add: parse_token_def match_render Let_def)
qed

lemma map_res_render:
  "\<forall>(a, b) \<in> set rs. 1 \<le> a \<and> a \<le> b \<and> b \<le> n \<Longrightarrow>
   map_res (parse_token n) (map (\<lambda>(a, b). render_run a b) rs) = Inr (map (\<lambda>(a, b). [a..b]) rs)"
  by (induction rs) (auto simp: parse_token_render)

lemma join_chars:
  "c \<in> set (join_with sep ws) \<Longrightarrow> (\<exists>w \<in> set ws. c \<in> set w) \<or> c \<in> set sep"
  by (induction ws rule: induct_list012) auto

lemma join_nonempty: "ws \<noteq> [] \<Longrightarrow> \<forall>w \<in> set ws. w \<noteq> [] \<Longrightarrow> join_with sep ws \<noteq> []"
  by (induction ws rule: induct_list012) auto

lemma strip_id: "s \<noteq> [] \<Longrightarrow> \<forall>c \<in> set s. \<not> is_space c \<Longrightarrow> strip s = s"
proof -
  assume ne: "s \<noteq> []" and c: "\<forall>c \<in> set s. \<not> is_space c"
  have d: "dropWhile is_space t = t" if "t \<noteq> []" "\<forall>c \<in> set t. \<not> is_space c" for t
    using that by (cases t) auto
  show ?thesis using ne c by (simp add: strip_def d)
qed

text \<open>
  C22. Formatting and parsing are inverse: the compact form of any ascending selection of the
  document's pages parses back to that selection.
\<close>

theorem parse_format_roundtrip:
  assumes "pages \<noteq> []" and "sorted pages" and "distinct pages" and "set pages \<subseteq> {1..n_pages}"
  shows "parse_page_range (Some (format_page_range pages)) n_pages = Inr pages"
proof -
  obtain p ps where pages: "pages = p # ps" using assms(1) by (cases pages) auto
  let ?rs = "runs p p ps" and ?r = "\<lambda>(a, b). render_run a b"
  have b: "\<forall>(a, b) \<in> set ?rs. 1 \<le> a \<and> a \<le> b \<and> b \<le> n_pages"
    using assms(4) by (intro runs_bounds) (auto simp: pages)
  have f: "format_page_range pages = join_with '','' (map ?r ?rs)"
    by (simp add: format_page_range_def pages format_runs_map)
  have ch: "w \<noteq> [] \<and> (\<forall>c \<in> set w. \<not> is_space c \<and> c \<noteq> CHR '','')" if "w \<in> set (map ?r ?rs)" for w
  proof -
    from that obtain a c where w: "(a, c) \<in> set ?rs" "w = render_run a c" by auto
    with b have "1 \<le> a" "a \<le> c" by auto
    with w render_chars[of a c] show ?thesis by auto
  qed
  then have sp: "split_on (CHR '','') (format_page_range pages) = map ?r ?rs"
    unfolding f by (intro split_on_join) (simp, blast)
  have st: "strip (format_page_range pages) \<noteq> []"
  proof -
    have "format_page_range pages \<noteq> []" unfolding f using ch by (intro join_nonempty) (simp, blast)
    moreover have "\<not> is_space c" if "c \<in> set (format_page_range pages)" for c
      using join_chars[OF that[unfolded f]] ch by (auto simp: is_space_def Let_def)
    ultimately show ?thesis by (simp add: strip_id)
  qed
  have cc: "concat (map (\<lambda>(a, b). [a..b]) ?rs) = pages"
    by (simp add: runs_pages pages)
  have "1 \<le> n_pages" using assms(4) pages by auto
  with st assms(1-3) show ?thesis
    unfolding parse_page_range_def option.case sp map_res_render[OF b]
    by (simp add: cc sorted_sort_id del: concat_eq_Nil_conv)
qed

theorem parse_format_roundtrip_witness:
  "format_page_range [1, 4, 5, 6] = ''1,4-6'' \<and>
   parse_page_range (Some (format_page_range [1, 4, 5, 6])) 9 = Inr [1, 4, 5, 6]"
proof
  show "format_page_range [1, 4, 5, 6] = ''1,4-6''"
    by code_simp
  show "parse_page_range (Some (format_page_range [1, 4, 5, 6])) 9 = Inr [1, 4, 5, 6]"
    by (rule parse_format_roundtrip) auto
qed

lemma full_selection:
  assumes "sorted pages" and "distinct pages" and "set pages \<subseteq> {1..n_pages}"
    and "int (length pages) = n_pages"
  shows "pages = [1..n_pages]"
proof -
  have "card (set pages) = card {1..n_pages}"
    using assms(2,4) by (simp add: distinct_card)
  then have "set pages = {1..n_pages}"
    using assms(3) by (intro card_subset_eq) auto
  with assms(1,2) show ?thesis
    by (intro sorted_distinct_set_unique) auto
qed

text \<open>
  (Property). Creating options keeps the selection: whatever was typed, the stored form selects the
  same pages of the same document, has between 1 and 50 copies, and "every page" has one
  representation.
\<close>

theorem create_options_selects_same:
  assumes "create_options n_pages colour duplex copies raw = Inr opts"
  shows "parse_page_range (po_page_range opts) n_pages = parse_page_range raw n_pages
    \<and> 1 \<le> po_copies opts \<and> po_copies opts \<le> 50
    \<and> (po_page_range opts = None \<longleftrightarrow> parse_page_range raw n_pages = Inr [1..n_pages])"
proof -
  from assms obtain pages where pages: "parse_page_range raw n_pages = Inr pages"
    and t: "1 \<le> n_pages" and copies: "1 \<le> po_copies opts" "po_copies opts \<le> 50"
    and pr: "po_page_range opts = (if int (length pages) = n_pages then None else Some (format_page_range pages))"
    by (auto simp: create_options_def res_simps MAX_COPIES_def split: if_splits)
  note sound = parse_page_range_sound[OF pages]
  have full: "int (length pages) = n_pages \<longleftrightarrow> pages = [1..n_pages]"
    using full_selection sound t by auto
  have "parse_page_range (po_page_range opts) n_pages = Inr pages"
    using sound t full pr parse_format_roundtrip[of pages n_pages] by (cases "pages = [1..n_pages]") auto
  with pages copies pr full show ?thesis by auto
qed

theorem create_options_selects_same_witness:
  "\<exists>opts. create_options 6 False True 2 (Some ''4-6,1'') = Inr opts \<and> po_page_range opts = Some ''1,4-6''
     \<and> parse_page_range (po_page_range opts) 6 = parse_page_range (Some ''4-6,1'') 6"
proof -
  define opts :: print_opts where
    "opts = \<lparr>po_colour = False, po_duplex = True, po_copies = 2, po_page_range = Some ''1,4-6''\<rparr>"
  have p: "parse_page_range (Some ''4-6,1'') 6 = Inr [1, 4, 5, 6]"
    by (simp add: parse_page_range_def strip_def is_space_def parse_token_def squeeze_def
        match_range_def is_digit_def nat_of_digits_def digit_val_def Let_def upto.simps)
  have "format_page_range [1, 4, 5, 6] = ''1,4-6''" by code_simp
  with p have c: "create_options 6 False True 2 (Some ''4-6,1'') = Inr opts"
    by (simp add: create_options_def MAX_COPIES_def opts_def)
  from create_options_selects_same[OF c] c show ?thesis
    by (intro exI[of _ opts]) (simp add: opts_def)
qed

section \<open>The workload\<close>

lemma workload_of_simps:
  assumes "workload_of opts n_pages = Inr load"
  shows "wl_impressions load = wl_selected_pages load * po_copies opts"
    and "wl_sheets load = wl_sheets_both_sides load + wl_sheets_one_side load"
    and "wl_pages load = n_pages"
    and "0 \<le> wl_selected_pages load"
  using assms by (auto simp: workload_of_def res_simps Let_def)

lemma workload_nonneg:
  assumes "workload_of opts n_pages = Inr load" and "0 \<le> po_copies opts"
  shows "0 \<le> wl_sheets_both_sides load" "0 \<le> wl_sheets_one_side load" "0 \<le> wl_sheets load"
    "0 \<le> wl_impressions load"
  using assms by (auto simp: workload_of_def res_simps Let_def)

text \<open>
  (Property). The workload's numbers agree with each other: every impression is one side of one sheet
  (two on a sheet printed on both sides), a single-sided job uses a sheet per impression, and a
  duplex job rounds each copy up to a whole sheet on its own.
\<close>

theorem workload_consistent:
  assumes "workload_of opts n_pages = Inr load" and "0 \<le> po_copies opts"
  shows "2 * wl_sheets_both_sides load + wl_sheets_one_side load = wl_impressions load
    \<and> wl_sheets load = (if po_duplex opts then (wl_selected_pages load + 1) div 2 * po_copies opts
                         else wl_impressions load)
    \<and> wl_impressions load \<le> 2 * wl_sheets load \<and> wl_sheets load \<le> wl_impressions load
    \<and> wl_sheets_one_side load \<le> (if po_duplex opts then po_copies opts else wl_impressions load)"
proof -
  obtain pages where pages: "parse_page_range (po_page_range opts) n_pages = Inr pages"
    and load: "load = (let selected = int (length pages);
           impressions = selected * po_copies opts;
           both_sides = (if po_duplex opts then (selected div 2) * po_copies opts else 0);
           one_side = (if po_duplex opts then (selected mod 2) * po_copies opts else impressions)
       in \<lparr>wl_pages = n_pages, wl_selected_pages = selected,
               wl_impressions = impressions, wl_sheets = both_sides + one_side,
               wl_sheets_both_sides = both_sides, wl_sheets_one_side = one_side\<rparr>)"
    using assms(1) by (auto simp: workload_of_def res_simps Let_def)
  define n where "n = int (length pages)"
  define c where "c = po_copies opts"
  have split: "2 * (n div 2 * c) + n mod 2 * c = n * c"
    by (metis distrib_right mult.assoc mult_div_mod_eq)
  have up: "n div 2 * c + n mod 2 * c = (n + 1) div 2 * c"
  proof -
    have "n div 2 + n mod 2 = (n + 1) div 2" by presburger
    then show ?thesis by (metis distrib_right)
  qed
  have c: "0 \<le> c" and n: "0 \<le> n" using assms(2) by (simp_all add: c_def n_def)
  have one: "n mod 2 * c \<le> c" using mult_right_mono[of "n mod 2" 1 c] c by simp
  have nn: "0 \<le> n div 2 * c" "0 \<le> n mod 2 * c" "0 \<le> c * n" using c n by simp_all
  show ?thesis
    using split up one nn unfolding load by (auto simp: Let_def n_def[symmetric] c_def[symmetric])
qed

theorem workload_consistent_witness:
  "\<exists>load. workload_of \<lparr>po_colour = False, po_duplex = True, po_copies = 2, po_page_range = None\<rparr> 7 = Inr load
     \<and> wl_sheets load = 8 \<and> wl_impressions load = 14 \<and> wl_sheets_one_side load \<le> 2"
proof -
  define opts :: print_opts where
    "opts = \<lparr>po_colour = False, po_duplex = True, po_copies = 2, po_page_range = None\<rparr>"
  define load where "load = \<lparr>wl_pages = 7, wl_selected_pages = 7, wl_impressions = 14, wl_sheets = 8,
      wl_sheets_both_sides = 6, wl_sheets_one_side = 2\<rparr>"
  have w: "workload_of opts 7 = Inr load"
    by (simp add: opts_def load_def workload_of_def Let_def)
  moreover have "0 \<le> po_copies opts" by (simp add: opts_def)
  ultimately have "wl_sheets_one_side load \<le> 2"
    using workload_consistent[of opts 7 load] by (simp add: opts_def)
  with w show ?thesis by (intro exI[of _ load]) (simp add: opts_def load_def)
qed

end
