(* ===== verification/Ops.thy ===== *)
theory Ops
  imports Ids
begin

text \<open>
  \<^verbatim>\<open>app/modules/ops\<close>: the audit trail (\<^verbatim>\<open>audit.py\<close>) and the alerts an operator is shown
  (\<^verbatim>\<open>alerts.py\<close>), with their two tables (\<^verbatim>\<open>models.py\<close>).
\<close>

section \<open>Values put in a JSONB column\<close>

text \<open>
  The values a caller may pass, a float as the rational it stands for. \<open>PDatetime\<close> holds the ISO text of a datetime and \<open>PEnum\<close> the
  value of an enum member. A dict is its list of items.
\<close>

datatype pyval =
    PNone
  | PBool bool
  | PInt int
  | PStr string
  | PDecimal rat
  | PFloat rat
  | PDatetime string
  | PEnum string
  | PList "pyval list"
  | PDict "(string \<times> pyval) list"

definition lower_char :: "char \<Rightarrow> char" where
  "lower_char c = (let n = (of_char c :: nat) in if 65 \<le> n \<and> n \<le> 90 then char_of (n + 32) else c)"

definition lower :: "string \<Rightarrow> string" where
  "lower s = map lower_char s"

definition REDACTED :: string where
  "REDACTED = ''***''"

definition SENSITIVE_KEYS :: "string list" where
  "SENSITIVE_KEYS =
     [''password'', ''hashed_password'', ''key_secret'', ''razorpay_key_secret'',
      ''razorpay_key_secret_encrypted'', ''razorpay_webhook_secret_encrypted'',
      ''webhook_secret'', ''secret'', ''token'', ''refresh_token'', ''access_token'']"

definition sensitive :: "string \<Rightarrow> bool" where
  "sensitive key \<longleftrightarrow> lower key \<in> set SENSITIVE_KEYS"

fun scrub :: "pyval \<Rightarrow> pyval" where
  "scrub (PDict items) =
     PDict (map (\<lambda>(key, item). (key, if sensitive key then PStr REDACTED else scrub item)) items)"
| "scrub (PList items) = PList (map scrub items)"
| "scrub (PDecimal d) = PStr (show_money d)"
| "scrub (PDatetime s) = PStr s"
| "scrub (PEnum s) = PStr s"
| "scrub PNone = PNone"
| "scrub (PBool b) = PBool b"
| "scrub (PInt i) = PInt i"
| "scrub (PFloat f) = PFloat f"
| "scrub (PStr s) = PStr s"

text \<open>
  What may be stored: JSON only, and nothing but the mark under a sensitive key. \<open>overwrite f\<close>
  changes every value under a sensitive key, at any depth, and nothing else.
\<close>

fun storable :: "pyval \<Rightarrow> bool" where
  "storable (PDict items) \<longleftrightarrow>
     (\<forall>(key, item) \<in> set items. if sensitive key then item = PStr REDACTED else storable item)"
| "storable (PList items) \<longleftrightarrow> (\<forall>item \<in> set items. storable item)"
| "storable (PDecimal d) \<longleftrightarrow> False"
| "storable (PDatetime s) \<longleftrightarrow> False"
| "storable (PEnum s) \<longleftrightarrow> False"
| "storable PNone \<longleftrightarrow> True"
| "storable (PBool b) \<longleftrightarrow> True"
| "storable (PInt i) \<longleftrightarrow> True"
| "storable (PFloat f) \<longleftrightarrow> True"
| "storable (PStr s) \<longleftrightarrow> True"

fun overwrite :: "(pyval \<Rightarrow> pyval) \<Rightarrow> pyval \<Rightarrow> pyval" where
  "overwrite f (PDict items) =
     PDict (map (\<lambda>(key, item). (key, if sensitive key then f item else overwrite f item)) items)"
| "overwrite f (PList items) = PList (map (overwrite f) items)"
| "overwrite f v = v"

lemma scrub_storable: "storable (scrub v)"
  by (induction v rule: scrub.induct) (auto split: if_splits)

lemma scrub_overwrite: "scrub (overwrite f v) = scrub v"
  by (induction v rule: scrub.induct) (auto simp: case_prod_beta)

lemma scrub_id: "storable v \<Longrightarrow> scrub v = v"
  by (induction v rule: scrub.induct) (auto intro!: map_idI split: if_splits)

text \<open>
  (Property). What \<open>scrub\<close> returns can be stored as JSON and holds nothing but the redaction mark under
  a sensitive key at any depth; two inputs that differ only in the secrets they carry are stored
  identically, so nothing of a secret survives; and scrubbing twice changes nothing.
\<close>

theorem scrub_leaks_nothing:
  "storable (scrub v) \<and> scrub (overwrite f v) = scrub v \<and> scrub (scrub v) = scrub v"
  by (simp add: scrub_storable scrub_overwrite scrub_id)

section \<open>Tables\<close>

datatype alert_severity = CRITICAL | WARNING | INFO

record audit_entry =
  au_id :: nat
  au_actor_user_id :: "nat option"
  au_action :: string
  au_entity_type :: string
  au_entity_id :: "string option"
  au_before :: "pyval option"
  au_after :: "pyval option"
  au_note :: "string option"
  au_created_at :: datetime

record admin_alert =
  al_id :: nat
  al_public_id :: string
  al_severity :: alert_severity
  al_kind :: string
  al_summary :: string
  al_detail :: "pyval option"
  al_entity_type :: "string option"
  al_entity_id :: "string option"
  al_dedupe_key :: string
  al_resolved :: bool
  al_resolved_at :: "datetime option"
  al_resolved_by_user_id :: "nat option"
  al_occurrences :: nat
  al_last_seen_at :: datetime
  al_created_at :: datetime

record ops_db = core_db +
  audit_log :: "audit_entry list"
  admin_alerts :: "admin_alert list"

section \<open>The audit trail\<close>

definition record_audit ::
  "string \<Rightarrow> string \<Rightarrow> string option \<Rightarrow> nat option \<Rightarrow> pyval option \<Rightarrow> pyval option \<Rightarrow>
   string option \<Rightarrow> 'a ops_db_scheme \<Rightarrow> audit_entry \<times> 'a ops_db_scheme" where
  "record_audit action entity_type entity_id actor_user_id before after note db =
     (let entry = \<lparr>au_id = fresh_key au_id (audit_log db), au_actor_user_id = actor_user_id,
                   au_action = action, au_entity_type = entity_type, au_entity_id = entity_id,
                   au_before = map_option scrub before, au_after = map_option scrub after,
                   au_note = note, au_created_at = tx_now db\<rparr>
      in (entry, db\<lparr>audit_log := audit_log db @ [entry]\<rparr>))"

definition filter_opt :: "'b option \<Rightarrow> ('b \<Rightarrow> bool) \<Rightarrow> bool" where
  "filter_opt v p = (case v of None \<Rightarrow> True | Some x \<Rightarrow> p x)"

definition entries_for ::
  "string option \<Rightarrow> string option \<Rightarrow> string option \<Rightarrow> nat option \<Rightarrow> nat \<Rightarrow> 'a ops_db_scheme \<Rightarrow>
   audit_entry list" where
  "entries_for entity_type entity_id action actor_user_id limit db =
     take limit (sort_key (\<lambda>e. (- au_created_at e, - int (au_id e)))
       (filter (\<lambda>e. filter_opt entity_type (\<lambda>t. au_entity_type e = t) \<and>
                    filter_opt entity_id (\<lambda>i. au_entity_id e = Some i) \<and>
                    filter_opt action (\<lambda>a. au_action e = a) \<and>
                    filter_opt actor_user_id (\<lambda>u. au_actor_user_id e = Some u))
          (audit_log db)))"

section \<open>Alerts\<close>

definition NO_SUCH_ALERT :: string where
  "NO_SUCH_ALERT = ''That alert does not exist.''"

fun rank :: "alert_severity \<Rightarrow> nat" where
  "rank INFO = 0"
| "rank WARNING = 1"
| "rank CRITICAL = 2"

definition open_for :: "string \<Rightarrow> admin_alert \<Rightarrow> bool" where
  "open_for dedupe_key a \<longleftrightarrow> al_dedupe_key a = dedupe_key \<and> \<not> al_resolved a"

text \<open>
  The branch that catches \<^verbatim>\<open>IntegrityError\<close> belongs to two transactions racing; within one
  transaction the partial unique index cannot object, as the invariant \<open>alerts_ok\<close> below shows.
\<close>

definition raise_alert ::
  "string \<Rightarrow> alert_severity \<Rightarrow> string \<Rightarrow> string \<Rightarrow> string option \<Rightarrow> string option \<Rightarrow>
   pyval option \<Rightarrow> datetime \<Rightarrow> 'a ops_db_scheme \<Rightarrow> admin_alert \<times> 'a ops_db_scheme" where
  "raise_alert kind severity summary dedupe_key entity_type entity_id detail now db =
     (case first_where (open_for dedupe_key) (admin_alerts db) of
        Some existing \<Rightarrow>
          (let bumped = existing
                 \<lparr>al_occurrences := al_occurrences existing + 1,
                  al_last_seen_at := now,
                  al_detail := (case detail of None \<Rightarrow> al_detail existing | Some d \<Rightarrow> Some (scrub d)),
                  al_severity := (if rank (al_severity existing) < rank severity then severity
                                  else al_severity existing)\<rparr>
           in (bumped, db\<lparr>admin_alerts := put_row al_id bumped (admin_alerts db)\<rparr>))
      | None \<Rightarrow>
          (let (pid, db1) = mint ALERT db;
               alert = \<lparr>al_id = fresh_key al_id (admin_alerts db), al_public_id = pid,
                        al_severity = severity, al_kind = kind, al_summary = take 300 summary,
                        al_detail = map_option scrub detail, al_entity_type = entity_type,
                        al_entity_id = entity_id, al_dedupe_key = dedupe_key,
                        al_resolved = False, al_resolved_at = None,
                        al_resolved_by_user_id = None, al_occurrences = 1,
                        al_last_seen_at = now, al_created_at = tx_now db\<rparr>
           in (alert, db1\<lparr>admin_alerts := admin_alerts db @ [alert]\<rparr>)))"

definition open_alerts :: "alert_severity option \<Rightarrow> nat \<Rightarrow> 'a ops_db_scheme \<Rightarrow> admin_alert list" where
  "open_alerts severity limit db =
     sort_key (\<lambda>a. (- int (rank (al_severity a)), - al_last_seen_at a))
       (take limit (filter (\<lambda>a. \<not> al_resolved a \<and> filter_opt severity (\<lambda>s. al_severity a = s))
          (admin_alerts db)))"

definition resolve ::
  "string \<Rightarrow> nat option \<Rightarrow> datetime \<Rightarrow> 'a ops_db_scheme \<Rightarrow>
   (admin_alert \<times> 'a ops_db_scheme) result" where
  "resolve public_id actor_user_id now db =
     (case first_where (\<lambda>a. al_public_id a = public_id) (admin_alerts db) of
        None \<Rightarrow> Inl (NotFound NO_SUCH_ALERT)
      | Some alert \<Rightarrow>
          if al_resolved alert then Inr (alert, db)
          else let closed = alert\<lparr>al_resolved := True, al_resolved_at := Some now,
                                  al_resolved_by_user_id := actor_user_id\<rparr>
               in Inr (closed, db\<lparr>admin_alerts := put_row al_id closed (admin_alerts db)\<rparr>))"

definition resolve_by_key ::
  "string \<Rightarrow> datetime \<Rightarrow> 'a ops_db_scheme \<Rightarrow> admin_alert option \<times> 'a ops_db_scheme" where
  "resolve_by_key dedupe_key now db =
     (case first_where (open_for dedupe_key) (admin_alerts db) of
        None \<Rightarrow> (None, db)
      | Some alert \<Rightarrow>
          let closed = alert\<lparr>al_resolved := True, al_resolved_at := Some now,
                             al_resolved_by_user_id := None\<rparr>
          in (Some closed, db\<lparr>admin_alerts := put_row al_id closed (admin_alerts db)\<rparr>))"

text \<open>
  The table's own rule: ids are unique, and at most one alert is open for each dedupe key
  (\<^verbatim>\<open>uq_admin_alerts_open_dedupe\<close>).
\<close>

definition open_keys :: "admin_alert list \<Rightarrow> string list" where
  "open_keys rows = map al_dedupe_key (filter (\<lambda>a. \<not> al_resolved a) rows)"

definition alerts_ok :: "'a ops_db_scheme \<Rightarrow> bool" where
  "alerts_ok db \<longleftrightarrow>
     distinct (map al_id (admin_alerts db)) \<and> distinct (open_keys (admin_alerts db))"

lemma open_keys_simps [simp]:
  "open_keys [] = []"
  "open_keys (x # xs) = (if al_resolved x then open_keys xs else al_dedupe_key x # open_keys xs)"
  "open_keys (xs @ ys) = open_keys xs @ open_keys ys"
  by (simp_all add: open_keys_def)

lemma open_keys_mem: "a \<in> set rows \<Longrightarrow> \<not> al_resolved a \<Longrightarrow> al_dedupe_key a \<in> set (open_keys rows)"
  by (auto simp: open_keys_def)

text \<open>Rewriting one row leaves the open keys alone when its key and its state stay, and drops the
  row's key when it is closed.\<close>

lemma open_keys_put_same:
  assumes "distinct (map al_id rows)" and "a \<in> set rows" and "al_id b = al_id a"
    and "al_dedupe_key b = al_dedupe_key a" and "al_resolved b = al_resolved a"
  shows "open_keys (put_row al_id b rows) = open_keys rows"
  using assms
proof (induction rows)
  case (Cons x xs)
  show ?case
  proof (cases "x = a")
    case True
    then have "al_id b \<notin> al_id ` set xs" using Cons.prems by auto
    with True Cons.prems show ?thesis by (simp add: put_row_absent)
  next
    case False
    with Cons.prems have "al_id x \<noteq> al_id b" by (auto simp: image_iff)
    with False Cons show ?thesis by simp
  qed
qed simp

lemma open_keys_put_closed:
  assumes "distinct (map al_id rows)" and "a \<in> set rows" and "al_id b = al_id a"
    and "\<not> al_resolved a" and "al_resolved b" and "distinct (open_keys rows)"
  shows "distinct (open_keys (put_row al_id b rows)) \<and>
    set (open_keys (put_row al_id b rows)) = set (open_keys rows) - {al_dedupe_key a}"
  using assms
proof (induction rows)
  case (Cons x xs)
  show ?case
  proof (cases "x = a")
    case True
    then have "al_id b \<notin> al_id ` set xs" using Cons.prems by auto
    with True Cons.prems show ?thesis by (auto simp: put_row_absent)
  next
    case False
    with Cons.prems have ne: "al_id x \<noteq> al_id b" and a: "a \<in> set xs" by (auto simp: image_iff)
    have "distinct (map al_id xs)" "distinct (open_keys xs)"
      using Cons.prems by (simp_all split: if_splits)
    with Cons.IH a Cons.prems have IH: "distinct (open_keys (put_row al_id b xs))"
      "set (open_keys (put_row al_id b xs)) = set (open_keys xs) - {al_dedupe_key a}"
      by blast+
    have "\<not> al_resolved x \<Longrightarrow> al_dedupe_key x \<noteq> al_dedupe_key a"
      using Cons.prems open_keys_mem[OF a] by auto
    then show ?thesis
      using Cons.prems(6) ne IH by (cases "al_resolved x") auto
  qed
qed simp

lemma count_list_distinct: "distinct xs \<Longrightarrow> x \<in> set xs \<Longrightarrow> count_list xs x = 1"
  by (induction xs) (auto simp: count_list_0_iff)

lemma open_for_iff_key: "(\<exists>a \<in> set rows. open_for k a) \<longleftrightarrow> k \<in> set (open_keys rows)"
  by (auto simp: open_for_def open_keys_def image_iff)

lemma raise_alert_ok:
  assumes "alerts_ok db"
  shows "alerts_ok (snd (raise_alert kind sev summary k et ei detail now db))"
proof (cases "first_where (open_for k) (admin_alerts db)")
  case None
  then have "k \<notin> set (open_keys (admin_alerts db))"
    using open_for_iff_key by (metis first_where_None_iff)
  with assms None show ?thesis
    using fresh_key_notin[of al_id "admin_alerts db"]
    by (auto simp: raise_alert_def alerts_ok_def mint_def Let_def)
next
  case (Some a)
  then have a: "a \<in> set (admin_alerts db)" by (auto dest: first_where_SomeD)
  with Some assms show ?thesis
    by (simp add: raise_alert_def alerts_ok_def Let_def table_simps open_keys_put_same[OF _ a])
qed

lemma alerts_ok_closed:
  assumes "alerts_ok db" and "a \<in> set (admin_alerts db)" and "\<not> al_resolved a"
    and "al_id b = al_id a" and "al_resolved b"
  shows "alerts_ok (db\<lparr>admin_alerts := put_row al_id b (admin_alerts db)\<rparr>) \<and>
    al_dedupe_key a \<notin> set (open_keys (put_row al_id b (admin_alerts db)))"
  using open_keys_put_closed[of "admin_alerts db" a b] assms
  by (simp add: alerts_ok_def table_simps)

lemma resolve_by_key_ok:
  assumes "alerts_ok db"
  shows "alerts_ok (snd (resolve_by_key k now db)) \<and>
    k \<notin> set (open_keys (admin_alerts (snd (resolve_by_key k now db))))"
proof (cases "first_where (open_for k) (admin_alerts db)")
  case None
  then have "k \<notin> set (open_keys (admin_alerts db))"
    using open_for_iff_key by (metis first_where_None_iff)
  with assms None show ?thesis by (simp add: resolve_by_key_def)
next
  case (Some a)
  then have a: "a \<in> set (admin_alerts db)" "\<not> al_resolved a" "al_dedupe_key a = k"
    by (auto dest!: first_where_SomeD simp: open_for_def)
  show ?thesis
    using Some a(3) alerts_ok_closed[OF assms a(1,2), of "a\<lparr>al_resolved := True,
       al_resolved_at := Some now, al_resolved_by_user_id := None\<rparr>"]
    by (simp add: resolve_by_key_def Let_def)
qed

lemma resolve_ok:
  assumes "alerts_ok db" and "resolve pid actor now db = Inr (a', db')"
  shows "alerts_ok db'"
proof -
  from assms(2) obtain a where f: "first_where (\<lambda>a. al_public_id a = pid) (admin_alerts db) = Some a"
    by (auto simp: resolve_def split: option.splits)
  then have a: "a \<in> set (admin_alerts db)" by (auto dest: first_where_SomeD)
  show ?thesis
  proof (cases "al_resolved a")
    case False
    then show ?thesis
      using assms f alerts_ok_closed[OF assms(1) a False, of "a\<lparr>al_resolved := True,
       al_resolved_at := Some now, al_resolved_by_user_id := actor\<rparr>"]
      by (auto simp: resolve_def Let_def)
  qed (use assms f in \<open>auto simp: resolve_def\<close>)
qed

text \<open>
  (Property). The same unresolved problem is one row with a count: after a report there is exactly one
  open alert for its key; a report while one is open adds no row, counts one more occurrence,
  moves \<^verbatim>\<open>last_seen_at\<close> to now and never lowers the severity; a report while none is open adds one
  row that starts at one occurrence, which is what the offline watcher reads to send one email.
\<close>

theorem one_open_alert_per_condition:
  fixes db :: "'a ops_db_scheme"
  assumes "alerts_ok db"
    and "raise_alert kind severity summary k et ei detail now db = (alert, db')"
  shows "alerts_ok db'
    \<and> count_list (open_keys (admin_alerts db')) k = 1
    \<and> alert \<in> set (admin_alerts db') \<and> open_for k alert \<and> al_last_seen_at alert = now
    \<and> rank severity \<le> rank (al_severity alert)
    \<and> (case first_where (open_for k) (admin_alerts db) of
         None \<Rightarrow> al_occurrences alert = 1 \<and> admin_alerts db' = admin_alerts db @ [alert]
       | Some old \<Rightarrow> al_occurrences alert = al_occurrences old + 1
           \<and> length (admin_alerts db') = length (admin_alerts db)
           \<and> al_id alert = al_id old \<and> rank (al_severity old) \<le> rank (al_severity alert))"
proof -
  have ok: "alerts_ok db'"
    using raise_alert_ok[OF assms(1)] assms(2) by (metis snd_conv)
  have body: "alert \<in> set (admin_alerts db') \<and> open_for k alert \<and> al_last_seen_at alert = now
    \<and> rank severity \<le> rank (al_severity alert)
    \<and> (case first_where (open_for k) (admin_alerts db) of
         None \<Rightarrow> al_occurrences alert = 1 \<and> admin_alerts db' = admin_alerts db @ [alert]
       | Some old \<Rightarrow> al_occurrences alert = al_occurrences old + 1
           \<and> length (admin_alerts db') = length (admin_alerts db)
           \<and> al_id alert = al_id old \<and> rank (al_severity old) \<le> rank (al_severity alert))"
    using assms(2)
    by (auto simp: raise_alert_def Let_def mint_def open_for_def table_simps
        dest!: first_where_SomeD split: option.splits)
  then have "k \<in> set (open_keys (admin_alerts db'))"
    using open_for_iff_key by metis
  moreover have "distinct (open_keys (admin_alerts db'))"
    using ok by (simp add: alerts_ok_def)
  ultimately have "count_list (open_keys (admin_alerts db')) k = 1"
    by (simp add: count_list_distinct)
  with ok body show ?thesis by blast
qed

text \<open>A session with one open alert, seen once and only a note.\<close>

definition ops_example :: ops_db where
  "ops_example = \<lparr>tx_now = 5, entropy = (\<lambda>_. 0), drawn = 0, kiosks_to_wake = [], audit_log = [],
     admin_alerts = [\<lparr>al_id = 1, al_public_id = ''alr_1'', al_severity = INFO,
       al_kind = ''kiosk.offline'', al_summary = ''gone quiet'', al_detail = None,
       al_entity_type = None, al_entity_id = None, al_dedupe_key = ''k1'', al_resolved = False,
       al_resolved_at = None, al_resolved_by_user_id = None, al_occurrences = 1,
       al_last_seen_at = 3, al_created_at = 3\<rparr>]\<rparr>"

lemma ops_example_ok: "alerts_ok ops_example"
  by (simp add: ops_example_def alerts_ok_def)

theorem one_open_alert_per_condition_witness:
  "let (a, db') = raise_alert ''kiosk.offline'' WARNING ''gone'' ''k1'' None None None 9 ops_example
   in al_occurrences a = 2 \<and> alerts_ok db' \<and> rank WARNING \<le> rank (al_severity a)"
  using one_open_alert_per_condition[OF ops_example_ok,
      of "''kiosk.offline''" WARNING "''gone''" "''k1''" None None None 9
        "fst (raise_alert ''kiosk.offline'' WARNING ''gone'' ''k1'' None None None 9 ops_example)"
        "snd (raise_alert ''kiosk.offline'' WARNING ''gone'' ''k1'' None None None 9 ops_example)"]
  by (simp add: ops_example_def first_where_def open_for_def Let_def case_prod_beta)

text \<open>
  \<open>open_alerts\<close> is ordered by severity, but only among the rows the unordered \<^verbatim>\<open>LIMIT\<close> let
  through: with more open alerts than the limit, the most severe one can be missing.
\<close>

lemma open_alerts_sorted:
  "sorted (map (\<lambda>a. (- int (rank (al_severity a)), - al_last_seen_at a)) (open_alerts s limit db))"
  by (simp add: open_alerts_def)

lemma open_alerts_complete:
  assumes "length (filter (\<lambda>a. \<not> al_resolved a) (admin_alerts db)) \<le> limit"
  shows "set (open_alerts None limit db) = {a \<in> set (admin_alerts db). \<not> al_resolved a}"
  using assms by (auto simp: open_alerts_def filter_opt_def)

lemma open_alerts_drops_critical:
  "\<exists>db. map al_severity (open_alerts None 1 db) = [INFO]
     \<and> CRITICAL \<in> al_severity ` set (open_alerts None 2 (db :: ops_db))"
proof -
  let ?a = "hd (admin_alerts ops_example)"
  let ?db = "ops_example\<lparr>admin_alerts := [?a, ?a\<lparr>al_severity := CRITICAL, al_id := 2\<rparr>]\<rparr>"
  have "map al_severity (open_alerts None 1 ?db) = [INFO]
     \<and> CRITICAL \<in> al_severity ` set (open_alerts None 2 ?db)"
    by (simp add: open_alerts_def filter_opt_def ops_example_def)
  then show ?thesis by (rule exI[of _ ?db])
qed

end
