(* ===== verification/IdentityModels.thy ===== *)
theory IdentityModels
  imports Ops
begin

text \<open>
  The tables of \<^verbatim>\<open>app/modules/identity/models.py\<close> and the roles of \<^verbatim>\<open>roles.py\<close>. The columns
  \<^verbatim>\<open>legacy_id\<close> and \<^verbatim>\<open>updated_at\<close>, which no operation reads, are left out of every table of
  the development.
\<close>

datatype user_role = ADMIN | OWNER | REFILLER | STUDENT

record user =
  us_id :: nat
  us_public_id :: string
  us_email :: string
  us_hashed_password :: string
  us_full_name :: "string option"
  us_is_active :: bool
  us_is_guest :: bool
  us_email_verified :: bool
  us_created_at :: datetime

record user_role_row =
  ur_id :: nat
  ur_user_id :: nat
  ur_role :: user_role
  ur_granted_at :: datetime

datatype token_purpose = EMAIL_VERIFICATION | PASSWORD_RESET

record one_time_token =
  ot_id :: nat
  ot_user_id :: nat
  ot_purpose :: token_purpose
  ot_token_hash :: string
  ot_expires_at :: datetime
  ot_used_at :: "datetime option"
  ot_created_at :: datetime

record refresh_token =
  rt_id :: nat
  rt_user_id :: nat
  rt_token_hash :: string
  rt_family_id :: string
  rt_expires_at :: datetime
  rt_revoked_at :: "datetime option"
  rt_created_at :: datetime

record identity_db = ops_db +
  users :: "user list"
  user_roles :: "user_role_row list"
  one_time_tokens :: "one_time_token list"
  refresh_tokens :: "refresh_token list"

end
