(* ===== verification/Identity.thy ===== *)
theory Identity
  imports IdentityModels
begin

text \<open>
  \<^verbatim>\<open>app/modules/identity\<close> and \<^verbatim>\<open>app/core/security.py\<close>: accounts, roles, passwords, one-time tokens
  and refresh tokens. Password hashing, SHA-256 and JWT are libraries: they are the fields of
  the record \<open>crypto\<close>. An operation that can raise after writing returns the session it had
  written to, and \<open>request\<close> is what \<^verbatim>\<open>get_db\<close> makes of that: a raise rolls everything back.
\<close>

section \<open>Libraries\<close>

record jwt_payload =
  jp_sub :: string
  jp_typ :: "string option"
  jp_jti :: string
  jp_iat :: int
  jp_exp :: int
  jp_fam :: "string option"

text \<open>
  \<open>pw_verify\<close> and \<open>pw_needs_update\<close> answer \<open>None\<close> where passlib raises \<^verbatim>\<open>ValueError\<close>;
  \<open>jwt_decode now token secret\<close> answers \<open>None\<close> where jose raises \<^verbatim>\<open>JWTError\<close>.
\<close>

record crypto =
  sha256_hex :: "string \<Rightarrow> string"
  pw_hash :: "nat \<Rightarrow> string \<Rightarrow> string"
  pw_verify :: "string \<Rightarrow> string \<Rightarrow> bool option"
  pw_needs_update :: "string \<Rightarrow> bool option"
  jwt_encode :: "jwt_payload \<Rightarrow> string \<Rightarrow> string"
  jwt_decode :: "datetime \<Rightarrow> string \<Rightarrow> string \<Rightarrow> jwt_payload option"

text \<open>\<^verbatim>\<open>secrets.token_urlsafe(n)\<close> and \<^verbatim>\<open>secrets.token_hex(n)\<close>: letters drawn from the random source.\<close>

definition URLSAFE :: string where
  "URLSAFE = ''ABCDEFGHIJKLMNOPQRSTUVWXYZabcdefghijklmnopqrstuvwxyz0123456789-_''"

definition draw_letters :: "string \<Rightarrow> nat \<Rightarrow> 'a core_db_scheme \<Rightarrow> string \<times> 'a core_db_scheme" where
  "draw_letters alphabet n db =
     (map (\<lambda>i. alphabet ! (entropy db (drawn db + i) mod length alphabet)) [0..<n],
      db\<lparr>drawn := drawn db + n\<rparr>)"

definition token_urlsafe :: "nat \<Rightarrow> 'a core_db_scheme \<Rightarrow> string \<times> 'a core_db_scheme" where
  "token_urlsafe n db = draw_letters URLSAFE ((8 * n + 5) div 6) db"

definition token_hex :: "nat \<Rightarrow> 'a core_db_scheme \<Rightarrow> string \<times> 'a core_db_scheme" where
  "token_hex n db = draw_letters ''0123456789abcdef'' (2 * n) db"

definition hash_password :: "crypto \<Rightarrow> string \<Rightarrow> 'a core_db_scheme \<Rightarrow> string \<times> 'a core_db_scheme" where
  "hash_password cr password db = (pw_hash cr (entropy db (drawn db)) password, db\<lparr>drawn := drawn db + 1\<rparr>)"

definition verify_password :: "crypto \<Rightarrow> string \<Rightarrow> string \<Rightarrow> bool" where
  "verify_password cr password hashed = (case pw_verify cr password hashed of None \<Rightarrow> False | Some b \<Rightarrow> b)"

definition needs_rehash :: "crypto \<Rightarrow> string \<Rightarrow> bool" where
  "needs_rehash cr hashed = (case pw_needs_update cr hashed of None \<Rightarrow> False | Some b \<Rightarrow> b)"

datatype token_type = ACCESS | REFRESH

fun token_type_value :: "token_type \<Rightarrow> string" where
  "token_type_value ACCESS = ''access''"
| "token_type_value REFRESH = ''refresh''"

record token_claims =
  tc_subject :: string
  tc_token_type :: token_type
  tc_jti :: string
  tc_family :: "string option"

definition token_payload ::
  "string \<Rightarrow> token_type \<Rightarrow> string \<Rightarrow> datetime \<Rightarrow> datetime \<Rightarrow> string option \<Rightarrow> jwt_payload" where
  "token_payload subject typ jti now lifetime family =
     \<lparr>jp_sub = subject, jp_typ = Some (token_type_value typ), jp_jti = jti,
      jp_iat = now div 1000000, jp_exp = (now + lifetime) div 1000000, jp_fam = family\<rparr>"

definition create_token ::
  "crypto \<Rightarrow> string \<Rightarrow> token_type \<Rightarrow> string \<Rightarrow> datetime \<Rightarrow> string option \<Rightarrow> datetime \<Rightarrow>
   'a core_db_scheme \<Rightarrow> string \<times> 'a core_db_scheme" where
  "create_token cr subject typ secret lifetime family now db =
     (let (jti, db1) = token_hex 16 db in
      (jwt_encode cr (token_payload subject typ jti now lifetime family) secret, db1))"

text \<open>\<open>None\<close> is \<^verbatim>\<open>TokenError\<close>.\<close>

definition decode_token :: "crypto \<Rightarrow> string \<Rightarrow> token_type \<Rightarrow> string \<Rightarrow> datetime \<Rightarrow> token_claims option" where
  "decode_token cr tok expected secret now =
     (case jwt_decode cr now tok secret of
        None \<Rightarrow> None
      | Some p \<Rightarrow>
          if jp_typ p \<noteq> Some (token_type_value expected) then None
          else Some \<lparr>tc_subject = jp_sub p, tc_token_type = expected, tc_jti = jp_jti p,
                     tc_family = jp_fam p\<rparr>)"

text \<open>\<^verbatim>\<open>get_db\<close>: commit on success, roll back on any error.\<close>

definition request :: "('s \<Rightarrow> 'r result \<times> 's) \<Rightarrow> 's \<Rightarrow> 'r result \<times> 's" where
  "request handler db = (case handler db of (Inr r, db') \<Rightarrow> (Inr r, db') | (Inl e, _) \<Rightarrow> (Inl e, db))"

section \<open>The repository\<close>

definition get_by_email :: "string \<Rightarrow> 'a identity_db_scheme \<Rightarrow> user option" where
  "get_by_email email db =
     first_where (\<lambda>u. lower (us_email u) = lower (strip email) \<and> us_is_active u) (users db)"

definition get_by_public_id :: "string \<Rightarrow> 'a identity_db_scheme \<Rightarrow> user option" where
  "get_by_public_id public_id db =
     (case parse_id public_id USER of
        Inl _ \<Rightarrow> None
      | Inr _ \<Rightarrow> first_where (\<lambda>u. us_public_id u = public_id \<and> us_is_active u) (users db))"

definition email_exists :: "string \<Rightarrow> 'a identity_db_scheme \<Rightarrow> bool" where
  "email_exists email db \<longleftrightarrow> (\<exists>u \<in> set (users db). lower (us_email u) = lower (strip email))"

definition roles_of :: "nat \<Rightarrow> 'a identity_db_scheme \<Rightarrow> user_role set" where
  "roles_of user_id db = ur_role ` set (filter (\<lambda>r. ur_user_id r = user_id) (user_roles db))"

definition anyone_holds :: "user_role \<Rightarrow> 'a identity_db_scheme \<Rightarrow> bool" where
  "anyone_holds role db \<longleftrightarrow> (\<exists>r \<in> set (user_roles db). ur_role r = role)"

definition holders_of :: "user_role \<Rightarrow> 'a identity_db_scheme \<Rightarrow> user list" where
  "holders_of role db = sort_key us_id (filter (\<lambda>u. role \<in> roles_of (us_id u) db) (users db))"

definition first_with_role :: "user_role \<Rightarrow> 'a identity_db_scheme \<Rightarrow> user option" where
  "first_with_role role db = first_where us_is_active (holders_of role db)"

definition grant_role :: "nat \<Rightarrow> user_role \<Rightarrow> 'a identity_db_scheme \<Rightarrow> 'a identity_db_scheme" where
  "grant_role user_id role db =
     (if role \<in> roles_of user_id db then db
      else db\<lparr>user_roles := user_roles db @ [\<lparr>ur_id = fresh_key ur_id (user_roles db),
                ur_user_id = user_id, ur_role = role, ur_granted_at = tx_now db\<rparr>]\<rparr>)"

definition revoke_role :: "nat \<Rightarrow> user_role \<Rightarrow> 'a identity_db_scheme \<Rightarrow> 'a identity_db_scheme" where
  "revoke_role user_id role db =
     db\<lparr>user_roles := filter (\<lambda>r. \<not> (ur_user_id r = user_id \<and> ur_role r = role)) (user_roles db)\<rparr>"

definition actors_by_id :: "nat set \<Rightarrow> 'a identity_db_scheme \<Rightarrow> nat \<Rightarrow> user option" where
  "actors_by_id user_ids db i = (if i \<in> user_ids then row_by us_id (users db) i else None)"

definition find_by_email :: "string \<Rightarrow> 'a identity_db_scheme \<Rightarrow> user list" where
  "find_by_email raw db =
     (let email = lower (strip raw) in
      if email = [] then [] else sort_key us_id (filter (\<lambda>u. lower (us_email u) = email) (users db)))"

definition get_any_by_public_id :: "string \<Rightarrow> 'a identity_db_scheme \<Rightarrow> user option" where
  "get_any_by_public_id public_id db =
     (case parse_id public_id USER of
        Inl _ \<Rightarrow> None
      | Inr _ \<Rightarrow> first_where (\<lambda>u. us_public_id u = public_id) (users db))"

text \<open>
  INSERT of a user row: the index \<^verbatim>\<open>uq_users_email_lower\<close> refuses a second row for an address, as
  an \<^verbatim>\<open>IntegrityError\<close> nothing here catches.
\<close>

definition insert_user ::
  "string \<Rightarrow> string \<Rightarrow> string option \<Rightarrow> bool \<Rightarrow> bool \<Rightarrow> 'a identity_db_scheme \<Rightarrow>
   user result \<times> 'a identity_db_scheme" where
  "insert_user email hashed full_name is_guest verified db =
     (if \<exists>u \<in> set (users db). lower (us_email u) = lower email
      then (Inl (Unhandled ''IntegrityError: uq_users_email_lower''), db)
      else
        let (pid, db1) = mint USER db;
            u = \<lparr>us_id = fresh_key us_id (users db), us_public_id = pid, us_email = email,
                 us_hashed_password = hashed, us_full_name = full_name, us_is_active = True,
                 us_is_guest = is_guest, us_email_verified = verified, us_created_at = tx_now db\<rparr>
        in (Inr u, db1\<lparr>users := users db @ [u]\<rparr>))"

definition save_user :: "user \<Rightarrow> 'a identity_db_scheme \<Rightarrow> 'a identity_db_scheme" where
  "save_user u db = db\<lparr>users := put_row us_id u (users db)\<rparr>"

section \<open>Passwords, guests and Google\<close>

definition BAD_CREDENTIALS :: string where
  "BAD_CREDENTIALS = ''That email and password do not match an account.''"

definition EMAIL_TAKEN :: string where
  "EMAIL_TAKEN = ''An account with that email already exists.''"

definition register_user ::
  "crypto \<Rightarrow> string \<Rightarrow> string \<Rightarrow> string option \<Rightarrow> 'a identity_db_scheme \<Rightarrow>
   user result \<times> 'a identity_db_scheme" where
  "register_user cr raw_email password full_name db =
     (let email = strip raw_email in
      if email_exists email db then (Inl (Conflict EMAIL_TAKEN), db)
      else
        let (h, db1) = hash_password cr password db in
        case insert_user email h full_name False False db1 of
          (Inl e, db2) \<Rightarrow> (Inl e, db2)
        | (Inr u, db2) \<Rightarrow> (Inr u, grant_role (us_id u) STUDENT db2))"

definition authenticate ::
  "crypto \<Rightarrow> string \<Rightarrow> string \<Rightarrow> 'a identity_db_scheme \<Rightarrow> (user \<times> 'a identity_db_scheme) result" where
  "authenticate cr email password db =
     (case get_by_email email db of
        None \<Rightarrow> Inl (Unauthorized BAD_CREDENTIALS)
      | Some u \<Rightarrow>
          if \<not> verify_password cr password (us_hashed_password u) then Inl (Unauthorized BAD_CREDENTIALS)
          else if \<not> us_is_active u then Inl (Unauthorized BAD_CREDENTIALS)
          else if needs_rehash cr (us_hashed_password u) then
            let (h, db1) = hash_password cr password db; u' = u\<lparr>us_hashed_password := h\<rparr>
            in Inr (u', save_user u' db1)
          else Inr (u, db))"

definition GUEST_EMAIL_DOMAIN :: string where
  "GUEST_EMAIL_DOMAIN = ''guest.printvendo''"

definition create_guest :: "crypto \<Rightarrow> 'a identity_db_scheme \<Rightarrow> user result \<times> 'a identity_db_scheme" where
  "create_guest cr db =
     (let (local, db1) = token_hex 16 db;
          (password, db2) = token_urlsafe 32 db1;
          (h, db3) = hash_password cr password db2 in
      case insert_user (''guest_'' @ local @ ''@'' @ GUEST_EMAIL_DOMAIN) h (Some ''Guest'') True False db3 of
        (Inl e, db4) \<Rightarrow> (Inl e, db4)
      | (Inr u, db4) \<Rightarrow> (Inr u, grant_role (us_id u) STUDENT db4))"

text \<open>The claims of an id token that are read; \<open>verifier\<close> answers \<open>None\<close> where google-auth raises.\<close>

record google_claims =
  gc_email :: "string option"
  gc_email_verified :: "bool option"
  gc_name :: "string option"

definition GOOGLE_UNAVAILABLE :: string where
  "GOOGLE_UNAVAILABLE = ''Google sign-in is not available right now.''"

definition COULD_NOT_VERIFY :: string where
  "COULD_NOT_VERIFY = ''That Google sign-in could not be verified.''"

definition sign_in_with_google ::
  "crypto \<Rightarrow> (string \<Rightarrow> string \<Rightarrow> google_claims option) \<Rightarrow> string \<Rightarrow> string \<Rightarrow> 'a identity_db_scheme \<Rightarrow>
   user result \<times> 'a identity_db_scheme" where
  "sign_in_with_google cr verifier tok client_id db =
     (if client_id = [] then (Inl (BadRequest GOOGLE_UNAVAILABLE), db)
      else case verifier tok client_id of
        None \<Rightarrow> (Inl (BadRequest COULD_NOT_VERIFY), db)
      | Some claims \<Rightarrow>
          if gc_email claims = None \<or> gc_email claims = Some []
          then (Inl (BadRequest ''That Google account has no email address.''), db)
          else if gc_email_verified claims = Some False
          then (Inl (BadRequest ''That Google account's email address is not verified.''), db)
          else
            let email = the (gc_email claims) in
            case get_by_email email db of
              Some u \<Rightarrow> let u' = u\<lparr>us_email_verified := True\<rparr> in (Inr u', save_user u' db)
            | None \<Rightarrow>
                let (password, db1) = token_urlsafe 32 db; (h, db2) = hash_password cr password db1 in
                case insert_user email h (gc_name claims) False True db2 of
                  (Inl e, db3) \<Rightarrow> (Inl e, db3)
                | (Inr u, db3) \<Rightarrow> (Inr u, grant_role (us_id u) STUDENT db3))"

section \<open>Refresh tokens\<close>

definition ACCESS_LIFETIME :: datetime where
  "ACCESS_LIFETIME = minutes 15"

definition REFRESH_LIFETIME :: datetime where
  "REFRESH_LIFETIME = days 30"

definition GRACE_SECONDS :: int where
  "GRACE_SECONDS = 60"

definition INVALID_SESSION :: string where
  "INVALID_SESSION = ''Your session has expired. Please sign in again.''"

definition new_refresh ::
  "crypto \<Rightarrow> nat \<Rightarrow> string \<Rightarrow> datetime \<Rightarrow> 'a identity_db_scheme \<Rightarrow> string \<times> 'a identity_db_scheme" where
  "new_refresh cr user_id family_id now db =
     (let (tok, db1) = token_urlsafe 48 db;
          row = \<lparr>rt_id = fresh_key rt_id (refresh_tokens db), rt_user_id = user_id,
                 rt_token_hash = sha256_hex cr tok, rt_family_id = family_id,
                 rt_expires_at = now + REFRESH_LIFETIME, rt_revoked_at = None,
                 rt_created_at = tx_now db\<rparr>
      in (tok, db1\<lparr>refresh_tokens := refresh_tokens db @ [row]\<rparr>))"

definition issue_tokens ::
  "crypto \<Rightarrow> user \<Rightarrow> string \<Rightarrow> datetime \<Rightarrow> 'a identity_db_scheme \<Rightarrow>
   (string \<times> string) \<times> 'a identity_db_scheme" where
  "issue_tokens cr u secret now db =
     (let (family, db1) = token_hex 16 db;
          (access, db2) = create_token cr (us_public_id u) ACCESS secret ACCESS_LIFETIME None now db1;
          (fresh, db3) = new_refresh cr (us_id u) family now db2
      in ((access, fresh), db3))"

definition lookup_refresh :: "crypto \<Rightarrow> string \<Rightarrow> 'a identity_db_scheme \<Rightarrow> refresh_token option" where
  "lookup_refresh cr tok db = first_where (\<lambda>r. rt_token_hash r = sha256_hex cr tok) (refresh_tokens db)"

text \<open>The instant written on a token that must die at once: just outside the grace window.\<close>

definition dead_since :: "datetime \<Rightarrow> datetime" where
  "dead_since now = now - seconds (GRACE_SECONDS + 1)"

definition revoke_where ::
  "(refresh_token \<Rightarrow> bool) \<Rightarrow> datetime \<Rightarrow> 'a identity_db_scheme \<Rightarrow> 'a identity_db_scheme" where
  "revoke_where p now db =
     db\<lparr>refresh_tokens :=
          map (\<lambda>r. if p r then r\<lparr>rt_revoked_at := Some (dead_since now)\<rparr> else r) (refresh_tokens db)\<rparr>"

definition revoke_family :: "string \<Rightarrow> datetime \<Rightarrow> 'a identity_db_scheme \<Rightarrow> 'a identity_db_scheme" where
  "revoke_family family_id now db = revoke_where (\<lambda>r. rt_family_id r = family_id) now db"

definition replayed :: "refresh_token \<Rightarrow> datetime \<Rightarrow> bool" where
  "replayed row now \<longleftrightarrow>
     (case rt_revoked_at row of None \<Rightarrow> False | Some r \<Rightarrow> seconds GRACE_SECONDS < now - r)"

definition rotate_refresh ::
  "crypto \<Rightarrow> string \<Rightarrow> string \<Rightarrow> datetime \<Rightarrow> 'a identity_db_scheme \<Rightarrow>
   (string \<times> string) result \<times> 'a identity_db_scheme" where
  "rotate_refresh cr tok secret now db =
     (case lookup_refresh cr tok db of
        None \<Rightarrow> (Inl (Unauthorized INVALID_SESSION), db)
      | Some row \<Rightarrow>
          if rt_expires_at row \<le> now then (Inl (Unauthorized INVALID_SESSION), db)
          else if replayed row now
          then (Inl (Unauthorized INVALID_SESSION), revoke_family (rt_family_id row) now db)
          else case row_by us_id (users db) (rt_user_id row) of
            None \<Rightarrow> (Inl (Unauthorized INVALID_SESSION), db)
          | Some u \<Rightarrow>
              if \<not> us_is_active u then (Inl (Unauthorized INVALID_SESSION), db)
              else
                let row' = row\<lparr>rt_revoked_at := (case rt_revoked_at row of None \<Rightarrow> Some now | Some r \<Rightarrow> Some r)\<rparr>;
                    db1 = db\<lparr>refresh_tokens := put_row rt_id row' (refresh_tokens db)\<rparr>;
                    (access, db2) = create_token cr (us_public_id u) ACCESS secret ACCESS_LIFETIME None now db1;
                    (fresh, db3) = new_refresh cr (us_id u) (rt_family_id row) now db2
                in (Inr (access, fresh), db3))"

definition revoke_refresh :: "crypto \<Rightarrow> string \<Rightarrow> datetime \<Rightarrow> 'a identity_db_scheme \<Rightarrow> 'a identity_db_scheme" where
  "revoke_refresh cr tok now db =
     (case lookup_refresh cr tok db of
        None \<Rightarrow> db
      | Some row \<Rightarrow> db\<lparr>refresh_tokens :=
          put_row rt_id (row\<lparr>rt_revoked_at := Some (dead_since now)\<rparr>) (refresh_tokens db)\<rparr>)"

definition revoke_all :: "nat \<Rightarrow> datetime \<Rightarrow> 'a identity_db_scheme \<Rightarrow> 'a identity_db_scheme" where
  "revoke_all user_id now db = revoke_where (\<lambda>r. rt_user_id r = user_id) now db"

definition set_user_active :: "user \<Rightarrow> bool \<Rightarrow> datetime \<Rightarrow> 'a identity_db_scheme \<Rightarrow> user \<times> 'a identity_db_scheme" where
  "set_user_active u is_active now db =
     (let u' = u\<lparr>us_is_active := is_active\<rparr>;
          db1 = (if \<not> is_active then revoke_all (us_id u) now db else db)
      in (u', save_user u' db1))"

section \<open>One-time tokens\<close>

fun token_lifetime :: "token_purpose \<Rightarrow> datetime" where
  "token_lifetime EMAIL_VERIFICATION = hours 24"
| "token_lifetime PASSWORD_RESET = hours 1"

definition INVALID_LINK :: string where
  "INVALID_LINK = ''That link is invalid or has expired. Request a new one.''"

definition issue_token ::
  "crypto \<Rightarrow> user \<Rightarrow> token_purpose \<Rightarrow> datetime \<Rightarrow> 'a identity_db_scheme \<Rightarrow> string \<times> 'a identity_db_scheme" where
  "issue_token cr u purpose now db =
     (let spent = map (\<lambda>r. if ot_user_id r = us_id u \<and> ot_purpose r = purpose \<and> ot_used_at r = None
                           then r\<lparr>ot_used_at := Some now\<rparr> else r) (one_time_tokens db);
          (tok, db1) = token_urlsafe 32 db;
          row = \<lparr>ot_id = fresh_key ot_id (one_time_tokens db), ot_user_id = us_id u,
                 ot_purpose = purpose, ot_token_hash = sha256_hex cr tok,
                 ot_expires_at = now + token_lifetime purpose, ot_used_at = None,
                 ot_created_at = tx_now db\<rparr>
      in (tok, db1\<lparr>one_time_tokens := spent @ [row]\<rparr>))"

definition lookup_once :: "crypto \<Rightarrow> string \<Rightarrow> 'a identity_db_scheme \<Rightarrow> one_time_token option" where
  "lookup_once cr tok db = first_where (\<lambda>r. ot_token_hash r = sha256_hex cr tok) (one_time_tokens db)"

definition redeem ::
  "crypto \<Rightarrow> string \<Rightarrow> token_purpose \<Rightarrow> datetime \<Rightarrow> 'a identity_db_scheme \<Rightarrow>
   (user \<times> 'a identity_db_scheme) result" where
  "redeem cr tok purpose now db =
     (case lookup_once cr tok db of
        None \<Rightarrow> Inl (BadRequest INVALID_LINK)
      | Some row \<Rightarrow>
          if ot_purpose row \<noteq> purpose \<or> ot_used_at row \<noteq> None \<or> ot_expires_at row \<le> now
          then Inl (BadRequest INVALID_LINK)
          else case row_by us_id (users db) (ot_user_id row) of
            None \<Rightarrow> Inl (BadRequest INVALID_LINK)
          | Some u \<Rightarrow>
              if \<not> us_is_active u then Inl (BadRequest INVALID_LINK)
              else Inr (u, db\<lparr>one_time_tokens :=
                     put_row ot_id (row\<lparr>ot_used_at := Some now\<rparr>) (one_time_tokens db)\<rparr>))"

definition start_verification ::
  "crypto \<Rightarrow> user \<Rightarrow> datetime \<Rightarrow> 'a identity_db_scheme \<Rightarrow> string \<times> 'a identity_db_scheme" where
  "start_verification cr u now db = issue_token cr u EMAIL_VERIFICATION now db"

definition verify_email ::
  "crypto \<Rightarrow> string \<Rightarrow> datetime \<Rightarrow> 'a identity_db_scheme \<Rightarrow> (user \<times> 'a identity_db_scheme) result" where
  "verify_email cr tok now db =
     bind_res (redeem cr tok EMAIL_VERIFICATION now db) (\<lambda>(u, db1).
     let u' = u\<lparr>us_email_verified := True\<rparr> in Inr (u', save_user u' db1))"

definition start_reset ::
  "crypto \<Rightarrow> string \<Rightarrow> datetime \<Rightarrow> 'a identity_db_scheme \<Rightarrow> (user \<times> string) option \<times> 'a identity_db_scheme" where
  "start_reset cr email now db =
     (case get_by_email email db of
        None \<Rightarrow> (None, db)
      | Some u \<Rightarrow>
          if us_is_guest u then (None, db)
          else let (tok, db1) = issue_token cr u PASSWORD_RESET now db in (Some (u, tok), db1))"

definition complete_reset ::
  "crypto \<Rightarrow> string \<Rightarrow> string \<Rightarrow> datetime \<Rightarrow> 'a identity_db_scheme \<Rightarrow> (user \<times> 'a identity_db_scheme) result" where
  "complete_reset cr tok new_password now db =
     bind_res (redeem cr tok PASSWORD_RESET now db) (\<lambda>(u, db1).
     let (h, db2) = hash_password cr new_password db1; u' = u\<lparr>us_hashed_password := h\<rparr>
     in Inr (u', revoke_all (us_id u) now (save_user u' db2)))"

definition WRONG_CURRENT_PASSWORD :: string where
  "WRONG_CURRENT_PASSWORD = ''That is not your current password.''"

definition SAME_PASSWORD :: string where
  "SAME_PASSWORD = ''Your new password must be different from your current one.''"

definition change_password ::
  "crypto \<Rightarrow> user \<Rightarrow> string \<Rightarrow> string \<Rightarrow> datetime \<Rightarrow> 'a identity_db_scheme \<Rightarrow>
   (user \<times> 'a identity_db_scheme) result" where
  "change_password cr u current new now db =
     (if \<not> verify_password cr current (us_hashed_password u) then Inl (Unauthorized WRONG_CURRENT_PASSWORD)
      else if verify_password cr new (us_hashed_password u) then Inl (BadRequest SAME_PASSWORD)
      else
        let (h, db1) = hash_password cr new db; u' = u\<lparr>us_hashed_password := h\<rparr>
        in Inr (u', revoke_all (us_id u) now (save_user u' db1)))"

section \<open>Facts\<close>

lemma minting_keeps [simp]:
  "refresh_tokens (snd (draw_letters a n db)) = refresh_tokens db"
  "one_time_tokens (snd (draw_letters a n db)) = one_time_tokens db"
  "users (snd (draw_letters a n db)) = users db"
  by (simp_all add: draw_letters_def)

lemma create_token_keeps [simp]:
  "refresh_tokens (snd (create_token cr sb ty secret life fam now db)) = refresh_tokens db"
  "users (snd (create_token cr sb ty secret life fam now db)) = users db"
  by (simp_all add: create_token_def token_hex_def case_prod_beta Let_def)

lemma new_refresh_table:
  "refresh_tokens (snd (new_refresh cr u fam now db)) = refresh_tokens db @
     [\<lparr>rt_id = fresh_key rt_id (refresh_tokens db), rt_user_id = u,
       rt_token_hash = sha256_hex cr (fst (new_refresh cr u fam now db)), rt_family_id = fam,
       rt_expires_at = now + REFRESH_LIFETIME, rt_revoked_at = None, rt_created_at = tx_now db\<rparr>]"
  by (simp add: new_refresh_def token_urlsafe_def case_prod_beta Let_def)

lemma replayed_dead: "now \<le> later \<Longrightarrow> rt_revoked_at r = Some (dead_since now) \<Longrightarrow> replayed r later"
  by (simp add: replayed_def dead_since_def GRACE_SECONDS_def seconds_def)

lemma lookup_revoke_where:
  assumes "lookup_refresh cr tok (revoke_where p now db) = Some row"
    and "\<And>r s. rt_user_id r = rt_user_id s \<Longrightarrow> rt_family_id r = rt_family_id s \<Longrightarrow> p r = p s"
  shows "p row \<longrightarrow> rt_revoked_at row = Some (dead_since now)"
proof
  assume p: "p row"
  from assms(1) have "row \<in> set (refresh_tokens (revoke_where p now db))"
    by (auto simp: lookup_refresh_def dest: first_where_SomeD)
  then have "row \<in> (\<lambda>r. if p r then r\<lparr>rt_revoked_at := Some (dead_since now)\<rparr> else r) `
      set (refresh_tokens db)"
    by (simp add: revoke_where_def)
  then obtain r where r: "row = (if p r then r\<lparr>rt_revoked_at := Some (dead_since now)\<rparr> else r)"
    by blast
  have "p r" using p r assms(2)[of row r] by (cases "p r") simp_all
  with r show "rt_revoked_at row = Some (dead_since now)" by simp
qed

lemma revoke_all_refused:
  assumes "lookup_refresh cr tok (revoke_all u now db) = Some row" and "rt_user_id row = u"
    and "now \<le> later"
  shows "fst (rotate_refresh cr tok secret later (revoke_all u now db)) = Inl (Unauthorized INVALID_SESSION)"
proof -
  have "rt_revoked_at row = Some (dead_since now)"
    using lookup_revoke_where[OF assms(1)[unfolded revoke_all_def]] assms(2) by simp
  then have "replayed row later" by (rule replayed_dead[OF assms(3)])
  with assms(1) show ?thesis by (simp add: rotate_refresh_def)
qed

lemma rotate_success_iff:
  "(\<exists>p. fst (rotate_refresh cr tok secret now db) = Inr p) \<longleftrightarrow>
   (\<exists>row u. lookup_refresh cr tok db = Some row \<and> now < rt_expires_at row \<and> \<not> replayed row now
      \<and> row_by us_id (users db) (rt_user_id row) = Some u \<and> us_is_active u)"
  by (auto simp: rotate_refresh_def Let_def case_prod_beta split: option.splits)

lemma lookup_put:
  assumes "distinct (map rt_id (refresh_tokens db))" and "lookup_refresh cr tok db = Some row"
    and "rt_id row' = rt_id row" and "rt_token_hash row' = rt_token_hash row"
  shows "first_where (\<lambda>r. rt_token_hash r = sha256_hex cr tok)
    (put_row rt_id row' (refresh_tokens db) @ others) = Some row'"
proof -
  have "first_where p (put_row rt_id row' rows @ others) = Some row'"
    if "first_where p rows = Some row" "distinct (map rt_id rows)" "p row'" for p rows
    using that
  proof (induction rows)
    case (Cons r rs)
    show ?case
    proof (cases "p r")
      case True
      then have "r = row" using Cons.prems(1) by simp
      then show ?thesis using assms(3) Cons.prems(3) by simp
    next
      case False
      then have "row \<in> set rs" using Cons.prems(1) by (auto dest: first_where_SomeD)
      then have "rt_id r \<noteq> rt_id row'" using Cons.prems(2) assms(3) by auto
      with False Cons show ?thesis by simp
    qed
  qed simp
  from this[of "\<lambda>r. rt_token_hash r = sha256_hex cr tok" "refresh_tokens db"] assms show ?thesis
    by (auto simp: lookup_refresh_def dest: first_where_SomeD)
qed

text \<open>
  C20. Rotation: a refresh token is exchanged exactly when it is known, unexpired, not presented
  more than a minute after it was first rotated away, and its account is still active; and more
  than a minute after an exchange the old token is refused and the whole family is marked dead.
\<close>

theorem rotation_sound:
  assumes "distinct (map rt_id (refresh_tokens db))"
  shows "(\<exists>p. fst (rotate_refresh cr tok secret now db) = Inr p) =
      (\<exists>row u. lookup_refresh cr tok db = Some row \<and> now < rt_expires_at row \<and> \<not> replayed row now
         \<and> row_by us_id (users db) (rt_user_id row) = Some u \<and> us_is_active u)
    \<and> (\<forall>p db' later row. rotate_refresh cr tok secret now db = (Inr p, db') \<longrightarrow>
         lookup_refresh cr tok db = Some row \<longrightarrow> (\<forall>r. rt_revoked_at row = Some r \<longrightarrow> r \<le> now) \<longrightarrow>
         now + seconds 60 < later \<longrightarrow> later < rt_expires_at row \<longrightarrow>
         rotate_refresh cr tok secret later db' =
           (Inl (Unauthorized INVALID_SESSION), revoke_family (rt_family_id row) later db'))"
proof (rule conjI[OF rotate_success_iff], intro allI impI)
  fix p db' later row
  assume r: "rotate_refresh cr tok secret now db = (Inr p, db')" and l: "lookup_refresh cr tok db = Some row"
    and past: "\<forall>r. rt_revoked_at row = Some r \<longrightarrow> r \<le> now"
    and late: "now + seconds 60 < later" "later < rt_expires_at row"
  have nr: "\<not> replayed row now" using r l by (auto simp: rotate_refresh_def split: if_splits)
  let ?row = "row\<lparr>rt_revoked_at := (case rt_revoked_at row of None \<Rightarrow> Some now | Some r \<Rightarrow> Some r)\<rparr>"
  obtain new where tab: "refresh_tokens db' = put_row rt_id ?row (refresh_tokens db) @ [new]"
    using r l
    by (auto simp: rotate_refresh_def Let_def case_prod_beta new_refresh_table split: if_splits option.splits)
  have "lookup_refresh cr tok db' = Some ?row"
    unfolding lookup_refresh_def tab by (rule lookup_put[OF assms l]) simp_all
  moreover have "replayed ?row later"
    using late(1) past by (auto simp: replayed_def GRACE_SECONDS_def seconds_def split: option.splits)
  ultimately show "rotate_refresh cr tok secret later db' =
           (Inl (Unauthorized INVALID_SESSION), revoke_family (rt_family_id row) later db')"
    using late(2) by (simp add: rotate_refresh_def)
qed

text \<open>Libraries good enough to run the code on: hashing by a prefix, tokens that are their text.\<close>

definition toy_crypto :: crypto where
  "toy_crypto = \<lparr>sha256_hex = (\<lambda>s. ''#'' @ s), pw_hash = (\<lambda>salt p. ''b'' @ p),
     pw_verify = (\<lambda>p h. Some (h = ''b'' @ p)), pw_needs_update = (\<lambda>h. Some False),
     jwt_encode = (\<lambda>p s. jp_sub p), jwt_decode = (\<lambda>now t s. None)\<rparr>"

definition user_example :: user where
  "user_example = \<lparr>us_id = 1, us_public_id = ''usr_0000000000000000'', us_email = ''a@x.test'',
     us_hashed_password = ''bpw'', us_full_name = None, us_is_active = True, us_is_guest = False,
     us_email_verified = False, us_created_at = 0\<rparr>"

definition refresh_example :: refresh_token where
  "refresh_example = \<lparr>rt_id = 1, rt_user_id = 1, rt_token_hash = ''#t1'', rt_family_id = ''f'',
     rt_expires_at = days 30, rt_revoked_at = None, rt_created_at = 0\<rparr>"

definition identity_blank :: identity_db where
  "identity_blank = \<lparr>tx_now = 0, entropy = (\<lambda>_. 0), drawn = 0, kiosks_to_wake = [], audit_log = [],
     admin_alerts = [], users = [user_example], user_roles = [], one_time_tokens = [],
     refresh_tokens = [refresh_example]\<rparr>"

theorem rotation_sound_witness:
  "\<exists>p. fst (rotate_refresh toy_crypto ''t1'' ''s'' 5 identity_blank) = Inr p"
proof -
  have "distinct (map rt_id (refresh_tokens identity_blank))" by (simp add: identity_blank_def)
  from rotation_sound[OF this, of toy_crypto "''t1''" "''s''" 5] show ?thesis
    by (simp add: identity_blank_def refresh_example_def toy_crypto_def lookup_refresh_def
        user_example_def replayed_def days_def hours_def minutes_def seconds_def)
qed

text \<open>
  (Property). The revocation of a stolen chain is undone: a token presented long after it was rotated away
  makes \<^verbatim>\<open>rotate_refresh\<close> revoke its whole family and raise, and raising is what rolls the request's
  transaction back, so after the request no row has changed and every other token of the family
  is answered exactly as before.
\<close>

theorem replay_revokes_nothing:
  assumes "lookup_refresh cr tok db = Some row" and "now < rt_expires_at row" and "replayed row now"
  shows "(\<forall>r \<in> set (refresh_tokens (snd (rotate_refresh cr tok secret now db))).
            rt_family_id r = rt_family_id row \<longrightarrow> rt_revoked_at r = Some (dead_since now))
    \<and> request (rotate_refresh cr tok secret now) db = (Inl (Unauthorized INVALID_SESSION), db)"
  using assms by (auto simp: rotate_refresh_def revoke_family_def revoke_where_def request_def)

definition stolen_example :: identity_db where
  "stolen_example = identity_blank\<lparr>refresh_tokens :=
     [refresh_example\<lparr>rt_revoked_at := Some 0\<rparr>, refresh_example\<lparr>rt_id := 2, rt_token_hash := ''#t2''\<rparr>]\<rparr>"

theorem replay_revokes_nothing_witness:
  "request (rotate_refresh toy_crypto ''t1'' ''s'' (minutes 10)) stolen_example
     = (Inl (Unauthorized INVALID_SESSION), stolen_example)
   \<and> (\<exists>p. fst (request (rotate_refresh toy_crypto ''t2'' ''s'' (minutes 11)) stolen_example) = Inr p)"
proof -
  have "lookup_refresh toy_crypto ''t1'' stolen_example = Some (refresh_example\<lparr>rt_revoked_at := Some 0\<rparr>)"
    by (simp add: lookup_refresh_def stolen_example_def toy_crypto_def refresh_example_def)
  from replay_revokes_nothing[OF this, of "minutes 10" "''s''"]
  have "request (rotate_refresh toy_crypto ''t1'' ''s'' (minutes 10)) stolen_example
     = (Inl (Unauthorized INVALID_SESSION), stolen_example)"
    by (simp add: refresh_example_def replayed_def days_def hours_def minutes_def seconds_def GRACE_SECONDS_def)
  moreover have "\<exists>p. fst (request (rotate_refresh toy_crypto ''t2'' ''s'' (minutes 11)) stolen_example) = Inr p"
  proof -
    have "\<exists>p. fst (rotate_refresh toy_crypto ''t2'' ''s'' (minutes 11) stolen_example) = Inr p"
      unfolding rotate_success_iff
      by (simp add: stolen_example_def identity_blank_def refresh_example_def toy_crypto_def lookup_refresh_def
          user_example_def replayed_def days_def hours_def minutes_def seconds_def)
    then show ?thesis by (auto simp: request_def split: prod.splits sum.splits)
  qed
  ultimately show ?thesis by blast
qed

lemma complete_reset_shape:
  "complete_reset cr tok pw now db = Inr (u', db') \<Longrightarrow>
   \<exists>u db1. redeem cr tok PASSWORD_RESET now db = Inr (u, db1) \<and> us_id u' = us_id u
     \<and> (\<exists>db2. db' = revoke_all (us_id u') now db2)"
  by (auto simp: complete_reset_def bind_res_Inr_iff Let_def hash_password_def)

text \<open>
  (Property). Taking an account back ends every session it had: after a password reset, a password change
  or a deactivation, every refresh token of that account, on any device and however recently
  issued, is refused from that moment.
\<close>

theorem recovery_ends_every_session:
  assumes "complete_reset cr tok pw now db = Inr (u, db')
      \<or> change_password cr acct current new now db = Inr (u, db')
      \<or> set_user_active acct False now db = (u, db')"
    and "lookup_refresh cr session db' = Some row" and "rt_user_id row = us_id u" and "now \<le> later"
  shows "fst (rotate_refresh cr session secret later db') = Inl (Unauthorized INVALID_SESSION)"
proof -
  have "(\<exists>db2. db' = revoke_all (us_id u) now db2) \<or> (\<exists>v db2. db' = save_user v (revoke_all (us_id u) now db2))"
    using assms(1)
  proof (elim disjE)
    assume "set_user_active acct False now db = (u, db')"
    then have "db' = save_user u (revoke_all (us_id u) now db)"
      by (auto simp: set_user_active_def Let_def)
    then show ?thesis by blast
  qed (auto dest!: complete_reset_shape simp: change_password_def Let_def hash_password_def split: if_splits)
  then show ?thesis
  proof (elim disjE exE)
    fix db2 assume "db' = revoke_all (us_id u) now db2"
    with revoke_all_refused[of cr session "us_id u" now db2 row later secret] assms show ?thesis by simp
  next
    fix v db2 assume eq: "db' = save_user v (revoke_all (us_id u) now db2)"
    have look: "lookup_refresh cr session (revoke_all (us_id u) now db2) = Some row"
      using assms(2) by (simp add: eq lookup_refresh_def save_user_def)
    have "rt_revoked_at row = Some (dead_since now)"
      using lookup_revoke_where[OF look[unfolded revoke_all_def]] assms(3) by simp
    then have "replayed row later" by (rule replayed_dead[OF assms(4)])
    with assms(2) show ?thesis by (simp add: rotate_refresh_def)
  qed
qed

theorem recovery_ends_every_session_witness:
  "fst (rotate_refresh toy_crypto ''t1'' ''s'' 9 (snd (set_user_active user_example False 5 identity_blank)))
     = Inl (Unauthorized INVALID_SESSION)"
  by (rule recovery_ends_every_session[where acct = user_example and now = 5
        and u = "user_example\<lparr>us_is_active := False\<rparr>" and db = identity_blank
        and row = "refresh_example\<lparr>rt_revoked_at := Some (dead_since 5)\<rparr>"])
    (simp_all add: set_user_active_def revoke_all_def revoke_where_def lookup_refresh_def save_user_def
      identity_blank_def refresh_example_def user_example_def toy_crypto_def Let_def)

lemma lookup_once_put:
  assumes "distinct (map ot_id (one_time_tokens db))" and "lookup_once cr tok db = Some row"
    and "ot_id row' = ot_id row" and "ot_token_hash row' = ot_token_hash row"
  shows "first_where (\<lambda>r. ot_token_hash r = sha256_hex cr tok) (put_row ot_id row' (one_time_tokens db)) = Some row'"
proof -
  have "first_where p (put_row ot_id row' rows) = Some row'"
    if "first_where p rows = Some row" "distinct (map ot_id rows)" "p row'" for p rows
    using that
  proof (induction rows)
    case (Cons r rs)
    show ?case
    proof (cases "p r")
      case True
      then show ?thesis using Cons.prems assms(3) by simp
    next
      case False
      then have "row \<in> set rs" using Cons.prems(1) by (auto dest: first_where_SomeD)
      then have "ot_id r \<noteq> ot_id row'" using Cons.prems(2) assms(3) by auto
      with False Cons show ?thesis by simp
    qed
  qed simp
  from this[of "\<lambda>r. ot_token_hash r = sha256_hex cr tok" "one_time_tokens db"] assms show ?thesis
    by (auto simp: lookup_once_def dest: first_where_SomeD)
qed

lemma redeem_InrD:
  "redeem cr tok purpose now db = Inr (u, db') \<Longrightarrow>
   \<exists>row. lookup_once cr tok db = Some row \<and> ot_purpose row = purpose \<and> ot_used_at row = None
     \<and> now < ot_expires_at row \<and> us_is_active u
     \<and> db' = db\<lparr>one_time_tokens := put_row ot_id (row\<lparr>ot_used_at := Some now\<rparr>) (one_time_tokens db)\<rparr>"
  by (auto simp: redeem_def split: option.splits if_splits)

lemma redeem_used:
  "lookup_once cr tok db = Some row \<Longrightarrow> ot_used_at row \<noteq> None \<Longrightarrow>
   redeem cr tok purpose now db = Inl (BadRequest INVALID_LINK)"
  by (auto simp: redeem_def)

lemma issue_supersedes:
  assumes "lookup_once cr tok db = Some row" and "ot_user_id row = us_id u" and "ot_purpose row = purpose"
  shows "\<exists>row'. lookup_once cr tok (snd (issue_token cr u purpose now db)) = Some row' \<and> ot_used_at row' \<noteq> None"
proof -
  let ?f = "\<lambda>r. if ot_user_id r = us_id u \<and> ot_purpose r = purpose \<and> ot_used_at r = None
                then r\<lparr>ot_used_at := Some now\<rparr> else r"
  have "first_where (\<lambda>r. ot_token_hash r = h) (map ?f rows @ [n]) = Some (?f row)"
    if "first_where (\<lambda>r. ot_token_hash r = h) rows = Some row" for rows h n
    using that by (induction rows) (auto split: if_splits)
  then have "lookup_once cr tok (snd (issue_token cr u purpose now db)) = Some (?f row)"
    using assms(1) by (simp add: lookup_once_def issue_token_def Let_def case_prod_beta)
  then show ?thesis using assms(2,3) by auto
qed

text \<open>
  (Property). A link works once, for one purpose, and only the newest one: redeeming spends the token, so
  no later attempt with it succeeds for any purpose; a token issued for one purpose is refused
  for the other; and issuing a new link kills every earlier one of that account and purpose.
\<close>

theorem link_works_once:
  assumes "distinct (map ot_id (one_time_tokens db))"
  shows "(redeem cr tok purpose now db = Inr (u, db') \<longrightarrow>
        (\<forall>p later. redeem cr tok p later db' = Inl (BadRequest INVALID_LINK)) \<and> us_is_active u)
    \<and> (\<forall>row. lookup_once cr tok db = Some row \<longrightarrow> ot_purpose row \<noteq> purpose \<longrightarrow>
        redeem cr tok purpose now db = Inl (BadRequest INVALID_LINK))
    \<and> (\<forall>row u later. lookup_once cr tok db = Some row \<longrightarrow> ot_user_id row = us_id u \<longrightarrow>
        redeem cr tok (ot_purpose row) later (snd (issue_token cr u (ot_purpose row) now db))
          = Inl (BadRequest INVALID_LINK))"
proof (intro conjI impI allI)
  fix p later assume r: "redeem cr tok purpose now db = Inr (u, db')"
  then obtain row where row: "lookup_once cr tok db = Some row"
    "db' = db\<lparr>one_time_tokens := put_row ot_id (row\<lparr>ot_used_at := Some now\<rparr>) (one_time_tokens db)\<rparr>"
    using redeem_InrD[OF r] by blast
  have "lookup_once cr tok db' = Some (row\<lparr>ot_used_at := Some now\<rparr>)"
    using lookup_once_put[OF assms row(1), of "row\<lparr>ot_used_at := Some now\<rparr>"] row(2)
    by (simp add: lookup_once_def)
  then show "redeem cr tok p later db' = Inl (BadRequest INVALID_LINK)" by (rule redeem_used) simp
next
  assume r: "redeem cr tok purpose now db = Inr (u, db')"
  then show "us_is_active u" using redeem_InrD[OF r] by blast
next
  fix row assume "lookup_once cr tok db = Some row" "ot_purpose row \<noteq> purpose"
  then show "redeem cr tok purpose now db = Inl (BadRequest INVALID_LINK)" by (simp add: redeem_def)
next
  fix row and u :: user and later assume a: "lookup_once cr tok db = Some row" "ot_user_id row = us_id u"
  from issue_supersedes[OF a refl, of now] redeem_used
  show "redeem cr tok (ot_purpose row) later (snd (issue_token cr u (ot_purpose row) now db))
          = Inl (BadRequest INVALID_LINK)" by blast
qed

definition once_example :: identity_db where
  "once_example = identity_blank\<lparr>one_time_tokens := [\<lparr>ot_id = 1, ot_user_id = 1, ot_purpose = PASSWORD_RESET,
     ot_token_hash = ''#r'', ot_expires_at = 100, ot_used_at = None, ot_created_at = 0\<rparr>]\<rparr>"

theorem link_works_once_witness:
  "\<exists>u db'. redeem toy_crypto ''r'' PASSWORD_RESET 5 once_example = Inr (u, db')
     \<and> redeem toy_crypto ''r'' PASSWORD_RESET 6 db' = Inl (BadRequest INVALID_LINK)"
proof -
  have d: "distinct (map ot_id (one_time_tokens once_example))" by (simp add: once_example_def)
  obtain u db' where r: "redeem toy_crypto ''r'' PASSWORD_RESET 5 once_example = Inr (u, db')"
    by (simp add: redeem_def lookup_once_def once_example_def toy_crypto_def identity_blank_def user_example_def)
  with link_works_once[OF d, of toy_crypto "''r''" PASSWORD_RESET 5 u db'] show ?thesis by blast
qed

text \<open>
  (Property). Signing in tells a stranger nothing: whatever is wrong with an attempt, the answer is one and
  the same error; and it succeeds only for an active account whose stored hash verifies.
\<close>

theorem sign_in_is_uniform:
  "(case authenticate cr email password db of
      Inl e \<Rightarrow> e = Unauthorized BAD_CREDENTIALS
    | Inr (u, db') \<Rightarrow> \<exists>v. get_by_email email db = Some v \<and> us_is_active v
        \<and> verify_password cr password (us_hashed_password v) \<and> us_id u = us_id v
        \<and> refresh_tokens db' = refresh_tokens db)"
proof (cases "get_by_email email db")
  case (Some v)
  then have "us_is_active v" by (auto simp: get_by_email_def dest: first_where_SomeD)
  with Some show ?thesis
    by (auto simp: authenticate_def Let_def hash_password_def save_user_def)
qed (simp add: authenticate_def)

text \<open>
  (Property). A deactivated account that signs in with Google is answered 500: \<^verbatim>\<open>get_by_email\<close> hides it, so
  the code inserts a second row for the address and the unique index raises what nothing catches.
\<close>

theorem google_deactivated_is_500:
  assumes "client_id \<noteq> []" and "verifier tok client_id = Some claims"
    and "gc_email claims = Some email" and "email \<noteq> []" and "gc_email_verified claims \<noteq> Some False"
    and "v \<in> set (users db)" and "lower (us_email v) = lower email"
    and "get_by_email email db = None"
  shows "\<exists>e. fst (sign_in_with_google cr verifier tok client_id db) = Inl e \<and> status_code e = 500"
  using assms
  by (auto simp: sign_in_with_google_def Let_def insert_user_def case_prod_beta token_urlsafe_def
      hash_password_def)

theorem google_deactivated_is_500_witness:
  "\<exists>e. fst (sign_in_with_google toy_crypto
        (\<lambda>t c. Some \<lparr>gc_email = Some ''a@x.test'', gc_email_verified = Some True, gc_name = None\<rparr>) ''t'' ''c''
        (identity_blank\<lparr>users := [user_example\<lparr>us_is_active := False\<rparr>]\<rparr>)) = Inl e \<and> status_code e = 500"
  by (rule google_deactivated_is_500[where email = "''a@x.test''"
        and claims = "\<lparr>gc_email = Some ''a@x.test'', gc_email_verified = Some True, gc_name = None\<rparr>" and v = "user_example\<lparr>us_is_active := False\<rparr>"])
    (simp_all add: get_by_email_def user_example_def)

text \<open>
  C24. A refresh token is never accepted where an access token is required, nor the other way
  round, whatever its signature: decoding answers only for the type asked.
\<close>

theorem token_types_are_separate:
  assumes "\<And>jti. jwt_decode cr later (jwt_encode cr (token_payload subject typ jti now lifetime family) secret) secret
      = Some (token_payload subject typ jti now lifetime family)"
  shows "case decode_token cr (fst (create_token cr subject typ secret lifetime family now db)) expected secret later of
      None \<Rightarrow> typ \<noteq> expected
    | Some c \<Rightarrow> typ = expected \<and> tc_subject c = subject \<and> tc_family c = family"
  using assms
  by (cases "typ", (cases expected,
    simp_all add: decode_token_def create_token_def token_payload_def case_prod_beta Let_def)+)

theorem token_types_are_separate_witness:
  "let cr = toy_crypto\<lparr>jwt_encode := \<lambda>p s. jp_jti p,
               jwt_decode := \<lambda>now t s. Some (token_payload ''usr_1'' REFRESH t 0 (days 30) (Some ''f''))\<rparr>;
       tok = fst (create_token cr ''usr_1'' REFRESH ''k'' (days 30) (Some ''f'') 0 identity_blank)
   in decode_token cr tok ACCESS ''k'' 5 = None \<and> decode_token cr tok REFRESH ''k'' 5 \<noteq> None"
proof -
  let ?cr = "toy_crypto\<lparr>jwt_encode := \<lambda>p s. jp_jti p,
               jwt_decode := \<lambda>now t s. Some (token_payload ''usr_1'' REFRESH t 0 (days 30) (Some ''f''))\<rparr>"
  have a: "\<And>jti. jwt_decode ?cr 5 (jwt_encode ?cr (token_payload ''usr_1'' REFRESH jti 0 (days 30) (Some ''f'')) ''k'') ''k''
      = Some (token_payload ''usr_1'' REFRESH jti 0 (days 30) (Some ''f''))"
    by (simp add: token_payload_def)
  from token_types_are_separate[of ?cr 5 "''usr_1''" REFRESH 0 "days 30" "Some ''f''" "''k''", OF a,
      where expected = ACCESS and db = identity_blank]
    token_types_are_separate[of ?cr 5 "''usr_1''" REFRESH 0 "days 30" "Some ''f''" "''k''", OF a,
      where expected = REFRESH and db = identity_blank]
  show ?thesis by (auto simp: Let_def split: option.splits)
qed

end
