(* ===== verification/KioskModels.thy ===== *)
theory KioskModels
  imports IdentityModels
begin

text \<open>
  The tables of \<^verbatim>\<open>app/modules/kiosks/models.py\<close> and the vocabulary of \<^verbatim>\<open>enums.py\<close>. Latitude and
  longitude are floats in the code and rationals here; nothing computes with them.
\<close>

datatype kiosk_type = PLATFORM | SOLD | SAAS

datatype onboarding_stage =
    REGISTERED | APPROVED | CONFIGURED | LIVE | MAINTENANCE | SUSPENDED_BILLING | RETIRED

datatype device_status = DEV_OFFLINE | DEV_ONLINE | DEV_PRINTING | DEV_ERROR

datatype assignment_role = KIOSK_OWNER | KIOSK_REFILLER

datatype device_command_kind = RESTART_AGENT | RESTART_PRINTING | UPDATE_AGENT

datatype device_command_state = CMD_QUEUED | CMD_SENT | CMD_SUCCEEDED | CMD_FAILED | CMD_EXPIRED

definition DEFAULT_PAPER_CAPACITY :: int where
  "DEFAULT_PAPER_CAPACITY = 250"

record kiosk =
  ki_id :: nat
  ki_public_id :: string
  ki_name :: string
  ki_type :: kiosk_type
  ki_stage :: onboarding_stage
  ki_note :: "string option"
  ki_is_active :: bool
  ki_accepts_wallet :: bool
  ki_offers_colour :: bool
  ki_location :: "string option"
  ki_latitude :: "rat option"
  ki_longitude :: "rat option"
  ki_price_bw_single :: "rat option"
  ki_price_bw_double :: "rat option"
  ki_price_color_single :: "rat option"
  ki_price_color_double :: "rat option"
  ki_created_at :: datetime

record kiosk_device =
  kd_id :: nat
  kd_public_id :: string
  kd_kiosk_id :: nat
  kd_device_key :: string
  kd_token_hash :: string
  kd_status :: device_status
  kd_capabilities :: "string option"
  kd_agent_version :: "string option"
  kd_ssh_host :: "string option"
  kd_update_status :: "string option"
  kd_last_heartbeat_at :: "datetime option"
  kd_stuck_since :: "datetime option"
  kd_created_at :: datetime

record device_enrolment =
  de_id :: nat
  de_kiosk_id :: nat
  de_created_by_user_id :: "nat option"
  de_code_hash :: string
  de_expires_at :: datetime
  de_used_at :: "datetime option"
  de_created_at :: datetime

record kiosk_paper =
  kp_kiosk_id :: nat
  kp_capacity :: int
  kp_used :: int
  kp_warning_count :: int
  kp_last_warning_at :: "datetime option"
  kp_last_reminder_at :: "datetime option"

record kiosk_assignment =
  ka_id :: nat
  ka_kiosk_id :: nat
  ka_user_id :: nat
  ka_role :: assignment_role
  ka_created_at :: datetime

record kiosk_favourite =
  kf_id :: nat
  kf_user_id :: nat
  kf_kiosk_id :: nat
  kf_created_at :: datetime

record paper_refill_log =
  pl_id :: nat
  pl_kiosk_id :: nat
  pl_actor_user_id :: "nat option"
  pl_sheets_added :: int
  pl_capacity_at_change :: int
  pl_used_before_change :: int
  pl_note :: "string option"
  pl_created_at :: datetime

record staff_invite =
  si_id :: nat
  si_kiosk_id :: nat
  si_invited_by_user_id :: nat
  si_email :: string
  si_role :: assignment_role
  si_token_hash :: string
  si_expires_at :: datetime
  si_accepted_at :: "datetime option"
  si_revoked_at :: "datetime option"
  si_created_at :: datetime

record device_command =
  dc_id :: nat
  dc_public_id :: string
  dc_kiosk_id :: nat
  dc_requested_by_user_id :: "nat option"
  dc_kind :: device_command_kind
  dc_state :: device_command_state
  dc_error_message :: "string option"
  dc_expires_at :: datetime
  dc_sent_at :: "datetime option"
  dc_finished_at :: "datetime option"
  dc_created_at :: datetime

record kiosks_db = identity_db +
  kiosks :: "kiosk list"
  kiosk_devices :: "kiosk_device list"
  device_enrolments :: "device_enrolment list"
  kiosk_papers :: "kiosk_paper list"
  kiosk_assignments :: "kiosk_assignment list"
  kiosk_favourites :: "kiosk_favourite list"
  paper_refill_logs :: "paper_refill_log list"
  staff_invites :: "staff_invite list"
  device_commands :: "device_command list"

text \<open>\<^verbatim>\<open>db.get(Kiosk, id)\<close>, and the UPDATE that \<^verbatim>\<open>db.add(kiosk); db.flush()\<close> emits.\<close>

definition kiosk_row :: "nat \<Rightarrow> 'a kiosks_db_scheme \<Rightarrow> kiosk option" where
  "kiosk_row kiosk_id db = row_by ki_id (kiosks db) kiosk_id"

definition save_kiosk :: "kiosk \<Rightarrow> 'a kiosks_db_scheme \<Rightarrow> 'a kiosks_db_scheme" where
  "save_kiosk k db = db\<lparr>kiosks := put_row ki_id k (kiosks db)\<rparr>"

text \<open>A session over empty tables, for the concrete inputs of the witnesses.\<close>

definition kiosks_blank :: kiosks_db where
  "kiosks_blank = \<lparr>tx_now = 0, entropy = (\<lambda>_. 0), drawn = 0, kiosks_to_wake = [], audit_log = [],
     admin_alerts = [], users = [], user_roles = [], one_time_tokens = [], refresh_tokens = [],
     kiosks = [], kiosk_devices = [], device_enrolments = [], kiosk_papers = [],
     kiosk_assignments = [], kiosk_favourites = [], paper_refill_logs = [], staff_invites = [],
     device_commands = []\<rparr>"

end
