(* ===== verification/WalletModels.thy ===== *)
theory WalletModels
  imports KioskModels
begin

text \<open>The tables of \<^verbatim>\<open>app/modules/wallet/models.py\<close>.\<close>

datatype entry_kind = TOPUP | SPEND | ENTRY_REFUND | ADJUSTMENT | PROMO

record wallet =
  wa_id :: nat
  wa_user_id :: nat
  wa_balance_inr :: rat
  wa_created_at :: datetime

record wallet_entry =
  we_id :: nat
  we_public_id :: string
  we_wallet_id :: nat
  we_kind :: entry_kind
  we_amount_inr :: rat
  we_balance_after_inr :: rat
  we_reference :: string
  we_note :: "string option"
  we_created_at :: datetime

record wallet_db = kiosks_db +
  wallets :: "wallet list"
  wallet_entries :: "wallet_entry list"

end
