(* ===== verification/Wallet.thy ===== *)
theory Wallet
  imports WalletModels "HOL-Library.Multiset"
begin

text \<open>
  \<^verbatim>\<open>app/modules/wallet/ledger.py\<close> and \<^verbatim>\<open>imports.py\<close>: balances, the conditional UPDATE that moves
  one, and the ledger row written with it. The savepoint of \<^verbatim>\<open>_move\<close> is the fact that a
  refusal carries no state: the caller goes on from the state it had.
\<close>

section \<open>Operations\<close>

definition NOT_ENOUGH :: string where
  "NOT_ENOUGH = ''There is not enough balance in your wallet for that.''"

definition ALREADY_RECORDED :: string where
  "ALREADY_RECORDED = ''That wallet movement has already been recorded.''"

definition MUST_BE_POSITIVE :: string where
  "MUST_BE_POSITIVE = ''A wallet amount must be more than zero.''"

definition wallet_of :: "nat \<Rightarrow> 'a wallet_db_scheme \<Rightarrow> wallet option" where
  "wallet_of user_id db = first_where (\<lambda>w. wa_user_id w = user_id) (wallets db)"

definition wallet_for :: "nat \<Rightarrow> 'a wallet_db_scheme \<Rightarrow> wallet \<times> 'a wallet_db_scheme" where
  "wallet_for user_id db =
     (case wallet_of user_id db of
        Some w \<Rightarrow> (w, db)
      | None \<Rightarrow>
          let w = \<lparr>wa_id = fresh_key wa_id (wallets db), wa_user_id = user_id,
                   wa_balance_inr = 0, wa_created_at = tx_now db\<rparr>
          in (w, db\<lparr>wallets := wallets db @ [w]\<rparr>))"

definition balance_of :: "nat \<Rightarrow> 'a wallet_db_scheme \<Rightarrow> rat" where
  "balance_of user_id db =
     (case wallet_of user_id db of None \<Rightarrow> 0 | Some w \<Rightarrow> as_money (wa_balance_inr w))"

text \<open>
  The UPDATE reads the row as it is (\<open>row\<close>), not the object in hand; the unique constraint on
  \<^verbatim>\<open>(wallet_id, reference)\<close> is what refuses the second INSERT.
\<close>

definition already_recorded :: "nat \<Rightarrow> string \<Rightarrow> 'a wallet_db_scheme \<Rightarrow> bool" where
  "already_recorded wallet_id reference db \<longleftrightarrow>
     (\<exists>e \<in> set (wallet_entries db). we_wallet_id e = wallet_id \<and> we_reference e = reference)"

definition move ::
  "wallet \<Rightarrow> entry_kind \<Rightarrow> rat \<Rightarrow> string \<Rightarrow> string option \<Rightarrow> bool \<Rightarrow> 'a wallet_db_scheme \<Rightarrow>
   (wallet_entry \<times> 'a wallet_db_scheme) result" where
  "move w kind amount reference note require_funds db =
     (case row_by wa_id (wallets db) (wa_id w) of
        None \<Rightarrow> Inl (BadRequest NOT_ENOUGH)
      | Some row \<Rightarrow>
          if require_funds \<and> \<not> (- amount \<le> wa_balance_inr row) then Inl (BadRequest NOT_ENOUGH)
          else if already_recorded (wa_id w) reference db then Inl (Conflict ALREADY_RECORDED)
          else
            let new_balance = wa_balance_inr row + amount;
                (pid, db1) = mint WALLET_ENTRY db;
                entry = \<lparr>we_id = fresh_key we_id (wallet_entries db), we_public_id = pid,
                         we_wallet_id = wa_id w, we_kind = kind, we_amount_inr = amount,
                         we_balance_after_inr = as_money new_balance, we_reference = reference,
                         we_note = note, we_created_at = tx_now db\<rparr>
            in Inr (entry, db1\<lparr>wallets := put_row wa_id (row\<lparr>wa_balance_inr := new_balance\<rparr>) (wallets db),
                               wallet_entries := wallet_entries db @ [entry]\<rparr>))"

definition credit ::
  "nat \<Rightarrow> rat \<Rightarrow> entry_kind \<Rightarrow> string \<Rightarrow> string option \<Rightarrow> 'a wallet_db_scheme \<Rightarrow>
   (wallet_entry \<times> 'a wallet_db_scheme) result" where
  "credit user_id amount kind reference note db =
     (let amount = as_money amount in
      if amount \<le> 0 then Inl (BadRequest MUST_BE_POSITIVE)
      else let (w, db1) = wallet_for user_id db in move w kind amount reference note False db1)"

definition debit ::
  "nat \<Rightarrow> rat \<Rightarrow> string \<Rightarrow> string option \<Rightarrow> 'a wallet_db_scheme \<Rightarrow>
   (wallet_entry \<times> 'a wallet_db_scheme) result" where
  "debit user_id amount reference note db =
     (let amount = as_money amount in
      if amount \<le> 0 then Inl (BadRequest MUST_BE_POSITIVE)
      else case wallet_of user_id db of
        None \<Rightarrow> Inl (BadRequest NOT_ENOUGH)
      | Some w \<Rightarrow> move w SPEND (- amount) reference note True db)"

definition statement :: "nat \<Rightarrow> nat \<Rightarrow> 'a wallet_db_scheme \<Rightarrow> wallet_entry list" where
  "statement user_id limit db =
     (case wallet_of user_id db of
        None \<Rightarrow> []
      | Some w \<Rightarrow> take limit (sort_key (\<lambda>e. (- we_created_at e, - int (we_id e)))
                   (filter (\<lambda>e. we_wallet_id e = wa_id w) (wallet_entries db))))"

section \<open>Carrying a balance over\<close>

definition CANNOT_OWE_US :: string where
  "CANNOT_OWE_US =
     ''That wallet has a negative balance in the legacy data. Nothing in this '' @
     ''system can spend below zero, so a person has to look at it rather than '' @
     ''have it quietly become a debt.''"

definition CARRIED_NOTE :: string where
  "CARRIED_NOTE = ''Balance carried over from the previous system at cutover.''"

record carry_report =
  carried :: rat
  wrote_entry :: bool

definition carry_reference :: "nat \<Rightarrow> nat \<Rightarrow> string" where
  "carry_reference user_id written =
     ''migration:balance:'' @ show_nat user_id @ '':'' @ show_nat written"

definition carry_balance ::
  "nat \<Rightarrow> rat \<Rightarrow> 'a wallet_db_scheme \<Rightarrow> (carry_report \<times> 'a wallet_db_scheme) result" where
  "carry_balance user_id balance db =
     (let balance = as_money balance in
      if balance < 0 then Inl (BadRequest CANNOT_OWE_US)
      else
        let (w, db1) = wallet_for user_id db;
            gap = as_money (balance - balance_of user_id db1)
        in if gap = 0 then Inr (\<lparr>carried = 0, wrote_entry = False\<rparr>, db1)
           else
             let written = length (filter (\<lambda>e. we_wallet_id e = wa_id w \<and> we_kind e = ADJUSTMENT)
                             (wallet_entries db1))
             in bind_res (move w ADJUSTMENT gap (carry_reference user_id written)
                            (Some CARRIED_NOTE) False db1)
                  (\<lambda>(_, db2). Inr (\<lparr>carried = gap, wrote_entry = True\<rparr>, db2)))"

section \<open>The ledger is the balance\<close>

definition ledger_total :: "nat \<Rightarrow> wallet_entry list \<Rightarrow> rat" where
  "ledger_total wallet_id es = sum_list (map we_amount_inr (filter (\<lambda>e. we_wallet_id e = wallet_id) es))"

text \<open>
  The tables' own rules (one wallet per user, one entry per wallet and reference, foreign keys)
  and the invariant the module promises: each balance is whole paise, never negative, and the
  sum of its entries.
\<close>

definition wallets_ok :: "'a wallet_db_scheme \<Rightarrow> bool" where
  "wallets_ok db \<longleftrightarrow>
     distinct (map wa_id (wallets db)) \<and> distinct (map wa_user_id (wallets db)) \<and>
     distinct (map we_id (wallet_entries db)) \<and>
     distinct (map (\<lambda>e. (we_wallet_id e, we_reference e)) (wallet_entries db)) \<and>
     we_wallet_id ` set (wallet_entries db) \<subseteq> wa_id ` set (wallets db) \<and>
     (\<forall>w \<in> set (wallets db). is_money (wa_balance_inr w) \<and> 0 \<le> wa_balance_inr w \<and>
        wa_balance_inr w = ledger_total (wa_id w) (wallet_entries db))"

text \<open>One request against the ledger; a refusal leaves the state it found.\<close>

datatype wallet_request =
    Credit nat rat entry_kind string "string option"
  | Debit nat rat string "string option"
  | Carry nat rat

fun serve :: "wallet_request \<Rightarrow> 'a wallet_db_scheme \<Rightarrow> 'a wallet_db_scheme" where
  "serve (Credit u amount kind r note) db =
     (case credit u amount kind r note db of Inl _ \<Rightarrow> db | Inr (_, db') \<Rightarrow> db')"
| "serve (Debit u amount r note) db =
     (case debit u amount r note db of Inl _ \<Rightarrow> db | Inr (_, db') \<Rightarrow> db')"
| "serve (Carry u balance) db =
     (case carry_balance u balance db of Inl _ \<Rightarrow> db | Inr (_, db') \<Rightarrow> db')"

lemma wallet_of_SomeD: "wallet_of u db = Some w \<Longrightarrow> w \<in> set (wallets db) \<and> wa_user_id w = u"
  by (auto simp: wallet_of_def dest: first_where_SomeD)

lemma wallet_of_None: "wallet_of u db = None \<Longrightarrow> u \<notin> wa_user_id ` set (wallets db)"
  by (auto simp: wallet_of_def first_where_None_iff)

lemma ledger_total_simps [simp]:
  "ledger_total i [] = 0"
  "ledger_total i (es @ [e]) = ledger_total i es + (if we_wallet_id e = i then we_amount_inr e else 0)"
  by (simp_all add: ledger_total_def)

lemma ledger_total_absent: "i \<notin> we_wallet_id ` set es \<Longrightarrow> ledger_total i es = 0"
proof -
  assume "i \<notin> we_wallet_id ` set es"
  then have "filter (\<lambda>e. we_wallet_id e = i) es = []" by (auto simp: filter_empty_conv)
  then show ?thesis by (simp add: ledger_total_def)
qed

lemma wallet_for_ok:
  assumes "wallets_ok db" and "wallet_for u db = (w, db')"
  shows "wallets_ok db' \<and> w \<in> set (wallets db') \<and> wa_user_id w = u \<and> wallet_of u db' = Some w
    \<and> wallet_entries db' = wallet_entries db"
proof (cases "wallet_of u db")
  case (Some x)
  with assms show ?thesis by (auto simp: wallet_for_def dest: wallet_of_SomeD)
next
  case None
  let ?w = "\<lparr>wa_id = fresh_key wa_id (wallets db), wa_user_id = u, wa_balance_inr = 0,
    wa_created_at = tx_now db\<rparr>"
  have eq: "w = ?w" "db' = db\<lparr>wallets := wallets db @ [?w]\<rparr>"
    using assms(2) None by (auto simp: wallet_for_def Let_def)
  have u: "u \<notin> wa_user_id ` set (wallets db)" by (rule wallet_of_None[OF None])
  have fresh: "fresh_key wa_id (wallets db) \<notin> wa_id ` set (wallets db)" by (rule fresh_key_notin)
  then have "fresh_key wa_id (wallets db) \<notin> we_wallet_id ` set (wallet_entries db)"
    using assms(1) by (auto simp: wallets_ok_def)
  then have zero: "ledger_total (fresh_key wa_id (wallets db)) (wallet_entries db) = 0"
    by (rule ledger_total_absent)
  have "wallets_ok db'"
    using assms(1) u fresh zero by (auto simp: eq wallets_ok_def)
  moreover have "wallet_of u db' = Some w"
    using u by (auto simp: eq wallet_of_def table_simps first_where_None_iff split: option.splits
      dest!: first_where_SomeD)
  ultimately show ?thesis by (simp add: eq)
qed

lemma ledger_total_other: "we_wallet_id e \<noteq> i \<Longrightarrow> ledger_total i (es @ [e]) = ledger_total i es"
  by simp

text \<open>
  Moving money keeps the invariant: the one lemma about the UPDATE and the INSERT together. The
  wallet moved keeps its identity and nobody else's changes.
\<close>

lemma move_ok:
  assumes ok: "wallets_ok db" and w: "w \<in> set (wallets db)"
    and m: "is_money amount" and funds: "rf \<or> 0 \<le> wa_balance_inr w + amount"
    and mv: "move w kind amount r note rf db = Inr (e, db')"
  shows "wallets_ok db'"
    and "wallet_of (wa_user_id w) db' = Some (w\<lparr>wa_balance_inr := wa_balance_inr w + amount\<rparr>)"
    and "\<And>u. u \<noteq> wa_user_id w \<Longrightarrow> wallet_of u db' = wallet_of u db"
    and "wallet_entries db' = wallet_entries db @ [e]"
    and "we_wallet_id e = wa_id w \<and> we_amount_inr e = amount \<and> we_reference e = r \<and> we_kind e = kind
       \<and> we_balance_after_inr e = wa_balance_inr w + amount \<and> we_note e = note"
    and "\<not> already_recorded (wa_id w) r db" and "0 \<le> wa_balance_inr w + amount"
proof -
  have row: "row_by wa_id (wallets db) (wa_id w) = Some w"
    using ok w by (simp add: wallets_ok_def row_by_distinct)
  let ?w' = "w\<lparr>wa_balance_inr := wa_balance_inr w + amount\<rparr>"
  have new: "\<not> already_recorded (wa_id w) r db" and pos: "0 \<le> wa_balance_inr w + amount"
    using mv funds row by (auto simp: move_def Let_def split: if_splits)
  then show "\<not> already_recorded (wa_id w) r db" and "0 \<le> wa_balance_inr w + amount" by auto
  have e: "we_wallet_id e = wa_id w \<and> we_amount_inr e = amount \<and> we_reference e = r \<and> we_kind e = kind
       \<and> we_balance_after_inr e = as_money (wa_balance_inr w + amount) \<and> we_note e = note
       \<and> we_id e = fresh_key we_id (wallet_entries db)"
    and es: "wallet_entries db' = wallet_entries db @ [e]"
    and ws: "wallets db' = put_row wa_id ?w' (wallets db)"
    using mv row by (auto simp: move_def Let_def mint_def split: if_splits)
  show "wallet_entries db' = wallet_entries db @ [e]" by (rule es)
  have money: "is_money (wa_balance_inr w + amount)"
    using ok w m unfolding wallets_ok_def by (blast intro: is_money_add)
  then show "we_wallet_id e = wa_id w \<and> we_amount_inr e = amount \<and> we_reference e = r \<and> we_kind e = kind
       \<and> we_balance_after_inr e = wa_balance_inr w + amount \<and> we_note e = note"
    using e by simp
  have members: "x \<in> set (wallets db') \<longleftrightarrow> x = ?w' \<or> (x \<in> set (wallets db) \<and> wa_id x \<noteq> wa_id w)" for x
    using w by (auto simp: ws set_put_row)
  have only: "\<forall>x \<in> set (wallets db). wa_id x = wa_id w \<longrightarrow> x = w"
    using ok w distinct_key_eq[of wa_id "wallets db" w] by (simp add: wallets_ok_def)
  then have users: "map wa_user_id (wallets db') = map wa_user_id (wallets db)"
    unfolding ws by (intro map_put_row_same) auto
  show "wallets_ok db'"
    unfolding wallets_ok_def
  proof (intro conjI ballI)
    have ids: "map wa_id (wallets db') = map wa_id (wallets db)"
      by (simp add: ws map_key_put_row)
    then have id_set: "wa_id ` set (wallets db') = wa_id ` set (wallets db)"
      by (metis list.set_map)
    show "distinct (map wa_id (wallets db'))" "distinct (map wa_user_id (wallets db'))"
      using ok by (simp_all add: ids users wallets_ok_def)
    show "distinct (map we_id (wallet_entries db'))"
      using ok e fresh_key_notin[of we_id "wallet_entries db"] by (simp add: es wallets_ok_def)
    show "distinct (map (\<lambda>e. (we_wallet_id e, we_reference e)) (wallet_entries db'))"
      using ok e new by (auto simp: es wallets_ok_def already_recorded_def)
    show "we_wallet_id ` set (wallet_entries db') \<subseteq> wa_id ` set (wallets db')"
      using ok e w unfolding id_set by (auto simp: es wallets_ok_def)
  next
    fix x assume "x \<in> set (wallets db')"
    then consider "x = ?w'" | "x \<in> set (wallets db)" "wa_id x \<noteq> wa_id w" using members by blast
    then show "is_money (wa_balance_inr x)" "0 \<le> wa_balance_inr x"
      "wa_balance_inr x = ledger_total (wa_id x) (wallet_entries db')"
      using ok e pos money w by (cases; simp add: es wallets_ok_def)+
  qed
  show "wallet_of (wa_user_id w) db' = Some ?w'"
    using first_where_unique[of wa_user_id "wallets db'" ?w'] members ok
    by (simp add: wallet_of_def users wallets_ok_def)
  show "wallet_of u db' = wallet_of u db" if "u \<noteq> wa_user_id w" for u
  proof -
    have "first_where (\<lambda>x. wa_user_id x = u) (put_row wa_id ?w' rows) =
        first_where (\<lambda>x. wa_user_id x = u) rows"
      if "\<forall>x \<in> set rows. wa_id x = wa_id w \<longrightarrow> x = w" for rows
      using that \<open>u \<noteq> wa_user_id w\<close> by (induction rows) auto
    with only show ?thesis by (simp add: wallet_of_def ws)
  qed
qed

lemma balance_of_ok:
  "wallets_ok db \<Longrightarrow> is_money (balance_of u db) \<and> 0 \<le> balance_of u db"
  by (auto simp: balance_of_def wallets_ok_def as_money_nonneg dest!: wallet_of_SomeD
      split: option.splits)

lemma balance_of_wallet:
  "wallets_ok db \<Longrightarrow> wallet_of u db = Some w \<Longrightarrow> balance_of u db = wa_balance_inr w"
  by (auto simp: balance_of_def wallets_ok_def dest!: wallet_of_SomeD)

lemma wallet_for_balance:
  assumes "wallet_for u db = (w, db1)"
  shows "balance_of v db1 = balance_of v db"
  using assms
  by (auto simp: wallet_for_def Let_def balance_of_def wallet_of_def table_simps
      split: option.splits if_splits)

definition entries_of :: "nat \<Rightarrow> 'a wallet_db_scheme \<Rightarrow> wallet_entry list" where
  "entries_of u db =
     (case wallet_of u db of None \<Rightarrow> [] | Some w \<Rightarrow> filter (\<lambda>e. we_wallet_id e = wa_id w) (wallet_entries db))"

text \<open>A reference this student's ledger already holds.\<close>

definition seen :: "nat \<Rightarrow> string \<Rightarrow> 'a wallet_db_scheme \<Rightarrow> bool" where
  "seen u r db \<longleftrightarrow> r \<in> we_reference ` set (entries_of u db)"

lemma seen_iff: "seen u r db \<longleftrightarrow> (\<exists>w. wallet_of u db = Some w \<and> already_recorded (wa_id w) r db)"
  by (cases "wallet_of u db") (auto simp: seen_def entries_of_def already_recorded_def)

lemma no_entries_yet:
  assumes "wallets_ok db"
  shows "\<forall>e \<in> set (wallet_entries db). we_wallet_id e \<noteq> fresh_key wa_id (wallets db)"
proof
  fix e assume "e \<in> set (wallet_entries db)"
  then have "we_wallet_id e \<in> wa_id ` set (wallets db)"
    using assms by (auto simp: wallets_ok_def)
  then show "we_wallet_id e \<noteq> fresh_key wa_id (wallets db)"
    using fresh_key_notin[of wa_id "wallets db"] by metis
qed

lemma wallet_for_seen:
  assumes "wallets_ok db" and "wallet_for u db = (w, db1)"
  shows "already_recorded (wa_id w) r db1 \<longleftrightarrow> seen u r db"
proof (cases "wallet_of u db")
  case (Some x)
  with assms show ?thesis by (simp add: wallet_for_def seen_iff)
next
  case None
  have "\<forall>e \<in> set (wallet_entries db). we_wallet_id e \<noteq> fresh_key wa_id (wallets db)"
    by (rule no_entries_yet[OF assms(1)])
  with assms None show ?thesis
    by (auto simp: wallet_for_def seen_iff already_recorded_def Let_def)
qed

lemma move_defined:
  assumes "wallets_ok db" and "w \<in> set (wallets db)"
  shows "move w kind amount r note rf db =
    (if rf \<and> \<not> (- amount \<le> wa_balance_inr w) then Inl (BadRequest NOT_ENOUGH)
     else if already_recorded (wa_id w) r db then Inl (Conflict ALREADY_RECORDED)
     else move w kind amount r note False db)"
  using assms by (simp add: move_def wallets_ok_def row_by_distinct Let_def)

lemma move_succeeds:
  assumes "wallets_ok db" and "w \<in> set (wallets db)" and "\<not> already_recorded (wa_id w) r db"
  shows "\<exists>e db'. move w kind amount r note False db = Inr (e, db')"
  using assms by (simp add: move_def wallets_ok_def row_by_distinct Let_def mint_def)

text \<open>What a successful movement does, in the terms a student sees.\<close>

definition moved ::
  "nat \<Rightarrow> rat \<Rightarrow> string \<Rightarrow> wallet_entry \<Rightarrow> 'a wallet_db_scheme \<Rightarrow> 'a wallet_db_scheme \<Rightarrow> bool" where
  "moved u amount r e db db' \<longleftrightarrow>
     wallets_ok db' \<and> balance_of u db' = balance_of u db + amount
     \<and> (\<forall>v. v \<noteq> u \<longrightarrow> balance_of v db' = balance_of v db)
     \<and> entries_of u db' = entries_of u db @ [e] \<and> we_amount_inr e = amount \<and> we_reference e = r
     \<and> we_balance_after_inr e = balance_of u db' \<and> seen u r db' \<and> \<not> seen u r db"

lemma move_moved:
  assumes ok: "wallets_ok db" and w: "wallet_of u db = Some w"
    and m: "is_money amount" and funds: "rf \<or> 0 \<le> wa_balance_inr w + amount"
    and mv: "move w kind amount r note rf db = Inr (e, db')"
  shows "moved u amount r e db db'"
proof -
  have ws: "w \<in> set (wallets db)" "wa_user_id w = u" using w by (auto dest: wallet_of_SomeD)
  note mo = move_ok[OF ok ws(1) m funds mv, unfolded ws(2)]
  have "balance_of u db' = wa_balance_inr w + amount"
    using balance_of_wallet[OF mo(1,2)] by simp
  then show ?thesis
    using mo balance_of_wallet[OF ok w] w
    by (auto simp: moved_def balance_of_def entries_of_def seen_iff already_recorded_def)
qed

lemma entries_of_wallet_for:
  assumes "wallets_ok db" and "wallet_for u db = (w, db1)"
  shows "entries_of u db1 = entries_of u db"
proof (cases "wallet_of u db")
  case (Some x)
  with assms show ?thesis by (simp add: wallet_for_def)
next
  case None
  have "\<forall>e \<in> set (wallet_entries db). we_wallet_id e \<noteq> fresh_key wa_id (wallets db)"
    by (rule no_entries_yet[OF assms(1)])
  moreover have "wallet_of u db1 = Some w" "wa_id w = fresh_key wa_id (wallets db)"
    "wallet_entries db1 = wallet_entries db"
    using wallet_for_ok[OF assms] assms None by (auto simp: wallet_for_def Let_def)
  ultimately show ?thesis
    using None by (auto simp: entries_of_def filter_empty_conv)
qed

lemma moved_wallet_for:
  assumes "wallets_ok db" and "wallet_for u db = (w, db1)" and "moved u amount r e db1 db'"
  shows "moved u amount r e db db'"
  using assms wallet_for_balance[OF assms(2)] entries_of_wallet_for[OF assms(1,2)]
  by (simp add: moved_def seen_def)

lemma credit_cases:
  assumes ok: "wallets_ok db"
  shows "credit u amount kind r note db =
      Inl (if as_money amount \<le> 0 then BadRequest MUST_BE_POSITIVE else Conflict ALREADY_RECORDED)
      \<and> (as_money amount \<le> 0 \<or> seen u r db)
    \<or> (\<exists>e db'. credit u amount kind r note db = Inr (e, db') \<and> 0 < as_money amount \<and> we_kind e = kind
        \<and> moved u (as_money amount) r e db db')"
proof (cases "as_money amount \<le> 0")
  case True
  then show ?thesis by (simp add: credit_def Let_def)
next
  case False
  obtain w db1 where wf: "wallet_for u db = (w, db1)" by fastforce
  note w1 = wallet_for_ok[OF ok wf]
  have cr: "credit u amount kind r note db = move w kind (as_money amount) r note False db1"
    using False wf by (simp add: credit_def Let_def)
  show ?thesis
  proof (cases "seen u r db")
    case True
    with wallet_for_seen[OF ok wf] w1 False show ?thesis
      by (simp add: cr move_defined)
  next
    case fresh: False
    with w1 wallet_for_seen[OF ok wf] obtain e db' where
      mv: "move w kind (as_money amount) r note False db1 = Inr (e, db')"
      using move_succeeds by blast
    have pos: "False \<or> 0 \<le> wa_balance_inr w + as_money amount"
      using w1 False by (auto simp: wallets_ok_def)
    have "moved u (as_money amount) r e db db'"
      using move_moved[OF _ _ _ pos mv] w1 moved_wallet_for[OF ok wf] by auto
    moreover have "we_kind e = kind"
      using move_ok(5)[OF _ _ _ pos mv] w1 by auto
    ultimately show ?thesis using cr mv False by auto
  qed
qed

lemma debit_cases:
  assumes ok: "wallets_ok db"
  shows "debit u amount r note db =
    (if as_money amount \<le> 0 then Inl (BadRequest MUST_BE_POSITIVE)
     else if balance_of u db < as_money amount then Inl (BadRequest NOT_ENOUGH)
     else if seen u r db then Inl (Conflict ALREADY_RECORDED)
     else debit u amount r note db)"
    and "debit u amount r note db = Inr (e, db') \<Longrightarrow>
      moved u (- as_money amount) r e db db' \<and> 0 < as_money amount \<and> we_kind e = SPEND"
    and "0 < as_money amount \<Longrightarrow> as_money amount \<le> balance_of u db \<Longrightarrow> \<not> seen u r db \<Longrightarrow>
      \<exists>e db'. debit u amount r note db = Inr (e, db')"
proof -
  let ?a = "as_money amount"
  have "debit u amount r note db =
    (if ?a \<le> 0 then Inl (BadRequest MUST_BE_POSITIVE)
     else if balance_of u db < ?a then Inl (BadRequest NOT_ENOUGH)
     else if seen u r db then Inl (Conflict ALREADY_RECORDED)
     else debit u amount r note db)
   \<and> (debit u amount r note db = Inr (e, db') \<longrightarrow>
      moved u (- ?a) r e db db' \<and> 0 < ?a \<and> we_kind e = SPEND)
   \<and> (0 < ?a \<longrightarrow> ?a \<le> balance_of u db \<longrightarrow> \<not> seen u r db \<longrightarrow>
      (\<exists>e db'. debit u amount r note db = Inr (e, db')))"
  proof (cases "wallet_of u db")
    case None
    then show ?thesis by (auto simp: debit_def Let_def balance_of_def)
  next
    case (Some w)
    then have ws: "w \<in> set (wallets db)" by (auto dest: wallet_of_SomeD)
    have bal: "balance_of u db = wa_balance_inr w" by (rule balance_of_wallet[OF ok Some])
    have sn: "seen u r db \<longleftrightarrow> already_recorded (wa_id w) r db" using Some by (simp add: seen_iff)
    have db: "debit u amount r note db =
        (if ?a \<le> 0 then Inl (BadRequest MUST_BE_POSITIVE) else move w SPEND (- ?a) r note True db)"
      using Some by (simp add: debit_def Let_def)
    have "move w SPEND (- ?a) r note True db = Inr (e, db') \<Longrightarrow> ?a \<le> balance_of u db"
      using ok ws by (simp add: move_defined[where rf = True] bal split: if_splits)
    then have "move w SPEND (- ?a) r note True db = Inr (e, db') \<Longrightarrow>
        moved u (- ?a) r e db db' \<and> we_kind e = SPEND"
      using move_moved[OF ok Some] move_ok(5)[OF ok ws] bal
      by (metis diff_ge_0_iff_ge is_money_as_money is_money_minus uminus_add_conv_diff add.commute)
    moreover have "?a \<le> balance_of u db \<Longrightarrow> \<not> seen u r db \<Longrightarrow>
        \<exists>e db'. move w SPEND (- ?a) r note True db = Inr (e, db')"
      using move_succeeds[OF ok ws] sn bal move_defined[OF ok ws, where rf = True] by auto
    ultimately show ?thesis
      using move_defined[OF ok ws, where rf = True] bal sn db by auto
  qed
  then show "debit u amount r note db =
    (if ?a \<le> 0 then Inl (BadRequest MUST_BE_POSITIVE)
     else if balance_of u db < ?a then Inl (BadRequest NOT_ENOUGH)
     else if seen u r db then Inl (Conflict ALREADY_RECORDED)
     else debit u amount r note db)"
    and "debit u amount r note db = Inr (e, db') \<Longrightarrow>
      moved u (- ?a) r e db db' \<and> 0 < ?a \<and> we_kind e = SPEND"
    and "0 < ?a \<Longrightarrow> ?a \<le> balance_of u db \<Longrightarrow> \<not> seen u r db \<Longrightarrow>
      \<exists>e db'. debit u amount r note db = Inr (e, db')"
    by blast+
qed

lemma carry_cases:
  assumes ok: "wallets_ok db" and c: "carry_balance u balance db = Inr (rep, db')"
  shows "wallets_ok db' \<and> balance_of u db' = as_money balance
    \<and> (\<forall>v. v \<noteq> u \<longrightarrow> balance_of v db' = balance_of v db)
    \<and> carried rep = as_money balance - balance_of u db \<and> (wrote_entry rep \<longleftrightarrow> carried rep \<noteq> 0)
    \<and> (\<exists>w. wallet_of u db' = Some w)"
proof -
  obtain w db1 where wf: "wallet_for u db = (w, db1)" by fastforce
  note w1 = wallet_for_ok[OF ok wf] and b1 = wallet_for_balance[OF wf]
  have nonneg: "0 \<le> as_money balance" using c by (auto simp: carry_balance_def Let_def split: if_splits)
  let ?gap = "as_money balance - balance_of u db"
  have gap: "as_money (as_money balance - balance_of u db1) = ?gap"
    using balance_of_ok[OF ok, of u] by (simp add: b1)
  show ?thesis
  proof (cases "?gap = 0")
    case True
    then show ?thesis using c wf w1 gap nonneg b1 by (auto simp: carry_balance_def Let_def)
  next
    case False
    then obtain r e where mv: "move w ADJUSTMENT ?gap r (Some CARRIED_NOTE) False db1 = Inr (e, db')"
      and rep: "rep = \<lparr>carried = ?gap, wrote_entry = True\<rparr>"
      using c wf gap nonneg by (auto simp: carry_balance_def Let_def bind_res_Inr_iff)
    have bal: "balance_of u db1 = wa_balance_inr w" using w1 balance_of_wallet by blast
    have "moved u ?gap r e db1 db'"
      using move_moved[OF _ _ _ _ mv] w1 bal b1 nonneg balance_of_ok[OF ok, of u] by simp
    then show ?thesis
      using rep False b1 by (auto simp: moved_def seen_iff)
  qed
qed

lemma carry_again:
  assumes "wallets_ok db" and "carry_balance u balance db = Inr (rep, db')"
  shows "carry_balance u balance db' = Inr (\<lparr>carried = 0, wrote_entry = False\<rparr>, db')"
proof -
  have "0 \<le> as_money balance"
    using assms(2) by (auto simp: carry_balance_def Let_def split: if_splits)
  with carry_cases[OF assms] show ?thesis
    by (auto simp: carry_balance_def wallet_for_def Let_def)
qed

lemma serve_ok:
  assumes "wallets_ok db"
  shows "wallets_ok (serve req db)"
proof (cases req)
  case (Credit u amount kind r memo)
  with credit_cases[OF assms, of u amount kind r memo] show ?thesis
    using assms by (auto simp: moved_def)
next
  case (Debit u amount r memo)
  with debit_cases(2)[OF assms] show ?thesis
    using assms by (auto simp: moved_def split: sum.splits)
next
  case (Carry u balance)
  with carry_cases[OF assms] show ?thesis
    using assms by (auto split: sum.splits)
qed

lemma serve_all_ok: "wallets_ok db \<Longrightarrow> wallets_ok (fold serve reqs db)"
  by (induction reqs arbitrary: db) (auto intro: serve_ok)

lemma balance_is_ledger:
  "wallets_ok db \<Longrightarrow> balance_of u db = sum_list (map we_amount_inr (entries_of u db))"
  by (auto simp: balance_of_def entries_of_def wallets_ok_def ledger_total_def
      dest!: wallet_of_SomeD split: option.splits)

lemma sum_list_perm: "mset xs = mset ys \<Longrightarrow> sum_list (xs :: rat list) = sum_list ys"
  by (metis sum_mset_sum_list)

lemma statement_all:
  "length (entries_of u db) \<le> limit \<Longrightarrow>
   mset (statement u limit db) = mset (entries_of u db)"
  by (auto simp: statement_def entries_of_def split: option.splits)

section \<open>Properties\<close>

text \<open>
  C16. The ledger is the balance: after any history of top-ups, refunds, spends and carried
  balances, accepted or refused in any order, every student's balance is whole paise, never
  negative, and equal to the sum of the entries the statement lists.
\<close>

theorem ledger_is_balance:
  fixes db :: "'a wallet_db_scheme"
  assumes "wallets_ok db"
  shows "let db' = fold serve requests db in
    wallets_ok db' \<and> 0 \<le> balance_of u db' \<and> is_money (balance_of u db')
    \<and> (length (wallet_entries db') \<le> limit \<longrightarrow>
        balance_of u db' = sum_list (map we_amount_inr (statement u limit db')))"
proof -
  let ?db = "fold serve requests db"
  have ok: "wallets_ok ?db" by (rule serve_all_ok[OF assms])
  have len: "length (entries_of u ?db) \<le> length (wallet_entries ?db)"
    by (auto simp: entries_of_def split: option.splits)
  have "balance_of u ?db = sum_list (map we_amount_inr (statement u limit ?db))"
    if "length (wallet_entries ?db) \<le> limit"
  proof -
    have "mset (statement u limit ?db) = mset (entries_of u ?db)"
      by (rule statement_all) (use that len in linarith)
    then have "mset (map we_amount_inr (statement u limit ?db)) = mset (map we_amount_inr (entries_of u ?db))"
      by simp
    then show ?thesis using balance_is_ledger[OF ok, of u] sum_list_perm by metis
  qed
  with ok balance_of_ok[OF ok, of u] show ?thesis by (simp add: Let_def)
qed

definition wallet_example :: wallet_db where
  "wallet_example = \<lparr>tx_now = 5, entropy = (\<lambda>_. 0), drawn = 0, kiosks_to_wake = [], audit_log = [],
     admin_alerts = [], users = [], user_roles = [], one_time_tokens = [], refresh_tokens = [],
     kiosks = [], kiosk_devices = [], device_enrolments = [], kiosk_papers = [],
     kiosk_assignments = [], kiosk_favourites = [], paper_refill_logs = [], staff_invites = [],
     device_commands = [],
     wallets = [\<lparr>wa_id = 1, wa_user_id = 7, wa_balance_inr = 50, wa_created_at = 0\<rparr>],
     wallet_entries = [\<lparr>we_id = 1, we_public_id = ''wlt_1'', we_wallet_id = 1, we_kind = TOPUP,
       we_amount_inr = 50, we_balance_after_inr = 50, we_reference = ''pay_1'', we_note = None,
       we_created_at = 0\<rparr>]\<rparr>"

lemma wallet_example_ok: "wallets_ok wallet_example"
  by (simp add: wallets_ok_def wallet_example_def ledger_total_def)

lemma wallet_example_facts:
  "balance_of 7 wallet_example = 50" "\<not> seen 7 ''ord_1'' wallet_example"
  by (simp_all add: balance_of_def seen_def entries_of_def wallet_of_def wallet_example_def)

theorem ledger_is_balance_witness:
  "0 \<le> balance_of 7 (fold serve [Debit 7 20 ''ord_1'' None, Credit 7 5 ENTRY_REFUND ''rfd_1'' None]
     wallet_example)"
  using ledger_is_balance[OF wallet_example_ok,
      of "[Debit 7 20 ''ord_1'' None, Credit 7 5 ENTRY_REFUND ''rfd_1'' None]" 7]
  by (simp add: Let_def)

text \<open>
  (Property). Spending balance is exact and happens once: a debit is accepted exactly when the amount is
  positive, covered by the balance and under a reference the student's ledger has not seen; it
  then lowers that one student's balance by the amount, nobody else's, and writes one entry; the
  same reference presented again is always refused.
\<close>

theorem debit_exact_once:
  fixes db :: "'a wallet_db_scheme"
  assumes "wallets_ok db"
  shows "((\<exists>e db'. debit u amount r note db = Inr (e, db'))
      \<longleftrightarrow> 0 < as_money amount \<and> as_money amount \<le> balance_of u db \<and> \<not> seen u r db)
    \<and> (\<forall>e db'. debit u amount r note db = Inr (e, db') \<longrightarrow>
      balance_of u db' = balance_of u db - as_money amount
      \<and> (\<forall>v. v \<noteq> u \<longrightarrow> balance_of v db' = balance_of v db)
      \<and> entries_of u db' = entries_of u db @ [e] \<and> we_amount_inr e = - as_money amount
      \<and> (\<forall>amount2 note2 e2 db2. debit u amount2 r note2 db' \<noteq> Inr (e2, db2)))"
proof (intro conjI allI impI)
  show "(\<exists>e db'. debit u amount r note db = Inr (e, db'))
      \<longleftrightarrow> 0 < as_money amount \<and> as_money amount \<le> balance_of u db \<and> \<not> seen u r db"
    using debit_cases(1)[OF assms, of u amount r "note"] debit_cases(3)[OF assms, of amount u r "note"]
    by (auto split: if_splits)
next
  fix e db' assume "debit u amount r note db = Inr (e, db')"
  note mv = conjunct1[OF debit_cases(2)[OF assms this]]
  then show "balance_of u db' = balance_of u db - as_money amount"
    "entries_of u db' = entries_of u db @ [e]" "we_amount_inr e = - as_money amount"
    by (simp_all add: moved_def)
  show "balance_of v db' = balance_of v db" if "v \<noteq> u" for v
    using mv that by (simp add: moved_def)
  have again: "wallets_ok db'" "seen u r db'" using mv by (auto simp: moved_def)
  show "debit u amount2 r note2 db' \<noteq> Inr (e2, db2)" for amount2 note2 e2 db2
    using debit_cases(2)[OF again(1), of u amount2 r note2 e2 db2] again(2) by (auto simp: moved_def)
qed

theorem debit_exact_once_witness:
  "\<exists>e db'. debit 7 20 ''ord_1'' None wallet_example = Inr (e, db') \<and> balance_of 7 db' = 30"
proof -
  have "as_money 20 = 20" by simp
  then show ?thesis
    using debit_exact_once[OF wallet_example_ok, of 7 20 "''ord_1''" None]
    by (auto simp: wallet_example_facts)
qed

text \<open>
  (Property). Carrying a legacy balance over is idempotent: a pass leaves exactly the legacy balance, nobody
  else's wallet changes, and running it again writes nothing.
\<close>

theorem carry_idempotent:
  fixes db :: "'a wallet_db_scheme"
  assumes "wallets_ok db" and "carry_balance u balance db = Inr (report, db')"
  shows "balance_of u db' = as_money balance \<and> wallets_ok db'
    \<and> (\<forall>v. v \<noteq> u \<longrightarrow> balance_of v db' = balance_of v db)
    \<and> carry_balance u balance db' = Inr (\<lparr>carried = 0, wrote_entry = False\<rparr>, db')"
  using carry_cases[OF assms] carry_again[OF assms] by blast

theorem carry_idempotent_witness:
  "\<exists>report db'. carry_balance 7 80 wallet_example = Inr (report, db') \<and> balance_of 7 db' = 80"
proof -
  obtain report db' where c: "carry_balance 7 80 wallet_example = Inr (report, db')"
    by (auto simp: carry_balance_def wallet_for_def wallet_of_def wallet_example_def balance_of_def
        move_def Let_def mint_def already_recorded_def carry_reference_def)
  with carry_idempotent[OF wallet_example_ok c] show ?thesis by simp
qed

end
