(* ===== verification/Paper.thy ===== *)
theory Paper
  imports KioskModels
begin

text \<open>
  \<^verbatim>\<open>app/modules/kiosks/paper.py\<close>: how much is in the tray. The row stores sheets used against a
  capacity; every change writes one refill-log row and one audit row.
\<close>

section \<open>Operations\<close>

definition paper_row :: "kiosk \<Rightarrow> 'a kiosks_db_scheme \<Rightarrow> kiosk_paper \<times> 'a kiosks_db_scheme" where
  "paper_row k db =
     (case row_by kp_kiosk_id (kiosk_papers db) (ki_id k) of
        Some paper \<Rightarrow> (paper, db)
      | None \<Rightarrow>
          let paper = \<lparr>kp_kiosk_id = ki_id k, kp_capacity = DEFAULT_PAPER_CAPACITY, kp_used = 0,
                       kp_warning_count = 0, kp_last_warning_at = None, kp_last_reminder_at = None\<rparr>
          in (paper, db\<lparr>kiosk_papers := kiosk_papers db @ [paper]\<rparr>))"

definition left_in :: "kiosk_paper \<Rightarrow> int" where
  "left_in paper = max 0 (kp_capacity paper - kp_used paper)"

definition sheets_remaining :: "kiosk \<Rightarrow> 'a kiosks_db_scheme \<Rightarrow> int \<times> 'a kiosks_db_scheme" where
  "sheets_remaining k db = (let (paper, db1) = paper_row k db in (left_in paper, db1))"

definition tray_capacity :: "kiosk \<Rightarrow> 'a kiosks_db_scheme \<Rightarrow> int \<times> 'a kiosks_db_scheme" where
  "tray_capacity k db = (let (paper, db1) = paper_row k db in (kp_capacity paper, db1))"

definition clear_warning_throttle :: "kiosk_paper \<Rightarrow> kiosk_paper" where
  "clear_warning_throttle paper =
     paper\<lparr>kp_warning_count := 0, kp_last_warning_at := None, kp_last_reminder_at := None\<rparr>"

definition save_paper :: "kiosk_paper \<Rightarrow> 'a kiosks_db_scheme \<Rightarrow> 'a kiosks_db_scheme" where
  "save_paper paper db = db\<lparr>kiosk_papers := put_row kp_kiosk_id paper (kiosk_papers db)\<rparr>"

definition log_paper ::
  "kiosk \<Rightarrow> kiosk_paper \<Rightarrow> int \<Rightarrow> int \<Rightarrow> nat option \<Rightarrow> string option \<Rightarrow> string \<Rightarrow>
   'a kiosks_db_scheme \<Rightarrow> 'a kiosks_db_scheme" where
  "log_paper k paper sheets_added used_before actor note action db =
     (let row = \<lparr>pl_id = fresh_key pl_id (paper_refill_logs db), pl_kiosk_id = ki_id k,
                 pl_actor_user_id = actor, pl_sheets_added = sheets_added,
                 pl_capacity_at_change = kp_capacity paper, pl_used_before_change = used_before,
                 pl_note = note, pl_created_at = tx_now db\<rparr>
      in snd (record_audit action ''kiosk'' (Some (ki_public_id k)) actor
           (Some (PDict [(''used'', PInt used_before), (''capacity'', PInt (kp_capacity paper))]))
           (Some (PDict [(''used'', PInt (kp_used paper)), (''capacity'', PInt (kp_capacity paper))]))
           note (db\<lparr>paper_refill_logs := paper_refill_logs db @ [row]\<rparr>)))"

definition reset_paper :: "kiosk \<Rightarrow> nat option \<Rightarrow> 'a kiosks_db_scheme \<Rightarrow> int \<times> 'a kiosks_db_scheme" where
  "reset_paper k actor db =
     (let (paper, db1) = paper_row k db;
          full = clear_warning_throttle (paper\<lparr>kp_used := 0\<rparr>);
          db2 = save_paper full db1
      in (kp_capacity full,
          log_paper k full (kp_used paper) (kp_used paper) actor (Some ''reset to full'')
            ''kiosk.paper.reset'' db2))"

definition SAY_SOMETHING :: string where
  "SAY_SOMETHING = ''Say how big the tray is, how much paper is in it, or both.''"

definition ONE_SHEET :: string where
  "ONE_SHEET = ''A paper tray holds at least one sheet.''"

definition NEGATIVE_SHEETS :: string where
  "NEGATIVE_SHEETS = ''A tray cannot hold a negative number of sheets.''"

definition overfull :: "int \<Rightarrow> int \<Rightarrow> string" where
  "overfull capacity new_left =
     ''That tray holds '' @ show_int capacity @ '' sheets, so it cannot contain '' @
     show_int new_left @ ''.''"

definition set_paper ::
  "kiosk \<Rightarrow> int option \<Rightarrow> int option \<Rightarrow> nat option \<Rightarrow> string option \<Rightarrow> 'a kiosks_db_scheme \<Rightarrow>
   (int \<times> 'a kiosks_db_scheme) result" where
  "set_paper k capacity sheets_left actor note db =
     bind_res (require (capacity \<noteq> None \<or> sheets_left \<noteq> None) (BadRequest SAY_SOMETHING)) (\<lambda>_.
     let (paper, db1) = paper_row k db;
         old_left = left_in paper;
         sized = (case capacity of None \<Rightarrow> paper | Some c \<Rightarrow> paper\<lparr>kp_capacity := c\<rparr>);
         new_left = (case sheets_left of None \<Rightarrow> old_left | Some s \<Rightarrow> s)
     in bind_res (require (case capacity of None \<Rightarrow> True | Some c \<Rightarrow> 1 \<le> c) (BadRequest ONE_SHEET)) (\<lambda>_.
        bind_res (require (0 \<le> new_left) (BadRequest NEGATIVE_SHEETS)) (\<lambda>_.
        bind_res (require (new_left \<le> kp_capacity sized)
                   (BadRequest (overfull (kp_capacity sized) new_left))) (\<lambda>_.
        let filled = sized\<lparr>kp_used := kp_capacity sized - new_left\<rparr>;
            rearmed = (if old_left < new_left then clear_warning_throttle filled else filled)
        in Inr (new_left,
             log_paper k rearmed (max 0 (new_left - old_left)) (kp_used paper) actor note
               ''kiosk.paper.set'' (save_paper rearmed db1))))))"

definition mark_out_of_paper ::
  "kiosk \<Rightarrow> nat option \<Rightarrow> 'a kiosks_db_scheme \<Rightarrow> (int \<times> 'a kiosks_db_scheme) result" where
  "mark_out_of_paper k actor db = set_paper k None (Some 0) actor (Some ''reported empty'') db"

definition NEGATIVE_PRINT :: string where
  "NEGATIVE_PRINT = ''A print cannot consume a negative number of sheets.''"

definition consume_note :: "int \<Rightarrow> int \<Rightarrow> int option \<Rightarrow> string option \<Rightarrow> string" where
  "consume_note used predicted actual reference =
     (''printed '' @ show_int used @ '' sheet'' @ (if used \<noteq> 1 then ''s'' else '''')) @
     (case reference of None \<Rightarrow> '''' | Some r \<Rightarrow> if r = '''' then '''' else '' for '' @ r) @
     (case actual of
        Some a \<Rightarrow> if a \<noteq> predicted then '' (expected '' @ show_int predicted @ '')'' else ''''
      | None \<Rightarrow> '' (estimated; device did not report)'')"

definition consume_paper ::
  "kiosk \<Rightarrow> int \<Rightarrow> int option \<Rightarrow> string option \<Rightarrow> 'a kiosks_db_scheme \<Rightarrow>
   (int \<times> 'a kiosks_db_scheme) result" where
  "consume_paper k predicted actual reference db =
     (let used = (case actual of Some a \<Rightarrow> a | None \<Rightarrow> predicted) in
      bind_res (require (0 \<le> used) (BadRequest NEGATIVE_PRINT)) (\<lambda>_.
      let (paper, db1) = paper_row k db;
          drawn_down = paper\<lparr>kp_used := min (kp_capacity paper) (kp_used paper + used)\<rparr>
      in Inr (left_in drawn_down,
           log_paper k drawn_down (- used) (kp_used paper) None
             (Some (consume_note used predicted actual reference)) ''kiosk.paper.consumed''
             (save_paper drawn_down db1))))"

definition can_print :: "kiosk \<Rightarrow> int \<Rightarrow> 'a kiosks_db_scheme \<Rightarrow> bool \<times> 'a kiosks_db_scheme" where
  "can_print k sheets_needed db =
     (let (n, db1) = sheets_remaining k db in (sheets_needed \<le> n, db1))"

section \<open>Trays stay physical\<close>

text \<open>
  The invariant of the table: one row per kiosk, and every tray holds between nothing and its
  capacity. \<open>tray k db\<close> is what anyone reading the tray sees, a missing row included.
\<close>

definition tray_ok :: "kiosk_paper \<Rightarrow> bool" where
  "tray_ok p \<longleftrightarrow> 1 \<le> kp_capacity p \<and> 0 \<le> kp_used p \<and> kp_used p \<le> kp_capacity p"

definition papers_ok :: "'a kiosks_db_scheme \<Rightarrow> bool" where
  "papers_ok db \<longleftrightarrow> distinct (map kp_kiosk_id (kiosk_papers db)) \<and> (\<forall>p \<in> set (kiosk_papers db). tray_ok p)"

definition tray :: "kiosk \<Rightarrow> 'a kiosks_db_scheme \<Rightarrow> kiosk_paper" where
  "tray k db = fst (paper_row k db)"

definition remaining :: "kiosk \<Rightarrow> 'a kiosks_db_scheme \<Rightarrow> int" where
  "remaining k db = left_in (tray k db)"

text \<open>What one recorded change is: the tray, one log row and one audit row, and nothing else.\<close>

definition paper_changed ::
  "kiosk \<Rightarrow> int \<Rightarrow> 'a kiosks_db_scheme \<Rightarrow> 'a kiosks_db_scheme \<Rightarrow> bool" where
  "paper_changed k new_left db db' \<longleftrightarrow>
     papers_ok db' \<and> remaining k db' = new_left
     \<and> (\<forall>j. ki_id j \<noteq> ki_id k \<longrightarrow> tray j db' = tray j db)
     \<and> (\<exists>l. paper_refill_logs db' = paper_refill_logs db @ [l] \<and> pl_kiosk_id l = ki_id k
           \<and> pl_used_before_change l = kp_used (tray k db))
     \<and> (\<exists>a. audit_log db' = audit_log db @ [a] \<and> au_entity_id a = Some (ki_public_id k))"

lemma tray_paper_row: "paper_row k db = (paper, db1) \<Longrightarrow> tray j db1 = tray j db"
  by (auto simp: tray_def paper_row_def Let_def table_simps split: option.splits if_splits)

lemma paper_row_ok:
  assumes "papers_ok db" and "paper_row k db = (paper, db1)"
  shows "papers_ok db1" and "tray_ok paper" and "kp_kiosk_id paper = ki_id k"
    and "paper \<in> set (kiosk_papers db1)" and "tray j db1 = tray j db"
    and "paper_refill_logs db1 = paper_refill_logs db" and "audit_log db1 = audit_log db"
    and "paper = tray k db"
proof -
  show "tray j db1 = tray j db" by (rule tray_paper_row[OF assms(2)])
  show "paper = tray k db" using assms(2) by (simp add: tray_def)
  show "papers_ok db1" "tray_ok paper" "kp_kiosk_id paper = ki_id k" "paper \<in> set (kiosk_papers db1)"
    "paper_refill_logs db1 = paper_refill_logs db" "audit_log db1 = audit_log db"
    using assms
    by (auto simp: paper_row_def papers_ok_def tray_ok_def DEFAULT_PAPER_CAPACITY_def Let_def
        row_by_None_iff dest: row_by_SomeD split: option.splits)
qed

lemma log_paper_simps [simp]:
  "kiosk_papers (log_paper k p a b actor n act db) = kiosk_papers db"
  "\<exists>l. paper_refill_logs (log_paper k p a b actor n act db) = paper_refill_logs db @ [l]
     \<and> pl_kiosk_id l = ki_id k \<and> pl_used_before_change l = b"
  "\<exists>e. audit_log (log_paper k p a b actor n act db) = audit_log db @ [e]
     \<and> au_entity_id e = Some (ki_public_id k)"
  by (simp_all add: log_paper_def record_audit_def Let_def)

lemma tray_log [simp]: "tray j (log_paper k p a b actor n act db) = tray j db"
  by (simp add: tray_def paper_row_def Let_def split: option.splits)

lemma save_paper_changed:
  assumes "papers_ok db" and "paper_row k db = (paper, db1)" and "tray_ok p"
    and "kp_kiosk_id p = ki_id k"
  shows "paper_changed k (left_in p) db
    (log_paper k p a (kp_used paper) actor n act (save_paper p db1))"
proof -
  note pr = paper_row_ok[OF assms(1,2)]
  have row: "row_by kp_kiosk_id (kiosk_papers db1) (ki_id k) = Some paper"
    using pr row_by_distinct[of kp_kiosk_id "kiosk_papers db1" paper] by (simp add: papers_ok_def)
  have mine: "tray k (save_paper p db1) = p"
    using row assms(4) by (simp add: tray_def paper_row_def save_paper_def table_simps)
  have others: "tray j (save_paper p db1) = tray j db1" if "ki_id j \<noteq> ki_id k" for j
    using that assms(4) by (simp add: tray_def paper_row_def save_paper_def table_simps Let_def
        split: option.splits)
  have "papers_ok (save_paper p db1)"
    using pr(1) assms(3) by (auto simp: papers_ok_def save_paper_def table_simps)
  moreover have "paper_refill_logs (save_paper p db1) = paper_refill_logs db"
    "audit_log (save_paper p db1) = audit_log db"
    using pr by (simp_all add: save_paper_def)
  ultimately show ?thesis
    using mine others pr(5,8) log_paper_simps(2)[of k p a "kp_used paper" actor n act "save_paper p db1"]
      log_paper_simps(3)[of k p a "kp_used paper" actor n act "save_paper p db1"]
    by (simp add: paper_changed_def remaining_def papers_ok_def)
qed

lemma tray_ok_tray: "papers_ok db \<Longrightarrow> tray_ok (tray k db)"
  using paper_row_ok(2) unfolding tray_def by (metis prod.collapse)

lemma left_in_ok: "tray_ok p \<Longrightarrow> left_in p = kp_capacity p - kp_used p"
  by (simp add: left_in_def tray_ok_def)

lemma reset_paper_changed:
  assumes "papers_ok db" and "reset_paper k actor db = (n, db')"
  shows "paper_changed k n db db' \<and> n = kp_capacity (tray k db)"
proof -
  obtain paper db1 where pr: "paper_row k db = (paper, db1)" by fastforce
  let ?p = "clear_warning_throttle (paper\<lparr>kp_used := 0\<rparr>)"
  note ok = paper_row_ok[OF assms(1) pr]
  have t: "tray_ok ?p" "kp_kiosk_id ?p = ki_id k"
    using ok(2,3) by (simp_all add: tray_ok_def clear_warning_throttle_def)
  have eq: "n = kp_capacity paper" "db' = log_paper k ?p (kp_used paper) (kp_used paper) actor
      (Some ''reset to full'') ''kiosk.paper.reset'' (save_paper ?p db1)"
    using assms(2) pr by (auto simp: reset_paper_def clear_warning_throttle_def Let_def)
  have "left_in ?p = kp_capacity paper"
    using t(1) by (simp add: left_in_ok clear_warning_throttle_def)
  then have n: "left_in ?p = n" by (simp add: eq)
  have "paper_changed k (left_in ?p) db db'"
    unfolding eq by (rule save_paper_changed[OF assms(1) pr t])
  with n ok(8) eq(1) show ?thesis by simp
qed

lemma set_paper_changed:
  assumes "papers_ok db" and "set_paper k capacity sheets_left actor note db = Inr (n, db')"
  shows "paper_changed k n db db'
    \<and> n = (case sheets_left of None \<Rightarrow> remaining k db | Some s \<Rightarrow> s) \<and> 0 \<le> n
    \<and> kp_capacity (tray k db') = (case capacity of None \<Rightarrow> kp_capacity (tray k db) | Some c \<Rightarrow> c)"
proof -
  obtain paper db1 where pr: "paper_row k db = (paper, db1)" by fastforce
  note ok = paper_row_ok[OF assms(1) pr]
  define cap where "cap = (case capacity of None \<Rightarrow> kp_capacity paper | Some c \<Rightarrow> c)"
  define m where "m = (case sheets_left of None \<Rightarrow> left_in paper | Some s \<Rightarrow> s)"
  define p where "p = (let f = paper\<lparr>kp_capacity := cap, kp_used := cap - m\<rparr>
    in if left_in paper < m then clear_warning_throttle f else f)"
  have b: "n = m" "0 \<le> m" "m \<le> cap" "1 \<le> cap"
    and db': "db' = log_paper k p (max 0 (m - left_in paper)) (kp_used paper) actor note
      ''kiosk.paper.set'' (save_paper p db1)"
    using assms(2) pr ok(2)
    by (auto simp: set_paper_def Let_def bind_res_Inr_iff require_Inr_iff cap_def m_def p_def tray_ok_def
        split: option.splits)
  have t: "tray_ok p" "kp_kiosk_id p = ki_id k" "left_in p = m" "kp_capacity p = cap"
    using b ok(3) by (auto simp: p_def tray_ok_def clear_warning_throttle_def left_in_def Let_def)
  have "paper_changed k (left_in p) db db'"
    unfolding db' by (rule save_paper_changed[OF assms(1) pr t(1,2)])
  moreover have "tray k db' = p"
  proof -
    have "row_by kp_kiosk_id (kiosk_papers db1) (ki_id k) = Some paper"
      using ok row_by_distinct[of kp_kiosk_id "kiosk_papers db1" paper] by (simp add: papers_ok_def)
    then show ?thesis
      using t(2) by (simp add: db' tray_def paper_row_def save_paper_def table_simps)
  qed
  ultimately show ?thesis
    using b t ok(8) by (auto simp: m_def cap_def remaining_def split: option.splits)
qed

lemma consume_paper_changed:
  assumes "papers_ok db" and "consume_paper k predicted actual ref db = Inr (n, db')"
  shows "paper_changed k n db db'
    \<and> n = max 0 (remaining k db - (case actual of Some a \<Rightarrow> a | None \<Rightarrow> predicted))"
proof -
  obtain paper db1 where pr: "paper_row k db = (paper, db1)" by fastforce
  note ok = paper_row_ok[OF assms(1) pr]
  define u where "u = (case actual of Some a \<Rightarrow> a | None \<Rightarrow> predicted)"
  define p where "p = paper\<lparr>kp_used := min (kp_capacity paper) (kp_used paper + u)\<rparr>"
  have eq: "0 \<le> u" "n = left_in p" "db' = log_paper k p (- u) (kp_used paper) None
      (Some (consume_note u predicted actual ref)) ''kiosk.paper.consumed'' (save_paper p db1)"
    using assms(2) pr
    by (auto simp: consume_paper_def Let_def bind_res_Inr_iff require_Inr_iff u_def p_def)
  have t: "tray_ok p" "kp_kiosk_id p = ki_id k"
    using ok(2,3) eq(1) by (auto simp: p_def tray_ok_def)
  have "paper_changed k (left_in p) db db'"
    unfolding eq by (rule save_paper_changed[OF assms(1) pr t])
  moreover have "left_in p = max 0 (remaining k db - u)"
    using ok(2,8) eq(1) by (auto simp: p_def left_in_def remaining_def tray_ok_def)
  ultimately show ?thesis
    using eq(2) by (simp add: u_def)
qed

lemma consume_paper_total:
  assumes "0 \<le> (case actual of Some a \<Rightarrow> a | None \<Rightarrow> predicted)"
  shows "\<exists>n db'. consume_paper k predicted actual ref db = Inr (n, db')"
  using assms by (simp add: consume_paper_def Let_def case_prod_beta)

section \<open>Properties\<close>

datatype paper_request =
    ResetPaper kiosk "nat option"
  | SetPaper kiosk "int option" "int option" "nat option" "string option"
  | OutOfPaper kiosk "nat option"
  | ConsumePaper kiosk int "int option" "string option"

fun paper_request_kiosk :: "paper_request \<Rightarrow> kiosk" where
  "paper_request_kiosk (ResetPaper k _) = k"
| "paper_request_kiosk (SetPaper k _ _ _ _) = k"
| "paper_request_kiosk (OutOfPaper k _) = k"
| "paper_request_kiosk (ConsumePaper k _ _ _) = k"

fun change_tray :: "paper_request \<Rightarrow> 'a kiosks_db_scheme \<Rightarrow> (int \<times> 'a kiosks_db_scheme) result" where
  "change_tray (ResetPaper k actor) db = Inr (reset_paper k actor db)"
| "change_tray (SetPaper k capacity sheets_left actor note) db = set_paper k capacity sheets_left actor note db"
| "change_tray (OutOfPaper k actor) db = mark_out_of_paper k actor db"
| "change_tray (ConsumePaper k predicted actual reference) db = consume_paper k predicted actual reference db"

text \<open>A run of requests, each in its own transaction; \<open>accepted\<close> counts the ones that went through.\<close>

fun tray_run :: "paper_request list \<Rightarrow> 'a kiosks_db_scheme \<Rightarrow> nat \<times> 'a kiosks_db_scheme" where
  "tray_run [] db = (0, db)"
| "tray_run (r # rs) db =
     (case change_tray r db of
        Inl _ \<Rightarrow> tray_run rs db
      | Inr (_, db') \<Rightarrow> let (n, db'') = tray_run rs db' in (Suc n, db''))"

lemma change_tray_changed:
  assumes "papers_ok db" and "change_tray r db = Inr (n, db')"
  shows "paper_changed (paper_request_kiosk r) n db db'"
  using assms(2)
  by (cases r) (auto simp: mark_out_of_paper_def dest: reset_paper_changed[OF assms(1)]
      set_paper_changed[OF assms(1)] consume_paper_changed[OF assms(1)])

text \<open>
  (Property). Trays stay physical and the trail is complete: through any run of refills, resizes, empty
  reports and prints, accepted or refused, every tray holds between zero and its capacity, and
  each accepted change has written exactly one refill-log row and one audit row.
\<close>

theorem paper_trail_complete:
  assumes "papers_ok db" and "tray_run requests db = (accepted, db')"
  shows "papers_ok db'
    \<and> 0 \<le> remaining k db' \<and> remaining k db' \<le> kp_capacity (tray k db')
    \<and> length (paper_refill_logs db') = length (paper_refill_logs db) + accepted
    \<and> length (audit_log db') = length (audit_log db) + accepted"
  using assms
proof (induction requests arbitrary: db accepted)
  case Nil
  then show ?case
    using tray_ok_tray[of db k] by (auto simp: remaining_def left_in_def tray_ok_def)
next
  case (Cons r rs)
  show ?case
  proof (cases "change_tray r db")
    case (Inl e)
    with Cons show ?thesis by simp
  next
    case (Inr x)
    then obtain n db1 where c: "change_tray r db = Inr (n, db1)" by (cases x) auto
    obtain a where a: "tray_run rs db1 = (a, db')" "accepted = Suc a"
      using Cons.prems(2) c by (auto simp: Let_def split: prod.splits)
    have "paper_changed (paper_request_kiosk r) n db db1"
      by (rule change_tray_changed[OF Cons.prems(1) c])
    with Cons.IH[OF _ a(1)] a(2) show ?thesis by (auto simp: paper_changed_def)
  qed
qed

definition kiosk_example :: kiosk where
  "kiosk_example = \<lparr>ki_id = 1, ki_public_id = ''ksk_1'', ki_name = ''Library'', ki_type = PLATFORM,
     ki_stage = LIVE, ki_note = None, ki_is_active = True, ki_accepts_wallet = True,
     ki_offers_colour = True, ki_location = None, ki_latitude = None, ki_longitude = None,
     ki_price_bw_single = None, ki_price_bw_double = None, ki_price_color_single = None,
     ki_price_color_double = None, ki_created_at = 0\<rparr>"

definition kiosks_example :: kiosks_db where
  "kiosks_example = \<lparr>tx_now = 5, entropy = (\<lambda>_. 0), drawn = 0, kiosks_to_wake = [], audit_log = [],
     admin_alerts = [], users = [], user_roles = [], one_time_tokens = [], refresh_tokens = [],
     kiosks = [kiosk_example], kiosk_devices = [], device_enrolments = [], kiosk_papers = [],
     kiosk_assignments = [], kiosk_favourites = [], paper_refill_logs = [], staff_invites = [],
     device_commands = []\<rparr>"

lemma kiosks_example_papers: "papers_ok kiosks_example" "remaining kiosk_example kiosks_example = 250"
  by (simp_all add: papers_ok_def kiosks_example_def kiosk_example_def remaining_def tray_def
      paper_row_def left_in_def DEFAULT_PAPER_CAPACITY_def Let_def)

theorem paper_trail_complete_witness:
  "length (audit_log (snd (tray_run [ResetPaper kiosk_example (Some 3)] kiosks_example))) = 1"
  using paper_trail_complete[OF kiosks_example_papers(1),
      of "[ResetPaper kiosk_example (Some 3)]" 1
        "snd (tray_run [ResetPaper kiosk_example (Some 3)] kiosks_example)"]
  by (simp add: Let_def case_prod_beta kiosks_example_def)

text \<open>
  (Property). A finished print deducts what the device says it used, and the prediction only when it
  says nothing; the tray never goes below empty, and no other kiosk's tray moves.
\<close>

theorem consume_prefers_actual:
  assumes "papers_ok db" and "consume_paper k predicted actual reference db = Inr (n, db')"
  shows "remaining k db' = max 0 (remaining k db - (case actual of Some a \<Rightarrow> a | None \<Rightarrow> predicted))
    \<and> n = remaining k db' \<and> papers_ok db'
    \<and> (\<forall>j. ki_id j \<noteq> ki_id k \<longrightarrow> tray j db' = tray j db)"
  using consume_paper_changed[OF assms] by (auto simp: paper_changed_def)

theorem consume_prefers_actual_witness:
  "\<exists>n db'. consume_paper kiosk_example 4 (Some 6) None kiosks_example = Inr (n, db')
     \<and> remaining kiosk_example db' = 244"
proof -
  obtain n db' where c: "consume_paper kiosk_example 4 (Some 6) None kiosks_example = Inr (n, db')"
    using consume_paper_total[of 4 "Some 6" kiosk_example None kiosks_example] by auto
  with consume_prefers_actual[OF kiosks_example_papers(1) c] show ?thesis
    by (simp add: kiosks_example_papers(2))
qed

text \<open>
  (Property). Setting the tray: resizing alone preserves the sheets in it, naming an amount sets exactly
  that amount, and the request is refused (with no change) exactly when it names nothing, a tray
  of no sheets, a negative amount, or more than the tray holds.
\<close>

theorem set_paper_exact:
  assumes "papers_ok db"
  shows "(\<exists>n db'. set_paper k capacity sheets_left actor note db = Inr (n, db'))
      \<longleftrightarrow> (let c = (case capacity of None \<Rightarrow> kp_capacity (tray k db) | Some c \<Rightarrow> c);
               m = (case sheets_left of None \<Rightarrow> remaining k db | Some s \<Rightarrow> s)
           in (capacity \<noteq> None \<or> sheets_left \<noteq> None) \<and> 1 \<le> c \<and> 0 \<le> m \<and> m \<le> c)"
    (is "?accepted \<longleftrightarrow> ?sensible")
proof -
  obtain paper db1 where pr: "paper_row k db = (paper, db1)" by fastforce
  have t: "paper = tray k db" "tray_ok paper" using paper_row_ok[OF assms pr] by auto
  then show ?thesis
    using pr by (auto simp: set_paper_def Let_def bind_res_Inr_iff require_Inr_iff remaining_def
        tray_ok_def left_in_def split: option.splits)
qed

theorem set_paper_exact_witness:
  "\<not> (\<exists>n db'. set_paper kiosk_example (Some 200) None None None kiosks_example = Inr (n, db'))"
  using set_paper_exact[OF kiosks_example_papers(1), of kiosk_example "Some 200" None None None]
  by (simp add: Let_def kiosks_example_papers(2))

end
