(* ===== verification/Onboarding.thy ===== *)
theory Onboarding
  imports KioskModels
begin

text \<open>
  The stage machine of a kiosk: \<^verbatim>\<open>app/modules/kiosks/enums.py\<close> (the table of moves),
  \<^verbatim>\<open>onboarding.py\<close> (the gate on LIVE), \<^verbatim>\<open>registry.py\<close> (what a kiosk is) and \<^verbatim>\<open>commands.py\<close> (what the
  machine is asked to do, and closing a shop whose printer is stuck). \<^verbatim>\<open>BillingCheck\<close> is the
  argument \<open>owner_can_collect\<close>. An operation takes the kiosk row it is given and returns it as
  written; \<open>save_kiosk\<close> is its UPDATE.
\<close>

section \<open>Stages\<close>

fun stage_value :: "onboarding_stage \<Rightarrow> string" where
  "stage_value REGISTERED = ''registered''"
| "stage_value APPROVED = ''approved''"
| "stage_value CONFIGURED = ''configured''"
| "stage_value LIVE = ''live''"
| "stage_value MAINTENANCE = ''maintenance''"
| "stage_value SUSPENDED_BILLING = ''suspended_billing''"
| "stage_value RETIRED = ''retired''"

fun TRANSITIONS :: "onboarding_stage \<Rightarrow> onboarding_stage set" where
  "TRANSITIONS REGISTERED = {APPROVED, RETIRED}"
| "TRANSITIONS APPROVED = {CONFIGURED, REGISTERED, RETIRED}"
| "TRANSITIONS CONFIGURED = {LIVE, APPROVED, RETIRED}"
| "TRANSITIONS LIVE = {MAINTENANCE, SUSPENDED_BILLING, RETIRED}"
| "TRANSITIONS MAINTENANCE = {LIVE, SUSPENDED_BILLING, RETIRED}"
| "TRANSITIONS SUSPENDED_BILLING = {LIVE, MAINTENANCE, RETIRED}"
| "TRANSITIONS RETIRED = {}"

definition can_transition :: "onboarding_stage \<Rightarrow> onboarding_stage \<Rightarrow> bool" where
  "can_transition current target \<longleftrightarrow> target \<in> TRANSITIONS current"

fun kiosk_type_value :: "kiosk_type \<Rightarrow> string" where
  "kiosk_type_value PLATFORM = ''platform''"
| "kiosk_type_value SOLD = ''sold''"
| "kiosk_type_value SAAS = ''saas''"

definition OWNER_GATEWAY_TYPES :: "kiosk_type set" where
  "OWNER_GATEWAY_TYPES = {SOLD, SAAS}"

section \<open>Onboarding\<close>

definition NOT_CONNECTED :: string where
  "NOT_CONNECTED =
     ''This kiosk's owner has not finished connecting their Razorpay account, so '' @
     ''their takings would arrive in Printvendo's account instead of theirs. '' @
     ''Finish the Razorpay step, then set it live.''"

definition SUSPENDED_NOTE :: string where
  "SUSPENDED_NOTE =
     ''Suspended automatically: this kiosk's owner cannot currently '' @
     ''collect payments. It will return to service once their '' @
     ''subscription and Razorpay keys are active again.''"

type_synonym 's billing_check = "'s \<Rightarrow> kiosk \<Rightarrow> bool"

definition platform_only_billing :: "'s billing_check" where
  "platform_only_billing db k = False"

definition requires_owner_billing :: "kiosk \<Rightarrow> bool" where
  "requires_owner_billing k \<longleftrightarrow> ki_type k \<in> OWNER_GATEWAY_TYPES"

definition cannot_become :: "onboarding_stage \<Rightarrow> onboarding_stage \<Rightarrow> string" where
  "cannot_become current target =
     ''A kiosk that is '' @ stage_value current @ '' cannot become '' @ stage_value target @ ''.''"

definition move_to ::
  "'a kiosks_db_scheme billing_check \<Rightarrow> kiosk \<Rightarrow> onboarding_stage \<Rightarrow> string option \<Rightarrow>
   'a kiosks_db_scheme \<Rightarrow> (kiosk \<times> 'a kiosks_db_scheme) result" where
  "move_to owner_can_collect k target note db =
     (if ki_stage k = target then Inr (k, db)
      else if \<not> can_transition (ki_stage k) target
      then Inl (Conflict (cannot_become (ki_stage k) target))
      else if target = LIVE \<and> requires_owner_billing k \<and> \<not> owner_can_collect db k
      then Inl (BadRequest NOT_CONNECTED)
      else let moved = k\<lparr>ki_stage := target,
                         ki_note := (case note of None \<Rightarrow> ki_note k | Some n \<Rightarrow> Some n)\<rparr>
           in Inr (moved, save_kiosk moved db))"

definition reconcile_billing_state ::
  "'a kiosks_db_scheme billing_check \<Rightarrow> kiosk \<Rightarrow> 'a kiosks_db_scheme \<Rightarrow> kiosk \<times> 'a kiosks_db_scheme" where
  "reconcile_billing_state owner_can_collect k db =
     (if \<not> requires_owner_billing k then (k, db)
      else if \<not> owner_can_collect db k \<and> ki_stage k \<in> {LIVE, MAINTENANCE} then
        let s = k\<lparr>ki_stage := SUSPENDED_BILLING, ki_note := Some SUSPENDED_NOTE\<rparr>
        in (s, save_kiosk s db)
      else if owner_can_collect db k \<and> ki_stage k = SUSPENDED_BILLING then
        let s = k\<lparr>ki_stage := LIVE, ki_note := None\<rparr> in (s, save_kiosk s db)
      else (k, db))"

definition is_selling :: "kiosk \<Rightarrow> bool" where
  "is_selling k \<longleftrightarrow> ki_is_active k \<and> ki_stage k = LIVE"

definition platform_kiosks_skip_configuration :: "kiosk \<Rightarrow> bool" where
  "platform_kiosks_skip_configuration k \<longleftrightarrow> ki_type k = PLATFORM"

section \<open>The registry\<close>

definition NEEDS_A_NAME :: string where
  "NEEDS_A_NAME = ''A kiosk needs a name.''"

definition name_taken :: "string \<Rightarrow> string" where
  "name_taken name = ''A kiosk called '' @ py_repr name @ '' already exists.''"

text \<open>
  The branch of \<^verbatim>\<open>create_kiosk\<close> for a \<^verbatim>\<open>legacy_id\<close>, which only the migration passes, is left
  out with that column.
\<close>

definition create_kiosk ::
  "string \<Rightarrow> kiosk_type \<Rightarrow> string option \<Rightarrow> rat option \<Rightarrow> rat option \<Rightarrow> int option \<Rightarrow>
   'a kiosks_db_scheme \<Rightarrow> (kiosk \<times> 'a kiosks_db_scheme) result" where
  "create_kiosk raw_name kind location lat long paper_capacity db =
     (let name = strip raw_name in
      if name = [] then Inl (BadRequest NEEDS_A_NAME)
      else if \<exists>k \<in> set (kiosks db). ki_name k = name then Inl (Conflict (name_taken name))
      else if (case paper_capacity of None \<Rightarrow> False | Some c \<Rightarrow> c < 1)
      then Inl (BadRequest ''A paper tray holds at least one sheet.'')
      else
        let (pid, db1) = mint KIOSK db;
            k = \<lparr>ki_id = fresh_key ki_id (kiosks db), ki_public_id = pid, ki_name = name,
                 ki_type = kind, ki_stage = REGISTERED, ki_note = None, ki_is_active = True,
                 ki_accepts_wallet = False, ki_offers_colour = True, ki_location = location,
                 ki_latitude = lat, ki_longitude = long, ki_price_bw_single = None,
                 ki_price_bw_double = None, ki_price_color_single = None,
                 ki_price_color_double = None, ki_created_at = tx_now db\<rparr>;
            paper = \<lparr>kp_kiosk_id = ki_id k,
                     kp_capacity = (case paper_capacity of None \<Rightarrow> DEFAULT_PAPER_CAPACITY | Some c \<Rightarrow> c),
                     kp_used = 0, kp_warning_count = 0, kp_last_warning_at = None,
                     kp_last_reminder_at = None\<rparr>
        in Inr (k, db1\<lparr>kiosks := kiosks db @ [k], kiosk_papers := kiosk_papers db @ [paper]\<rparr>))"

definition rename_kiosk ::
  "kiosk \<Rightarrow> string \<Rightarrow> 'a kiosks_db_scheme \<Rightarrow> (kiosk \<times> 'a kiosks_db_scheme) result" where
  "rename_kiosk k raw_name db =
     (let name = strip raw_name in
      if name = [] then Inl (BadRequest NEEDS_A_NAME)
      else if \<exists>j \<in> set (kiosks db). ki_name j = name \<and> ki_id j \<noteq> ki_id k
      then Inl (Conflict (name_taken name))
      else let k' = k\<lparr>ki_name := name\<rparr> in Inr (k', save_kiosk k' db))"

definition set_location ::
  "kiosk \<Rightarrow> string option \<Rightarrow> rat option \<Rightarrow> rat option \<Rightarrow> 'a kiosks_db_scheme \<Rightarrow>
   (kiosk \<times> 'a kiosks_db_scheme) result" where
  "set_location k desc lat long db =
     (if (lat = None) \<noteq> (long = None)
      then Inl (BadRequest ''Give both latitude and longitude, or neither.'')
      else if (case lat of None \<Rightarrow> False | Some v \<Rightarrow> \<not> (-90 \<le> v \<and> v \<le> 90))
      then Inl (BadRequest ''Latitude must be between -90 and 90.'')
      else if (case long of None \<Rightarrow> False | Some v \<Rightarrow> \<not> (-180 \<le> v \<and> v \<le> 180))
      then Inl (BadRequest ''Longitude must be between -180 and 180.'')
      else
        let k1 = (case desc of None \<Rightarrow> k | Some d \<Rightarrow> k\<lparr>ki_location := Some d\<rparr>);
            k2 = (if lat = None then k1 else k1\<lparr>ki_latitude := lat, ki_longitude := long\<rparr>)
        in Inr (k2, save_kiosk k2 db))"

definition change_type :: "kiosk \<Rightarrow> kiosk_type \<Rightarrow> 'a kiosks_db_scheme \<Rightarrow> kiosk \<times> 'a kiosks_db_scheme" where
  "change_type k kind db =
     (if ki_type k = kind then (k, db)
      else
        let becoming_owner_gateway = kind \<in> OWNER_GATEWAY_TYPES;
            was_selling = ki_stage k \<in> {LIVE, MAINTENANCE, CONFIGURED};
            k1 = k\<lparr>ki_type := kind\<rparr>;
            k2 = (if becoming_owner_gateway \<and> was_selling
                  then k1\<lparr>ki_stage := APPROVED,
                          ki_note := Some (''Type changed to '' @ kiosk_type_value kind @
                            ''; the owner's payment details must be verified '' @
                            ''again before this kiosk can go live.'')\<rparr>
                  else k1)
        in (k2, save_kiosk k2 db))"

definition set_kiosk_active :: "kiosk \<Rightarrow> bool \<Rightarrow> 'a kiosks_db_scheme \<Rightarrow> kiosk \<times> 'a kiosks_db_scheme" where
  "set_kiosk_active k is_active db =
     (let k' = k\<lparr>ki_is_active := is_active\<rparr> in (k', save_kiosk k' db))"

definition WALLET_IS_PLATFORM :: string where
  "WALLET_IS_PLATFORM =
     ''Wallet balance is held by Printvendo, so it can only be spent at '' @
     ''Printvendo-run kiosks. This kiosk takes payment into its owner's '' @
     ''own account.''"

definition set_accepts_wallet ::
  "kiosk \<Rightarrow> bool \<Rightarrow> 'a kiosks_db_scheme \<Rightarrow> (kiosk \<times> 'a kiosks_db_scheme) result" where
  "set_accepts_wallet k accepts_wallet db =
     (if accepts_wallet \<and> ki_type k \<in> OWNER_GATEWAY_TYPES then Inl (BadRequest WALLET_IS_PLATFORM)
      else let k' = k\<lparr>ki_accepts_wallet := accepts_wallet\<rparr> in Inr (k', save_kiosk k' db))"

definition set_offers_colour :: "kiosk \<Rightarrow> bool \<Rightarrow> 'a kiosks_db_scheme \<Rightarrow> kiosk \<times> 'a kiosks_db_scheme" where
  "set_offers_colour k offers_colour db =
     (let k' = k\<lparr>ki_offers_colour := offers_colour\<rparr> in (k', save_kiosk k' db))"

definition negative_price :: "string \<Rightarrow> string" where
  "negative_price label = ''The '' @ label @ '' price cannot be negative.''"

definition set_prices ::
  "kiosk \<Rightarrow> rat option \<Rightarrow> rat option \<Rightarrow> rat option \<Rightarrow> rat option \<Rightarrow> 'a kiosks_db_scheme \<Rightarrow>
   (kiosk \<times> 'a kiosks_db_scheme) result" where
  "set_prices k bw_single bw_double color_single color_double db =
     bind_res (map_res (\<lambda>(label, v). require (case v of None \<Rightarrow> True | Some p \<Rightarrow> 0 \<le> p)
                          (BadRequest (negative_price label)))
        [(''black and white, single-sided'', bw_single),
         (''black and white, double-sided'', bw_double),
         (''colour, single-sided'', color_single),
         (''colour, double-sided'', color_double)]) (\<lambda>_.
     let keep = (\<lambda>new old. case new of None \<Rightarrow> old | Some p \<Rightarrow> Some p);
         k' = k\<lparr>ki_price_bw_single := keep bw_single (ki_price_bw_single k),
                ki_price_bw_double := keep bw_double (ki_price_bw_double k),
                ki_price_color_single := keep color_single (ki_price_color_single k),
                ki_price_color_double := keep color_double (ki_price_color_double k)\<rparr>
     in Inr (k', save_kiosk k' db))"

section \<open>Commands to the machine\<close>

definition COMMAND_LIFETIME :: datetime where
  "COMMAND_LIFETIME = minutes 10"

definition OPEN_STATES :: "device_command_state set" where
  "OPEN_STATES = {CMD_QUEUED, CMD_SENT}"

definition NO_DEVICE :: string where
  "NO_DEVICE =
     ''No machine is enrolled at this kiosk, so there is nothing to restart. '' @
     ''Enrol one first.''"

definition NO_SUCH_COMMAND :: string where
  "NO_SUCH_COMMAND = ''That command does not exist.''"

definition ALREADY_FINISHED :: string where
  "ALREADY_FINISHED = ''That command has already finished.''"

definition STUCK_NOTE :: string where
  "STUCK_NOTE =
     ''Closed automatically: the machine at this kiosk could not finish a print '' @
     ''job. It will reopen on its own once printing works again.''"

text \<open>\<^verbatim>\<open>order_by(id.desc()).first()\<close> over a table kept in id order is the last row that matches.\<close>

definition waiting_command ::
  "nat \<Rightarrow> device_command_kind \<Rightarrow> datetime \<Rightarrow> device_command \<Rightarrow> bool" where
  "waiting_command kiosk_id kind now c \<longleftrightarrow>
     dc_kiosk_id c = kiosk_id \<and> dc_kind c = kind \<and> dc_state c \<in> OPEN_STATES \<and> now < dc_expires_at c"

definition request_command ::
  "kiosk \<Rightarrow> device_command_kind \<Rightarrow> nat option \<Rightarrow> datetime \<Rightarrow> 'a kiosks_db_scheme \<Rightarrow>
   (device_command \<times> 'a kiosks_db_scheme) result" where
  "request_command k kind requested_by now db =
     (if \<not> (\<exists>d \<in> set (kiosk_devices db). kd_kiosk_id d = ki_id k) then Inl (BadRequest NO_DEVICE)
      else case first_where (waiting_command (ki_id k) kind now)
                  (sort_key (\<lambda>c. - int (dc_id c)) (device_commands db)) of
        Some waiting \<Rightarrow> Inr (waiting, db)
      | None \<Rightarrow>
          let (pid, db1) = mint DEVICE_COMMAND db;
              c = \<lparr>dc_id = fresh_key dc_id (device_commands db), dc_public_id = pid,
                   dc_kiosk_id = ki_id k, dc_requested_by_user_id = requested_by, dc_kind = kind,
                   dc_state = CMD_QUEUED, dc_error_message = None,
                   dc_expires_at = now + COMMAND_LIFETIME, dc_sent_at = None,
                   dc_finished_at = None, dc_created_at = tx_now db\<rparr>
          in Inr (c, mark_for_wake (ki_id k) (db1\<lparr>device_commands := device_commands db @ [c]\<rparr>)))"

definition claimable_command :: "kiosk_device \<Rightarrow> device_command \<Rightarrow> bool" where
  "claimable_command d c \<longleftrightarrow> dc_kiosk_id c = kd_kiosk_id d \<and> dc_state c = CMD_QUEUED"

definition sent :: "datetime \<Rightarrow> device_command \<Rightarrow> device_command" where
  "sent now c = (if dc_expires_at c \<le> now then c\<lparr>dc_state := CMD_EXPIRED, dc_finished_at := Some now\<rparr>
                 else c\<lparr>dc_state := CMD_SENT, dc_sent_at := Some now\<rparr>)"

text \<open>The loop over the locked rows, as the one UPDATE of the table it amounts to.\<close>

definition claim_commands ::
  "kiosk_device \<Rightarrow> datetime \<Rightarrow> 'a kiosks_db_scheme \<Rightarrow> device_command list \<times> 'a kiosks_db_scheme" where
  "claim_commands d now db =
     (let rows = sort_key dc_id (filter (claimable_command d) (device_commands db))
      in (map (sent now) (filter (\<lambda>c. now < dc_expires_at c) rows),
          db\<lparr>device_commands :=
               map (\<lambda>c. if claimable_command d c then sent now c else c) (device_commands db)\<rparr>))"

definition report_command ::
  "kiosk_device \<Rightarrow> string \<Rightarrow> bool \<Rightarrow> string option \<Rightarrow> datetime \<Rightarrow> 'a kiosks_db_scheme \<Rightarrow>
   (device_command \<times> 'a kiosks_db_scheme) result" where
  "report_command d public_id succeeded error_message now db =
     (case first_where (\<lambda>c. dc_public_id c = public_id \<and> dc_kiosk_id c = kd_kiosk_id d)
             (device_commands db) of
        None \<Rightarrow> Inl (NotFound NO_SUCH_COMMAND)
      | Some c \<Rightarrow>
          if dc_state c \<notin> OPEN_STATES then Inl (BadRequest ALREADY_FINISHED)
          else let c' = c\<lparr>dc_state := (if succeeded then CMD_SUCCEEDED else CMD_FAILED),
                          dc_error_message := (if succeeded then None else error_message),
                          dc_finished_at := Some now\<rparr>
               in Inr (c', db\<lparr>device_commands := put_row dc_id c' (device_commands db)\<rparr>))"

definition recent_commands :: "kiosk \<Rightarrow> nat \<Rightarrow> 'a kiosks_db_scheme \<Rightarrow> device_command list" where
  "recent_commands k limit db =
     take limit (sort_key (\<lambda>c. - int (dc_id c))
       (filter (\<lambda>c. dc_kiosk_id c = ki_id k) (device_commands db)))"

section \<open>The printer being stuck\<close>

definition save_device :: "kiosk_device \<Rightarrow> 'a kiosks_db_scheme \<Rightarrow> 'a kiosks_db_scheme" where
  "save_device d db = db\<lparr>kiosk_devices := put_row kd_id d (kiosk_devices db)\<rparr>"

definition report_stuck ::
  "'a kiosks_db_scheme billing_check \<Rightarrow> kiosk_device \<Rightarrow> kiosk \<Rightarrow> datetime \<Rightarrow> 'a kiosks_db_scheme \<Rightarrow>
   (bool \<times> kiosk_device \<times> kiosk \<times> 'a kiosks_db_scheme) result" where
  "report_stuck owner_can_collect d k now db =
     (if kd_stuck_since d \<noteq> None then Inr (False, d, k, db)
      else if ki_stage k \<noteq> LIVE then Inr (False, d, k, db)
      else
        let d' = d\<lparr>kd_stuck_since := Some now\<rparr> in
        bind_res (move_to owner_can_collect k MAINTENANCE (Some STUCK_NOTE) (save_device d' db))
          (\<lambda>(k', db'). Inr (True, d', k', db')))"

definition report_recovered ::
  "'a kiosks_db_scheme billing_check \<Rightarrow> kiosk_device \<Rightarrow> kiosk \<Rightarrow> 'a kiosks_db_scheme \<Rightarrow>
   (bool \<times> kiosk_device \<times> kiosk \<times> 'a kiosks_db_scheme) result" where
  "report_recovered owner_can_collect d k db =
     (if kd_stuck_since d = None then Inr (False, d, k, db)
      else
        let d' = d\<lparr>kd_stuck_since := None\<rparr>; db1 = save_device d' db in
        if ki_stage k \<noteq> MAINTENANCE then Inr (False, d', k, db1)
        else
          bind_res (move_to owner_can_collect k LIVE None db1) (\<lambda>(k1, db2).
          let k2 = k1\<lparr>ki_note := None\<rparr> in Inr (True, d', k2, save_kiosk k2 db2)))"

section \<open>The stage machine\<close>

text \<open>
  One operation on a kiosk and its machine, in a session the rest of the program may change
  (\<open>Elsewhere\<close>: a subscription lapses, keys are set). \<open>oc\<close> is the billing check.
\<close>

type_synonym 'a shop = "kiosk \<times> kiosk_device \<times> 'a kiosks_db_scheme"

inductive shop_step :: "'a kiosks_db_scheme billing_check \<Rightarrow> 'a shop \<Rightarrow> 'a shop \<Rightarrow> bool"
  for oc where
  Moved: "move_to oc k target note db = Inr (k', db') \<Longrightarrow> shop_step oc (k, d, db) (k', d, db')"
| Reconciled: "reconcile_billing_state oc k db = (k', db') \<Longrightarrow> shop_step oc (k, d, db) (k', d, db')"
| Retyped: "change_type k kind db = (k', db') \<Longrightarrow> shop_step oc (k, d, db) (k', d, db')"
| Activated: "set_kiosk_active k b db = (k', db') \<Longrightarrow> shop_step oc (k, d, db) (k', d, db')"
| Stuck: "report_stuck oc d k now db = Inr (b, d', k', db') \<Longrightarrow> shop_step oc (k, d, db) (k', d', db')"
| Recovered: "report_recovered oc d k db = Inr (b, d', k', db') \<Longrightarrow>
    shop_step oc (k, d, db) (k', d', db')"
| Elsewhere: "shop_step oc (k, d, db) (k, d, db')"

inductive_cases shop_stepE: "shop_step oc (k, d, db) (k', d', db')"

lemma move_to_InrD:
  assumes "move_to oc k target note db = Inr (k', db')"
  shows "k' = k \<and> db' = db \<and> ki_stage k = target
    \<or> ki_stage k' = target \<and> ki_type k' = ki_type k \<and> ki_id k' = ki_id k
      \<and> can_transition (ki_stage k) target \<and> ki_is_active k' = ki_is_active k
      \<and> (target = LIVE \<longrightarrow> requires_owner_billing k \<longrightarrow> oc db k)
      \<and> db' = save_kiosk k' db"
  using assms by (auto simp: move_to_def Let_def split: if_splits)

text \<open>The life of a shop as the operators draw it, stage by stage.\<close>

definition stage_chart :: "(onboarding_stage \<times> onboarding_stage) list" where
  "stage_chart =
     [(REGISTERED, APPROVED), (APPROVED, REGISTERED), (APPROVED, CONFIGURED), (CONFIGURED, APPROVED),
      (CONFIGURED, LIVE), (LIVE, MAINTENANCE), (MAINTENANCE, LIVE), (LIVE, SUSPENDED_BILLING),
      (MAINTENANCE, SUSPENDED_BILLING), (SUSPENDED_BILLING, LIVE), (SUSPENDED_BILLING, MAINTENANCE),
      (REGISTERED, RETIRED), (APPROVED, RETIRED), (CONFIGURED, RETIRED), (LIVE, RETIRED), (MAINTENANCE, RETIRED),
      (SUSPENDED_BILLING, RETIRED)]"

lemma chart_is_the_table: "can_transition s t \<longleftrightarrow> (s, t) \<in> set stage_chart"
  by (cases s; cases t) (simp_all add: can_transition_def stage_chart_def)

text \<open>What any operation may do to the stage, proved operation by operation.\<close>

definition allowed_change ::
  "'a kiosks_db_scheme billing_check \<Rightarrow> kiosk \<Rightarrow> kiosk_device \<Rightarrow> 'a kiosks_db_scheme \<Rightarrow> kiosk \<Rightarrow> bool" where
  "allowed_change oc k d db k' \<longleftrightarrow>
     (ki_type k' = ki_type k \<longrightarrow> ki_stage k' = ki_stage k \<or> can_transition (ki_stage k) (ki_stage k'))
    \<and> (ki_type k' \<noteq> ki_type k \<longrightarrow> ki_stage k' = (if requires_owner_billing k' \<and> ki_stage k \<in> {LIVE, MAINTENANCE, CONFIGURED}
         then APPROVED else ki_stage k))
    \<and> (requires_owner_billing k' \<and> ki_stage k' = LIVE
        \<and> (ki_stage k \<noteq> LIVE \<or> \<not> requires_owner_billing k) \<longrightarrow>
        (\<exists>db0. (db0 = db \<or> db0 = save_device (d\<lparr>kd_stuck_since := None\<rparr>) db) \<and> oc db0 k))"

lemma allowed_move: "move_to oc k target note db = Inr (k', db') \<Longrightarrow> allowed_change oc k d db k'"
  by (auto dest!: move_to_InrD simp: allowed_change_def requires_owner_billing_def)

lemma allowed_reconcile:
  "reconcile_billing_state oc k db = (k', db') \<Longrightarrow> allowed_change oc k d db k'"
  by (auto simp: reconcile_billing_state_def Let_def allowed_change_def can_transition_def
      split: if_splits)

lemma allowed_retype: "change_type k kind db = (k', db') \<Longrightarrow> allowed_change oc k d db k'"
  by (auto simp: change_type_def Let_def requires_owner_billing_def allowed_change_def split: if_splits)

lemma allowed_activate: "set_kiosk_active k b db = (k', db') \<Longrightarrow> allowed_change oc k d db k'"
  by (auto simp: set_kiosk_active_def requires_owner_billing_def allowed_change_def Let_def)

lemma allowed_stuck:
  "report_stuck oc d k now db = Inr (b, d', k', db') \<Longrightarrow> allowed_change oc k d db k'"
  by (auto simp: report_stuck_def bind_res_Inr_iff requires_owner_billing_def Let_def
      allowed_change_def split: if_splits dest!: move_to_InrD)

lemma allowed_recovered:
  "report_recovered oc d k db = Inr (b, d', k', db') \<Longrightarrow> allowed_change oc k d db k'"
  by (auto simp: report_recovered_def bind_res_Inr_iff requires_owner_billing_def Let_def
      allowed_change_def split: if_splits dest!: move_to_InrD)

lemmas allowed_intros = allowed_move allowed_reconcile allowed_retype allowed_activate
  allowed_stuck allowed_recovered

lemma allowed_refl: "allowed_change oc k d db k"
  by (auto simp: allowed_change_def)

lemma stage_step_cases: "shop_step oc (k, d, db) (k', d', db') \<Longrightarrow> allowed_change oc k d db k'"
  by (elim shop_stepE) (simp_all add: allowed_refl allowed_intros)

text \<open>
  C19. The chart is the only way to move and LIVE is earned: whatever operation runs on a shop that stays of
  its type, the stage is the one it had or the next on the chart. A shop whose type changes keeps its stage,
  except that one which was configured, live or in maintenance goes back to APPROVED when its takings become its
  owner's. And a shop, active or not, that collects into its owner's account comes to LIVE only when the
  billing check said, in that very operation, that its owner can collect.
\<close>

theorem live_is_earned:
  assumes "shop_step oc (k, d, db) (k', d', db')"
  shows "(ki_type k' = ki_type k \<longrightarrow> ki_stage k' = ki_stage k \<or> (ki_stage k, ki_stage k') \<in> set stage_chart)
    \<and> (ki_type k' \<noteq> ki_type k \<longrightarrow> ki_stage k' = (if ki_type k' \<in> {SOLD, SAAS} \<and> ki_stage k \<in> {LIVE, MAINTENANCE, CONFIGURED}
         then APPROVED else ki_stage k))
    \<and> (ki_type k' \<in> {SOLD, SAAS} \<and> ki_stage k' = LIVE \<and> (ki_stage k \<noteq> LIVE \<or> ki_type k \<notin> {SOLD, SAAS}) \<longrightarrow>
        (\<exists>db0. (db0 = db \<or> db0 = save_device (d\<lparr>kd_stuck_since := None\<rparr>) db) \<and> oc db0 k))"
  using stage_step_cases[OF assms] unfolding allowed_change_def chart_is_the_table requires_owner_billing_def OWNER_GATEWAY_TYPES_def
  by blast

definition shop_example :: kiosk where
  "shop_example = \<lparr>ki_id = 1, ki_public_id = ''ksk_1'', ki_name = ''Library'', ki_type = SOLD,
     ki_stage = CONFIGURED, ki_note = None, ki_is_active = True, ki_accepts_wallet = False,
     ki_offers_colour = True, ki_location = None, ki_latitude = None, ki_longitude = None,
     ki_price_bw_single = None, ki_price_bw_double = None, ki_price_color_single = None,
     ki_price_color_double = None, ki_created_at = 0\<rparr>"

definition device_example :: kiosk_device where
  "device_example = \<lparr>kd_id = 1, kd_public_id = ''dev_1'', kd_kiosk_id = 1, kd_device_key = ''d'',
     kd_token_hash = ''h'', kd_status = DEV_ONLINE, kd_capabilities = None, kd_agent_version = None,
     kd_ssh_host = None, kd_update_status = None, kd_last_heartbeat_at = None,
     kd_stuck_since = None, kd_created_at = 0\<rparr>"

theorem live_is_earned_witness:
  "\<exists>k'. shop_step (\<lambda>(db :: kiosks_db) k. ki_id k = 1) (shop_example, device_example, kiosks_blank)
          (k', device_example, save_kiosk k' kiosks_blank)
     \<and> is_selling k' \<and> (ki_stage shop_example, ki_stage k') \<in> set stage_chart"
proof -
  let ?oc = "\<lambda>(db :: kiosks_db) k. ki_id k = 1"
  let ?k' = "shop_example\<lparr>ki_stage := LIVE\<rparr>"
  have "move_to ?oc shop_example LIVE None kiosks_blank = Inr (?k', save_kiosk ?k' kiosks_blank)"
    by (simp add: move_to_def can_transition_def shop_example_def Let_def)
  then have step: "shop_step ?oc (shop_example, device_example, kiosks_blank) (?k', device_example, save_kiosk ?k' kiosks_blank)"
    by (rule Moved)
  have "is_selling ?k'" by (simp add: is_selling_def shop_example_def)
  moreover have "(ki_stage shop_example, ki_stage ?k') \<in> set stage_chart"
    using live_is_earned[OF step] by (simp add: shop_example_def)
  ultimately show ?thesis using step by blast
qed

text \<open>
  (Property). RETIRED is final: no run of operations, by anybody, brings a retired kiosk back or lets it
  sell.
\<close>

theorem retired_is_final:
  assumes "(shop_step oc)\<^sup>*\<^sup>* (k, d, db) (k', d', db')" and "ki_stage k = RETIRED"
  shows "ki_stage k' = RETIRED \<and> \<not> is_selling k'"
proof -
  have "\<lbrakk>(shop_step oc)\<^sup>*\<^sup>* s s'; ki_stage (fst s) = RETIRED\<rbrakk> \<Longrightarrow> ki_stage (fst s') = RETIRED" for s s'
  proof (induction rule: rtranclp_induct)
    case (step y z)
    obtain ky dy dby kz dz dbz where "y = (ky, dy, dby)" "z = (kz, dz, dbz)" by (metis prod_cases3)
    with step show ?case using stage_step_cases[of oc ky dy dby kz dz dbz]
      by (auto simp: allowed_change_def can_transition_def split: if_splits)
  qed simp
  from this[OF assms(1)] assms(2) show ?thesis by (simp add: is_selling_def)
qed

theorem retired_is_final_witness:
  "ki_stage (shop_example\<lparr>ki_stage := RETIRED\<rparr>) = RETIRED \<and> \<not> is_selling (shop_example\<lparr>ki_stage := RETIRED\<rparr>)"
  using retired_is_final[of "\<lambda>(db :: kiosks_db) k. True" "shop_example\<lparr>ki_stage := RETIRED\<rparr>"
      device_example undefined "shop_example\<lparr>ki_stage := RETIRED\<rparr>" device_example undefined]
  by simp

section \<open>Commands\<close>

lemma claimable_sent: "claimable_command d c \<Longrightarrow> \<not> claimable_command d (sent now c)"
  by (simp add: claimable_command_def sent_def)

text \<open>
  (Property). A command is handed to the machine at most once and never stale: what a claim returns was
  queued for that device and has not expired, it is marked sent (or expired) in the same
  transaction, and a second claim returns nothing.
\<close>

theorem commands_claimed_once:
  assumes "claim_commands d now db = (claimed, db')"
  shows "(\<forall>c \<in> set claimed. dc_kiosk_id c = kd_kiosk_id d \<and> dc_state c = CMD_SENT \<and> now < dc_expires_at c
            \<and> c \<in> set (device_commands db'))
    \<and> fst (claim_commands d later db') = []
    \<and> length (device_commands db') = length (device_commands db)"
proof -
  let ?f = "\<lambda>c. if claimable_command d c then sent now c else c"
  have rows: "device_commands db' = map ?f (device_commands db)"
    and cl: "claimed = map (sent now) (filter (\<lambda>c. now < dc_expires_at c)
        (sort_key dc_id (filter (claimable_command d) (device_commands db))))"
    using assms by (auto simp: claim_commands_def Let_def)
  have none: "filter (claimable_command d) (device_commands db') = []"
    unfolding rows by (auto simp: filter_empty_conv claimable_sent)
  show ?thesis
  proof (intro conjI)
    show "\<forall>c \<in> set claimed. dc_kiosk_id c = kd_kiosk_id d \<and> dc_state c = CMD_SENT \<and> now < dc_expires_at c
            \<and> c \<in> set (device_commands db')"
    proof
      fix c assume "c \<in> set claimed"
      then obtain c0 where c0: "c0 \<in> set (device_commands db)" "claimable_command d c0"
        "now < dc_expires_at c0" "c = sent now c0"
        by (auto simp: cl)
      then have "c \<in> set (device_commands db')" unfolding rows by force
      with c0 show "dc_kiosk_id c = kd_kiosk_id d \<and> dc_state c = CMD_SENT \<and> now < dc_expires_at c
            \<and> c \<in> set (device_commands db')"
        by (simp add: sent_def claimable_command_def)
    qed
    show "fst (claim_commands d later db') = []" by (simp add: claim_commands_def none)
    show "length (device_commands db') = length (device_commands db)" by (simp add: rows)
  qed
qed

definition command_example :: device_command where
  "command_example = \<lparr>dc_id = 1, dc_public_id = ''cmd_1'', dc_kiosk_id = 1,
     dc_requested_by_user_id = None, dc_kind = RESTART_AGENT, dc_state = CMD_QUEUED,
     dc_error_message = None, dc_expires_at = 100, dc_sent_at = None, dc_finished_at = None,
     dc_created_at = 0\<rparr>"

theorem commands_claimed_once_witness:
  "\<forall>db :: kiosks_db. fst (claim_commands device_example 20
      (snd (claim_commands device_example 10 (db\<lparr>device_commands := [command_example]\<rparr>)))) = []"
  using commands_claimed_once[OF prod.collapse[symmetric]] by blast

text \<open>
  Asking twice does not queue twice: the second request is answered with the first command and
  changes nothing.
\<close>

lemma first_where_sort_key:
  assumes "first_where p (sort_key f xs) = None"
  shows "\<forall>x \<in> set xs. \<not> p x"
  using assms by (auto simp: first_where_None_iff)

lemma request_command_waits:
  assumes "request_command k kind by now db = Inr (c, db')"
  shows "waiting_command (ki_id k) kind now c \<and> c \<in> set (device_commands db')
    \<and> (\<exists>dev \<in> set (kiosk_devices db'). kd_kiosk_id dev = ki_id k)"
proof (cases "first_where (waiting_command (ki_id k) kind now)
    (sort_key (\<lambda>c. - int (dc_id c)) (device_commands db))")
  case None
  with assms show ?thesis
    by (auto simp: request_command_def Let_def mint_def mark_for_wake_def waiting_command_def
        OPEN_STATES_def COMMAND_LIFETIME_def minutes_def seconds_def split: if_splits)
next
  case (Some w)
  then have "w \<in> set (device_commands db)" "waiting_command (ki_id k) kind now w"
    by (auto dest: first_where_SomeD)
  with Some assms show ?thesis by (auto simp: request_command_def split: if_splits)
qed

text \<open>
  (Property). Asking the machine twice does not queue twice: once a request has been accepted, asking
  again within the command's life is answered with a waiting command of that kind and changes
  nothing.
\<close>

theorem request_command_idempotent:
  assumes "request_command k kind by now db = Inr (c, db')"
    and "later < dc_expires_at c"
  shows "\<exists>c2. request_command k kind by2 later db' = Inr (c2, db') \<and> dc_kind c2 = kind
    \<and> dc_kiosk_id c2 = ki_id k \<and> dc_state c2 \<in> OPEN_STATES"
proof -
  note w = request_command_waits[OF assms(1)]
  let ?q = "first_where (waiting_command (ki_id k) kind later)
    (sort_key (\<lambda>c. - int (dc_id c)) (device_commands db'))"
  have "waiting_command (ki_id k) kind later c" using w assms(2) by (simp add: waiting_command_def)
  then have "?q \<noteq> None" using w first_where_sort_key by fastforce
  then obtain c2 where q: "?q = Some c2" by blast
  then have "waiting_command (ki_id k) kind later c2" by (blast dest: first_where_SomeD)
  with w q show ?thesis by (auto simp: request_command_def waiting_command_def)
qed

theorem request_command_idempotent_witness:
  "\<exists>db c db'. request_command shop_example RESTART_AGENT None 5 (db :: kiosks_db) = Inr (c, db')
     \<and> (\<exists>c2. request_command shop_example RESTART_AGENT None 6 db' = Inr (c2, db'))"
proof -
  let ?db = "undefined\<lparr>kiosk_devices := [device_example], device_commands := [command_example]\<rparr> :: kiosks_db"
  have r: "request_command shop_example RESTART_AGENT None 5 ?db = Inr (command_example, ?db)"
    by (simp add: request_command_def shop_example_def device_example_def command_example_def
        waiting_command_def OPEN_STATES_def)
  moreover have "\<exists>c2. request_command shop_example RESTART_AGENT None 6 ?db = Inr (c2, ?db)"
    using request_command_idempotent[OF r, of 6 None] by (auto simp: command_example_def)
  ultimately show ?thesis by blast
qed

section \<open>Closing and reopening a stuck shop\<close>

text \<open>
  What \<^verbatim>\<open>report_stuck\<close> and \<^verbatim>\<open>report_recovered\<close> promise of each other: a shop the machine closed is
  the shop it reopens, and a shop somebody else closed stays closed.
\<close>

lemma stuck_then_recovered:
  assumes "kd_stuck_since d = None" and "report_stuck oc d k now db = Inr (b, d1, k1, db1)"
    and "report_recovered oc d1 k1 db1' = Inr (b2, d2, k2, db2)"
  shows "ki_stage k2 = ki_stage k \<and> kd_stuck_since d2 = None \<and> (b2 \<longleftrightarrow> ki_stage k = LIVE)"
  using assms
  by (auto simp: report_stuck_def report_recovered_def bind_res_Inr_iff Let_def
      split: if_splits dest!: move_to_InrD)

text \<open>
  (Property). The field \<^verbatim>\<open>stuck_since\<close> does not mean what the module says it means once a person reopens
  the shop: nothing but a recovery clears it, so a shop the machine closed, a person reopened
  and a person then closed again for maintenance is handed back to students by the next
  recovery.
\<close>

theorem recovery_reopens_a_closed_shop:
  assumes "ki_stage k = LIVE" and "kd_stuck_since d = None" and "\<not> requires_owner_billing k"
  shows "\<exists>d1 k1 db1 k2 db2 k3 db3 k4 db4.
      report_stuck oc d k now db = Inr (True, d1, k1, db1)
    \<and> move_to oc k1 LIVE None db1 = Inr (k2, db2)
    \<and> move_to oc k2 MAINTENANCE (Some note) db2 = Inr (k3, db3)
    \<and> report_recovered oc d1 k3 db3 = Inr (True, d, k4, db4)
    \<and> ki_stage k3 = MAINTENANCE \<and> ki_stage k4 = LIVE"
  using assms
  by (simp add: report_stuck_def move_to_def can_transition_def report_recovered_def Let_def
      requires_owner_billing_def)

theorem recovery_reopens_a_closed_shop_witness:
  "\<exists>d1 k1 db1. report_stuck (\<lambda>db k. True) device_example
     (shop_example\<lparr>ki_stage := LIVE, ki_type := PLATFORM\<rparr>) 7 (db :: kiosks_db) = Inr (True, d1, k1, db1)"
  using recovery_reopens_a_closed_shop[of "shop_example\<lparr>ki_stage := LIVE, ki_type := PLATFORM\<rparr>"
      device_example "\<lambda>db k. True" 7 db "''cartridge''"]
  by (auto simp: shop_example_def device_example_def requires_owner_billing_def OWNER_GATEWAY_TYPES_def)

text \<open>
  (Property). A lapse and a renewal put a shop on sale that its owner had closed: the sweep suspends a
  kiosk in MAINTENANCE and, once the owner can collect again, returns it to LIVE rather than to
  where it was.
\<close>

theorem reconcile_reopens_maintenance:
  assumes "requires_owner_billing k" and "ki_stage k = MAINTENANCE" and "ki_is_active k"
    and "\<not> oc db k" and "\<And>k2. ki_id k2 = ki_id k \<Longrightarrow> oc later k2"
  shows "\<exists>k1 db1 k2 db2. reconcile_billing_state oc k db = (k1, db1)
    \<and> ki_stage k1 = SUSPENDED_BILLING
    \<and> reconcile_billing_state oc k1 later = (k2, db2) \<and> is_selling k2"
  using assms
  by (simp add: reconcile_billing_state_def Let_def is_selling_def requires_owner_billing_def)

theorem reconcile_reopens_maintenance_witness:
  "\<exists>k1 db1 k2 db2.
     reconcile_billing_state (\<lambda>db k. tx_now db = 2) (shop_example\<lparr>ki_stage := MAINTENANCE\<rparr>)
       (undefined\<lparr>tx_now := 1\<rparr> :: kiosks_db) = (k1, db1)
   \<and> reconcile_billing_state (\<lambda>db k. tx_now db = 2) k1 (undefined\<lparr>tx_now := 2\<rparr> :: kiosks_db) = (k2, db2)
   \<and> is_selling k2"
proof -
  have "\<exists>k1 db1 k2 db2.
     reconcile_billing_state (\<lambda>db k. tx_now db = 2) (shop_example\<lparr>ki_stage := MAINTENANCE\<rparr>)
       (undefined\<lparr>tx_now := 1\<rparr> :: kiosks_db) = (k1, db1)
   \<and> ki_stage k1 = SUSPENDED_BILLING
   \<and> reconcile_billing_state (\<lambda>db k. tx_now db = 2) k1 (undefined\<lparr>tx_now := 2\<rparr> :: kiosks_db) = (k2, db2)
   \<and> is_selling k2"
    by (rule reconcile_reopens_maintenance[of "shop_example\<lparr>ki_stage := MAINTENANCE\<rparr>"
          "\<lambda>db k. tx_now db = 2" "undefined\<lparr>tx_now := 1\<rparr> :: kiosks_db"
          "undefined\<lparr>tx_now := 2\<rparr>"])
      (simp_all add: requires_owner_billing_def OWNER_GATEWAY_TYPES_def shop_example_def)
  then show ?thesis by blast
qed

end
