(* ===== verification/Pricing.thy ===== *)
theory Pricing
  imports KioskModels "HOL-Library.List_Lexorder" "HOL-Library.Char_ord"
begin

text \<open>
  \<^verbatim>\<open>app/modules/kiosks/pricing.py\<close>: what a page costs at a kiosk and the band its owner may set it
  within. \<^verbatim>\<open>BandSource\<close> is the argument \<open>band_for\<close>. Prices are keyed by the field names of the
  code; a keyword call is its list of arguments in order.
\<close>

section \<open>Operations\<close>

definition PRICE_FIELDS :: "string list" where
  "PRICE_FIELDS = [''bw_single'', ''bw_double'', ''color_single'', ''color_double'']"

definition DEFAULT_PRICES :: "string \<Rightarrow> rat" where
  "DEFAULT_PRICES field =
     (if field = ''bw_single'' then 2 else if field = ''bw_double'' then 3
      else if field = ''color_single'' then 10 else 20)"

definition HUMAN_NAMES :: "string \<Rightarrow> string" where
  "HUMAN_NAMES field =
     (if field = ''bw_single'' then ''black and white, single-sided''
      else if field = ''bw_double'' then ''black and white, double-sided''
      else if field = ''color_single'' then ''colour, single-sided''
      else ''colour, double-sided'')"

record price_band =
  floor_bw :: "rat option"
  ceiling_bw :: "rat option"
  floor_color :: "rat option"
  ceiling_color :: "rat option"

definition bounds_for :: "price_band \<Rightarrow> string \<Rightarrow> rat option \<times> rat option" where
  "bounds_for band field =
     (if take 5 field = ''color'' then (floor_color band, ceiling_color band)
      else (floor_bw band, ceiling_bw band))"

definition UNBOUNDED :: price_band where
  "UNBOUNDED = \<lparr>floor_bw = None, ceiling_bw = None, floor_color = None, ceiling_color = None\<rparr>"

type_synonym 's band_source = "'s \<Rightarrow> kiosk \<Rightarrow> price_band"

definition platform_band :: "'s band_source" where
  "platform_band db k = UNBOUNDED"

definition price_of :: "kiosk \<Rightarrow> string \<Rightarrow> rat option" where
  "price_of k field =
     (if field = ''bw_single'' then ki_price_bw_single k
      else if field = ''bw_double'' then ki_price_bw_double k
      else if field = ''color_single'' then ki_price_color_single k
      else ki_price_color_double k)"

definition put_price :: "string \<times> rat \<Rightarrow> kiosk \<Rightarrow> kiosk" where
  "put_price fv k =
     (let (field, v) = fv in
      if field = ''bw_single'' then k\<lparr>ki_price_bw_single := Some v\<rparr>
      else if field = ''bw_double'' then k\<lparr>ki_price_bw_double := Some v\<rparr>
      else if field = ''color_single'' then k\<lparr>ki_price_color_single := Some v\<rparr>
      else k\<lparr>ki_price_color_double := Some v\<rparr>)"

definition effective_prices :: "kiosk \<Rightarrow> string \<Rightarrow> rat" where
  "effective_prices k field =
     (case price_of k field of Some p \<Rightarrow> as_money p | None \<Rightarrow> DEFAULT_PRICES field)"

definition read_pricing ::
  "'s band_source \<Rightarrow> kiosk \<Rightarrow> 's \<Rightarrow> (string \<times> rat) list \<times> price_band" where
  "read_pricing band_for k db =
     (map (\<lambda>f. (f, effective_prices k f)) PRICE_FIELDS, band_for db k)"

definition check_within_band :: "string \<Rightarrow> rat \<Rightarrow> price_band \<Rightarrow> unit result" where
  "check_within_band field v band =
     (let (floor, ceiling) = bounds_for band field; name = HUMAN_NAMES field in
      if v < 0 then Inl (BadRequest (''The '' @ name @ '' price cannot be negative.''))
      else case floor of
        Some f \<Rightarrow>
          if v < f then Inl (BadRequest (''Your plan does not allow charging less than '' @ rupee @
                              show_money f @ '' for '' @ name @ ''.''))
          else (case ceiling of
            Some c \<Rightarrow> if c < v then Inl (BadRequest (''Your plan does not allow charging more than '' @
                        rupee @ show_money c @ '' for '' @ name @ ''.'')) else Inr ()
          | None \<Rightarrow> Inr ())
      | None \<Rightarrow> (case ceiling of
            Some c \<Rightarrow> if c < v then Inl (BadRequest (''Your plan does not allow charging more than '' @
                        rupee @ show_money c @ '' for '' @ name @ ''.'')) else Inr ()
          | None \<Rightarrow> Inr ()))"

definition combined_price :: "kiosk \<Rightarrow> (string \<times> rat) list \<Rightarrow> string \<Rightarrow> rat" where
  "combined_price k normalised field =
     (case map_of normalised field of Some v \<Rightarrow> v | None \<Rightarrow> effective_prices k field)"

definition check_duplex :: "(string \<Rightarrow> rat) \<Rightarrow> string \<times> string \<times> string \<Rightarrow> unit result" where
  "check_duplex combined pair =
     (let (single, double, label) = pair; one_side = combined single; both_sides = combined double in
      if both_sides < one_side then Inl (BadRequest (
        ''The '' @ label @ '' double-sided price ('' @ rupee @ show_money both_sides @
        '') cannot be lower '' @ ''than the single-sided price ('' @ rupee @ show_money one_side @
        '') '' @ em_dash @ '' a double-sided '' @ ''sheet uses the same paper and more toner.''))
      else if one_side * 2 < both_sides then Inl (BadRequest (
        ''At '' @ rupee @ show_money both_sides @ '', '' @ label @
        '' double-sided costs more than two '' @ ''single-sided sheets ('' @ rupee @
        show_money one_side @ '' each), so nobody would '' @ ''choose it. Price it at '' @ rupee @
        show_money (one_side * 2) @ '' or below.''))
      else Inr ())"

definition DUPLEX_PAIRS :: "(string \<times> string \<times> string) list" where
  "DUPLEX_PAIRS =
     [(''bw_single'', ''bw_double'', ''black and white''), (''color_single'', ''color_double'', ''colour'')]"

definition supplied :: "(string \<times> rat option) list \<Rightarrow> (string \<times> rat) list" where
  "supplied prices = List.map_filter (\<lambda>(f, v). map_option (Pair f) v) prices"

definition set_pricing ::
  "'a kiosks_db_scheme band_source \<Rightarrow> kiosk \<Rightarrow> (string \<times> rat option) list \<Rightarrow> 'a kiosks_db_scheme \<Rightarrow>
   (((string \<times> rat) list \<times> price_band) \<times> kiosk \<times> 'a kiosks_db_scheme) result" where
  "set_pricing band_for k prices db =
     (let unknown = filter (\<lambda>f. f \<notin> set PRICE_FIELDS) (map fst prices) in
      bind_res (require (unknown = [])
        (BadRequest (''Unknown price: '' @ join_with '', '' (sort unknown) @ ''.''))) (\<lambda>_.
      bind_res (require (supplied prices \<noteq> []) (BadRequest ''Give at least one price to set.'')) (\<lambda>_.
      let band = band_for db k in
      bind_res (map_res (\<lambda>(f, v). let money = as_money v in
                  bind_res (check_within_band f money band) (\<lambda>_. Inr (f, money))) (supplied prices))
        (\<lambda>normalised.
      bind_res (map_res (check_duplex (combined_price k normalised)) DUPLEX_PAIRS) (\<lambda>_.
      let k' = fold put_price normalised k; db' = save_kiosk k' db
      in Inr (read_pricing band_for k' db', k', db'))))))"

section \<open>Properties\<close>

definition in_band :: "price_band \<Rightarrow> string \<Rightarrow> rat \<Rightarrow> bool" where
  "in_band band field v \<longleftrightarrow>
     0 \<le> v \<and> (case fst (bounds_for band field) of None \<Rightarrow> True | Some f \<Rightarrow> f \<le> v)
           \<and> (case snd (bounds_for band field) of None \<Rightarrow> True | Some c \<Rightarrow> v \<le> c)"

lemma check_within_band_iff: "check_within_band f v band = Inr u \<longleftrightarrow> in_band band f v"
  by (cases "bounds_for band f")
    (auto simp: check_within_band_def in_band_def Let_def split: option.splits)

lemma check_duplex_iff:
  "check_duplex c (s, d, l) = Inr u \<longleftrightarrow> c s \<le> c d \<and> c d \<le> 2 * c s"
  by (auto simp: check_duplex_def Let_def)

lemma price_of_put:
  assumes "f \<in> set PRICE_FIELDS" and "g \<in> set PRICE_FIELDS"
  shows "price_of (put_price (g, v) k) f = (if f = g then Some v else price_of k f)"
  using assms by (auto simp: PRICE_FIELDS_def price_of_def put_price_def)

lemma price_of_fold:
  assumes "f \<in> set PRICE_FIELDS" and "distinct (map fst ps)" and "fst ` set ps \<subseteq> set PRICE_FIELDS"
  shows "price_of (fold put_price ps k) f =
    (case map_of ps f of Some v \<Rightarrow> Some v | None \<Rightarrow> price_of k f)"
  using assms
proof (induction ps arbitrary: k)
  case (Cons p ps)
  obtain g v where p: "p = (g, v)" by fastforce
  show ?case
  proof (cases "f = g")
    case True
    then have "map_of ps f = None"
      using Cons.prems(2) p by (auto simp: map_of_eq_None_iff)
    with True Cons p show ?thesis by (simp add: price_of_put)
  next
    case False
    with Cons p show ?thesis by (auto simp: price_of_put split: option.splits)
  qed
qed simp

lemma normalised_shape:
  assumes "map_res (\<lambda>(f, v). let money = as_money v in
      bind_res (check_within_band f money band) (\<lambda>_. Inr (f, money))) ps = Inr ns"
  shows "ns = map (\<lambda>(f, v). (f, as_money v)) ps \<and> (\<forall>(f, v) \<in> set ns. in_band band f v)"
  using assms
proof (induction ps arbitrary: ns)
  case (Cons p ps)
  then show ?case
    by (cases p) (auto simp: Let_def bind_res_Inr_iff check_within_band_iff)
qed simp

lemma supplied_subset: "fst ` set (supplied prices) \<subseteq> set (map fst prices)"
  by (induction prices) (auto simp: supplied_def map_filter_simps split: option.splits)

lemma supplied_distinct: "distinct (map fst prices) \<Longrightarrow> distinct (map fst (supplied prices))"
proof (induction prices)
  case (Cons p ps)
  then show ?case
    using supplied_subset[of ps]
    by (cases p) (auto simp: supplied_def map_filter_simps split: option.splits dest!: subsetD)
qed (simp add: supplied_def map_filter_simps)

lemma map_of_as_money:
  "map_of (map (\<lambda>(f, v). (f, as_money v)) ps) f = map_option as_money (map_of ps f)"
  by (induction ps) auto

lemma set_pricing_shape:
  assumes "set_pricing band_for k prices db = Inr (read, k', db')"
  shows "fst ` set prices \<subseteq> set PRICE_FIELDS
    \<and> k' = fold put_price (map (\<lambda>(f, v). (f, as_money v)) (supplied prices)) k
    \<and> db' = save_kiosk k' db \<and> read = read_pricing band_for k' db'
    \<and> (\<forall>(f, v) \<in> set (supplied prices). in_band (band_for db k) f (as_money v))
    \<and> (let c = combined_price k (map (\<lambda>(f, v). (f, as_money v)) (supplied prices)) in
        c ''bw_single'' \<le> c ''bw_double'' \<and> c ''bw_double'' \<le> 2 * c ''bw_single''
        \<and> c ''color_single'' \<le> c ''color_double'' \<and> c ''color_double'' \<le> 2 * c ''color_single'')"
proof -
  from assms obtain ns where
    ns: "map_res (\<lambda>(f, v). let money = as_money v in
      bind_res (check_within_band f money (band_for db k)) (\<lambda>_. Inr (f, money))) (supplied prices) = Inr ns"
    and rest: "filter (\<lambda>f. f \<notin> set PRICE_FIELDS) (map fst prices) = []"
      "map_res (check_duplex (combined_price k ns)) DUPLEX_PAIRS = Inr [(), ()]"
      "k' = fold put_price ns k" "db' = save_kiosk k' db" "read = read_pricing band_for k' db'"
    by (auto simp: set_pricing_def Let_def bind_res_Inr_iff require_Inr_iff DUPLEX_PAIRS_def)
  note shape = normalised_shape[OF ns]
  have "fst ` set prices \<subseteq> set PRICE_FIELDS" using rest(1) by (auto simp: filter_empty_conv)
  with shape rest show ?thesis
    by (auto simp: DUPLEX_PAIRS_def bind_res_Inr_iff check_duplex_iff Let_def)
qed

text \<open>
  (Property). Whatever prices an owner manages to set, each supplied price ends up rounded to paise and
  inside the plan's band, the others are untouched, and at both colours a double-sided sheet
  costs at least one and at most two single-sided ones, combined with the prices not supplied.
\<close>

theorem accepted_prices_are_sane:
  assumes "set_pricing band_for k prices db = Inr (read, k', db')"
    and "distinct (map fst prices)" and "f \<in> set PRICE_FIELDS"
  shows "effective_prices k' f =
      (case map_of (supplied prices) f of Some v \<Rightarrow> as_money v | None \<Rightarrow> effective_prices k f)
    \<and> (map_of (supplied prices) f \<noteq> None \<longrightarrow> in_band (band_for db k) f (effective_prices k' f))
    \<and> (let e = effective_prices k' in
        e ''bw_single'' \<le> e ''bw_double'' \<and> e ''bw_double'' \<le> 2 * e ''bw_single''
        \<and> e ''color_single'' \<le> e ''color_double'' \<and> e ''color_double'' \<le> 2 * e ''color_single'')"
proof -
  note sh = set_pricing_shape[OF assms(1)]
  let ?ns = "map (\<lambda>(f, v). (f, as_money v)) (supplied prices)"
  have pairs: "let c = combined_price k ?ns in
        c ''bw_single'' \<le> c ''bw_double'' \<and> c ''bw_double'' \<le> 2 * c ''bw_single''
        \<and> c ''color_single'' \<le> c ''color_double'' \<and> c ''color_double'' \<le> 2 * c ''color_single''"
    using sh by blast
  have d: "distinct (map fst ?ns)"
    using supplied_distinct[OF assms(2)] by (simp add: case_prod_beta comp_def)
  have sub: "fst ` set ?ns \<subseteq> set PRICE_FIELDS"
    using sh supplied_subset[of prices] by force
  have eff: "effective_prices k' g = combined_price k ?ns g" if "g \<in> set PRICE_FIELDS" for g
    using price_of_fold[OF that d sub, of k] sh
    by (auto simp: effective_prices_def combined_price_def map_of_as_money split: option.splits)
  have "effective_prices k' f =
      (case map_of (supplied prices) f of Some v \<Rightarrow> as_money v | None \<Rightarrow> effective_prices k f)"
    using eff[OF assms(3)] by (auto simp: combined_price_def map_of_as_money split: option.splits)
  moreover have "in_band (band_for db k) f (as_money v)" if "map_of (supplied prices) f = Some v" for v
    using map_of_SomeD[OF that] sh by blast
  moreover have "let e = effective_prices k' in
        e ''bw_single'' \<le> e ''bw_double'' \<and> e ''bw_double'' \<le> 2 * e ''bw_single''
        \<and> e ''color_single'' \<le> e ''color_double'' \<and> e ''color_double'' \<le> 2 * e ''color_single''"
    using pairs by (simp add: eff PRICE_FIELDS_def Let_def)
  ultimately show ?thesis by auto
qed

definition priced_kiosk :: kiosk where
  "priced_kiosk = \<lparr>ki_id = 1, ki_public_id = ''ksk_1'', ki_name = ''Library'', ki_type = SOLD,
     ki_stage = LIVE, ki_note = None, ki_is_active = True, ki_accepts_wallet = False,
     ki_offers_colour = True, ki_location = None, ki_latitude = None, ki_longitude = None,
     ki_price_bw_single = None, ki_price_bw_double = None, ki_price_color_single = None,
     ki_price_color_double = None, ki_created_at = 0\<rparr>"

theorem accepted_prices_are_sane_witness:
  "\<exists>read k' db'. set_pricing platform_band priced_kiosk [(''bw_single'', Some (5 / 2))] kiosks_blank
       = Inr (read, k', db') \<and> effective_prices k' ''bw_single'' = 5 / 2"
proof -
  have m: "as_money (5 / 2) = 5 / 2"
    using is_money_add[of "as_money (5/2)"] by (simp add: as_money_def TWO_PLACES_def round_half_up_def)
  obtain read k' db' where s:
    "set_pricing platform_band priced_kiosk [(''bw_single'', Some (5 / 2))] kiosks_blank = Inr (read, k', db')"
    by (simp add: set_pricing_def platform_band_def UNBOUNDED_def PRICE_FIELDS_def supplied_def
        map_filter_simps check_within_band_def bounds_for_def Let_def m DUPLEX_PAIRS_def
        check_duplex_def combined_price_def effective_prices_def price_of_def DEFAULT_PRICES_def
        priced_kiosk_def)
  from accepted_prices_are_sane[OF s, of "''bw_single''"] m s show ?thesis
    by (simp add: PRICE_FIELDS_def supplied_def map_filter_simps)
qed

text \<open>A refusal is decided before anything is written, and names only what is out of the band.\<close>

lemma unsupplied_refused:
  "supplied prices = [] \<Longrightarrow> fst ` set prices \<subseteq> set PRICE_FIELDS \<Longrightarrow>
   set_pricing band_for k prices db = Inl (BadRequest ''Give at least one price to set.'')"
  by (subgoal_tac "filter (\<lambda>f. f \<notin> set PRICE_FIELDS) (map fst prices) = []")
    (simp add: set_pricing_def, auto simp: filter_empty_conv)

end
