(* ===== verification/BillingModels.thy ===== *)
theory BillingModels
  imports WalletModels
begin

text \<open>The tables of \<^verbatim>\<open>app/modules/billing/models.py\<close>.\<close>

datatype subscription_status = SUB_PENDING_PAYMENT | SUB_ACTIVE | SUB_EXPIRED | SUB_CANCELLED

record plan =
  pn_id :: nat
  pn_public_id :: string
  pn_name :: string
  pn_monthly_price :: rat
  pn_max_kiosks :: int
  pn_price_floor_bw :: "rat option"
  pn_price_ceiling_bw :: "rat option"
  pn_price_floor_color :: "rat option"
  pn_price_ceiling_color :: "rat option"
  pn_is_active :: bool
  pn_created_at :: datetime

record plan_discount =
  pd_id :: nat
  pd_plan_id :: nat
  pd_duration_months :: int
  pd_percent :: rat

record owner_discount =
  od_id :: nat
  od_user_id :: nat
  od_duration_months :: int
  od_percent :: rat
  od_note :: "string option"
  od_granted_by_user_id :: "nat option"
  od_created_at :: datetime

record subscription =
  sb_id :: nat
  sb_public_id :: string
  sb_user_id :: nat
  sb_plan_id :: nat
  sb_status :: subscription_status
  sb_duration_months :: int
  sb_monthly_price_charged :: rat
  sb_discount_percent :: rat
  sb_total_amount :: rat
  sb_negotiated_price :: "rat option"
  sb_free_until :: "datetime option"
  sb_starts_at :: "datetime option"
  sb_expires_at :: "datetime option"
  sb_grace_ends_at :: "datetime option"
  sb_razorpay_order_id :: "string option"
  sb_razorpay_payment_id :: "string option"
  sb_created_at :: datetime

record billing_db = wallet_db +
  plans :: "plan list"
  plan_discounts :: "plan_discount list"
  owner_discounts :: "owner_discount list"
  subscriptions :: "subscription list"

text \<open>A session over empty tables, for the concrete inputs of the witnesses.\<close>

definition billing_blank :: billing_db where
  "billing_blank = \<lparr>tx_now = 0, entropy = (\<lambda>_. 0), drawn = 0, kiosks_to_wake = [], audit_log = [],
     admin_alerts = [], users = [], user_roles = [], one_time_tokens = [], refresh_tokens = [],
     kiosks = [], kiosk_devices = [], device_enrolments = [], kiosk_papers = [],
     kiosk_assignments = [], kiosk_favourites = [], paper_refill_logs = [], staff_invites = [],
     device_commands = [], wallets = [], wallet_entries = [],
     plans = [], plan_discounts = [], owner_discounts = [], subscriptions = []\<rparr>"

end
