(* ===== verification/PaymentModels.thy ===== *)
theory PaymentModels
  imports BillingModels
begin

text \<open>The tables of \<^verbatim>\<open>app/modules/payments/models.py\<close>.\<close>

datatype change_request_status = REQ_PENDING | REQ_APPROVED | REQ_REJECTED | REQ_USED

record kiosk_payment_config =
  pc_id :: nat
  pc_user_id :: nat
  pc_key_id :: "string option"
  pc_key_secret_encrypted :: "string option"
  pc_webhook_secret_encrypted :: "string option"
  pc_is_configured :: bool
  pc_configured_at :: "datetime option"
  pc_created_at :: datetime

record change_request =
  cr_id :: nat
  cr_public_id :: string
  cr_user_id :: nat
  cr_reason :: "string option"
  cr_proof_path :: "string option"
  cr_status :: change_request_status
  cr_reviewed_by_user_id :: "nat option"
  cr_reviewed_at :: "datetime option"
  cr_review_note :: "string option"
  cr_created_at :: datetime

datatype payment_kind = PRINT_ORDER | WALLET_TOPUP | SUBSCRIPTION_PAYMENT

datatype payment_source = SRC_PLATFORM_GATEWAY | SRC_OWNER_GATEWAY | SRC_WALLET

datatype payment_status = CREATED | CAPTURED | PAY_FAILED | PAY_REFUNDED | PARTIALLY_REFUNDED

definition SETTLED_PAYMENT_STATES :: "payment_status set" where
  "SETTLED_PAYMENT_STATES = {CAPTURED, PARTIALLY_REFUNDED, PAY_REFUNDED}"

record payment =
  py_id :: nat
  py_public_id :: string
  py_user_id :: nat
  py_kind :: payment_kind
  py_order_id :: "nat option"
  py_subscription_id :: "nat option"
  py_kiosk_id :: "nat option"
  py_source :: payment_source
  py_collecting_user_id :: "nat option"
  py_razorpay_order_id :: "string option"
  py_razorpay_payment_id :: "string option"
  py_amount_inr :: rat
  py_refunded_inr :: rat
  py_status :: payment_status
  py_failure_reason :: "string option"
  py_created_at :: datetime
  py_captured_at :: "datetime option"

datatype refund_destination = TO_SOURCE | TO_WALLET

record refund_row =
  rf_id :: nat
  rf_public_id :: string
  rf_payment_id :: nat
  rf_amount_inr :: rat
  rf_destination :: refund_destination
  rf_idempotency_key :: string
  rf_razorpay_refund_id :: "string option"
  rf_actor_user_id :: "nat option"
  rf_reason :: "string option"
  rf_created_at :: datetime

record payments_db = billing_db +
  payment_configs :: "kiosk_payment_config list"
  change_requests :: "change_request list"
  payments :: "payment list"
  refunds :: "refund_row list"

text \<open>A session over empty tables, for the concrete inputs of the witnesses.\<close>

definition payments_blank :: payments_db where
  "payments_blank = \<lparr>tx_now = 0, entropy = (\<lambda>_. 0), drawn = 0, kiosks_to_wake = [], audit_log = [],
     admin_alerts = [], users = [], user_roles = [], one_time_tokens = [], refresh_tokens = [],
     kiosks = [], kiosk_devices = [], device_enrolments = [], kiosk_papers = [],
     kiosk_assignments = [], kiosk_favourites = [], paper_refill_logs = [], staff_invites = [],
     device_commands = [], wallets = [], wallet_entries = [],
     plans = [], plan_discounts = [], owner_discounts = [], subscriptions = [],
     payment_configs = [], change_requests = [], payments = [], refunds = []\<rparr>"

end
