(* ===== verification/PrintingModels.thy ===== *)
theory PrintingModels
  imports PaymentModels PrintOptions
begin

text \<open>The tables of \<^verbatim>\<open>app/modules/printing/models.py\<close>.\<close>

datatype document_state = UPLOADED | PROCESSING | READY | DOC_REJECTED | DOC_EXPIRED

datatype task_state =
    QUEUED | SENT_TO_DEVICE | TASK_PRINTING | PRINTED | TASK_FAILED | BLOCKED | CANCELLED

definition TERMINAL_TASK_STATES :: "task_state set" where
  "TERMINAL_TASK_STATES = {PRINTED, TASK_FAILED, CANCELLED}"

record document =
  do_id :: nat
  do_public_id :: string
  do_user_id :: nat
  do_original_filename :: string
  do_original_path :: "string option"
  do_normalised_path :: "string option"
  do_page_count :: "int option"
  do_byte_size :: "int option"
  do_state :: document_state
  do_rejection_reason :: "string option"
  do_created_at :: datetime

record print_task =
  tk_id :: nat
  tk_public_id :: string
  tk_document_id :: nat
  tk_kiosk_id :: nat
  tk_state :: task_state
  tk_position :: int
  tk_colour :: bool
  tk_duplex :: bool
  tk_copies :: int
  tk_page_range :: "string option"
  tk_predicted_sheets :: int
  tk_actual_sheets :: "int option"
  tk_claimed_at :: "datetime option"
  tk_lease_expires_at :: "datetime option"
  tk_attempts :: int
  tk_started_at :: "datetime option"
  tk_finished_at :: "datetime option"
  tk_error_code :: "string option"
  tk_error_message :: "string option"
  tk_created_at :: datetime

record printing_db = payments_db +
  documents :: "document list"
  print_tasks :: "print_task list"

text \<open>\<^verbatim>\<open>db.get(Document, id)\<close>, \<^verbatim>\<open>db.get(PrintTask, id)\<close> and the UPDATE of one task.\<close>

definition document_row :: "nat \<Rightarrow> 'a printing_db_scheme \<Rightarrow> document option" where
  "document_row i db = row_by do_id (documents db) i"

definition task_row :: "nat \<Rightarrow> 'a printing_db_scheme \<Rightarrow> print_task option" where
  "task_row i db = row_by tk_id (print_tasks db) i"

definition save_task :: "print_task \<Rightarrow> 'a printing_db_scheme \<Rightarrow> 'a printing_db_scheme" where
  "save_task t db = db\<lparr>print_tasks := put_row tk_id t (print_tasks db)\<rparr>"

text \<open>A session over empty tables, for the concrete inputs of the witnesses.\<close>

definition printing_blank :: printing_db where
  "printing_blank = \<lparr>tx_now = 0, entropy = (\<lambda>_. 0), drawn = 0, kiosks_to_wake = [], audit_log = [],
     admin_alerts = [], users = [], user_roles = [], one_time_tokens = [], refresh_tokens = [],
     kiosks = [], kiosk_devices = [], device_enrolments = [], kiosk_papers = [],
     kiosk_assignments = [], kiosk_favourites = [], paper_refill_logs = [], staff_invites = [],
     device_commands = [], wallets = [], wallet_entries = [],
     plans = [], plan_discounts = [], owner_discounts = [], subscriptions = [],
     payment_configs = [], change_requests = [], payments = [], refunds = [], documents = [], print_tasks = []\<rparr>"

end
