(* ===== verification/PrintQueue.thy ===== *)
theory PrintQueue
  imports PrintingModels
begin

text \<open>
  \<^verbatim>\<open>app/modules/printing/claims.py\<close> (handing a task to a device), \<^verbatim>\<open>enqueue.py\<close> (putting one in a
  queue) and \<^verbatim>\<open>repository.py\<close> (reads bound to a kiosk or a student).
\<close>

section \<open>Claims and leases\<close>

definition LEASE :: datetime where
  "LEASE = minutes 15"

definition HELD :: "task_state set" where
  "HELD = {SENT_TO_DEVICE, TASK_PRINTING}"

text \<open>
  The inner SELECT orders the kiosk's queued rows by position and creation time and skips the
  rows another transaction holds locked (\<open>locked\<close>); rows that tie keep the table's order.
\<close>

definition queue_at :: "nat set \<Rightarrow> nat \<Rightarrow> 'a printing_db_scheme \<Rightarrow> print_task list" where
  "queue_at locked kiosk_id db =
     sort_key (\<lambda>t. (tk_position t, tk_created_at t))
       (filter (\<lambda>t. tk_kiosk_id t = kiosk_id \<and> tk_state t = QUEUED \<and> tk_id t \<notin> locked) (print_tasks db))"

definition claimed_task :: "datetime \<Rightarrow> print_task \<Rightarrow> print_task" where
  "claimed_task now t =
     t\<lparr>tk_state := SENT_TO_DEVICE, tk_claimed_at := Some now,
       tk_lease_expires_at := Some (now + LEASE), tk_attempts := tk_attempts t + 1\<rparr>"

definition claim_next_task ::
  "nat set \<Rightarrow> nat \<Rightarrow> datetime \<Rightarrow> 'a printing_db_scheme \<Rightarrow> print_task option \<times> 'a printing_db_scheme" where
  "claim_next_task locked kiosk_id now db =
     (case queue_at locked kiosk_id db of
        [] \<Rightarrow> (None, db)
      | t # _ \<Rightarrow> let t' = claimed_task now t in (Some t', save_task t' db))"

definition renew_lease ::
  "print_task \<Rightarrow> datetime \<Rightarrow> 'a printing_db_scheme \<Rightarrow> print_task \<times> 'a printing_db_scheme" where
  "renew_lease t now db =
     (let t' = t\<lparr>tk_lease_expires_at := Some (now + LEASE)\<rparr> in (t', save_task t' db))"

definition renew_held_lease ::
  "nat \<Rightarrow> string \<Rightarrow> datetime \<Rightarrow> 'a printing_db_scheme \<Rightarrow> bool \<times> 'a printing_db_scheme" where
  "renew_held_lease kiosk_id public_id now db =
     (case first_where (\<lambda>t. tk_public_id t = public_id \<and> tk_kiosk_id t = kiosk_id \<and> tk_state t \<in> HELD)
             (print_tasks db) of
        None \<Rightarrow> (False, db)
      | Some t \<Rightarrow> (True, snd (renew_lease t now db)))"

definition LEASE_EXPIRED_MESSAGE :: string where
  "LEASE_EXPIRED_MESSAGE =
     ''The kiosk stopped answering while it had this job. It was not sent '' @
     ''again, because it may already have printed.''"

definition lease_lost :: "datetime \<Rightarrow> print_task \<Rightarrow> bool" where
  "lease_lost now t \<longleftrightarrow>
     tk_state t \<in> HELD \<and> (case tk_lease_expires_at t of None \<Rightarrow> False | Some e \<Rightarrow> e < now)"

definition lost_task :: "datetime \<Rightarrow> print_task \<Rightarrow> print_task" where
  "lost_task now t =
     t\<lparr>tk_state := TASK_FAILED, tk_error_code := Some ''LEASE_EXPIRED'',
       tk_error_message := Some LEASE_EXPIRED_MESSAGE, tk_finished_at := Some now,
       tk_lease_expires_at := None\<rparr>"

text \<open>The loop over the stale rows, as the one change of the table it amounts to.\<close>

definition fail_expired ::
  "datetime \<Rightarrow> 'a printing_db_scheme \<Rightarrow> print_task list \<times> 'a printing_db_scheme" where
  "fail_expired now db =
     (map (lost_task now) (filter (lease_lost now) (print_tasks db)),
      db\<lparr>print_tasks := map (\<lambda>t. if lease_lost now t then lost_task now t else t) (print_tasks db)\<rparr>)"

definition queue_depth :: "nat \<Rightarrow> 'a printing_db_scheme \<Rightarrow> nat" where
  "queue_depth kiosk_id db =
     length (filter (\<lambda>t. tk_kiosk_id t = kiosk_id \<and> tk_state t = QUEUED) (print_tasks db))"

section \<open>Putting work in the queue\<close>

definition enqueue_task ::
  "nat \<Rightarrow> nat \<Rightarrow> print_opts \<Rightarrow> int \<Rightarrow> int \<Rightarrow> 'a printing_db_scheme \<Rightarrow>
   (print_task \<times> 'a printing_db_scheme) result" where
  "enqueue_task document_id kiosk_id options total_pages position db =
     bind_res (workload_of options total_pages) (\<lambda>load.
     let (pid, db1) = mint PRINT_TASK db;
         t = \<lparr>tk_id = fresh_key tk_id (print_tasks db), tk_public_id = pid,
              tk_document_id = document_id, tk_kiosk_id = kiosk_id, tk_state = QUEUED,
              tk_position = position, tk_colour = po_colour options, tk_duplex = po_duplex options,
              tk_copies = po_copies options, tk_page_range = po_page_range options,
              tk_predicted_sheets = wl_sheets load, tk_actual_sheets = None, tk_claimed_at = None,
              tk_lease_expires_at = None, tk_attempts = 0, tk_started_at = None,
              tk_finished_at = None, tk_error_code = None, tk_error_message = None,
              tk_created_at = tx_now db\<rparr>
     in Inr (t, mark_for_wake kiosk_id (db1\<lparr>print_tasks := print_tasks db @ [t]\<rparr>)))"

definition committed_sheets :: "nat \<Rightarrow> 'a printing_db_scheme \<Rightarrow> int" where
  "committed_sheets kiosk_id db =
     sum_list (map tk_predicted_sheets
       (filter (\<lambda>t. tk_kiosk_id t = kiosk_id \<and> tk_state t \<notin> TERMINAL_TASK_STATES) (print_tasks db)))"

section \<open>Bound reads\<close>

definition NO_SUCH_TASK :: string where
  "NO_SUCH_TASK = ''That print job does not exist.''"

definition NO_SUCH_DOCUMENT :: string where
  "NO_SUCH_DOCUMENT = ''That document does not exist.''"

definition task_for_kiosk :: "nat \<Rightarrow> string \<Rightarrow> 'a printing_db_scheme \<Rightarrow> print_task result" where
  "task_for_kiosk kiosk_id public_id db =
     (case parse_id public_id PRINT_TASK of
        Inl _ \<Rightarrow> Inl (NotFound NO_SUCH_TASK)
      | Inr _ \<Rightarrow>
          (case first_where (\<lambda>t. tk_public_id t = public_id \<and> tk_kiosk_id t = kiosk_id) (print_tasks db) of
             None \<Rightarrow> Inl (NotFound NO_SUCH_TASK)
           | Some t \<Rightarrow> Inr t))"

definition document_of :: "print_task \<Rightarrow> 'a printing_db_scheme \<Rightarrow> document result" where
  "document_of t db =
     (case document_row (tk_document_id t) db of
        None \<Rightarrow> Inl (NotFound NO_SUCH_DOCUMENT)
      | Some d \<Rightarrow> Inr d)"

definition document_for_user :: "nat \<Rightarrow> string \<Rightarrow> 'a printing_db_scheme \<Rightarrow> document result" where
  "document_for_user user_id public_id db =
     (case parse_id public_id DOCUMENT of
        Inl _ \<Rightarrow> Inl (NotFound NO_SUCH_DOCUMENT)
      | Inr _ \<Rightarrow>
          (case first_where (\<lambda>d. do_public_id d = public_id \<and> do_user_id d = user_id) (documents db) of
             None \<Rightarrow> Inl (NotFound NO_SUCH_DOCUMENT)
           | Some d \<Rightarrow> Inr d))"

definition documents_of_user :: "nat \<Rightarrow> nat \<Rightarrow> 'a printing_db_scheme \<Rightarrow> document list" where
  "documents_of_user user_id limit db =
     take limit (sort_key (\<lambda>d. - do_created_at d) (filter (\<lambda>d. do_user_id d = user_id) (documents db)))"

definition one_orders :: "nat list \<Rightarrow> nat \<Rightarrow> datetime \<Rightarrow> print_task \<Rightarrow> bool" where
  "one_orders document_ids kiosk_id since t \<longleftrightarrow>
     tk_document_id t \<in> set document_ids \<and> tk_kiosk_id t = kiosk_id \<and> since \<le> tk_created_at t"

definition task_states_at ::
  "nat list \<Rightarrow> nat \<Rightarrow> datetime \<Rightarrow> 'a printing_db_scheme \<Rightarrow> task_state list" where
  "task_states_at document_ids kiosk_id since db =
     (if document_ids = [] then []
      else map tk_state (filter (one_orders document_ids kiosk_id since) (print_tasks db)))"

definition document_task_states ::
  "nat list \<Rightarrow> nat \<Rightarrow> datetime \<Rightarrow> 'a printing_db_scheme \<Rightarrow> (nat \<times> task_state list) list" where
  "document_task_states document_ids kiosk_id since db =
     (if document_ids = [] then []
      else let mine = filter (one_orders document_ids kiosk_id since) (print_tasks db)
           in map (\<lambda>d. (d, map tk_state (filter (\<lambda>t. tk_document_id t = d) mine)))
                (remdups (map tk_document_id mine)))"

definition failed_tasks_at ::
  "nat list \<Rightarrow> nat \<Rightarrow> datetime \<Rightarrow> 'a printing_db_scheme \<Rightarrow> print_task list" where
  "failed_tasks_at document_ids kiosk_id since db =
     (if document_ids = [] then []
      else sort_key tk_id (filter (\<lambda>t. one_orders document_ids kiosk_id since t \<and> tk_state t = TASK_FAILED)
             (print_tasks db)))"

section \<open>Facts about claiming\<close>

definition tasks_ok :: "'a printing_db_scheme \<Rightarrow> bool" where
  "tasks_ok db \<longleftrightarrow> distinct (map tk_id (print_tasks db))"

lemma print_tasks_save_task [simp]: "print_tasks (save_task t db) = put_row tk_id t (print_tasks db)"
  by (simp add: save_task_def)

lemma queue_at_mem:
  "t \<in> set (queue_at locked k db) \<longleftrightarrow>
     t \<in> set (print_tasks db) \<and> tk_kiosk_id t = k \<and> tk_state t = QUEUED \<and> tk_id t \<notin> locked"
  by (auto simp: queue_at_def)

lemma claim_SomeD:
  assumes "claim_next_task locked k now db = (Some t', db')"
  shows "\<exists>t. t \<in> set (print_tasks db) \<and> tk_kiosk_id t = k \<and> tk_state t = QUEUED \<and> tk_id t \<notin> locked
    \<and> t' = claimed_task now t \<and> db' = save_task t' db
    \<and> (\<forall>u \<in> set (queue_at locked k db). (tk_position t, tk_created_at t) \<le> (tk_position u, tk_created_at u))"
proof -
  obtain t ts where q: "queue_at locked k db = t # ts" and eq: "t' = claimed_task now t" "db' = save_task t' db"
    using assms by (auto simp: claim_next_task_def Let_def split: list.splits)
  have "sorted (map (\<lambda>t. (tk_position t, tk_created_at t)) (queue_at locked k db))"
    by (simp add: queue_at_def)
  then have "\<forall>u \<in> set (queue_at locked k db). (tk_position t, tk_created_at t) \<le> (tk_position u, tk_created_at u)"
    by (auto simp: q)
  moreover have "t \<in> set (queue_at locked k db)" by (simp add: q)
  ultimately show ?thesis using eq by (auto simp: queue_at_mem)
qed

lemma claim_None_iff: "fst (claim_next_task locked k now db) = None \<longleftrightarrow> queue_at locked k db = []"
  by (auto simp: claim_next_task_def Let_def split: list.splits)

lemma claimed_task_simps [simp]:
  "tk_id (claimed_task now t) = tk_id t" "tk_kiosk_id (claimed_task now t) = tk_kiosk_id t"
  "tk_state (claimed_task now t) = SENT_TO_DEVICE"
  "tk_lease_expires_at (claimed_task now t) = Some (now + LEASE)"
  "tk_attempts (claimed_task now t) = tk_attempts t + 1"
  "tk_document_id (claimed_task now t) = tk_document_id t"
  "tk_predicted_sheets (claimed_task now t) = tk_predicted_sheets t"
  by (simp_all add: claimed_task_def)

lemma put_row_mem:
  "distinct (map key rows) \<Longrightarrow> r \<in> set rows \<Longrightarrow> key r' = key r \<Longrightarrow>
   set (put_row key r' rows) = insert r' (set rows - {r})"
proof -
  assume d: "distinct (map key rows)" and r: "r \<in> set rows" and k: "key r' = key r"
  have "{x \<in> set rows. key x \<noteq> key r'} = set rows - {r}"
    using distinct_key_eq[OF d r] k by auto
  then show ?thesis using r k by (auto simp: set_put_row)
qed

text \<open>
  (Property). One task is handed to one device: the task a claim returns was queued at that kiosk and not
  locked by another transaction, nothing queued there came before it in (position, creation)
  order, it is marked sent with a lease of fifteen minutes in the same statement, and a second
  claim by anybody, whether it sees the change or skips the locked row, gets a different task.
\<close>

theorem claim_hands_out_once:
  assumes "tasks_ok db" and "claim_next_task locked k now db = (Some t, db')"
  shows "tk_kiosk_id t = k \<and> tk_state t = SENT_TO_DEVICE \<and> tk_id t \<notin> locked
    \<and> tk_lease_expires_at t = Some (now + minutes 15) \<and> t \<in> set (print_tasks db')
    \<and> (\<forall>u \<in> set (queue_at locked k db). (tk_position t, tk_created_at t) \<le> (tk_position u, tk_created_at u))
    \<and> (\<forall>later k2 locked2 u db2. claim_next_task locked2 k2 later db' = (Some u, db2) \<longrightarrow> tk_id u \<noteq> tk_id t)
    \<and> (\<forall>later k2 locked2 u db2. tk_id t \<in> locked2 \<longrightarrow>
         claim_next_task locked2 k2 later db = (Some u, db2) \<longrightarrow> tk_id u \<noteq> tk_id t)
    \<and> tasks_ok db' \<and> queue_depth k db' = queue_depth k db - 1"
proof -
  obtain t0 where t0: "t0 \<in> set (print_tasks db)" "tk_kiosk_id t0 = k" "tk_state t0 = QUEUED"
    "tk_id t0 \<notin> locked" "t = claimed_task now t0" "db' = save_task t db"
    and first: "\<forall>u \<in> set (queue_at locked k db).
      (tk_position t0, tk_created_at t0) \<le> (tk_position u, tk_created_at u)"
    using claim_SomeD[OF assms(2)] by blast
  have d: "distinct (map tk_id (print_tasks db))" using assms(1) by (simp add: tasks_ok_def)
  have rows: "set (print_tasks db') = insert t (set (print_tasks db) - {t0})"
    using put_row_mem[OF d t0(1), of t] t0 by simp
  have gone: "u \<in> set (print_tasks db') \<Longrightarrow> tk_id u = tk_id t \<Longrightarrow> tk_state u = SENT_TO_DEVICE" for u
    using distinct_key_eq[OF d t0(1)] rows t0(5) by auto
  have second: "tk_id u \<noteq> tk_id t" if c: "claim_next_task locked2 k2 later db' = (Some u, db2)"
    for later k2 locked2 u db2
  proof -
    obtain u0 where "u0 \<in> set (print_tasks db')" "tk_state u0 = QUEUED" "u = claimed_task later u0"
      using claim_SomeD[OF c] by blast
    with gone[of u0] show ?thesis by auto
  qed
  have skipped: "tk_id u \<noteq> tk_id t"
    if "tk_id t \<in> locked2" "claim_next_task locked2 k2 later db = (Some u, db2)"
    for later k2 locked2 u db2
    using claim_SomeD[OF that(2)] that(1) by auto
  have "length (filter (\<lambda>u. tk_kiosk_id u = k \<and> tk_state u = QUEUED) (put_row tk_id t rows))
      = length (filter (\<lambda>u. tk_kiosk_id u = k \<and> tk_state u = QUEUED) rows) - 1"
    if "t0 \<in> set rows" "distinct (map tk_id rows)" for rows
    using that
  proof (induction rows)
    case (Cons x xs)
    show ?case
    proof (cases "x = t0")
      case True
      then have "tk_id t \<notin> tk_id ` set xs" using Cons.prems t0(5) by auto
      with True t0 show ?thesis by (simp add: put_row_absent)
    next
      case False
      then have "tk_id x \<noteq> tk_id t" using Cons.prems t0(5) by (auto simp: image_iff)
      moreover have "0 < length (filter (\<lambda>u. tk_kiosk_id u = k \<and> tk_state u = QUEUED) xs)"
        using Cons.prems False t0(2,3) by (auto simp: filter_empty_conv)
      ultimately show ?thesis using Cons False by auto
    qed
  qed simp
  with d t0 have "queue_depth k db' = queue_depth k db - 1" by (simp add: queue_depth_def)
  then show ?thesis
    using t0 rows first second skipped d
    by (auto simp: LEASE_def claimed_task_def tasks_ok_def table_simps)
qed

definition task_example :: print_task where
  "task_example = \<lparr>tk_id = 1, tk_public_id = ''tsk_0000000000000000'', tk_document_id = 1,
     tk_kiosk_id = 1, tk_state = QUEUED, tk_position = 0, tk_colour = False, tk_duplex = False,
     tk_copies = 1, tk_page_range = None, tk_predicted_sheets = 4, tk_actual_sheets = None,
     tk_claimed_at = None, tk_lease_expires_at = None, tk_attempts = 0, tk_started_at = None,
     tk_finished_at = None, tk_error_code = None, tk_error_message = None, tk_created_at = 10\<rparr>"

theorem claim_hands_out_once_witness:
  "\<exists>t db'. claim_next_task {} 1 20 (printing_blank\<lparr>print_tasks := [task_example]\<rparr>) = (Some t, db')
     \<and> tk_state t = SENT_TO_DEVICE \<and> queue_depth 1 db' = 0"
proof -
  let ?db = "printing_blank\<lparr>print_tasks := [task_example]\<rparr>"
  have c: "claim_next_task {} 1 20 ?db =
      (Some (claimed_task 20 task_example), save_task (claimed_task 20 task_example) ?db)"
    by (simp add: claim_next_task_def queue_at_def task_example_def Let_def)
  have "tasks_ok ?db" "queue_depth 1 ?db = 1" by (simp_all add: tasks_ok_def queue_depth_def task_example_def)
  with claim_hands_out_once[OF _ c] c show ?thesis by auto
qed

section \<open>Leases\<close>

lemma lease_lost_lost [simp]: "\<not> lease_lost now' (lost_task now t)"
  by (simp add: lease_lost_def lost_task_def HELD_def)

text \<open>
  (Property). Only silence fails a task, and failing never requeues: the sweep fails exactly the held
  tasks whose lease ran out before now and leaves every other row as it was; a heartbeat that
  names a held task keeps it out of every sweep for the next fifteen minutes; and the number of
  queued tasks never grows, so nothing is ever handed out a second time by the sweep.
\<close>

theorem only_silence_fails:
  assumes "fail_expired now db = (failed, db')"
  shows "length (print_tasks db') = length (print_tasks db)
    \<and> (\<forall>i < length (print_tasks db).
         let t = print_tasks db ! i; t' = print_tasks db' ! i in
         (if lease_lost now t then tk_state t' = TASK_FAILED \<and> t' \<in> set failed \<and> tk_id t' = tk_id t
          else t' = t))
    \<and> (\<forall>k. queue_depth k db' = queue_depth k db)
    \<and> fst (fail_expired now db') = []
    \<and> (\<forall>t beat. now \<le> beat + minutes 15 \<longrightarrow> \<not> lease_lost now (fst (renew_lease t beat db)))"
proof -
  let ?f = "\<lambda>t. if lease_lost now t then lost_task now t else t"
  have rows: "print_tasks db' = map ?f (print_tasks db)"
    and failed: "failed = map (lost_task now) (filter (lease_lost now) (print_tasks db))"
    using assms by (auto simp: fail_expired_def)
  have "queue_depth k db' = queue_depth k db" for k
  proof -
    have "(tk_kiosk_id (?f t) = k \<and> tk_state (?f t) = QUEUED) = (tk_kiosk_id t = k \<and> tk_state t = QUEUED)" for t
      by (auto simp: lost_task_def lease_lost_def HELD_def)
    then have "filter (\<lambda>t. tk_kiosk_id t = k \<and> tk_state t = QUEUED) (map ?f ts) =
        map ?f (filter (\<lambda>t. tk_kiosk_id t = k \<and> tk_state t = QUEUED) ts)" for ts
      by (simp add: filter_map comp_def)
    then show ?thesis unfolding queue_depth_def rows by simp
  qed
  moreover have "fst (fail_expired now db') = []"
    by (auto simp: fail_expired_def rows filter_empty_conv)
  moreover have "\<forall>t beat. now \<le> beat + minutes 15 \<longrightarrow> \<not> lease_lost now (fst (renew_lease t beat db))"
    by (simp add: renew_lease_def lease_lost_def LEASE_def Let_def)
  ultimately show ?thesis
    unfolding rows failed
    by (auto simp: Let_def lost_task_def nth_mem intro!: image_eqI)
qed

theorem only_silence_fails_witness:
  "fst (fail_expired 5000000000 (printing_blank\<lparr>print_tasks := [claimed_task 20 task_example]\<rparr>))
     = [lost_task 5000000000 (claimed_task 20 task_example)]
   \<and> fst (fail_expired 5000000000 (snd (fail_expired 5000000000
        (printing_blank\<lparr>print_tasks := [claimed_task 20 task_example]\<rparr>)))) = []"
  using only_silence_fails[OF prod.collapse[symmetric],
      of 5000000000 "printing_blank\<lparr>print_tasks := [claimed_task 20 task_example]\<rparr>"]
  by (simp add: fail_expired_def lease_lost_def HELD_def LEASE_def minutes_def seconds_def)

section \<open>Isolation\<close>

lemma first_where_filter: "first_where (\<lambda>r. p r \<and> q r) rows = first_where p (filter q rows)"
  by (induction rows) auto

text \<open>
  (Property). What a device or a student can learn is bounded by who they are: looking a task up answers
  exactly as if no other kiosk's tasks existed, and looking a document up exactly as if no other
  student's did, so another's row is indistinguishable from none.
\<close>

theorem bound_reads_isolate:
  "task_for_kiosk k pid db =
     task_for_kiosk k pid (db\<lparr>print_tasks := filter (\<lambda>t. tk_kiosk_id t = k) (print_tasks db)\<rparr>)
   \<and> document_for_user u pid db =
     document_for_user u pid (db\<lparr>documents := filter (\<lambda>d. do_user_id d = u) (documents db)\<rparr>)
   \<and> fst (renew_held_lease k pid now db) =
     fst (renew_held_lease k pid now (db\<lparr>print_tasks := filter (\<lambda>t. tk_kiosk_id t = k) (print_tasks db)\<rparr>))"
proof -
  have held: "first_where (\<lambda>t. tk_public_id t = pid \<and> tk_kiosk_id t = k \<and> tk_state t \<in> HELD)
        (filter (\<lambda>t. tk_kiosk_id t = k) rows)
      = first_where (\<lambda>t. tk_public_id t = pid \<and> tk_kiosk_id t = k \<and> tk_state t \<in> HELD) rows" for rows
    by (induction rows) auto
  have task: "first_where (\<lambda>t. tk_public_id t = pid \<and> tk_kiosk_id t = k)
        (filter (\<lambda>t. tk_kiosk_id t = k) rows)
      = first_where (\<lambda>t. tk_public_id t = pid \<and> tk_kiosk_id t = k) rows" for rows
    by (induction rows) auto
  have doc: "first_where (\<lambda>d. do_public_id d = pid \<and> do_user_id d = u)
        (filter (\<lambda>d. do_user_id d = u) rows)
      = first_where (\<lambda>d. do_public_id d = pid \<and> do_user_id d = u) rows" for rows
    by (induction rows) auto
  show ?thesis
    by (simp add: task_for_kiosk_def document_for_user_def renew_held_lease_def held task doc
        split: option.split)
qed

end
