(* ===== verification/PrintTasks.thy ===== *)
theory PrintTasks
  imports PrintQueue
begin

text \<open>
  \<^verbatim>\<open>app/modules/printing/tasks.py\<close>: what a device reports back. \<^verbatim>\<open>PaperLedger\<close> is the argument
  \<open>consume\<close> and \<^verbatim>\<open>TaskOutcome\<close> the argument \<open>task_moved\<close>; what the client relies on is the locale
  \<open>paper_ledger\<close>, interpreted on the real adapter where that is declared.
\<close>

section \<open>Operations\<close>

definition IN_HAND :: "task_state set" where
  "IN_HAND = {SENT_TO_DEVICE, TASK_PRINTING}"

definition TASK_ALREADY_FINISHED :: string where
  "TASK_ALREADY_FINISHED = ''That print job has already finished.''"

definition NOT_IN_HAND :: string where
  "NOT_IN_HAND = ''That print job is not currently assigned to this kiosk.''"

definition NOT_FAILED :: string where
  "NOT_FAILED = ''Only a print that was reported as failed can be confirmed as printed.''"

text \<open>\<open>consume kiosk_id predicted_sheets actual_sheets reference\<close>, which may raise.\<close>

type_synonym 's paper_ledger = "nat \<Rightarrow> int \<Rightarrow> int option \<Rightarrow> string \<Rightarrow> 's \<Rightarrow> 's result"

type_synonym 's task_outcome = "print_task \<Rightarrow> 's \<Rightarrow> 's"

definition no_outcome :: "'s task_outcome" where
  "no_outcome t s = s"

definition require_in_hand :: "print_task \<Rightarrow> unit result" where
  "require_in_hand t =
     (if tk_state t \<in> TERMINAL_TASK_STATES then Inl (Conflict TASK_ALREADY_FINISHED)
      else if tk_state t \<notin> IN_HAND then Inl (Conflict NOT_IN_HAND)
      else Inr ())"

definition reject_negative :: "int option \<Rightarrow> unit result" where
  "reject_negative sheets =
     (case sheets of
        Some n \<Rightarrow> if n < 0 then Inl (BadRequest ''A print cannot use a negative number of sheets.'') else Inr ()
      | None \<Rightarrow> Inr ())"

definition start_printing ::
  "'a printing_db_scheme task_outcome \<Rightarrow> print_task \<Rightarrow> datetime \<Rightarrow> 'a printing_db_scheme \<Rightarrow>
   (print_task \<times> 'a printing_db_scheme) result" where
  "start_printing task_moved t now db =
     bind_res (require_in_hand t) (\<lambda>_.
     let t' = t\<lparr>tk_state := TASK_PRINTING,
                tk_started_at := (case tk_started_at t of None \<Rightarrow> Some now | Some s \<Rightarrow> Some s),
                tk_lease_expires_at := Some (now + LEASE)\<rparr>
     in Inr (t', task_moved t' (save_task t' db)))"

definition report_printed ::
  "'a printing_db_scheme paper_ledger \<Rightarrow> 'a printing_db_scheme task_outcome \<Rightarrow> print_task \<Rightarrow>
   int option \<Rightarrow> datetime \<Rightarrow> 'a printing_db_scheme \<Rightarrow> (print_task \<times> 'a printing_db_scheme) result" where
  "report_printed consume task_moved t sheets_used now db =
     bind_res (require_in_hand t) (\<lambda>_.
     bind_res (reject_negative sheets_used) (\<lambda>_.
     let t' = t\<lparr>tk_state := PRINTED, tk_actual_sheets := sheets_used, tk_finished_at := Some now,
                tk_lease_expires_at := None\<rparr>
     in bind_res (consume (tk_kiosk_id t) (tk_predicted_sheets t) sheets_used (tk_public_id t) (save_task t' db))
          (\<lambda>db1. Inr (t', task_moved t' db1))))"

definition confirmed_reference :: "print_task \<Rightarrow> string" where
  "confirmed_reference t = tk_public_id t @ '' (confirmed by an operator)''"

definition confirm_printed ::
  "'a printing_db_scheme paper_ledger \<Rightarrow> 'a printing_db_scheme task_outcome \<Rightarrow> print_task \<Rightarrow>
   datetime \<Rightarrow> 'a printing_db_scheme \<Rightarrow> (print_task \<times> 'a printing_db_scheme) result" where
  "confirm_printed consume task_moved t now db =
     (if tk_state t \<noteq> TASK_FAILED then Inl (Conflict NOT_FAILED)
      else
        let already = (case tk_actual_sheets t of None \<Rightarrow> 0 | Some n \<Rightarrow> n);
            rest = max 0 (tk_predicted_sheets t - already);
            t' = t\<lparr>tk_state := PRINTED, tk_actual_sheets := Some (max already (tk_predicted_sheets t)),
                   tk_error_code := None, tk_error_message := None, tk_finished_at := Some now,
                   tk_lease_expires_at := None\<rparr>;
            db1 = save_task t' db
        in bind_res (if rest \<noteq> 0 then consume (tk_kiosk_id t) rest (Some rest) (confirmed_reference t) db1
                     else Inr db1)
             (\<lambda>db2. Inr (t', task_moved t' db2)))"

record confirmed_print =
  cp_task_id :: string
  cp_error_code :: "string option"
  cp_error_message :: "string option"

fun confirm_each ::
  "'a printing_db_scheme paper_ledger \<Rightarrow> datetime \<Rightarrow> print_task list \<Rightarrow> 'a printing_db_scheme \<Rightarrow>
   (confirmed_print list \<times> 'a printing_db_scheme) result" where
  "confirm_each consume now [] db = Inr ([], db)"
| "confirm_each consume now (t # ts) db =
     bind_res (confirm_printed consume no_outcome t now db) (\<lambda>(_, db1).
     bind_res (confirm_each consume now ts db1) (\<lambda>(done, db2).
     Inr (\<lparr>cp_task_id = tk_public_id t, cp_error_code = tk_error_code t,
           cp_error_message = tk_error_message t\<rparr> # done, db2)))"

definition confirm_failed_prints ::
  "'a printing_db_scheme paper_ledger \<Rightarrow> nat list \<Rightarrow> nat \<Rightarrow> datetime \<Rightarrow> datetime \<Rightarrow>
   'a printing_db_scheme \<Rightarrow> (confirmed_print list \<times> 'a printing_db_scheme) result" where
  "confirm_failed_prints consume document_ids kiosk_id since now db =
     confirm_each consume now (failed_tasks_at document_ids kiosk_id since db) db"

definition report_failed ::
  "'a printing_db_scheme paper_ledger \<Rightarrow> 'a printing_db_scheme task_outcome \<Rightarrow> print_task \<Rightarrow>
   int option \<Rightarrow> string option \<Rightarrow> string option \<Rightarrow> datetime \<Rightarrow> 'a printing_db_scheme \<Rightarrow>
   (print_task \<times> 'a printing_db_scheme) result" where
  "report_failed consume task_moved t sheets_used error_code error_message now db =
     bind_res (require_in_hand t) (\<lambda>_.
     bind_res (reject_negative sheets_used) (\<lambda>_.
     let consumed = (case sheets_used of None \<Rightarrow> 0 | Some n \<Rightarrow> n);
         t' = t\<lparr>tk_state := TASK_FAILED, tk_actual_sheets := sheets_used, tk_error_code := error_code,
                tk_error_message := error_message, tk_finished_at := Some now,
                tk_lease_expires_at := None\<rparr>
     in bind_res (consume (tk_kiosk_id t) (tk_predicted_sheets t) (Some consumed) (tk_public_id t) (save_task t' db))
          (\<lambda>db1. Inr (t', task_moved t' db1))))"

definition report_blocked ::
  "print_task \<Rightarrow> string \<Rightarrow> string option \<Rightarrow> datetime \<Rightarrow> 'a printing_db_scheme \<Rightarrow>
   (print_task \<times> 'a printing_db_scheme) result" where
  "report_blocked t reason message now db =
     bind_res (require_in_hand t) (\<lambda>_.
     let t' = t\<lparr>tk_state := BLOCKED, tk_error_code := Some reason, tk_error_message := message,
                tk_claimed_at := None, tk_lease_expires_at := None\<rparr>
     in Inr (t', save_task t' db))"

lemma require_in_hand_iff [simp]: "require_in_hand t = Inr u \<longleftrightarrow> tk_state t \<in> IN_HAND"
  by (auto simp: require_in_hand_def TERMINAL_TASK_STATES_def IN_HAND_def)

lemma require_in_hand_error:
  "require_in_hand t = Inl e \<longleftrightarrow> tk_state t \<notin> IN_HAND \<and>
     e = Conflict (if tk_state t \<in> TERMINAL_TASK_STATES then TASK_ALREADY_FINISHED else NOT_IN_HAND)"
  by (auto simp: require_in_hand_def TERMINAL_TASK_STATES_def IN_HAND_def)

lemma reject_negative_iff [simp]:
  "reject_negative s = Inr u \<longleftrightarrow> (case s of None \<Rightarrow> True | Some n \<Rightarrow> 0 \<le> n)"
  by (auto simp: reject_negative_def split: option.splits)

section \<open>The life of a task\<close>

text \<open>
  Everything that writes a task row: the claim, the sweep, the heartbeat, the five reports and
  the operator's confirmation, and \<open>Other\<close>, anything that leaves the task table alone. The
  ledger and the outcome are any that keep to their own tables.
\<close>

definition keeps_tasks :: "('a printing_db_scheme \<Rightarrow> 'a printing_db_scheme) \<Rightarrow> bool" where
  "keeps_tasks f \<longleftrightarrow> (\<forall>s. print_tasks (f s) = print_tasks s)"

definition ledger_keeps_tasks :: "'a printing_db_scheme paper_ledger \<Rightarrow> bool" where
  "ledger_keeps_tasks consume \<longleftrightarrow>
     (\<forall>k p a r s s'. consume k p a r s = Inr s' \<longrightarrow> print_tasks s' = print_tasks s)"

inductive task_step :: "'a printing_db_scheme \<Rightarrow> 'a printing_db_scheme \<Rightarrow> bool" where
  Enqueued: "enqueue_task d k opts n pos db = Inr (t, db') \<Longrightarrow> task_step db db'"
| Claimed: "claim_next_task locked k now db = (r, db') \<Longrightarrow> task_step db db'"
| Renewed: "renew_held_lease k pid now db = (b, db') \<Longrightarrow> task_step db db'"
| Swept: "fail_expired now db = (ts, db') \<Longrightarrow> task_step db db'"
| Started: "t \<in> set (print_tasks db) \<Longrightarrow> (\<And>u. keeps_tasks (moved u)) \<Longrightarrow>
    start_printing moved t now db = Inr (t', db') \<Longrightarrow> task_step db db'"
| Printed: "t \<in> set (print_tasks db) \<Longrightarrow> (\<And>u. keeps_tasks (moved u)) \<Longrightarrow> ledger_keeps_tasks consume \<Longrightarrow>
    report_printed consume moved t used now db = Inr (t', db') \<Longrightarrow> task_step db db'"
| Failed: "t \<in> set (print_tasks db) \<Longrightarrow> (\<And>u. keeps_tasks (moved u)) \<Longrightarrow> ledger_keeps_tasks consume \<Longrightarrow>
    report_failed consume moved t used code msg now db = Inr (t', db') \<Longrightarrow> task_step db db'"
| Blocked: "t \<in> set (print_tasks db) \<Longrightarrow> report_blocked t reason msg now db = Inr (t', db') \<Longrightarrow>
    task_step db db'"
| Confirmed: "t \<in> set (print_tasks db) \<Longrightarrow> (\<And>u. keeps_tasks (moved u)) \<Longrightarrow> ledger_keeps_tasks consume \<Longrightarrow>
    confirm_printed consume moved t now db = Inr (t', db') \<Longrightarrow> task_step db db'"
| Other: "keeps_tasks f \<Longrightarrow> task_step db (f db)"

text \<open>The moves a task can make, and the table rewritten by one of them.\<close>

fun may_become :: "task_state \<Rightarrow> task_state \<Rightarrow> bool" where
  "may_become QUEUED s \<longleftrightarrow> s \<in> {QUEUED, SENT_TO_DEVICE}"
| "may_become SENT_TO_DEVICE s \<longleftrightarrow> s \<in> {SENT_TO_DEVICE, TASK_PRINTING, PRINTED, TASK_FAILED, BLOCKED}"
| "may_become TASK_PRINTING s \<longleftrightarrow> s \<in> {TASK_PRINTING, PRINTED, TASK_FAILED, BLOCKED}"
| "may_become TASK_FAILED s \<longleftrightarrow> s \<in> {TASK_FAILED, PRINTED}"
| "may_become PRINTED s \<longleftrightarrow> s = PRINTED"
| "may_become BLOCKED s \<longleftrightarrow> s = BLOCKED"
| "may_become CANCELLED s \<longleftrightarrow> s = CANCELLED"

definition moved_row :: "print_task \<Rightarrow> print_task \<Rightarrow> bool" where
  "moved_row t t' \<longleftrightarrow> tk_id t' = tk_id t \<and> may_become (tk_state t) (tk_state t')
     \<and> tk_kiosk_id t' = tk_kiosk_id t \<and> tk_document_id t' = tk_document_id t
     \<and> tk_predicted_sheets t' = tk_predicted_sheets t
     \<and> tk_attempts t' = tk_attempts t + (if tk_state t = QUEUED \<and> tk_state t' \<noteq> QUEUED then 1 else 0)"

definition fresh_task :: "print_task \<Rightarrow> bool" where
  "fresh_task t \<longleftrightarrow> tk_state t = QUEUED \<and> tk_attempts t = 0"

definition moved_table :: "print_task list \<Rightarrow> print_task list \<Rightarrow> bool" where
  "moved_table ts ts' \<longleftrightarrow> (\<exists>us new. ts' = us @ new \<and> list_all2 moved_row ts us \<and> list_all fresh_task new
     \<and> distinct (map tk_id ts) = distinct (map tk_id ts'))"

lemma may_become_refl [simp]: "may_become s s"
  by (cases s) auto

lemma moved_row_refl [simp]: "moved_row t t"
  by (simp add: moved_row_def)

lemma moved_tableI:
  "ts' = us @ new \<Longrightarrow> list_all2 moved_row ts us \<Longrightarrow> list_all fresh_task new \<Longrightarrow>
   distinct (map tk_id ts) = distinct (map tk_id ts') \<Longrightarrow> moved_table ts ts'"
  by (auto simp: moved_table_def)

lemma moved_table_refl: "moved_table ts ts"
  unfolding moved_table_def
  by (rule exI[of _ ts], rule exI[of _ "[]"]) (simp add: list_all2_conv_all_nth)

lemma list_all2_put_row:
  "\<forall>x \<in> set rows. tk_id x = tk_id r \<longrightarrow> moved_row x r \<Longrightarrow> list_all2 moved_row rows (put_row tk_id r rows)"
  by (induction rows) auto

lemma moved_table_put:
  assumes "distinct (map tk_id ts)" and "t \<in> set ts" and "moved_row t t'"
  shows "moved_table ts (put_row tk_id t' ts)"
proof -
  have "tk_id t' = tk_id t" using assms(3) by (simp add: moved_row_def)
  then have "\<forall>x \<in> set ts. tk_id x = tk_id t' \<longrightarrow> moved_row x t'"
    using distinct_key_eq[OF assms(1,2)] assms(3) by auto
  then show ?thesis
    unfolding moved_table_def
    by (intro exI[of _ "put_row tk_id t' ts"] exI[of _ "[]"])
      (simp add: distinct_put_row list_all2_put_row)
qed

lemma start_printing_shape:
  "start_printing moved t now db = Inr (t', db') \<Longrightarrow>
   tk_state t \<in> IN_HAND \<and> moved_row t t' \<and> tk_state t' = TASK_PRINTING
     \<and> db' = moved t' (save_task t' db)"
  by (auto simp: start_printing_def bind_res_Inr_iff IN_HAND_def moved_row_def Let_def)

lemma report_printed_shape:
  "report_printed consume moved t used now db = Inr (t', db') \<Longrightarrow>
   tk_state t \<in> IN_HAND \<and> moved_row t t' \<and> tk_state t' = PRINTED \<and> tk_actual_sheets t' = used
     \<and> (\<exists>db1. consume (tk_kiosk_id t) (tk_predicted_sheets t) used (tk_public_id t) (save_task t' db) = Inr db1
        \<and> db' = moved t' db1)"
  by (auto simp: report_printed_def bind_res_Inr_iff IN_HAND_def moved_row_def Let_def)

lemma report_failed_shape:
  "report_failed consume moved t used code msg now db = Inr (t', db') \<Longrightarrow>
   tk_state t \<in> IN_HAND \<and> moved_row t t' \<and> tk_state t' = TASK_FAILED \<and> tk_actual_sheets t' = used
     \<and> (\<exists>db1. consume (tk_kiosk_id t) (tk_predicted_sheets t) (Some (case used of None \<Rightarrow> 0 | Some n \<Rightarrow> n))
            (tk_public_id t) (save_task t' db) = Inr db1 \<and> db' = moved t' db1)"
  by (auto simp: report_failed_def bind_res_Inr_iff IN_HAND_def moved_row_def Let_def)

lemma report_blocked_shape:
  "report_blocked t reason msg now db = Inr (t', db') \<Longrightarrow>
   tk_state t \<in> IN_HAND \<and> moved_row t t' \<and> tk_state t' = BLOCKED \<and> db' = save_task t' db"
  by (auto simp: report_blocked_def bind_res_Inr_iff IN_HAND_def moved_row_def Let_def)

lemma confirm_printed_shape:
  "confirm_printed consume moved t now db = Inr (t', db') \<Longrightarrow>
   tk_state t = TASK_FAILED \<and> moved_row t t' \<and> tk_state t' = PRINTED
     \<and> tk_actual_sheets t' = Some (max (case tk_actual_sheets t of None \<Rightarrow> 0 | Some n \<Rightarrow> n) (tk_predicted_sheets t))
     \<and> (let rest = max 0 (tk_predicted_sheets t - (case tk_actual_sheets t of None \<Rightarrow> 0 | Some n \<Rightarrow> n)) in
        \<exists>db1. (if rest \<noteq> 0 then consume (tk_kiosk_id t) rest (Some rest) (confirmed_reference t) (save_task t' db)
                else Inr (save_task t' db)) = Inr db1 \<and> db' = moved t' db1)"
  by (auto simp: confirm_printed_def bind_res_Inr_iff moved_row_def Let_def split: if_splits)

lemmas task_shapes = start_printing_shape report_printed_shape report_failed_shape
  report_blocked_shape confirm_printed_shape

lemma claim_moved:
  assumes "tasks_ok db" and "claim_next_task locked k now db = (r, db')"
  shows "moved_table (print_tasks db) (print_tasks db')"
proof (cases r)
  case None
  then show ?thesis
    using assms(2) moved_table_refl
    by (auto simp: claim_next_task_def Let_def split: list.splits)
next
  case (Some t')
  then obtain t where "t \<in> set (print_tasks db)" "tk_state t = QUEUED" "t' = claimed_task now t"
    "db' = save_task t' db"
    using claim_SomeD assms(2) by blast
  moreover have "moved_row t (claimed_task now t)"
    using calculation(2) by (simp add: moved_row_def)
  ultimately show ?thesis
    using assms(1) moved_table_put by (simp add: tasks_ok_def)
qed

lemma renew_moved:
  assumes "tasks_ok db" and "renew_held_lease k pid now db = (b, db')"
  shows "moved_table (print_tasks db) (print_tasks db')"
proof (cases "first_where (\<lambda>t. tk_public_id t = pid \<and> tk_kiosk_id t = k \<and> tk_state t \<in> HELD) (print_tasks db)")
  case None
  then show ?thesis using assms(2) moved_table_refl by (auto simp: renew_held_lease_def)
next
  case (Some t)
  then have "t \<in> set (print_tasks db)" by (auto dest: first_where_SomeD)
  moreover have "moved_row t (t\<lparr>tk_lease_expires_at := Some (now + LEASE)\<rparr>)"
    by (simp add: moved_row_def)
  ultimately show ?thesis
    using Some assms moved_table_put
    by (auto simp: renew_held_lease_def renew_lease_def Let_def tasks_ok_def)
qed

lemma lost_moved: "lease_lost now t \<Longrightarrow> moved_row t (lost_task now t)"
  by (auto simp: moved_row_def lost_task_def lease_lost_def HELD_def)

lemma list_all2_map_same: "(\<And>x. P x (f x)) \<Longrightarrow> list_all2 P xs (map f xs)"
  by (induction xs) auto

lemma swept_moved:
  assumes "fail_expired now db = (ts, db')"
  shows "moved_table (print_tasks db) (print_tasks db')"
proof (rule moved_tableI[of _ "print_tasks db'" "[]"])
  let ?f = "\<lambda>t. if lease_lost now t then lost_task now t else t"
  have rows: "print_tasks db' = map ?f (print_tasks db)"
    using assms by (auto simp: fail_expired_def)
  show "list_all2 moved_row (print_tasks db) (print_tasks db')"
    unfolding rows by (rule list_all2_map_same) (simp add: lost_moved)
  have "map tk_id (print_tasks db') = map tk_id (print_tasks db)"
    unfolding rows by (simp add: lost_task_def)
  then show "distinct (map tk_id (print_tasks db)) = distinct (map tk_id (print_tasks db'))"
    by simp
qed simp_all

lemma enqueue_moved:
  assumes "enqueue_task d k opts n pos db = Inr (t, db')"
  shows "print_tasks db' = print_tasks db @ [t] \<and> fresh_task t \<and> tk_id t = fresh_key tk_id (print_tasks db)
    \<and> moved_table (print_tasks db) (print_tasks db')"
proof -
  have t: "print_tasks db' = print_tasks db @ [t]" "fresh_task t" "tk_id t = fresh_key tk_id (print_tasks db)"
    using assms by (auto simp: enqueue_task_def bind_res_Inr_iff Let_def mint_def mark_for_wake_def fresh_task_def)
  moreover have "distinct (map tk_id (print_tasks db @ [t])) = distinct (map tk_id (print_tasks db))"
    using t(3) by (rule distinct_append_fresh)
  moreover have "moved_table (print_tasks db) (print_tasks db')"
    by (rule moved_tableI[of _ "print_tasks db" "[t]"])
      (use calculation in \<open>simp_all add: list_all2_refl\<close>)
  ultimately show ?thesis by blast
qed

lemma task_step_moved:
  assumes "task_step db db'" and "tasks_ok db"
  shows "moved_table (print_tasks db) (print_tasks db')"
  using assms
proof (induction rule: task_step.induct)
  case (Started t db moved now t' db')
  then show ?case
    using start_printing_shape[OF Started(3)] moved_table_put[of "print_tasks db" t t']
    by (simp add: tasks_ok_def keeps_tasks_def)
next
  case (Printed t db moved consume used now t' db')
  then show ?case
    using report_printed_shape[OF Printed(4)] moved_table_put[of "print_tasks db" t t']
    by (auto simp: tasks_ok_def keeps_tasks_def ledger_keeps_tasks_def)
next
  case (Failed t db moved consume used code msg now t' db')
  then show ?case
    using report_failed_shape[OF Failed(4)] moved_table_put[of "print_tasks db" t t']
    by (auto simp: tasks_ok_def keeps_tasks_def ledger_keeps_tasks_def)
next
  case (Blocked t db reason msg now t' db')
  then show ?case
    using report_blocked_shape[OF Blocked(2)] moved_table_put[of "print_tasks db" t t']
    by (simp add: tasks_ok_def)
next
  case (Confirmed t db moved consume now t' db')
  then show ?case
    using confirm_printed_shape[OF Confirmed(4)] moved_table_put[of "print_tasks db" t t']
    by (auto simp: tasks_ok_def keeps_tasks_def ledger_keeps_tasks_def Let_def split: if_splits)
next
  case (Other f db)
  then show ?case by (simp add: keeps_tasks_def moved_table_refl)
next
  case (Enqueued d k opts n pos db t db')
  then show ?case using enqueue_moved[OF Enqueued(1)] by blast
next
  case (Claimed locked k now db r db')
  then show ?case using claim_moved by blast
next
  case (Renewed k pid now db b db')
  then show ?case using renew_moved by blast
next
  case (Swept now db ts db')
  then show ?case using swept_moved by blast
qed

section \<open>Runs\<close>

text \<open>Where a state can lead in the end, and a row against a later copy of it.\<close>

fun may_reach :: "task_state \<Rightarrow> task_state set" where
  "may_reach QUEUED = {QUEUED, SENT_TO_DEVICE, TASK_PRINTING, PRINTED, TASK_FAILED, BLOCKED}"
| "may_reach SENT_TO_DEVICE = {SENT_TO_DEVICE, TASK_PRINTING, PRINTED, TASK_FAILED, BLOCKED}"
| "may_reach TASK_PRINTING = {TASK_PRINTING, PRINTED, TASK_FAILED, BLOCKED}"
| "may_reach TASK_FAILED = {TASK_FAILED, PRINTED}"
| "may_reach PRINTED = {PRINTED}"
| "may_reach BLOCKED = {BLOCKED}"
| "may_reach CANCELLED = {CANCELLED}"

definition later_row :: "print_task \<Rightarrow> print_task \<Rightarrow> bool" where
  "later_row t t' \<longleftrightarrow> tk_id t' = tk_id t \<and> tk_state t' \<in> may_reach (tk_state t)
     \<and> tk_kiosk_id t' = tk_kiosk_id t \<and> tk_document_id t' = tk_document_id t
     \<and> tk_predicted_sheets t' = tk_predicted_sheets t
     \<and> tk_attempts t' = tk_attempts t + (if tk_state t = QUEUED \<and> tk_state t' \<noteq> QUEUED then 1 else 0)"

lemma may_reach_trans: "s' \<in> may_reach s \<Longrightarrow> may_become s' s'' \<Longrightarrow> s'' \<in> may_reach s"
  by (cases s; cases s'; cases s'') auto

lemma later_row_refl: "later_row t t"
  unfolding later_row_def by (cases "tk_state t") auto

lemma later_row_step: "later_row t u \<Longrightarrow> moved_row u v \<Longrightarrow> later_row t v"
proof -
  assume l: "later_row t u" and m: "moved_row u v"
  have "tk_state u \<noteq> QUEUED \<Longrightarrow> tk_state v \<noteq> QUEUED"
    using m by (cases "tk_state u") (auto simp: moved_row_def)
  moreover have "tk_state t \<noteq> QUEUED \<Longrightarrow> tk_state u \<noteq> QUEUED"
    using l by (cases "tk_state t") (auto simp: later_row_def)
  moreover have "tk_state v \<in> may_reach (tk_state t)"
    using l m may_reach_trans[of "tk_state u" "tk_state t" "tk_state v"] by (simp add: later_row_def moved_row_def)
  ultimately show ?thesis
    using l m by (auto simp: later_row_def moved_row_def)
qed

lemma moved_table_ok: "moved_table (print_tasks db) (print_tasks db') \<Longrightarrow> tasks_ok db \<Longrightarrow> tasks_ok db'"
  by (auto simp: moved_table_def tasks_ok_def)

lemma run_later:
  assumes "task_step\<^sup>*\<^sup>* db db'" and "tasks_ok db" and "t \<in> set (print_tasks db)"
  shows "tasks_ok db' \<and> (\<exists>t' \<in> set (print_tasks db'). later_row t t')"
  using assms
proof (induction rule: rtranclp_induct)
  case base
  then show ?case using later_row_refl by blast
next
  case (step db1 db2)
  then obtain u where u: "u \<in> set (print_tasks db1)" "later_row t u" and ok: "tasks_ok db1" by blast
  have m: "moved_table (print_tasks db1) (print_tasks db2)"
    by (rule task_step_moved[OF step.hyps(2) ok])
  then obtain us new where us: "print_tasks db2 = us @ new" "list_all2 moved_row (print_tasks db1) us"
    by (auto simp: moved_table_def)
  from u(1) us(2) have "\<exists>v \<in> set us. moved_row u v"
    by (metis in_set_conv_nth list_all2_conv_all_nth)
  then obtain v where "v \<in> set us" "moved_row u v" by blast
  with us u(2) moved_table_ok[OF m ok] later_row_step show ?case by auto
qed

lemma run_row:
  assumes "task_step\<^sup>*\<^sup>* db db'" and "tasks_ok db" and "t \<in> set (print_tasks db)"
    and "t' \<in> set (print_tasks db')" and "tk_id t' = tk_id t"
  shows "later_row t t'"
proof -
  from run_later[OF assms(1-3)] obtain u where u: "tasks_ok db'" "u \<in> set (print_tasks db')" "later_row t u"
    by blast
  have "t' = u"
    using distinct_key_eq[of tk_id "print_tasks db'" u t'] u assms(4,5)
    by (simp add: tasks_ok_def later_row_def)
  with u(3) show ?thesis by simp
qed

text \<open>What a report, a start or a confirmation of a task that is out of the machine's hands is told.\<close>

definition hears_nothing :: "print_task \<Rightarrow> 'a printing_db_scheme \<Rightarrow> bool" where
  "hears_nothing t db \<longleftrightarrow> (\<forall>consume moved used code msg reason now.
     start_printing moved t now db = Inl (Conflict TASK_ALREADY_FINISHED)
   \<and> report_printed consume moved t used now db = Inl (Conflict TASK_ALREADY_FINISHED)
   \<and> report_failed consume moved t used code msg now db = Inl (Conflict TASK_ALREADY_FINISHED)
   \<and> report_blocked t reason msg now db = Inl (Conflict TASK_ALREADY_FINISHED)
   \<and> (tk_state t \<noteq> TASK_FAILED \<longrightarrow> confirm_printed consume moved t now db = Inl (Conflict NOT_FAILED)))"

lemma finished_hears_nothing: "tk_state t \<in> {PRINTED, TASK_FAILED, CANCELLED} \<Longrightarrow> hears_nothing t db"
  by (auto simp: hears_nothing_def start_printing_def report_printed_def report_failed_def report_blocked_def
      confirm_printed_def require_in_hand_def TERMINAL_TASK_STATES_def)

text \<open>A claim hands out rows of the table, as they stand once claimed.\<close>

lemma claim_of_row:
  assumes "claim_next_task locked k now db = (Some u, db')" and "tasks_ok db" and "t \<in> set (print_tasks db)" and "tk_id u = tk_id t"
  shows "tk_state t = QUEUED \<and> tk_kiosk_id t = k \<and> u = claimed_task now t \<and> u \<in> set (print_tasks db')"
proof -
  obtain v where v: "v \<in> set (print_tasks db)" "tk_kiosk_id v = k" "tk_state v = QUEUED" "u = claimed_task now v" "db' = save_task u db"
    using claim_SomeD[OF assms(1)] by blast
  then have "t = v" using distinct_key_eq[of tk_id "print_tasks db" v t] assms(2-4) by (simp add: tasks_ok_def)
  with v show ?thesis by (auto simp: set_put_row image_iff)
qed

text \<open>
  C14. Nobody prints a task twice: along any run of claims, heartbeats, sweeps, reports and
  confirmations, in any order and however often repeated, a task keeps its row, its kiosk and its document
  and only moves on, from the queue to a machine, from there to an outcome, and from a failure at most
  to printed; its attempts grow by one when it leaves the queue and never again. A claim made after
  the run hands it out only if it was and is still queued, to its own kiosk, as the first attempt since, and no claim of any
  kiosk after that, however much later, hands it out again. Once it is printed, failed or cancelled
  every further report about it is refused as already finished.
\<close>

theorem task_handed_out_at_most_once:
  assumes "task_step\<^sup>*\<^sup>* db db'" and "tasks_ok db" and "t \<in> set (print_tasks db)"
    and "t' \<in> set (print_tasks db')" and "tk_id t' = tk_id t"
  shows "tk_attempts t' = tk_attempts t + (if tk_state t = QUEUED \<and> tk_state t' \<noteq> QUEUED then 1 else 0)
    \<and> tk_kiosk_id t' = tk_kiosk_id t \<and> tk_document_id t' = tk_document_id t
    \<and> tk_state t' \<in> (case tk_state t of
          QUEUED \<Rightarrow> {QUEUED, SENT_TO_DEVICE, TASK_PRINTING, PRINTED, TASK_FAILED, BLOCKED}
        | SENT_TO_DEVICE \<Rightarrow> {SENT_TO_DEVICE, TASK_PRINTING, PRINTED, TASK_FAILED, BLOCKED}
        | TASK_PRINTING \<Rightarrow> {TASK_PRINTING, PRINTED, TASK_FAILED, BLOCKED}
        | TASK_FAILED \<Rightarrow> {TASK_FAILED, PRINTED}
        | final \<Rightarrow> {final})
    \<and> (tk_state t' \<in> {PRINTED, TASK_FAILED, CANCELLED} \<longrightarrow> hears_nothing t' db')
    \<and> (\<forall>locked k now u db1. claim_next_task locked k now db' = (Some u, db1) \<and> tk_id u = tk_id t \<longrightarrow>
          tk_state t = QUEUED \<and> tk_state t' = QUEUED \<and> k = tk_kiosk_id t \<and> tk_attempts u = tk_attempts t + 1 \<and> tk_state u = SENT_TO_DEVICE
        \<and> (\<forall>db2 locked2 k2 later v db3. task_step\<^sup>*\<^sup>* db1 db2 \<and> claim_next_task locked2 k2 later db2 = (Some v, db3) \<longrightarrow> tk_id v \<noteq> tk_id t))"
proof -
  note later = run_row[OF assms]
  have ok': "tasks_ok db'" using run_later[OF assms(1-3)] by blast
  have claim: "tk_state t = QUEUED \<and> tk_state t' = QUEUED \<and> k = tk_kiosk_id t \<and> tk_attempts u = tk_attempts t + 1 \<and> tk_state u = SENT_TO_DEVICE
      \<and> (\<forall>db2 locked2 k2 later v db3. task_step\<^sup>*\<^sup>* db1 db2 \<and> claim_next_task locked2 k2 later db2 = (Some v, db3) \<longrightarrow> tk_id v \<noteq> tk_id t)"
    if c: "claim_next_task locked k now db' = (Some u, db1)" "tk_id u = tk_id t" for locked k now u db1
  proof -
    note r = claim_of_row[OF c(1) ok' assms(4)]
    have u: "tk_state t' = QUEUED" "tk_kiosk_id t' = k" "u = claimed_task now t'" "u \<in> set (print_tasks db1)"
      using r c(2) assms(5) by auto
    have q: "tk_state t = QUEUED" using later u(1) by (cases "tk_state t") (auto simp: later_row_def)
    have ok1: "tasks_ok db1" using task_step_moved[OF Claimed[OF c(1)] ok'] ok' by (rule moved_table_ok)
    have "tk_id v \<noteq> tk_id t" if r2: "task_step\<^sup>*\<^sup>* db1 db2" and c2: "claim_next_task locked2 k2 lt db2 = (Some v, db3)" for db2 locked2 k2 lt v db3
    proof
      assume same: "tk_id v = tk_id t"
      from run_later[OF r2 ok1 u(4)] obtain w where w: "tasks_ok db2" "w \<in> set (print_tasks db2)" "later_row u w" by blast
      then have "tk_id v = tk_id w" using same c(2) by (simp add: later_row_def)
      from claim_of_row[OF c2 w(1,2) this] have "tk_state w = QUEUED" by blast
      then show False using w(3) u(3) by (simp add: later_row_def)
    qed
    with u q later show ?thesis by (auto simp: later_row_def)
  qed
  have "tk_state t' \<in> may_reach (tk_state t)" using later by (simp add: later_row_def)
  then have "tk_state t' \<in> (case tk_state t of
          QUEUED \<Rightarrow> {QUEUED, SENT_TO_DEVICE, TASK_PRINTING, PRINTED, TASK_FAILED, BLOCKED}
        | SENT_TO_DEVICE \<Rightarrow> {SENT_TO_DEVICE, TASK_PRINTING, PRINTED, TASK_FAILED, BLOCKED}
        | TASK_PRINTING \<Rightarrow> {TASK_PRINTING, PRINTED, TASK_FAILED, BLOCKED}
        | TASK_FAILED \<Rightarrow> {TASK_FAILED, PRINTED}
        | final \<Rightarrow> {final})" by (cases "tk_state t") simp_all
  moreover note finished_hears_nothing[of t' db']
  ultimately show ?thesis using later claim unfolding later_row_def by blast
qed

lemma claim_example_step:
  "task_step (printing_blank\<lparr>print_tasks := [task_example]\<rparr>)
     (printing_blank\<lparr>print_tasks := [claimed_task 20 task_example]\<rparr>)"
  by (rule Claimed[of "{}" 1 20 _ "Some (claimed_task 20 task_example)"])
    (simp add: claim_next_task_def queue_at_def task_example_def Let_def save_task_def)

theorem task_handed_out_at_most_once_witness:
  "tk_attempts (claimed_task 20 task_example) = 1
   \<and> (\<forall>locked k now. case fst (claim_next_task locked k now (printing_blank\<lparr>print_tasks := [claimed_task 20 task_example]\<rparr>)) of
        None \<Rightarrow> True | Some u \<Rightarrow> tk_id u \<noteq> tk_id task_example)"
proof -
  let ?t = "claimed_task 20 task_example"
  let ?db = "printing_blank\<lparr>print_tasks := [task_example]\<rparr>" and ?db' = "printing_blank\<lparr>print_tasks := [?t]\<rparr>"
  have t: "tasks_ok ?db" "task_example \<in> set (print_tasks ?db)" "?t \<in> set (print_tasks ?db')" "tk_id ?t = tk_id task_example"
    "tk_state ?t \<noteq> QUEUED" by (simp_all add: tasks_ok_def)
  have one: "tk_state task_example = QUEUED" "tk_attempts task_example = 0" by (simp_all add: task_example_def)
  have "task_step\<^sup>*\<^sup>* ?db ?db'" using claim_example_step by (rule r_into_rtranclp)
  note h = task_handed_out_at_most_once[OF this t(1-4)]
  have "tk_attempts ?t = 1" using h one t(5) by simp
  moreover have "tk_id u \<noteq> tk_id task_example" if "fst (claim_next_task locked k now ?db') = Some u" for locked k now u
    using h t(5) that by (metis prod.collapse)
  ultimately show ?thesis by (simp split: option.split)
qed

text \<open>
  (Property). BLOCKED is a dead end: the comment of \<^verbatim>\<open>report_blocked\<close> says the task runs once the tray is
  filled, but no operation of the module takes a task out of BLOCKED, so along every run it stays
  blocked and its sheets stay committed; and no task is ever cancelled.
\<close>

theorem blocked_is_absorbing:
  assumes "task_step\<^sup>*\<^sup>* db db'" and "tasks_ok db" and "t \<in> set (print_tasks db)"
    and "t' \<in> set (print_tasks db')" and "tk_id t' = tk_id t"
  shows "(tk_state t = BLOCKED \<longrightarrow> tk_state t' = BLOCKED
        \<and> t' \<in> set (filter (\<lambda>u. tk_kiosk_id u = tk_kiosk_id t \<and> tk_state u \<notin> TERMINAL_TASK_STATES) (print_tasks db'))
        \<and> tk_predicted_sheets t' = tk_predicted_sheets t)
    \<and> (tk_state t' = CANCELLED \<longrightarrow> tk_state t = CANCELLED)"
proof -
  from run_later[OF assms(1-3)] obtain u where u: "tasks_ok db'" "u \<in> set (print_tasks db')" "later_row t u"
    by blast
  have "t' = u"
    using distinct_key_eq[of tk_id "print_tasks db'" u t'] u assms(4,5)
    by (simp add: tasks_ok_def later_row_def)
  with u show ?thesis
    by (cases "tk_state t") (auto simp: later_row_def TERMINAL_TASK_STATES_def)
qed

theorem blocked_is_absorbing_witness:
  "\<not> task_step (printing_blank\<lparr>print_tasks := [task_example\<lparr>tk_state := BLOCKED\<rparr>]\<rparr>)
       (printing_blank\<lparr>print_tasks := [task_example]\<rparr>)"
  using blocked_is_absorbing[OF r_into_rtranclp[of task_step],
      of "printing_blank\<lparr>print_tasks := [task_example\<lparr>tk_state := BLOCKED\<rparr>]\<rparr>"
        "printing_blank\<lparr>print_tasks := [task_example]\<rparr>" "task_example\<lparr>tk_state := BLOCKED\<rparr>" task_example]
  by (auto simp: tasks_ok_def task_example_def)

section \<open>What the reports rely on of the paper ledger\<close>

definition sheets_gone :: "int \<Rightarrow> int option \<Rightarrow> int" where
  "sheets_gone predicted actual = (case actual of Some n \<Rightarrow> n | None \<Rightarrow> predicted)"

locale paper_ledger =
  fixes consume :: "'a printing_db_scheme paper_ledger"
    and left :: "'a printing_db_scheme \<Rightarrow> int"
    and sane :: "'a printing_db_scheme \<Rightarrow> bool"
    and here :: nat
  assumes accepts: "sane s \<Longrightarrow> 0 \<le> sheets_gone p a \<Longrightarrow> \<exists>s'. consume here p a r s = Inr s'"
    and elsewhere: "k \<noteq> here \<Longrightarrow> \<exists>e. consume k p a r s = Inl e"
    and takes: "sane s \<Longrightarrow> consume k p a r s = Inr s' \<Longrightarrow>
      sane s' \<and> left s' = max 0 (left s - sheets_gone p a) \<and> print_tasks s' = print_tasks s"
    and nonneg: "sane s \<Longrightarrow> 0 \<le> left s"
    and own_table: "sane (save_task t s) = sane s" "left (save_task t s) = left s"
begin

definition minds_orders :: "'a printing_db_scheme task_outcome \<Rightarrow> bool" where
  "minds_orders moved \<longleftrightarrow>
     (\<forall>t s. left (moved t s) = left s \<and> sane (moved t s) = sane s \<and> print_tasks (moved t s) = print_tasks s)"

lemma no_outcome_minds: "minds_orders no_outcome"
  by (simp add: minds_orders_def no_outcome_def)

lemma printed_takes_once:
  assumes "sane db" and "minds_orders moved"
    and "report_printed consume moved t used now db = Inr (t', db')"
  shows "left db' = max 0 (left db - sheets_gone (tk_predicted_sheets t) used) \<and> sane db'
    \<and> print_tasks db' = put_row tk_id t' (print_tasks db) \<and> tk_state t' = PRINTED
    \<and> report_printed consume moved t' again later db' = Inl (Conflict TASK_ALREADY_FINISHED)
    \<and> report_failed consume moved t' again code msg later db' = Inl (Conflict TASK_ALREADY_FINISHED)"
proof -
  note sh = report_printed_shape[OF assms(3)]
  obtain db1 where c: "consume (tk_kiosk_id t) (tk_predicted_sheets t) used (tk_public_id t) (save_task t' db) = Inr db1"
    and db': "db' = moved t' db1" using sh by blast
  have "sane (save_task t' db)" using assms(1) own_table by simp
  note tk = takes[OF this c]
  have fin: "require_in_hand t' = Inl (Conflict TASK_ALREADY_FINISHED)"
    using sh by (simp add: require_in_hand_error TERMINAL_TASK_STATES_def IN_HAND_def)
  show ?thesis
    using tk sh assms(2) fin own_table
    by (simp add: db' minds_orders_def report_printed_def report_failed_def)
qed

lemma failed_takes_reported:
  assumes "sane db" and "minds_orders moved"
    and "report_failed consume moved t used code msg now db = Inr (t', db')"
  shows "left db' = max 0 (left db - (case used of None \<Rightarrow> 0 | Some n \<Rightarrow> n)) \<and> sane db'
    \<and> print_tasks db' = put_row tk_id t' (print_tasks db)"
proof -
  note sh = report_failed_shape[OF assms(3)]
  obtain db1 where c: "consume (tk_kiosk_id t) (tk_predicted_sheets t)
      (Some (case used of None \<Rightarrow> 0 | Some n \<Rightarrow> n)) (tk_public_id t) (save_task t' db) = Inr db1"
    and db': "db' = moved t' db1" using sh by blast
  have "sane (save_task t' db)" using assms(1) own_table by simp
  from takes[OF this c] show ?thesis
    using assms(2) own_table by (simp add: db' minds_orders_def sheets_gone_def)
qed

lemma failed_then_confirmed:
  assumes "sane db" and "minds_orders moved" and "minds_orders moved2"
    and f: "report_failed consume moved t used code msg now db = Inr (t1, db1)"
    and c: "confirm_printed consume moved2 t1 later db1 = Inr (t2, db2)"
  shows "left db2 = max 0 (left db - max (case used of None \<Rightarrow> 0 | Some n \<Rightarrow> n) (tk_predicted_sheets t))
    \<and> tk_state t2 = PRINTED \<and> sane db2
    \<and> confirm_printed consume moved2 t2 later2 db2 = Inl (Conflict NOT_FAILED)"
proof -
  define u where "u = (case used of None \<Rightarrow> 0 | Some n \<Rightarrow> n)"
  note sf = report_failed_shape[OF f] and sc = confirm_printed_shape[OF c]
  have u0: "0 \<le> u"
    using f by (auto simp: report_failed_def bind_res_Inr_iff u_def split: option.splits)
  note one = failed_takes_reported[OF assms(1,2) f, folded u_def]
  have act: "(case tk_actual_sheets t1 of None \<Rightarrow> 0 | Some n \<Rightarrow> n) = u"
    using sf by (simp add: u_def)
  have pred: "tk_predicted_sheets t1 = tk_predicted_sheets t" using sf by (simp add: moved_row_def)
  define r where "r = max 0 (tk_predicted_sheets t - u)"
  obtain db3 where d3: "(if r \<noteq> 0 then consume (tk_kiosk_id t1) r (Some r) (confirmed_reference t1) (save_task t2 db1)
      else Inr (save_task t2 db1)) = Inr db3" and db2: "db2 = moved2 t2 db3"
    using sc unfolding act pred Let_def r_def by blast
  have s: "sane (save_task t2 db1)" using one own_table by simp
  have three: "left db3 = max 0 (left db1 - r) \<and> sane db3"
  proof (cases "r = 0")
    case True
    then show ?thesis using d3 one own_table nonneg[of db1] by auto
  next
    case False
    then have "consume (tk_kiosk_id t1) r (Some r) (confirmed_reference t1) (save_task t2 db1) = Inr db3"
      using d3 by simp
    from takes[OF s this] show ?thesis by (simp add: own_table sheets_gone_def)
  qed
  have "left db2 = max 0 (left db - max u (tk_predicted_sheets t)) \<and> sane db2"
    using three one assms(3) u0 by (auto simp: db2 r_def minds_orders_def max_def)
  moreover have "tk_state t2 = PRINTED" using sc by blast
  ultimately show ?thesis by (simp add: confirm_printed_def u_def)
qed

end

end
