(* ===== verification/PaperAdapter.thy ===== *)
theory PaperAdapter
  imports PrintTasks Paper
begin

text \<open>
  \<^verbatim>\<open>KioskPaperLedger\<close> of \<^verbatim>\<open>app/api/deps.py\<close>: printing's paper ledger over one kiosk's tray, and what
  the device's reports do to that tray_ledger.
\<close>

definition ANOTHER_KIOSK :: string where
  "ANOTHER_KIOSK = ''That print job belongs to a different kiosk.''"

definition kiosk_paper_ledger :: "kiosk \<Rightarrow> 'a printing_db_scheme paper_ledger" where
  "kiosk_paper_ledger k kiosk_id predicted actual reference db =
     (if kiosk_id \<noteq> ki_id k then Inl (Forbidden ANOTHER_KIOSK)
      else bind_res (consume_paper k predicted actual (Some reference) db) (\<lambda>(_, db1). Inr db1))"

lemma print_tasks_paper [simp]:
  "consume_paper k p a r db = Inr (n, db') \<Longrightarrow> print_tasks db' = print_tasks db"
  by (auto simp: consume_paper_def bind_res_Inr_iff Let_def log_paper_def record_audit_def save_paper_def
      paper_row_def split: prod.splits option.splits)

lemma paper_own_table [simp]:
  "papers_ok (save_task t s) = papers_ok s" "remaining k (save_task t s) = remaining k s"
  by (simp_all add: papers_ok_def save_task_def remaining_def tray_def paper_row_def Let_def split: option.split)

lemma remaining_nonneg: "0 \<le> remaining k s"
  by (simp add: remaining_def left_in_def)

interpretation tray_ledger: paper_ledger "kiosk_paper_ledger k" "remaining k" papers_ok "ki_id k" for k
proof unfold_locales
  fix s :: "'a printing_db_scheme" and p a r
  assume "papers_ok s" "0 \<le> sheets_gone p a"
  then show "\<exists>s'. kiosk_paper_ledger k (ki_id k) p a r s = Inr s'"
    using consume_paper_total[of p a k "Some r" s]
    by (auto simp: kiosk_paper_ledger_def sheets_gone_def split: option.splits)
next
  fix s s' :: "'a printing_db_scheme" and j p a r
  assume "papers_ok s" "kiosk_paper_ledger k j p a r s = Inr s'"
  then show "papers_ok s' \<and> remaining k s' = max 0 (remaining k s - sheets_gone p a)
      \<and> print_tasks s' = print_tasks s"
    by (auto simp: kiosk_paper_ledger_def bind_res_Inr_iff paper_changed_def sheets_gone_def
        split: if_splits dest: consume_paper_changed[of s])
qed (simp_all add: kiosk_paper_ledger_def remaining_nonneg)

text \<open>The outcome changes neither trays nor tasks: \<open>minds_orders\<close> of every ledger follows.\<close>

definition leaves_trays :: "'a printing_db_scheme task_outcome \<Rightarrow> bool" where
  "leaves_trays moved \<longleftrightarrow> (\<forall>t s. kiosk_papers (moved t s) = kiosk_papers s \<and> print_tasks (moved t s) = print_tasks s)"

lemma tray_table: "kiosk_papers s' = kiosk_papers s \<Longrightarrow> tray k s' = tray k s"
  by (simp add: tray_def paper_row_def Let_def split: option.split)

lemma leaves_trays_minds: "leaves_trays moved \<Longrightarrow> tray_ledger.minds_orders k moved"
  using tray_table[of "moved t s" s k for t s] by (simp add: leaves_trays_def tray_ledger.minds_orders_def papers_ok_def remaining_def)

lemma tray_save_task [simp]: "tray j (save_task t s) = tray j s"
  by (rule tray_table) (simp add: save_task_def)

text \<open>The ledger of one kiosk writes that kiosk's tray and no other.\<close>

lemma consume_elsewhere:
  assumes "consume_paper k p a r db = Inr (n, db')" and "ki_id j \<noteq> ki_id k"
  shows "tray j db' = tray j db"
proof -
  obtain q qs where q: "paper_row k db = (q, db\<lparr>kiosk_papers := qs\<rparr>)" "kp_kiosk_id q = ki_id k"
    "row_by kp_kiosk_id qs (ki_id j) = row_by kp_kiosk_id (kiosk_papers db) (ki_id j)"
  proof (cases "row_by kp_kiosk_id (kiosk_papers db) (ki_id k)")
    case None
    with assms(2) that show ?thesis by (auto simp: paper_row_def Let_def row_by_append split: option.splits)
  next
    case (Some x)
    with row_by_SomeD[OF Some] that[of x "kiosk_papers db"] show ?thesis by (simp add: paper_row_def)
  qed
  then obtain q' where "kiosk_papers db' = put_row kp_kiosk_id q' qs" "kp_kiosk_id q' = ki_id k"
    using assms(1) by (auto simp: consume_paper_def bind_res_Inr_iff Let_def log_paper_def record_audit_def save_paper_def case_prod_beta)
  then have "row_by kp_kiosk_id (kiosk_papers db') (ki_id j) = row_by kp_kiosk_id (kiosk_papers db) (ki_id j)"
    using q(3) assms(2) by (simp add: row_by_put_row)
  then show ?thesis by (simp add: tray_def paper_row_def Let_def split: option.split)
qed

lemma ledger_elsewhere:
  "kiosk_paper_ledger k i p a r db = Inr db' \<Longrightarrow> ki_id j \<noteq> ki_id k \<Longrightarrow> tray j db' = tray j db"
  using consume_elsewhere[of k p a "Some r" db _ db' j] by (auto simp: kiosk_paper_ledger_def bind_res_Inr_iff split: if_splits)

lemma printed_elsewhere:
  assumes "report_printed (kiosk_paper_ledger k) moved t used now db = Inr (t', db')" and "leaves_trays moved" and "ki_id j \<noteq> ki_id k"
  shows "tray j db' = tray j db"
proof -
  obtain db1 where "kiosk_paper_ledger k (tk_kiosk_id t) (tk_predicted_sheets t) used (tk_public_id t) (save_task t' db) = Inr db1"
    "db' = moved t' db1" using report_printed_shape[OF assms(1)] by blast
  moreover from this have "tray j db1 = tray j (save_task t' db)" using ledger_elsewhere assms(3) by blast
  moreover have "tray j (moved t' db1) = tray j db1" using assms(2) by (intro tray_table) (simp add: leaves_trays_def)
  ultimately show ?thesis by simp
qed

text \<open>
  C15. The tray is debited once per print: an accepted report of a print takes exactly the sheets
  the device counted, or the prediction when it counted none, from the reporting kiosk's tray, and no
  other tray; the same report repeated, or turned into a failure, is refused as already finished and takes
  nothing.
\<close>

theorem print_debits_once:
  assumes "papers_ok db" and "leaves_trays moved"
    and "report_printed (kiosk_paper_ledger k) moved t used now db = Inr (t', db')"
  shows "remaining k db' = max 0 (remaining k db - sheets_gone (tk_predicted_sheets t) used)
    \<and> (\<forall>j. ki_id j \<noteq> ki_id k \<longrightarrow> tray j db' = tray j db)
    \<and> tk_kiosk_id t = ki_id k \<and> papers_ok db' \<and> tk_state t' = PRINTED
    \<and> print_tasks db' = put_row tk_id t' (print_tasks db)
    \<and> report_printed (kiosk_paper_ledger k) moved t' again later db' = Inl (Conflict TASK_ALREADY_FINISHED)
    \<and> report_failed (kiosk_paper_ledger k) moved t' again code msg later db' = Inl (Conflict TASK_ALREADY_FINISHED)"
proof -
  have "tk_kiosk_id t = ki_id k"
    using assms(3) by (auto simp: report_printed_def bind_res_Inr_iff kiosk_paper_ledger_def Let_def split: if_splits)
  moreover have "\<forall>j. ki_id j \<noteq> ki_id k \<longrightarrow> tray j db' = tray j db" using printed_elsewhere[OF assms(3,2)] by blast
  ultimately show ?thesis
    using tray_ledger.printed_takes_once[OF assms(1) leaves_trays_minds[OF assms(2)] assms(3)] by blast
qed

lemma leaves_trays_no_outcome: "leaves_trays no_outcome"
  by (simp add: leaves_trays_def no_outcome_def)

definition sent_example :: print_task where
  "sent_example = claimed_task 20 task_example"

text \<open>A device reporting on a task it holds is always heard.\<close>

lemma ledger_total:
  "0 \<le> sheets_gone p a \<Longrightarrow> \<exists>s'. kiosk_paper_ledger k (ki_id k) p a r s = Inr s'"
  using consume_paper_total[of p a k "Some r" s]
  by (auto simp: kiosk_paper_ledger_def sheets_gone_def split: option.splits)

lemma report_printed_total:
  assumes "tk_state t \<in> IN_HAND" and "tk_kiosk_id t = ki_id k"
    and "0 \<le> sheets_gone (tk_predicted_sheets t) used" and "reject_negative used = Inr ()"
  shows "\<exists>t' db'. report_printed (kiosk_paper_ledger k) moved t used now db = Inr (t', db')"
proof -
  let ?t = "t\<lparr>tk_state := PRINTED, tk_actual_sheets := used, tk_finished_at := Some now, tk_lease_expires_at := None\<rparr>"
  obtain s where "kiosk_paper_ledger k (ki_id k) (tk_predicted_sheets t) used (tk_public_id t) (save_task ?t db) = Inr s"
    using ledger_total[OF assms(3)] by blast
  moreover have "require_in_hand t = Inr ()" using assms(1) by simp
  ultimately show ?thesis
    using assms(2,4) by (simp add: report_printed_def Let_def del: require_in_hand_iff reject_negative_iff)
qed

lemma report_failed_total:
  assumes "tk_state t \<in> IN_HAND" and "tk_kiosk_id t = ki_id k" and "reject_negative used = Inr ()"
  shows "\<exists>t' db'. report_failed (kiosk_paper_ledger k) moved t used code msg now db = Inr (t', db')"
proof -
  let ?c = "case used of None \<Rightarrow> 0 | Some n \<Rightarrow> n"
  let ?t = "t\<lparr>tk_state := TASK_FAILED, tk_actual_sheets := used, tk_error_code := code,
    tk_error_message := msg, tk_finished_at := Some now, tk_lease_expires_at := None\<rparr>"
  have "0 \<le> sheets_gone (tk_predicted_sheets t) (Some ?c)"
    using assms(3) by (auto simp: sheets_gone_def split: option.splits)
  then obtain s where "kiosk_paper_ledger k (ki_id k) (tk_predicted_sheets t) (Some ?c) (tk_public_id t) (save_task ?t db) = Inr s"
    using ledger_total by blast
  moreover have "require_in_hand t = Inr ()" using assms(1) by simp
  ultimately show ?thesis
    using assms(2,3) by (simp add: report_failed_def Let_def del: require_in_hand_iff reject_negative_iff)
qed

lemma confirm_printed_total:
  assumes "tk_state t = TASK_FAILED" and "tk_kiosk_id t = ki_id k"
  shows "\<exists>t' db'. confirm_printed (kiosk_paper_ledger k) moved t now db = Inr (t', db')"
proof -
  define already where "already = (case tk_actual_sheets t of None \<Rightarrow> 0 | Some n \<Rightarrow> n)"
  define rest where "rest = max 0 (tk_predicted_sheets t - already)"
  let ?t = "t\<lparr>tk_state := PRINTED, tk_actual_sheets := Some (max already (tk_predicted_sheets t)),
    tk_error_code := None, tk_error_message := None, tk_finished_at := Some now, tk_lease_expires_at := None\<rparr>"
  have "0 \<le> sheets_gone rest (Some rest)" by (simp add: sheets_gone_def rest_def)
  then obtain s where "kiosk_paper_ledger k (ki_id k) rest (Some rest) (confirmed_reference t) (save_task ?t db) = Inr s"
    using ledger_total by blast
  then show ?thesis
    using assms unfolding confirm_printed_def already_def[symmetric] Let_def rest_def[symmetric] by auto
qed

lemma sent_example_simps [simp]:
  "tk_state sent_example = SENT_TO_DEVICE" "tk_kiosk_id sent_example = 1"
  "tk_predicted_sheets sent_example = 4"
  by (simp_all add: sent_example_def task_example_def)

lemma kiosk_id_example: "ki_id kiosk_example = 1"
  by (simp add: kiosk_example_def)

lemma sent_example_printed:
  "\<exists>t' db'. report_printed (kiosk_paper_ledger kiosk_example) no_outcome sent_example (Some 6) 30
     printing_blank = Inr (t', db')"
  by (rule report_printed_total)
    (simp_all add: IN_HAND_def kiosk_example_def sheets_gone_def reject_negative_def)

lemma printing_blank_tray: "papers_ok printing_blank" "remaining kiosk_example printing_blank = 250"
  by (simp_all add: papers_ok_def printing_blank_def kiosk_example_def remaining_def tray_def
      paper_row_def left_in_def DEFAULT_PAPER_CAPACITY_def Let_def)

theorem print_debits_once_witness:
  "\<exists>t' db'. report_printed (kiosk_paper_ledger kiosk_example) no_outcome sent_example (Some 6) 30
     printing_blank = Inr (t', db') \<and> remaining kiosk_example db' = 244"
proof -
  obtain t' db' where r: "report_printed (kiosk_paper_ledger kiosk_example) no_outcome sent_example
      (Some 6) 30 printing_blank = Inr (t', db')"
    using sent_example_printed by blast
  with print_debits_once[OF printing_blank_tray(1) leaves_trays_no_outcome r] show ?thesis
    by (simp add: printing_blank_tray(2) sheets_gone_def)
qed

text \<open>
  (Property). A failure an operator later confirms as printed takes, in all, what one full print takes:
  the larger of what the device had reported and the prediction, once; confirming again is
  refused.
\<close>

theorem failure_confirmed_debits_once:
  assumes "papers_ok db" and "leaves_trays moved"
    and "report_failed (kiosk_paper_ledger k) moved t used code msg now db = Inr (t1, db1)"
    and "confirm_printed (kiosk_paper_ledger k) moved t1 later db1 = Inr (t2, db2)"
  shows "remaining k db2 =
      max 0 (remaining k db - max (case used of None \<Rightarrow> 0 | Some n \<Rightarrow> n) (tk_predicted_sheets t))
    \<and> tk_state t2 = PRINTED \<and> papers_ok db2
    \<and> confirm_printed (kiosk_paper_ledger k) moved t2 later2 db2 = Inl (Conflict NOT_FAILED)"
  using tray_ledger.failed_then_confirmed[OF assms(1) leaves_trays_minds[OF assms(2)]
      leaves_trays_minds[OF assms(2)] assms(3,4)] by blast

theorem failure_confirmed_debits_once_witness:
  "\<exists>t1 db1 t2 db2. report_failed (kiosk_paper_ledger kiosk_example) no_outcome sent_example (Some 1)
       (Some ''JAM'') None 30 printing_blank = Inr (t1, db1)
     \<and> confirm_printed (kiosk_paper_ledger kiosk_example) no_outcome t1 40 db1 = Inr (t2, db2)
     \<and> remaining kiosk_example db2 = 246"
proof -
  obtain t1 db1 where f: "report_failed (kiosk_paper_ledger kiosk_example) no_outcome sent_example
      (Some 1) (Some ''JAM'') None 30 printing_blank = Inr (t1, db1)"
    using report_failed_total[of sent_example kiosk_example "Some 1" no_outcome "Some ''JAM''" None 30
        printing_blank]
    by (fastforce simp: IN_HAND_def reject_negative_def kiosk_id_example)
  have "tk_state t1 = TASK_FAILED" "tk_kiosk_id t1 = ki_id kiosk_example"
    using report_failed_shape[OF f] by (auto simp: moved_row_def kiosk_example_def)
  then obtain t2 db2 where c: "confirm_printed (kiosk_paper_ledger kiosk_example) no_outcome t1 40 db1 = Inr (t2, db2)"
    using confirm_printed_total by blast
  from failure_confirmed_debits_once[OF printing_blank_tray(1) leaves_trays_no_outcome f c] f c
  show ?thesis by (auto simp: printing_blank_tray(2))
qed

end
