(* ===== verification/Devices.thy ===== *)
theory Devices
  imports Paper Onboarding Identity
begin

text \<open>
  \<^verbatim>\<open>app/modules/kiosks/devices.py\<close>: one-time enrolment codes, the token a kiosk's machine holds,
  and whether the machine is online. Tokens and codes are stored only as \<^verbatim>\<open>sha256_hex\<close> of the
  text, a field of the record of libraries.
\<close>

section \<open>Operations\<close>

definition ENROLMENT_LIFETIME :: datetime where
  "ENROLMENT_LIFETIME = hours 12"

definition HEARTBEAT_WINDOW :: datetime where
  "HEARTBEAT_WINDOW = minutes 5"

definition TOKEN_PREFIX :: string where
  "TOKEN_PREFIX = ''dvt_''"

definition CODE_PREFIX :: string where
  "CODE_PREFIX = ''dve_''"

definition INVALID_CODE :: string where
  "INVALID_CODE = ''That enrolment code is invalid, has expired, or has already been used.''"

definition NOT_A_DEVICE :: string where
  "NOT_A_DEVICE = ''This device is not registered. Re-enrol it from the dashboard.''"

record issued_enrolment =
  ie_code :: string
  ie_expires_at :: datetime

record issued_device =
  id_device :: kiosk_device
  id_token :: string

definition device_of :: "kiosk \<Rightarrow> 'a kiosks_db_scheme \<Rightarrow> kiosk_device option" where
  "device_of k db = first_where (\<lambda>d. kd_kiosk_id d = ki_id k) (kiosk_devices db)"

definition issue_enrolment_code ::
  "crypto \<Rightarrow> kiosk \<Rightarrow> nat option \<Rightarrow> datetime \<Rightarrow> 'a kiosks_db_scheme \<Rightarrow>
   issued_enrolment \<times> 'a kiosks_db_scheme" where
  "issue_enrolment_code cr k created_by now db =
     (let superseded = map (\<lambda>e. if de_kiosk_id e = ki_id k \<and> de_used_at e = None
                                then e\<lparr>de_used_at := Some now\<rparr> else e) (device_enrolments db);
          (letters, db1) = token_urlsafe 24 (db\<lparr>device_enrolments := superseded\<rparr>);
          code = CODE_PREFIX @ letters;
          expires_at = now + ENROLMENT_LIFETIME;
          row = \<lparr>de_id = fresh_key de_id superseded, de_kiosk_id = ki_id k, de_created_by_user_id = created_by,
                 de_code_hash = sha256_hex cr code, de_expires_at = expires_at, de_used_at = None,
                 de_created_at = tx_now db\<rparr>
      in (\<lparr>ie_code = code, ie_expires_at = expires_at\<rparr>, db1\<lparr>device_enrolments := superseded @ [row]\<rparr>))"

definition enrolment_of :: "crypto \<Rightarrow> string \<Rightarrow> 'a kiosks_db_scheme \<Rightarrow> device_enrolment option" where
  "enrolment_of cr code db = first_where (\<lambda>e. de_code_hash e = sha256_hex cr code) (device_enrolments db)"

definition held_elsewhere :: "string option \<Rightarrow> kiosk \<Rightarrow> 'a kiosks_db_scheme \<Rightarrow> kiosk_device option" where
  "held_elsewhere device_key k db =
     (if truthy device_key
      then (case first_where (\<lambda>d. Some (kd_device_key d) = device_key) (kiosk_devices db) of
              None \<Rightarrow> None
            | Some held \<Rightarrow> if kd_kiosk_id held \<noteq> ki_id k then Some held else None)
      else None)"

definition already_enrolled :: "string \<Rightarrow> string" where
  "already_enrolled where_held = ''That machine is already enrolled at '' @ where_held
     @ ''. Unenrol it there first '' @ em_dash @ '' a machine can only serve one kiosk.''"

definition attach_device ::
  "crypto \<Rightarrow> kiosk \<Rightarrow> string option \<Rightarrow> string option \<Rightarrow> string option \<Rightarrow> 'a kiosks_db_scheme \<Rightarrow>
   issued_device \<times> 'a kiosks_db_scheme" where
  "attach_device cr k device_key agent_version capabilities db =
     (let (letters, db1) = token_urlsafe 32 db;
          token = TOKEN_PREFIX @ letters
      in case device_of k db1 of
           Some existing \<Rightarrow>
             let d = existing\<lparr>kd_token_hash := sha256_hex cr token,
                              kd_device_key := (if truthy device_key then the device_key else kd_device_key existing),
                              kd_agent_version := or_else agent_version (kd_agent_version existing),
                              kd_capabilities := or_else capabilities (kd_capabilities existing),
                              kd_status := DEV_OFFLINE, kd_last_heartbeat_at := None\<rparr>
             in (\<lparr>id_device = d, id_token = token\<rparr>,
                 db1\<lparr>kiosk_devices := put_row kd_id d (kiosk_devices db1)\<rparr>)
         | None \<Rightarrow>
             let (key, db2) = (if truthy device_key then (the device_key, db1) else token_hex 16 db1);
                 (pid, db3) = mint DEVICE db2;
                 d = \<lparr>kd_id = fresh_key kd_id (kiosk_devices db3), kd_public_id = pid,
                      kd_kiosk_id = ki_id k, kd_device_key = key, kd_token_hash = sha256_hex cr token,
                      kd_status = DEV_OFFLINE, kd_capabilities = capabilities,
                      kd_agent_version = agent_version, kd_ssh_host = None, kd_update_status = None,
                      kd_last_heartbeat_at = None, kd_stuck_since = None, kd_created_at = tx_now db3\<rparr>
             in (\<lparr>id_device = d, id_token = token\<rparr>, db3\<lparr>kiosk_devices := kiosk_devices db3 @ [d]\<rparr>))"

definition register_device ::
  "crypto \<Rightarrow> string \<Rightarrow> string option \<Rightarrow> string option \<Rightarrow> string option \<Rightarrow> datetime \<Rightarrow>
   'a kiosks_db_scheme \<Rightarrow> (issued_device \<times> 'a kiosks_db_scheme) result" where
  "register_device cr code device_key agent_version capabilities now db =
     (case enrolment_of cr code db of
        None \<Rightarrow> Inl (BadRequest INVALID_CODE)
      | Some row \<Rightarrow>
          if de_used_at row \<noteq> None \<or> de_expires_at row \<le> now then Inl (BadRequest INVALID_CODE)
          else
            let db1 = db\<lparr>device_enrolments :=
                  put_row de_id (row\<lparr>de_used_at := Some now\<rparr>) (device_enrolments db)\<rparr> in
            case kiosk_row (de_kiosk_id row) db1 of
              None \<Rightarrow> Inl (BadRequest INVALID_CODE)
            | Some k \<Rightarrow>
                if ki_stage k = RETIRED then Inl (BadRequest INVALID_CODE)
                else
                  (case held_elsewhere device_key k db1 of
                     Some held \<Rightarrow>
                       Inl (Conflict (already_enrolled
                         (case kiosk_row (kd_kiosk_id held) db1 of
                            Some elsewhere \<Rightarrow> ki_name elsewhere | None \<Rightarrow> ''another kiosk'')))
                   | None \<Rightarrow> Inr (attach_device cr k device_key agent_version capabilities db1)))"

definition rotate_token ::
  "crypto \<Rightarrow> kiosk_device \<Rightarrow> 'a kiosks_db_scheme \<Rightarrow> string \<times> kiosk_device \<times> 'a kiosks_db_scheme" where
  "rotate_token cr d db =
     (let (letters, db1) = token_urlsafe 32 db;
          token = TOKEN_PREFIX @ letters;
          d' = d\<lparr>kd_token_hash := sha256_hex cr token\<rparr>
      in (token, d', db1\<lparr>kiosk_devices := put_row kd_id d' (kiosk_devices db1)\<rparr>))"

definition revoke_device :: "kiosk \<Rightarrow> 'a kiosks_db_scheme \<Rightarrow> 'a kiosks_db_scheme" where
  "revoke_device k db =
     db\<lparr>kiosk_devices := filter (\<lambda>d. kd_kiosk_id d \<noteq> ki_id k) (kiosk_devices db)\<rparr>"

definition authenticate_device ::
  "crypto \<Rightarrow> string option \<Rightarrow> 'a kiosks_db_scheme \<Rightarrow> kiosk_device result" where
  "authenticate_device cr token db =
     (case token of
        None \<Rightarrow> Inl (Unauthorized NOT_A_DEVICE)
      | Some t \<Rightarrow>
          if strip t = [] then Inl (Unauthorized NOT_A_DEVICE)
          else
            (case first_where (\<lambda>d. kd_token_hash d = sha256_hex cr t) (kiosk_devices db) of
               None \<Rightarrow> Inl (Unauthorized NOT_A_DEVICE)
             | Some d \<Rightarrow>
                 (case kiosk_row (kd_kiosk_id d) db of
                    None \<Rightarrow> Inl (Unauthorized NOT_A_DEVICE)
                  | Some k \<Rightarrow>
                      if ki_stage k = RETIRED then Inl (Unauthorized NOT_A_DEVICE) else Inr d)))"

definition record_heartbeat ::
  "kiosk_device \<Rightarrow> string option \<Rightarrow> string option \<Rightarrow> device_status \<Rightarrow> datetime \<Rightarrow>
   'a kiosks_db_scheme \<Rightarrow> kiosk_device \<times> 'a kiosks_db_scheme" where
  "record_heartbeat d agent_version ssh_host status now db =
     (let d' = d\<lparr>kd_last_heartbeat_at := Some now, kd_status := status,
                 kd_agent_version := or_else agent_version (kd_agent_version d),
                 kd_ssh_host := or_else ssh_host (kd_ssh_host d)\<rparr>
      in (d', db\<lparr>kiosk_devices := put_row kd_id d' (kiosk_devices db)\<rparr>))"

definition is_online :: "kiosk_device option \<Rightarrow> datetime \<Rightarrow> bool" where
  "is_online device now =
     (case device of
        None \<Rightarrow> False
      | Some d \<Rightarrow> (case kd_last_heartbeat_at d of None \<Rightarrow> False | Some t \<Rightarrow> now - t \<le> HEARTBEAT_WINDOW))"

text \<open>\<^verbatim>\<open>kiosks/repository.py\<close>: the shop a machine belongs to.\<close>

definition NO_SUCH_KIOSK :: string where
  "NO_SUCH_KIOSK = ''That kiosk does not exist.''"

definition kiosk_of_device :: "kiosk_device \<Rightarrow> 'a kiosks_db_scheme \<Rightarrow> kiosk result" where
  "kiosk_of_device d db =
     (case kiosk_row (kd_kiosk_id d) db of None \<Rightarrow> Inl (NotFound NO_SUCH_KIOSK) | Some k \<Rightarrow> Inr k)"

section \<open>The tables\<close>

definition devices_ok :: "'a kiosks_db_scheme \<Rightarrow> bool" where
  "devices_ok db \<longleftrightarrow> distinct (map kd_id (kiosk_devices db)) \<and> distinct (map kd_kiosk_id (kiosk_devices db))
     \<and> distinct (map kd_token_hash (kiosk_devices db))"

definition codes_ok :: "'a kiosks_db_scheme \<Rightarrow> bool" where
  "codes_ok db \<longleftrightarrow> distinct (map de_id (device_enrolments db)) \<and> distinct (map de_code_hash (device_enrolments db))"

lemma letters_shape:
  "token_urlsafe n db = (s, db') \<Longrightarrow> \<exists>m. db' = db\<lparr>drawn := m\<rparr>"
  "token_hex n db = (s, db') \<Longrightarrow> \<exists>m. db' = db\<lparr>drawn := m\<rparr>"
  "mint p db = (s, db') \<Longrightarrow> \<exists>m. db' = db\<lparr>drawn := m\<rparr>"
  by (auto simp: token_urlsafe_def token_hex_def draw_letters_def mint_def)

lemma strip_eq_Nil: "strip s = [] \<longleftrightarrow> (\<forall>c \<in> set s. is_space c)"
proof -
  have "dropWhile is_space s = []" if all: "\<forall>c \<in> set (dropWhile is_space s). is_space c"
  proof (rule ccontr)
    assume n: "dropWhile is_space s \<noteq> []"
    then have "\<not> is_space (hd (dropWhile is_space s))" by (rule hd_dropWhile)
    with n all show False by simp
  qed
  moreover have "strip s = [] \<longleftrightarrow> (\<forall>c \<in> set (dropWhile is_space s). is_space c)"
    by (simp add: strip_def)
  moreover have "dropWhile is_space s = [] \<longleftrightarrow> (\<forall>c \<in> set s. is_space c)" by simp
  ultimately show ?thesis by (metis empty_iff list.set(1))
qed

lemma token_is_text: "strip (TOKEN_PREFIX @ s) \<noteq> []"
  by (auto simp: strip_eq_Nil TOKEN_PREFIX_def is_space_def)

lemma device_ofD: "device_of k db = Some d \<Longrightarrow> d \<in> set (kiosk_devices db) \<and> kd_kiosk_id d = ki_id k"
  by (auto simp: device_of_def dest: first_where_SomeD)

lemma authenticate_iff:
  assumes "distinct (map kd_token_hash (kiosk_devices db))"
  shows "authenticate_device cr (Some t) db = Inr d \<longleftrightarrow>
    strip t \<noteq> [] \<and> d \<in> set (kiosk_devices db) \<and> kd_token_hash d = sha256_hex cr t
    \<and> (\<exists>k. kiosk_row (kd_kiosk_id d) db = Some k \<and> ki_stage k \<noteq> RETIRED)"
    (is "_ \<longleftrightarrow> ?r")
proof
  assume "authenticate_device cr (Some t) db = Inr d"
  then show ?r by (auto simp: authenticate_device_def dest: first_where_SomeD split: option.splits if_splits)
next
  assume r: ?r
  then have "first_where (\<lambda>x. kd_token_hash x = sha256_hex cr t) (kiosk_devices db) = Some d"
    using first_where_unique[OF assms, of d] by simp
  with r show "authenticate_device cr (Some t) db = Inr d" by (auto simp: authenticate_device_def)
qed

lemma authenticate_refused:
  assumes "\<And>d. authenticate_device cr t db \<noteq> Inr d"
  shows "authenticate_device cr t db = Inl (Unauthorized NOT_A_DEVICE)"
proof (rule ccontr)
  assume "authenticate_device cr t db \<noteq> Inl (Unauthorized NOT_A_DEVICE)"
  then have "\<exists>d. authenticate_device cr t db = Inr d"
    by (auto simp: authenticate_device_def split: option.splits if_splits)
  with assms show False by blast
qed

text \<open>What attaching a machine does: its shop has that machine and no other, nothing else moved.\<close>

definition attached :: "kiosk \<Rightarrow> kiosk_device \<Rightarrow> 'a kiosks_db_scheme \<Rightarrow> 'a kiosks_db_scheme \<Rightarrow> bool" where
  "attached k d db db' \<longleftrightarrow> kd_kiosk_id d = ki_id k
     \<and> set (kiosk_devices db') = insert d {x \<in> set (kiosk_devices db). kd_kiosk_id x \<noteq> ki_id k}
     \<and> kiosks db' = kiosks db \<and> device_enrolments db' = device_enrolments db"

lemma attach_device_attached:
  assumes ok: "devices_ok db"
    and at: "attach_device cr k key version caps db = (iss, db')"
  shows "attached k (id_device iss) db db'" and "kd_token_hash (id_device iss) = sha256_hex cr (id_token iss)"
    and "strip (id_token iss) \<noteq> []"
    and "sha256_hex cr (id_token iss) \<notin> kd_token_hash ` set (kiosk_devices db) \<Longrightarrow> devices_ok db'"
proof -
  obtain letters db1 where l: "token_urlsafe 32 db = (letters, db1)" by fastforce
  obtain m where db1: "db1 = db\<lparr>drawn := m\<rparr>" using letters_shape(1)[OF l] by blast
  have "attached k (id_device iss) db db' \<and> kd_token_hash (id_device iss) = sha256_hex cr (id_token iss)
      \<and> strip (id_token iss) \<noteq> []
      \<and> (sha256_hex cr (id_token iss) \<notin> kd_token_hash ` set (kiosk_devices db) \<longrightarrow> devices_ok db')"
  proof (cases "device_of k db1")
    case (Some old)
    then have old: "old \<in> set (kiosk_devices db)" "kd_kiosk_id old = ki_id k"
      using device_ofD[OF Some] by (auto simp: db1)
    have same: "x = old" if "x \<in> set (kiosk_devices db)" "kd_id x = kd_id old \<or> kd_kiosk_id x = ki_id k" for x
      using that old ok distinct_key_eq[of kd_id "kiosk_devices db" old x]
        distinct_key_eq[of kd_kiosk_id "kiosk_devices db" old x] by (auto simp: devices_ok_def)
    let ?d = "id_device iss"
    have d: "kd_id ?d = kd_id old" "kd_kiosk_id ?d = ki_id k"
      "kd_token_hash ?d = sha256_hex cr (id_token iss)" "strip (id_token iss) \<noteq> []"
      "db' = db1\<lparr>kiosk_devices := put_row kd_id ?d (kiosk_devices db)\<rparr>"
      using at Some l old token_is_text by (auto simp: attach_device_def Let_def db1)
    have tab: "set (kiosk_devices db') = insert ?d {x \<in> set (kiosk_devices db). kd_kiosk_id x \<noteq> ki_id k}"
      using d old same by (auto simp: set_put_row)
    have "devices_ok db'" if "sha256_hex cr (id_token iss) \<notin> kd_token_hash ` set (kiosk_devices db)"
    proof -
      have "map kd_kiosk_id (put_row kd_id ?d (kiosk_devices db)) = map kd_kiosk_id (kiosk_devices db)"
        by (rule map_put_row_same) (use same d old in auto)
      moreover have "distinct (map kd_token_hash (put_row kd_id ?d rows))"
        if "distinct (map kd_token_hash rows)" "distinct (map kd_id rows)"
          "kd_token_hash ?d \<notin> kd_token_hash ` set rows" for rows
        using that
      proof (induction rows)
        case (Cons r rs)
        have absent: "kd_id r = kd_id ?d \<Longrightarrow> put_row kd_id ?d rs = rs"
          using Cons.prems(2) by (intro put_row_absent) auto
        have "kd_token_hash r \<notin> kd_token_hash ` set (put_row kd_id ?d rs)"
          using Cons.prems set_put_row_subset[of kd_id ?d rs] by fastforce
        then show ?case using Cons absent by auto
      qed simp
      ultimately show ?thesis using ok that d by (auto simp: devices_ok_def map_key_put_row)
    qed
    then show ?thesis using d tab by (auto simp: attached_def db1)
  next
    case None
    then have no: "ki_id k \<notin> kd_kiosk_id ` set (kiosk_devices db)"
      by (auto simp: device_of_def first_where_None_iff db1)
    obtain key' db2 where k2: "(if truthy key then (the key, db1) else token_hex 16 db1) = (key', db2)" by fastforce
    obtain pid db3 where k3: "mint DEVICE db2 = (pid, db3)" by fastforce
    obtain m' where db3: "db3 = db\<lparr>drawn := m'\<rparr>"
      using letters_shape(3)[OF k3] letters_shape(2)[of 16 db1] k2 by (fastforce simp: db1 split: if_splits)
    let ?d = "id_device iss"
    have d: "kd_id ?d = fresh_key kd_id (kiosk_devices db)" "kd_kiosk_id ?d = ki_id k"
      "kd_token_hash ?d = sha256_hex cr (id_token iss)" "strip (id_token iss) \<noteq> []"
      "db' = db3\<lparr>kiosk_devices := kiosk_devices db @ [?d]\<rparr>"
      using at None l k2 k3 token_is_text by (auto simp: attach_device_def Let_def db3)
    have "x \<in> set (kiosk_devices db) \<Longrightarrow> kd_kiosk_id x \<noteq> ki_id k" for x using no by force
    then show ?thesis using d no ok
      by (auto simp: attached_def db3 devices_ok_def fresh_key_notin)
  qed
  then show "attached k (id_device iss) db db'" "kd_token_hash (id_device iss) = sha256_hex cr (id_token iss)"
    "strip (id_token iss) \<noteq> []"
    "sha256_hex cr (id_token iss) \<notin> kd_token_hash ` set (kiosk_devices db) \<Longrightarrow> devices_ok db'" by auto
qed

text \<open>A registration that succeeds, step by step.\<close>

lemma register_InrD:
  assumes "register_device cr code key version caps now db = Inr (iss, db')"
  shows "\<exists>row k. enrolment_of cr code db = Some row \<and> de_used_at row = None \<and> now < de_expires_at row
    \<and> kiosk_row (de_kiosk_id row) db = Some k \<and> ki_stage k \<noteq> RETIRED \<and> held_elsewhere key k db = None
    \<and> attach_device cr k key version caps
        (db\<lparr>device_enrolments := put_row de_id (row\<lparr>de_used_at := Some now\<rparr>) (device_enrolments db)\<rparr>) = (iss, db')"
  using assms
  by (auto simp: register_device_def Let_def kiosk_row_def held_elsewhere_def split: option.splits if_splits)

lemma register_spent:
  "enrolment_of cr code db = Some row \<Longrightarrow> de_used_at row \<noteq> None \<Longrightarrow>
   register_device cr code key version caps now db = Inl (BadRequest INVALID_CODE)"
  by (simp add: register_device_def)

lemma enrolment_put:
  assumes "codes_ok db" and "enrolment_of cr code db = Some row"
    and "device_enrolments db' = put_row de_id (row\<lparr>de_used_at := u\<rparr>) (device_enrolments db)"
  shows "enrolment_of cr code db' = Some (row\<lparr>de_used_at := u\<rparr>)"
proof -
  let ?row = "row\<lparr>de_used_at := u\<rparr>"
  have row: "row \<in> set (device_enrolments db)" "de_code_hash row = sha256_hex cr code"
    using assms(2) by (auto simp: enrolment_of_def dest: first_where_SomeD)
  have "map de_code_hash (device_enrolments db') = map de_code_hash (device_enrolments db)"
    unfolding assms(3)
  proof (rule map_put_row_same)
    fix x assume x: "x \<in> set (device_enrolments db)" "de_id x = de_id ?row"
    then have "x = row" using distinct_key_eq[of de_id "device_enrolments db" row x] assms(1) row
      by (auto simp: codes_ok_def)
    then show "de_code_hash x = de_code_hash ?row" by simp
  qed
  moreover have "?row \<in> set (device_enrolments db')"
    using row by (auto simp: assms(3) set_put_row)
  ultimately show ?thesis
    using first_where_unique[of de_code_hash "device_enrolments db'" ?row] assms(1) row
    by (simp add: enrolment_of_def codes_ok_def)
qed

text \<open>
  C18. Enrolling a machine hands one shop to exactly one machine: the new token authenticates as that
  shop's machine, whatever token the shop's previous machine held is refused from that moment,
  every other shop's machine is answered as before, and the code is spent. SHA-256 enters only
  through the new token's hash being none of the hashes already stored.
\<close>

theorem enrolment_binds_one_machine:
  assumes "devices_ok db" and "codes_ok db"
    and "register_device cr code key version caps now db = Inr (iss, db')"
    and "sha256_hex cr (id_token iss) \<notin> kd_token_hash ` set (kiosk_devices db)"
  shows "authenticate_device cr (Some (id_token iss)) db' = Inr (id_device iss)
    \<and> (\<exists>row. enrolment_of cr code db = Some row \<and> kd_kiosk_id (id_device iss) = de_kiosk_id row)
    \<and> (\<forall>t d. authenticate_device cr (Some t) db = Inr d \<longrightarrow>
          authenticate_device cr (Some t) db' =
            (if kd_kiosk_id d = kd_kiosk_id (id_device iss) then Inl (Unauthorized NOT_A_DEVICE) else Inr d))
    \<and> (\<forall>key version caps later. register_device cr code key version caps later db' = Inl (BadRequest INVALID_CODE))
    \<and> devices_ok db'"
proof -
  from register_InrD[OF assms(3)] obtain row k where r: "enrolment_of cr code db = Some row"
    "kiosk_row (de_kiosk_id row) db = Some k" "ki_stage k \<noteq> RETIRED"
    "attach_device cr k key version caps
        (db\<lparr>device_enrolments := put_row de_id (row\<lparr>de_used_at := Some now\<rparr>) (device_enrolments db)\<rparr>) = (iss, db')"
    by blast
  let ?db = "db\<lparr>device_enrolments := put_row de_id (row\<lparr>de_used_at := Some now\<rparr>) (device_enrolments db)\<rparr>"
  have ok: "devices_ok ?db" using assms(1) by (simp add: devices_ok_def)
  note at = attach_device_attached[OF ok r(4)]
  have dev: "devices_ok db'" using at(4) assms(4) by simp
  then have h': "distinct (map kd_token_hash (kiosk_devices db'))"
    and h: "distinct (map kd_token_hash (kiosk_devices db))" using assms(1) by (auto simp: devices_ok_def)
  have k: "kd_kiosk_id (id_device iss) = ki_id k" "ki_id k = de_kiosk_id row"
    "set (kiosk_devices db') = insert (id_device iss) {x \<in> set (kiosk_devices db). kd_kiosk_id x \<noteq> ki_id k}"
    "kiosk_row i db' = kiosk_row i db" for i
    using at(1) r(2) by (auto simp: attached_def kiosk_row_def dest: row_by_SomeD)
  have new: "authenticate_device cr (Some (id_token iss)) db' = Inr (id_device iss)"
    using authenticate_iff[OF h'] at(2,3) k r(2,3) by auto
  have old: "authenticate_device cr (Some t) db' =
      (if kd_kiosk_id d = kd_kiosk_id (id_device iss) then Inl (Unauthorized NOT_A_DEVICE) else Inr d)"
    if a: "authenticate_device cr (Some t) db = Inr d" for t d
  proof (cases "kd_kiosk_id d = kd_kiosk_id (id_device iss)")
    case True
    have d: "d \<in> set (kiosk_devices db)" "kd_token_hash d = sha256_hex cr t"
      using a authenticate_iff[OF h] by auto
    have "authenticate_device cr (Some t) db' \<noteq> Inr x" for x
    proof
      assume "authenticate_device cr (Some t) db' = Inr x"
      then have x: "x \<in> set (kiosk_devices db')" "kd_token_hash x = kd_token_hash d"
        using authenticate_iff[OF h'] d by auto
      then have "x = id_device iss \<or> x = d"
        using k(3) d distinct_key_eq[OF h, of d x] by auto
      moreover have "kd_token_hash d \<noteq> kd_token_hash (id_device iss)"
        using d(1) at(2) assms(4) by force
      ultimately show False using x d True k by auto
    qed
    with True show ?thesis using authenticate_refused by fastforce
  next
    case False
    then show ?thesis using a k unfolding authenticate_iff[OF h] by (auto simp: authenticate_iff[OF h'])
  qed
  have "enrolment_of cr code db' = Some (row\<lparr>de_used_at := Some now\<rparr>)"
    using enrolment_put[OF assms(2) r(1), of db' "Some now"] at(1) by (simp add: attached_def)
  then have "\<forall>key version caps later. register_device cr code key version caps later db' = Inl (BadRequest INVALID_CODE)"
    using register_spent by fastforce
  with new old dev r(1) k show ?thesis by auto
qed

definition enrolling_example :: kiosks_db where
  "enrolling_example = kiosks_example\<lparr>kiosk_devices := [device_example\<lparr>kd_token_hash := ''#old''\<rparr>],
     device_enrolments := [\<lparr>de_id = 1, de_kiosk_id = 1, de_created_by_user_id = None, de_code_hash = ''#dve_c'',
       de_expires_at = 100, de_used_at = None, de_created_at = 0\<rparr>]\<rparr>"

lemma attach_token: "strip (id_token (fst (attach_device cr k key v c db))) \<noteq> []
    \<and> (\<exists>s. id_token (fst (attach_device cr k key v c db)) = TOKEN_PREFIX @ s)"
  by (auto simp: attach_device_def Let_def token_is_text split: option.splits prod.splits)

theorem enrolment_binds_one_machine_witness:
  "\<exists>iss db'. register_device toy_crypto ''dve_c'' (Some ''box'') None None 5 enrolling_example = Inr (iss, db')
     \<and> authenticate_device toy_crypto (Some ''old'') enrolling_example
         = Inr (device_example\<lparr>kd_token_hash := ''#old''\<rparr>)
     \<and> authenticate_device toy_crypto (Some ''old'') db' = Inl (Unauthorized NOT_A_DEVICE)
     \<and> authenticate_device toy_crypto (Some (id_token iss)) db' = Inr (id_device iss)"
proof -
  let ?db = "enrolling_example\<lparr>device_enrolments := put_row de_id
    ((hd (device_enrolments enrolling_example))\<lparr>de_used_at := Some 5\<rparr>) (device_enrolments enrolling_example)\<rparr>"
  obtain iss db' where at: "attach_device toy_crypto kiosk_example (Some ''box'') None None ?db = (iss, db')"
    by fastforce
  have r: "register_device toy_crypto ''dve_c'' (Some ''box'') None None 5 enrolling_example = Inr (iss, db')"
    using at by (simp add: register_device_def enrolment_of_def enrolling_example_def toy_crypto_def kiosks_example_def
        kiosk_row_def kiosk_example_def held_elsewhere_def device_example_def truthy_def)
  have ok: "devices_ok enrolling_example" "codes_ok enrolling_example"
    by (simp_all add: devices_ok_def codes_ok_def enrolling_example_def)
  obtain s where "id_token iss = TOKEN_PREFIX @ s"
    using attach_token[of toy_crypto kiosk_example "Some ''box''" None None ?db] at by auto
  then have f: "sha256_hex toy_crypto (id_token iss) \<notin> kd_token_hash ` set (kiosk_devices enrolling_example)"
    by (simp add: toy_crypto_def enrolling_example_def TOKEN_PREFIX_def)
  have old: "authenticate_device toy_crypto (Some ''old'') enrolling_example
         = Inr (device_example\<lparr>kd_token_hash := ''#old''\<rparr>)"
    by (simp add: authenticate_device_def enrolling_example_def toy_crypto_def strip_eq_Nil is_space_def
        kiosks_example_def kiosk_row_def device_example_def kiosk_example_def)
  have "kd_kiosk_id (id_device iss) = 1"
    using enrolment_binds_one_machine[OF ok r f]
    by (auto simp: enrolment_of_def enrolling_example_def split: if_splits)
  with enrolment_binds_one_machine[OF ok r f] r old show ?thesis by (auto simp: device_example_def)
qed

text \<open>
  (Property). Only the newest code of a shop works: issuing one kills every code issued for that shop
  before it, and leaves the codes of other shops as they were.
\<close>

theorem new_code_supersedes:
  assumes "enrolment_of cr old db = Some row"
    and "issue_enrolment_code cr k created_by now db = (issued, db')"
  shows "if de_kiosk_id row = ki_id k
    then register_device cr old key version caps later db' = Inl (BadRequest INVALID_CODE)
    else enrolment_of cr old db' = Some row"
proof -
  let ?f = "\<lambda>e. if de_kiosk_id e = ki_id k \<and> de_used_at e = None then e\<lparr>de_used_at := Some now\<rparr> else e"
  have "first_where (\<lambda>e. de_code_hash e = h) (map ?f rows @ new) = Some (?f row)"
    if "first_where (\<lambda>e. de_code_hash e = h) rows = Some row" for rows h new
    using that by (induction rows) (auto split: if_splits)
  then have e: "enrolment_of cr old db' = Some (?f row)"
    using assms by (auto simp: enrolment_of_def issue_enrolment_code_def Let_def case_prod_beta)
  then show ?thesis using register_spent[of cr old db' "?f row"] by auto
qed

theorem new_code_supersedes_witness:
  "register_device toy_crypto ''dve_c'' None None None 6
     (snd (issue_enrolment_code toy_crypto kiosk_example None 5 enrolling_example)) = Inl (BadRequest INVALID_CODE)"
proof -
  have "enrolment_of toy_crypto ''dve_c'' enrolling_example = Some (hd (device_enrolments enrolling_example))"
    by (simp add: enrolment_of_def enrolling_example_def toy_crypto_def)
  from new_code_supersedes[OF this, of kiosk_example None 5 _ _ None None None 6] show ?thesis
    by (cases "issue_enrolment_code toy_crypto kiosk_example None 5 enrolling_example")
      (simp add: enrolling_example_def kiosk_example_def)
qed

end
