(* ===== verification/KioskAccess.thy ===== *)
theory KioskAccess
  imports Devices Pricing
begin

text \<open>
  Who may touch which shop: \<^verbatim>\<open>kiosks/scope.py\<close>, the scoped reads of \<^verbatim>\<open>kiosks/repository.py\<close>,
  \<^verbatim>\<open>kiosks/staffing.py\<close>, \<^verbatim>\<open>kiosks/favourites.py\<close>, the role guards of \<^verbatim>\<open>api/deps.py\<close> and the owner's
  status and pricing routes of \<^verbatim>\<open>api/owner/kiosks.py\<close>. Names are ordered by code point where the
  code leaves it to the database's collation.
\<close>

section \<open>Scope\<close>

record scope =
  is_unrestricted :: bool
  kiosk_ids :: "nat set"

definition allows :: "scope \<Rightarrow> nat \<Rightarrow> bool" where
  "allows sc kiosk_id \<longleftrightarrow> is_unrestricted sc \<or> kiosk_id \<in> kiosk_ids sc"

definition kiosk_scope :: "user \<Rightarrow> 'a kiosks_db_scheme \<Rightarrow> scope" where
  "kiosk_scope actor db =
     (if ADMIN \<in> roles_of (us_id actor) db then \<lparr>is_unrestricted = True, kiosk_ids = {}\<rparr>
      else \<lparr>is_unrestricted = False,
            kiosk_ids = ka_kiosk_id ` set (filter (\<lambda>a. ka_user_id a = us_id actor) (kiosk_assignments db))\<rparr>)"

definition system_scope :: scope where
  "system_scope = \<lparr>is_unrestricted = True, kiosk_ids = {}\<rparr>"

section \<open>Guards\<close>

definition NOT_ALLOWED :: string where
  "NOT_ALLOWED = ''You do not have access to that.''"

definition NOT_SIGNED_IN :: string where
  "NOT_SIGNED_IN = ''You need to sign in to do that.''"

definition get_current_user ::
  "crypto \<Rightarrow> string option \<Rightarrow> string \<Rightarrow> datetime \<Rightarrow> 'a identity_db_scheme \<Rightarrow> user result" where
  "get_current_user cr bearer secret now db =
     (case bearer of
        None \<Rightarrow> Inl (Unauthorized NOT_SIGNED_IN)
      | Some tok \<Rightarrow>
          if tok = [] then Inl (Unauthorized NOT_SIGNED_IN)
          else
            (case decode_token cr tok ACCESS secret now of
               None \<Rightarrow> Inl (Unauthorized NOT_SIGNED_IN)
             | Some claims \<Rightarrow>
                 (case get_by_public_id (tc_subject claims) db of
                    None \<Rightarrow> Inl (Unauthorized NOT_SIGNED_IN)
                  | Some u \<Rightarrow> Inr u)))"

definition require_role :: "user_role \<Rightarrow> user \<Rightarrow> 'a identity_db_scheme \<Rightarrow> user result" where
  "require_role role u db =
     (if role \<notin> roles_of (us_id u) db then Inl (Forbidden NOT_ALLOWED) else Inr u)"

definition require_any_role :: "user_role set \<Rightarrow> user \<Rightarrow> 'a identity_db_scheme \<Rightarrow> user result" where
  "require_any_role roles u db =
     (if roles_of (us_id u) db \<inter> roles = {} then Inl (Forbidden NOT_ALLOWED) else Inr u)"

section \<open>Scoped reads\<close>

definition NO_SUCH_STAFF :: string where
  "NO_SUCH_STAFF = ''Nobody by that id works at this kiosk.''"

definition list_kiosks :: "scope \<Rightarrow> bool \<Rightarrow> 'a kiosks_db_scheme \<Rightarrow> kiosk list" where
  "list_kiosks sc include_inactive db =
     sort_key ki_name (filter (\<lambda>k. (is_unrestricted sc \<or> ki_id k \<in> kiosk_ids sc)
                                  \<and> (include_inactive \<or> ki_is_active k)) (kiosks db))"

definition get_kiosk :: "scope \<Rightarrow> string \<Rightarrow> 'a kiosks_db_scheme \<Rightarrow> kiosk result" where
  "get_kiosk sc public_id db =
     (case parse_id public_id KIOSK of
        Inl _ \<Rightarrow> Inl (NotFound NO_SUCH_KIOSK)
      | Inr _ \<Rightarrow>
          (case first_where (\<lambda>k. ki_public_id k = public_id) (kiosks db) of
             None \<Rightarrow> Inl (NotFound NO_SUCH_KIOSK)
           | Some k \<Rightarrow> if allows sc (ki_id k) then Inr k else Inl (NotFound NO_SUCH_KIOSK)))"

definition kiosk_by_internal_id :: "scope \<Rightarrow> nat \<Rightarrow> 'a kiosks_db_scheme \<Rightarrow> kiosk result" where
  "kiosk_by_internal_id sc kiosk_id db =
     (case kiosk_row kiosk_id db of
        None \<Rightarrow> Inl (NotFound NO_SUCH_KIOSK)
      | Some k \<Rightarrow> if allows sc (ki_id k) then Inr k else Inl (NotFound NO_SUCH_KIOSK))"

definition list_refill_logs :: "kiosk \<Rightarrow> int \<Rightarrow> 'a kiosks_db_scheme \<Rightarrow> paper_refill_log list" where
  "list_refill_logs k limit db =
     take (nat (max 1 (min limit 500)))
       (sort_key (\<lambda>l. - pl_created_at l) (filter (\<lambda>l. pl_kiosk_id l = ki_id k) (paper_refill_logs db)))"

text \<open>\<^verbatim>\<open>select(User).join(KioskAssignment)\<close>: one row per pair, in the order of the assignments.\<close>

definition staffed :: "(kiosk_assignment \<Rightarrow> bool) \<Rightarrow> 'a kiosks_db_scheme \<Rightarrow> (user \<times> kiosk_assignment) list" where
  "staffed p db =
     concat (map (\<lambda>a. map (\<lambda>u. (u, a)) (filter (\<lambda>u. us_id u = ka_user_id a) (users db)))
                 (filter p (kiosk_assignments db)))"

definition resolve_staff_user :: "kiosk \<Rightarrow> string \<Rightarrow> 'a kiosks_db_scheme \<Rightarrow> user result" where
  "resolve_staff_user k public_id db =
     (case parse_id public_id USER of
        Inl _ \<Rightarrow> Inl (NotFound NO_SUCH_STAFF)
      | Inr _ \<Rightarrow>
          (case first_where (\<lambda>(u, a). us_public_id u = public_id) (staffed (\<lambda>a. ka_kiosk_id a = ki_id k) db) of
             None \<Rightarrow> Inl (NotFound NO_SUCH_STAFF)
           | Some (u, _) \<Rightarrow> Inr u))"

definition owner_of :: "kiosk \<Rightarrow> 'a kiosks_db_scheme \<Rightarrow> user option" where
  "owner_of k db =
     map_option fst (first_where (\<lambda>_. True)
       (sort_key (\<lambda>(u, a). ka_created_at a)
         (staffed (\<lambda>a. ka_kiosk_id a = ki_id k \<and> ka_role a = KIOSK_OWNER) db)))"

definition refillers_of :: "kiosk \<Rightarrow> 'a kiosks_db_scheme \<Rightarrow> user list" where
  "refillers_of k db =
     map fst (sort_key (\<lambda>(u, a). (ka_created_at a, us_id u))
       (staffed (\<lambda>a. ka_kiosk_id a = ki_id k \<and> ka_role a = KIOSK_REFILLER) db))"

section \<open>Staffing\<close>

definition INVITE_LIFETIME :: datetime where
  "INVITE_LIFETIME = days 7"

definition INVALID_INVITE :: string where
  "INVALID_INVITE = ''That invitation is invalid, has expired, or has already been used.''"

definition NOT_AN_EMAIL :: string where
  "NOT_AN_EMAIL = ''That does not look like an email address.''"

definition ALREADY_WORKS_HERE :: string where
  "ALREADY_WORKS_HERE = ''That person already works at this kiosk.''"

text \<open>SQL \<^verbatim>\<open>ILIKE\<close>: \<open>%\<close> is any text, \<open>_\<close> any one character, a backslash quotes the next one.\<close>

fun sql_like :: "string \<Rightarrow> string \<Rightarrow> bool" where
  "sql_like [] s = (s = [])"
| "sql_like (p # ps) [] = (p = CHR ''%'' \<and> sql_like ps [])"
| "sql_like (p # ps) (c # cs) =
     (if p = CHR ''%'' then sql_like ps (c # cs) \<or> sql_like (p # ps) cs
      else if p = CHR ''_'' then sql_like ps cs
      else if p = CHR 92 then (case ps of [] \<Rightarrow> False | q # qs \<Rightarrow> q = c \<and> sql_like qs cs)
      else p = c \<and> sql_like ps cs)"

definition ilike :: "string \<Rightarrow> string \<Rightarrow> bool" where
  "ilike value pattern \<longleftrightarrow> sql_like (lower pattern) (lower value)"

definition open_invite :: "kiosk \<Rightarrow> string \<Rightarrow> assignment_role \<Rightarrow> staff_invite \<Rightarrow> bool" where
  "open_invite k email role i \<longleftrightarrow> si_kiosk_id i = ki_id k \<and> si_email i = email \<and> si_role i = role
     \<and> si_accepted_at i = None \<and> si_revoked_at i = None"

definition invite_staff ::
  "crypto \<Rightarrow> kiosk \<Rightarrow> string \<Rightarrow> assignment_role \<Rightarrow> nat \<Rightarrow> datetime \<Rightarrow> 'a kiosks_db_scheme \<Rightarrow>
   (string \<times> 'a kiosks_db_scheme) result" where
  "invite_staff cr k raw_email role invited_by now db =
     (let email = lower (strip raw_email) in
      if email = [] \<or> CHR ''@'' \<notin> set email then Inl (BadRequest NOT_AN_EMAIL)
      else
        (case filter (\<lambda>(u, a). ilike (us_email u) email)
                (staffed (\<lambda>a. ka_kiosk_id a = ki_id k \<and> ka_role a = role) db) of
           [already] \<Rightarrow> Inl (Conflict ALREADY_WORKS_HERE)
         | _ # _ # _ \<Rightarrow> Inl (Unhandled ''MultipleResultsFound'')
         | [] \<Rightarrow>
             let superseded = map (\<lambda>i. if open_invite k email role i then i\<lparr>si_revoked_at := Some now\<rparr> else i)
                                  (staff_invites db);
                 (token, db1) = token_urlsafe 32 (db\<lparr>staff_invites := superseded\<rparr>);
                 row = \<lparr>si_id = fresh_key si_id superseded, si_kiosk_id = ki_id k,
                        si_invited_by_user_id = invited_by, si_email = email, si_role = role,
                        si_token_hash = sha256_hex cr token, si_expires_at = now + INVITE_LIFETIME,
                        si_accepted_at = None, si_revoked_at = None, si_created_at = tx_now db\<rparr>
             in Inr (token, db1\<lparr>staff_invites := superseded @ [row]\<rparr>)))"

fun identity_role_for :: "assignment_role \<Rightarrow> user_role" where
  "identity_role_for KIOSK_OWNER = OWNER"
| "identity_role_for KIOSK_REFILLER = REFILLER"

definition invite_of :: "crypto \<Rightarrow> string \<Rightarrow> 'a kiosks_db_scheme \<Rightarrow> staff_invite option" where
  "invite_of cr token db = first_where (\<lambda>i. si_token_hash i = sha256_hex cr token) (staff_invites db)"

definition accept_invite ::
  "crypto \<Rightarrow> string \<Rightarrow> user \<Rightarrow> datetime \<Rightarrow> 'a kiosks_db_scheme \<Rightarrow>
   (kiosk option \<times> assignment_role \<times> 'a kiosks_db_scheme) result" where
  "accept_invite cr token u now db =
     (case invite_of cr token db of
        None \<Rightarrow> Inl (BadRequest INVALID_INVITE)
      | Some invite \<Rightarrow>
          if si_accepted_at invite \<noteq> None \<or> si_revoked_at invite \<noteq> None \<or> si_expires_at invite \<le> now
          then Inl (BadRequest INVALID_INVITE)
          else if lower (strip (us_email u)) \<noteq> si_email invite then Inl (BadRequest INVALID_INVITE)
          else
            let existing = first_where (\<lambda>a. ka_kiosk_id a = si_kiosk_id invite \<and> ka_user_id a = us_id u
                                           \<and> ka_role a = si_role invite) (kiosk_assignments db);
                db1 = db\<lparr>staff_invites := put_row si_id (invite\<lparr>si_accepted_at := Some now\<rparr>) (staff_invites db)\<rparr>;
                db2 = (if existing = None
                       then db1\<lparr>kiosk_assignments := kiosk_assignments db1 @
                              [\<lparr>ka_id = fresh_key ka_id (kiosk_assignments db1),
                                ka_kiosk_id = si_kiosk_id invite, ka_user_id = us_id u,
                                ka_role = si_role invite, ka_created_at = tx_now db1\<rparr>]\<rparr>
                       else db1)
            in Inr (kiosk_row (si_kiosk_id invite) db, si_role invite,
                    grant_role (us_id u) (identity_role_for (si_role invite)) db2))"

definition revoke_invite ::
  "kiosk \<Rightarrow> string \<Rightarrow> assignment_role \<Rightarrow> datetime \<Rightarrow> 'a kiosks_db_scheme \<Rightarrow> 'a kiosks_db_scheme" where
  "revoke_invite k email role now db =
     db\<lparr>staff_invites := map (\<lambda>i. if open_invite k (lower (strip email)) role i
                                 then i\<lparr>si_revoked_at := Some now\<rparr> else i) (staff_invites db)\<rparr>"

definition list_staff :: "kiosk \<Rightarrow> 'a kiosks_db_scheme \<Rightarrow> (user \<times> assignment_role) list" where
  "list_staff k db =
     map (\<lambda>(u, a). (u, ka_role a))
       (sort_key (\<lambda>(u, a). us_email u) (staffed (\<lambda>a. ka_kiosk_id a = ki_id k) db))"

definition unassign :: "kiosk \<Rightarrow> nat \<Rightarrow> assignment_role \<Rightarrow> 'a kiosks_db_scheme \<Rightarrow> 'a kiosks_db_scheme" where
  "unassign k user_id role db =
     db\<lparr>kiosk_assignments := filter (\<lambda>a. \<not> (ka_kiosk_id a = ki_id k \<and> ka_user_id a = user_id \<and> ka_role a = role))
                              (kiosk_assignments db)\<rparr>"

section \<open>Favourites\<close>

definition favourite_kiosk :: "nat \<Rightarrow> kiosk \<Rightarrow> 'a kiosks_db_scheme \<Rightarrow> 'a kiosks_db_scheme" where
  "favourite_kiosk user_id k db =
     (if \<exists>f \<in> set (kiosk_favourites db). kf_user_id f = user_id \<and> kf_kiosk_id f = ki_id k then db
      else db\<lparr>kiosk_favourites := kiosk_favourites db @
             [\<lparr>kf_id = fresh_key kf_id (kiosk_favourites db), kf_user_id = user_id, kf_kiosk_id = ki_id k,
               kf_created_at = tx_now db\<rparr>]\<rparr>)"

definition unfavourite_kiosk :: "nat \<Rightarrow> kiosk \<Rightarrow> 'a kiosks_db_scheme \<Rightarrow> 'a kiosks_db_scheme" where
  "unfavourite_kiosk user_id k db =
     db\<lparr>kiosk_favourites := filter (\<lambda>f. \<not> (kf_user_id f = user_id \<and> kf_kiosk_id f = ki_id k)) (kiosk_favourites db)\<rparr>"

definition favourite_kiosk_ids :: "nat \<Rightarrow> 'a kiosks_db_scheme \<Rightarrow> nat set" where
  "favourite_kiosk_ids user_id db =
     kf_kiosk_id ` set (filter (\<lambda>f. kf_user_id f = user_id) (kiosk_favourites db))"

section \<open>The owner's routes\<close>

text \<open>What every route of the router does before its own work: the role guard, the scope, the read.\<close>

definition owner_route :: "user \<Rightarrow> string \<Rightarrow> 'a kiosks_db_scheme \<Rightarrow> kiosk result" where
  "owner_route u kiosk_id db =
     bind_res (require_any_role {OWNER, ADMIN} u db) (\<lambda>_. get_kiosk (kiosk_scope u db) kiosk_id db)"

definition OWNER_SETTABLE :: "onboarding_stage set" where
  "OWNER_SETTABLE = {LIVE, MAINTENANCE}"

definition ADMIN_DECIDES :: string where
  "ADMIN_DECIDES = ''You can set a kiosk live or into maintenance. Anything else is handled by the Printvendo team.''"

definition set_status ::
  "('a kiosks_db_scheme) billing_check \<Rightarrow> user \<Rightarrow> string \<Rightarrow> onboarding_stage \<Rightarrow> 'a kiosks_db_scheme \<Rightarrow>
   (kiosk \<times> 'a kiosks_db_scheme) result" where
  "set_status billing u kiosk_id target db =
     bind_res (owner_route u kiosk_id db) (\<lambda>k.
       if target \<notin> OWNER_SETTABLE then Inl (BadRequest ADMIN_DECIDES)
       else move_to billing k target None db)"

section \<open>Scoped reads\<close>

text \<open>Who may see a shop at all: an admin, or somebody assigned to it.\<close>

definition reaches :: "user \<Rightarrow> kiosk \<Rightarrow> 'a kiosks_db_scheme \<Rightarrow> bool" where
  "reaches u k db \<longleftrightarrow> ADMIN \<in> roles_of (us_id u) db
     \<or> (\<exists>a \<in> set (kiosk_assignments db). ka_user_id a = us_id u \<and> ka_kiosk_id a = ki_id k)"

lemma allows_kiosk_scope: "allows (kiosk_scope u db) (ki_id k) \<longleftrightarrow> reaches u k db"
  by (force simp: allows_def kiosk_scope_def reaches_def)

lemma get_kiosk_Inr_iff:
  "get_kiosk sc pid db = Inr k \<longleftrightarrow> (\<exists>b. parse_id pid KIOSK = Inr b)
     \<and> first_where (\<lambda>k. ki_public_id k = pid) (kiosks db) = Some k \<and> allows sc (ki_id k)"
  by (auto simp: get_kiosk_def split: sum.splits option.splits)

lemma get_kiosk_Inl: "get_kiosk sc pid db = Inl e \<Longrightarrow> e = NotFound NO_SUCH_KIOSK"
  by (auto simp: get_kiosk_def split: sum.splits option.splits if_splits)

text \<open>
  C17. No read of a shop escapes its caller's scope: what the three reads return the caller is
  assigned to, or is an admin; and a shop out of scope is answered exactly as one that does not
  exist.
\<close>

theorem scope_confines_reads:
  assumes "\<not> reaches u k db" and "k \<in> set (kiosks db)" and "distinct (map ki_id (kiosks db))"
    and "distinct (map ki_public_id (kiosks db))"
  shows "get_kiosk (kiosk_scope u db) (ki_public_id k) db
      = get_kiosk (kiosk_scope u db) (ki_public_id k) (db\<lparr>kiosks := remove1 k (kiosks db)\<rparr>)
    \<and> kiosk_by_internal_id (kiosk_scope u db) (ki_id k) db
      = kiosk_by_internal_id (kiosk_scope u db) (ki_id k) (db\<lparr>kiosks := remove1 k (kiosks db)\<rparr>)
    \<and> k \<notin> set (list_kiosks (kiosk_scope u db) include_inactive db)
    \<and> owner_route u (ki_public_id k) db \<noteq> Inr k"
proof -
  have no: "\<not> allows (kiosk_scope u db) (ki_id k)" using assms(1) by (simp add: allows_kiosk_scope)
  have found: "first_where (\<lambda>x. ki_public_id x = ki_public_id k) (kiosks db) = Some k"
    "kiosk_row (ki_id k) db = Some k"
    using first_where_unique[OF assms(4,2)] row_by_distinct[OF assms(3,2)] by (auto simp: kiosk_row_def)
  have gone: "first_where (\<lambda>x. ki_public_id x = ki_public_id k) (remove1 k (kiosks db)) = None"
    "row_by ki_id (remove1 k (kiosks db)) (ki_id k) = None"
    using assms(3) distinct_key_eq[OF assms(3,2)] distinct_key_eq[OF assms(4,2)]
    by (auto simp: first_where_None_iff row_by_None_iff distinct_map)
  show ?thesis
    using no found gone
    by (auto simp: get_kiosk_def kiosk_by_internal_id_def kiosk_row_def list_kiosks_def owner_route_def
        get_kiosk_Inr_iff bind_res_Inr_iff allows_def split: sum.splits)
qed

definition staff_example :: kiosks_db where
  "staff_example = kiosks_example\<lparr>users := [user_example], user_roles := [\<lparr>ur_id = 1, ur_user_id = 1,
     ur_role = OWNER, ur_granted_at = 0\<rparr>], kiosks := [kiosk_example\<lparr>ki_public_id := ''ksk_0000000000000000''\<rparr>]\<rparr>"

theorem scope_confines_reads_witness:
  "\<exists>k \<in> set (kiosks staff_example). \<not> reaches user_example k staff_example
     \<and> k \<notin> set (list_kiosks (kiosk_scope user_example staff_example) True staff_example)"
proof -
  let ?k = "kiosk_example\<lparr>ki_public_id := ''ksk_0000000000000000''\<rparr>"
  have k: "?k \<in> set (kiosks staff_example)" "distinct (map ki_id (kiosks staff_example))"
    "distinct (map ki_public_id (kiosks staff_example))" by (simp_all add: staff_example_def)
  have r: "\<not> reaches user_example ?k staff_example"
    by (simp add: reaches_def staff_example_def kiosks_example_def roles_of_def)
  from scope_confines_reads[OF r k] k(1) r show ?thesis by blast
qed

text \<open>
  (Property). The owner's routes never ask in what capacity somebody is assigned: an account that owns any
  shop anywhere, and only refills the paper of this one, passes every guard of the owner's router
  for this one.
\<close>

theorem refiller_passes_as_owner:
  assumes "OWNER \<in> roles_of (us_id u) db" and "parse_id (ki_public_id k) KIOSK = Inr b"
    and "k \<in> set (kiosks db)" and "distinct (map ki_public_id (kiosks db))"
    and "\<exists>a \<in> set (kiosk_assignments db). ka_user_id a = us_id u \<and> ka_kiosk_id a = ki_id k \<and> ka_role a = KIOSK_REFILLER"
  shows "owner_route u (ki_public_id k) db = Inr k"
proof -
  have "reaches u k db" using assms(5) by (auto simp: reaches_def)
  then have "get_kiosk (kiosk_scope u db) (ki_public_id k) db = Inr k"
    using assms(2) first_where_unique[OF assms(4,3)] by (simp add: get_kiosk_Inr_iff allows_kiosk_scope)
  then show ?thesis using assms(1) by (auto simp: owner_route_def require_any_role_def)
qed

definition two_shops :: kiosks_db where
  "two_shops = staff_example\<lparr>kiosk_assignments :=
     [\<lparr>ka_id = 1, ka_kiosk_id = 1, ka_user_id = 1, ka_role = KIOSK_REFILLER, ka_created_at = 0\<rparr>]\<rparr>"

theorem refiller_passes_as_owner_witness:
  "owner_of (kiosk_example\<lparr>ki_public_id := ''ksk_0000000000000000''\<rparr>) two_shops = None
   \<and> owner_route user_example ''ksk_0000000000000000'' two_shops
       = Inr (kiosk_example\<lparr>ki_public_id := ''ksk_0000000000000000''\<rparr>)"
proof -
  let ?k = "kiosk_example\<lparr>ki_public_id := ''ksk_0000000000000000''\<rparr>"
  have p: "parse_id (ki_public_id ?k) KIOSK = Inr ''0000000000000000''" by code_simp
  have a: "OWNER \<in> roles_of (us_id user_example) two_shops" "?k \<in> set (kiosks two_shops)"
    "distinct (map ki_public_id (kiosks two_shops))"
    "\<exists>a \<in> set (kiosk_assignments two_shops). ka_user_id a = us_id user_example \<and> ka_kiosk_id a = ki_id ?k
       \<and> ka_role a = KIOSK_REFILLER"
    by (simp_all add: two_shops_def staff_example_def roles_of_def user_example_def kiosk_example_def)
  from refiller_passes_as_owner[OF a(1) p a(2-4)] show ?thesis
    by (simp add: owner_of_def staffed_def two_shops_def)
qed

section \<open>Staffing\<close>

definition staff_at :: "'a kiosks_db_scheme \<Rightarrow> (nat \<times> nat \<times> assignment_role) set" where
  "staff_at db = (\<lambda>a. (ka_kiosk_id a, ka_user_id a, ka_role a)) ` set (kiosk_assignments db)"

definition invites_ok :: "'a kiosks_db_scheme \<Rightarrow> bool" where
  "invites_ok db \<longleftrightarrow> distinct (map si_id (staff_invites db)) \<and> distinct (map si_token_hash (staff_invites db))"

lemma grant_role_keeps [simp]:
  "staff_invites (grant_role i r db) = staff_invites db"
  "kiosk_assignments (grant_role i r db) = kiosk_assignments db"
  "kiosks (grant_role i r db) = kiosks db"
  by (simp_all add: grant_role_def)

lemma roles_of_grant: "roles_of j (grant_role i r db) = (if j = i then insert r (roles_of j db) else roles_of j db)"
proof (cases "r \<in> roles_of i db")
  case False
  have "roles_of j (grant_role i r db) = ur_role ` ({x \<in> set (user_roles db). ur_user_id x = j}
      \<union> (if j = i then {\<lparr>ur_id = fresh_key ur_id (user_roles db), ur_user_id = i, ur_role = r,
            ur_granted_at = tx_now db\<rparr>} else {}))"
    using False by (auto simp: grant_role_def roles_of_def simp del: image_Un intro!: arg_cong[where f = "(`) ur_role"])
  then show ?thesis by (auto simp: roles_of_def)
qed (auto simp: grant_role_def)

lemma kiosk_scope_by_staff:
  "kiosk_scope v db = (if ADMIN \<in> roles_of (us_id v) db then \<lparr>is_unrestricted = True, kiosk_ids = {}\<rparr>
     else \<lparr>is_unrestricted = False, kiosk_ids = {j. \<exists>r. (j, us_id v, r) \<in> staff_at db}\<rparr>)"
  by (force simp: kiosk_scope_def staff_at_def)

lemma invite_put:
  assumes "invites_ok db" and "invite_of cr t db = Some iv"
    and "staff_invites db' = put_row si_id (iv\<lparr>si_accepted_at := a\<rparr>) (staff_invites db)"
  shows "invite_of cr t db' = Some (iv\<lparr>si_accepted_at := a\<rparr>)"
proof -
  let ?iv = "iv\<lparr>si_accepted_at := a\<rparr>"
  have iv: "iv \<in> set (staff_invites db)" "si_token_hash iv = sha256_hex cr t"
    using assms(2) by (auto simp: invite_of_def dest: first_where_SomeD)
  have "map si_token_hash (staff_invites db') = map si_token_hash (staff_invites db)"
    unfolding assms(3)
  proof (rule map_put_row_same)
    fix x assume x: "x \<in> set (staff_invites db)" "si_id x = si_id ?iv"
    then have "x = iv" using distinct_key_eq[of si_id "staff_invites db" iv x] assms(1) iv
      by (auto simp: invites_ok_def)
    then show "si_token_hash x = si_token_hash ?iv" by simp
  qed
  moreover have "?iv \<in> set (staff_invites db')" using iv by (auto simp: assms(3) set_put_row)
  ultimately show ?thesis
    using first_where_unique[of si_token_hash "staff_invites db'" ?iv] assms(1) iv
    by (simp add: invite_of_def invites_ok_def)
qed

lemma accept_InrD:
  "accept_invite cr t u now db = Inr (k, role, db') \<Longrightarrow>
   \<exists>iv. invite_of cr t db = Some iv \<and> si_accepted_at iv = None \<and> si_revoked_at iv = None
     \<and> now < si_expires_at iv \<and> lower (strip (us_email u)) = si_email iv \<and> si_role iv = role
     \<and> k = kiosk_row (si_kiosk_id iv) db
     \<and> staff_invites db' = put_row si_id (iv\<lparr>si_accepted_at := Some now\<rparr>) (staff_invites db)
     \<and> staff_at db' = insert (si_kiosk_id iv, us_id u, role) (staff_at db)
     \<and> (\<forall>j. roles_of j db' = (if j = us_id u then insert (identity_role_for role) (roles_of j db) else roles_of j db))"
  by (auto simp: accept_invite_def Let_def staff_at_def roles_of_grant first_where_None_iff not_le
      dest!: first_where_SomeD split: option.splits if_splits)
   (auto simp: roles_of_def intro: rev_image_eqI)

text \<open>
  (Property). An invitation works once and only for its addressee: accepting one adds exactly one person to
  exactly one shop in the invited capacity, the accepting account's address is the invited one,
  nobody else's reach changes, and the link is dead afterwards for everybody.
\<close>

theorem invitation_binds_its_addressee:
  assumes "invites_ok db" and "accept_invite cr t u now db = Inr (k, role, db')"
  shows "(\<exists>iv. invite_of cr t db = Some iv \<and> si_email iv = lower (strip (us_email u)) \<and> si_role iv = role
       \<and> si_revoked_at iv = None \<and> now < si_expires_at iv
       \<and> staff_at db' = insert (si_kiosk_id iv, us_id u, role) (staff_at db))
    \<and> identity_role_for role \<in> roles_of (us_id u) db'
    \<and> (\<forall>v. us_id v \<noteq> us_id u \<longrightarrow> kiosk_scope v db' = kiosk_scope v db)
    \<and> (\<forall>v later. accept_invite cr t v later db' = Inl (BadRequest INVALID_INVITE))"
proof -
  from accept_InrD[OF assms(2)] obtain iv where iv: "invite_of cr t db = Some iv"
    "si_revoked_at iv = None" "now < si_expires_at iv" "lower (strip (us_email u)) = si_email iv"
    "si_role iv = role" "staff_invites db' = put_row si_id (iv\<lparr>si_accepted_at := Some now\<rparr>) (staff_invites db)"
    "staff_at db' = insert (si_kiosk_id iv, us_id u, role) (staff_at db)"
    and roles: "\<forall>j. roles_of j db' = (if j = us_id u then insert (identity_role_for role) (roles_of j db) else roles_of j db)"
    by blast
  have "accept_invite cr t v later db' = Inl (BadRequest INVALID_INVITE)" for v later
    using invite_put[OF assms(1) iv(1,6)] by (simp add: accept_invite_def)
  moreover have "kiosk_scope v db' = kiosk_scope v db" if "us_id v \<noteq> us_id u" for v
    using that roles by (simp add: kiosk_scope_by_staff iv(7))
  ultimately show ?thesis using iv roles by simp
qed

definition invited_example :: kiosks_db where
  "invited_example = staff_example\<lparr>staff_invites := [\<lparr>si_id = 1, si_kiosk_id = 1, si_invited_by_user_id = 7,
     si_email = ''a@x.test'', si_role = KIOSK_REFILLER, si_token_hash = ''#inv'', si_expires_at = days 7,
     si_accepted_at = None, si_revoked_at = None, si_created_at = 0\<rparr>]\<rparr>"

theorem invitation_binds_its_addressee_witness:
  "\<exists>k db'. accept_invite toy_crypto ''inv'' user_example 5 invited_example = Inr (k, KIOSK_REFILLER, db')
     \<and> staff_at db' = {(1, 1, KIOSK_REFILLER)}
     \<and> accept_invite toy_crypto ''inv'' user_example 6 db' = Inl (BadRequest INVALID_INVITE)"
proof -
  have ok: "invites_ok invited_example" by (simp add: invites_ok_def invited_example_def)
  have addr: "lower (strip ''a@x.test'') = ''a@x.test''" by code_simp
  obtain k db' where a: "accept_invite toy_crypto ''inv'' user_example 5 invited_example = Inr (k, KIOSK_REFILLER, db')"
    by (simp add: accept_invite_def invite_of_def invited_example_def toy_crypto_def user_example_def addr
        days_def hours_def minutes_def seconds_def Let_def)
  from invitation_binds_its_addressee[OF ok a] a show ?thesis
    by (auto simp: invite_of_def invited_example_def staff_example_def kiosks_example_def staff_at_def
        user_example_def split: if_splits)
qed

text \<open>
  The address is matched by \<^verbatim>\<open>ILIKE\<close>, where an underscore is any character: inviting one address
  is refused because a different person works at the shop.
\<close>

lemma invite_refused_for_a_namesake:
  "invite_staff cr kiosk_example ''b_@x.test'' KIOSK_REFILLER 9 now
     (two_shops\<lparr>users := [user_example\<lparr>us_email := ''bo@x.test''\<rparr>]\<rparr>) = Inl (Conflict ALREADY_WORKS_HERE)"
proof -
  have "lower (strip ''b_@x.test'') = ''b_@x.test''" by code_simp
  moreover have "ilike ''bo@x.test'' ''b_@x.test''" by code_simp
  ultimately show ?thesis
    by (simp add: invite_staff_def staffed_def two_shops_def kiosk_example_def user_example_def)
qed

section \<open>The owner's switch\<close>

text \<open>
  (Property). The status route moves a shop the caller reaches between service and maintenance and nowhere
  else, along the edges of the transition table, and never opens a shop whose owner cannot
  collect. The last rung of the onboarding ladder, from configured to live, is among them.
\<close>

theorem owner_switch:
  assumes "set_status billing u kiosk_id target db = Inr (k', db')"
  shows "(\<exists>k. owner_route u kiosk_id db = Inr k \<and> reaches u k db
        \<and> (ki_stage k = target \<and> k' = k \<and> db' = db
          \<or> can_transition (ki_stage k) target \<and> k' = k\<lparr>ki_stage := target\<rparr> \<and> db' = save_kiosk k' db
            \<and> (target = LIVE \<longrightarrow> requires_owner_billing k \<longrightarrow> billing db k)))
    \<and> ki_stage k' \<in> {LIVE, MAINTENANCE}"
  using assms
  by (auto simp: set_status_def bind_res_Inr_iff OWNER_SETTABLE_def owner_route_def get_kiosk_Inr_iff
      allows_kiosk_scope move_to_def Let_def split: if_splits)

theorem owner_switch_witness:
  "\<exists>k' db'. set_status (\<lambda>_ _. False) user_example ''ksk_0000000000000000'' MAINTENANCE two_shops = Inr (k', db')
     \<and> ki_stage k' = MAINTENANCE"
proof -
  let ?k = "kiosk_example\<lparr>ki_public_id := ''ksk_0000000000000000''\<rparr>"
  have p: "parse_id ''ksk_0000000000000000'' KIOSK = Inr ''0000000000000000''" by code_simp
  have "owner_route user_example ''ksk_0000000000000000'' two_shops = Inr ?k"
    by (simp add: owner_route_def require_any_role_def get_kiosk_def p two_shops_def staff_example_def
        kiosk_scope_def allows_def roles_of_def user_example_def kiosk_example_def)
  then have s: "set_status (\<lambda>_ _. False) user_example ''ksk_0000000000000000'' MAINTENANCE two_shops
      = Inr (?k\<lparr>ki_stage := MAINTENANCE\<rparr>, save_kiosk (?k\<lparr>ki_stage := MAINTENANCE\<rparr>) two_shops)"
    by (simp add: set_status_def OWNER_SETTABLE_def move_to_def kiosk_example_def can_transition_def Let_def)
  with owner_switch[OF s] show ?thesis by auto
qed

end
