(* ===== verification/Billing.thy ===== *)
theory Billing
  imports BillingModels Identity Money Pricing
begin

text \<open>
  \<^verbatim>\<open>app/modules/billing\<close>: plans and their price bands, the discount ladders, what a subscription
  costs, buying one, trials, and the one predicate that says whether an owner's subscription is
  in force. A subscription is passed as its row and returned changed, together with the session.
\<close>

section \<open>Whether a subscription is in force\<close>

definition somes :: "'v option list \<Rightarrow> 'v list" where
  "somes vs = List.map_filter id vs"

definition effective_end :: "subscription \<Rightarrow> datetime option" where
  "effective_end s =
     (case somes [sb_free_until s, sb_grace_ends_at s, sb_expires_at s] of
        [] \<Rightarrow> None | d # ds \<Rightarrow> Some (fold max ds d))"

definition is_in_force :: "subscription \<Rightarrow> datetime \<Rightarrow> bool" where
  "is_in_force s now =
     (if sb_status s \<noteq> SUB_ACTIVE then False
      else (case effective_end s of None \<Rightarrow> False | Some e \<Rightarrow> now < e))"

text \<open>Python's \<^verbatim>\<open>max(candidates, key=...)\<close>: the first of the largest.\<close>

fun max_by :: "('r \<Rightarrow> int) \<Rightarrow> 'r \<Rightarrow> 'r list \<Rightarrow> 'r" where
  "max_by f best [] = best"
| "max_by f best (r # rs) = max_by f (if f best < f r then r else best) rs"

definition end_of :: "subscription \<Rightarrow> datetime" where
  "end_of s = (case effective_end s of Some e \<Rightarrow> e | None \<Rightarrow> 0)"

definition active_subscription :: "nat \<Rightarrow> datetime \<Rightarrow> 'a billing_db_scheme \<Rightarrow> subscription option" where
  "active_subscription user_id now db =
     (case filter (\<lambda>s. is_in_force s now)
             (filter (\<lambda>s. sb_user_id s = user_id \<and> sb_status s = SUB_ACTIVE) (subscriptions db)) of
        [] \<Rightarrow> None
      | s # ss \<Rightarrow> Some (max_by end_of s ss))"

definition has_active_subscription :: "nat \<Rightarrow> datetime \<Rightarrow> 'a billing_db_scheme \<Rightarrow> bool" where
  "has_active_subscription user_id now db \<longleftrightarrow> active_subscription user_id now db \<noteq> None"

definition is_on_trial :: "subscription \<Rightarrow> datetime \<Rightarrow> bool" where
  "is_on_trial s now = (case sb_free_until s of None \<Rightarrow> False | Some t \<Rightarrow> now < t)"

definition subscription_by_public_id :: "string \<Rightarrow> 'a billing_db_scheme \<Rightarrow> subscription option" where
  "subscription_by_public_id public_id db = first_where (\<lambda>s. sb_public_id s = public_id) (subscriptions db)"

definition subscriptions_of :: "nat \<Rightarrow> 'a billing_db_scheme \<Rightarrow> subscription list" where
  "subscriptions_of user_id db =
     sort_key (\<lambda>s. - int (sb_id s)) (filter (\<lambda>s. sb_user_id s = user_id) (subscriptions db))"

text \<open>\<^verbatim>\<open>db.get(Subscription, id)\<close>, \<^verbatim>\<open>db.add(s); db.flush()\<close> of a row already there, and of a new one.\<close>

definition subscription_row :: "nat \<Rightarrow> 'a billing_db_scheme \<Rightarrow> subscription option" where
  "subscription_row i db = row_by sb_id (subscriptions db) i"

definition save_subscription :: "subscription \<Rightarrow> 'a billing_db_scheme \<Rightarrow> 'a billing_db_scheme" where
  "save_subscription s db = db\<lparr>subscriptions := put_row sb_id s (subscriptions db)\<rparr>"

definition new_subscription ::
  "nat \<Rightarrow> nat \<Rightarrow> subscription_status \<Rightarrow> int \<Rightarrow> rat \<Rightarrow> rat \<Rightarrow> rat \<Rightarrow> rat option \<Rightarrow> datetime option \<Rightarrow>
   datetime option \<Rightarrow> 'a billing_db_scheme \<Rightarrow> subscription \<times> 'a billing_db_scheme" where
  "new_subscription user_id plan_id status months monthly percent tot negotiated free_until starts_at db =
     (let (pid, db1) = mint SUBSCRIPTION db;
          s = \<lparr>sb_id = fresh_key sb_id (subscriptions db), sb_public_id = pid, sb_user_id = user_id,
               sb_plan_id = plan_id, sb_status = status, sb_duration_months = months,
               sb_monthly_price_charged = monthly, sb_discount_percent = percent, sb_total_amount = tot,
               sb_negotiated_price = negotiated, sb_free_until = free_until, sb_starts_at = starts_at,
               sb_expires_at = None, sb_grace_ends_at = None, sb_razorpay_order_id = None,
               sb_razorpay_payment_id = None, sb_created_at = tx_now db\<rparr>
      in (s, db1\<lparr>subscriptions := subscriptions db @ [s]\<rparr>))"

section \<open>Trials and negotiated prices\<close>

definition ONE_DAY :: string where
  "ONE_DAY = ''A trial has to last at least a day.''"

definition grant_trial ::
  "nat \<Rightarrow> plan \<Rightarrow> int \<Rightarrow> datetime \<Rightarrow> 'a billing_db_scheme \<Rightarrow> (subscription \<times> 'a billing_db_scheme) result" where
  "grant_trial user_id p n now db =
     (if n < 1 then Inl (BadRequest ONE_DAY)
      else
        let ends = now + days n in
        case active_subscription user_id now db of
          Some existing \<Rightarrow>
            (case sb_free_until existing of
               Some until \<Rightarrow>
                 let s = existing\<lparr>sb_free_until := Some (max until ends), sb_plan_id := pn_id p\<rparr>
                 in Inr (s, save_subscription s db)
             | None \<Rightarrow> Inr (new_subscription user_id (pn_id p) SUB_ACTIVE 1 0 0 0 None (Some ends) (Some now) db))
        | None \<Rightarrow> Inr (new_subscription user_id (pn_id p) SUB_ACTIVE 1 0 0 0 None (Some ends) (Some now) db))"

definition end_trial :: "subscription \<Rightarrow> datetime \<Rightarrow> 'a billing_db_scheme \<Rightarrow> subscription \<times> 'a billing_db_scheme" where
  "end_trial s now db = (let s' = s\<lparr>sb_free_until := Some now\<rparr> in (s', save_subscription s' db))"

definition NEGATIVE_SUBSCRIPTION :: string where
  "NEGATIVE_SUBSCRIPTION = ''A subscription price cannot be negative.''"

definition set_negotiated_price ::
  "subscription \<Rightarrow> rat option \<Rightarrow> 'a billing_db_scheme \<Rightarrow> (subscription \<times> 'a billing_db_scheme) result" where
  "set_negotiated_price s price db =
     (let price' = map_option as_money price in
      if (case price' of Some v \<Rightarrow> v < 0 | None \<Rightarrow> False) then Inl (BadRequest NEGATIVE_SUBSCRIPTION)
      else let s' = s\<lparr>sb_negotiated_price := price'\<rparr> in Inr (s', save_subscription s' db))"

section \<open>Discounts\<close>

definition ALLOWED_DURATIONS :: "int list" where
  "ALLOWED_DURATIONS = [1, 6, 12]"

definition SOLD_FOR :: string where
  "SOLD_FOR = ''Subscriptions are sold for '' @ join_with '', '' (map show_int ALLOWED_DURATIONS) @ '' months.''"

definition PERCENT_RANGE :: string where
  "PERCENT_RANGE = ''A discount must be between 0 and 100 percent.''"

definition check_discount :: "int \<Rightarrow> rat \<Rightarrow> rat result" where
  "check_discount duration_months percent =
     (if duration_months \<notin> set ALLOWED_DURATIONS then Inl (BadRequest SOLD_FOR)
      else let p = as_money percent in
           if \<not> (0 \<le> p \<and> p \<le> 100) then Inl (BadRequest PERCENT_RANGE) else Inr p)"

definition set_plan_discount ::
  "plan \<Rightarrow> int \<Rightarrow> rat \<Rightarrow> 'a billing_db_scheme \<Rightarrow> (plan_discount \<times> 'a billing_db_scheme) result" where
  "set_plan_discount p duration_months percent db =
     bind_res (check_discount duration_months percent) (\<lambda>pc.
       case first_where (\<lambda>d. pd_plan_id d = pn_id p \<and> pd_duration_months d = duration_months) (plan_discounts db) of
         Some existing \<Rightarrow>
           let d = existing\<lparr>pd_percent := pc\<rparr>
           in Inr (d, db\<lparr>plan_discounts := put_row pd_id d (plan_discounts db)\<rparr>)
       | None \<Rightarrow>
           let d = \<lparr>pd_id = fresh_key pd_id (plan_discounts db), pd_plan_id = pn_id p,
                    pd_duration_months = duration_months, pd_percent = pc\<rparr>
           in Inr (d, db\<lparr>plan_discounts := plan_discounts db @ [d]\<rparr>))"

definition set_owner_discount ::
  "nat \<Rightarrow> int \<Rightarrow> rat \<Rightarrow> nat option \<Rightarrow> string option \<Rightarrow> 'a billing_db_scheme \<Rightarrow>
   (owner_discount \<times> 'a billing_db_scheme) result" where
  "set_owner_discount user_id duration_months percent granted_by remark db =
     bind_res (check_discount duration_months percent) (\<lambda>pc.
       case first_where (\<lambda>d. od_user_id d = user_id \<and> od_duration_months d = duration_months) (owner_discounts db) of
         Some existing \<Rightarrow>
           let d = existing\<lparr>od_percent := pc, od_note := remark, od_granted_by_user_id := granted_by\<rparr>
           in Inr (d, db\<lparr>owner_discounts := put_row od_id d (owner_discounts db)\<rparr>)
       | None \<Rightarrow>
           let d = \<lparr>od_id = fresh_key od_id (owner_discounts db), od_user_id = user_id,
                    od_duration_months = duration_months, od_percent = pc, od_note = remark,
                    od_granted_by_user_id = granted_by, od_created_at = tx_now db\<rparr>
           in Inr (d, db\<lparr>owner_discounts := owner_discounts db @ [d]\<rparr>))"

definition clear_owner_discount :: "nat \<Rightarrow> int \<Rightarrow> 'a billing_db_scheme \<Rightarrow> 'a billing_db_scheme" where
  "clear_owner_discount user_id duration_months db =
     db\<lparr>owner_discounts := filter (\<lambda>d. \<not> (od_user_id d = user_id \<and> od_duration_months d = duration_months))
                             (owner_discounts db)\<rparr>"

definition owner_discounts_of :: "nat \<Rightarrow> 'a billing_db_scheme \<Rightarrow> owner_discount list" where
  "owner_discounts_of user_id db =
     sort_key od_duration_months (filter (\<lambda>d. od_user_id d = user_id) (owner_discounts db))"

definition plan_discounts_of :: "plan \<Rightarrow> 'a billing_db_scheme \<Rightarrow> plan_discount list" where
  "plan_discounts_of p db =
     sort_key pd_duration_months (filter (\<lambda>d. pd_plan_id d = pn_id p) (plan_discounts db))"

section \<open>Quotes\<close>

datatype discount_source = FROM_OWNER | FROM_PLAN | FROM_NOTHING

record quote =
  qt_duration_months :: int
  qt_monthly_price :: rat
  qt_discount_percent :: rat
  qt_total :: rat
  qt_negotiated :: bool
  qt_discount_source :: discount_source

definition discount_for :: "nat \<Rightarrow> nat \<Rightarrow> int \<Rightarrow> 'a billing_db_scheme \<Rightarrow> rat \<times> discount_source" where
  "discount_for user_id plan_id duration_months db =
     (case first_where (\<lambda>d. od_user_id d = user_id \<and> od_duration_months d = duration_months) (owner_discounts db) of
        Some d \<Rightarrow> (od_percent d, FROM_OWNER)
      | None \<Rightarrow>
          (case first_where (\<lambda>d. pd_plan_id d = plan_id \<and> pd_duration_months d = duration_months) (plan_discounts db) of
             Some d \<Rightarrow> (pd_percent d, FROM_PLAN)
           | None \<Rightarrow> (0, FROM_NOTHING)))"

definition no_longer_sold :: "plan \<Rightarrow> string" where
  "no_longer_sold p = ''The '' @ pn_name p @ '' plan is no longer available.''"

definition quote_subscription ::
  "nat \<Rightarrow> plan \<Rightarrow> int \<Rightarrow> rat option \<Rightarrow> 'a billing_db_scheme \<Rightarrow> quote result" where
  "quote_subscription user_id p duration_months negotiated_price db =
     (if duration_months \<notin> set ALLOWED_DURATIONS then Inl (BadRequest SOLD_FOR)
      else if \<not> pn_is_active p then Inl (BadRequest (no_longer_sold p))
      else
        let monthly = as_money (case negotiated_price of Some v \<Rightarrow> v | None \<Rightarrow> pn_monthly_price p) in
        if monthly < 0 then Inl (BadRequest NEGATIVE_SUBSCRIPTION)
        else
          let (percent, source) = discount_for user_id (pn_id p) duration_months db in
          if \<not> (0 \<le> percent \<and> percent \<le> 100) then Inl (BadRequest PERCENT_RANGE)
          else
            let gross = monthly * of_int duration_months
            in Inr \<lparr>qt_duration_months = duration_months, qt_monthly_price = monthly,
                    qt_discount_percent = as_money percent,
                    qt_total = as_money (gross - gross * percent / 100),
                    qt_negotiated = (negotiated_price \<noteq> None), qt_discount_source = source\<rparr>)"

section \<open>Buying a subscription\<close>

definition DAYS_PER_MONTH :: int where
  "DAYS_PER_MONTH = 30"

definition GRACE_DAYS :: int where
  "GRACE_DAYS = 5"

definition PURCHASE_LIFETIME :: datetime where
  "PURCHASE_LIFETIME = minutes 20"

definition ALREADY_BUYING :: string where
  "ALREADY_BUYING = ''There is already a payment open for this subscription. Finish it, or wait ''
     @ show_int (PURCHASE_LIFETIME div minutes 1) @ '' minutes for it to lapse, before starting another.''"

definition NOT_PURCHASABLE :: string where
  "NOT_PURCHASABLE = ''That subscription is not waiting to be paid for.''"

definition ONE_MONTH :: string where
  "ONE_MONTH = ''A subscription must run for at least a month.''"

definition open_purchase :: "nat \<Rightarrow> subscription \<Rightarrow> bool" where
  "open_purchase user_id s \<longleftrightarrow> sb_user_id s = user_id \<and> sb_status s = SUB_PENDING_PAYMENT"

definition start_purchase ::
  "nat \<Rightarrow> plan \<Rightarrow> int \<Rightarrow> datetime \<Rightarrow> 'a billing_db_scheme \<Rightarrow> (subscription \<times> 'a billing_db_scheme) result" where
  "start_purchase user_id p duration_months now db =
     bind_res
       (case first_where (open_purchase user_id) (subscriptions db) of
          None \<Rightarrow> Inr db
        | Some open_already \<Rightarrow>
            if now - sb_created_at open_already \<le> PURCHASE_LIFETIME then Inl (Conflict ALREADY_BUYING)
            else Inr (save_subscription (open_already\<lparr>sb_status := SUB_CANCELLED\<rparr>) db))
       (\<lambda>db1.
         let promised = (case active_subscription user_id now db1 of
                           Some existing \<Rightarrow> sb_negotiated_price existing | None \<Rightarrow> None) in
         bind_res (quote_subscription user_id p duration_months promised db1) (\<lambda>q.
           Inr (new_subscription user_id (pn_id p) SUB_PENDING_PAYMENT (qt_duration_months q)
                  (qt_monthly_price q) (qt_discount_percent q) (qt_total q) promised None None db1)))"

definition entitled_until :: "subscription \<Rightarrow> datetime option" where
  "entitled_until s =
     (case somes [sb_expires_at s, sb_free_until s] of [] \<Rightarrow> None | d # ds \<Rightarrow> Some (fold max ds d))"

definition activate_subscription ::
  "subscription \<Rightarrow> datetime \<Rightarrow> 'a billing_db_scheme \<Rightarrow> (subscription \<times> 'a billing_db_scheme) result" where
  "activate_subscription s now db =
     (if sb_status s = SUB_ACTIVE then Inr (s, db)
      else if sb_status s \<noteq> SUB_PENDING_PAYMENT then Inl (Conflict NOT_PURCHASABLE)
      else if sb_duration_months s < 1 then Inl (BadRequest ONE_MONTH)
      else
        let starts_at =
              (case active_subscription (sb_user_id s) now db of
                 Some current \<Rightarrow>
                   if sb_id current \<noteq> sb_id s
                   then (case entitled_until current of
                           Some until \<Rightarrow> if until > now then until else now | None \<Rightarrow> now)
                   else now
               | None \<Rightarrow> now);
            expires_at = starts_at + days (DAYS_PER_MONTH * sb_duration_months s);
            s' = s\<lparr>sb_status := SUB_ACTIVE, sb_starts_at := Some starts_at,
                   sb_expires_at := Some expires_at,
                   sb_grace_ends_at := Some (expires_at + days GRACE_DAYS)\<rparr>
        in Inr (s', save_subscription s' db))"

section \<open>Plans\<close>

definition NO_SUCH_PLAN :: string where
  "NO_SUCH_PLAN = ''That plan does not exist.''"

definition check_band :: "rat option \<Rightarrow> rat option \<Rightarrow> string \<Rightarrow> unit result" where
  "check_band floor_price ceiling_price colour =
     (if (case floor_price of Some f \<Rightarrow> f < 0 | None \<Rightarrow> False)
      then Inl (BadRequest (''The '' @ colour @ '' price floor cannot be negative.''))
      else (case (floor_price, ceiling_price) of
              (Some f, Some c) \<Rightarrow>
                if c < f then Inl (BadRequest (''The '' @ colour @ '' price floor cannot be above the ''
                                               @ colour @ '' ceiling.''))
                else Inr ()
            | _ \<Rightarrow> Inr ()))"

definition NEGATIVE_PLAN :: string where
  "NEGATIVE_PLAN = ''A plan price cannot be negative.''"

definition ONE_KIOSK :: string where
  "ONE_KIOSK = ''A plan has to allow at least one kiosk.''"

definition create_plan ::
  "string \<Rightarrow> rat \<Rightarrow> int \<Rightarrow> rat option \<Rightarrow> rat option \<Rightarrow> rat option \<Rightarrow> rat option \<Rightarrow>
   'a billing_db_scheme \<Rightarrow> (plan \<times> 'a billing_db_scheme) result" where
  "create_plan raw_name monthly_price max_kiosks floor_b ceiling_b floor_c ceiling_c db =
     (let nm = strip raw_name; price = as_money monthly_price in
      bind_res (require (nm \<noteq> []) (BadRequest ''A plan needs a name.'')) (\<lambda>_.
      bind_res (require (0 \<le> price) (BadRequest NEGATIVE_PLAN)) (\<lambda>_.
      bind_res (require (1 \<le> max_kiosks) (BadRequest ONE_KIOSK)) (\<lambda>_.
      bind_res (check_band floor_b ceiling_b ''black and white'') (\<lambda>_.
      bind_res (check_band floor_c ceiling_c ''colour'') (\<lambda>_.
      bind_res (require (\<forall>p \<in> set (plans db). pn_name p \<noteq> nm)
                 (Conflict (''A plan called '' @ py_repr nm @ '' already exists.''))) (\<lambda>_.
        let (pid, db1) = mint SUBSCRIPTION db;
            p = \<lparr>pn_id = fresh_key pn_id (plans db), pn_public_id = pid, pn_name = nm,
                 pn_monthly_price = price, pn_max_kiosks = max_kiosks,
                 pn_price_floor_bw = map_option as_money floor_b,
                 pn_price_ceiling_bw = map_option as_money ceiling_b,
                 pn_price_floor_color = map_option as_money floor_c,
                 pn_price_ceiling_color = map_option as_money ceiling_c,
                 pn_is_active = True, pn_created_at = tx_now db\<rparr>
        in Inr (p, db1\<lparr>plans := plans db @ [p]\<rparr>))))))))"

definition given :: "'v option \<Rightarrow> 'v option \<Rightarrow> 'v option" where
  "given v old = (case v of Some x \<Rightarrow> Some x | None \<Rightarrow> old)"

definition update_plan ::
  "plan \<Rightarrow> rat option \<Rightarrow> int option \<Rightarrow> rat option \<Rightarrow> rat option \<Rightarrow> rat option \<Rightarrow> rat option \<Rightarrow> bool option \<Rightarrow>
   'a billing_db_scheme \<Rightarrow> (plan \<times> 'a billing_db_scheme) result" where
  "update_plan p monthly_price max_kiosks floor_b ceiling_b floor_c ceiling_c is_active db =
     (let price = (case monthly_price of Some v \<Rightarrow> as_money v | None \<Rightarrow> pn_monthly_price p);
          fb = given floor_b (pn_price_floor_bw p); cb = given ceiling_b (pn_price_ceiling_bw p);
          fc = given floor_c (pn_price_floor_color p); cc = given ceiling_c (pn_price_ceiling_color p) in
      bind_res (require (monthly_price \<noteq> None \<longrightarrow> 0 \<le> price) (BadRequest NEGATIVE_PLAN)) (\<lambda>_.
      bind_res (require (case max_kiosks of Some n \<Rightarrow> 1 \<le> n | None \<Rightarrow> True) (BadRequest ONE_KIOSK)) (\<lambda>_.
      bind_res (check_band fb cb ''black and white'') (\<lambda>_.
      bind_res (check_band fc cc ''colour'') (\<lambda>_.
        let p' = p\<lparr>pn_monthly_price := price,
                   pn_max_kiosks := (case max_kiosks of Some n \<Rightarrow> n | None \<Rightarrow> pn_max_kiosks p),
                   pn_price_floor_bw := map_option as_money fb, pn_price_ceiling_bw := map_option as_money cb,
                   pn_price_floor_color := map_option as_money fc, pn_price_ceiling_color := map_option as_money cc,
                   pn_is_active := (case is_active of Some b \<Rightarrow> b | None \<Rightarrow> pn_is_active p)\<rparr>
        in Inr (p', db\<lparr>plans := put_row pn_id p' (plans db)\<rparr>))))))"

definition active_plans :: "'a billing_db_scheme \<Rightarrow> plan list" where
  "active_plans db = sort_key pn_monthly_price (filter pn_is_active (plans db))"

definition all_plans :: "'a billing_db_scheme \<Rightarrow> plan list" where
  "all_plans db = sort_key pn_monthly_price (plans db)"

definition plan_named :: "nat \<Rightarrow> 'a billing_db_scheme \<Rightarrow> string" where
  "plan_named plan_id db = (case row_by pn_id (plans db) plan_id of Some p \<Rightarrow> pn_name p | None \<Rightarrow> ''Subscription'')"

definition plan_by_public_id :: "string \<Rightarrow> 'a billing_db_scheme \<Rightarrow> plan result" where
  "plan_by_public_id public_id db =
     (case first_where (\<lambda>p. pn_public_id p = public_id) (plans db) of
        Some p \<Rightarrow> Inr p | None \<Rightarrow> Inl (NotFound NO_SUCH_PLAN))"

text \<open>
  \<^verbatim>\<open>bands.py\<close>: the band of the plan this owner is paying for, unbounded without one. The code's
  \<^verbatim>\<open>PlanPriceBand\<close> has the four fields of the band the kiosks module declares.
\<close>

definition price_band_for :: "nat \<Rightarrow> datetime \<Rightarrow> 'a billing_db_scheme \<Rightarrow> price_band" where
  "price_band_for user_id now db =
     (case active_subscription user_id now db of
        None \<Rightarrow> UNBOUNDED
      | Some s \<Rightarrow>
          (case row_by pn_id (plans db) (sb_plan_id s) of
             None \<Rightarrow> UNBOUNDED
           | Some p \<Rightarrow> \<lparr>floor_bw = pn_price_floor_bw p, ceiling_bw = pn_price_ceiling_bw p,
                         floor_color = pn_price_floor_color p, ceiling_color = pn_price_ceiling_color p\<rparr>))"

section \<open>In force\<close>

lemma somes_simps [simp]: "somes [] = []" "somes (None # vs) = somes vs" "somes (Some v # vs) = v # somes vs"
  by (simp_all add: somes_def List.map_filter_def)

lemma somes_Nil_iff: "somes vs = [] \<longleftrightarrow> (\<forall>v \<in> set vs. v = None)"
  by (induction vs) (auto simp: somes_def List.map_filter_def)

lemma set_somes: "set (somes vs) = {v. Some v \<in> set vs}"
  by (induction vs) (auto simp: somes_def List.map_filter_def)

lemma fold_max_less: "(now::int) < fold max ds d \<longleftrightarrow> now < d \<or> (\<exists>x \<in> set ds. now < x)"
  by (induction ds arbitrary: d) (auto simp: less_max_iff_disj)

lemma is_in_force_iff:
  "is_in_force s now \<longleftrightarrow> sb_status s = SUB_ACTIVE
     \<and> (\<exists>d. now < d \<and> (sb_free_until s = Some d \<or> sb_grace_ends_at s = Some d \<or> sb_expires_at s = Some d))"
proof (cases "somes [sb_free_until s, sb_grace_ends_at s, sb_expires_at s]")
  case Nil
  then show ?thesis by (auto simp: is_in_force_def effective_end_def somes_Nil_iff)
next
  case (Cons d ds)
  have mem: "x \<in> set (d # ds) \<longleftrightarrow> sb_free_until s = Some x \<or> sb_grace_ends_at s = Some x \<or> sb_expires_at s = Some x" for x
    unfolding Cons[symmetric] set_somes by (auto dest: sym)
  have "now < fold max ds d \<longleftrightarrow> (\<exists>x. x \<in> set (d # ds) \<and> now < x)"
    by (auto simp: fold_max_less)
  then show ?thesis unfolding mem using Cons by (auto simp: is_in_force_def effective_end_def)
qed

lemma in_force_end: "is_in_force s now \<longleftrightarrow> sb_status s = SUB_ACTIVE \<and> effective_end s \<noteq> None \<and> now < end_of s"
  by (auto simp: is_in_force_def end_of_def split: option.splits)

lemma max_by_in: "max_by f b rs \<in> insert b (set rs)"
proof (induction rs arbitrary: b)
  case (Cons r rs)
  then show ?case using Cons.IH[of "if f b < f r then r else b"] by (auto split: if_splits)
qed simp

lemma max_by_ge: "\<forall>x \<in> insert b (set rs). f x \<le> f (max_by f b rs)"
proof (induction rs arbitrary: b)
  case (Cons r rs)
  have "f b \<le> f (if f b < f r then r else b)" "f r \<le> f (if f b < f r then r else b)" by auto
  moreover have "f (if f b < f r then r else b) \<le> f (max_by f b (r # rs))"
    using Cons.IH[of "if f b < f r then r else b"] by simp
  ultimately show ?case using Cons.IH[of "if f b < f r then r else b"] Cons.prems by fastforce
qed simp

lemma active_subscription_SomeD:
  assumes "active_subscription u now db = Some s"
  shows "s \<in> set (subscriptions db)" "sb_user_id s = u" "is_in_force s now"
    "\<forall>t \<in> set (subscriptions db). sb_user_id t = u \<longrightarrow> is_in_force t now \<longrightarrow> end_of t \<le> end_of s"
proof -
  let ?c = "filter (\<lambda>s. is_in_force s now) (filter (\<lambda>s. sb_user_id s = u \<and> sb_status s = SUB_ACTIVE) (subscriptions db))"
  obtain a as where c: "?c = a # as" and s: "s = max_by end_of a as"
    using assms by (auto simp: active_subscription_def split: list.splits)
  have mem: "set (a # as) = {s \<in> set (subscriptions db). sb_user_id s = u \<and> is_in_force s now}"
    unfolding c[symmetric] by (auto simp: is_in_force_iff)
  have "s \<in> set (a # as)" using max_by_in[of end_of a as] s by simp
  with mem show "s \<in> set (subscriptions db)" "sb_user_id s = u" "is_in_force s now" by auto
  show "\<forall>t \<in> set (subscriptions db). sb_user_id t = u \<longrightarrow> is_in_force t now \<longrightarrow> end_of t \<le> end_of s"
    using max_by_ge[of a as end_of] mem s by auto
qed

lemma active_subscription_None_iff:
  "active_subscription u now db = None \<longleftrightarrow>
     (\<forall>s \<in> set (subscriptions db). sb_user_id s = u \<longrightarrow> \<not> is_in_force s now)"
  by (auto simp: active_subscription_def is_in_force_iff filter_eq_Cons_iff split: list.splits)
    (auto simp: filter_empty_conv is_in_force_iff)

text \<open>
  (Property). One answer to whether an owner may collect: it is no exactly when none of their subscriptions is
  active with a term, a grace window or a trial still running, and otherwise the answer is the
  one that runs longest.
\<close>

theorem active_subscription_is_best:
  "case active_subscription u now db of
     None \<Rightarrow> \<not> (\<exists>s \<in> set (subscriptions db). sb_user_id s = u \<and> sb_status s = SUB_ACTIVE
        \<and> (\<exists>d. now < d \<and> (sb_free_until s = Some d \<or> sb_grace_ends_at s = Some d \<or> sb_expires_at s = Some d)))
   | Some s \<Rightarrow> s \<in> set (subscriptions db) \<and> sb_user_id s = u \<and> is_in_force s now
        \<and> \<not> (\<exists>t \<in> set (subscriptions db). sb_user_id t = u \<and> is_in_force t now \<and> end_of s < end_of t)"
proof (cases "active_subscription u now db")
  case None
  then have "\<forall>s \<in> set (subscriptions db). sb_user_id s = u \<longrightarrow> \<not> is_in_force s now"
    unfolding active_subscription_None_iff .
  with None show ?thesis by (auto simp: is_in_force_iff)
next
  case (Some s)
  with active_subscription_SomeD[OF Some] show ?thesis by fastforce
qed

section \<open>Buying\<close>

lemma new_subscription_shape:
  "new_subscription u pid st m mo pc tt ng fu sa db = (s, db') \<Longrightarrow>
   subscriptions db' = subscriptions db @ [s] \<and> sb_id s = fresh_key sb_id (subscriptions db) \<and> sb_user_id s = u
   \<and> sb_plan_id s = pid \<and> sb_status s = st \<and> sb_duration_months s = m \<and> sb_monthly_price_charged s = mo
   \<and> sb_discount_percent s = pc \<and> sb_total_amount s = tt \<and> sb_negotiated_price s = ng \<and> sb_free_until s = fu
   \<and> sb_starts_at s = sa \<and> sb_expires_at s = None \<and> sb_grace_ends_at s = None
   \<and> plans db' = plans db \<and> owner_discounts db' = owner_discounts db \<and> plan_discounts db' = plan_discounts db"
  by (auto simp: new_subscription_def mint_def Let_def)

lemma save_subscription_simps [simp]:
  "subscriptions (save_subscription s db) = put_row sb_id s (subscriptions db)"
  "plans (save_subscription s db) = plans db"
  "owner_discounts (save_subscription s db) = owner_discounts db"
  "plan_discounts (save_subscription s db) = plan_discounts db"
  by (simp_all add: save_subscription_def)

text \<open>
  C21. A paid subscription is given its whole term: it starts no earlier than today and no earlier
  than the end of everything the subscription now in force was paid or given (its grace days
  excluded), runs thirty days a month with five days of grace after, is in force from the moment
  it is activated to the end of the grace, and activating it again changes nothing.
\<close>

theorem activation_gives_the_term:
  assumes "activate_subscription s now db = Inr (s', db')" and "sb_status s = SUB_PENDING_PAYMENT"
    and "s \<in> set (subscriptions db)" and "distinct (map sb_id (subscriptions db))"
  shows "\<exists>start. sb_starts_at s' = Some start \<and> now \<le> start
    \<and> sb_expires_at s' = Some (start + days (30 * sb_duration_months s))
    \<and> sb_grace_ends_at s' = Some (start + days (30 * sb_duration_months s + 5))
    \<and> (\<forall>current d. active_subscription (sb_user_id s) now db = Some current \<longrightarrow>
         sb_expires_at current = Some d \<or> sb_free_until current = Some d \<longrightarrow> d \<le> start)
    \<and> (\<forall>later < start + days (30 * sb_duration_months s + 5). has_active_subscription (sb_user_id s) later db')
    \<and> (\<forall>later. activate_subscription s' later db' = Inr (s', db'))"
proof -
  define start where "start = (case active_subscription (sb_user_id s) now db of
      Some current \<Rightarrow> if sb_id current \<noteq> sb_id s
        then (case entitled_until current of Some until \<Rightarrow> if until > now then until else now | None \<Rightarrow> now)
        else now | None \<Rightarrow> now)"
  have s': "s' = s\<lparr>sb_status := SUB_ACTIVE, sb_starts_at := Some start,
        sb_expires_at := Some (start + days (30 * sb_duration_months s)),
        sb_grace_ends_at := Some (start + days (30 * sb_duration_months s) + days 5)\<rparr>"
    and db': "db' = save_subscription s' db"
    using assms(1,2) by (auto simp: activate_subscription_def Let_def start_def DAYS_PER_MONTH_def GRACE_DAYS_def
        split: if_splits)
  have days5: "days (n + 5) = days n + days 5" for n
    by (simp add: days_def hours_def minutes_def seconds_def)
  have "now \<le> start" by (auto simp: start_def split: option.splits)
  moreover have "d \<le> start"
    if c: "active_subscription (sb_user_id s) now db = Some current"
      and d: "sb_expires_at current = Some d \<or> sb_free_until current = Some d" for current d
  proof -
    note cur = active_subscription_SomeD[OF c]
    have "sb_id current \<noteq> sb_id s"
    proof
      assume "sb_id current = sb_id s"
      then have "current = s" using distinct_key_eq[OF assms(4,3) cur(1)] by simp
      with cur(3) assms(2) show False by (simp add: is_in_force_iff)
    qed
    moreover have "\<exists>m. entitled_until current = Some m \<and> d \<le> m"
      using d by (auto simp: entitled_until_def split: option.splits)
        (auto simp: somes_def List.map_filter_def split: option.splits)
    ultimately show ?thesis using c by (auto simp: start_def)
  qed
  moreover have "has_active_subscription (sb_user_id s) later db'"
    if "later < start + days (30 * sb_duration_months s + 5)" for later
  proof -
    have "s' \<in> set (subscriptions db')" using assms(3) by (auto simp: db' s' set_put_row)
    moreover have "is_in_force s' later" using that by (auto simp: is_in_force_iff s' days5)
    moreover have "sb_user_id s' = sb_user_id s" by (simp add: s')
    ultimately show ?thesis unfolding has_active_subscription_def active_subscription_None_iff by blast
  qed
  moreover have "activate_subscription s' later db' = Inr (s', db')" for later
    by (simp add: activate_subscription_def s')
  ultimately show ?thesis by (auto simp: s' days5)
qed

definition pending_example :: subscription where
  "pending_example = \<lparr>sb_id = 2, sb_public_id = ''sub_2'', sb_user_id = 1, sb_plan_id = 1,
     sb_status = SUB_PENDING_PAYMENT, sb_duration_months = 6, sb_monthly_price_charged = 499,
     sb_discount_percent = 0, sb_total_amount = 2994, sb_negotiated_price = None, sb_free_until = None,
     sb_starts_at = None, sb_expires_at = None, sb_grace_ends_at = None, sb_razorpay_order_id = None,
     sb_razorpay_payment_id = None, sb_created_at = 0\<rparr>"

definition running_example :: subscription where
  "running_example = pending_example\<lparr>sb_id := 1, sb_status := SUB_ACTIVE, sb_expires_at := Some (days 30),
     sb_grace_ends_at := Some (days 35)\<rparr>"

definition renewing_example :: billing_db where
  "renewing_example = billing_blank\<lparr>subscriptions := [running_example, pending_example]\<rparr>"

lemma renewing_active: "active_subscription 1 5 renewing_example = Some running_example"
  by (simp add: active_subscription_def renewing_example_def running_example_def pending_example_def
      is_in_force_def effective_end_def days_def hours_def minutes_def seconds_def)

theorem activation_gives_the_term_witness:
  "\<exists>s' db'. activate_subscription pending_example 5 renewing_example = Inr (s', db')
     \<and> sb_starts_at s' = Some (days 30) \<and> has_active_subscription 1 (days 200) db'"
proof -
  have "entitled_until running_example = Some (days 30)" "sb_id running_example \<noteq> sb_id pending_example"
    "sb_user_id pending_example = 1" "5 < days 30" "sb_status pending_example = SUB_PENDING_PAYMENT"
    "sb_duration_months pending_example = 6"
    by (simp_all add: entitled_until_def running_example_def pending_example_def days_def hours_def minutes_def seconds_def)
  then obtain s' db' where a: "activate_subscription pending_example 5 renewing_example = Inr (s', db')"
      "sb_starts_at s' = Some (days 30)"
    by (simp add: activate_subscription_def renewing_active Let_def del: One_nat_def)
  from activation_gives_the_term[OF a(1)] a(2) have "has_active_subscription 1 (days 200) db'"
    by (simp add: pending_example_def renewing_example_def running_example_def days_def hours_def minutes_def seconds_def)
  with a show ?thesis by blast
qed

text \<open>
  Only the subscription that runs longest counts, grace included: a trial that outlasts the paid
  term but not its grace is forgotten, and the next term starts under it.
\<close>

definition trial_example :: subscription where
  "trial_example = running_example\<lparr>sb_id := 3, sb_expires_at := None, sb_grace_ends_at := None,
     sb_free_until := Some (days 33)\<rparr>"

lemma trial_is_swallowed:
  "\<exists>s' db'. activate_subscription pending_example 5
       (billing_blank\<lparr>subscriptions := [running_example, trial_example, pending_example]\<rparr>) = Inr (s', db')
     \<and> sb_starts_at s' = Some (days 30) \<and> sb_free_until trial_example = Some (days 33)"
proof -
  let ?db = "billing_blank\<lparr>subscriptions := [running_example, trial_example, pending_example]\<rparr>"
  have "active_subscription 1 5 ?db = Some running_example"
    by (simp add: active_subscription_def running_example_def pending_example_def trial_example_def end_of_def
        is_in_force_def effective_end_def days_def hours_def minutes_def seconds_def)
  moreover have "entitled_until running_example = Some (days 30)" "sb_id running_example \<noteq> sb_id pending_example"
    "sb_user_id pending_example = 1" "5 < days 30" "sb_status pending_example = SUB_PENDING_PAYMENT"
    "sb_duration_months pending_example = 6"
    by (simp_all add: entitled_until_def running_example_def pending_example_def days_def hours_def minutes_def seconds_def)
  ultimately show ?thesis
    by (simp add: activate_subscription_def Let_def trial_example_def del: One_nat_def)
qed

text \<open>One open purchase per owner at a time.\<close>

definition single_purchase :: "'a billing_db_scheme \<Rightarrow> bool" where
  "single_purchase db \<longleftrightarrow> distinct (map sb_id (subscriptions db))
     \<and> (\<forall>u. length (filter (open_purchase u) (subscriptions db)) \<le> 1)"

lemma filter_put_cancelled:
  assumes "first_where (open_purchase u) rows = Some x" and "distinct (map sb_id rows)"
  shows "filter (open_purchase v) (put_row sb_id (x\<lparr>sb_status := SUB_CANCELLED\<rparr>) rows)
    = (if v = u then remove1 x (filter (open_purchase u) rows) else filter (open_purchase v) rows)"
  using assms
proof (induction rows)
  case (Cons r rs)
  show ?case
  proof (cases "open_purchase u r")
    case True
    then have "x = r" using Cons.prems(1) by simp
    moreover have "put_row sb_id (r\<lparr>sb_status := SUB_CANCELLED\<rparr>) rs = rs"
      by (rule put_row_absent) (use Cons.prems(2) in auto)
    ultimately show ?thesis using True by (auto simp: open_purchase_def)
  next
    case False
    then have x: "first_where (open_purchase u) rs = Some x" using Cons.prems(1) by simp
    then have "x \<in> set rs" by (auto dest: first_where_SomeD)
    then have "sb_id r \<noteq> sb_id x" using Cons.prems(2) by auto
    with Cons.IH[OF x] Cons.prems(2) False show ?thesis by (cases "v = u") auto
  qed
qed simp

text \<open>
  (Property). At most one unpaid purchase stands open per owner, and never for ever: a purchase that is
  accepted leaves exactly the new one open for its owner, priced by the quote; it is refused for
  an open one only within twenty minutes of that one's creation; and an open purchase it
  replaces is cancelled, after which its payment can no longer be honoured.
\<close>

theorem purchase_holds_one_slot:
  assumes "single_purchase db" and "start_purchase u p n now db = Inr (s, db')"
  shows "single_purchase db' \<and> filter (open_purchase u) (subscriptions db') = [s]
    \<and> (\<forall>old \<in> set (subscriptions db). open_purchase u old \<longrightarrow> sb_created_at old + minutes 20 < now
         \<and> old\<lparr>sb_status := SUB_CANCELLED\<rparr> \<in> set (subscriptions db')
         \<and> activate_subscription (old\<lparr>sb_status := SUB_CANCELLED\<rparr>) now db' = Inl (Conflict NOT_PURCHASABLE))"
proof -
  obtain db1 and q :: quote where step: "(case first_where (open_purchase u) (subscriptions db) of
          None \<Rightarrow> Inr db
        | Some old \<Rightarrow>
            if now - sb_created_at old \<le> PURCHASE_LIFETIME then Inl (Conflict ALREADY_BUYING)
            else Inr (save_subscription (old\<lparr>sb_status := SUB_CANCELLED\<rparr>) db)) = Inr db1"
    and new: "new_subscription u (pn_id p) SUB_PENDING_PAYMENT (qt_duration_months q) (qt_monthly_price q)
        (qt_discount_percent q) (qt_total q) (case active_subscription u now db1 of
           Some existing \<Rightarrow> sb_negotiated_price existing | None \<Rightarrow> None) None None db1 = (s, db')"
    using assms(2) unfolding start_purchase_def bind_res_Inr_iff Let_def sum.inject
    by blast
  note shape = new_subscription_shape[OF new]
  have ids: "distinct (map sb_id (subscriptions db))" and one: "length (filter (open_purchase v) (subscriptions db)) \<le> 1" for v
    using assms(1) by (auto simp: single_purchase_def)
  have db1: "distinct (map sb_id (subscriptions db1))"
    "filter (open_purchase v) (subscriptions db1) = (if v = u then [] else filter (open_purchase v) (subscriptions db))"
    "\<forall>old \<in> set (subscriptions db). open_purchase u old \<longrightarrow> sb_created_at old + minutes 20 < now
       \<and> old\<lparr>sb_status := SUB_CANCELLED\<rparr> \<in> set (subscriptions db1)" for v
  proof -
    show "distinct (map sb_id (subscriptions db1))"
      using step ids by (auto simp: distinct_put_row split: option.splits if_splits)
    have "filter (open_purchase v) (subscriptions db1) = (if v = u then [] else filter (open_purchase v) (subscriptions db))
      \<and> (\<forall>old \<in> set (subscriptions db). open_purchase u old \<longrightarrow> sb_created_at old + minutes 20 < now
       \<and> old\<lparr>sb_status := SUB_CANCELLED\<rparr> \<in> set (subscriptions db1))"
    proof (cases "first_where (open_purchase u) (subscriptions db)")
      case None
      from step have "db1 = db" unfolding None by simp
      moreover have "\<forall>s \<in> set (subscriptions db). \<not> open_purchase u s"
        using None by (simp add: first_where_None_iff)
      ultimately show ?thesis by (auto simp: filter_empty_conv)
    next
      case (Some x)
      then have x: "x \<in> set (filter (open_purchase u) (subscriptions db))" by (auto dest: first_where_SomeD)
      with one[of u] have only: "filter (open_purchase u) (subscriptions db) = [x]"
        by (cases "filter (open_purchase u) (subscriptions db)") auto
      then have "old = x" if "old \<in> set (subscriptions db)" "open_purchase u old" for old
      proof -
        have "old \<in> set (filter (open_purchase u) (subscriptions db))" using that by simp
        then show ?thesis unfolding only by simp
      qed
      moreover have "filter (open_purchase v) (subscriptions db1) =
          (if v = u then [] else filter (open_purchase v) (subscriptions db))"
        using step Some filter_put_cancelled[OF Some ids] only by (auto split: if_splits)
      moreover have "sb_created_at x + minutes 20 < now" "x\<lparr>sb_status := SUB_CANCELLED\<rparr> \<in> set (subscriptions db1)"
        using step Some x by (auto simp: PURCHASE_LIFETIME_def set_put_row split: if_splits)
      ultimately show ?thesis by auto
    qed
    then show "filter (open_purchase v) (subscriptions db1) = (if v = u then [] else filter (open_purchase v) (subscriptions db))"
      "\<forall>old \<in> set (subscriptions db). open_purchase u old \<longrightarrow> sb_created_at old + minutes 20 < now
       \<and> old\<lparr>sb_status := SUB_CANCELLED\<rparr> \<in> set (subscriptions db1)" by auto
  qed
  have "filter (open_purchase v) (subscriptions db') =
      (if v = u then [s] else filter (open_purchase v) (subscriptions db))" for v
    using shape db1(2)[of v] by (auto simp: open_purchase_def)
  moreover have "distinct (map sb_id (subscriptions db'))"
    using shape db1(1) distinct_append_fresh[of sb_id s "subscriptions db1"] by simp
  moreover have "activate_subscription (old\<lparr>sb_status := SUB_CANCELLED\<rparr>) now db' = Inl (Conflict NOT_PURCHASABLE)" for old
    by (simp add: activate_subscription_def)
  ultimately show ?thesis using one db1(3) shape by (auto simp: single_purchase_def)
qed

definition plan_example :: plan where
  "plan_example = \<lparr>pn_id = 1, pn_public_id = ''sub_1'', pn_name = ''Shop'', pn_monthly_price = 499,
     pn_max_kiosks = 3, pn_price_floor_bw = Some 1, pn_price_ceiling_bw = Some 5,
     pn_price_floor_color = None, pn_price_ceiling_color = None, pn_is_active = True, pn_created_at = 0\<rparr>"

theorem purchase_holds_one_slot_witness:
  "\<exists>s db'. start_purchase 1 plan_example 6 (minutes 21) renewing_example = Inr (s, db')
     \<and> filter (open_purchase 1) (subscriptions db') = [s]
     \<and> activate_subscription (pending_example\<lparr>sb_status := SUB_CANCELLED\<rparr>) (minutes 21) db'
         = Inl (Conflict NOT_PURCHASABLE)"
proof -
  have one: "single_purchase renewing_example"
    by (auto simp: single_purchase_def renewing_example_def running_example_def pending_example_def open_purchase_def)
  have f: "first_where (open_purchase 1) (subscriptions renewing_example) = Some pending_example"
    by (simp add: renewing_example_def running_example_def pending_example_def open_purchase_def)
  have "\<exists>s db'. start_purchase 1 plan_example 6 (minutes 21) renewing_example = Inr (s, db')"
    unfolding start_purchase_def f
    by (simp add: Let_def quote_subscription_def discount_for_def ALLOWED_DURATIONS_def plan_example_def
        PURCHASE_LIFETIME_def pending_example_def minutes_def seconds_def renewing_example_def running_example_def
        billing_blank_def save_subscription_def active_subscription_def is_in_force_def effective_end_def
        as_money_id)
  then obtain s db' where r: "start_purchase 1 plan_example 6 (minutes 21) renewing_example = Inr (s, db')" by blast
  have "pending_example \<in> set (subscriptions renewing_example)" "open_purchase 1 pending_example"
    by (simp_all add: renewing_example_def pending_example_def open_purchase_def)
  with purchase_holds_one_slot[OF one r] r show ?thesis by blast
qed

section \<open>What a subscription costs\<close>

text \<open>
  (Property). A quote is a price nobody can be surprised by: it is given only for one, six or twelve months
  of a plan on sale; the total is a whole number of paise, within half a paisa of the monthly
  price times the months less the discount, never negative and never above the undiscounted
  price; the owner's own rate decides the discount wherever one is recorded.
\<close>

theorem quote_is_bounded:
  assumes "quote_subscription u p n negotiated db = Inr q"
  shows "n \<in> {1, 6, 12} \<and> pn_is_active p \<and> is_money (qt_total q)
    \<and> 0 \<le> qt_total q \<and> qt_total q \<le> qt_monthly_price q * of_int n
    \<and> qt_monthly_price q = as_money (case negotiated of Some v \<Rightarrow> v | None \<Rightarrow> pn_monthly_price p)
    \<and> (let d = fst (discount_for u (pn_id p) n db) in
         \<bar>qt_total q - qt_monthly_price q * of_int n * (1 - d / 100)\<bar> \<le> 1 / 200)"
proof -
  obtain d src where d: "discount_for u (pn_id p) n db = (d, src)" by fastforce
  let ?m = "as_money (case negotiated of Some v \<Rightarrow> v | None \<Rightarrow> pn_monthly_price p)"
  let ?g = "?m * of_int n"
  have q: "n \<in> {1, 6, 12}" "pn_is_active p" "0 \<le> ?m" "0 \<le> d" "d \<le> 100"
    "qt_total q = as_money (?g - ?g * d / 100)" "qt_monthly_price q = ?m"
    using assms d by (auto simp: quote_subscription_def ALLOWED_DURATIONS_def Let_def split: if_splits)
  have g: "0 \<le> ?g" using q(1,3) by auto
  then have "?g * d \<le> ?g * 100" "0 \<le> ?g * d" using q(4,5) by (auto intro: mult_left_mono)
  then have low: "0 \<le> ?g - ?g * d / 100" and high: "?g - ?g * d / 100 \<le> ?g"
    by (simp_all add: field_simps)
  have gm: "as_money ?g = ?g" by (intro as_money_id is_money_mult_int is_money_as_money)
  have "as_money (?g - ?g * d / 100) \<le> ?g" using as_money_mono[OF high] gm by simp
  moreover have "?g * (1 - d / 100) = ?g - ?g * d / 100" by (simp add: field_simps)
  ultimately show ?thesis
    using as_money_near[of "?g - ?g * d / 100"] as_money_nonneg[OF low] q
    unfolding d fst_conv Let_def q(6,7) by (simp only: is_money_as_money simp_thms)
qed

definition priced_example :: billing_db where
  "priced_example = billing_blank\<lparr>plans := [plan_example],
     plan_discounts := [\<lparr>pd_id = 1, pd_plan_id = 1, pd_duration_months = 6, pd_percent = 10\<rparr>],
     owner_discounts := [\<lparr>od_id = 1, od_user_id = 1, od_duration_months = 6, od_percent = 25, od_note = None,
       od_granted_by_user_id = None, od_created_at = 0\<rparr>]\<rparr>"

theorem quote_is_bounded_witness:
  "\<exists>q. quote_subscription 1 plan_example 6 None priced_example = Inr q \<and> \<bar>qt_total q - 2245.5\<bar> \<le> 1 / 200"
proof -
  have d: "discount_for 1 (pn_id plan_example) 6 priced_example = (25, FROM_OWNER)"
    by (simp add: discount_for_def priced_example_def)
  have "\<exists>q. quote_subscription 1 plan_example 6 None priced_example = Inr q \<and> qt_monthly_price q = 499"
    using d by (simp add: quote_subscription_def ALLOWED_DURATIONS_def plan_example_def Let_def as_money_id)
  then obtain q where q: "quote_subscription 1 plan_example 6 None priced_example = Inr q" "qt_monthly_price q = 499"
    by blast
  from quote_is_bounded[OF q(1), unfolded Let_def d q(2)] q(1) show ?thesis by auto
qed

text \<open>
  (Property). A rate negotiated with one owner is the rate that owner is quoted for that term on any plan, and
  nobody else's and no other term's; taking it away puts the owner back on the plan's ladder.
\<close>

theorem owner_rate_wins:
  assumes "set_owner_discount u n percent by_whom remark db = Inr (d, db')"
    and "distinct (map od_id (owner_discounts db))"
  shows "discount_for u plan_id n db' = (as_money percent, FROM_OWNER)
    \<and> (\<forall>v m. (v, m) \<noteq> (u, n) \<longrightarrow> discount_for v plan_id m db' = discount_for v plan_id m db)
    \<and> discount_for u plan_id n (clear_owner_discount u n db')
        = (case first_where (\<lambda>d. pd_plan_id d = plan_id \<and> pd_duration_months d = n) (plan_discounts db) of
             Some d \<Rightarrow> (pd_percent d, FROM_PLAN) | None \<Rightarrow> (0, FROM_NOTHING))"
proof -
  let ?p = "\<lambda>v m d. od_user_id d = v \<and> od_duration_months d = m"
  have "od_percent d = as_money percent \<and> ?p u n d \<and> plan_discounts db' = plan_discounts db
      \<and> owner_discounts db' = (case first_where (?p u n) (owner_discounts db) of
         Some x \<Rightarrow> put_row od_id d (owner_discounts db) | None \<Rightarrow> owner_discounts db @ [d])
      \<and> (\<forall>x. first_where (?p u n) (owner_discounts db) = Some x \<longrightarrow> od_id d = od_id x)"
  proof (cases "first_where (?p u n) (owner_discounts db)")
    case None
    with assms(1) show ?thesis
      by (auto simp: set_owner_discount_def bind_res_Inr_iff check_discount_def Let_def split: if_splits)
  next
    case (Some x)
    with assms(1) first_where_SomeD[OF Some] show ?thesis
      by (auto simp: set_owner_discount_def bind_res_Inr_iff check_discount_def Let_def split: if_splits)
  qed
  then have pc: "od_percent d = as_money percent" "?p u n d"
    and tab: "plan_discounts db' = plan_discounts db"
      "owner_discounts db' = (case first_where (?p u n) (owner_discounts db) of
         Some x \<Rightarrow> put_row od_id d (owner_discounts db) | None \<Rightarrow> owner_discounts db @ [d])"
    and key: "\<And>x. first_where (?p u n) (owner_discounts db) = Some x \<Longrightarrow> od_id d = od_id x" by auto
  have put: "first_where (?p v m) (put_row od_id d rows)
      = (if (v, m) = (u, n) then Some d else first_where (?p v m) rows)"
    if "first_where (?p u n) rows = Some x" "distinct (map od_id rows)" "od_id d = od_id x" for rows x v m
    using that
  proof (induction rows)
    case (Cons r rs)
    show ?case
    proof (cases "?p u n r")
      case True
      then have "x = r" using Cons.prems(1) by simp
      moreover have "put_row od_id d rs = rs"
        by (rule put_row_absent) (use Cons.prems calculation in auto)
      ultimately show ?thesis using True Cons.prems(3) pc by auto
    next
      case False
      then have x: "first_where (?p u n) rs = Some x" using Cons.prems(1) by (auto split: if_splits)
      then have "x \<in> set rs" by (auto dest: first_where_SomeD)
      then have "od_id r \<noteq> od_id d" using Cons.prems(2,3) by auto
      with Cons.IH[OF x] Cons.prems(2,3) False show ?thesis by auto
    qed
  qed simp
  have look: "first_where (?p v m) (owner_discounts db') =
      (if (v, m) = (u, n) then Some d else first_where (?p v m) (owner_discounts db))" for v m
  proof (cases "first_where (?p u n) (owner_discounts db)")
    case None
    then show ?thesis using pc tab by (auto simp: first_where_append split: option.splits)
  next
    case (Some x)
    with put[OF Some assms(2) key[OF Some], of v m] tab show ?thesis by simp
  qed
  have gone: "first_where (?p u n) (owner_discounts (clear_owner_discount u n db')) = None"
    by (simp add: first_where_None_iff clear_owner_discount_def)
  have "plan_discounts (clear_owner_discount u n db') = plan_discounts db"
    by (simp add: clear_owner_discount_def tab(1))
  then show ?thesis unfolding discount_for_def gone
    by (auto simp: look pc(1) tab(1) cong: option.case_cong)
qed

theorem owner_rate_wins_witness:
  "\<exists>d db'. set_owner_discount 1 6 30 None None priced_example = Inr (d, db')
     \<and> discount_for 1 1 6 db' = (30, FROM_OWNER) \<and> discount_for 1 1 6 (clear_owner_discount 1 6 db') = (10, FROM_PLAN)"
proof -
  obtain d db' where s: "set_owner_discount 1 6 30 None None priced_example = Inr (d, db')"
    by (simp add: set_owner_discount_def check_discount_def ALLOWED_DURATIONS_def Let_def priced_example_def as_money_id)
  from owner_rate_wins[OF s, of 1] s show ?thesis
    by (simp add: priced_example_def as_money_id)
qed

section \<open>Trials\<close>

lemma has_active_iff:
  "has_active_subscription u now db \<longleftrightarrow> (\<exists>t \<in> set (subscriptions db). sb_user_id t = u \<and> is_in_force t now)"
  using active_subscription_None_iff[of u now db] by (auto simp: has_active_subscription_def)

text \<open>
  (Property). A trial is a promise kept: once granted, the owner may collect on every moment of the days
  given, and no moment at which they could collect before is taken away by granting it.
\<close>

theorem trial_only_extends:
  assumes "grant_trial u p n now db = Inr (s, db')" and "distinct (map sb_id (subscriptions db))"
  shows "(\<forall>later < now + days n. has_active_subscription u later db')
    \<and> (\<forall>later. has_active_subscription u later db \<longrightarrow> has_active_subscription u later db')
    \<and> sb_total_amount s = (case active_subscription u now db of
         Some e \<Rightarrow> if sb_free_until e = None then 0 else sb_total_amount e | None \<Rightarrow> 0)"
proof -
  consider (extend) e until where "active_subscription u now db = Some e" "sb_free_until e = Some until"
      "s = e\<lparr>sb_free_until := Some (max until (now + days n)), sb_plan_id := pn_id p\<rparr>" "db' = save_subscription s db"
    | (fresh) "new_subscription u (pn_id p) SUB_ACTIVE 1 0 0 0 None (Some (now + days n)) (Some now) db = (s, db')"
      "\<And>e. active_subscription u now db = Some e \<Longrightarrow> sb_free_until e = None"
    using assms(1) by (auto simp: grant_trial_def Let_def split: option.splits if_splits)
  then show ?thesis
  proof cases
    case extend
    note e = active_subscription_SomeD[OF extend(1)]
    have st: "sb_status e = SUB_ACTIVE" using e(3) by (simp add: is_in_force_iff)
    have mem: "s \<in> set (subscriptions db')" "sb_user_id s = u" using e(1,2) by (auto simp: extend(3,4) set_put_row)
    have early: "is_in_force s later" if "later < now + days n" for later
    proof -
      have "later < max until (now + days n)" using that by simp
      then show ?thesis using st by (auto simp: is_in_force_iff extend(3))
    qed
    have keep: "is_in_force s later" if f: "is_in_force e later" for later
    proof -
      have "later < max until (now + days n) \<or> (\<exists>d. later < d \<and> (sb_grace_ends_at s = Some d \<or> sb_expires_at s = Some d))"
        using f extend(2,3) by (auto simp: is_in_force_iff)
      then show ?thesis using st by (auto simp: is_in_force_iff extend(3))
    qed
    have "has_active_subscription u later db'" if had: "has_active_subscription u later db" for later
    proof -
      obtain t where t: "t \<in> set (subscriptions db)" "sb_user_id t = u" "is_in_force t later"
        using had by (auto simp: has_active_iff)
      show ?thesis
      proof (cases "sb_id t = sb_id e")
        case True
        then have "t = e" using distinct_key_eq[OF assms(2) e(1) t(1)] by simp
        with keep t(3) mem show ?thesis by (auto simp: has_active_iff)
      next
        case False
        then have "t \<in> set (subscriptions db')" using t(1) by (auto simp: extend(3,4) set_put_row)
        with t show ?thesis by (auto simp: has_active_iff)
      qed
    qed
    moreover have "has_active_subscription u later db'" if "later < now + days n" for later
      using early[OF that] mem unfolding has_active_iff by blast
    moreover have "sb_total_amount s = sb_total_amount e" by (simp add: extend(3))
    ultimately show ?thesis using extend(1,2) by simp
  next
    case fresh
    note shape = new_subscription_shape[OF fresh(1)]
    have "is_in_force s later" if "later < now + days n" for later
      using that shape by (simp add: is_in_force_iff)
    with shape fresh(2) show ?thesis by (auto simp: has_active_iff split: option.splits)
  qed
qed

theorem trial_only_extends_witness:
  "\<exists>s db'. grant_trial 1 plan_example 90 5 renewing_example = Inr (s, db') \<and> has_active_subscription 1 (days 80) db'"
proof -
  obtain s db' where g: "grant_trial 1 plan_example 90 5 renewing_example = Inr (s, db')"
    by (cases "new_subscription 1 (pn_id plan_example) SUB_ACTIVE 1 0 0 0 None (Some (5 + days 90)) (Some 5) renewing_example")
      (simp add: grant_trial_def renewing_active[simplified] running_example_def pending_example_def)
  have "distinct (map sb_id (subscriptions renewing_example))"
    by (simp add: renewing_example_def running_example_def pending_example_def)
  from trial_only_extends[OF g this] g show ?thesis
    by (auto simp: days_def hours_def minutes_def seconds_def)
qed

text \<open>
  The promise that a second trial extends the first holds only while the trial is what runs longest:
  under a longer paid term every grant adds a row, and the owner has two live trials.
\<close>

lemma second_trial_is_a_second_row:
  "\<exists>s db'. grant_trial 1 plan_example 40 5 (billing_blank\<lparr>subscriptions := [running_example\<lparr>sb_expires_at :=
       Some (days 60)\<rparr>, trial_example]\<rparr>) = Inr (s, db')
     \<and> filter (\<lambda>t. is_in_force t 6 \<and> is_on_trial t 6) (subscriptions db') = [trial_example, s]"
proof -
  let ?db = "billing_blank\<lparr>subscriptions := [running_example\<lparr>sb_expires_at := Some (days 60)\<rparr>, trial_example]\<rparr>"
  obtain s db' where n: "new_subscription 1 (pn_id plan_example) SUB_ACTIVE 1 0 0 0 None (Some (5 + days 40)) (Some 5) ?db = (s, db')"
    by fastforce
  have a: "active_subscription 1 5 ?db = Some (running_example\<lparr>sb_expires_at := Some (days 60)\<rparr>)"
    by (simp add: active_subscription_def running_example_def pending_example_def trial_example_def end_of_def
        is_in_force_def effective_end_def days_def hours_def minutes_def seconds_def)
  have f: "sb_free_until (running_example\<lparr>sb_expires_at := Some (days 60)\<rparr>) = None"
    by (simp add: running_example_def pending_example_def)
  have g: "grant_trial 1 plan_example 40 5 ?db = Inr (s, db')"
    using n unfolding grant_trial_def a Let_def by (simp add: f del: One_nat_def)
  note shape = new_subscription_shape[OF n]
  have "is_in_force s 6 \<and> is_on_trial s 6"
    using shape by (simp add: is_in_force_iff is_on_trial_def days_def hours_def minutes_def seconds_def)
  moreover have "is_in_force trial_example 6 \<and> is_on_trial trial_example 6"
    by (simp add: is_in_force_iff is_on_trial_def trial_example_def running_example_def days_def hours_def minutes_def seconds_def)
  moreover have "\<not> is_on_trial (running_example\<lparr>sb_expires_at := Some (days 60)\<rparr>) 6"
    by (simp add: is_on_trial_def f)
  ultimately show ?thesis using g shape by simp
qed

section \<open>Plans\<close>

definition band_ok :: "rat option \<Rightarrow> rat option \<Rightarrow> bool" where
  "band_ok f c \<longleftrightarrow> (\<forall>v \<in> set_option f. 0 \<le> v \<and> is_money v \<and> (\<forall>w \<in> set_option c. v \<le> w))
     \<and> (\<forall>w \<in> set_option c. is_money w)"

definition plan_ok :: "plan \<Rightarrow> bool" where
  "plan_ok p \<longleftrightarrow> 0 \<le> pn_monthly_price p \<and> is_money (pn_monthly_price p) \<and> 1 \<le> pn_max_kiosks p
     \<and> band_ok (pn_price_floor_bw p) (pn_price_ceiling_bw p)
     \<and> band_ok (pn_price_floor_color p) (pn_price_ceiling_color p)"

lemma check_band_iff:
  "check_band f c colour = Inr x \<longleftrightarrow>
     (\<forall>v \<in> set_option f. 0 \<le> v \<and> (\<forall>w \<in> set_option c. v \<le> w))"
  by (cases f; cases c) (auto simp: check_band_def)

lemma check_band_ok: "check_band f c colour = Inr x \<Longrightarrow> band_ok (map_option as_money f) (map_option as_money c)"
  unfolding check_band_iff band_ok_def by (auto simp: as_money_mono as_money_nonneg)

text \<open>
  (Property). Every plan stays one that can be sold: creating or changing a plan leaves its price a
  non-negative whole number of paise, room for at least one shop, and in each colour a floor
  that is neither negative nor above the ceiling; and no change of a plan touches what anybody
  was already charged.
\<close>

theorem plans_stay_sane:
  assumes "create_plan nm price kiosk_count fb cb fc cc db = Inr (p, db')
      \<or> plan_ok old \<and> update_plan old price' count' fb cb fc cc active db = Inr (p, db')"
  shows "plan_ok p \<and> subscriptions db' = subscriptions db"
  using assms
proof
  assume "create_plan nm price kiosk_count fb cb fc cc db = Inr (p, db')"
  then show ?thesis
    by (auto simp: create_plan_def Let_def bind_res_Inr_iff require_Inr_iff plan_ok_def mint_def
        dest: check_band_ok)
next
  assume "plan_ok old \<and> update_plan old price' count' fb cb fc cc active db = Inr (p, db')"
  then show ?thesis
    by (auto simp: update_plan_def Let_def bind_res_Inr_iff require_Inr_iff plan_ok_def as_money_nonneg
        dest: check_band_ok split: option.splits)
qed

theorem plans_stay_sane_witness:
  "\<exists>p db'. update_plan plan_example (Some 599) None None (Some 7) None None None priced_example = Inr (p, db')
     \<and> plan_ok p \<and> pn_monthly_price p = 599"
proof -
  have ok: "plan_ok plan_example" by (simp add: plan_ok_def band_ok_def plan_example_def)
  have "\<exists>p db'. update_plan plan_example (Some 599) None None (Some 7) None None None priced_example = Inr (p, db')
     \<and> pn_monthly_price p = 599"
    by (simp add: update_plan_def Let_def given_def check_band_def plan_example_def as_money_id)
  then obtain p db' where u: "update_plan plan_example (Some 599) None None (Some 7) None None None priced_example = Inr (p, db')"
    "pn_monthly_price p = 599" by blast
  from plans_stay_sane[of "''x''" 1 1 None "Some 7" None None priced_example p db' plan_example "Some 599" None None]
    ok u show ?thesis by blast
qed

text \<open>
  What the check does not catch: a negative ceiling without a floor, a band that no price meets.
\<close>

lemma negative_ceiling_admits_no_price:
  "check_band None (Some (- 1)) ''colour'' = Inr ()
   \<and> (\<forall>v. \<not> in_band \<lparr>floor_bw = None, ceiling_bw = None, floor_color = None, ceiling_color = Some (- 1)\<rparr> ''color_single'' v)"
  by (simp add: check_band_def in_band_def bounds_for_def)

end
