(* ===== verification/Gate.thy ===== *)
theory Gate
  imports PaymentModels KioskAccess Billing
begin

text \<open>
  Whose account collects: \<^verbatim>\<open>payments/configs.py\<close> (an owner's Razorpay keys, set once and replaced
  only with an approval), \<^verbatim>\<open>payments/gate.py\<close> (the one gate) and \<^verbatim>\<open>SubscriptionBand\<close> of
  \<^verbatim>\<open>api/deps.py\<close>. \<^verbatim>\<open>SecretBox\<close> wraps Fernet, a library: it is the record \<open>secret_box\<close>, whose
  \<open>decrypt\<close> answers \<open>None\<close> where the class raises \<^verbatim>\<open>ValueError\<close>.
\<close>

section \<open>Secrets at rest\<close>

record secret_box =
  sb_encrypt :: "nat \<Rightarrow> string \<Rightarrow> string"
  sb_decrypt :: "string \<Rightarrow> string option"

definition encrypt :: "secret_box \<Rightarrow> string \<Rightarrow> 'a core_db_scheme \<Rightarrow> string \<times> 'a core_db_scheme" where
  "encrypt box plaintext db = (sb_encrypt box (entropy db (drawn db)) plaintext, db\<lparr>drawn := drawn db + 1\<rparr>)"

definition decrypt :: "secret_box \<Rightarrow> string \<Rightarrow> string result" where
  "decrypt box ciphertext =
     (case sb_decrypt box ciphertext of
        Some s \<Rightarrow> Inr s
      | None \<Rightarrow> Inl (Unhandled ''ValueError: Could not decrypt secret: wrong key or tampered data''))"

definition bullet :: string where
  "bullet = [CHR 0xE2, CHR 0x80, CHR 0xA2]"

definition bullets :: string where
  "bullets = concat (replicate 4 bullet)"

definition mask_secret :: "string \<Rightarrow> string" where
  "mask_secret v =
     (if v = [] then [] else if length v \<le> 4 then bullets else bullets @ drop (length v - 4) v)"

section \<open>Payment keys\<close>

definition NO_SUCH_REQUEST :: string where
  "NO_SUCH_REQUEST = ''That change request does not exist.''"

definition NO_PROOF :: string where
  "NO_PROOF = ''No proof of account ownership was uploaded with that request.''"

definition ALREADY_CONFIGURED :: string where
  "ALREADY_CONFIGURED = ''Payment keys are already set for this account. Submit a change request to replace them.''"

record payment_config_view =
  pv_is_configured :: bool
  pv_key_id_masked :: "string option"
  pv_configured_at :: "datetime option"
  pv_can_update :: bool

definition get_config :: "nat \<Rightarrow> 'a payments_db_scheme \<Rightarrow> kiosk_payment_config option" where
  "get_config user_id db = first_where (\<lambda>c. pc_user_id c = user_id) (payment_configs db)"

definition approved_request :: "nat \<Rightarrow> 'a payments_db_scheme \<Rightarrow> change_request option" where
  "approved_request user_id db =
     first_where (\<lambda>r. cr_user_id r = user_id \<and> cr_status r = REQ_APPROVED) (change_requests db)"

definition config_view :: "kiosk_payment_config option \<Rightarrow> bool \<Rightarrow> payment_config_view" where
  "config_view config change_approved =
     (case config of
        None \<Rightarrow> \<lparr>pv_is_configured = False, pv_key_id_masked = None, pv_configured_at = None, pv_can_update = True\<rparr>
      | Some c \<Rightarrow>
          if \<not> pc_is_configured c
          then \<lparr>pv_is_configured = False, pv_key_id_masked = None, pv_configured_at = None, pv_can_update = True\<rparr>
          else \<lparr>pv_is_configured = True,
                pv_key_id_masked = Some (mask_secret (case pc_key_id c of Some k \<Rightarrow> k | None \<Rightarrow> [])),
                pv_configured_at = pc_configured_at c, pv_can_update = change_approved\<rparr>)"

definition view_config :: "nat \<Rightarrow> 'a payments_db_scheme \<Rightarrow> payment_config_view" where
  "view_config user_id db =
     (let config = get_config user_id db;
          configured = (case config of Some c \<Rightarrow> pc_is_configured c | None \<Rightarrow> False)
      in config_view config (configured \<and> approved_request user_id db \<noteq> None))"

definition BOTH_REQUIRED :: string where
  "BOTH_REQUIRED = ''Both the Razorpay key id and key secret are required.''"

definition new_config :: "nat \<Rightarrow> 'a payments_db_scheme \<Rightarrow> kiosk_payment_config" where
  "new_config user_id db =
     \<lparr>pc_id = fresh_key pc_id (payment_configs db), pc_user_id = user_id, pc_key_id = None,
      pc_key_secret_encrypted = None, pc_webhook_secret_encrypted = None, pc_is_configured = False,
      pc_configured_at = None, pc_created_at = tx_now db\<rparr>"

text \<open>INSERT of a row that is not there yet, UPDATE of one that is.\<close>

definition save_config :: "kiosk_payment_config \<Rightarrow> 'a payments_db_scheme \<Rightarrow> 'a payments_db_scheme" where
  "save_config c db =
     db\<lparr>payment_configs := (if row_by pc_id (payment_configs db) (pc_id c) = None then payment_configs db @ [c]
                            else put_row pc_id c (payment_configs db))\<rparr>"

definition set_keys ::
  "secret_box \<Rightarrow> nat \<Rightarrow> string \<Rightarrow> string \<Rightarrow> datetime \<Rightarrow> 'a payments_db_scheme \<Rightarrow>
   (kiosk_payment_config \<times> 'a payments_db_scheme) result" where
  "set_keys box user_id raw_id raw_secret now db =
     (let key_id = strip raw_id; key_secret = strip raw_secret in
      if key_id = [] \<or> key_secret = [] then Inl (BadRequest BOTH_REQUIRED)
      else
        let config = get_config user_id db;
            configured = (case config of Some c \<Rightarrow> pc_is_configured c | None \<Rightarrow> False) in
        if configured \<and> approved_request user_id db = None then Inl (Conflict ALREADY_CONFIGURED)
        else
          let db1 = (if configured
                     then db\<lparr>change_requests :=
                            put_row cr_id ((the (approved_request user_id db))\<lparr>cr_status := REQ_USED\<rparr>) (change_requests db)\<rparr>
                     else db);
              c = (case config of Some c \<Rightarrow> c | None \<Rightarrow> new_config user_id db1);
              (sealed, db2) = encrypt box key_secret db1;
              c' = c\<lparr>pc_key_id := Some key_id, pc_key_secret_encrypted := Some sealed,
                     pc_is_configured := True, pc_configured_at := Some now\<rparr>
          in Inr (c', save_config c' db2))"

definition ENTER_WEBHOOK_SECRET :: string where
  "ENTER_WEBHOOK_SECRET = ''Enter the webhook secret from your Razorpay dashboard.''"

definition set_webhook_secret ::
  "secret_box \<Rightarrow> nat \<Rightarrow> string \<Rightarrow> 'a payments_db_scheme \<Rightarrow>
   (kiosk_payment_config \<times> 'a payments_db_scheme) result" where
  "set_webhook_secret box user_id webhook_secret db =
     (if strip webhook_secret = [] then Inl (BadRequest ENTER_WEBHOOK_SECRET)
      else
        let c = (case get_config user_id db of Some c \<Rightarrow> c | None \<Rightarrow> new_config user_id db);
            (sealed, db1) = encrypt box (strip webhook_secret) db;
            c' = c\<lparr>pc_webhook_secret_encrypted := Some sealed\<rparr>
        in Inr (c', save_config c' db1))"

definition decrypt_webhook_secret :: "secret_box \<Rightarrow> kiosk_payment_config \<Rightarrow> string result" where
  "decrypt_webhook_secret box c =
     (if \<not> truthy (pc_webhook_secret_encrypted c) then Inr []
      else decrypt box (the (pc_webhook_secret_encrypted c)))"

definition NO_KEYS :: string where
  "NO_KEYS = ''This account has no payment keys configured.''"

definition decrypt_secret :: "secret_box \<Rightarrow> kiosk_payment_config \<Rightarrow> string result" where
  "decrypt_secret box c =
     (if \<not> truthy (pc_key_secret_encrypted c) then Inl (NotFound NO_KEYS)
      else decrypt box (the (pc_key_secret_encrypted c)))"

definition has_usable_keys :: "nat \<Rightarrow> 'a payments_db_scheme \<Rightarrow> bool" where
  "has_usable_keys user_id db =
     (case get_config user_id db of
        None \<Rightarrow> False
      | Some c \<Rightarrow> pc_is_configured c \<and> truthy (pc_key_id c) \<and> truthy (pc_key_secret_encrypted c))"

section \<open>Change requests\<close>

definition ALREADY_WAITING :: string where
  "ALREADY_WAITING = ''You already have a change request awaiting review.''"

definition request_change ::
  "nat \<Rightarrow> string option \<Rightarrow> string option \<Rightarrow> 'a payments_db_scheme \<Rightarrow>
   (change_request \<times> 'a payments_db_scheme) result" where
  "request_change user_id reason proof_path db =
     (case first_where (\<lambda>r. cr_user_id r = user_id \<and> cr_status r = REQ_PENDING) (change_requests db) of
        Some existing \<Rightarrow> Inl (Conflict ALREADY_WAITING)
      | None \<Rightarrow>
          let (pid, db1) = mint PAYMENT_CONFIG_CHANGE db;
              r = \<lparr>cr_id = fresh_key cr_id (change_requests db), cr_public_id = pid, cr_user_id = user_id,
                   cr_reason = reason, cr_proof_path = proof_path, cr_status = REQ_PENDING,
                   cr_reviewed_by_user_id = None, cr_reviewed_at = None, cr_review_note = None,
                   cr_created_at = tx_now db\<rparr>
          in Inr (r, db1\<lparr>change_requests := change_requests db @ [r]\<rparr>))"

fun request_status_value :: "change_request_status \<Rightarrow> string" where
  "request_status_value REQ_PENDING = ''pending''"
| "request_status_value REQ_APPROVED = ''approved''"
| "request_status_value REQ_REJECTED = ''rejected''"
| "request_status_value REQ_USED = ''used''"

definition review_change ::
  "change_request \<Rightarrow> bool \<Rightarrow> nat \<Rightarrow> string option \<Rightarrow> datetime \<Rightarrow> 'a payments_db_scheme \<Rightarrow>
   (change_request \<times> 'a payments_db_scheme) result" where
  "review_change r approve reviewer remark now db =
     (if cr_status r \<noteq> REQ_PENDING
      then Inl (Conflict (''That request has already been '' @ request_status_value (cr_status r) @ ''.''))
      else let r' = r\<lparr>cr_status := (if approve then REQ_APPROVED else REQ_REJECTED),
                      cr_reviewed_by_user_id := Some reviewer, cr_reviewed_at := Some now,
                      cr_review_note := remark\<rparr>
           in Inr (r', db\<lparr>change_requests := put_row cr_id r' (change_requests db)\<rparr>))"

definition change_request_by_public_id :: "string \<Rightarrow> 'a payments_db_scheme \<Rightarrow> change_request result" where
  "change_request_by_public_id public_id db =
     (case first_where (\<lambda>r. cr_public_id r = public_id) (change_requests db) of
        Some r \<Rightarrow> Inr r | None \<Rightarrow> Inl (NotFound NO_SUCH_REQUEST))"

definition review_change_by_id ::
  "string \<Rightarrow> bool \<Rightarrow> nat \<Rightarrow> string option \<Rightarrow> datetime \<Rightarrow> 'a payments_db_scheme \<Rightarrow>
   (change_request \<times> 'a payments_db_scheme) result" where
  "review_change_by_id public_id approve reviewer remark now db =
     bind_res (change_request_by_public_id public_id db) (\<lambda>r. review_change r approve reviewer remark now db)"

definition pending_change_requests :: "nat \<Rightarrow> 'a payments_db_scheme \<Rightarrow> change_request list" where
  "pending_change_requests limit db =
     take limit (sort_key (\<lambda>r. (cr_created_at r, cr_id r)) (filter (\<lambda>r. cr_status r = REQ_PENDING
       \<and> row_by us_id (users db) (cr_user_id r) \<noteq> None) (change_requests db)))"

definition proof_key :: "string \<Rightarrow> 'a payments_db_scheme \<Rightarrow> string result" where
  "proof_key public_id db =
     bind_res (change_request_by_public_id public_id db) (\<lambda>r.
       if truthy (cr_proof_path r) then Inr (the (cr_proof_path r)) else Inl (NotFound NO_PROOF))"

section \<open>The gate\<close>

datatype gateway = PLATFORM_GATEWAY | OWNER_GATEWAY | CLOSED

definition OWNER_COLLECTS :: "kiosk_type set" where
  "OWNER_COLLECTS = {SOLD, SAAS}"

definition kiosk_payment_gate :: "datetime \<Rightarrow> 'a payments_db_scheme \<Rightarrow> kiosk \<Rightarrow> gateway" where
  "kiosk_payment_gate now db k =
     (if ki_type k \<notin> OWNER_COLLECTS then PLATFORM_GATEWAY
      else (case owner_of k db of
              None \<Rightarrow> CLOSED
            | Some owner \<Rightarrow>
                if \<not> has_active_subscription (us_id owner) now db then CLOSED
                else if \<not> has_usable_keys (us_id owner) db then CLOSED
                else OWNER_GATEWAY))"

definition can_take_payment :: "datetime \<Rightarrow> 'a payments_db_scheme \<Rightarrow> kiosk \<Rightarrow> bool" where
  "can_take_payment now db k \<longleftrightarrow> kiosk_payment_gate now db k \<noteq> CLOSED"

definition wallet_may_be_spent :: "datetime \<Rightarrow> 'a payments_db_scheme \<Rightarrow> kiosk \<Rightarrow> bool" where
  "wallet_may_be_spent now db k =
     (if \<not> ki_accepts_wallet k then False else kiosk_payment_gate now db k = PLATFORM_GATEWAY)"

definition gate_billing :: "datetime \<Rightarrow> 'a payments_db_scheme billing_check" where
  "gate_billing now db k \<longleftrightarrow> kiosk_payment_gate now db k = OWNER_GATEWAY"

text \<open>\<^verbatim>\<open>SubscriptionBand\<close>: the band of a kiosk is its owner's.\<close>

definition subscription_band :: "datetime \<Rightarrow> 'a payments_db_scheme band_source" where
  "subscription_band now db k =
     (case owner_of k db of None \<Rightarrow> UNBOUNDED | Some owner \<Rightarrow> price_band_for (us_id owner) now db)"

section \<open>Credentials\<close>

record credentials =
  rz_key_id :: string
  rz_key_secret :: string

record collection =
  cn_gateway :: gateway
  cn_credentials :: credentials
  cn_collecting_user_id :: "nat option"

definition KIOSK_CLOSED :: string where
  "KIOSK_CLOSED = ''This kiosk is not accepting payments at the moment.''"

definition NO_PLATFORM_KEYS :: string where
  "NO_PLATFORM_KEYS = ''Card payments are unavailable right now. Please try again later.''"

definition credentials_for ::
  "secret_box \<Rightarrow> string \<Rightarrow> string \<Rightarrow> datetime \<Rightarrow> kiosk \<Rightarrow> 'a payments_db_scheme \<Rightarrow> collection result" where
  "credentials_for box platform_key_id platform_key_secret now k db =
     (let gw = kiosk_payment_gate now db k in
      if gw = CLOSED then Inl (BadRequest KIOSK_CLOSED)
      else if gw = PLATFORM_GATEWAY then
        (if platform_key_id = [] \<or> platform_key_secret = [] then Inl (BadRequest NO_PLATFORM_KEYS)
         else Inr \<lparr>cn_gateway = gw,
                   cn_credentials = \<lparr>rz_key_id = platform_key_id, rz_key_secret = platform_key_secret\<rparr>,
                   cn_collecting_user_id = None\<rparr>)
      else
        (case owner_of k db of
           None \<Rightarrow> Inl (BadRequest KIOSK_CLOSED)
         | Some owner \<Rightarrow>
             (case get_config (us_id owner) db of
                None \<Rightarrow> Inl (BadRequest KIOSK_CLOSED)
              | Some c \<Rightarrow>
                  bind_res (decrypt_secret box c) (\<lambda>secret.
                    Inr \<lparr>cn_gateway = gw,
                         cn_credentials = \<lparr>rz_key_id = (case pc_key_id c of Some i \<Rightarrow> i | None \<Rightarrow> []), rz_key_secret = secret\<rparr>,
                         cn_collecting_user_id = Some (us_id owner)\<rparr>))))"

definition NO_KEYS_TO_REFUND_WITH :: string where
  "NO_KEYS_TO_REFUND_WITH = ''That payment cannot be refunded automatically right now. The shop's payment connection is not available.''"

definition NOT_A_GATEWAY_PAYMENT :: string where
  "NOT_A_GATEWAY_PAYMENT = ''That payment did not go through a gateway.''"

definition credentials_for_payment ::
  "secret_box \<Rightarrow> string \<Rightarrow> string \<Rightarrow> payment \<Rightarrow> 'a payments_db_scheme \<Rightarrow> credentials result" where
  "credentials_for_payment box platform_key_id platform_key_secret p db =
     (if py_source p = SRC_WALLET then Inl (Conflict NOT_A_GATEWAY_PAYMENT)
      else case py_collecting_user_id p of
        None \<Rightarrow>
          if platform_key_id = [] \<or> platform_key_secret = [] then Inl (Conflict NO_KEYS_TO_REFUND_WITH)
          else Inr \<lparr>rz_key_id = platform_key_id, rz_key_secret = platform_key_secret\<rparr>
      | Some owner_id \<Rightarrow>
          (case get_config owner_id db of
             None \<Rightarrow> Inl (Conflict NO_KEYS_TO_REFUND_WITH)
           | Some c \<Rightarrow>
               if \<not> truthy (pc_key_id c) then Inl (Conflict NO_KEYS_TO_REFUND_WITH)
               else bind_res (decrypt_secret box c) (\<lambda>secret.
                      Inr \<lparr>rz_key_id = the (pc_key_id c), rz_key_secret = secret\<rparr>)))"

section \<open>Routing money\<close>

lemma gate_owner_iff:
  "kiosk_payment_gate now db k = OWNER_GATEWAY \<longleftrightarrow> ki_type k \<in> OWNER_COLLECTS
     \<and> (\<exists>owner. owner_of k db = Some owner \<and> has_active_subscription (us_id owner) now db
          \<and> has_usable_keys (us_id owner) db)"
  by (auto simp: kiosk_payment_gate_def split: option.splits if_splits)

lemma gate_platform_iff: "kiosk_payment_gate now db k = PLATFORM_GATEWAY \<longleftrightarrow> ki_type k \<notin> OWNER_COLLECTS"
  by (auto simp: kiosk_payment_gate_def split: option.splits if_splits)

lemma credentials_for_cases:
  assumes "credentials_for box pk ps now k db = Inr c"
  obtains (platform) "ki_type k \<notin> OWNER_COLLECTS" "cn_gateway c = PLATFORM_GATEWAY"
      "cn_collecting_user_id c = None" "pk \<noteq> []" "ps \<noteq> []"
      "cn_credentials c = \<lparr>rz_key_id = pk, rz_key_secret = ps\<rparr>"
  | (owner) owner config secret where "kiosk_payment_gate now db k = OWNER_GATEWAY" "ki_type k \<in> OWNER_COLLECTS"
      "owner_of k db = Some owner" "has_active_subscription (us_id owner) now db" "has_usable_keys (us_id owner) db"
      "get_config (us_id owner) db = Some config" "decrypt_secret box config = Inr secret"
      "cn_gateway c = OWNER_GATEWAY" "cn_collecting_user_id c = Some (us_id owner)"
      "pc_key_id config = Some (rz_key_id (cn_credentials c))" "rz_key_secret (cn_credentials c) = secret"
      "truthy (pc_key_id config)"
proof (cases "kiosk_payment_gate now db k")
  case PLATFORM_GATEWAY
  then show ?thesis using assms gate_platform_iff[of now db k]
    by (intro platform) (auto simp: credentials_for_def Let_def split: if_splits)
next
  case OWNER_GATEWAY
  then obtain owner where o: "ki_type k \<in> OWNER_COLLECTS" "owner_of k db = Some owner"
    "has_active_subscription (us_id owner) now db" "has_usable_keys (us_id owner) db"
    by (auto simp: gate_owner_iff)
  then obtain config where c: "get_config (us_id owner) db = Some config" "truthy (pc_key_id config)"
    by (auto simp: has_usable_keys_def split: option.splits)
  obtain i where i: "pc_key_id config = Some i" using c(2) by (auto simp: truthy_def)
  from assms OWNER_GATEWAY o c i obtain secret where "decrypt_secret box config = Inr secret"
    "c = \<lparr>cn_gateway = OWNER_GATEWAY, cn_credentials = \<lparr>rz_key_id = i, rz_key_secret = secret\<rparr>,
          cn_collecting_user_id = Some (us_id owner)\<rparr>"
    by (auto simp: credentials_for_def Let_def bind_res_Inr_iff)
  with o c i OWNER_GATEWAY show ?thesis by (intro owner[of owner config secret]) simp_all
next
  case CLOSED
  then show ?thesis using assms by (simp add: credentials_for_def Let_def)
qed

text \<open>
  C7. Money is routed by one answer and never falls back: the keys a checkout is opened with are the
  platform's exactly at kiosks the platform collects for, and are otherwise the recorded owner's,
  who then has a subscription in force and usable keys; where a balance may be spent, the keys
  are never an owner's; and a kiosk may be LIVE for an owner by the same answer.
\<close>

theorem money_is_routed_once:
  assumes "credentials_for box pk ps now k db = Inr c"
  shows "(cn_collecting_user_id c = None \<longleftrightarrow> ki_type k \<notin> OWNER_COLLECTS)
    \<and> (cn_collecting_user_id c = None \<longrightarrow> cn_credentials c = \<lparr>rz_key_id = pk, rz_key_secret = ps\<rparr>)
    \<and> (\<forall>i. cn_collecting_user_id c = Some i \<longrightarrow> gate_billing now db k \<and> \<not> wallet_may_be_spent now db k
         \<and> (\<exists>owner config. owner_of k db = Some owner \<and> us_id owner = i
              \<and> has_active_subscription i now db \<and> get_config i db = Some config
              \<and> pc_key_id config = Some (rz_key_id (cn_credentials c))
              \<and> decrypt_secret box config = Inr (rz_key_secret (cn_credentials c))))"
  using assms
proof (cases rule: credentials_for_cases)
  case (owner owner config secret)
  then show ?thesis by (auto simp: gate_billing_def wallet_may_be_spent_def)
qed auto

definition toy_box :: secret_box where
  "toy_box = \<lparr>sb_encrypt = (\<lambda>salt s. CHR ''e'' # s),
     sb_decrypt = (\<lambda>c. case c of [] \<Rightarrow> None | x # s \<Rightarrow> if x = CHR ''e'' then Some s else None)\<rparr>"

definition config_example :: kiosk_payment_config where
  "config_example = \<lparr>pc_id = 1, pc_user_id = 1, pc_key_id = Some ''rzp_live_x'',
     pc_key_secret_encrypted = Some ''esecret'', pc_webhook_secret_encrypted = None,
     pc_is_configured = True, pc_configured_at = Some 0, pc_created_at = 0\<rparr>"

definition owned_kiosk :: kiosk where
  "owned_kiosk = kiosk_example\<lparr>ki_type := SOLD\<rparr>"

definition collecting_example :: payments_db where
  "collecting_example = payments_blank\<lparr>users := [user_example], kiosks := [owned_kiosk],
     kiosk_assignments := [\<lparr>ka_id = 1, ka_kiosk_id = 1, ka_user_id = 1, ka_role = KIOSK_OWNER, ka_created_at = 0\<rparr>],
     subscriptions := [running_example], payment_configs := [config_example]\<rparr>"

lemma collecting_example_facts:
  "owner_of owned_kiosk collecting_example = Some user_example" "us_id user_example = 1"
  "has_active_subscription 1 5 collecting_example"
  "get_config 1 collecting_example = Some config_example"
  "decrypt_secret toy_box config_example = Inr ''secret''"
proof -
  have "is_in_force running_example 5"
    unfolding is_in_force_iff
    by (auto simp: running_example_def days_def hours_def minutes_def seconds_def intro!: exI[of _ "days 30"])
  then show "has_active_subscription 1 5 collecting_example"
    by (simp add: has_active_iff collecting_example_def running_example_def pending_example_def)
qed (simp_all add: owner_of_def staffed_def collecting_example_def user_example_def owned_kiosk_def kiosk_example_def
      get_config_def config_example_def decrypt_secret_def truthy_def decrypt_def toy_box_def)

lemma collecting_example_credentials:
  "credentials_for toy_box ''p'' ''q'' 5 owned_kiosk collecting_example = Inr \<lparr>cn_gateway = OWNER_GATEWAY,
     cn_credentials = \<lparr>rz_key_id = ''rzp_live_x'', rz_key_secret = ''secret''\<rparr>, cn_collecting_user_id = Some 1\<rparr>"
proof -
  have "has_usable_keys 1 collecting_example"
    using collecting_example_facts(4) by (simp add: has_usable_keys_def config_example_def truthy_def)
  moreover have "ki_type owned_kiosk \<in> OWNER_COLLECTS" by (simp add: owned_kiosk_def OWNER_COLLECTS_def)
  ultimately have "kiosk_payment_gate 5 collecting_example owned_kiosk = OWNER_GATEWAY"
    by (simp add: gate_owner_iff collecting_example_facts del: One_nat_def)
  moreover have "pc_key_id config_example = Some ''rzp_live_x''" by (simp add: config_example_def)
  ultimately show ?thesis
    by (simp add: credentials_for_def Let_def collecting_example_facts del: One_nat_def)
qed

theorem money_is_routed_once_witness:
  "gate_billing 5 collecting_example owned_kiosk \<and> \<not> wallet_may_be_spent 5 collecting_example owned_kiosk"
  using money_is_routed_once[OF collecting_example_credentials] by simp

text \<open>
  C8. A refund is sent with the keys the money was collected with, or not at all. Whatever has happened to
  the database since the checkout, a payment recorded with what that checkout was opened with is refunded
  with the platform's keys when the platform collected it, and otherwise with the key pair now kept for the
  collecting account, and with nothing when that account has no key left, when its secret cannot be read
  or when there is no secret: no other account's keys and never the platform's. Where the keys of the collecting
  account are as they were, the refund uses the very credentials of the checkout.
\<close>

theorem refund_uses_the_collectors_keys:
  assumes "credentials_for box pk ps now k db = Inr c"
    and "py_source p \<noteq> SRC_WALLET" and "py_collecting_user_id p = cn_collecting_user_id c"
  shows "case cn_collecting_user_id c of
      None \<Rightarrow> credentials_for_payment box pk ps p db' = Inr \<lparr>rz_key_id = pk, rz_key_secret = ps\<rparr>
        \<and> cn_credentials c = \<lparr>rz_key_id = pk, rz_key_secret = ps\<rparr>
    | Some i \<Rightarrow>
        (\<forall>used. credentials_for_payment box pk ps p db' = Inr used \<longleftrightarrow>
           (\<exists>config sealed. get_config i db' = Some config \<and> pc_key_id config = Some (rz_key_id used) \<and> rz_key_id used \<noteq> []
              \<and> pc_key_secret_encrypted config = Some sealed \<and> sealed \<noteq> [] \<and> sb_decrypt box sealed = Some (rz_key_secret used)))
      \<and> (get_config i db' = get_config i db \<longrightarrow> credentials_for_payment box pk ps p db' = Inr (cn_credentials c))"
  using assms(1)
proof (cases rule: credentials_for_cases)
  case platform
  with assms(2,3) show ?thesis by (simp add: credentials_for_payment_def)
next
  case (owner owner config secret)
  then have "credentials_for_payment box pk ps p db' = Inr (cn_credentials c)" if "get_config (us_id owner) db' = get_config (us_id owner) db"
    using that assms(2,3) by (simp add: credentials_for_payment_def)
  moreover have "credentials_for_payment box pk ps p db' = Inr used \<longleftrightarrow>
      (\<exists>config sealed. get_config (us_id owner) db' = Some config \<and> pc_key_id config = Some (rz_key_id used) \<and> rz_key_id used \<noteq> []
        \<and> pc_key_secret_encrypted config = Some sealed \<and> sealed \<noteq> [] \<and> sb_decrypt box sealed = Some (rz_key_secret used))" for used
    using owner assms(2,3)
    by (cases used) (auto simp: credentials_for_payment_def decrypt_secret_def decrypt_def bind_res_Inr_iff truthy_def split: option.splits if_splits)
  ultimately show ?thesis using owner by simp
qed

definition owner_payment_example :: payment where
  "owner_payment_example = \<lparr>py_id = 1, py_public_id = ''pay_1'', py_user_id = 2, py_kind = PRINT_ORDER,
     py_order_id = Some 1, py_subscription_id = None, py_kiosk_id = Some 1, py_source = SRC_OWNER_GATEWAY,
     py_collecting_user_id = Some 1, py_razorpay_order_id = Some ''order_1'',
     py_razorpay_payment_id = Some ''pay_rzp_1'', py_amount_inr = 20, py_refunded_inr = 0, py_status = CAPTURED,
     py_failure_reason = None, py_created_at = 0, py_captured_at = Some 0\<rparr>"

theorem refund_uses_the_collectors_keys_witness:
  "credentials_for_payment toy_box ''p'' ''q'' owner_payment_example (collecting_example\<lparr>kiosk_assignments := []\<rparr>)
     = Inr \<lparr>rz_key_id = ''rzp_live_x'', rz_key_secret = ''secret''\<rparr>
   \<and> (\<forall>used. credentials_for_payment toy_box ''p'' ''q'' owner_payment_example (collecting_example\<lparr>payment_configs := []\<rparr>) \<noteq> Inr used)"
  using refund_uses_the_collectors_keys[OF collecting_example_credentials, of owner_payment_example
      "collecting_example\<lparr>kiosk_assignments := []\<rparr>"]
    refund_uses_the_collectors_keys[OF collecting_example_credentials, of owner_payment_example
      "collecting_example\<lparr>payment_configs := []\<rparr>"]
  by (simp add: owner_payment_example_def get_config_def)

section \<open>Keys are set once\<close>

definition configs_ok :: "'a payments_db_scheme \<Rightarrow> bool" where
  "configs_ok db \<longleftrightarrow> distinct (map pc_id (payment_configs db)) \<and> distinct (map pc_user_id (payment_configs db))
     \<and> distinct (map cr_id (change_requests db))"

definition approvals :: "nat \<Rightarrow> 'a payments_db_scheme \<Rightarrow> nat" where
  "approvals u db = length (filter (\<lambda>r. cr_user_id r = u \<and> cr_status r = REQ_APPROVED) (change_requests db))"

lemma get_configD: "get_config u db = Some c \<Longrightarrow> c \<in> set (payment_configs db) \<and> pc_user_id c = u"
  by (auto simp: get_config_def dest: first_where_SomeD)

lemma get_config_save:
  assumes "configs_ok db" and "pc_user_id c = u"
    and "get_config u db = None \<and> pc_id c = fresh_key pc_id (payment_configs db)
       \<or> (\<exists>old. get_config u db = Some old \<and> pc_id c = pc_id old)"
  shows "get_config v (save_config c db) = (if v = u then Some c else get_config v db)"
    and "configs_ok (save_config c db)"
proof -
  have ids: "distinct (map pc_id (payment_configs db))" "distinct (map pc_user_id (payment_configs db))"
    using assms(1) by (auto simp: configs_ok_def)
  have "get_config v (save_config c db) = (if v = u then Some c else get_config v db)
      \<and> configs_ok (save_config c db)"
    using assms(3)
  proof
    assume new: "get_config u db = None \<and> pc_id c = fresh_key pc_id (payment_configs db)"
    then have "pc_id c \<notin> pc_id ` set (payment_configs db)" by (simp add: fresh_key_notin)
    then have "row_by pc_id (payment_configs db) (pc_id c) = None" by (simp add: row_by_None_iff)
    moreover have "u \<notin> pc_user_id ` set (payment_configs db)"
      using new by (auto simp: get_config_def first_where_None_iff)
    ultimately show ?thesis using new assms(1,2)
      by (auto simp: save_config_def get_config_def first_where_append configs_ok_def fresh_key_notin
          split: option.splits)
  next
    assume "\<exists>old. get_config u db = Some old \<and> pc_id c = pc_id old"
    then obtain old where old: "get_config u db = Some old" "pc_id c = pc_id old" by blast
    then have mem: "old \<in> set (payment_configs db)" "pc_user_id old = u" by (auto dest: get_configD)
    then have put: "save_config c db = db\<lparr>payment_configs := put_row pc_id c (payment_configs db)\<rparr>"
      using old(2) row_by_distinct[OF ids(1) mem(1)] by (simp add: save_config_def)
    have users: "map pc_user_id (put_row pc_id c (payment_configs db)) = map pc_user_id (payment_configs db)"
      using distinct_key_eq[OF ids(1) mem(1)] mem(2) assms(2) old(2) by (intro map_put_row_same) auto
    have "c \<in> set (put_row pc_id c (payment_configs db))" using mem old(2) by (auto simp: set_put_row)
    then have "first_where (\<lambda>x. pc_user_id x = u) (put_row pc_id c (payment_configs db)) = Some c"
      using first_where_unique[of pc_user_id _ c] users ids(2) assms(2) by simp
    moreover have "first_where (\<lambda>x. pc_user_id x = v) (put_row pc_id c rows) = first_where (\<lambda>x. pc_user_id x = v) rows"
      if "v \<noteq> u" "map pc_user_id (put_row pc_id c rows) = map pc_user_id rows" for rows
      using that assms(2) by (induction rows) (auto split: if_splits)
    ultimately show ?thesis using users assms(1)
      by (auto simp: put get_config_def configs_ok_def map_key_put_row)
  qed
  then show "get_config v (save_config c db) = (if v = u then Some c else get_config v db)"
    "configs_ok (save_config c db)" by auto
qed

lemma put_used_approvals:
  assumes "first_where (\<lambda>r. cr_user_id r = u \<and> cr_status r = REQ_APPROVED) rows = Some a" and "distinct (map cr_id rows)"
  shows "length (filter (\<lambda>r. cr_user_id r = v \<and> cr_status r = REQ_APPROVED) (put_row cr_id (a\<lparr>cr_status := REQ_USED\<rparr>) rows))
    = length (filter (\<lambda>r. cr_user_id r = v \<and> cr_status r = REQ_APPROVED) rows) - (if v = u then 1 else 0)"
  using assms
proof (induction rows)
  case (Cons r rs)
  show ?case
  proof (cases "cr_user_id r = u \<and> cr_status r = REQ_APPROVED")
    case True
    then have "a = r" using Cons.prems(1) by simp
    moreover have "put_row cr_id (r\<lparr>cr_status := REQ_USED\<rparr>) rs = rs"
      by (rule put_row_absent) (use Cons.prems(2) in auto)
    ultimately show ?thesis using True by auto
  next
    case False
    then have a: "first_where (\<lambda>r. cr_user_id r = u \<and> cr_status r = REQ_APPROVED) rs = Some a"
      using Cons.prems(1) by (auto split: if_splits)
    then have m: "a \<in> set rs" "cr_user_id a = u \<and> cr_status a = REQ_APPROVED" by (auto dest: first_where_SomeD)
    then have "cr_id r \<noteq> cr_id a" using Cons.prems(2) by auto
    moreover have "0 < length (filter (\<lambda>r. cr_user_id r = u \<and> cr_status r = REQ_APPROVED) rs)"
      using m by (auto simp: filter_empty_conv)
    ultimately show ?thesis using Cons.IH[OF a] Cons.prems(2) False by auto
  qed
qed simp

text \<open>
  (Property). An owner's keys are set once, and replaced only by spending an approval: setting them on an
  account that has none needs no approval and spends none, replacing them is refused without one
  and spends exactly one, nobody else's keys or approvals move, and what a later charge decrypts
  is the secret that was given. Fernet enters through decryption undoing encryption.
\<close>

theorem one_approval_one_change:
  assumes "configs_ok db" and "\<forall>salt t. sb_decrypt box (sb_encrypt box salt t) = Some t"
    and "\<forall>salt t. sb_encrypt box salt t \<noteq> []"
  shows "case set_keys box u raw_id raw_secret now db of
      Inr (c, db') \<Rightarrow> get_config u db' = Some c \<and> has_usable_keys u db'
        \<and> pc_key_id c = Some (strip raw_id) \<and> decrypt_secret box c = Inr (strip raw_secret)
        \<and> (\<forall>v. v \<noteq> u \<longrightarrow> get_config v db' = get_config v db \<and> approvals v db' = approvals v db)
        \<and> (if has_usable_keys u db \<or> (\<exists>old. get_config u db = Some old \<and> pc_is_configured old)
            then approvals u db = Suc (approvals u db') else approvals u db' = approvals u db)
        \<and> configs_ok db'
    | Inl e \<Rightarrow> e = BadRequest BOTH_REQUIRED \<and> (strip raw_id = [] \<or> strip raw_secret = [])
        \<or> e = Conflict ALREADY_CONFIGURED \<and> approvals u db = 0 \<and> (\<exists>old. get_config u db = Some old \<and> pc_is_configured old)"
proof -
  define configured where "configured = (case get_config u db of Some c \<Rightarrow> pc_is_configured c | None \<Rightarrow> False)"
  have conf: "configured \<longleftrightarrow> (\<exists>old. get_config u db = Some old \<and> pc_is_configured old)"
    "has_usable_keys u db \<Longrightarrow> configured"
    by (auto simp: configured_def has_usable_keys_def split: option.splits)
  have none: "approved_request u db = None \<longleftrightarrow> approvals u db = 0"
    by (auto simp: approved_request_def approvals_def first_where_None_iff filter_empty_conv)
  show ?thesis
  proof (cases "strip raw_id = [] \<or> strip raw_secret = [] \<or> configured \<and> approved_request u db = None")
    case True
    then show ?thesis using none conf(1) by (auto simp: set_keys_def Let_def configured_def[symmetric])
  next
    case False
    define db1 where "db1 = (if configured then db\<lparr>change_requests :=
        put_row cr_id ((the (approved_request u db))\<lparr>cr_status := REQ_USED\<rparr>) (change_requests db)\<rparr> else db)"
    define c where "c = (case get_config u db of Some c \<Rightarrow> c | None \<Rightarrow> new_config u db1)"
    define db2 where "db2 = db1\<lparr>drawn := Suc (drawn db1)\<rparr>"
    define c' where "c' = c\<lparr>pc_key_id := Some (strip raw_id), pc_key_secret_encrypted :=
        Some (sb_encrypt box (entropy db1 (drawn db1)) (strip raw_secret)), pc_is_configured := True,
        pc_configured_at := Some now\<rparr>"
    have r: "set_keys box u raw_id raw_secret now db = Inr (c', save_config c' db2)"
      using False by (simp add: set_keys_def Let_def configured_def[symmetric] db1_def[symmetric] c_def[symmetric]
          encrypt_def db2_def[symmetric] c'_def[symmetric])
    have same: "get_config v db2 = get_config v db" "payment_configs db2 = payment_configs db" for v
      by (simp_all add: db2_def db1_def get_config_def)
    have ok2: "configs_ok db2" using assms(1) by (simp add: db2_def db1_def configs_ok_def distinct_put_row)
    have row: "pc_user_id c' = u" "get_config u db2 = None \<and> pc_id c' = fresh_key pc_id (payment_configs db2)
       \<or> (\<exists>old. get_config u db2 = Some old \<and> pc_id c' = pc_id old)"
      using same by (auto simp: c'_def c_def new_config_def db1_def dest: get_configD split: option.splits)
    note saved = get_config_save[OF ok2 row]
    have appr: "approvals v (save_config c' db2) = approvals v db - (if configured \<and> v = u then 1 else 0)" for v
    proof (cases configured)
      case True
      then obtain a where a: "approved_request u db = Some a" using False by auto
      from put_used_approvals[OF a[unfolded approved_request_def], of v] assms(1) True a show ?thesis
        by (simp add: approvals_def save_config_def db2_def db1_def configs_ok_def)
    qed (simp add: approvals_def save_config_def db2_def db1_def)
    have "0 < approvals u db" if configured using that False none by auto
    moreover have "decrypt_secret box c' = Inr (strip raw_secret)"
      using assms(2,3) by (simp add: decrypt_secret_def c'_def truthy_def decrypt_def)
    moreover have "has_usable_keys u (save_config c' db2)"
      using saved(1)[of u] False assms(3) by (simp add: has_usable_keys_def c'_def truthy_def)
    ultimately show ?thesis
      using saved appr same conf by (auto simp: r c'_def[THEN arg_cong[where f = pc_key_id]])
  qed
qed

theorem one_approval_one_change_witness:
  "\<exists>c db'. set_keys toy_box 1 ''rzp_new'' ''s2'' 5 (collecting_example\<lparr>payment_configs := []\<rparr>) = Inr (c, db')
     \<and> decrypt_secret toy_box c = Inr ''s2''
     \<and> set_keys toy_box 1 ''rzp_other'' ''s3'' 6 collecting_example = Inl (Conflict ALREADY_CONFIGURED)"
proof -
  have ok: "configs_ok (collecting_example\<lparr>payment_configs := []\<rparr>)" "configs_ok collecting_example"
    by (simp_all add: configs_ok_def collecting_example_def payments_blank_def)
  have box: "\<forall>salt t. sb_decrypt toy_box (sb_encrypt toy_box salt t) = Some t"
    "\<forall>salt t. sb_encrypt toy_box salt t \<noteq> []" by (simp_all add: toy_box_def)
  have t: "strip ''rzp_new'' = ''rzp_new''" "strip ''s2'' = ''s2''" "strip ''rzp_other'' = ''rzp_other''" "strip ''s3'' = ''s3''"
    by code_simp+
  have "get_config 1 (collecting_example\<lparr>payment_configs := []\<rparr>) = None" by (simp add: get_config_def)
  with one_approval_one_change[OF ok(1) box, where u = 1 and raw_id = "''rzp_new''" and raw_secret = "''s2''" and now = 5] t
  obtain c db' where "set_keys toy_box 1 ''rzp_new'' ''s2'' 5 (collecting_example\<lparr>payment_configs := []\<rparr>) = Inr (c, db')"
    "decrypt_secret toy_box c = Inr ''s2''"
    by (auto split: sum.splits)
  moreover have "approvals 1 collecting_example = 0"
    by (simp add: approvals_def collecting_example_def payments_blank_def)
  with one_approval_one_change[OF ok(2) box, where u = 1 and raw_id = "''rzp_other''" and raw_secret = "''s3''" and now = 6] t collecting_example_facts(4)
  have "set_keys toy_box 1 ''rzp_other'' ''s3'' 6 collecting_example = Inl (Conflict ALREADY_CONFIGURED)"
    by (auto simp: config_example_def split: sum.splits if_splits)
  ultimately show ?thesis by blast
qed

end
