(* ===== verification/Payments.thy ===== *)
theory Payments
  imports Gate Wallet
begin

text \<open>
  Checkouts, captures and refunds: \<^verbatim>\<open>payments/signatures.py\<close>, \<^verbatim>\<open>charges.py\<close> and \<^verbatim>\<open>refunds.py\<close>.
  HMAC-SHA256 is the parameter \<open>mac\<close> (secret, message, hex digest); Razorpay is the record
  \<open>razorpay_gateway\<close> of the two calls the code makes, each of which may raise. A payment is handed to
  an operation as the row the caller holds and handed back as it left it.
\<close>

section \<open>Signatures\<close>

type_synonym mac = "string \<Rightarrow> string \<Rightarrow> string"

definition is_ascii :: "string \<Rightarrow> bool" where
  "is_ascii s \<longleftrightarrow> list_all (\<lambda>c. (of_char c :: nat) < 128) s"

text \<open>\<^verbatim>\<open>hmac.compare_digest\<close> on two \<^verbatim>\<open>str\<close> raises a \<^verbatim>\<open>TypeError\<close> unless both are ASCII.\<close>

definition compare_digest :: "string \<Rightarrow> string \<Rightarrow> bool result" where
  "compare_digest a b =
     (if is_ascii a \<and> is_ascii b then Inr (a = b)
      else Inl (Unhandled ''TypeError: comparing strings with non-ASCII characters is not supported''))"

definition signature_matches :: "mac \<Rightarrow> string \<Rightarrow> string option \<Rightarrow> string \<Rightarrow> bool result" where
  "signature_matches mac message signature secret =
     (if secret = [] then Inr False
      else case signature of
        None \<Rightarrow> Inr False
      | Some s \<Rightarrow> if strip s = [] then Inr False else compare_digest (mac secret message) (strip s))"

definition SEPARATOR :: string where
  "SEPARATOR = ''|''"

definition verify_payment_signature ::
  "mac \<Rightarrow> string \<Rightarrow> string \<Rightarrow> string option \<Rightarrow> string \<Rightarrow> bool result" where
  "verify_payment_signature mac order_id payment_id signature secret =
     (if CHR ''|'' \<in> set order_id \<or> CHR ''|'' \<in> set payment_id then Inr False
      else signature_matches mac (order_id @ SEPARATOR @ payment_id) signature secret)"

definition verify_webhook_signature :: "mac \<Rightarrow> string \<Rightarrow> string option \<Rightarrow> string \<Rightarrow> bool result" where
  "verify_webhook_signature mac body signature secret = signature_matches mac body signature secret"

section \<open>Charges\<close>

definition BAD_SIGNATURE :: string where
  "BAD_SIGNATURE = ''We could not verify that payment. Nothing has been charged twice.''"

definition ALREADY_CAPTURED :: string where
  "ALREADY_CAPTURED = ''That payment has already been recorded.''"

definition WRONG_PAYMENT :: string where
  "WRONG_PAYMENT = ''That payment does not belong to this order.''"

definition NOTHING_TO_PAY :: string where
  "NOTHING_TO_PAY = ''There is nothing to pay for.''"

record razorpay_gateway =
  rg_create_order :: "int \<Rightarrow> string \<Rightarrow> credentials \<Rightarrow> string result"
  rg_refund :: "string \<Rightarrow> int \<Rightarrow> string \<Rightarrow> credentials \<Rightarrow> string result"

text \<open>\<^verbatim>\<open>PaymentSource(gateway.value)\<close>: \<open>CLOSED\<close> has no source of its name and raises.\<close>

fun source_of_gateway :: "gateway \<Rightarrow> payment_source result" where
  "source_of_gateway PLATFORM_GATEWAY = Inr SRC_PLATFORM_GATEWAY"
| "source_of_gateway OWNER_GATEWAY = Inr SRC_OWNER_GATEWAY"
| "source_of_gateway CLOSED = Inl (Unhandled ''ValueError: 'closed' is not a valid PaymentSource'')"

definition save_payment :: "payment \<Rightarrow> 'a payments_db_scheme \<Rightarrow> 'a payments_db_scheme" where
  "save_payment p db = db\<lparr>payments := put_row py_id p (payments db)\<rparr>"

text \<open>
  The INSERT of a payment row: the columns the caller gives, the rest at their defaults. A
  \<^verbatim>\<open>razorpay_order_id\<close> another row holds violates its unique constraint.
\<close>

definition insert_payment :: "payment \<Rightarrow> 'a payments_db_scheme \<Rightarrow> (payment \<times> 'a payments_db_scheme) result" where
  "insert_payment values db =
     (let (pid, db1) = mint PAYMENT db;
          p = values\<lparr>py_id := fresh_key py_id (payments db), py_public_id := pid, py_refunded_inr := 0,
                     py_failure_reason := None, py_created_at := tx_now db\<rparr>
      in if py_razorpay_order_id p \<noteq> None
            \<and> (\<exists>q \<in> set (payments db). py_razorpay_order_id q = py_razorpay_order_id p)
         then Inl (Unhandled ''IntegrityError: payments.razorpay_order_id'')
         else Inr (p, db1\<lparr>payments := payments db @ [p]\<rparr>))"

definition open_checkout ::
  "razorpay_gateway \<Rightarrow> nat \<Rightarrow> payment_kind \<Rightarrow> rat \<Rightarrow> string \<Rightarrow> kiosk option \<Rightarrow> credentials \<Rightarrow> gateway \<Rightarrow>
   nat option \<Rightarrow> nat option \<Rightarrow> nat option \<Rightarrow> 'a payments_db_scheme \<Rightarrow> (payment \<times> 'a payments_db_scheme) result" where
  "open_checkout rz user_id kind amount receipt k creds gw collecting_user_id order_id subscription_id db =
     (let amount = as_money amount in
      if amount \<le> 0 then Inl (BadRequest NOTHING_TO_PAY)
      else bind_res (rg_create_order rz (to_paise amount) receipt creds) (\<lambda>razorpay_order_id.
        bind_res (source_of_gateway gw) (\<lambda>source.
          insert_payment
            \<lparr>py_id = 0, py_public_id = [], py_user_id = user_id, py_kind = kind, py_order_id = order_id,
             py_subscription_id = subscription_id, py_kiosk_id = map_option ki_id k, py_source = source,
             py_collecting_user_id = collecting_user_id, py_razorpay_order_id = Some razorpay_order_id,
             py_razorpay_payment_id = None, py_amount_inr = amount, py_refunded_inr = 0, py_status = CREATED,
             py_failure_reason = None, py_created_at = 0, py_captured_at = None\<rparr> db)))"

definition record_wallet_payment ::
  "nat \<Rightarrow> payment_kind \<Rightarrow> rat \<Rightarrow> nat option \<Rightarrow> nat option \<Rightarrow> datetime \<Rightarrow> 'a payments_db_scheme \<Rightarrow>
   (payment \<times> 'a payments_db_scheme) result" where
  "record_wallet_payment user_id kind amount kiosk_id order_id now db =
     insert_payment
       \<lparr>py_id = 0, py_public_id = [], py_user_id = user_id, py_kind = kind, py_order_id = order_id,
        py_subscription_id = None, py_kiosk_id = kiosk_id, py_source = SRC_WALLET,
        py_collecting_user_id = None, py_razorpay_order_id = None,
        py_razorpay_payment_id = None, py_amount_inr = as_money amount, py_refunded_inr = 0, py_status = CAPTURED,
        py_failure_reason = None, py_created_at = 0, py_captured_at = Some now\<rparr> db"

text \<open>\<^verbatim>\<open>ORDER BY id DESC\<close> and the first row.\<close>

definition newest_payment :: "(payment \<Rightarrow> bool) \<Rightarrow> 'a payments_db_scheme \<Rightarrow> payment option" where
  "newest_payment match db =
     (case sort_key (\<lambda>p. - int (py_id p)) (filter match (payments db)) of [] \<Rightarrow> None | p # _ \<Rightarrow> Some p)"

definition payment_for_subscription :: "nat \<Rightarrow> 'a payments_db_scheme \<Rightarrow> payment option" where
  "payment_for_subscription subscription_id db =
     newest_payment (\<lambda>p. py_subscription_id p = Some subscription_id \<and> py_kind p = SUBSCRIPTION_PAYMENT
       \<and> py_status p \<in> SETTLED_PAYMENT_STATES) db"

definition payment_for_order :: "nat \<Rightarrow> 'a payments_db_scheme \<Rightarrow> payment option" where
  "payment_for_order order_id db =
     newest_payment (\<lambda>p. py_order_id p = Some order_id \<and> py_kind p = PRINT_ORDER) db"

definition payment_for_razorpay_order :: "string \<Rightarrow> 'a payments_db_scheme \<Rightarrow> payment option" where
  "payment_for_razorpay_order razorpay_order_id db =
     first_where (\<lambda>p. py_razorpay_order_id p = Some razorpay_order_id) (payments db)"

definition record_capture ::
  "payment \<Rightarrow> string \<Rightarrow> datetime \<Rightarrow> 'a payments_db_scheme \<Rightarrow> (payment \<times> 'a payments_db_scheme) result" where
  "record_capture p razorpay_payment_id now db =
     (if py_status p = CAPTURED then
        (if py_razorpay_payment_id p = Some razorpay_payment_id then Inl (Conflict ALREADY_CAPTURED)
         else Inl (Conflict WRONG_PAYMENT))
      else
        let p' = p\<lparr>py_status := CAPTURED, py_razorpay_payment_id := Some razorpay_payment_id,
                   py_captured_at := Some now\<rparr>
        in if \<exists>q \<in> set (payments db). py_id q \<noteq> py_id p \<and> py_razorpay_payment_id q = Some razorpay_payment_id
           then Inl (Conflict ALREADY_CAPTURED)
           else Inr (p', save_payment p' db))"

definition confirm_payment ::
  "mac \<Rightarrow> payment \<Rightarrow> string \<Rightarrow> string option \<Rightarrow> string \<Rightarrow> datetime \<Rightarrow> 'a payments_db_scheme \<Rightarrow>
   (payment \<times> 'a payments_db_scheme) result" where
  "confirm_payment mac p razorpay_payment_id signature key_secret now db =
     (case py_razorpay_order_id p of
        None \<Rightarrow> Inl (Unhandled ''TypeError: argument of type 'NoneType' is not iterable'')
      | Some order_id \<Rightarrow>
          bind_res (verify_payment_signature mac order_id razorpay_payment_id signature key_secret) (\<lambda>ok.
            if \<not> ok then Inl (BadRequest BAD_SIGNATURE)
            else record_capture p razorpay_payment_id now db))"

definition clip :: "nat \<Rightarrow> string \<Rightarrow> string option" where
  "clip n s = (if take n s = [] then None else Some (take n s))"

definition record_failure ::
  "payment \<Rightarrow> string option \<Rightarrow> 'a payments_db_scheme \<Rightarrow> (payment \<times> 'a payments_db_scheme) result" where
  "record_failure p reason db =
     (if py_status p = CAPTURED then Inl (Conflict ALREADY_CAPTURED)
      else let p' = p\<lparr>py_status := PAY_FAILED,
                      py_failure_reason := clip 300 (case reason of Some r \<Rightarrow> r | None \<Rightarrow> [])\<rparr>
           in Inr (p', save_payment p' db))"

definition webhook_secret_for ::
  "nat option \<Rightarrow> secret_box \<Rightarrow> string \<Rightarrow> 'a payments_db_scheme \<Rightarrow> string result" where
  "webhook_secret_for collecting_user_id box platform_webhook_secret db =
     (case collecting_user_id of
        None \<Rightarrow> Inr platform_webhook_secret
      | Some u \<Rightarrow> (case get_config u db of None \<Rightarrow> Inr [] | Some c \<Rightarrow> decrypt_webhook_secret box c))"

section \<open>Refunds\<close>

definition AMOUNT_MUST_BE_POSITIVE :: string where
  "AMOUNT_MUST_BE_POSITIVE = ''A refund amount must be more than zero.''"

definition REFUND_EXCEEDS_CAPTURED :: string where
  "REFUND_EXCEEDS_CAPTURED = ''That refund is more than what was paid.''"

definition ILLEGAL_DESTINATION :: string where
  "ILLEGAL_DESTINATION = ''Refunds from an owner's account must go back to the source.''"

definition NOTHING_TO_REVERSE :: string where
  "NOTHING_TO_REVERSE = ''That payment came from a balance, so it can only go back to one.''"

definition NO_GATEWAY :: string where
  "NO_GATEWAY = ''Refunding to the source needs a live Razorpay connection.''"

definition NO_CREDENTIALS :: string where
  "NO_CREDENTIALS = ''That refund cannot be sent right now. The collecting account's payment connection is not available.''"

definition ALREADY_REFUNDED :: string where
  "ALREADY_REFUNDED = ''That refund has already been recorded.''"

definition KEY_BELONGS_ELSEWHERE :: string where
  "KEY_BELONGS_ELSEWHERE = ''That refund reference has already been used for another payment.''"

definition PAYMENT_NOT_CAPTURED :: string where
  "PAYMENT_NOT_CAPTURED = ''Only a payment that was made can be refunded.''"

definition REFUNDABLE :: "payment_status set" where
  "REFUNDABLE = {CAPTURED, PARTIALLY_REFUNDED}"

definition may_go_to_wallet :: "payment \<Rightarrow> bool" where
  "may_go_to_wallet p \<longleftrightarrow> py_collecting_user_id p = None"

definition may_go_to_source :: "payment \<Rightarrow> bool" where
  "may_go_to_source p \<longleftrightarrow> py_razorpay_payment_id p \<noteq> None"

definition refund_for_key :: "string \<Rightarrow> 'a payments_db_scheme \<Rightarrow> refund_row option" where
  "refund_for_key key db = first_where (\<lambda>r. rf_idempotency_key r = key) (refunds db)"

definition refund_for_razorpay_id :: "string \<Rightarrow> 'a payments_db_scheme \<Rightarrow> refund_row option" where
  "refund_for_razorpay_id i db = first_where (\<lambda>r. rf_razorpay_refund_id r = Some i) (refunds db)"

definition refunds_for :: "payment \<Rightarrow> 'a payments_db_scheme \<Rightarrow> refund_row list" where
  "refunds_for p db =
     sort_key (\<lambda>r. (rf_created_at r, rf_id r)) (filter (\<lambda>r. rf_payment_id r = py_id p) (refunds db))"

text \<open>
  \<^verbatim>\<open>RefundSink.on_refund\<close>; the one the program wires in never raises, so it is a function of the
  session.
\<close>

type_synonym 's refund_sink = "payment \<Rightarrow> refund_row \<Rightarrow> 's \<Rightarrow> 's"

text \<open>
  The to-source leg: the id Razorpay gave the refund, the one it had already when the money went
  back elsewhere, or none for a wallet credit.
\<close>

definition send_refund ::
  "payment \<Rightarrow> rat \<Rightarrow> refund_destination \<Rightarrow> string \<Rightarrow> razorpay_gateway option \<Rightarrow> credentials option \<Rightarrow>
   string option \<Rightarrow> string option result" where
  "send_refund p amount destination key rz creds external_refund_id =
     (if destination = TO_SOURCE \<and> external_refund_id = None then
        (case rz of
           None \<Rightarrow> Inl (Conflict NO_GATEWAY)
         | Some g \<Rightarrow>
             (case creds of
                None \<Rightarrow> Inl (Conflict NO_CREDENTIALS)
              | Some c \<Rightarrow>
                  bind_res (rg_refund g (the (py_razorpay_payment_id p)) (to_paise amount) key c) (\<lambda>i. Inr (Some i))))
      else Inr external_refund_id)"

definition insert_refund ::
  "payment \<Rightarrow> rat \<Rightarrow> refund_destination \<Rightarrow> string \<Rightarrow> string option \<Rightarrow> nat option \<Rightarrow> string option \<Rightarrow>
   'a payments_db_scheme \<Rightarrow> (refund_row \<times> 'a payments_db_scheme) result" where
  "insert_refund p amount destination key razorpay_refund_id actor reason db =
     (let (pid, db1) = mint REFUND db;
          r = \<lparr>rf_id = fresh_key rf_id (refunds db), rf_public_id = pid, rf_payment_id = py_id p,
               rf_amount_inr = amount, rf_destination = destination, rf_idempotency_key = key,
               rf_razorpay_refund_id = razorpay_refund_id, rf_actor_user_id = actor,
               rf_reason = clip 300 (strip (case reason of Some t \<Rightarrow> t | None \<Rightarrow> [])), rf_created_at = tx_now db\<rparr>
      in if refund_for_key key db \<noteq> None
            \<or> razorpay_refund_id \<noteq> None \<and> refund_for_razorpay_id (the razorpay_refund_id) db \<noteq> None
         then Inl (Conflict ALREADY_REFUNDED)
         else Inr (r, db1\<lparr>refunds := refunds db @ [r]\<rparr>))"

definition after_refund :: "rat \<Rightarrow> payment \<Rightarrow> payment" where
  "after_refund amount p =
     (let given = as_money (py_refunded_inr p + amount)
      in p\<lparr>py_refunded_inr := given,
           py_status := (if given \<ge> as_money (py_amount_inr p) then PAY_REFUNDED else PARTIALLY_REFUNDED)\<rparr>)"

definition refund ::
  "payment \<Rightarrow> rat \<Rightarrow> refund_destination \<Rightarrow> string \<Rightarrow> nat option \<Rightarrow> string option \<Rightarrow>
   razorpay_gateway option \<Rightarrow> credentials option \<Rightarrow> string option \<Rightarrow>
   'a payments_db_scheme refund_sink option \<Rightarrow> 'a payments_db_scheme \<Rightarrow>
   (refund_row \<times> payment \<times> 'a payments_db_scheme) result" where
  "refund p amount destination key actor reason rz creds external_refund_id sink db =
     (case refund_for_key key db of
        Some already \<Rightarrow>
          if rf_payment_id already \<noteq> py_id p then Inl (Conflict KEY_BELONGS_ELSEWHERE)
          else Inr (already, p, db)
      | None \<Rightarrow>
          let amount = as_money amount;
              available = as_money (py_amount_inr p) - as_money (py_refunded_inr p) in
          if amount \<le> 0 then Inl (BadRequest AMOUNT_MUST_BE_POSITIVE)
          else if py_status p \<notin> REFUNDABLE then Inl (Conflict PAYMENT_NOT_CAPTURED)
          else if destination = TO_WALLET \<and> \<not> may_go_to_wallet p then Inl (BadRequest ILLEGAL_DESTINATION)
          else if destination = TO_SOURCE \<and> \<not> may_go_to_source p then Inl (BadRequest NOTHING_TO_REVERSE)
          else if amount > available then Inl (Conflict REFUND_EXCEEDS_CAPTURED)
          else
            bind_res (send_refund p amount destination key rz creds external_refund_id) (\<lambda>razorpay_refund_id.
            bind_res (insert_refund p amount destination key razorpay_refund_id actor reason db) (\<lambda>(r, db1).
              let p' = after_refund amount p;
                  db2 = save_payment p' db1 in
              bind_res (if destination = TO_WALLET
                        then bind_res (credit (py_user_id p) amount ENTRY_REFUND (''refund:'' @ key) reason db2)
                               (\<lambda>(_, db3). Inr db3)
                        else Inr db2) (\<lambda>db3.
              Inr (r, p', case sink of Some f \<Rightarrow> f p' r db3 | None \<Rightarrow> db3)))))"

section \<open>The books\<close>

definition given_back :: "nat \<Rightarrow> refund_row list \<Rightarrow> rat" where
  "given_back i rs = sum_list (map rf_amount_inr (filter (\<lambda>r. rf_payment_id r = i) rs))"

definition payment_sound :: "refund_row list \<Rightarrow> payment \<Rightarrow> bool" where
  "payment_sound rs p \<longleftrightarrow> is_money (py_amount_inr p) \<and> is_money (py_refunded_inr p)
     \<and> py_refunded_inr p = given_back (py_id p) rs \<and> 0 \<le> py_refunded_inr p \<and> py_refunded_inr p \<le> py_amount_inr p"

definition refund_sound :: "payment list \<Rightarrow> refund_row \<Rightarrow> bool" where
  "refund_sound ps r \<longleftrightarrow> 0 < rf_amount_inr r \<and> is_money (rf_amount_inr r)
     \<and> (\<exists>p \<in> set ps. py_id p = rf_payment_id r \<and> (rf_destination r = TO_WALLET \<longrightarrow> py_collecting_user_id p = None)
          \<and> (rf_destination r = TO_SOURCE \<longrightarrow> py_razorpay_payment_id p \<noteq> None))"

text \<open>
  The tables' own rules and what the books promise: what a payment says was given back is the sum
  of its refunds and never more than was paid, every refund is of a payment that exists, and an
  owner's money never became platform balance.
\<close>

definition books_ok :: "'a payments_db_scheme \<Rightarrow> bool" where
  "books_ok db \<longleftrightarrow>
     distinct (map py_id (payments db)) \<and> unique_col py_razorpay_order_id (payments db)
     \<and> unique_col py_razorpay_payment_id (payments db)
     \<and> distinct (map rf_id (refunds db)) \<and> distinct (map rf_idempotency_key (refunds db))
     \<and> unique_col rf_razorpay_refund_id (refunds db)
     \<and> (\<forall>p \<in> set (payments db). payment_sound (refunds db) p)
     \<and> (\<forall>r \<in> set (refunds db). refund_sound (payments db) r)"

lemma given_back_simps [simp]:
  "given_back i [] = 0"
  "given_back i (rs @ [r]) = given_back i rs + (if rf_payment_id r = i then rf_amount_inr r else 0)"
  by (simp_all add: given_back_def)

lemma given_back_absent: "i \<notin> rf_payment_id ` set rs \<Longrightarrow> given_back i rs = 0"
proof -
  assume "i \<notin> rf_payment_id ` set rs"
  then have "filter (\<lambda>r. rf_payment_id r = i) rs = []" by (auto simp: filter_empty_conv)
  then show ?thesis by (simp add: given_back_def)
qed

lemma books_ok_payment: "books_ok db \<Longrightarrow> p \<in> set (payments db) \<Longrightarrow> payment_sound (refunds db) p"
  by (simp add: books_ok_def)

lemma books_ok_ids: "books_ok db \<Longrightarrow> distinct (map py_id (payments db))"
  by (simp add: books_ok_def)

lemma insert_payment_cases:
  assumes "insert_payment v db = Inr (p, db')"
  shows "payments db' = payments db @ [p] \<and> refunds db' = refunds db \<and> py_id p = fresh_key py_id (payments db)
    \<and> p = v\<lparr>py_id := py_id p, py_public_id := py_public_id p, py_refunded_inr := 0, py_failure_reason := None,
         py_created_at := tx_now db\<rparr>
    \<and> (py_razorpay_order_id v = None \<or> (\<forall>q \<in> set (payments db). py_razorpay_order_id q \<noteq> py_razorpay_order_id v))"
  using assms by (auto simp: insert_payment_def Let_def mint_def split: if_splits)

text \<open>A new row with a whole amount that is not negative keeps the books.\<close>

lemma books_insert:
  assumes ok: "books_ok db" and ins: "insert_payment v db = Inr (p, db')"
    and v: "is_money (py_amount_inr v)" "0 \<le> py_amount_inr v" "py_razorpay_payment_id v = None"
  shows "books_ok db'"
proof -
  note c = insert_payment_cases[OF ins]
  have fresh: "py_id p \<notin> py_id ` set (payments db)" using c fresh_key_notin[of py_id "payments db"] by simp
  moreover have "rf_payment_id ` set (refunds db) \<subseteq> py_id ` set (payments db)"
    using ok by (force simp: books_ok_def refund_sound_def)
  ultimately have zero: "given_back (py_id p) (refunds db) = 0" by (intro given_back_absent) blast
  have sel: "py_amount_inr p = py_amount_inr v" "py_refunded_inr p = 0" "py_razorpay_payment_id p = None"
    "py_razorpay_order_id p = py_razorpay_order_id v"
    using c v by (metis payment.select_convs payment.surjective payment.update_convs)+
  show ?thesis unfolding books_ok_def
  proof (intro conjI ballI)
    fix q assume "q \<in> set (payments db')"
    then show "payment_sound (refunds db') q"
      using ok c zero sel v by (auto simp: books_ok_def payment_sound_def)
  next
    fix r assume "r \<in> set (refunds db')"
    then show "refund_sound (payments db') r" using ok c by (auto simp: books_ok_def refund_sound_def)
  qed (use ok c fresh sel in \<open>auto simp: books_ok_def unique_col_append\<close>)
qed

lemma refund_sound_put:
  assumes "refund_sound ps r" and "p \<in> set ps" and "distinct (map py_id ps)" and "py_id p' = py_id p"
    and "py_collecting_user_id p' = py_collecting_user_id p"
    and "py_razorpay_payment_id p \<noteq> None \<Longrightarrow> py_razorpay_payment_id p' \<noteq> None"
  shows "refund_sound (put_row py_id p' ps) r"
proof -
  obtain q where q: "q \<in> set ps" "py_id q = rf_payment_id r" "rf_destination r = TO_WALLET \<longrightarrow> py_collecting_user_id q = None"
    "rf_destination r = TO_SOURCE \<longrightarrow> py_razorpay_payment_id q \<noteq> None" and r: "0 < rf_amount_inr r" "is_money (rf_amount_inr r)"
    using assms(1) by (auto simp: refund_sound_def)
  define q' where "q' = (if py_id q = py_id p then p' else q)"
  have "q = p" if "py_id q = py_id p" by (rule distinct_key_eq[OF assms(3,2) q(1) that])
  then have "py_id q' = rf_payment_id r" "rf_destination r = TO_WALLET \<longrightarrow> py_collecting_user_id q' = None"
    "rf_destination r = TO_SOURCE \<longrightarrow> py_razorpay_payment_id q' \<noteq> None" "q' \<in> set (put_row py_id p' ps)"
    using q assms(2,4-6) by (auto simp: q'_def set_put_row)
  with r show ?thesis unfolding refund_sound_def by blast
qed

text \<open>
  An update of one payment keeps the books when it leaves the money of the row alone and gives it
  no Razorpay payment another row holds.
\<close>

lemma books_update:
  assumes ok: "books_ok db" and p: "p \<in> set (payments db)"
    and same: "py_id p' = py_id p" "py_amount_inr p' = py_amount_inr p" "py_refunded_inr p' = py_refunded_inr p"
      "py_collecting_user_id p' = py_collecting_user_id p" "py_razorpay_order_id p' = py_razorpay_order_id p"
    and pid: "py_razorpay_payment_id p' = py_razorpay_payment_id p \<or> (py_razorpay_payment_id p' \<noteq> None
        \<and> (\<forall>q \<in> set (payments db). py_id q \<noteq> py_id p \<longrightarrow> py_razorpay_payment_id q \<noteq> py_razorpay_payment_id p'))"
  shows "books_ok (save_payment p' db)"
proof -
  have ids: "distinct (map py_id (payments db))" by (rule books_ok_ids[OF ok])
  have only: "x = p" if "x \<in> set (payments db)" "py_id x = py_id p" for x
    using distinct_key_eq[OF ids p that] .
  have orders: "map py_razorpay_order_id (put_row py_id p' (payments db)) = map py_razorpay_order_id (payments db)"
    by (rule map_put_row_same) (use only same in auto)
  have "\<forall>q \<in> set (payments db). py_id q \<noteq> py_id p \<longrightarrow> py_razorpay_payment_id p = None
      \<or> py_razorpay_payment_id q \<noteq> py_razorpay_payment_id p"
    using ok p unique_col_eq[of py_razorpay_payment_id "payments db"] by (auto simp: books_ok_def)
  then have unique: "unique_col py_razorpay_payment_id (put_row py_id p' (payments db))"
    using ok pid same(1) by (intro unique_col_put_row) (auto simp: books_ok_def)
  have rows: "set (put_row py_id p' (payments db)) = insert p' {x \<in> set (payments db). py_id x \<noteq> py_id p}"
    using p same(1) by (auto simp: set_put_row)
  show ?thesis unfolding books_ok_def
  proof (intro conjI ballI)
    show "distinct (map py_id (payments (save_payment p' db)))"
      using ids by (simp add: save_payment_def distinct_put_row)
    show "unique_col py_razorpay_order_id (payments (save_payment p' db))"
      using ok orders by (simp add: save_payment_def books_ok_def unique_col_def)
    show "unique_col py_razorpay_payment_id (payments (save_payment p' db))"
      using unique by (simp add: save_payment_def)
  next
    fix q assume "q \<in> set (payments (save_payment p' db))"
    then show "payment_sound (refunds (save_payment p' db)) q"
      using books_ok_payment[OF ok] books_ok_payment[OF ok p] same rows
      by (auto simp: save_payment_def payment_sound_def)
  next
    fix r assume "r \<in> set (refunds (save_payment p' db))"
    then have "refund_sound (payments db) r" using ok by (simp add: save_payment_def books_ok_def)
    then show "refund_sound (payments (save_payment p' db)) r"
      using refund_sound_put[OF _ p ids same(1,4)] pid by (auto simp: save_payment_def)
  qed (use ok in \<open>auto simp: books_ok_def save_payment_def\<close>)
qed

lemma record_capture_cases:
  assumes "record_capture p i now db = Inr (p', db')"
  shows "py_status p \<noteq> CAPTURED" "db' = save_payment p' db"
    "p' = p\<lparr>py_status := CAPTURED, py_razorpay_payment_id := Some i, py_captured_at := Some now\<rparr>"
    "\<forall>q \<in> set (payments db). py_id q \<noteq> py_id p \<longrightarrow> py_razorpay_payment_id q \<noteq> Some i"
  using assms by (auto simp: record_capture_def Let_def split: if_splits)

lemma record_failure_cases:
  assumes "record_failure p reason db = Inr (p', db')"
  shows "py_status p \<noteq> CAPTURED" "db' = save_payment p' db"
    "p' = p\<lparr>py_status := PAY_FAILED, py_failure_reason := py_failure_reason p'\<rparr>"
  using assms by (auto simp: record_failure_def Let_def split: if_splits)

lemma books_capture:
  assumes "books_ok db" and "p \<in> set (payments db)" and "record_capture p i now db = Inr (p', db')"
  shows "books_ok db'"
  using books_update[OF assms(1,2), of p'] record_capture_cases[OF assms(3)] by simp

lemma books_failure:
  assumes "books_ok db" and "p \<in> set (payments db)" and "record_failure p reason db = Inr (p', db')"
  shows "books_ok db'"
proof -
  note c = record_failure_cases[OF assms(3)]
  have "py_id p' = py_id p" "py_amount_inr p' = py_amount_inr p" "py_refunded_inr p' = py_refunded_inr p"
    "py_collecting_user_id p' = py_collecting_user_id p" "py_razorpay_order_id p' = py_razorpay_order_id p"
    "py_razorpay_payment_id p' = py_razorpay_payment_id p"
    by (subst c(3), simp)+
  then show ?thesis using books_update[OF assms(1,2), of p'] by (simp add: c(2))
qed

lemma credit_frame:
  fixes db :: "'a payments_db_scheme"
  assumes "credit u amount kind r note db = Inr (e, db')"
  shows "payments db' = payments db \<and> refunds db' = refunds db"
  using assms
  by (auto simp: credit_def move_def wallet_for_def Let_def mint_def split: option.splits if_splits)

text \<open>What a refund that is not a retry does, sink apart.\<close>

lemma refund_new_cases:
  assumes "refund p amount d key actor reason rz creds ext sink db = Inr (r, p', db')"
    and "refund_for_key key db = None"
  obtains db1 db3 where
    "0 < as_money amount" "py_status p \<in> REFUNDABLE"
    "as_money amount \<le> as_money (py_amount_inr p) - as_money (py_refunded_inr p)"
    "d = TO_WALLET \<longrightarrow> py_collecting_user_id p = None" "d = TO_SOURCE \<longrightarrow> py_razorpay_payment_id p \<noteq> None"
    "p' = after_refund (as_money amount) p"
    "refunds db1 = refunds db @ [r]" "payments db1 = payments db"
    "wallets db1 = wallets db" "wallet_entries db1 = wallet_entries db"
    "rf_id r = fresh_key rf_id (refunds db)" "rf_payment_id r = py_id p" "rf_amount_inr r = as_money amount"
    "rf_destination r = d" "rf_idempotency_key r = key"
    "rf_razorpay_refund_id r = None \<or> refund_for_razorpay_id (the (rf_razorpay_refund_id r)) db = None"
    "if d = TO_WALLET then \<exists>e. credit (py_user_id p) (as_money amount) ENTRY_REFUND (''refund:'' @ key) reason
        (save_payment p' db1) = Inr (e, db3) else db3 = save_payment p' db1"
    "db' = (case sink of Some f \<Rightarrow> f p' r db3 | None \<Rightarrow> db3)" "ext \<noteq> None \<longrightarrow> rf_razorpay_refund_id r = ext"
proof -
  let ?a = "as_money amount"
  let ?finish = "\<lambda>r db1. bind_res (if d = TO_WALLET
      then bind_res (credit (py_user_id p) ?a ENTRY_REFUND (''refund:'' @ key) reason (save_payment (after_refund ?a p) db1)) (\<lambda>(_, db3). Inr db3)
      else Inr (save_payment (after_refund ?a p) db1))
    (\<lambda>db3. Inr (r, after_refund ?a p, case sink of Some f \<Rightarrow> f (after_refund ?a p) r db3 | None \<Rightarrow> db3))"
  have core: "0 < ?a \<and> py_status p \<in> REFUNDABLE \<and> ?a \<le> as_money (py_amount_inr p) - as_money (py_refunded_inr p)
     \<and> (d = TO_WALLET \<longrightarrow> py_collecting_user_id p = None) \<and> (d = TO_SOURCE \<longrightarrow> py_razorpay_payment_id p \<noteq> None)
     \<and> bind_res (send_refund p ?a d key rz creds ext) (\<lambda>sent. bind_res (insert_refund p ?a d key sent actor reason db)
          (\<lambda>(r, db1). ?finish r db1)) = Inr (r, p', db')"
    using assms by (simp add: refund_def Let_def may_go_to_wallet_def may_go_to_source_def not_le not_less split: if_splits)
  note pre = core[THEN conjunct1] core[THEN conjunct2, THEN conjunct1] core[THEN conjunct2, THEN conjunct2, THEN conjunct1]
    core[THEN conjunct2, THEN conjunct2, THEN conjunct2, THEN conjunct1]
    core[THEN conjunct2, THEN conjunct2, THEN conjunct2, THEN conjunct2, THEN conjunct1]
  from core obtain sent r1 db1 where ins1: "insert_refund p ?a d key sent actor reason db = Inr (r1, db1)"
    and fin: "?finish r1 db1 = Inr (r, p', db')"
    by (auto simp only: bind_res_Inr_iff prod.case split_paired_Ex)
  from core this have sent: "ext \<noteq> None \<longrightarrow> rf_razorpay_refund_id r1 = ext"
    by (auto simp: bind_res_Inr_iff send_refund_def insert_refund_def Let_def mint_def split: if_splits)
  from fin obtain db3 where p': "p' = after_refund ?a p" and r1: "r1 = r"
    and cr: "if d = TO_WALLET then \<exists>e. credit (py_user_id p) ?a ENTRY_REFUND (''refund:'' @ key) reason
        (save_payment p' db1) = Inr (e, db3) else db3 = save_payment p' db1"
    and db': "db' = (case sink of Some f \<Rightarrow> f p' r db3 | None \<Rightarrow> db3)"
    by (cases "d = TO_WALLET") (auto simp: bind_res_Inr_iff)
  note ins = ins1[unfolded r1]
  from ins have "refunds db1 = refunds db @ [r]" "payments db1 = payments db"
    "wallets db1 = wallets db" "wallet_entries db1 = wallet_entries db"
    "rf_id r = fresh_key rf_id (refunds db)" "rf_payment_id r = py_id p" "rf_amount_inr r = as_money amount"
    "rf_destination r = d" "rf_idempotency_key r = key"
    "rf_razorpay_refund_id r = None \<or> refund_for_razorpay_id (the (rf_razorpay_refund_id r)) db = None"
    by (auto simp: insert_refund_def Let_def mint_def split: if_splits)
  from that[OF pre p' this cr db' sent[unfolded r1]] show ?thesis .
qed

lemmas refund_alone = refund_new_cases[where sink = None, unfolded option.case(1)]

lemma after_refund_exact:
  assumes "payment_sound rs p" and "0 < as_money amount"
    and "as_money amount \<le> as_money (py_amount_inr p) - as_money (py_refunded_inr p)"
  shows "py_refunded_inr (after_refund (as_money amount) p) = py_refunded_inr p + as_money amount"
    and "py_refunded_inr p + as_money amount \<le> py_amount_inr p"
    and "py_status (after_refund (as_money amount) p)
      = (if py_refunded_inr p + as_money amount = py_amount_inr p then PAY_REFUNDED else PARTIALLY_REFUNDED)"
    and "py_id (after_refund a p) = py_id p" "py_amount_inr (after_refund a p) = py_amount_inr p"
      "py_collecting_user_id (after_refund a p) = py_collecting_user_id p"
      "py_razorpay_order_id (after_refund a p) = py_razorpay_order_id p"
      "py_razorpay_payment_id (after_refund a p) = py_razorpay_payment_id p"
      "py_user_id (after_refund a p) = py_user_id p" "py_order_id (after_refund a p) = py_order_id p"
  using assms by (auto simp: after_refund_def payment_sound_def Let_def)

lemma books_refund:
  assumes ok: "books_ok db" and p: "p \<in> set (payments db)"
    and rf: "refund p amount d key actor reason rz creds ext None db = Inr (r, p', db')"
    and new: "refund_for_key key db = None"
  shows "books_ok db'" "refunds db' = refunds db @ [r]" "payments db' = put_row py_id p' (payments db)"
proof -
  obtain db1 db3 where c:
    "0 < as_money amount" "as_money amount \<le> as_money (py_amount_inr p) - as_money (py_refunded_inr p)"
    "d = TO_WALLET \<longrightarrow> py_collecting_user_id p = None" "d = TO_SOURCE \<longrightarrow> py_razorpay_payment_id p \<noteq> None"
    "p' = after_refund (as_money amount) p" "refunds db1 = refunds db @ [r]" "payments db1 = payments db"
    "rf_id r = fresh_key rf_id (refunds db)" "rf_payment_id r = py_id p" "rf_amount_inr r = as_money amount"
    "rf_destination r = d" "rf_idempotency_key r = key"
    "rf_razorpay_refund_id r = None \<or> refund_for_razorpay_id (the (rf_razorpay_refund_id r)) db = None"
    "if d = TO_WALLET then \<exists>e. credit (py_user_id p) (as_money amount) ENTRY_REFUND (''refund:'' @ key) reason
        (save_payment p' db1) = Inr (e, db3) else db3 = save_payment p' db1" "db' = db3"
    by (rule refund_alone[OF rf new]) (rule that; assumption)
  have frame: "payments db' = payments (save_payment p' db1)" "refunds db' = refunds (save_payment p' db1)"
    using c(14,15) by (auto dest: credit_frame split: if_splits)
  show refunds: "refunds db' = refunds db @ [r]" using frame c(6) by (simp add: save_payment_def)
  show payments: "payments db' = put_row py_id p' (payments db)" using frame c(7) by (simp add: save_payment_def)
  have sound: "payment_sound (refunds db) p" by (rule books_ok_payment[OF ok p])
  note ex = after_refund_exact[OF sound c(1,2), folded c(5)] after_refund_exact(4-8)[OF sound c(1,2), of "as_money amount", folded c(5)]
  have ids: "distinct (map py_id (payments db))" by (rule books_ok_ids[OF ok])
  have rows: "set (payments db') = insert p' {x \<in> set (payments db). py_id x \<noteq> py_id p}"
    using p ex by (auto simp: payments set_put_row)
  have cols: "map py_razorpay_order_id (payments db') = map py_razorpay_order_id (payments db)"
    "map py_razorpay_payment_id (payments db') = map py_razorpay_payment_id (payments db)"
    unfolding payments by (rule map_put_row_same, use distinct_key_eq[OF ids p] ex in auto)+
  show "books_ok db'" unfolding books_ok_def
  proof (intro conjI ballI)
    show "distinct (map py_id (payments db'))" using ids by (simp add: payments distinct_put_row)
    show "unique_col py_razorpay_order_id (payments db')" "unique_col py_razorpay_payment_id (payments db')"
      using ok cols by (simp_all add: books_ok_def unique_col_def)
    show "distinct (map rf_id (refunds db'))"
      using ok c(8) by (simp add: refunds books_ok_def distinct_append_fresh[of rf_id, simplified] fresh_key_notin)
    show "distinct (map rf_idempotency_key (refunds db'))"
      using ok c(12) new by (auto simp: refunds books_ok_def refund_for_key_def first_where_None_iff)
    show "unique_col rf_razorpay_refund_id (refunds db')"
      using ok c(13) by (auto simp: refunds books_ok_def unique_col_append refund_for_razorpay_id_def first_where_None_iff)
  next
    fix q assume "q \<in> set (payments db')"
    then consider "q = p'" | "q \<in> set (payments db)" "py_id q \<noteq> py_id p" by (auto simp: rows)
    then show "payment_sound (refunds db') q"
    proof cases
      case 1
      have "py_refunded_inr p = given_back (py_id p) (refunds db)" "is_money (py_amount_inr p)" "0 \<le> py_refunded_inr p"
        "is_money (py_refunded_inr p)"
        using sound unfolding payment_sound_def by blast+
      then show ?thesis unfolding 1 payment_sound_def refunds using ex c(1,9,10) by (simp del: One_nat_def)
    next
      case 2
      then have eq: "given_back (py_id q) (refunds db @ [r]) = given_back (py_id q) (refunds db)" using c(9) by simp
      from books_ok_payment[OF ok 2(1)] show ?thesis unfolding payment_sound_def refunds eq .
    qed
  next
    fix x assume "x \<in> set (refunds db')"
    then consider "x = r" | "x \<in> set (refunds db)" by (auto simp: refunds)
    then show "refund_sound (payments db') x"
    proof cases
      case 1
      have "p' \<in> set (payments db')" by (simp add: rows)
      with 1 c(1,3,4,9,10,11) ex show ?thesis unfolding refund_sound_def by (intro conjI bexI[of _ p']) auto
    next
      case 2
      then have "refund_sound (payments db) x" using ok by (simp add: books_ok_def)
      then show ?thesis unfolding payments using refund_sound_put[OF _ p ids] ex by auto
    qed
  qed
qed

lemma refund_key_found:
  assumes "refund p amount d key actor reason rz creds ext None db = Inr (r, p', db')" and "books_ok db" and "p \<in> set (payments db)"
  shows "refund_for_key key db' = Some r \<and> rf_payment_id r = py_id p \<and> py_id p' = py_id p"
proof (cases "refund_for_key key db")
  case None
  note b = books_refund(2)[OF assms(2,3,1) None]
  from refund_new_cases[OF assms(1) None] have "rf_idempotency_key r = key" "rf_payment_id r = py_id p"
    "p' = after_refund (as_money amount) p" by metis+
  then show ?thesis using None by (auto simp: refund_for_key_def b table_simps after_refund_def Let_def)
qed (use assms in \<open>auto simp: refund_def split: if_splits\<close>)

lemma refund_repeat:
  assumes "refund_for_key key db = Some r" and "rf_payment_id r = py_id p"
  shows "refund p amount d key actor reason rz creds ext sink db = Inr (r, p, db)"
  using assms by (simp add: refund_def)

lemma balance_frame: "wallets db' = wallets db \<Longrightarrow> balance_of u db' = balance_of u db"
  by (simp add: balance_of_def wallet_of_def)

lemma wallets_frame: "wallets db' = wallets db \<Longrightarrow> wallet_entries db' = wallet_entries db \<Longrightarrow> wallets_ok db' = wallets_ok db"
  by (simp add: wallets_ok_def)

lemma refund_balances:
  assumes "refund p amount d key actor reason rz creds ext None db = Inr (r, p', db')"
    and "refund_for_key key db = None" and "wallets_ok db"
  shows "wallets_ok db' \<and> balance_of u db' = balance_of u db
    + (if d = TO_WALLET \<and> u = py_user_id p then as_money amount else 0)"
proof -
  obtain db1 db3 where c: "0 < as_money amount" "wallets db1 = wallets db" "wallet_entries db1 = wallet_entries db"
    and cr: "if d = TO_WALLET then \<exists>e. credit (py_user_id p) (as_money amount) ENTRY_REFUND (''refund:'' @ key) reason
        (save_payment p' db1) = Inr (e, db3) else db3 = save_payment p' db1" and db': "db' = db3"
    by (rule refund_alone[OF assms(1,2)]) (rule that; assumption)
  let ?s = "save_payment p' db1"
  have s: "wallets ?s = wallets db" "wallet_entries ?s = wallet_entries db" using c by (simp_all add: save_payment_def)
  have ok: "wallets_ok ?s" using wallets_frame[OF s] assms(3) by simp
  have bal: "balance_of v ?s = balance_of v db" for v by (rule balance_frame[OF s(1)])
  show ?thesis
  proof (cases "d = TO_WALLET")
    case True
    then obtain e where e: "credit (py_user_id p) (as_money amount) ENTRY_REFUND (''refund:'' @ key) reason ?s = Inr (e, db')"
      using cr db' by auto
    then have "moved (py_user_id p) (as_money amount) (''refund:'' @ key) e ?s db'"
      using credit_cases[OF ok, of "py_user_id p" "as_money amount" ENTRY_REFUND "''refund:'' @ key" reason] by auto
    then show ?thesis using True bal by (auto simp: moved_def)
  qed (use cr db' ok bal in simp)
qed

section \<open>Whoever listens to refunds\<close>

lemma refund_with_sink:
  "refund_for_key key db = None \<Longrightarrow> refund p amount d key actor reason rz creds ext (Some f) db =
     bind_res (refund p amount d key actor reason rz creds ext None db) (\<lambda>(r, p', db0). Inr (r, p', f p' r db0))"
  by (simp add: refund_def Let_def bind_res_assoc case_prod_unfold)

text \<open>
  The contract of \<^verbatim>\<open>RefundSink\<close>: it may change what the payment was for, never the books.
\<close>

locale refund_listener =
  fixes on_refund :: "'a payments_db_scheme refund_sink"
  assumes keeps_payments: "payments (on_refund p r db) = payments db"
    and keeps_refunds: "refunds (on_refund p r db) = refunds db"
    and keeps_wallets: "wallets (on_refund p r db) = wallets db"
    and keeps_entries: "wallet_entries (on_refund p r db) = wallet_entries db"
begin

lemma keeps_books: "books_ok (on_refund p r db) = books_ok db"
  by (simp add: books_ok_def keeps_payments keeps_refunds)

lemma keeps_wallets_ok: "wallets_ok (on_refund p r db) = wallets_ok db"
  by (simp add: wallets_ok_def keeps_wallets keeps_entries)

lemma keeps_balances: "balance_of u (on_refund p r db) = balance_of u db"
  by (simp add: balance_of_def wallet_of_def keeps_wallets)

lemma refund_unheard:
  assumes "refund p amount d key actor reason rz creds ext (Some on_refund) db = Inr (r, p', db')"
    and "refund_for_key key db = None"
  shows "\<exists>db0. refund p amount d key actor reason rz creds ext None db = Inr (r, p', db0) \<and> db' = on_refund p' r db0"
  using assms by (auto simp: refund_with_sink bind_res_Inr_iff)

lemma refund_retry:
  assumes "books_ok db" and "p \<in> set (payments db)"
    and "refund p amount d key actor reason rz creds ext (Some on_refund) db = Inr (r, p', db')"
  shows "refund p' amount2 d2 key actor2 reason2 rz2 creds2 ext2 sink2 db' = Inr (r, p', db')"
proof (cases "refund_for_key key db")
  case None
  from refund_unheard[OF assms(3) None] obtain db0 where
    "refund p amount d key actor reason rz creds ext None db = Inr (r, p', db0)" "db' = on_refund p' r db0" by blast
  with refund_key_found[OF _ assms(1,2)] have "refund_for_key key db' = Some r" "rf_payment_id r = py_id p'"
    by (auto simp: refund_for_key_def keeps_refunds)
  then show ?thesis by (rule refund_repeat)
qed (use assms in \<open>auto simp: refund_def split: if_splits\<close>)

lemma refund_books:
  assumes "books_ok db" and "p \<in> set (payments db)"
    and "refund p amount d key actor reason rz creds ext (Some on_refund) db = Inr (r, p', db')"
  shows "books_ok db'"
proof (cases "refund_for_key key db")
  case None
  from refund_unheard[OF assms(3) None] obtain db0 where
    "refund p amount d key actor reason rz creds ext None db = Inr (r, p', db0)" "db' = on_refund p' r db0" by blast
  with books_refund(1)[OF assms(1,2) _ None] keeps_books show ?thesis by auto
qed (use assms in \<open>auto simp: refund_def split: if_splits\<close>)

end

section \<open>What a signature proves\<close>

lemma separator_unambiguous:
  assumes "a @ CHR ''|'' # b = c @ CHR ''|'' # d" and "CHR ''|'' \<notin> set a" and "CHR ''|'' \<notin> set c"
  shows "a = c \<and> b = d"
proof -
  have "a = c"
    using takeWhile_until[OF assms(2), of b] takeWhile_until[OF assms(3), of d] unfolding assms(1) by (rule trans[OF sym])
  with assms(1) show ?thesis by simp
qed

text \<open>
  (Property). A receipt names one payment: no signature verifies for two different pairs of Razorpay order
  and payment under one secret, unless HMAC itself collides on the two messages, and with no secret
  configured no signature verifies at all. So a receipt for a cheap order cannot be presented for a
  dear one, however the ids are split around the separator.
\<close>

theorem receipt_names_one_payment:
  assumes "verify_payment_signature mac o1 p1 sig secret = Inr True"
    and "verify_payment_signature mac o2 p2 sig secret = Inr True"
    and "mac secret (o1 @ SEPARATOR @ p1) = mac secret (o2 @ SEPARATOR @ p2) \<longrightarrow> o1 @ SEPARATOR @ p1 = o2 @ SEPARATOR @ p2"
  shows "o1 = o2 \<and> p1 = p2 \<and> secret \<noteq> []"
proof -
  have v: "CHR ''|'' \<notin> set a \<and> secret \<noteq> [] \<and> (\<exists>s. sig = Some s \<and> mac secret (a @ SEPARATOR @ b) = strip s)"
    if "verify_payment_signature mac a b sig secret = Inr True" for a b
    using that by (auto simp: verify_payment_signature_def signature_matches_def compare_digest_def
        split: if_splits option.splits)
  from v[OF assms(1)] v[OF assms(2)] assms(3)
  have "o1 @ CHR ''|'' # p1 = o2 @ CHR ''|'' # p2" "CHR ''|'' \<notin> set o1" "CHR ''|'' \<notin> set o2" "secret \<noteq> []"
    by (auto simp: SEPARATOR_def)
  with separator_unambiguous[OF this(1-3)] show ?thesis by simp
qed

text \<open>A keyed digest with no collisions, enough to exercise the checks.\<close>

definition toy_mac :: mac where
  "toy_mac secret message = ''mac:'' @ secret @ '':'' @ message"

theorem receipt_names_one_payment_witness:
  "verify_payment_signature toy_mac ''order_1'' ''pay_1'' (Some ''mac:key:order_1|pay_1'') ''key'' = Inr True
   \<and> (''order_1''::string) = ''order_1'' \<and> ''key'' \<noteq> []"
proof -
  have "verify_payment_signature toy_mac ''order_1'' ''pay_1'' (Some ''mac:key:order_1|pay_1'') ''key'' = Inr True"
    by code_simp
  from this receipt_names_one_payment[OF this this] show ?thesis by simp
qed

text \<open>
  A signature header holding a letter outside ASCII is not refused: it raises, whatever the
  message.
\<close>

lemma signature_raises_outside_ascii:
  assumes "secret \<noteq> []" and "\<not> is_ascii (strip s)"
  shows "\<exists>e. verify_webhook_signature mac body (Some s) secret = Inl (Unhandled e)"
proof -
  have "strip s \<noteq> []" using assms(2) by (auto simp: is_ascii_def)
  with assms show ?thesis
    by (simp add: verify_webhook_signature_def signature_matches_def compare_digest_def)
qed

section \<open>Captured once\<close>

text \<open>
  Everything that writes the payment table: opening a checkout, a payment out of the wallet (written
  after a debit of the same amount, which is positive), a capture, a failure, a refund whose listener keeps
  to its own tables, and \<open>row_aside\<close>, anything that leaves payments and refunds alone.
\<close>

definition silent_on_books :: "'a payments_db_scheme refund_sink option \<Rightarrow> bool" where
  "silent_on_books sink \<longleftrightarrow> (\<forall>f p r s. sink = Some f \<longrightarrow> payments (f p r s) = payments s \<and> refunds (f p r s) = refunds s)"

inductive payment_step :: "'a payments_db_scheme \<Rightarrow> 'a payments_db_scheme \<Rightarrow> bool" where
  row_opened: "open_checkout rz u kind amount receipt k creds gw who o_id s_id db = Inr (p, db') \<Longrightarrow> payment_step db db'"
| row_from_wallet: "record_wallet_payment u kind amount k_id o_id now db = Inr (p, db') \<Longrightarrow> 0 < amount \<Longrightarrow> payment_step db db'"
| row_captured: "p \<in> set (payments db) \<Longrightarrow> record_capture p i now db = Inr (p', db') \<Longrightarrow> payment_step db db'"
| row_failed: "p \<in> set (payments db) \<Longrightarrow> record_failure p reason db = Inr (p', db') \<Longrightarrow> payment_step db db'"
| row_given_back: "p \<in> set (payments db) \<Longrightarrow> silent_on_books sink \<Longrightarrow>
    refund p amount d key actor reason rz creds ext sink db = Inr (r, p', db') \<Longrightarrow> payment_step db db'"
| row_aside: "payments db' = payments db \<Longrightarrow> refunds db' = refunds db \<Longrightarrow> payment_step db db'"

text \<open>A captured row in a later table: as it was, or with more given back on it.\<close>

definition stands :: "payment \<Rightarrow> payment list \<Rightarrow> bool" where
  "stands p ps \<longleftrightarrow> (\<exists>q \<in> set ps. py_id q = py_id p \<and> py_amount_inr q = py_amount_inr p
     \<and> py_collecting_user_id q = py_collecting_user_id p \<and> (q = p \<or> py_refunded_inr p < py_refunded_inr q))"

definition settled_row :: "payment \<Rightarrow> 'a payments_db_scheme \<Rightarrow> bool" where
  "settled_row p db \<longleftrightarrow> books_ok db \<and> stands p (payments db)"

lemma stands_put:
  assumes ids: "distinct (map py_id ps)" and q: "q \<in> set ps" and s: "stands p ps"
    and same: "py_id q' = py_id q" "py_amount_inr q' = py_amount_inr q" "py_collecting_user_id q' = py_collecting_user_id q"
    and moved: "q = p \<Longrightarrow> py_refunded_inr p < py_refunded_inr q'" "py_refunded_inr q \<le> py_refunded_inr q'"
  shows "stands p (put_row py_id q' ps)"
proof -
  obtain x where x: "x \<in> set ps" "py_id x = py_id p" "py_amount_inr x = py_amount_inr p"
    "py_collecting_user_id x = py_collecting_user_id p" "x = p \<or> py_refunded_inr p < py_refunded_inr x"
    using s by (auto simp: stands_def)
  show ?thesis
  proof (cases "py_id x = py_id q")
    case True
    then have "x = q" using distinct_key_eq[OF ids q x(1)] by simp
    with x same moved have more_back: "py_refunded_inr p < py_refunded_inr q'" by fastforce
    have "py_id q' \<in> py_id ` set ps" using q same(1) by (metis imageI)
    then have "q' \<in> set (put_row py_id q' ps)" by (simp add: set_put_row)
    then show ?thesis using more_back x same \<open>x = q\<close> unfolding stands_def by (intro bexI[of _ q']) simp_all
  next
    case False
    then show ?thesis using x same by (auto simp: stands_def set_put_row)
  qed
qed

lemma stands_append: "stands p ps \<Longrightarrow> stands p (ps @ qs)"
  by (auto simp: stands_def)

lemma insert_settled:
  assumes "settled_row p db" and "insert_payment v db = Inr (q, db')"
    and "is_money (py_amount_inr v)" "0 \<le> py_amount_inr v" "py_razorpay_payment_id v = None"
  shows "settled_row p db'"
  using assms books_insert[OF _ assms(2-5)] insert_payment_cases[OF assms(2)]
  by (auto simp: settled_row_def stands_append)

lemma refund_settled:
  assumes ok: "settled_row p db" and q: "q \<in> set (payments db)" and quiet: "silent_on_books sink"
    and rf: "refund q amount d key actor reason rz creds ext sink db = Inr (r, q', db')"
  shows "settled_row p db'"
proof (cases "refund_for_key key db")
  case (Some x)
  with rf ok show ?thesis by (auto simp: refund_def split: if_splits)
next
  case None
  have books: "books_ok db" using ok by (simp add: settled_row_def)
  obtain db0 where rf0: "refund q amount d key actor reason rz creds ext None db = Inr (r, q', db0)"
    and tables: "payments db' = payments db0" "refunds db' = refunds db0"
  proof (cases sink)
    case (Some f)
    with rf None quiet that show ?thesis
      by (auto simp: refund_with_sink bind_res_Inr_iff silent_on_books_def)
  qed (use rf that in simp)
  note b = books_refund[OF books q rf0 None]
  have "0 < as_money amount" "as_money amount \<le> as_money (py_amount_inr q) - as_money (py_refunded_inr q)"
    "q' = after_refund (as_money amount) q"
    using refund_new_cases[OF rf0 None] by metis+
  note ex = after_refund_exact[OF books_ok_payment[OF books q] this(1,2)] this
  have "stands p (put_row py_id q' (payments db))"
    by (rule stands_put[OF books_ok_ids[OF books] q]) (use ok ex in \<open>auto simp: settled_row_def\<close>)
  moreover have "books_ok db'" using b(1) tables by (simp add: books_ok_def)
  ultimately show ?thesis by (simp add: settled_row_def tables b(3))
qed

text \<open>A capture or a failure never touches a row that is captured.\<close>

lemma rewrite_settled:
  assumes ok: "settled_row p db" and cap: "py_status p = CAPTURED" and q: "q \<in> set (payments db)" and open_row: "py_status q \<noteq> CAPTURED"
    and same: "py_id q' = py_id q" "py_amount_inr q' = py_amount_inr q" "py_collecting_user_id q' = py_collecting_user_id q"
      "py_refunded_inr q' = py_refunded_inr q"
  shows "stands p (put_row py_id q' (payments db))"
  by (rule stands_put[OF _ q]) (use assms in \<open>auto simp: settled_row_def books_ok_ids\<close>)

lemma payment_step_settled:
  assumes "payment_step db db'" and "settled_row p db" and "py_status p = CAPTURED"
  shows "settled_row p db'"
  using assms
proof (induction rule: payment_step.induct)
  case (row_opened rz u kind amount receipt k creds gw who o_id s_id db q db')
  from row_opened(1) obtain v where "insert_payment v db = Inr (q, db')" "py_amount_inr v = as_money amount" "0 < as_money amount"
    "py_razorpay_payment_id v = None"
    by (auto simp: open_checkout_def Let_def bind_res_Inr_iff split: if_splits)
  then show ?case using insert_settled[OF row_opened(2)] by simp
next
  case (row_from_wallet u kind amount k_id o_id now db q db')
  from row_from_wallet(1) obtain v where "insert_payment v db = Inr (q, db')" "py_amount_inr v = as_money amount"
    "py_razorpay_payment_id v = None"
    unfolding record_wallet_payment_def by (metis payment.select_convs)
  then show ?case using insert_settled[OF row_from_wallet(3)] row_from_wallet(2) by (simp add: as_money_nonneg)
next
  case (row_captured q db i now q' db')
  note c = record_capture_cases[OF row_captured(2)]
  have "books_ok db'" by (rule books_capture[OF _ row_captured(1,2)]) (use row_captured(3) in \<open>simp add: settled_row_def\<close>)
  moreover have "stands p (payments db')"
    using rewrite_settled[OF row_captured(3,4,1) c(1), of q'] c(3) by (simp add: c(2) save_payment_def)
  ultimately show ?case by (simp add: settled_row_def)
next
  case (row_failed q db reason q' db')
  note c = record_failure_cases[OF row_failed(2)]
  have "books_ok db'" by (rule books_failure[OF _ row_failed(1,2)]) (use row_failed(3) in \<open>simp add: settled_row_def\<close>)
  moreover have "py_id q' = py_id q" "py_amount_inr q' = py_amount_inr q" "py_collecting_user_id q' = py_collecting_user_id q"
      "py_refunded_inr q' = py_refunded_inr q" by (subst c(3), simp)+
  then have "stands p (payments db')"
    using rewrite_settled[OF row_failed(3,4,1) c(1), of q'] by (simp add: c(2) save_payment_def)
  ultimately show ?case by (simp add: settled_row_def)
next
  case row_given_back
  then show ?case using refund_settled by blast
next
  case row_aside
  then show ?case by (simp add: settled_row_def books_ok_def)
qed

lemma payment_run_settled:
  assumes "payment_step\<^sup>*\<^sup>* db db'" and "settled_row p db" and "py_status p = CAPTURED"
  shows "settled_row p db'"
  using assms by (induction rule: rtranclp_induct) (auto intro: payment_step_settled)

text \<open>
  C2. A capture settles one row, and the row is closed from then on until money is given back on it: along
  any run of checkouts, captures, failures and refunds the books stay sound and the row keeps its place, its
  amount and its collector, and it is either as the capture left it or has had something given back. As
  long as it is as the capture left it, it refuses every further capture (with a sentence that tells a
  redelivery from a second payment) and every failure, and no other row takes the same Razorpay payment.
\<close>

theorem captured_once:
  assumes "books_ok db" and "p \<in> set (payments db)" and "record_capture p i now db = Inr (p1, db1)"
    and "payment_step\<^sup>*\<^sup>* db1 db2"
  shows "p1 = p\<lparr>py_status := CAPTURED, py_razorpay_payment_id := Some i, py_captured_at := Some now\<rparr> \<and> books_ok db2
    \<and> (\<exists>p2 \<in> set (payments db2). py_id p2 = py_id p \<and> py_amount_inr p2 = py_amount_inr p
         \<and> py_collecting_user_id p2 = py_collecting_user_id p \<and> (p2 = p1 \<or> py_refunded_inr p < py_refunded_inr p2))
    \<and> (p1 \<in> set (payments db2) \<longrightarrow>
         (\<forall>j t. record_capture p1 j t db2 = Inl (Conflict (if j = i then ALREADY_CAPTURED else WRONG_PAYMENT)))
       \<and> (\<forall>reason. record_failure p1 reason db2 = Inl (Conflict ALREADY_CAPTURED))
       \<and> (\<forall>q \<in> set (payments db2). \<forall>t. py_id q \<noteq> py_id p \<longrightarrow> (\<exists>c. record_capture q i t db2 = Inl (Conflict c))))"
proof -
  note c = record_capture_cases[OF assms(3)]
  have cap: "py_status p1 = CAPTURED" "py_id p1 = py_id p" by (simp_all add: c(3))
  have "settled_row p1 db1"
    using books_capture[OF assms(1-3)] assms(2) cap by (auto simp: settled_row_def stands_def c(2) save_payment_def set_put_row)
  then have run: "settled_row p1 db2" by (rule payment_run_settled[OF assms(4) _ cap(1)])
  have "\<exists>e. record_capture q i t db2 = Inl (Conflict e)" if "p1 \<in> set (payments db2)" "py_id q \<noteq> py_id p" for q t
    using that c(3) by (auto simp: record_capture_def Let_def intro!: exI)
  with run c(3) show ?thesis by (auto simp: settled_row_def stands_def record_capture_def record_failure_def)
qed

text \<open>
  Giving money back reopens the row: the guard knows only the status CAPTURED, so the receipt the
  row already carries is accepted a second time on a payment that was partly or wholly refunded, and the row says
  again that it is captured, as of the later instant.
\<close>

lemma a_refunded_payment_is_captured_again:
  assumes "books_ok db" and "p \<in> set (payments db)" and "py_status p \<in> {PARTIALLY_REFUNDED, PAY_REFUNDED}"
    and "py_razorpay_payment_id p = Some i"
  shows "record_capture p i later db
    = Inr (p\<lparr>py_status := CAPTURED, py_captured_at := Some later\<rparr>, save_payment (p\<lparr>py_status := CAPTURED, py_captured_at := Some later\<rparr>) db)"
proof -
  have u: "unique_col py_razorpay_payment_id (payments db)" using assms(1) by (simp add: books_ok_def)
  have "q = p" if "q \<in> set (payments db)" "py_razorpay_payment_id q = Some i" for q
    by (rule unique_col_eq[OF u that(1) assms(2)]) (simp_all add: that(2) assms(4))
  then have "\<not> (\<exists>q \<in> set (payments db). py_id q \<noteq> py_id p \<and> py_razorpay_payment_id q = Some i)" by blast
  moreover have "p\<lparr>py_status := CAPTURED, py_razorpay_payment_id := Some i, py_captured_at := Some later\<rparr>
      = p\<lparr>py_status := CAPTURED, py_captured_at := Some later\<rparr>" using assms(4) by simp
  moreover have "py_status p \<noteq> CAPTURED" using assms(3) by auto
  ultimately show ?thesis by (simp only: record_capture_def Let_def if_False simp_thms)
qed

definition open_payment_example :: payment where
  "open_payment_example = owner_payment_example\<lparr>py_status := CREATED, py_razorpay_payment_id := None, py_captured_at := None\<rparr>"

definition books_example :: payments_db where
  "books_example = payments_blank\<lparr>payments := [open_payment_example]\<rparr>"

lemma books_example_ok: "books_ok books_example"
  by (simp add: books_ok_def books_example_def payments_blank_def open_payment_example_def owner_payment_example_def
      payment_sound_def unique_col_def)

theorem captured_once_witness:
  "\<exists>p' db' db2. record_capture open_payment_example ''pay_7'' 9 books_example = Inr (p', db')
     \<and> payment_step\<^sup>*\<^sup>* db' db2 \<and> db2 \<noteq> db' \<and> record_capture p' ''pay_7'' 10 db2 = Inl (Conflict ALREADY_CAPTURED)"
proof -
  have mem: "open_payment_example \<in> set (payments books_example)" by (simp add: books_example_def)
  have "\<exists>p' db'. record_capture open_payment_example ''pay_7'' 9 books_example = Inr (p', db')"
    by (simp add: record_capture_def open_payment_example_def owner_payment_example_def books_example_def payments_blank_def Let_def)
  then obtain p' db' where r: "record_capture open_payment_example ''pay_7'' 9 books_example = Inr (p', db')" by blast
  have "\<exists>q db2. record_wallet_payment 3 PRINT_ORDER 5 None None 11 db' = Inr (q, db2)"
    by (simp add: record_wallet_payment_def insert_payment_def Let_def mint_def)
  then obtain q db2 where w: "record_wallet_payment 3 PRINT_ORDER 5 None None 11 db' = Inr (q, db2)" by blast
  have "payment_step db' db2" by (rule row_from_wallet[OF w]) simp
  then have step: "payment_step\<^sup>*\<^sup>* db' db2" by (rule r_into_rtranclp)
  have new: "payments db2 = payments db' @ [q]"
    using w insert_payment_cases unfolding record_wallet_payment_def by blast
  have p': "p' \<in> set (payments db2)"
    using record_capture_cases(2,3)[OF r] mem by (auto simp: new save_payment_def set_put_row)
  have "\<forall>j t. record_capture p' j t db2 = Inl (Conflict (if j = ''pay_7'' then ALREADY_CAPTURED else WRONG_PAYMENT))"
    using captured_once[OF books_example_ok mem r step] p' by blast
  then have "record_capture p' ''pay_7'' 10 db2 = Inl (Conflict ALREADY_CAPTURED)" by simp
  moreover have "db2 \<noteq> db'" using new by auto
  ultimately show ?thesis using r step by blast
qed

end
