(* ===== verification/Earnings.thy ===== *)
theory Earnings
  imports Payments
begin

text \<open>
  \<^verbatim>\<open>payments/earnings.py\<close>: what was taken and what went back. Each report is one aggregate over the
  settled payments; a date is the number of its day, in Asia/Kolkata, which keeps +05:30 all year.
\<close>

record earnings =
  eg_gross :: rat
  eg_refunded :: rat
  eg_net :: rat
  eg_count :: nat

definition earnings_of :: "rat \<Rightarrow> rat \<Rightarrow> nat \<Rightarrow> earnings" where
  "earnings_of gross refunded n =
     \<lparr>eg_gross = as_money gross, eg_refunded = as_money refunded,
      eg_net = as_money (as_money gross - as_money refunded), eg_count = n\<rparr>"

text \<open>The aggregate columns of every query: two sums and a count.\<close>

definition takings :: "payment list \<Rightarrow> earnings" where
  "takings rows = earnings_of (sum_list (map py_amount_inr rows)) (sum_list (map py_refunded_inr rows)) (length rows)"

text \<open>The window on \<^verbatim>\<open>captured_at\<close>; a comparison with NULL does not hold.\<close>

definition in_window :: "datetime option \<Rightarrow> datetime option \<Rightarrow> datetime option \<Rightarrow> bool" where
  "in_window since until captured \<longleftrightarrow>
     (case since of None \<Rightarrow> True | Some a \<Rightarrow> (case captured of None \<Rightarrow> False | Some c \<Rightarrow> a \<le> c))
     \<and> (case until of None \<Rightarrow> True | Some b \<Rightarrow> (case captured of None \<Rightarrow> False | Some c \<Rightarrow> c < b))"

definition settled ::
  "(payment \<Rightarrow> bool) \<Rightarrow> datetime option \<Rightarrow> datetime option \<Rightarrow> 'a payments_db_scheme \<Rightarrow> payment list" where
  "settled match since until db =
     filter (\<lambda>p. match p \<and> py_status p \<in> SETTLED_PAYMENT_STATES \<and> in_window since until (py_captured_at p)) (payments db)"

definition prints_at :: "nat list \<Rightarrow> payment \<Rightarrow> bool" where
  "prints_at shops p \<longleftrightarrow> (\<exists>k \<in> set shops. py_kiosk_id p = Some k) \<and> py_kind p = PRINT_ORDER"

definition earnings_for_kiosks ::
  "nat list \<Rightarrow> datetime option \<Rightarrow> datetime option \<Rightarrow> bool \<Rightarrow> 'a payments_db_scheme \<Rightarrow> earnings" where
  "earnings_for_kiosks shops since until include_wallet db =
     (if shops = [] then earnings_of 0 0 0
      else takings (settled (\<lambda>p. prints_at shops p \<and> (include_wallet \<or> py_source p \<noteq> SRC_WALLET)) since until db))"

definition earnings_by_kiosk ::
  "nat list \<Rightarrow> datetime option \<Rightarrow> datetime option \<Rightarrow> 'a payments_db_scheme \<Rightarrow> (nat \<rightharpoonup> earnings)" where
  "earnings_by_kiosk shops since until db =
     (\<lambda>k. if k \<in> set shops
          then Some (takings (filter (\<lambda>p. py_kiosk_id p = Some k) (settled (prints_at shops) since until db)))
          else None)"

definition REPORTING_OFFSET :: datetime where
  "REPORTING_OFFSET = hours 5 + minutes 30"

definition day_of :: "datetime \<Rightarrow> int" where
  "day_of t = (t + REPORTING_OFFSET) div days 1"

definition day_of_capture :: "payment \<Rightarrow> int option" where
  "day_of_capture p = map_option day_of (py_captured_at p)"

text \<open>
  A settled payment without a capture time would be a group keyed by \<^verbatim>\<open>None\<close>, which
  \<^verbatim>\<open>cursor <= last\<close> cannot compare.
\<close>

definition earnings_by_day ::
  "nat list \<Rightarrow> datetime option \<Rightarrow> datetime option \<Rightarrow> 'a payments_db_scheme \<Rightarrow> (int \<times> earnings) list result" where
  "earnings_by_day shops since until db =
     (if shops = [] then Inr []
      else let rows = settled (prints_at shops) since until db;
               found = map day_of_capture rows in
        if rows = [] then Inr []
        else if None \<in> set found
        then Inl (Unhandled ''TypeError: <= not supported between instances of NoneType and NoneType'')
        else Inr (map (\<lambda>d. (d, takings (filter (\<lambda>p. day_of_capture p = Some d) rows)))
                    [Min (set (map the found))..Max (set (map the found))]))"

record platform_revenue =
  print_platform :: earnings
  print_owners :: earnings
  rv_subscriptions :: earnings
  wallet_topups :: earnings

definition platform_revenue ::
  "datetime option \<Rightarrow> datetime option \<Rightarrow> 'a payments_db_scheme \<Rightarrow> platform_revenue" where
  "platform_revenue since until db =
     (let bucket = (\<lambda>kind owner_collected. takings (settled
            (\<lambda>p. py_kind p = kind \<and> (py_collecting_user_id p \<noteq> None) = owner_collected) since until db))
      in \<lparr>print_platform = bucket PRINT_ORDER False, print_owners = bucket PRINT_ORDER True,
          rv_subscriptions = bucket SUBSCRIPTION_PAYMENT False, wallet_topups = bucket WALLET_TOPUP False\<rparr>)"

section \<open>The bars sum to the figure above them\<close>

definition adds_up_to :: "earnings list \<Rightarrow> earnings \<Rightarrow> bool" where
  "adds_up_to es e \<longleftrightarrow> sum_list (map eg_gross es) = eg_gross e \<and> sum_list (map eg_refunded es) = eg_refunded e
     \<and> sum_list (map eg_net es) = eg_net e \<and> sum_list (map eg_count es) = eg_count e"

lemma settled_money:
  "books_ok db \<Longrightarrow> \<forall>p \<in> set (settled m since until db). is_money (py_amount_inr p) \<and> is_money (py_refunded_inr p)"
proof
  fix p assume ok: "books_ok db" and "p \<in> set (settled m since until db)"
  then have "p \<in> set (payments db)" by (simp add: settled_def)
  from books_ok_payment[OF ok this] show "is_money (py_amount_inr p) \<and> is_money (py_refunded_inr p)"
    unfolding payment_sound_def by blast
qed

lemma takings_exact:
  assumes "\<forall>p \<in> set rows. is_money (py_amount_inr p) \<and> is_money (py_refunded_inr p)"
  shows "takings rows = \<lparr>eg_gross = sum_list (map py_amount_inr rows), eg_refunded = sum_list (map py_refunded_inr rows),
     eg_net = sum_list (map (\<lambda>p. py_amount_inr p - py_refunded_inr p) rows), eg_count = sum_list (map (\<lambda>p. 1) rows)\<rparr>"
proof -
  have "is_money (sum_list (map py_amount_inr rows))" "is_money (sum_list (map py_refunded_inr rows))"
    using assms by (auto intro!: is_money_sum_list)
  moreover have "sum_list (map (\<lambda>p. py_amount_inr p - py_refunded_inr p) rows)
      = sum_list (map py_amount_inr rows) - sum_list (map py_refunded_inr rows)"
    by (simp add: sum_list_subtractf)
  moreover have "sum_list (map (\<lambda>p. 1) rows) = length rows" by (induction rows) auto
  ultimately show ?thesis by (simp add: takings_def earnings_of_def)
qed

lemma buckets_add_up:
  assumes "\<forall>p \<in> set rows. is_money (py_amount_inr p) \<and> is_money (py_refunded_inr p)"
    and "distinct ks" and "\<forall>p \<in> set rows. g p \<in> set ks"
  shows "adds_up_to (map (\<lambda>k. takings (filter (\<lambda>p. g p = k) rows)) ks) (takings rows)"
proof -
  have "takings (filter (\<lambda>p. g p = k) rows) = (let r = filter (\<lambda>p. g p = k) rows in
     \<lparr>eg_gross = sum_list (map py_amount_inr r), eg_refunded = sum_list (map py_refunded_inr r),
     eg_net = sum_list (map (\<lambda>p. py_amount_inr p - py_refunded_inr p) r), eg_count = sum_list (map (\<lambda>p. 1) r)\<rparr>)" for k
    unfolding Let_def by (rule takings_exact) (use assms(1) in auto)
  moreover have "(\<Sum>k\<leftarrow>ks. sum_list (map f (filter (\<lambda>p. g p = k) rows))) = sum_list (map f rows)" for f :: "payment \<Rightarrow> rat"
    by (rule sum_list_buckets[OF assms(2,3)])
  moreover have "(\<Sum>k\<leftarrow>ks. sum_list (map f (filter (\<lambda>p. g p = k) rows))) = sum_list (map f rows)" for f :: "payment \<Rightarrow> nat"
    by (rule sum_list_buckets[OF assms(2,3)])
  ultimately show ?thesis
    by (simp add: adds_up_to_def takings_exact[OF assms(1)] Let_def comp_def)
qed

lemma kiosk_settled_all: "settled (\<lambda>p. prints_at shops p \<and> (True \<or> py_source p \<noteq> SRC_WALLET)) since until db
    = settled (prints_at shops) since until db"
  by (simp add: settled_def)

lemma captured_days:
  assumes "\<forall>p \<in> set rows. py_captured_at p \<noteq> None"
  shows "None \<notin> set (map day_of_capture rows)" and "\<forall>p \<in> set rows. day_of_capture p = Some (the (day_of_capture p))"
  using assms by (auto simp: day_of_capture_def)

text \<open>
  C13. An owner's day-by-day series adds up to the figure above it: on sound books whose settled
  payments carry their capture time the series exists, its gross, refunded, net and count sum to
  exactly those of the window, it runs day by day without a gap, it starts and ends on a day with
  takings, and the split by shop adds up to the same figure.
\<close>

theorem days_add_up_to_the_window:
  assumes "books_ok db" and "\<forall>p \<in> set (payments db). py_status p \<in> SETTLED_PAYMENT_STATES \<longrightarrow> py_captured_at p \<noteq> None"
    and "shops \<noteq> []" and "distinct shops"
  shows "\<exists>series. earnings_by_day shops since until db = Inr series
    \<and> adds_up_to (map snd series) (earnings_for_kiosks shops since until True db)
    \<and> (\<forall>i. Suc i < length series \<longrightarrow> fst (series ! Suc i) = fst (series ! i) + 1)
    \<and> (series \<noteq> [] \<longrightarrow> 0 < eg_count (snd (hd series)) \<and> 0 < eg_count (snd (last series)))
    \<and> adds_up_to (map (\<lambda>k. the (earnings_by_kiosk shops since until db k)) shops)
        (earnings_for_kiosks shops since until True db)"
proof -
  define rows where "rows = settled (prints_at shops) since until db"
  have money: "\<forall>p \<in> set rows. is_money (py_amount_inr p) \<and> is_money (py_refunded_inr p)"
    unfolding rows_def by (rule settled_money[OF assms(1)])
  have caught: "\<forall>p \<in> set rows. py_captured_at p \<noteq> None" using assms(2) by (auto simp: rows_def settled_def)
  have total: "earnings_for_kiosks shops since until True db = takings rows"
    using assms(3) by (simp add: earnings_for_kiosks_def rows_def)
  have shops: "\<forall>p \<in> set rows. py_kiosk_id p \<in> set (map Some shops)"
    by (auto simp: rows_def settled_def prints_at_def)
  have "distinct (map Some shops)" using assms(4) by (simp add: distinct_map)
  from buckets_add_up[OF money this shops]
  have split: "adds_up_to (map (\<lambda>k. the (earnings_by_kiosk shops since until db k)) shops) (takings rows)"
    by (simp add: earnings_by_kiosk_def rows_def comp_def cong: map_cong)
  show ?thesis
  proof (cases "rows = []")
    case True
    then have "earnings_by_day shops since until db = Inr []" using assms(3) by (simp add: earnings_by_day_def rows_def)
    moreover have "adds_up_to [] (takings rows)"
      by (simp add: True takings_def earnings_of_def adds_up_to_def)
    ultimately show ?thesis using split total by simp
  next
    case False
    define ds where "ds = set (map the (map day_of_capture rows))"
    have fin: "finite ds" "ds \<noteq> {}" using False by (simp_all add: ds_def)
    define series where "series = map (\<lambda>d. (d, takings (filter (\<lambda>p. day_of_capture p = Some d) rows))) [Min ds..Max ds]"
    have day: "earnings_by_day shops since until db = Inr series"
      using assms(3) False captured_days(1)[OF caught]
      by (simp add: earnings_by_day_def rows_def[symmetric] ds_def series_def Let_def)
    have keys: "\<forall>p \<in> set rows. day_of_capture p \<in> set (map Some [Min ds..Max ds])"
    proof
      fix p assume p: "p \<in> set rows"
      then have "the (day_of_capture p) \<in> ds" by (simp add: ds_def)
      with fin captured_days(2)[OF caught] p show "day_of_capture p \<in> set (map Some [Min ds..Max ds])"
        by (auto intro!: image_eqI[where x = "the (day_of_capture p)"])
    qed
    have "distinct (map Some [Min ds..Max ds])" by (simp add: distinct_map)
    from buckets_add_up[OF money this keys] have sums: "adds_up_to (map snd series) (takings rows)"
      by (simp add: series_def comp_def)
    have busy: "0 < eg_count (takings (filter (\<lambda>p. day_of_capture p = Some d) rows))" if "d \<in> ds" for d
      using that captured_days(2)[OF caught] by (auto simp: ds_def takings_def earnings_of_def filter_empty_conv)
    have le: "Min ds \<le> Max ds" using fin by simp
    have "series = (Min ds, takings (filter (\<lambda>p. day_of_capture p = Some (Min ds)) rows))
        # map (\<lambda>d. (d, takings (filter (\<lambda>p. day_of_capture p = Some d) rows))) [Min ds + 1..Max ds]"
      using le by (simp add: series_def upto_rec1)
    then have first: "0 < eg_count (snd (hd series))" using busy fin by simp
    have "series = map (\<lambda>d. (d, takings (filter (\<lambda>p. day_of_capture p = Some d) rows))) [Min ds..Max ds - 1]
        @ [(Max ds, takings (filter (\<lambda>p. day_of_capture p = Some (Max ds)) rows))]"
      using le by (simp add: series_def upto_rec2)
    then have "0 < eg_count (snd (last series))" using busy fin by simp
    moreover have "fst (series ! Suc i) = fst (series ! i) + 1" if "Suc i < length series" for i
      using that by (simp add: series_def)
    ultimately show ?thesis using day sums first split total by auto
  qed
qed

definition sale :: "nat \<Rightarrow> datetime \<Rightarrow> rat \<Rightarrow> rat \<Rightarrow> payment" where
  "sale i t amount returned = \<lparr>py_id = i, py_public_id = ''pay'', py_user_id = 2, py_kind = PRINT_ORDER,
     py_order_id = Some i, py_subscription_id = None, py_kiosk_id = Some 1, py_source = SRC_WALLET,
     py_collecting_user_id = None, py_razorpay_order_id = None, py_razorpay_payment_id = None,
     py_amount_inr = amount, py_refunded_inr = returned,
     py_status = (if returned = 0 then CAPTURED else PARTIALLY_REFUNDED),
     py_failure_reason = None, py_created_at = 0, py_captured_at = Some t\<rparr>"

definition sales_example :: payments_db where
  "sales_example = payments_blank\<lparr>payments := [sale 1 0 20 5, sale 2 (days 3) 30 0],
     refunds := [\<lparr>rf_id = 1, rf_public_id = ''rfd'', rf_payment_id = 1, rf_amount_inr = 5, rf_destination = TO_WALLET,
       rf_idempotency_key = ''k'', rf_razorpay_refund_id = None, rf_actor_user_id = None, rf_reason = None, rf_created_at = 0\<rparr>]\<rparr>"

lemma sales_example_ok: "books_ok sales_example"
  by (simp add: books_ok_def sales_example_def payments_blank_def sale_def payment_sound_def refund_sound_def
      unique_col_def given_back_def)

theorem days_add_up_to_the_window_witness:
  "\<exists>series. earnings_by_day [1] None None sales_example = Inr series
     \<and> adds_up_to (map snd series) (earnings_for_kiosks [1] None None True sales_example)"
  using days_add_up_to_the_window[OF sales_example_ok, of "[1]" None None]
  by (auto simp: sales_example_def payments_blank_def sale_def)

section \<open>A sale that a late failure takes away\<close>

lemma settled_put_row:
  assumes "distinct (map py_id ps)" and "p \<in> set ps" and "py_id p' = py_id p"
    and "P p" and "\<not> P p'"
  shows "sum_list (map py_amount_inr (filter P (put_row py_id p' ps))) = sum_list (map py_amount_inr (filter P ps)) - py_amount_inr p"
  using assms
proof (induction ps)
  case (Cons x xs)
  show ?case
  proof (cases "x = p")
    case True
    then have "put_row py_id p' xs = xs" using Cons.prems by (intro put_row_absent) auto
    with True Cons.prems show ?thesis by simp
  next
    case False
    then have "py_id x \<noteq> py_id p" using Cons.prems by auto
    with False Cons show ?thesis by simp
  qed
qed simp

text \<open>
  (Property). A failure event that arrives after part of the money went back is accepted, and the sale
  disappears from the takings: the guard only knows CAPTURED, so a payment that is REFUNDED or
  PARTIALLY_REFUNDED becomes FAILED, the shop's gross falls by the whole amount, and no refund of
  it is possible any more, although the money arrived.
\<close>

theorem late_failure_erases_a_sale:
  assumes "books_ok db" and "p \<in> set (payments db)" and "py_status p \<in> {PARTIALLY_REFUNDED, PAY_REFUNDED}"
    and "prints_at shops p"
  shows "\<exists>p' db'. record_failure p reason db = Inr (p', db') \<and> py_status p' = PAY_FAILED
    \<and> eg_gross (earnings_for_kiosks shops None None True db')
        = eg_gross (earnings_for_kiosks shops None None True db) - py_amount_inr p
    \<and> (refund_for_key key db' = None \<longrightarrow> (\<forall>a d. 0 < as_money a \<longrightarrow>
          refund p' a d key None None rz creds ext None db' = Inl (Conflict PAYMENT_NOT_CAPTURED)))"
proof -
  define p' where "p' = p\<lparr>py_status := PAY_FAILED,
      py_failure_reason := clip 300 (case reason of Some r \<Rightarrow> r | None \<Rightarrow> [])\<rparr>"
  define db' where "db' = save_payment p' db"
  have r: "record_failure p reason db = Inr (p', db')"
    using assms(3) by (auto simp: record_failure_def p'_def db'_def Let_def)
  have ok: "books_ok db'" by (rule books_failure[OF assms(1,2) r])
  let ?P = "\<lambda>p. prints_at shops p \<and> py_status p \<in> SETTLED_PAYMENT_STATES \<and> in_window None None (py_captured_at p)"
  have "?P p" "\<not> ?P p'" "py_id p' = py_id p"
    using assms(3,4) by (auto simp: SETTLED_PAYMENT_STATES_def in_window_def p'_def)
  note gone = settled_put_row[of "payments db" p p' ?P, OF books_ok_ids[OF assms(1)] assms(2) this(3,1,2)]
  have ne: "shops \<noteq> []" using assms(4) by (auto simp: prints_at_def)
  have gross: "eg_gross (earnings_for_kiosks shops None None True d) = sum_list (map py_amount_inr (filter ?P (payments d)))"
    if "books_ok d" for d :: "'a payments_db_scheme"
    using takings_exact[OF settled_money[OF that, of "prints_at shops" None None]] ne
    by (simp add: earnings_for_kiosks_def settled_def)
  have "eg_gross (earnings_for_kiosks shops None None True db')
      = eg_gross (earnings_for_kiosks shops None None True db) - py_amount_inr p"
    unfolding gross[OF ok] gross[OF assms(1)] using gone by (simp add: db'_def save_payment_def)
  moreover have "refund_for_key key db' = None \<longrightarrow> (\<forall>a d. 0 < as_money a \<longrightarrow>
      refund p' a d key None None rz creds ext None db' = Inl (Conflict PAYMENT_NOT_CAPTURED))"
    by (simp add: refund_def p'_def REFUNDABLE_def)
  ultimately show ?thesis using r by (auto simp: p'_def)
qed

theorem late_failure_erases_a_sale_witness:
  "\<exists>p' db'. record_failure (sale 1 0 20 5) None sales_example = Inr (p', db')
     \<and> eg_gross (earnings_for_kiosks [1] None None True db')
        = eg_gross (earnings_for_kiosks [1] None None True sales_example) - 20"
proof -
  have "sale 1 0 20 5 \<in> set (payments sales_example)" "py_status (sale 1 0 20 5) \<in> {PARTIALLY_REFUNDED, PAY_REFUNDED}"
    "prints_at [1] (sale 1 0 20 5)" and amount: "py_amount_inr (sale 1 0 20 5) = 20"
    by (simp_all add: sales_example_def sale_def prints_at_def)
  from late_failure_erases_a_sale[OF sales_example_ok this(1-3), of None, unfolded amount] show ?thesis by blast
qed

end
