(* ===== verification/Webhook.thy ===== *)
theory Webhook
  imports Payments
begin

text \<open>
  \<^verbatim>\<open>payments/webhook.py\<close>: one handler for every Razorpay delivery. \<^verbatim>\<open>json.loads\<close> is the parameter
  \<open>parse\<close>, \<open>None\<close> where it raises \<^verbatim>\<open>ValueError\<close>; what it gives back is a \<open>pyval\<close>. Reading a key of a
  value that is not a dict raises, as does looking a list up in a set; an id that is true and
  not a string fails in the driver.
\<close>

section \<open>Reading the body\<close>

fun py_truth :: "pyval \<Rightarrow> bool" where
  "py_truth PNone = False"
| "py_truth (PBool b) = b"
| "py_truth (PInt i) = (i \<noteq> 0)"
| "py_truth (PStr s) = (s \<noteq> [])"
| "py_truth (PDecimal d) = (d \<noteq> 0)"
| "py_truth (PFloat d) = (d \<noteq> 0)"
| "py_truth (PDatetime s) = True"
| "py_truth (PEnum s) = (s \<noteq> [])"
| "py_truth (PList xs) = (xs \<noteq> [])"
| "py_truth (PDict xs) = (xs \<noteq> [])"

definition NO_GET :: app_error where
  "NO_GET = Unhandled ''AttributeError: object has no attribute 'get' ''"

fun get_key :: "pyval \<Rightarrow> string \<Rightarrow> pyval \<Rightarrow> pyval result" where
  "get_key (PDict items) k d = Inr (case map_of items k of Some v \<Rightarrow> v | None \<Rightarrow> d)"
| "get_key _ k d = Inl NO_GET"

fun hashable :: "pyval \<Rightarrow> bool" where
  "hashable (PList _) = False"
| "hashable (PDict _) = False"
| "hashable _ = True"

fun is_dict :: "pyval \<Rightarrow> bool" where
  "is_dict (PDict _) = True"
| "is_dict _ = False"

fun as_text :: "pyval \<Rightarrow> string result" where
  "as_text (PStr s) = Inr s"
| "as_text _ = Inl (Unhandled ''ProgrammingError: not a string'')"

definition optional_text :: "pyval \<Rightarrow> string option result" where
  "optional_text v = (if py_truth v then bind_res (as_text v) (\<lambda>s. Inr (Some s)) else Inr None)"

text \<open>\<^verbatim>\<open>isinstance(x, int)\<close>, of which a \<^verbatim>\<open>bool\<close> is one.\<close>

fun as_int :: "pyval \<Rightarrow> int option" where
  "as_int (PInt i) = Some i"
| "as_int (PBool b) = Some (if b then 1 else 0)"
| "as_int _ = None"

section \<open>The handler\<close>

definition BAD_DELIVERY :: string where
  "BAD_DELIVERY = ''That request could not be verified.''"

definition WRONG_ACCOUNT :: string where
  "WRONG_ACCOUNT = ''That payment was not collected by this account.''"

definition EVENT_CAPTURED :: string where
  "EVENT_CAPTURED = ''payment.captured''"

definition EVENT_FAILED :: string where
  "EVENT_FAILED = ''payment.failed''"

definition EVENT_REFUNDED :: string where
  "EVENT_REFUNDED = ''refund.processed''"

definition HANDLED_EVENTS :: "pyval set" where
  "HANDLED_EVENTS = {PStr EVENT_CAPTURED, PStr EVENT_FAILED, PStr EVENT_REFUNDED}"

record 's settlement =
  settle_print_order :: "payment \<Rightarrow> 's \<Rightarrow> 's result"
  settle_wallet_topup :: "payment \<Rightarrow> 's \<Rightarrow> 's result"
  settle_subscription :: "payment \<Rightarrow> 's \<Rightarrow> 's result"

definition REFUND_AT_RAZORPAY :: string where
  "REFUND_AT_RAZORPAY = ''Refunded from the Razorpay dashboard.''"

record webhook_outcome =
  wo_event :: pyval
  wo_handled :: bool
  wo_detail :: string

definition outcome :: "pyval \<Rightarrow> bool \<Rightarrow> string \<Rightarrow> webhook_outcome" where
  "outcome event handled detail = \<lparr>wo_event = event, wo_handled = handled, wo_detail = detail\<rparr>"

text \<open>What the handler reads off a verified body before it touches a row.\<close>

record delivery =
  dl_event :: string
  dl_entity :: pyval
  dl_refund_entity :: pyval
  dl_order_id :: string
  dl_payment_id :: pyval

definition read_delivery :: "pyval \<Rightarrow> (webhook_outcome + delivery) result" where
  "read_delivery payload =
     bind_res (get_key payload ''event'' PNone) (\<lambda>raw.
       let event = (if py_truth raw then raw else PStr []) in
       if \<not> hashable event then Inl (Unhandled ''TypeError: unhashable type'')
       else if event \<notin> HANDLED_EVENTS then Inr (Inl (outcome event False ''event not handled''))
       else
         bind_res (get_key payload ''payload'' PNone) (\<lambda>inner.
         let container = (if is_dict inner then inner else PDict []) in
         bind_res (get_key container ''payment'' (PDict [])) (\<lambda>pay.
         bind_res (get_key pay ''entity'' (PDict [])) (\<lambda>entity.
         bind_res (get_key container ''refund'' (PDict [])) (\<lambda>ref.
         bind_res (get_key ref ''entity'' (PDict [])) (\<lambda>refund_entity.
         bind_res (get_key entity ''order_id'' PNone) (\<lambda>order_id.
         bind_res (get_key entity ''id'' PNone) (\<lambda>payment_id.
           if \<not> py_truth order_id \<or> \<not> py_truth payment_id
           then Inr (Inl (outcome event False ''event carried no order or payment id''))
           else bind_res (as_text order_id) (\<lambda>oid.
             bind_res (as_text event) (\<lambda>ev.
               Inr (Inr \<lparr>dl_event = ev, dl_entity = entity, dl_refund_entity = refund_entity,
                         dl_order_id = oid, dl_payment_id = payment_id\<rparr>)))))))))))"

definition settle :: "'s settlement \<Rightarrow> payment \<Rightarrow> 's \<Rightarrow> 's result" where
  "settle st p db =
     (case py_kind p of
        PRINT_ORDER \<Rightarrow> settle_print_order st p db
      | WALLET_TOPUP \<Rightarrow> settle_wallet_topup st p db
      | SUBSCRIPTION_PAYMENT \<Rightarrow> settle_subscription st p db)"

definition external_key :: "string \<Rightarrow> string" where
  "external_key i = ''rzp:'' @ i"

definition record_external_refund ::
  "payment \<Rightarrow> pyval \<Rightarrow> 'a payments_db_scheme refund_sink option \<Rightarrow> 'a payments_db_scheme \<Rightarrow>
   (webhook_outcome \<times> 'a payments_db_scheme) result" where
  "record_external_refund p refund_entity sink db =
     bind_res (get_key refund_entity ''id'' PNone) (\<lambda>raw_id.
     bind_res (get_key refund_entity ''amount'' PNone) (\<lambda>raw_amount.
       if \<not> py_truth raw_id \<or> as_int raw_amount = None
       then Inr (outcome (PStr EVENT_REFUNDED) False ''refund event was incomplete'', db)
       else bind_res (as_text raw_id) (\<lambda>i.
         if refund_for_razorpay_id i db \<noteq> None
         then Inr (outcome (PStr EVENT_REFUNDED) False ''refund already recorded'', db)
         else
           (case refund p (from_paise (the (as_int raw_amount))) TO_SOURCE (external_key i) None
                   (Some REFUND_AT_RAZORPAY) None None (Some i) sink db of
              Inr (_, _, db') \<Rightarrow> Inr (outcome (PStr EVENT_REFUNDED) True ''refund recorded'', db')
            | Inl (BadRequest _) \<Rightarrow> Inr (outcome (PStr EVENT_REFUNDED) False ''refund could not be recorded'', db)
            | Inl (Conflict _) \<Rightarrow> Inr (outcome (PStr EVENT_REFUNDED) False ''refund could not be recorded'', db)
            | Inl e \<Rightarrow> Inl e))))"

definition apply_delivery ::
  "delivery \<Rightarrow> payment \<Rightarrow> 'a payments_db_scheme settlement \<Rightarrow> 'a payments_db_scheme refund_sink option \<Rightarrow>
   datetime \<Rightarrow> 'a payments_db_scheme \<Rightarrow> (webhook_outcome \<times> 'a payments_db_scheme) result" where
  "apply_delivery dl p st sink now db =
     (let event = PStr (dl_event dl) in
      if dl_event dl = EVENT_REFUNDED then record_external_refund p (dl_refund_entity dl) sink db
      else if dl_event dl = EVENT_FAILED then
        (if py_status p = CAPTURED then Inr (outcome event False ''already captured'', db)
         else bind_res (get_key (dl_entity dl) ''error_description'' PNone) (\<lambda>raw.
              bind_res (optional_text raw) (\<lambda>reason.
              bind_res (record_failure p reason db) (\<lambda>(_, db').
                Inr (outcome event True ''recorded as failed'', db')))))
      else if py_status p = CAPTURED then Inr (outcome event False ''already captured'', db)
      else bind_res (as_text (dl_payment_id dl)) (\<lambda>i.
           bind_res (record_capture p i now db) (\<lambda>(p', db').
           bind_res (settle st p' db') (\<lambda>db''.
             Inr (outcome event True ''captured and settled'', db'')))))"

definition handle_webhook ::
  "mac \<Rightarrow> (string \<Rightarrow> pyval option) \<Rightarrow> string \<Rightarrow> string option \<Rightarrow> string \<Rightarrow> 'a payments_db_scheme settlement \<Rightarrow>
   'a payments_db_scheme refund_sink option \<Rightarrow> nat option \<Rightarrow> datetime \<Rightarrow> 'a payments_db_scheme \<Rightarrow>
   (webhook_outcome \<times> 'a payments_db_scheme) result" where
  "handle_webhook mac parse body signature secret st sink collecting_user_id now db =
     bind_res (verify_webhook_signature mac body signature secret) (\<lambda>ok.
       if \<not> ok then Inl (Unauthorized BAD_DELIVERY)
       else case parse body of
         None \<Rightarrow> Inr (outcome (PStr []) False ''unreadable body'', db)
       | Some payload \<Rightarrow>
           bind_res (read_delivery payload) (\<lambda>read. case read of
             Inl out \<Rightarrow> Inr (out, db)
           | Inr dl \<Rightarrow>
               (case payment_for_razorpay_order (dl_order_id dl) db of
                  None \<Rightarrow> Inr (outcome (PStr (dl_event dl)) False ''no such payment'', db)
                | Some p \<Rightarrow>
                    if py_collecting_user_id p \<noteq> collecting_user_id then Inl (Unauthorized WRONG_ACCOUNT)
                    else apply_delivery dl p st sink now db)))"

section \<open>Only the collecting account moves its payments\<close>

lemma handle_webhook_cases:
  assumes "handle_webhook mac parse body signature secret st sink who now db = Inr (out, db')"
  obtains (nothing) "\<not> wo_handled out" "db' = db"
      "\<And>now2 st2 sink2. handle_webhook mac parse body signature secret st2 sink2 who now2 db = Inr (out, db)"
  | (applied) payload dl p where "verify_webhook_signature mac body signature secret = Inr True"
      "parse body = Some payload" "read_delivery payload = Inr (Inr dl)"
      "payment_for_razorpay_order (dl_order_id dl) db = Some p" "p \<in> set (payments db)"
      "py_razorpay_order_id p = Some (dl_order_id dl)" "py_collecting_user_id p = who"
      "apply_delivery dl p st sink now db = Inr (out, db')"
proof -
  from assms have v: "verify_webhook_signature mac body signature secret = Inr True"
    by (auto simp: handle_webhook_def bind_res_Inr_iff split: if_splits)
  show thesis
  proof (cases "parse body")
    case None
    then have h: "handle_webhook mac parse body signature secret st2 sink2 who t db = Inr (outcome (PStr []) False ''unreadable body'', db)" for t st2 sink2
      using v by (simp add: handle_webhook_def)
    show thesis by (rule nothing) (use h assms in \<open>auto simp: outcome_def\<close>)
  next
    case (Some payload)
    then obtain read where read: "read_delivery payload = Inr read"
      using assms v by (auto simp: handle_webhook_def bind_res_Inr_iff)
    show thesis
    proof (cases read)
      case (Inl o1)
      have out: "\<not> wo_handled o1"
        using read Inl by (auto simp: read_delivery_def bind_res_Inr_iff Let_def outcome_def split: if_splits)
      have h: "handle_webhook mac parse body signature secret st2 sink2 who t db = Inr (o1, db)" for t st2 sink2
        using v Some read Inl by (simp add: handle_webhook_def)
      show thesis by (rule nothing) (use h assms out in auto)
    next
      case (Inr dl)
      show thesis
      proof (cases "payment_for_razorpay_order (dl_order_id dl) db")
        case None
    then have h: "handle_webhook mac parse body signature secret st2 sink2 who t db = Inr (outcome (PStr (dl_event dl)) False ''no such payment'', db)" for t st2 sink2
      using v Some read Inr by (simp add: handle_webhook_def)
    show thesis by (rule nothing) (use h assms in \<open>auto simp: outcome_def\<close>)
      next
        case found: (Some p)
        then have p: "p \<in> set (payments db)" "py_razorpay_order_id p = Some (dl_order_id dl)"
          by (auto simp: payment_for_razorpay_order_def dest: first_where_SomeD)
        have "py_collecting_user_id p = who" "apply_delivery dl p st sink now db = Inr (out, db')"
          using assms v Some read Inr found by (auto simp: handle_webhook_def split: if_splits)
        with applied v Some read Inr found p show thesis by auto
      qed
    qed
  qed
qed

text \<open>
  C6. A delivery moves something only when it is signed with the secret of the account whose URL it
  came to and names a payment which that account collected: every other delivery is answered with the
  session as it was. In particular one owner's secret settles nothing another owner collected, and
  an account without a secret settles nothing.
\<close>

theorem webhook_moves_only_its_own:
  assumes "handle_webhook mac parse body signature secret st sink who now db = Inr (out, db')" and "db' \<noteq> db"
  shows "\<exists>payload dl p. parse body = Some payload \<and> read_delivery payload = Inr (Inr dl)
    \<and> p \<in> set (payments db) \<and> py_razorpay_order_id p = Some (dl_order_id dl) \<and> py_collecting_user_id p = who
    \<and> secret \<noteq> [] \<and> (\<exists>s. signature = Some s \<and> strip s = mac secret body)"
  using assms(1)
proof (cases rule: handle_webhook_cases)
  case nothing
  then show ?thesis using assms(2) by simp
next
  case (applied payload dl p)
  have "secret \<noteq> [] \<and> (\<exists>s. signature = Some s \<and> strip s = mac secret body)"
    using applied(1) by (auto simp: verify_webhook_signature_def signature_matches_def compare_digest_def
        split: if_splits option.splits)
  with applied show ?thesis by blast
qed

definition capture_body :: pyval where
  "capture_body = PDict [(''event'', PStr EVENT_CAPTURED), (''payload'', PDict [(''payment'', PDict [(''entity'',
     PDict [(''order_id'', PStr ''order_1''), (''id'', PStr ''pay_7'')])])])]"

definition silent_settlement :: "'s settlement" where
  "silent_settlement = \<lparr>settle_print_order = (\<lambda>_ db. Inr db), settle_wallet_topup = (\<lambda>_ db. Inr db),
     settle_subscription = (\<lambda>_ db. Inr db)\<rparr>"

lemma capture_body_read:
  "read_delivery capture_body = Inr (Inr \<lparr>dl_event = EVENT_CAPTURED,
     dl_entity = PDict [(''order_id'', PStr ''order_1''), (''id'', PStr ''pay_7'')], dl_refund_entity = PDict [],
     dl_order_id = ''order_1'', dl_payment_id = PStr ''pay_7''\<rparr>)"
  by (simp add: read_delivery_def capture_body_def EVENT_CAPTURED_def HANDLED_EVENTS_def Let_def)

lemma capture_delivered:
  "\<exists>out db'. handle_webhook toy_mac (\<lambda>_. Some capture_body) ''body'' (Some ''mac:key:body'') ''key'' silent_settlement None (Some 1) 9
      books_example = Inr (out, db') \<and> payments db' \<noteq> payments books_example"
proof -
  have v: "verify_webhook_signature toy_mac ''body'' (Some ''mac:key:body'') ''key'' = Inr True" by code_simp
  have ev: "EVENT_CAPTURED \<noteq> EVENT_FAILED" "EVENT_CAPTURED \<noteq> EVENT_REFUNDED"
    by (simp_all add: EVENT_CAPTURED_def EVENT_FAILED_def EVENT_REFUNDED_def)
  have look: "payment_for_razorpay_order ''order_1'' books_example = Some open_payment_example"
    by (simp add: payment_for_razorpay_order_def books_example_def open_payment_example_def owner_payment_example_def)
  have p: "py_collecting_user_id open_payment_example = Some 1" "py_status open_payment_example = CREATED"
    "py_kind open_payment_example = PRINT_ORDER"
    by (simp_all add: open_payment_example_def owner_payment_example_def)
  obtain p' db' where r: "record_capture open_payment_example ''pay_7'' 9 books_example = Inr (p', db')"
    and ne: "payments db' \<noteq> payments books_example"
    by (simp add: record_capture_def p Let_def) (simp add: books_example_def save_payment_def open_payment_example_def
        owner_payment_example_def payments_blank_def)
  have "py_kind p' = PRINT_ORDER" using record_capture_cases(3)[OF r] p by simp
  then show ?thesis
    using v look p ev r ne
    by (simp add: handle_webhook_def capture_body_read apply_delivery_def Let_def settle_def silent_settlement_def del: One_nat_def)
qed

theorem webhook_moves_only_its_own_witness:
  "\<exists>dl p. read_delivery capture_body = Inr (Inr dl) \<and> p \<in> set (payments books_example) \<and> py_collecting_user_id p = Some 1"
proof -
  obtain out db' where h: "handle_webhook toy_mac (\<lambda>_. Some capture_body) ''body'' (Some ''mac:key:body'') ''key'' silent_settlement None (Some 1) 9
      books_example = Inr (out, db')" and "payments db' \<noteq> payments books_example"
    using capture_delivered by blast
  then have "db' \<noteq> books_example" by auto
  from webhook_moves_only_its_own[OF h this] show ?thesis by auto
qed

section \<open>A redelivery changes nothing\<close>

text \<open>
  What a later database must still hold for a delivery that was acted on: sound books, the refunds there
  were, and the payment of that Razorpay order, collected by the same account, as the delivery left it or captured.
  What became of the row since does not matter to a refund that is reported.
\<close>

definition still_settled :: "delivery \<Rightarrow> 'a payments_db_scheme \<Rightarrow> 'a payments_db_scheme \<Rightarrow> bool" where
  "still_settled dl db db2 \<longleftrightarrow> books_ok db2 \<and> set (refunds db) \<subseteq> set (refunds db2)
     \<and> (\<exists>p p2. payment_for_razorpay_order (dl_order_id dl) db = Some p \<and> payment_for_razorpay_order (dl_order_id dl) db2 = Some p2
          \<and> py_id p2 = py_id p \<and> py_collecting_user_id p2 = py_collecting_user_id p
          \<and> (p2 = p \<or> py_status p2 = CAPTURED \<or> dl_event dl = EVENT_REFUNDED))"

text \<open>The row a delivery leaves under its Razorpay order.\<close>

definition same_checkout :: "payment \<Rightarrow> payment \<Rightarrow> bool" where
  "same_checkout p q \<longleftrightarrow> py_id q = py_id p \<and> py_collecting_user_id q = py_collecting_user_id p
     \<and> py_razorpay_order_id q = py_razorpay_order_id p"

lemma lookup_updated:
  assumes "books_ok db'" and "payments db' = put_row py_id p' (payments db)" and "p \<in> set (payments db)"
    and "py_id p' = py_id p" and "py_razorpay_order_id p' = Some oid"
  shows "payment_for_razorpay_order oid db' = Some p'"
proof -
  have "p' \<in> set (payments db')" using assms(2-4) by (auto simp: set_put_row)
  moreover have "unique_col py_razorpay_order_id (payments db')" using assms(1) by (simp add: books_ok_def)
  ultimately show ?thesis
    unfolding payment_for_razorpay_order_def using assms(5) by (intro first_where_unique_col)
qed

locale webhook_wiring = refund_listener on_refund
  for on_refund :: "'a payments_db_scheme refund_sink" +
  fixes st :: "'a payments_db_scheme settlement"
  assumes settle_keeps: "settle st p db = Inr db' \<Longrightarrow> payments db' = payments db \<and> refunds db' = refunds db"
begin

lemma settle_books: "settle st p db = Inr db' \<Longrightarrow> books_ok db' = books_ok db"
  using settle_keeps[of p db db'] by (simp add: books_ok_def)

lemma external_refund_step:
  assumes "get_key ref ''id'' PNone = Inr raw_id" and "get_key ref ''amount'' PNone = Inr raw_amount"
    and "as_text raw_id = Inr i" and "py_truth raw_id" and "as_int raw_amount = Some n"
    and "refund_for_razorpay_id i db = None"
  shows "record_external_refund p ref sink db =
    (case refund p (from_paise n) TO_SOURCE (external_key i) None (Some REFUND_AT_RAZORPAY) None None (Some i) sink db of
       Inr (_, _, db') \<Rightarrow> Inr (outcome (PStr EVENT_REFUNDED) True ''refund recorded'', db')
     | Inl (BadRequest _) \<Rightarrow> Inr (outcome (PStr EVENT_REFUNDED) False ''refund could not be recorded'', db)
     | Inl (Conflict _) \<Rightarrow> Inr (outcome (PStr EVENT_REFUNDED) False ''refund could not be recorded'', db)
     | Inl e \<Rightarrow> Inl e)"
  using assms by (simp add: record_external_refund_def)

text \<open>A delivery that moved nothing moves nothing whoever listens.\<close>

lemma external_refund_unmoved:
  assumes ok: "books_ok db" and p: "p \<in> set (payments db)"
    and a: "record_external_refund p ref (Some on_refund) db = Inr (out, db)"
  shows "record_external_refund p ref sink2 db = Inr (out, db)"
proof -
  have same: "refund p amount TO_SOURCE key None reason None None (Some i) sink2 db
      = refund p amount TO_SOURCE key None reason None None (Some i) (Some on_refund) db"
    if "\<forall>r p' db'. refund p amount TO_SOURCE key None reason None None (Some i) (Some on_refund) db = Inr (r, p', db') \<longrightarrow> db' = db"
    for amount key reason i
  proof (cases "refund_for_key key db")
    case None
    show ?thesis
    proof (cases "refund p amount TO_SOURCE key None reason None None (Some i) None db")
      case (Inl e)
      with None show ?thesis by (cases sink2) (simp_all add: refund_with_sink)
    next
      case (Inr x)
      obtain r p' db0 where x: "x = (r, p', db0)" by (cases x)
      have "length (refunds (on_refund p' r db0)) = Suc (length (refunds db))"
        using books_refund(2)[OF ok p _ None] Inr x by (simp add: keeps_refunds)
      moreover have "on_refund p' r db0 = db" using that None Inr x by (simp add: refund_with_sink)
      ultimately show ?thesis by simp
    qed
  qed (simp add: refund_def)
  obtain raw_id raw_amount where k: "get_key ref ''id'' PNone = Inr raw_id" "get_key ref ''amount'' PNone = Inr raw_amount"
    using a by (auto simp: record_external_refund_def bind_res_Inr_iff)
  show ?thesis
  proof (cases "\<not> py_truth raw_id \<or> as_int raw_amount = None")
    case False
    then obtain i n where i: "as_text raw_id = Inr i" "py_truth raw_id" "as_int raw_amount = Some n"
      using a by (auto simp: record_external_refund_def k bind_res_Inr_iff)
    show ?thesis
    proof (cases "refund_for_razorpay_id i db")
      case None
      note step = external_refund_step[OF k i None]
      let ?again = "\<lambda>s. refund p (from_paise n) TO_SOURCE (external_key i) None (Some REFUND_AT_RAZORPAY) None None (Some i) s db"
      have eq: "?again sink2 = ?again (Some on_refund)"
      proof (rule same, intro allI impI)
        fix r p' db' assume X: "?again (Some on_refund) = Inr (r, p', db')"
        show "db' = db" using a unfolding step X by simp
      qed
      show ?thesis using a unfolding step eq .
    qed (use a in \<open>simp add: record_external_refund_def k i\<close>)
  qed (use a in \<open>auto simp: record_external_refund_def k\<close>)
qed

lemma apply_again_refund:
  assumes ok: "books_ok db" and p: "p \<in> set (payments db)" "py_razorpay_order_id p = Some oid"
    and a: "record_external_refund p ref (Some on_refund) db = Inr (out, db')"
  shows "books_ok db' \<and> (\<exists>q o2. payment_for_razorpay_order oid db' = Some q \<and> py_collecting_user_id q = py_collecting_user_id p
    \<and> record_external_refund q ref sink2 db' = Inr (o2, db'))"
proof (cases "db' = db")
  case True
  have "payment_for_razorpay_order oid db = Some p"
    unfolding payment_for_razorpay_order_def using ok p by (intro first_where_unique_col) (auto simp: books_ok_def)
  moreover have "record_external_refund p ref sink2 db = Inr (out, db)"
    by (rule external_refund_unmoved[OF ok p(1)]) (use a True in simp)
  ultimately show ?thesis unfolding True using ok by blast
next
  case False
  obtain raw_id raw_amount where k: "get_key ref ''id'' PNone = Inr raw_id" "get_key ref ''amount'' PNone = Inr raw_amount"
    using a by (auto simp: record_external_refund_def bind_res_Inr_iff)
  have c: "py_truth raw_id" "as_int raw_amount \<noteq> None" using a False by (auto simp: record_external_refund_def k split: if_splits)
  then obtain i where i: "as_text raw_id = Inr i" "refund_for_razorpay_id i db = None"
    using a False by (auto simp: record_external_refund_def k bind_res_Inr_iff split: if_splits)
  note g = k c i
  obtain r p' where rf: "refund p (from_paise (the (as_int raw_amount))) TO_SOURCE (external_key i) None (Some REFUND_AT_RAZORPAY) None None
        (Some i) (Some on_refund) db = Inr (r, p', db')"
  proof (cases "refund p (from_paise (the (as_int raw_amount))) TO_SOURCE (external_key i) None (Some REFUND_AT_RAZORPAY) None None
        (Some i) (Some on_refund) db")
    case (Inl e)
    then show ?thesis using a g False by (auto simp: record_external_refund_def split: app_error.splits)
  next
    case (Inr x)
    then show ?thesis using a g that by (cases x) (auto simp: record_external_refund_def)
  qed
  have new: "refund_for_key (external_key i) db = None"
    using rf False by (auto simp: refund_def split: option.splits if_splits)
  obtain db0 where rf0: "refund p (from_paise (the (as_int raw_amount))) TO_SOURCE (external_key i) None (Some REFUND_AT_RAZORPAY) None None
        (Some i) None db = Inr (r, p', db0)" and db': "db' = on_refund p' r db0"
    using refund_unheard[OF rf new] by blast
  note b = books_refund[OF ok p(1) rf0 new]
  from refund_new_cases[OF rf0 new] have r: "rf_razorpay_refund_id r = Some i" and p': "p' = after_refund (as_money (from_paise (the (as_int raw_amount)))) p"
    by auto
  have same: "py_id p' = py_id p" "py_collecting_user_id p' = py_collecting_user_id p" "py_razorpay_order_id p' = Some oid"
    using p by (simp_all add: p' after_refund_def Let_def)
  have ok': "books_ok db'" using b(1) by (simp add: db' keeps_books)
  have "payments db' = put_row py_id p' (payments db)" by (simp add: db' keeps_payments b(3))
  from lookup_updated[OF ok' this p(1) same(1,3)] have q: "payment_for_razorpay_order oid db' = Some p'" .
  have "refund_for_razorpay_id i db' \<noteq> None"
    using r by (auto simp: refund_for_razorpay_id_def db' keeps_refunds b(2) first_where_None_iff)
  then have "record_external_refund p' ref sink2 db' = Inr (outcome (PStr EVENT_REFUNDED) False ''refund already recorded'', db')"
    using g by (auto simp: record_external_refund_def)
  with ok' q same show ?thesis by blast
qed

lemma apply_again:
  assumes ok: "books_ok db" and p: "p \<in> set (payments db)" "py_razorpay_order_id p = Some (dl_order_id dl)"
    and a: "apply_delivery dl p st (Some on_refund) now db = Inr (out, db')"
  shows "books_ok db' \<and> (\<exists>q o2. payment_for_razorpay_order (dl_order_id dl) db' = Some q
    \<and> py_collecting_user_id q = py_collecting_user_id p \<and> apply_delivery dl q st2 sink2 now2 db' = Inr (o2, db'))"
proof -
  have look: "payment_for_razorpay_order (dl_order_id dl) db = Some p"
    unfolding payment_for_razorpay_order_def using ok p by (intro first_where_unique_col) (auto simp: books_ok_def)
  consider (ref) "dl_event dl = EVENT_REFUNDED"
    | (repeat) "dl_event dl \<noteq> EVENT_REFUNDED" "py_status p = CAPTURED"
    | (fail) "dl_event dl = EVENT_FAILED" "dl_event dl \<noteq> EVENT_REFUNDED" "py_status p \<noteq> CAPTURED"
    | (capt) "dl_event dl \<noteq> EVENT_FAILED" "dl_event dl \<noteq> EVENT_REFUNDED" "py_status p \<noteq> CAPTURED" by blast
  then show ?thesis
  proof cases
    case ref
    then have "record_external_refund p (dl_refund_entity dl) (Some on_refund) db = Inr (out, db')"
      using a by (simp add: apply_delivery_def)
    from apply_again_refund[OF ok p this] ref show ?thesis by (simp add: apply_delivery_def)
  next
    case repeat
    then have "db' = db" using a by (auto simp: apply_delivery_def Let_def split: if_splits)
    with repeat look ok show ?thesis by (auto simp: apply_delivery_def Let_def)
  next
    case fail
    from a fail obtain raw reason p' where g: "get_key (dl_entity dl) ''error_description'' PNone = Inr raw"
      "optional_text raw = Inr reason" and f: "record_failure p reason db = Inr (p', db')"
      by (auto simp: apply_delivery_def Let_def bind_res_Inr_iff)
    note ok' = books_failure[OF ok p(1) f]
    have p': "p' = p\<lparr>py_status := PAY_FAILED, py_failure_reason := clip 300 (case reason of Some r \<Rightarrow> r | None \<Rightarrow> [])\<rparr>"
      and db': "db' = save_payment p' db" using f by (auto simp: record_failure_def Let_def split: if_splits)
    have mem: "p' \<in> set (payments db')" using p(1) by (auto simp: db' p' save_payment_def set_put_row)
    have "payments db' = put_row py_id p' (payments db)" "py_id p' = py_id p" "py_razorpay_order_id p' = Some (dl_order_id dl)"
      using p by (simp_all add: db' save_payment_def p')
    from lookup_updated[OF ok' this(1) p(1) this(2,3)] have q: "payment_for_razorpay_order (dl_order_id dl) db' = Some p'" .
    have "save_payment p' db' = db'" using put_row_id[OF mem books_ok_ids[OF ok']] by (simp add: save_payment_def)
    then have "record_failure p' reason db' = Inr (p', db')" by (simp add: record_failure_def p' Let_def)
    then have "apply_delivery dl p' st2 sink2 now2 db' = Inr (outcome (PStr (dl_event dl)) True ''recorded as failed'', db')"
      using g fail by (simp add: apply_delivery_def Let_def p')
    with q ok' p' show ?thesis by auto
  next
    case capt
    from a capt obtain i p' db1 where f: "record_capture p i now db = Inr (p', db1)" and s: "settle st p' db1 = Inr db'"
      by (auto simp: apply_delivery_def Let_def bind_res_Inr_iff)
    note c = record_capture_cases[OF f]
    have ok': "books_ok db'" using books_capture[OF ok p(1) f] settle_books[OF s] by simp
    have "payments db' = put_row py_id p' (payments db)" "py_id p' = py_id p" "py_razorpay_order_id p' = Some (dl_order_id dl)"
      using settle_keeps[OF s] p by (simp_all add: c(2) save_payment_def) (simp_all add: c(3))
    from lookup_updated[OF ok' this(1) p(1) this(2,3)] have q: "payment_for_razorpay_order (dl_order_id dl) db' = Some p'" .
    have "apply_delivery dl p' st2 sink2 now2 db' = Inr (outcome (PStr (dl_event dl)) False ''already captured'', db')"
      using capt by (simp add: apply_delivery_def Let_def c(3))
    with q ok' c(3) show ?thesis by auto
  qed
qed

lemma redelivery:
  assumes "books_ok db" and "handle_webhook mac parse body sg secret st (Some on_refund) who now db = Inr (out, db')"
  shows "books_ok db' \<and> (\<exists>o2. handle_webhook mac parse body sg secret st2 sink2 who now2 db' = Inr (o2, db'))"
  using assms(2)
proof (cases rule: handle_webhook_cases)
  case nothing
  with assms(1) show ?thesis by auto
next
  case (applied payload dl p)
  from apply_again[OF assms(1) applied(5,6,8), of st2 sink2 now2] applied(1-3,7) show ?thesis
    by (auto simp: handle_webhook_def)
qed

lemma refund_key_known:
  assumes "books_ok db" and "p \<in> set (payments db)"
    and "refund p amount d key actor reason rz creds ext (Some on_refund) db = Inr (r, p', db')"
  shows "refund_for_key key db' = Some r \<and> rf_payment_id r = py_id p"
proof (cases "refund_for_key key db")
  case None
  from refund_unheard[OF assms(3) None] obtain db0 where
    "refund p amount d key actor reason rz creds ext None db = Inr (r, p', db0)" "db' = on_refund p' r db0" by blast
  with refund_key_found[OF _ assms(1,2)] show ?thesis by (auto simp: refund_for_key_def keeps_refunds)
qed (use assms in \<open>auto simp: refund_def split: if_splits\<close>)

lemma handled_refundE:
  assumes "record_external_refund p ref (Some on_refund) db = Inr (out, db')" and "wo_handled out"
  obtains raw_id raw_amount i n r p' where "get_key ref ''id'' PNone = Inr raw_id" "get_key ref ''amount'' PNone = Inr raw_amount"
    "as_text raw_id = Inr i" "py_truth raw_id" "as_int raw_amount = Some n" "refund_for_razorpay_id i db = None"
    "refund p (from_paise n) TO_SOURCE (external_key i) None (Some REFUND_AT_RAZORPAY) None None
      (Some i) (Some on_refund) db = Inr (r, p', db')"
proof -
  obtain raw_id raw_amount where k: "get_key ref ''id'' PNone = Inr raw_id" "get_key ref ''amount'' PNone = Inr raw_amount"
    using assms by (auto simp: record_external_refund_def bind_res_Inr_iff)
  have c: "py_truth raw_id" "as_int raw_amount \<noteq> None"
    using assms by (auto simp: record_external_refund_def k outcome_def split: if_splits)
  then obtain i n where i: "as_text raw_id = Inr i" "as_int raw_amount = Some n" "refund_for_razorpay_id i db = None"
    using assms by (auto simp: record_external_refund_def k bind_res_Inr_iff outcome_def split: if_splits)
  note step = external_refund_step[OF k i(1) c(1) i(2,3)]
  obtain r p' where "refund p (from_paise n) TO_SOURCE (external_key i) None (Some REFUND_AT_RAZORPAY) None None
      (Some i) (Some on_refund) db = Inr (r, p', db')"
    using assms unfolding step by (auto simp: outcome_def split: sum.splits app_error.splits)
  with that[OF k i(1) c(1) i(2,3)] show thesis .
qed

lemma later_refund:
  assumes ok: "books_ok db" and p: "p \<in> set (payments db)"
    and a: "record_external_refund p ref (Some on_refund) db = Inr (out, db')" "wo_handled out"
    and later: "books_ok db2" "set (refunds db') \<subseteq> set (refunds db2)" "py_id q = py_id p"
  shows "\<exists>o2. record_external_refund q ref sink2 db2 = Inr (o2, db2)"
  using a
proof (rule handled_refundE)
  fix raw_id raw_amount i n r p'
  assume k: "get_key ref ''id'' PNone = Inr raw_id" "get_key ref ''amount'' PNone = Inr raw_amount"
    and i: "as_text raw_id = Inr i" "py_truth raw_id" "as_int raw_amount = Some n"
    and rf: "refund p (from_paise n) TO_SOURCE (external_key i) None (Some REFUND_AT_RAZORPAY) None None
      (Some i) (Some on_refund) db = Inr (r, p', db')"
  note known = refund_key_known[OF ok p rf]
  then have "r \<in> set (refunds db2)" "rf_idempotency_key r = external_key i"
    using later(2) by (auto simp: refund_for_key_def dest: first_where_SomeD)
  then have "refund_for_key (external_key i) db2 = Some r"
    unfolding refund_for_key_def using later(1) first_where_unique[of rf_idempotency_key "refunds db2" r]
    by (simp add: books_ok_def)
  then have again: "refund q (from_paise n) TO_SOURCE (external_key i) None (Some REFUND_AT_RAZORPAY) None None (Some i) sink2 db2
      = Inr (r, q, db2)" using known later(3) by (intro refund_repeat) simp_all
  show ?thesis
  proof (cases "refund_for_razorpay_id i db2")
    case None
    show ?thesis using again by (simp add: external_refund_step[OF k i None])
  qed (use i in \<open>auto simp: record_external_refund_def k\<close>)
qed

lemma external_refund_row:
  assumes ok: "books_ok db" and p: "p \<in> set (payments db)"
    and a: "record_external_refund p ref (Some on_refund) db = Inr (out, db')" "wo_handled out"
  shows "books_ok db' \<and> (\<exists>q. same_checkout p q \<and> payments db' = put_row py_id q (payments db))"
  using a
proof (rule handled_refundE)
  fix i n r p'
  assume rf: "refund p (from_paise n) TO_SOURCE (external_key i) None (Some REFUND_AT_RAZORPAY) None None
      (Some i) (Some on_refund) db = Inr (r, p', db')"
  show ?thesis
  proof (cases "refund_for_key (external_key i) db")
    case None
    obtain db0 where rf0: "refund p (from_paise n) TO_SOURCE (external_key i) None (Some REFUND_AT_RAZORPAY) None None
        (Some i) None db = Inr (r, p', db0)" and db': "db' = on_refund p' r db0"
      using refund_unheard[OF rf None] by blast
    have "p' = after_refund (as_money (from_paise n)) p" using refund_new_cases[OF rf0 None] by metis
    then have "same_checkout p p'" by (simp add: same_checkout_def after_refund_def Let_def)
    then show ?thesis using books_refund(1,3)[OF ok p rf0 None] by (auto simp: db' keeps_books keeps_payments)
  next
    case (Some x)
    then have "db' = db" using rf by (auto simp: refund_def split: if_splits)
    moreover have "put_row py_id p (payments db) = payments db" by (rule put_row_id[OF p books_ok_ids[OF ok]])
    ultimately show ?thesis using ok by (auto simp: same_checkout_def intro!: exI[of _ p])
  qed
qed

lemma apply_much_later:
  assumes ok: "books_ok db" and p: "p \<in> set (payments db)" "py_razorpay_order_id p = Some (dl_order_id dl)"
    and a: "apply_delivery dl p st (Some on_refund) now db = Inr (out, db')" "wo_handled out"
    and later: "still_settled dl db' db2"
  shows "\<exists>q o2. payment_for_razorpay_order (dl_order_id dl) db2 = Some q \<and> py_collecting_user_id q = py_collecting_user_id p
    \<and> apply_delivery dl q st2 sink2 now2 db2 = Inr (o2, db2)"
proof -
  obtain q' q where q: "payment_for_razorpay_order (dl_order_id dl) db' = Some q'" "payment_for_razorpay_order (dl_order_id dl) db2 = Some q"
    "py_id q = py_id q'" "py_collecting_user_id q = py_collecting_user_id q'"
    "q = q' \<or> py_status q = CAPTURED \<or> dl_event dl = EVENT_REFUNDED"
    and l: "books_ok db2" "set (refunds db') \<subseteq> set (refunds db2)"
    using later by (auto simp: still_settled_def)
  have mem: "q \<in> set (payments db2)" using q(2) by (auto simp: payment_for_razorpay_order_def dest: first_where_SomeD)
  consider (ref) "dl_event dl = EVENT_REFUNDED"
    | (fail) "dl_event dl = EVENT_FAILED" "dl_event dl \<noteq> EVENT_REFUNDED" "py_status p \<noteq> CAPTURED"
    | (capt) "dl_event dl \<noteq> EVENT_FAILED" "dl_event dl \<noteq> EVENT_REFUNDED" "py_status p \<noteq> CAPTURED"
    using a by (auto simp: apply_delivery_def Let_def outcome_def split: if_splits)
  then show ?thesis
  proof cases
    case ref
    then have r: "record_external_refund p (dl_refund_entity dl) (Some on_refund) db = Inr (out, db')"
      using a by (simp add: apply_delivery_def)
    obtain x where x: "books_ok db'" "same_checkout p x" "payments db' = put_row py_id x (payments db)"
      using external_refund_row[OF ok p(1) r a(2)] by blast
    have "q' = x" using lookup_updated[OF x(1,3) p(1)] x(2) p(2) q(1) by (simp add: same_checkout_def)
    then have "py_id q = py_id p" "py_collecting_user_id q = py_collecting_user_id p" using q(3,4) x(2) by (simp_all add: same_checkout_def)
    with later_refund[OF ok p(1) r a(2) l, of q sink2] q(2) ref show ?thesis by (auto simp: apply_delivery_def)
  next
    case fail
    from a fail obtain raw reason p' where g: "get_key (dl_entity dl) ''error_description'' PNone = Inr raw"
      "optional_text raw = Inr reason" and f: "record_failure p reason db = Inr (p', db')"
      by (auto simp: apply_delivery_def Let_def bind_res_Inr_iff)
    have p': "p' = p\<lparr>py_status := PAY_FAILED, py_failure_reason := clip 300 (case reason of Some r \<Rightarrow> r | None \<Rightarrow> [])\<rparr>"
      and db': "db' = save_payment p' db" using f by (auto simp: record_failure_def Let_def split: if_splits)
    have "q' = p'" using lookup_updated[OF books_failure[OF ok p(1) f] _ p(1)] p(2) q(1) by (simp add: db' save_payment_def p')
    then have who: "py_collecting_user_id q = py_collecting_user_id p" using q(4) by (simp add: p')
    have "save_payment q db2 = db2" using put_row_id[OF mem books_ok_ids[OF l(1)]] by (simp add: save_payment_def)
    moreover have "q = p' \<or> py_status q = CAPTURED" using q(5) fail(2) \<open>q' = p'\<close> by blast
    ultimately have "\<exists>o2. apply_delivery dl q st2 sink2 now2 db2 = Inr (o2, db2)"
      using g fail(1,2) by (auto simp: apply_delivery_def Let_def record_failure_def p')
    with q(2) who show ?thesis by blast
  next
    case capt
    from a capt obtain i p' db1 where f: "record_capture p i now db = Inr (p', db1)" and s: "settle st p' db1 = Inr db'"
      by (auto simp: apply_delivery_def Let_def bind_res_Inr_iff)
    note c = record_capture_cases[OF f]
    have "books_ok db'" using books_capture[OF ok p(1) f] settle_books[OF s] by simp
    moreover have "payments db' = put_row py_id p' (payments db)" using settle_keeps[OF s] by (simp add: c(2) save_payment_def)
    moreover have "py_id p' = py_id p" "py_razorpay_order_id p' = Some (dl_order_id dl)" using p(2) by (simp_all add: c(3))
    ultimately have "payment_for_razorpay_order (dl_order_id dl) db' = Some p'" by (rule lookup_updated[OF _ _ p(1)])
    then have "q' = p'" using q(1) by simp
    then have "py_status q = CAPTURED" "py_collecting_user_id q = py_collecting_user_id p"
      using q(4,5) capt(2) by (auto simp: c(3))
    with q(2) capt show ?thesis by (auto simp: apply_delivery_def Let_def)
  qed
qed

lemma redelivered_later:
  assumes "books_ok db" and "handle_webhook mac parse body sg secret st (Some on_refund) who now db = Inr (out, db')" and "wo_handled out"
  shows "\<exists>payload dl. parse body = Some payload \<and> read_delivery payload = Inr (Inr dl) \<and> still_settled dl db' db'
    \<and> (\<forall>db2. still_settled dl db' db2 \<longrightarrow> (\<exists>o2. handle_webhook mac parse body sg secret st2 sink2 who now2 db2 = Inr (o2, db2)))"
  using assms(2)
proof (cases rule: handle_webhook_cases)
  case nothing
  with assms(3) show ?thesis by simp
next
  case (applied payload dl p)
  have "still_settled dl db' db'"
    using apply_again[OF assms(1) applied(5,6,8), of st None now] unfolding still_settled_def by blast
  moreover have "\<exists>o2. handle_webhook mac parse body sg secret st2 sink2 who now2 db2 = Inr (o2, db2)" if "still_settled dl db' db2" for db2
    using apply_much_later[OF assms(1) applied(5,6,8) assms(3) that, of st2 sink2 now2] applied(1-3,7) by (auto simp: handle_webhook_def)
  ultimately show ?thesis using applied by blast
qed

end

end
