(* ===== verification/OrderModels.thy ===== *)
theory OrderModels
  imports PrintingModels
begin

text \<open>The tables of \<^verbatim>\<open>app/modules/orders/models.py\<close>.\<close>

datatype order_state =
    DRAFT | AWAITING_PAYMENT | PAID | DISPATCHED | COMPLETED | ORD_EXPIRED | ORD_REFUNDED
  | PARTIALLY_FAILED

definition SETTLED_ORDER_STATES :: "order_state set" where
  "SETTLED_ORDER_STATES = {COMPLETED, ORD_EXPIRED, ORD_REFUNDED, PARTIALLY_FAILED}"

datatype payment_method = BY_WALLET | BY_GATEWAY

datatype item_kind = DOCUMENT_ITEM | SHOP_ITEM

record order =
  or_id :: nat
  or_public_id :: string
  or_user_id :: nat
  or_kiosk_id :: nat
  or_state :: order_state
  or_subtotal_inr :: rat
  or_fee_inr :: rat
  or_total_inr :: rat
  or_payment_method :: "payment_method option"
  or_gateway :: "string option"
  or_payment_reference :: "string option"
  or_expires_at :: "datetime option"
  or_paid_at :: "datetime option"
  or_refunded_at :: "datetime option"
  or_completed_at :: "datetime option"
  or_created_at :: datetime

record order_item =
  oi_id :: nat
  oi_order_id :: nat
  oi_position :: int
  oi_kind :: item_kind
  oi_document_id :: "nat option"
  oi_colour :: bool
  oi_duplex :: bool
  oi_copies :: int
  oi_page_range :: "string option"
  oi_page_count :: int
  oi_impressions :: int
  oi_sheets :: int
  oi_amount_inr :: rat
  oi_created_at :: datetime

record orders_db = printing_db +
  orders :: "order list"
  order_items :: "order_item list"

definition order_row :: "nat \<Rightarrow> 'a orders_db_scheme \<Rightarrow> order option" where
  "order_row i db = row_by or_id (orders db) i"

definition save_order :: "order \<Rightarrow> 'a orders_db_scheme \<Rightarrow> 'a orders_db_scheme" where
  "save_order r db = db\<lparr>orders := put_row or_id r (orders db)\<rparr>"

text \<open>\<^verbatim>\<open>Order.items\<close>, the relationship ordered by position.\<close>

definition items_of :: "nat \<Rightarrow> 'a orders_db_scheme \<Rightarrow> order_item list" where
  "items_of order_id db = sort_key oi_position (filter (\<lambda>i. oi_order_id i = order_id) (order_items db))"

text \<open>A session over empty tables, for the concrete inputs of the witnesses.\<close>

definition orders_blank :: orders_db where
  "orders_blank = \<lparr>tx_now = 0, entropy = (\<lambda>_. 0), drawn = 0, kiosks_to_wake = [], audit_log = [],
     admin_alerts = [], users = [], user_roles = [], one_time_tokens = [], refresh_tokens = [],
     kiosks = [], kiosk_devices = [], device_enrolments = [], kiosk_papers = [],
     kiosk_assignments = [], kiosk_favourites = [], paper_refill_logs = [], staff_invites = [],
     device_commands = [], wallets = [], wallet_entries = [],
     plans = [], plan_discounts = [], owner_discounts = [], subscriptions = [],
     payment_configs = [], change_requests = [], payments = [], refunds = [], documents = [], print_tasks = [], orders = [], order_items = []\<rparr>"

end
