(* ===== verification/Orders.thy ===== *)
theory Orders
  imports OrderModels Payments PrintTasks Pricing Paper
begin

text \<open>
  \<^verbatim>\<open>orders/quotes.py\<close>, \<^verbatim>\<open>service.py\<close> and \<^verbatim>\<open>refunds.py\<close>: what an order costs, placing it, paying for it
  in one commit with its print tasks, how it follows its prints, and how it ends. An operation that
  changes an order hands back the row as it left it; a refusal carries no state, because the
  request that raised is rolled back.
\<close>

section \<open>Quotes\<close>

definition FEE_RATE :: rat where
  "FEE_RATE = 2 / 100"

definition FEE_CAP_INR :: rat where
  "FEE_CAP_INR = 2"

definition EMPTY_ORDER :: string where
  "EMPTY_ORDER = ''There is nothing in this order.''"

definition gateway_fee :: "rat \<Rightarrow> rat" where
  "gateway_fee subtotal = as_money (min (as_money subtotal * FEE_RATE) FEE_CAP_INR)"

record line_quote =
  lq_impressions :: int
  lq_sheets :: int
  lq_amount_inr :: rat
  lq_page_count :: int

definition rates :: "print_opts \<Rightarrow> (string \<Rightarrow> rat) \<Rightarrow> rat \<times> rat" where
  "rates options prices =
     (let colour = (if po_colour options then ''color'' else ''bw'')
      in (as_money (prices (colour @ ''_double'')), as_money (prices (colour @ ''_single''))))"

definition quote_line :: "print_opts \<Rightarrow> int \<Rightarrow> (string \<Rightarrow> rat) \<Rightarrow> line_quote result" where
  "quote_line options total_pages prices =
     bind_res (workload_of options total_pages) (\<lambda>load.
       let (both_sides, one_side) = rates options prices;
           amount = both_sides * of_int (wl_sheets_both_sides load) + one_side * of_int (wl_sheets_one_side load)
       in Inr \<lparr>lq_impressions = wl_impressions load, lq_sheets = wl_sheets load,
               lq_amount_inr = as_money amount, lq_page_count = wl_pages load\<rparr>)"

record order_quote =
  oq_lines :: "line_quote list"
  oq_subtotal_inr :: rat
  oq_fee_inr :: rat
  oq_total_inr :: rat

definition build_quote :: "line_quote list \<Rightarrow> bool \<Rightarrow> order_quote result" where
  "build_quote lines pays_by_wallet =
     (if lines = [] then Inl (BadRequest EMPTY_ORDER)
      else let subtotal = sum_money (map lq_amount_inr lines);
               fee = (if pays_by_wallet then 0 else gateway_fee subtotal)
           in Inr \<lparr>oq_lines = lines, oq_subtotal_inr = subtotal, oq_fee_inr = fee,
                   oq_total_inr = as_money (subtotal + fee)\<rparr>)"

section \<open>Placing\<close>

definition ORDER_LIFETIME :: datetime where
  "ORDER_LIFETIME = minutes 20"

definition NOT_ACCEPTING_ORDERS :: string where
  "NOT_ACCEPTING_ORDERS = ''This kiosk is not accepting orders at the moment.''"

definition WALLET_NOT_ACCEPTED :: string where
  "WALLET_NOT_ACCEPTED = ''This kiosk does not accept wallet payments. Pay by card or UPI.''"

definition NOT_YOUR_DOCUMENT :: string where
  "NOT_YOUR_DOCUMENT = ''That document is not yours, or is no longer available.''"

definition NOT_PRINTABLE :: string where
  "NOT_PRINTABLE = ''That document is no longer available. Please upload it again.''"

definition NOT_ENOUGH_PAPER :: string where
  "NOT_ENOUGH_PAPER = ''This kiosk does not have enough paper for that job right now. Try a smaller job or another kiosk.''"

definition COLOUR_NOT_OFFERED :: string where
  "COLOUR_NOT_OFFERED = ''This shop is not printing in colour at the moment. Choose black and white, or pick another shop.''"

definition ALREADY_PAID :: string where
  "ALREADY_PAID = ''That order has already been paid for.''"

definition ORDER_NOT_OPEN :: string where
  "ORDER_NOT_OPEN = ''That order is no longer open for payment.''"

definition ORDER_EXPIRED :: string where
  "ORDER_EXPIRED = ''That order expired before it was paid. Please place it again.''"

definition WRONG_METHOD :: string where
  "WRONG_METHOD = ''That order was not set up to be paid from your wallet.''"

definition NOT_PARTLY_FAILED :: string where
  "NOT_PARTLY_FAILED = ''Only an order that partly failed can be marked as printed.''"

definition MONEY_GIVEN_BACK :: string where
  "MONEY_GIVEN_BACK = ''Money has already been given back on this order, so it cannot be marked as printed.''"

definition NOTHING_TO_CONFIRM :: string where
  "NOTHING_TO_CONFIRM = ''Nothing on this order is marked as failed, so there is nothing to confirm. A cancelled print never reached the printer.''"

record requested_document =
  rq_document :: document
  rq_options :: print_opts

definition sheets_available :: "kiosk \<Rightarrow> 'a orders_db_scheme \<Rightarrow> int \<times> 'a orders_db_scheme" where
  "sheets_available k db =
     (let (remaining, db1) = sheets_remaining k db in (max 0 (remaining - committed_sheets (ki_id k) db1), db1))"

definition check_document :: "document \<Rightarrow> user \<Rightarrow> unit result" where
  "check_document d u =
     (if do_user_id d \<noteq> us_id u then Inl (BadRequest NOT_YOUR_DOCUMENT)
      else if do_state d \<noteq> READY then Inl (BadRequest NOT_PRINTABLE)
      else Inr ())"

definition quote_request :: "user \<Rightarrow> (string \<Rightarrow> rat) \<Rightarrow> requested_document \<Rightarrow> line_quote result" where
  "quote_request u prices r =
     bind_res (check_document (rq_document r) u) (\<lambda>_.
       quote_line (rq_options r) (case do_page_count (rq_document r) of Some n \<Rightarrow> n | None \<Rightarrow> 0) prices)"

fun gateway_value :: "gateway \<Rightarrow> string" where
  "gateway_value PLATFORM_GATEWAY = ''platform_gateway''"
| "gateway_value OWNER_GATEWAY = ''owner_gateway''"
| "gateway_value CLOSED = ''closed''"

definition item_for :: "nat \<Rightarrow> int \<Rightarrow> requested_document \<Rightarrow> line_quote \<Rightarrow> 'a orders_db_scheme \<Rightarrow> order_item" where
  "item_for order_id position r line db =
     \<lparr>oi_id = fresh_key oi_id (order_items db), oi_order_id = order_id, oi_position = position,
      oi_kind = DOCUMENT_ITEM, oi_document_id = Some (do_id (rq_document r)), oi_colour = po_colour (rq_options r),
      oi_duplex = po_duplex (rq_options r), oi_copies = po_copies (rq_options r),
      oi_page_range = po_page_range (rq_options r), oi_page_count = lq_page_count line,
      oi_impressions = lq_impressions line, oi_sheets = lq_sheets line, oi_amount_inr = lq_amount_inr line,
      oi_created_at = tx_now db\<rparr>"

fun add_items ::
  "nat \<Rightarrow> int \<Rightarrow> (requested_document \<times> line_quote) list \<Rightarrow> 'a orders_db_scheme \<Rightarrow> 'a orders_db_scheme" where
  "add_items order_id position [] db = db"
| "add_items order_id position ((r, line) # rest) db =
     add_items order_id (position + 1) rest
       (db\<lparr>order_items := order_items db @ [item_for order_id position r line db]\<rparr>)"

definition place_order ::
  "user \<Rightarrow> kiosk \<Rightarrow> requested_document list \<Rightarrow> payment_method \<Rightarrow> datetime \<Rightarrow> 'a orders_db_scheme \<Rightarrow>
   (order \<times> 'a orders_db_scheme) result" where
  "place_order u k requests meth now db =
     (let gw = kiosk_payment_gate now db k in
      if gw = CLOSED then Inl (BadRequest NOT_ACCEPTING_ORDERS)
      else if meth = BY_WALLET \<and> \<not> wallet_may_be_spent now db k then Inl (BadRequest WALLET_NOT_ACCEPTED)
      else if \<not> ki_offers_colour k \<and> list_ex (\<lambda>r. po_colour (rq_options r)) requests
      then Inl (BadRequest COLOUR_NOT_OFFERED)
      else
        bind_res (map_res (quote_request u (effective_prices k)) requests) (\<lambda>lines.
        bind_res (build_quote lines (meth = BY_WALLET)) (\<lambda>q.
          let needed = sum_list (map lq_sheets (oq_lines q));
              (available, db1) = sheets_available k db in
          if available < needed then Inl (BadRequest NOT_ENOUGH_PAPER)
          else
            let (pid, db2) = mint ORDER db1;
                r = \<lparr>or_id = fresh_key or_id (orders db), or_public_id = pid, or_user_id = us_id u,
                     or_kiosk_id = ki_id k, or_state = AWAITING_PAYMENT, or_subtotal_inr = oq_subtotal_inr q,
                     or_fee_inr = oq_fee_inr q, or_total_inr = oq_total_inr q, or_payment_method = Some meth,
                     or_gateway = Some (gateway_value gw), or_payment_reference = None,
                     or_expires_at = Some (now + ORDER_LIFETIME), or_paid_at = None, or_refunded_at = None,
                     or_completed_at = None, or_created_at = tx_now db\<rparr>
            in Inr (r, add_items (or_id r) 0 (zip requests (oq_lines q)) (db2\<lparr>orders := orders db @ [r]\<rparr>)))))"

section \<open>Paying\<close>

definition require_payable :: "order \<Rightarrow> datetime \<Rightarrow> unit result" where
  "require_payable r now =
     (if or_state r = PAID \<or> or_state r = DISPATCHED then Inl (Conflict ALREADY_PAID)
      else if or_state r \<in> SETTLED_ORDER_STATES then Inl (Conflict ORDER_NOT_OPEN)
      else if or_state r \<noteq> AWAITING_PAYMENT then Inl (Conflict ORDER_NOT_OPEN)
      else case or_expires_at r of
        Some e \<Rightarrow> if e \<le> now then Inl (Conflict ORDER_EXPIRED) else Inr ()
      | None \<Rightarrow> Inr ())"

definition item_options :: "order_item \<Rightarrow> print_opts" where
  "item_options i = \<lparr>po_colour = oi_colour i, po_duplex = oi_duplex i, po_copies = oi_copies i,
     po_page_range = oi_page_range i\<rparr>"

fun enqueue_items ::
  "nat \<Rightarrow> order_item list \<Rightarrow> 'a orders_db_scheme \<Rightarrow> (print_task list \<times> 'a orders_db_scheme) result" where
  "enqueue_items kiosk_id [] db = Inr ([], db)"
| "enqueue_items kiosk_id (i # rest) db =
     (if oi_kind i = DOCUMENT_ITEM \<and> oi_document_id i \<noteq> None
      then bind_res (enqueue_task (the (oi_document_id i)) kiosk_id (item_options i) (oi_page_count i) (oi_position i) db)
             (\<lambda>(t, db1). bind_res (enqueue_items kiosk_id rest db1) (\<lambda>(ts, db2). Inr (t # ts, db2)))
      else enqueue_items kiosk_id rest db)"

definition mark_paid ::
  "order \<Rightarrow> string option \<Rightarrow> datetime \<Rightarrow> 'a orders_db_scheme \<Rightarrow>
   (print_task list \<times> order \<times> 'a orders_db_scheme) result" where
  "mark_paid r reference now db =
     bind_res (require_payable r now) (\<lambda>_.
       let r' = r\<lparr>or_state := PAID, or_paid_at := Some now, or_payment_reference := reference\<rparr> in
       bind_res (enqueue_items (or_kiosk_id r) (items_of (or_id r) db) (save_order r' db)) (\<lambda>(ts, db1).
         Inr (ts, r', db1)))"

definition pay_with_wallet ::
  "order \<Rightarrow> datetime \<Rightarrow> 'a orders_db_scheme \<Rightarrow> (print_task list \<times> order \<times> 'a orders_db_scheme) result" where
  "pay_with_wallet r now db =
     bind_res (require_payable r now) (\<lambda>_.
       if or_payment_method r \<noteq> Some BY_WALLET then Inl (BadRequest WRONG_METHOD)
       else
         bind_res (debit (or_user_id r) (or_total_inr r) (or_public_id r)
                     (Some (''printing at kiosk '' @ show_nat (or_kiosk_id r))) db) (\<lambda>(_, db1).
         bind_res (record_wallet_payment (or_user_id r) PRINT_ORDER (or_total_inr r) (Some (or_kiosk_id r))
                     (Some (or_id r)) now db1) (\<lambda>(_, db2).
           mark_paid r (Some (or_public_id r)) now db2)))"

definition settle_paid_order ::
  "nat option \<Rightarrow> string option \<Rightarrow> datetime \<Rightarrow> 'a orders_db_scheme \<Rightarrow>
   (print_task list \<times> 'a orders_db_scheme) result" where
  "settle_paid_order order_id reference now db =
     (case order_id of
        None \<Rightarrow> Inr ([], db)
      | Some i \<Rightarrow>
          (case order_row i db of
             None \<Rightarrow> Inr ([], db)
           | Some r \<Rightarrow> bind_res (mark_paid r reference now db) (\<lambda>(ts, _, db1). Inr (ts, db1))))"

section \<open>Following the prints\<close>

definition documents_of_order :: "order \<Rightarrow> 'a orders_db_scheme \<Rightarrow> nat list" where
  "documents_of_order r db = List.map_filter oi_document_id (items_of (or_id r) db)"

definition state_from_prints :: "task_state list \<Rightarrow> order_state" where
  "state_from_prints states =
     (if list_ex (\<lambda>s. s \<notin> TERMINAL_TASK_STATES) states then DISPATCHED
      else if list_all (\<lambda>s. s = PRINTED) states then COMPLETED
      else PARTIALLY_FAILED)"

definition derive_from_prints :: "order \<Rightarrow> 'a orders_db_scheme \<Rightarrow> order \<times> 'a orders_db_scheme" where
  "derive_from_prints r db =
     (let states = task_states_at (documents_of_order r db) (or_kiosk_id r) (or_created_at r) db in
      if states = [] then (r, db)
      else let r' = r\<lparr>or_state := state_from_prints states\<rparr> in (r', save_order r' db))"

text \<open>\<^verbatim>\<open>ORDER BY paid_at DESC\<close>: Postgres sorts NULL first.\<close>

definition newest_paid_key :: "order option \<Rightarrow> int \<times> int" where
  "newest_paid_key r =
     (case r of None \<Rightarrow> (0, 0) | Some r \<Rightarrow> (case or_paid_at r of None \<Rightarrow> (0, 0) | Some t \<Rightarrow> (1, - t)))"

definition order_in_flight :: "nat \<Rightarrow> nat \<Rightarrow> 'a orders_db_scheme \<Rightarrow> order_item list" where
  "order_in_flight document_id kiosk_id db =
     sort_key (\<lambda>i. newest_paid_key (order_row (oi_order_id i) db))
       (filter (\<lambda>i. oi_document_id i = Some document_id \<and>
          (case order_row (oi_order_id i) db of
             None \<Rightarrow> False
           | Some r \<Rightarrow> or_kiosk_id r = kiosk_id \<and> (or_state r = PAID \<or> or_state r = DISPATCHED))) (order_items db))"

definition refresh_order_state ::
  "nat \<Rightarrow> nat \<Rightarrow> 'a orders_db_scheme \<Rightarrow> order option \<times> 'a orders_db_scheme" where
  "refresh_order_state document_id kiosk_id db =
     (case order_in_flight document_id kiosk_id db of
        [] \<Rightarrow> (None, db)
      | i # _ \<Rightarrow>
          (case order_row (oi_order_id i) db of
             None \<Rightarrow> (None, db)
           | Some r \<Rightarrow> let (r', db1) = derive_from_prints r db in (Some r', db1)))"

definition confirm_order_printed ::
  "'a orders_db_scheme paper_ledger \<Rightarrow> order \<Rightarrow> datetime \<Rightarrow> 'a orders_db_scheme \<Rightarrow>
   (confirmed_print list \<times> order \<times> 'a orders_db_scheme) result" where
  "confirm_order_printed consume r now db =
     (if or_state r \<noteq> PARTIALLY_FAILED then Inl (Conflict NOT_PARTLY_FAILED)
      else if (case payment_for_order (or_id r) db of Some p \<Rightarrow> 0 < py_refunded_inr p | None \<Rightarrow> False)
      then Inl (Conflict MONEY_GIVEN_BACK)
      else
        bind_res (confirm_failed_prints consume (documents_of_order r db) (or_kiosk_id r) (or_created_at r) now db)
          (\<lambda>(confirmed, db1).
            if confirmed = [] then Inl (Conflict NOTHING_TO_CONFIRM)
            else let (r', db2) = derive_from_prints r db1 in Inr (confirmed, r', db2)))"

section \<open>How an order ends\<close>

definition is_stale :: "datetime \<Rightarrow> order \<Rightarrow> bool" where
  "is_stale now r \<longleftrightarrow> or_state r = AWAITING_PAYMENT \<and> (case or_expires_at r of None \<Rightarrow> False | Some e \<Rightarrow> e \<le> now)"

definition expire_stale_orders :: "datetime \<Rightarrow> 'a orders_db_scheme \<Rightarrow> order list \<times> 'a orders_db_scheme" where
  "expire_stale_orders now db =
     (map (\<lambda>r. r\<lparr>or_state := ORD_EXPIRED\<rparr>) (filter (is_stale now) (orders db)),
      db\<lparr>orders := map (\<lambda>r. if is_stale now r then r\<lparr>or_state := ORD_EXPIRED\<rparr> else r) (orders db)\<rparr>)"

definition apply_payment_refund ::
  "nat option \<Rightarrow> rat \<Rightarrow> rat \<Rightarrow> datetime \<Rightarrow> 'a orders_db_scheme \<Rightarrow> order option \<times> 'a orders_db_scheme" where
  "apply_payment_refund order_id refunded paid now db =
     (case order_id of
        None \<Rightarrow> (None, db)
      | Some i \<Rightarrow>
          (case order_row i db of
             None \<Rightarrow> (None, db)
           | Some r \<Rightarrow>
               if as_money refunded < as_money paid then (Some r, db)
               else let r' = r\<lparr>or_state := ORD_REFUNDED, or_refunded_at := Some now\<rparr> in (Some r', save_order r' db)))"

section \<open>What an order is made of\<close>

text \<open>
  The tables' own rules, and that every line was priced: its paper is what the print options and
  the page count it carries come to. Money columns hold whole paise.
\<close>

definition item_priced :: "order_item \<Rightarrow> bool" where
  "item_priced i \<longleftrightarrow> (\<exists>load. workload_of (item_options i) (oi_page_count i) = Inr load
     \<and> oi_sheets i = wl_sheets load \<and> oi_impressions i = wl_impressions load) \<and> is_money (oi_amount_inr i)"

definition orders_ok :: "'a orders_db_scheme \<Rightarrow> bool" where
  "orders_ok db \<longleftrightarrow> distinct (map or_id (orders db)) \<and> distinct (map oi_id (order_items db))
     \<and> oi_order_id ` set (order_items db) \<subseteq> or_id ` set (orders db)
     \<and> (\<forall>i \<in> set (order_items db). item_priced i) \<and> (\<forall>r \<in> set (orders db). is_money (or_total_inr r))"

definition item_matches :: "nat \<Rightarrow> requested_document \<times> line_quote \<Rightarrow> order_item \<Rightarrow> bool" where
  "item_matches order_id rl i \<longleftrightarrow> (case rl of (r, line) \<Rightarrow>
     oi_order_id i = order_id \<and> oi_kind i = DOCUMENT_ITEM \<and> oi_document_id i = Some (do_id (rq_document r))
     \<and> item_options i = rq_options r \<and> oi_page_count i = lq_page_count line
     \<and> oi_impressions i = lq_impressions line \<and> oi_sheets i = lq_sheets line \<and> oi_amount_inr i = lq_amount_inr line)"

lemma add_items_effect:
  "\<exists>new. add_items order_id p rls db = db\<lparr>order_items := order_items db @ new\<rparr>
     \<and> list_all2 (item_matches order_id) rls new
     \<and> map oi_position new = map (\<lambda>n. p + int n) [0..<length rls]
     \<and> (distinct (map oi_id (order_items db)) \<longrightarrow> distinct (map oi_id (order_items db @ new)))"
proof (induction rls arbitrary: p db)
  case (Cons rl rls)
  obtain r line where rl: "rl = (r, line)" by fastforce
  define i where "i = item_for order_id p r line db"
  define db1 where "db1 = db\<lparr>order_items := order_items db @ [i]\<rparr>"
  from Cons[of "p + 1" db1] obtain new where new: "add_items order_id (p + 1) rls db1 = db1\<lparr>order_items := order_items db1 @ new\<rparr>"
    "list_all2 (item_matches order_id) rls new" "map oi_position new = map (\<lambda>n. p + 1 + int n) [0..<length rls]"
    "distinct (map oi_id (order_items db1)) \<longrightarrow> distinct (map oi_id (order_items db1 @ new))" by blast
  have "item_matches order_id rl i" by (simp add: rl i_def item_matches_def item_for_def item_options_def)
  moreover have "map oi_position (i # new) = map (\<lambda>n. p + int n) [0..<length (rl # rls)]"
    using new(3) by (simp add: upt_conv_Cons map_Suc_upt[symmetric] i_def item_for_def comp_def algebra_simps del: upt_Suc)
  moreover have "distinct (map oi_id (order_items db)) \<longrightarrow> distinct (map oi_id (order_items db1))"
    using fresh_key_notin[of oi_id "order_items db"] by (simp add: db1_def i_def item_for_def)
  ultimately show ?case using new
    by (intro exI[of _ "i # new"]) (auto simp: rl db1_def i_def)
qed simp

lemma quote_line_exact:
  assumes "quote_line options n prices = Inr line"
  shows "\<exists>load. workload_of options n = Inr load \<and> lq_sheets line = wl_sheets load \<and> lq_impressions line = wl_impressions load
     \<and> lq_page_count line = n \<and> lq_amount_inr line = as_money (prices (if po_colour options then ''color_double'' else ''bw_double'')) * of_int (wl_sheets_both_sides load)
        + as_money (prices (if po_colour options then ''color_single'' else ''bw_single'')) * of_int (wl_sheets_one_side load)"
proof -
  from assms obtain load where l: "workload_of options n = Inr load" by (auto simp: quote_line_def bind_res_Inr_iff)
  then have "wl_pages load = n" by (auto simp: workload_of_def bind_res_Inr_iff Let_def)
  with l assms show ?thesis by (auto simp: quote_line_def rates_def Let_def is_money_add)
qed

lemma quote_line_money: "quote_line options n prices = Inr line \<Longrightarrow> is_money (lq_amount_inr line)"
proof -
  assume "quote_line options n prices = Inr line"
  then obtain v where "lq_amount_inr line = as_money v"
    by (cases "rates options prices") (fastforce simp: quote_line_def bind_res_Inr_iff Let_def)
  then show ?thesis by simp
qed

lemma build_quote_exact:
  assumes "build_quote lines w = Inr q" and "\<forall>l \<in> set lines. is_money (lq_amount_inr l)"
  shows "oq_lines q = lines \<and> lines \<noteq> [] \<and> oq_subtotal_inr q = sum_list (map lq_amount_inr lines)
    \<and> oq_fee_inr q = (if w then 0 else gateway_fee (oq_subtotal_inr q))
    \<and> oq_total_inr q = oq_subtotal_inr q + oq_fee_inr q \<and> is_money (oq_total_inr q)"
proof -
  have sub: "is_money (sum_list (map lq_amount_inr lines))" using assms(2) by (intro is_money_sum_list) auto
  have "is_money (if w then 0 else gateway_fee s)" for s by (simp add: gateway_fee_def)
  then have "is_money (oq_subtotal_inr q + oq_fee_inr q)" using assms sub
    by (auto simp: build_quote_def Let_def sum_money_exact gateway_fee_def split: if_splits)
  with assms sub show ?thesis by (auto simp: build_quote_def Let_def sum_money_exact gateway_fee_def split: if_splits)
qed

lemma gateway_fee_bounds: "0 \<le> s \<Longrightarrow> 0 \<le> gateway_fee s \<and> gateway_fee s \<le> 2 \<and> gateway_fee s \<le> as_money (as_money s * FEE_RATE)"
proof -
  assume "0 \<le> s"
  then have "0 \<le> as_money s * FEE_RATE" by (simp add: as_money_nonneg FEE_RATE_def)
  moreover have "as_money (2::rat) = 2" by (rule as_money_id) simp
  ultimately show ?thesis
    using as_money_mono[of "min (as_money s * FEE_RATE) 2" 2] as_money_mono[of "min (as_money s * FEE_RATE) 2" "as_money s * FEE_RATE"]
      as_money_nonneg[of "min (as_money s * FEE_RATE) 2"]
    by (simp add: gateway_fee_def FEE_CAP_INR_def)
qed

lemma paper_row_frame:
  fixes db :: "'a orders_db_scheme"
  assumes "sheets_available k db = (n, db')"
  shows "orders db' = orders db \<and> order_items db' = order_items db \<and> payments db' = payments db \<and> refunds db' = refunds db
    \<and> print_tasks db' = print_tasks db \<and> wallets db' = wallets db \<and> wallet_entries db' = wallet_entries db
    \<and> n = max 0 (fst (sheets_remaining k db) - committed_sheets (ki_id k) db)"
  using assms
  by (auto simp: sheets_available_def sheets_remaining_def paper_row_def Let_def committed_sheets_def split: option.splits prod.splits)

lemma map_res_quotes:
  assumes "map_res (quote_request u prices) requests = Inr lines"
  shows "list_all2 (\<lambda>r line. do_user_id (rq_document r) = us_id u \<and> do_state (rq_document r) = READY
     \<and> quote_line (rq_options r) (case do_page_count (rq_document r) of Some n \<Rightarrow> n | None \<Rightarrow> 0) prices = Inr line) requests lines"
  using map_res_Inr_all2[OF assms]
  by (rule list_all2_mono) (auto simp: quote_request_def check_document_def bind_res_Inr_iff split: if_splits)

lemma place_order_cases:
  assumes "place_order u k requests meth now db = Inr (r, db')"
  obtains lines q db1 where
    "kiosk_payment_gate now db k \<noteq> CLOSED" "meth = BY_WALLET \<longrightarrow> wallet_may_be_spent now db k"
    "\<not> ki_offers_colour k \<longrightarrow> (\<forall>x \<in> set requests. \<not> po_colour (rq_options x))"
    "map_res (quote_request u (effective_prices k)) requests = Inr lines" "build_quote lines (meth = BY_WALLET) = Inr q"
    "sum_list (map lq_sheets (oq_lines q)) \<le> fst (sheets_available k db)" "db1 = snd (sheets_available k db)"
    "or_id r = fresh_key or_id (orders db)" "or_user_id r = us_id u" "or_kiosk_id r = ki_id k" "or_state r = AWAITING_PAYMENT"
    "or_subtotal_inr r = oq_subtotal_inr q" "or_fee_inr r = oq_fee_inr q" "or_total_inr r = oq_total_inr q"
    "or_payment_method r = Some meth" "or_gateway r = Some (gateway_value (kiosk_payment_gate now db k))"
    "or_expires_at r = Some (now + ORDER_LIFETIME)" "or_created_at r = tx_now db" "or_paid_at r = None"
    "db' = add_items (or_id r) 0 (zip requests (oq_lines q)) ((snd (mint ORDER db1))\<lparr>orders := orders db @ [r]\<rparr>)"
proof -
  from assms obtain lines q where c:
    "kiosk_payment_gate now db k \<noteq> CLOSED" "meth = BY_WALLET \<longrightarrow> wallet_may_be_spent now db k"
    "\<not> ki_offers_colour k \<longrightarrow> (\<forall>x \<in> set requests. \<not> po_colour (rq_options x))"
    and l: "map_res (quote_request u (effective_prices k)) requests = Inr lines"
    and q: "build_quote lines (meth = BY_WALLET) = Inr q"
    by (auto simp: place_order_def Let_def bind_res_Inr_iff list_ex_iff split: if_splits)
  obtain n db1 where av: "sheets_available k db = (n, db1)" by fastforce
  obtain pid db2 where mt: "mint ORDER db1 = (pid, db2)" by fastforce
  have "\<not> (\<not> ki_offers_colour k \<and> list_ex (\<lambda>r. po_colour (rq_options r)) requests)"
    using c(3) by (auto simp: list_ex_iff)
  with assms c(1,2) have "sum_list (map lq_sheets (oq_lines q)) \<le> n \<and> r = \<lparr>or_id = fresh_key or_id (orders db), or_public_id = pid,
      or_user_id = us_id u, or_kiosk_id = ki_id k, or_state = AWAITING_PAYMENT, or_subtotal_inr = oq_subtotal_inr q,
      or_fee_inr = oq_fee_inr q, or_total_inr = oq_total_inr q, or_payment_method = Some meth,
      or_gateway = Some (gateway_value (kiosk_payment_gate now db k)), or_payment_reference = None,
      or_expires_at = Some (now + ORDER_LIFETIME), or_paid_at = None, or_refunded_at = None,
      or_completed_at = None, or_created_at = tx_now db\<rparr>
    \<and> db' = add_items (or_id r) 0 (zip requests (oq_lines q)) (db2\<lparr>orders := orders db @ [r]\<rparr>)"
    by (simp add: place_order_def Let_def l q av mt split: if_splits) (auto simp: not_less)
  with that[OF c l q] av mt show ?thesis by simp
qed

lemma place_order_tables:
  assumes "place_order u k requests meth now db = Inr (r, db')"
  shows "\<exists>q :: order_quote. db' = add_items (or_id r) 0 (zip requests (oq_lines q))
    ((snd (mint ORDER (snd (sheets_available k db))))\<lparr>orders := orders db @ [r]\<rparr>)"
proof (rule place_order_cases[OF assms])
  fix lines and q :: order_quote and db1
  assume a: "db1 = snd (sheets_available k db)"
    and b: "db' = add_items (or_id r) 0 (zip requests (oq_lines q)) ((snd (mint ORDER db1))\<lparr>orders := orders db @ [r]\<rparr>)"
  show ?thesis by (rule exI[of _ q]) (rule b[unfolded a])
qed

text \<open>
  What a line costs, off the shop's own price list: the price the shop set for that colour and side, the
  platform's where it set none (2 and 3 rupees a sheet in black and white, 10 and 20 in colour); both sides of a sheet at the double price, a sheet with one side printed at the
  single one, for each copy of the pages selected.
\<close>

definition listed :: "kiosk \<Rightarrow> bool \<Rightarrow> bool \<Rightarrow> rat" where
  "listed k colour both_sides =
     (if colour
      then (case (if both_sides then ki_price_color_double k else ki_price_color_single k) of
              Some v \<Rightarrow> as_money v | None \<Rightarrow> if both_sides then 20 else 10)
      else (case (if both_sides then ki_price_bw_double k else ki_price_bw_single k) of
              Some v \<Rightarrow> as_money v | None \<Rightarrow> if both_sides then 3 else 2))"

definition line_price :: "kiosk \<Rightarrow> print_opts \<Rightarrow> int \<Rightarrow> rat" where
  "line_price k opts pages =
     of_int (po_copies opts) *
       (if po_duplex opts
        then listed k (po_colour opts) True * of_int (pages div 2) + listed k (po_colour opts) False * of_int (pages mod 2)
        else listed k (po_colour opts) False * of_int pages)"

definition line_sheets :: "print_opts \<Rightarrow> int \<Rightarrow> int" where
  "line_sheets opts pages = po_copies opts * (if po_duplex opts then pages div 2 + pages mod 2 else pages)"

definition priced_by_list :: "kiosk \<Rightarrow> requested_document \<Rightarrow> order_item \<Rightarrow> bool" where
  "priced_by_list k x i \<longleftrightarrow> (\<exists>pages. parse_page_range (po_page_range (rq_options x))
        (case do_page_count (rq_document x) of Some n \<Rightarrow> n | None \<Rightarrow> 0) = Inr pages
     \<and> oi_amount_inr i = line_price k (rq_options x) (int (length pages)) \<and> oi_sheets i = line_sheets (rq_options x) (int (length pages)))"

lemma listed_is_effective:
  "as_money (effective_prices k (if colour then ''color_double'' else ''bw_double'')) = listed k colour True"
  "as_money (effective_prices k (if colour then ''color_single'' else ''bw_single'')) = listed k colour False"
  by (auto simp: effective_prices_def listed_def price_of_def DEFAULT_PRICES_def as_money_id split: option.split)

lemma quoted_by_list:
  assumes "quote_line (rq_options x) (case do_page_count (rq_document x) of Some n \<Rightarrow> n | None \<Rightarrow> 0) (effective_prices k) = Inr line"
    and "oi_amount_inr i = lq_amount_inr line" "oi_sheets i = lq_sheets line"
  shows "priced_by_list k x i"
proof -
  obtain load where l: "workload_of (rq_options x) (case do_page_count (rq_document x) of Some n \<Rightarrow> n | None \<Rightarrow> 0) = Inr load"
    "lq_sheets line = wl_sheets load"
    "lq_amount_inr line = listed k (po_colour (rq_options x)) True * of_int (wl_sheets_both_sides load)
       + listed k (po_colour (rq_options x)) False * of_int (wl_sheets_one_side load)"
    using quote_line_exact[OF assms(1)] unfolding listed_is_effective by blast
  from l(1) obtain pages where "parse_page_range (po_page_range (rq_options x)) (case do_page_count (rq_document x) of Some n \<Rightarrow> n | None \<Rightarrow> 0) = Inr pages"
    "wl_sheets load = line_sheets (rq_options x) (int (length pages))"
    "wl_sheets_both_sides load = (if po_duplex (rq_options x) then int (length pages) div 2 * po_copies (rq_options x) else 0)"
    "wl_sheets_one_side load = (if po_duplex (rq_options x) then int (length pages) mod 2 * po_copies (rq_options x) else int (length pages) * po_copies (rq_options x))"
    by (auto simp: workload_of_def bind_res_Inr_iff Let_def line_sheets_def algebra_simps)
  with l assms(2,3) show ?thesis unfolding priced_by_list_def line_price_def
    by (intro exI[of _ pages]) (auto simp: algebra_simps)
qed

lemma accepted_order_shape:
  assumes "orders_ok db" and "place_order u k requests meth now db = Inr (r, db')"
  shows "orders_ok db' \<and> orders db' = orders db @ [r] \<and> or_state r = AWAITING_PAYMENT
    \<and> or_total_inr r = or_subtotal_inr r + or_fee_inr r
    \<and> or_subtotal_inr r = sum_list (map oi_amount_inr (items_of (or_id r) db'))
    \<and> or_fee_inr r = (if meth = BY_WALLET then 0 else gateway_fee (or_subtotal_inr r))
    \<and> (0 \<le> or_subtotal_inr r \<longrightarrow> 0 \<le> or_fee_inr r \<and> or_fee_inr r \<le> 2)
    \<and> list_all2 (\<lambda>x i. oi_document_id i = Some (do_id (rq_document x)) \<and> item_options i = rq_options x
        \<and> do_user_id (rq_document x) = us_id u \<and> do_state (rq_document x) = READY \<and> priced_by_list k x i) requests (items_of (or_id r) db')
    \<and> sum_list (map oi_sheets (items_of (or_id r) db')) \<le> fst (sheets_available k db)
    \<and> (meth = BY_WALLET \<longrightarrow> kiosk_payment_gate now db k = PLATFORM_GATEWAY)
    \<and> payments db' = payments db \<and> wallets db' = wallets db \<and> print_tasks db' = print_tasks db"
proof -
  from assms(2) obtain lines q db1 where c: "meth = BY_WALLET \<longrightarrow> wallet_may_be_spent now db k"
    and l: "map_res (quote_request u (effective_prices k)) requests = Inr lines"
    and q: "build_quote lines (meth = BY_WALLET) = Inr q"
    and fit: "sum_list (map lq_sheets (oq_lines q)) \<le> fst (sheets_available k db)" and db1: "db1 = snd (sheets_available k db)"
    and r: "or_id r = fresh_key or_id (orders db)" "or_state r = AWAITING_PAYMENT" "or_subtotal_inr r = oq_subtotal_inr q"
      "or_fee_inr r = oq_fee_inr q" "or_total_inr r = oq_total_inr q"
    and db': "db' = add_items (or_id r) 0 (zip requests (oq_lines q)) ((snd (mint ORDER db1))\<lparr>orders := orders db @ [r]\<rparr>)"
    by (rule place_order_cases) (rule that; assumption)
  note quoted = map_res_quotes[OF l]
  have "\<forall>x \<in> set lines. is_money (lq_amount_inr x)"
  proof
    fix x assume "x \<in> set lines"
    then obtain j where j: "j < length lines" "lines ! j = x" by (auto simp: in_set_conv_nth)
    show "is_money (lq_amount_inr x)"
      using list_all2_nthD2[OF quoted j(1)] j(2) quote_line_money by blast
  qed
  note total = build_quote_exact[OF q this]
  obtain n where av: "sheets_available k db = (n, db1)" using db1 by (cases "sheets_available k db") simp
  note frame = paper_row_frame[OF av]
  let ?base = "(snd (mint ORDER db1))\<lparr>orders := orders db @ [r]\<rparr>"
  obtain new where new: "db' = ?base\<lparr>order_items := order_items ?base @ new\<rparr>"
    "list_all2 (item_matches (or_id r)) (zip requests lines) new"
    "map oi_position new = map (\<lambda>n. 0 + int n) [0..<length (zip requests lines)]"
    "distinct (map oi_id (order_items ?base)) \<longrightarrow> distinct (map oi_id (order_items ?base @ new))"
    using add_items_effect[of "or_id r" 0 "zip requests lines" ?base] total by (auto simp: db')
  have tables: "orders db' = orders db @ [r]" "order_items db' = order_items db @ new" "payments db' = payments db"
    "wallets db' = wallets db" "print_tasks db' = print_tasks db"
    using frame by (simp_all add: new(1) mint_def)
  have fresh: "or_id r \<notin> or_id ` set (orders db)" using fresh_key_notin[of or_id "orders db"] r(1) by simp
  moreover have "\<forall>x \<in> set (order_items db). oi_order_id x \<in> or_id ` set (orders db)"
    using assms(1) by (auto simp: orders_ok_def)
  ultimately have "filter (\<lambda>i. oi_order_id i = or_id r) (order_items db) = []"
    by (metis (mono_tags, lifting) filter_False)
  moreover have own: "\<forall>i \<in> set new. oi_order_id i = or_id r"
    using list_all2_nthD2[OF new(2)] by (auto simp: in_set_conv_nth item_matches_def case_prod_beta)
  then have "filter (\<lambda>i. oi_order_id i = or_id r) new = new" by simp
  moreover have "sorted (map oi_position new)" unfolding new(3) by (simp add: sorted_map sorted_wrt_mono_rel[OF _ sorted_wrt_upt])
  ultimately have items: "items_of (or_id r) db' = new"
    by (simp add: items_of_def tables sort_key_id_if_sorted)
  have len: "length requests = length lines" using quoted by (rule list_all2_lengthD)
  have nth: "\<forall>j < length requests. item_matches (or_id r) (requests ! j, lines ! j) (new ! j)" and len_new: "length new = length requests"
    using new(2) len by (simp_all add: list_all2_conv_all_nth)
  have same: "map oi_amount_inr new = map lq_amount_inr lines" "map oi_sheets new = map lq_sheets lines"
    using nth len len_new by (auto simp: item_matches_def intro!: nth_equalityI)
  have priced: "\<forall>i \<in> set new. item_priced i"
  proof
    fix i assume "i \<in> set new"
    then obtain j where j: "j < length requests" "i = new ! j" using len_new by (auto simp: in_set_conv_nth)
    then have m: "item_matches (or_id r) (requests ! j, lines ! j) i" using nth by simp
    have "quote_line (rq_options (requests ! j)) (case do_page_count (rq_document (requests ! j)) of Some n \<Rightarrow> n | None \<Rightarrow> 0)
        (effective_prices k) = Inr (lines ! j)" using quoted j by (simp add: list_all2_conv_all_nth)
    from quote_line_exact[OF this] \<open>\<forall>x \<in> set lines. is_money (lq_amount_inr x)\<close> j len m
    show "item_priced i" by (auto simp: item_priced_def item_matches_def)
  qed
  have "orders_ok db'"
    using assms(1) fresh own priced total new(4) frame r(5)
    by (auto simp: orders_ok_def tables mint_def)
  moreover have "list_all2 (\<lambda>x i. oi_document_id i = Some (do_id (rq_document x)) \<and> item_options i = rq_options x
        \<and> do_user_id (rq_document x) = us_id u \<and> do_state (rq_document x) = READY \<and> priced_by_list k x i) requests new"
    using nth len_new quoted by (auto simp: list_all2_conv_all_nth item_matches_def intro!: quoted_by_list)
  moreover have "meth = BY_WALLET \<longrightarrow> kiosk_payment_gate now db k = PLATFORM_GATEWAY"
    using c by (auto simp: wallet_may_be_spent_def split: if_splits)
  moreover have "0 \<le> or_subtotal_inr r \<longrightarrow> 0 \<le> or_fee_inr r \<and> or_fee_inr r \<le> 2"
    using total r gateway_fee_bounds[of "or_subtotal_inr r"] by simp
  ultimately show ?thesis
    using total r fit items same tables by simp
qed

text \<open>
  C5. An order that is accepted adds up and can be printed: its subtotal is the sum of its lines,
  its total the subtotal and a fee between nothing and two rupees that a wallet never pays; there is
  one line per document, in the order they were asked for, each of a ready document of the student,
  with the options asked for, priced off the shop's list by the sheets it takes with two sides and with one; what it needs fits what is left of the
  tray; wallet money is only taken where the platform collects; and nothing was charged or queued.
\<close>

theorem accepted_order_adds_up:
  assumes "orders_ok db" and "place_order u k requests meth now db = Inr (r, db')"
  shows "orders_ok db' \<and> orders db' = orders db @ [r] \<and> or_state r = AWAITING_PAYMENT
    \<and> or_total_inr r = or_subtotal_inr r + or_fee_inr r
    \<and> or_subtotal_inr r = sum_list (map oi_amount_inr (items_of (or_id r) db'))
    \<and> or_fee_inr r = (if meth = BY_WALLET then 0 else gateway_fee (or_subtotal_inr r))
    \<and> (0 \<le> or_subtotal_inr r \<longrightarrow> 0 \<le> or_fee_inr r \<and> or_fee_inr r \<le> 2)
    \<and> list_all2 (\<lambda>x i. oi_document_id i = Some (do_id (rq_document x)) \<and> item_options i = rq_options x
        \<and> do_user_id (rq_document x) = us_id u \<and> do_state (rq_document x) = READY \<and> priced_by_list k x i) requests (items_of (or_id r) db')
    \<and> sum_list (map oi_sheets (items_of (or_id r) db')) \<le> fst (sheets_available k db)
    \<and> (meth = BY_WALLET \<longrightarrow> kiosk_payment_gate now db k = PLATFORM_GATEWAY)
    \<and> payments db' = payments db \<and> wallets db' = wallets db \<and> print_tasks db' = print_tasks db"
  by (rule accepted_order_shape[OF assms])

definition platform_kiosk :: kiosk where
  "platform_kiosk = priced_kiosk\<lparr>ki_type := PLATFORM, ki_stage := LIVE\<rparr>"

definition student :: user where
  "student = \<lparr>us_id = 2, us_public_id = ''usr_2'', us_email = ''a@b.c'', us_hashed_password = [], us_full_name = None,
     us_is_active = True, us_is_guest = False, us_email_verified = True, us_created_at = 0\<rparr>"

definition essay :: document where
  "essay = \<lparr>do_id = 1, do_public_id = ''doc_1'', do_user_id = 2, do_original_filename = ''a.pdf'',
     do_original_path = None, do_normalised_path = None, do_page_count = Some 3, do_byte_size = None,
     do_state = READY, do_rejection_reason = None, do_created_at = 0\<rparr>"

definition essay_request :: requested_document where
  "essay_request = \<lparr>rq_document = essay, rq_options = \<lparr>po_colour = False, po_duplex = True, po_copies = 2, po_page_range = None\<rparr>\<rparr>"

lemma essay_ordered: "\<not> isl (place_order student platform_kiosk [essay_request] BY_GATEWAY 0 orders_blank)"
  by code_simp

theorem accepted_order_adds_up_witness:
  "\<exists>r db'. place_order student platform_kiosk [essay_request] BY_GATEWAY 0 orders_blank = Inr (r, db')
     \<and> or_total_inr r = or_subtotal_inr r + or_fee_inr r \<and> length (items_of (or_id r) db') = 1"
proof -
  obtain r db' where p: "place_order student platform_kiosk [essay_request] BY_GATEWAY 0 orders_blank = Inr (r, db')"
    using essay_ordered by (cases "place_order student platform_kiosk [essay_request] BY_GATEWAY 0 orders_blank") auto
  have "orders_ok orders_blank" by (simp add: orders_ok_def orders_blank_def)
  from accepted_order_adds_up[OF this p] have "or_total_inr r = or_subtotal_inr r + or_fee_inr r"
    "list_all2 (\<lambda>x i. oi_document_id i = Some (do_id (rq_document x)) \<and> item_options i = rq_options x
        \<and> do_user_id (rq_document x) = us_id student \<and> do_state (rq_document x) = READY \<and> priced_by_list platform_kiosk x i)
      [essay_request] (items_of (or_id r) db')"
    by blast+
  with p list_all2_lengthD show ?thesis by fastforce
qed

section \<open>Paid means printing\<close>

definition item_queued :: "nat \<Rightarrow> order_item \<Rightarrow> print_task \<Rightarrow> bool" where
  "item_queued kiosk_id i t \<longleftrightarrow> Some (tk_document_id t) = oi_document_id i \<and> tk_kiosk_id t = kiosk_id \<and> tk_state t = QUEUED
     \<and> tk_position t = oi_position i \<and> tk_colour t = oi_colour i \<and> tk_duplex t = oi_duplex i \<and> tk_copies t = oi_copies i
     \<and> tk_page_range t = oi_page_range i \<and> tk_predicted_sheets t = oi_sheets i"

definition printable :: "order_item \<Rightarrow> bool" where
  "printable i \<longleftrightarrow> oi_kind i = DOCUMENT_ITEM \<and> oi_document_id i \<noteq> None"

definition queued_onto :: "print_task list \<Rightarrow> 'a orders_db_scheme \<Rightarrow> 'a orders_db_scheme \<Rightarrow> bool" where
  "queued_onto ts db db' \<longleftrightarrow> (\<exists>d w. db' = db\<lparr>drawn := d, print_tasks := print_tasks db @ ts, kiosks_to_wake := w\<rparr>)"

lemma queued_onto_Cons:
  assumes "queued_onto [t] db db1" and "queued_onto ts db1 db2"
  shows "queued_onto (t # ts) db db2"
proof -
  from assms(1) obtain d w where db1: "db1 = db\<lparr>drawn := d, print_tasks := print_tasks db @ [t], kiosks_to_wake := w\<rparr>"
    by (auto simp: queued_onto_def)
  from assms(2) obtain e v where "db2 = db1\<lparr>drawn := e, print_tasks := print_tasks db1 @ ts, kiosks_to_wake := v\<rparr>"
    by (auto simp: queued_onto_def)
  then have "db2 = db\<lparr>drawn := e, print_tasks := print_tasks db @ t # ts, kiosks_to_wake := v\<rparr>" by (simp add: db1)
  then show ?thesis unfolding queued_onto_def by blast
qed

lemma enqueue_task_effect:
  assumes "item_priced i" and "oi_document_id i = Some d"
  shows "\<exists>t db'. enqueue_task d kiosk_id (item_options i) (oi_page_count i) (oi_position i) db = Inr (t, db')
     \<and> item_queued kiosk_id i t \<and> queued_onto [t] db db'"
proof -
  obtain load where l: "workload_of (item_options i) (oi_page_count i) = Inr load" "oi_sheets i = wl_sheets load"
    using assms(1) by (auto simp: item_priced_def)
  obtain pid db1 where m: "mint PRINT_TASK db = (pid, db1)" by fastforce
  then have "\<exists>d. db1 = db\<lparr>drawn := d\<rparr>" by (auto simp: mint_def)
  with l m assms(2) show ?thesis
    by (auto simp: enqueue_task_def item_queued_def item_options_def queued_onto_def mark_for_wake_def Let_def)
qed

lemma enqueue_items_effect:
  assumes "\<forall>i \<in> set items. item_priced i"
  shows "\<exists>ts db'. enqueue_items kiosk_id items db = Inr (ts, db')
     \<and> list_all2 (item_queued kiosk_id) (filter printable items) ts \<and> queued_onto ts db db'"
  using assms
proof (induction items arbitrary: db)
  case Nil
  show ?case by (auto simp: queued_onto_def intro!: exI[of _ "drawn db"] exI[of _ "kiosks_to_wake db"])
next
  case (Cons i items)
  show ?case
  proof (cases "printable i")
    case True
    then obtain d where d: "oi_document_id i = Some d" "oi_kind i = DOCUMENT_ITEM" by (auto simp: printable_def)
    from enqueue_task_effect[OF _ d(1), of kiosk_id db] Cons.prems obtain t db1 where
      t: "enqueue_task d kiosk_id (item_options i) (oi_page_count i) (oi_position i) db = Inr (t, db1)"
        "item_queued kiosk_id i t" "queued_onto [t] db db1" by auto
    from Cons.IH[of db1] Cons.prems obtain ts db2 where
      ts: "enqueue_items kiosk_id items db1 = Inr (ts, db2)" "list_all2 (item_queued kiosk_id) (filter printable items) ts"
        "queued_onto ts db1 db2" by auto
    have "queued_onto (t # ts) db db2" by (rule queued_onto_Cons[OF t(3) ts(3)])
    with t ts d True show ?thesis by auto
  next
    case False
    with Cons show ?thesis by (auto simp: printable_def)
  qed
qed

lemma require_payable_ok_iff:
  "require_payable r now = Inr u \<longleftrightarrow> or_state r = AWAITING_PAYMENT \<and> (\<forall>e. or_expires_at r = Some e \<longrightarrow> now < e)"
  by (auto simp: require_payable_def SETTLED_ORDER_STATES_def split: option.splits)

definition paid_row :: "order \<Rightarrow> string option \<Rightarrow> datetime \<Rightarrow> order" where
  "paid_row r reference now = r\<lparr>or_state := PAID, or_paid_at := Some now, or_payment_reference := reference\<rparr>"

lemma items_of_priced: "orders_ok db \<Longrightarrow> \<forall>i \<in> set (items_of o_id db). item_priced i"
  by (auto simp: items_of_def orders_ok_def)

text \<open>
  The one commit: an order that may be paid becomes PAID with one queued task per document, and
  that never fails.
\<close>

lemma mark_paid_effect:
  assumes "orders_ok db" and "require_payable r now = Inr ()"
  shows "\<exists>ts db'. mark_paid r reference now db = Inr (ts, paid_row r reference now, db')
     \<and> list_all2 (item_queued (or_kiosk_id r)) (filter printable (items_of (or_id r) db)) ts
     \<and> queued_onto ts (save_order (paid_row r reference now) db) db'"
  using enqueue_items_effect[OF items_of_priced[OF assms(1), of "or_id r"], of "or_kiosk_id r" "save_order (paid_row r reference now) db"]
    assms(2)
  by (auto simp: mark_paid_def Let_def paid_row_def)

lemma mark_paid_refused: "require_payable r now = Inl e \<Longrightarrow> mark_paid r reference now db = Inl e"
  by (simp add: mark_paid_def)

lemma payable_refusal: "require_payable r now = Inl e \<Longrightarrow> \<exists>d. e = Conflict d"
  by (auto simp: require_payable_def split: if_splits option.splits)

lemma debit_frame:
  fixes db :: "'a orders_db_scheme"
  assumes "debit u amount ref note db = Inr (e, db')"
  shows "orders db' = orders db \<and> order_items db' = order_items db \<and> print_tasks db' = print_tasks db
    \<and> payments db' = payments db \<and> refunds db' = refunds db"
  using assms
  by (auto simp: debit_def move_def Let_def mint_def split: option.splits if_splits)

lemma record_wallet_payment_effect:
  fixes db :: "'a orders_db_scheme"
  shows "\<exists>p db'. record_wallet_payment u kind amount k o_id now db = Inr (p, db')
    \<and> payments db' = payments db @ [p] \<and> py_amount_inr p = as_money amount \<and> py_status p = CAPTURED
    \<and> py_source p = SRC_WALLET \<and> py_collecting_user_id p = None \<and> py_order_id p = o_id \<and> py_user_id p = u
    \<and> py_kind p = kind \<and> py_refunded_inr p = 0 \<and> py_captured_at p = Some now \<and> py_id p = fresh_key py_id (payments db)
    \<and> orders db' = orders db \<and> order_items db' = order_items db \<and> print_tasks db' = print_tasks db
    \<and> wallets db' = wallets db \<and> wallet_entries db' = wallet_entries db \<and> refunds db' = refunds db"
  by (simp add: record_wallet_payment_def insert_payment_def mint_def Let_def)

lemma queued_onto_frame:
  "queued_onto ts db db' \<Longrightarrow> orders db' = orders db \<and> order_items db' = order_items db
    \<and> print_tasks db' = print_tasks db @ ts \<and> payments db' = payments db \<and> refunds db' = refunds db
    \<and> wallets db' = wallets db \<and> wallet_entries db' = wallet_entries db"
  by (auto simp: queued_onto_def)

lemma save_order_frame [simp]:
  "order_items (save_order r db) = order_items db" "print_tasks (save_order r db) = print_tasks db"
  "payments (save_order r db) = payments db" "refunds (save_order r db) = refunds db"
  "wallets (save_order r db) = wallets db" "wallet_entries (save_order r db) = wallet_entries db"
  "orders (save_order r db) = put_row or_id r (orders db)"
  by (simp_all add: save_order_def)

lemma order_row_ok: "orders_ok db \<Longrightarrow> r \<in> set (orders db) \<Longrightarrow> order_row (or_id r) db = Some r"
  by (simp add: order_row_def row_by_distinct orders_ok_def)

lemma items_of_frame: "order_items db' = order_items db \<Longrightarrow> items_of i db' = items_of i db"
  by (simp add: items_of_def)

lemma orders_ok_frame: "orders db' = orders db \<Longrightarrow> order_items db' = order_items db \<Longrightarrow> orders_ok db' = orders_ok db"
  by (simp add: orders_ok_def)

lemma orders_ok_put:
  assumes "orders_ok db" and "orders db' = put_row or_id r (orders db)" and "order_items db' = order_items db"
    and "is_money (or_total_inr r)"
  shows "orders_ok db'"
proof -
  have "or_id ` set (put_row or_id r (orders db)) = or_id ` set (orders db)"
    using map_key_put_row[of or_id r "orders db"] by (metis list.set_map)
  moreover have "\<forall>x \<in> set (put_row or_id r (orders db)). is_money (or_total_inr x)"
    using assms(1,4) set_put_row_subset[of or_id r "orders db"] by (auto simp: orders_ok_def)
  ultimately show ?thesis using assms(1) by (simp add: orders_ok_def assms(2,3) distinct_put_row)
qed

lemma wallet_commit:
  assumes ok: "orders_ok db" "wallets_ok db" "r \<in> set (orders db)"
    and pay: "require_payable r now = Inr ()" "or_payment_method r = Some BY_WALLET"
    and d: "debit (or_user_id r) (or_total_inr r) (or_public_id r) t_note db = Inr (e, db1)"
    and nt: "t_note = Some (''printing at kiosk '' @ show_nat (or_kiosk_id r))"
  shows "\<exists>ts p db'. pay_with_wallet r now db = Inr (ts, paid_row r (Some (or_public_id r)) now, db')
    \<and> list_all2 (item_queued (or_kiosk_id r)) (filter printable (items_of (or_id r) db)) ts
    \<and> print_tasks db' = print_tasks db @ ts \<and> payments db' = payments db @ [p] \<and> py_amount_inr p = or_total_inr r
    \<and> py_status p = CAPTURED \<and> py_source p = SRC_WALLET \<and> py_order_id p = Some (or_id r) \<and> py_kind p = PRINT_ORDER
    \<and> orders db' = put_row or_id (paid_row r (Some (or_public_id r)) now) (orders db) \<and> order_items db' = order_items db
    \<and> wallets db' = wallets db1 \<and> wallet_entries db' = wallet_entries db1"
proof -
  have f1: "orders db1 = orders db" "order_items db1 = order_items db" "print_tasks db1 = print_tasks db" "payments db1 = payments db"
    using debit_frame[OF d] by auto
  obtain p db2 where rp: "record_wallet_payment (or_user_id r) PRINT_ORDER (or_total_inr r) (Some (or_kiosk_id r)) (Some (or_id r)) now db1 = Inr (p, db2)"
    and p: "payments db2 = payments db1 @ [p]" "py_amount_inr p = as_money (or_total_inr r)" "py_status p = CAPTURED" "py_source p = SRC_WALLET"
      "py_order_id p = Some (or_id r)" "py_kind p = PRINT_ORDER"
    and f2: "orders db2 = orders db1" "order_items db2 = order_items db1" "print_tasks db2 = print_tasks db1"
      "wallets db2 = wallets db1" "wallet_entries db2 = wallet_entries db1"
    using record_wallet_payment_effect[of "or_user_id r" PRINT_ORDER "or_total_inr r" "Some (or_kiosk_id r)" "Some (or_id r)" now db1] by blast
  have "orders_ok db2" using ok(1) f1 f2 orders_ok_frame[of db2 db] by simp
  from mark_paid_effect[OF this pay(1), of "Some (or_public_id r)"] obtain ts db3 where
    m: "mark_paid r (Some (or_public_id r)) now db2 = Inr (ts, paid_row r (Some (or_public_id r)) now, db3)"
      "list_all2 (item_queued (or_kiosk_id r)) (filter printable (items_of (or_id r) db2)) ts"
    and q: "queued_onto ts (save_order (paid_row r (Some (or_public_id r)) now) db2) db3" by blast
  have "is_money (or_total_inr r)" using ok by (auto simp: orders_ok_def)
  moreover have "pay_with_wallet r now db = Inr (ts, paid_row r (Some (or_public_id r)) now, db3)"
    using pay d[unfolded nt] rp m(1) by (simp add: pay_with_wallet_def)
  ultimately show ?thesis
    using queued_onto_frame[OF q] m(2) p f1 f2 items_of_frame[of db2 db "or_id r"]
    by (intro exI[of _ ts] exI[of _ p] exI[of _ db3]) simp
qed

text \<open>
  C1. Paying from the wallet is one commit. It is accepted exactly when the order awaits payment, has
  not expired, was set up for the wallet, and its total is positive, covered and not yet debited.
  Then the balance falls by exactly the total and nobody else's moves, one captured payment of that
  total exists for the order, the order is PAID, and exactly one queued task exists for each of
  its documents, with the options and the paper that were paid for. A second click is refused,
  whether the order is read again or not.
\<close>

theorem wallet_pays_for_prints:
  assumes "orders_ok db" and "wallets_ok db" and "r \<in> set (orders db)"
  shows "case pay_with_wallet r now db of
      Inr (ts, r', db') \<Rightarrow> r' = paid_row r (Some (or_public_id r)) now \<and> order_row (or_id r) db' = Some r'
        \<and> or_state r = AWAITING_PAYMENT \<and> (\<forall>u. balance_of u db' = balance_of u db - (if u = or_user_id r then or_total_inr r else 0))
        \<and> wallets_ok db' \<and> orders_ok db'
        \<and> (\<exists>p. payments db' = payments db @ [p] \<and> py_amount_inr p = or_total_inr r \<and> py_status p = CAPTURED
            \<and> py_source p = SRC_WALLET \<and> py_order_id p = Some (or_id r))
        \<and> print_tasks db' = print_tasks db @ ts
        \<and> list_all2 (item_queued (or_kiosk_id r)) (filter printable (items_of (or_id r) db)) ts
        \<and> (\<forall>t. pay_with_wallet r' t db' = Inl (Conflict ALREADY_PAID)) \<and> (\<forall>t. \<exists>e. pay_with_wallet r t db' = Inl e)
    | Inl e \<Rightarrow> require_payable r now \<noteq> Inr () \<or> or_payment_method r \<noteq> Some BY_WALLET \<or> or_total_inr r \<le> 0
        \<or> balance_of (or_user_id r) db < or_total_inr r \<or> seen (or_user_id r) (or_public_id r) db"
proof -
  let ?u = "or_user_id r" and ?ref = "or_public_id r"
  define nt where "nt = Some (''printing at kiosk '' @ show_nat (or_kiosk_id r))"
  have total: "as_money (or_total_inr r) = or_total_inr r" using assms by (auto simp: orders_ok_def)
  show ?thesis
  proof (cases "require_payable r now = Inr () \<and> or_payment_method r = Some BY_WALLET")
    case False
    then have "\<exists>e. pay_with_wallet r now db = Inl e" by (cases "require_payable r now") (auto simp: pay_with_wallet_def)
    with False show ?thesis by auto
  next
    case pay: True
    show ?thesis
    proof (cases "debit ?u (or_total_inr r) ?ref nt db")
      case (Inl e)
      then have "or_total_inr r \<le> 0 \<or> balance_of ?u db < or_total_inr r \<or> seen ?u ?ref db"
        using debit_cases(3)[OF assms(2), of "or_total_inr r" ?u ?ref nt] total by fastforce
      moreover have "pay_with_wallet r now db = Inl e" using pay Inl by (simp add: pay_with_wallet_def nt_def)
      ultimately show ?thesis by auto
    next
      case (Inr x)
      then obtain e db1 where d: "debit ?u (or_total_inr r) ?ref nt db = Inr (e, db1)" by (cases x) auto
      have mv: "moved ?u (- or_total_inr r) ?ref e db db1"
        using debit_cases(2)[OF assms(2) d] total by simp
      obtain ts p db' where w: "pay_with_wallet r now db = Inr (ts, paid_row r (Some ?ref) now, db')"
        "list_all2 (item_queued (or_kiosk_id r)) (filter printable (items_of (or_id r) db)) ts"
        "print_tasks db' = print_tasks db @ ts" "payments db' = payments db @ [p]" "py_amount_inr p = or_total_inr r"
        "py_status p = CAPTURED" "py_source p = SRC_WALLET" "py_order_id p = Some (or_id r)"
        "orders db' = put_row or_id (paid_row r (Some ?ref) now) (orders db)" "order_items db' = order_items db"
        "wallets db' = wallets db1" "wallet_entries db' = wallet_entries db1"
        using wallet_commit[OF assms pay[THEN conjunct1] pay[THEN conjunct2] d nt_def] by blast
      have bal: "balance_of v db' = balance_of v db1" for v by (rule balance_frame[OF w(11)])
      have wok: "wallets_ok db'" using wallets_frame[OF w(11,12)] mv by (simp add: moved_def)
      have seen: "seen ?u ?ref db'"
        using mv w(11,12) by (simp add: moved_def seen_def entries_of_def wallet_of_def)
      have oid: "or_id (paid_row r (Some ?ref) now) = or_id r" "or_total_inr (paid_row r (Some ?ref) now) = or_total_inr r"
        by (simp_all add: paid_row_def)
      have row: "order_row (or_id r) db' = Some (paid_row r (Some ?ref) now)"
        using order_row_ok[OF assms(1,3)] oid by (simp add: order_row_def w(9) row_by_put_row)
      have ook: "orders_ok db'"
        using orders_ok_put[OF assms(1) w(9,10)] assms oid by (auto simp: orders_ok_def)
      have again: "\<exists>e. pay_with_wallet r t db' = Inl e" for t
      proof (cases "require_payable r t = Inr ()")
        case True
        have "debit ?u (or_total_inr r) ?ref nt db' \<noteq> Inr y" for y
          using debit_cases(2)[OF wok, of ?u "or_total_inr r" ?ref nt] seen by (cases y) (auto simp: moved_def)
        then obtain e where "debit ?u (or_total_inr r) ?ref nt db' = Inl e" by (cases "debit ?u (or_total_inr r) ?ref nt db'") auto
        with pay True show ?thesis by (simp add: pay_with_wallet_def nt_def)
      qed (cases "require_payable r t"; simp add: pay_with_wallet_def)
      have "balance_of v db' = balance_of v db - (if v = ?u then or_total_inr r else 0)" for v
        using mv by (cases "v = ?u") (simp_all add: bal moved_def)
      moreover have "pay_with_wallet (paid_row r (Some ?ref) now) t db' = Inl (Conflict ALREADY_PAID)" for t
        by (simp add: pay_with_wallet_def require_payable_def paid_row_def)
      moreover have "or_state r = AWAITING_PAYMENT" using pay by (simp add: require_payable_ok_iff)
      ultimately show ?thesis using w row again wok ook by auto
    qed
  qed
qed

definition order_example :: order where
  "order_example = \<lparr>or_id = 1, or_public_id = ''ord_1'', or_user_id = 2, or_kiosk_id = 1, or_state = AWAITING_PAYMENT,
     or_subtotal_inr = 6, or_fee_inr = 0, or_total_inr = 6, or_payment_method = Some BY_WALLET,
     or_gateway = Some ''platform_gateway'', or_payment_reference = None, or_expires_at = Some 100, or_paid_at = None,
     or_refunded_at = None, or_completed_at = None, or_created_at = 0\<rparr>"

definition item_example :: order_item where
  "item_example = \<lparr>oi_id = 1, oi_order_id = 1, oi_position = 0, oi_kind = DOCUMENT_ITEM, oi_document_id = Some 1,
     oi_colour = False, oi_duplex = False, oi_copies = 1, oi_page_range = None, oi_page_count = 3, oi_impressions = 3,
     oi_sheets = 3, oi_amount_inr = 6, oi_created_at = 0\<rparr>"

definition buying_example :: orders_db where
  "buying_example = orders_blank\<lparr>orders := [order_example], order_items := [item_example],
     wallets := [\<lparr>wa_id = 1, wa_user_id = 2, wa_balance_inr = 50, wa_created_at = 0\<rparr>],
     wallet_entries := [\<lparr>we_id = 1, we_public_id = ''wlt_1'', we_wallet_id = 1, we_kind = TOPUP, we_amount_inr = 50,
       we_balance_after_inr = 50, we_reference = ''topup'', we_note = None, we_created_at = 0\<rparr>]\<rparr>"

lemma item_example_priced: "item_priced item_example"
  by (simp add: item_priced_def item_example_def item_options_def workload_of_def Let_def)

lemma buying_example_ok: "orders_ok buying_example" "wallets_ok buying_example" "order_example \<in> set (orders buying_example)"
  using item_example_priced
  by (simp_all add: orders_ok_def wallets_ok_def buying_example_def order_example_def item_example_def ledger_total_def orders_blank_def)

lemma buying_example_funds: "balance_of 2 buying_example = 50" "\<not> seen 2 ''ord_1'' buying_example"
  by (simp_all add: balance_of_def wallet_of_def buying_example_def seen_def entries_of_def)

theorem wallet_pays_for_prints_witness:
  "\<exists>ts r' db'. pay_with_wallet order_example 5 buying_example = Inr (ts, r', db') \<and> balance_of 2 db' = 44 \<and> length ts = 1
     \<and> pay_with_wallet r' 6 db' = Inl (Conflict ALREADY_PAID)"
proof -
  have o: "require_payable order_example 5 = Inr ()" "or_payment_method order_example = Some BY_WALLET" "or_total_inr order_example = 6"
    "or_user_id order_example = 2" "or_public_id order_example = ''ord_1''"
    by (simp_all add: require_payable_ok_iff order_example_def)
  have items: "filter printable (items_of (or_id order_example) buying_example) = [item_example]"
    by (simp add: items_of_def buying_example_def order_example_def item_example_def printable_def)
  note t = wallet_pays_for_prints[OF buying_example_ok, where now = 5, unfolded items]
  show ?thesis
  proof (cases "pay_with_wallet order_example 5 buying_example")
    case (Inl e)
    with t o buying_example_funds show ?thesis by auto
  next
    case (Inr x)
    obtain ts r' db' where x: "x = (ts, r', db')" by (cases x)
    with t o Inr have "balance_of 2 db' = balance_of 2 buying_example - 6" "pay_with_wallet r' 6 db' = Inl (Conflict ALREADY_PAID)"
      "list_all2 (item_queued (or_kiosk_id order_example)) [item_example] ts" by auto
    with buying_example_funds Inr x list_all2_lengthD[OF this(3)] show ?thesis by auto
  qed
qed

end
