(* ===== verification/OrderLife.thy ===== *)
theory OrderLife
  imports Orders PaperAdapter
begin

text \<open>
  The life of an order as a state machine over the operations of \<^verbatim>\<open>orders/service.py\<close> and
  \<^verbatim>\<open>orders/refunds.py\<close>: which states may follow which, what is frozen when an order is placed, and how
  an order follows its prints.
\<close>

section \<open>The steps\<close>

text \<open>
  One step of the orders tables. \<open>elsewhere\<close> is everything the rest of the program does in between:
  prints, payments, wallets, kiosks, but neither of these two tables.
\<close>

inductive order_step :: "'a orders_db_scheme \<Rightarrow> 'a orders_db_scheme \<Rightarrow> bool" where
  placed: "place_order u k requests meth now db = Inr (r, db') \<Longrightarrow> order_step db db'"
| wallet_paid: "r \<in> set (orders db) \<Longrightarrow> pay_with_wallet r now db = Inr (ts, r', db') \<Longrightarrow> order_step db db'"
| gateway_paid: "r \<in> set (orders db) \<Longrightarrow> mark_paid r ref now db = Inr (ts, r', db') \<Longrightarrow> order_step db db'"
| settled: "settle_paid_order o_id ref now db = Inr (ts, db') \<Longrightarrow> order_step db db'"
| printed: "refresh_order_state d k_id db = (x, db') \<Longrightarrow> order_step db db'"
| confirmed: "r \<in> set (orders db) \<Longrightarrow>
    confirm_order_printed (kiosk_paper_ledger k) r now db = Inr (cs, r', db') \<Longrightarrow> order_step db db'"
| expired: "expire_stale_orders now db = (rs, db') \<Longrightarrow> order_step db db'"
| refunded: "apply_payment_refund o_id back paid now db = (x, db') \<Longrightarrow> order_step db db'"
| elsewhere: "orders db' = orders db \<Longrightarrow> order_items db' = order_items db \<Longrightarrow> order_step db db'"

fun may_follow :: "order_state \<Rightarrow> order_state set" where
  "may_follow AWAITING_PAYMENT = {AWAITING_PAYMENT, PAID, DISPATCHED, COMPLETED, PARTIALLY_FAILED, ORD_EXPIRED, ORD_REFUNDED}"
| "may_follow PAID = {PAID, DISPATCHED, COMPLETED, PARTIALLY_FAILED, ORD_REFUNDED}"
| "may_follow DISPATCHED = {DISPATCHED, COMPLETED, PARTIALLY_FAILED, ORD_REFUNDED}"
| "may_follow PARTIALLY_FAILED = {DISPATCHED, COMPLETED, PARTIALLY_FAILED, ORD_REFUNDED}"
| "may_follow COMPLETED = {COMPLETED, ORD_REFUNDED}"
| "may_follow ORD_EXPIRED = {ORD_EXPIRED, ORD_REFUNDED}"
| "may_follow ORD_REFUNDED = {ORD_REFUNDED}"
| "may_follow DRAFT = {DRAFT, ORD_REFUNDED}"

definition row_evolves :: "order \<Rightarrow> order \<Rightarrow> bool" where
  "row_evolves r r' \<longleftrightarrow> or_id r' = or_id r \<and> or_state r' \<in> may_follow (or_state r)
     \<and> or_public_id r' = or_public_id r \<and> or_user_id r' = or_user_id r \<and> or_kiosk_id r' = or_kiosk_id r
     \<and> or_subtotal_inr r' = or_subtotal_inr r \<and> or_fee_inr r' = or_fee_inr r \<and> or_total_inr r' = or_total_inr r
     \<and> or_payment_method r' = or_payment_method r \<and> or_gateway r' = or_gateway r
     \<and> or_expires_at r' = or_expires_at r \<and> or_created_at r' = or_created_at r"

definition table_evolves :: "'a orders_db_scheme \<Rightarrow> 'a orders_db_scheme \<Rightarrow> bool" where
  "table_evolves db db' \<longleftrightarrow> (\<forall>r \<in> set (orders db). \<exists>r' \<in> set (orders db'). row_evolves r r')
     \<and> set (order_items db) \<subseteq> set (order_items db')"

lemma may_follow_refl [simp]: "s \<in> may_follow s"
  by (cases s) auto

lemma may_follow_trans: "t \<in> may_follow s \<Longrightarrow> u \<in> may_follow t \<Longrightarrow> u \<in> may_follow s"
  by (cases s) auto

lemma row_evolves_refl [simp]: "row_evolves r r"
  by (simp add: row_evolves_def)

lemma row_evolves_trans: "row_evolves r s \<Longrightarrow> row_evolves s t \<Longrightarrow> row_evolves r t"
  by (auto simp: row_evolves_def intro: may_follow_trans)

lemma table_evolves_refl: "table_evolves db db"
  unfolding table_evolves_def by (blast intro: row_evolves_refl)

lemma table_evolves_trans: "table_evolves a b \<Longrightarrow> table_evolves b c \<Longrightarrow> table_evolves a c"
  unfolding table_evolves_def by (meson row_evolves_trans subset_trans)

text \<open>The three shapes of a step: one row updated, every row mapped, rows added.\<close>

lemma evolves_put:
  assumes "orders_ok db" and "r \<in> set (orders db)" and "row_evolves r r'"
    and "orders db' = put_row or_id r' (orders db)" and "order_items db' = order_items db"
  shows "orders_ok db' \<and> table_evolves db db'"
proof -
  have id: "or_id r' = or_id r" "or_total_inr r' = or_total_inr r" using assms(3) by (simp_all add: row_evolves_def)
  then have "is_money (or_total_inr r')" using assms(1,2) by (simp add: orders_ok_def)
  from orders_ok_put[OF assms(1,4,5) this] have ok: "orders_ok db'" .
  have "\<exists>x' \<in> set (orders db'). row_evolves x x'" if "x \<in> set (orders db)" for x
  proof (cases "or_id x = or_id r")
    case True
    then have "x = r" using distinct_key_eq[of or_id "orders db" r x] assms(1,2) that by (simp add: orders_ok_def)
    moreover have "r' \<in> set (orders db')" using assms(2) id by (auto simp: assms(4) set_put_row)
    ultimately show ?thesis using assms(3) by blast
  next
    case False
    then have "x \<in> set (orders db')" using that id by (auto simp: assms(4) set_put_row)
    then show ?thesis by (intro bexI[of _ x]) simp_all
  qed
  with ok show ?thesis by (simp add: table_evolves_def assms(5))
qed

lemma evolves_same:
  "orders_ok db \<Longrightarrow> orders db' = orders db \<Longrightarrow> order_items db' = order_items db \<Longrightarrow> orders_ok db' \<and> table_evolves db db'"
  using orders_ok_frame[of db' db] by (simp add: table_evolves_def) (blast intro: row_evolves_refl)

section \<open>Every operation is a legal step\<close>

lemma pay_evolves: "require_payable r now = Inr () \<Longrightarrow> row_evolves r (paid_row r ref now)"
  by (simp add: require_payable_ok_iff row_evolves_def paid_row_def)

lemma mark_paid_evolves:
  assumes "orders_ok db" and "r \<in> set (orders db)" and "mark_paid r ref now db = Inr (ts, r', db')"
  shows "orders_ok db' \<and> table_evolves db db'"
proof -
  have pay: "require_payable r now = Inr ()"
    using assms(3) by (cases "require_payable r now") (auto simp: mark_paid_def)
  from mark_paid_effect[OF assms(1) pay, of ref] assms(3)
  have "queued_onto ts (save_order (paid_row r ref now) db) db'" by auto
  from queued_onto_frame[OF this] show ?thesis
    by (intro evolves_put[OF assms(1,2) pay_evolves[OF pay]]) auto
qed

lemma wallet_paid_evolves:
  assumes "orders_ok db" and "r \<in> set (orders db)" and "pay_with_wallet r now db = Inr (ts, r', db')"
  shows "orders_ok db' \<and> table_evolves db db'"
proof -
  from assms(3) have pay: "require_payable r now = Inr ()" "or_payment_method r = Some BY_WALLET"
    by (cases "require_payable r now"; auto simp: pay_with_wallet_def split: if_splits)+
  with assms(3) obtain e db1 p db2 where
    d: "debit (or_user_id r) (or_total_inr r) (or_public_id r) (Some (''printing at kiosk '' @ show_nat (or_kiosk_id r))) db = Inr (e, db1)"
    and w: "record_wallet_payment (or_user_id r) PRINT_ORDER (or_total_inr r) (Some (or_kiosk_id r)) (Some (or_id r)) now db1 = Inr (p, db2)"
    and m: "mark_paid r (Some (or_public_id r)) now db2 = Inr (ts, r', db')"
    by (auto simp: pay_with_wallet_def bind_res_Inr_iff)
  have f: "orders db2 = orders db" "order_items db2 = order_items db"
    using debit_frame[OF d] record_wallet_payment_effect[of "or_user_id r" PRINT_ORDER "or_total_inr r" "Some (or_kiosk_id r)" "Some (or_id r)" now db1] w
    by auto
  have "orders_ok db2" using assms(1) f orders_ok_frame[of db2 db] by simp
  with mark_paid_evolves[OF this _ m] assms(2) f show ?thesis by (simp add: table_evolves_def)
qed

lemma place_evolves:
  assumes "orders_ok db" and "place_order u k requests meth now db = Inr (r, db')"
  shows "orders_ok db' \<and> table_evolves db db'"
proof -
  obtain n db1 where av: "sheets_available k db = (n, db1)" by fastforce
  obtain q :: order_quote where db': "db' = add_items (or_id r) 0 (zip requests (oq_lines q)) ((snd (mint ORDER db1))\<lparr>orders := orders db @ [r]\<rparr>)"
    using place_order_tables[OF assms(2)] av by auto
  note frame = paper_row_frame[OF av]
  obtain new where "order_items db' = order_items ((snd (mint ORDER db1))\<lparr>orders := orders db @ [r]\<rparr>) @ new"
    using add_items_effect[of "or_id r" 0 "zip requests (oq_lines q)" "(snd (mint ORDER db1))\<lparr>orders := orders db @ [r]\<rparr>"]
    by (auto simp: db')
  then have "set (order_items db) \<subseteq> set (order_items db')" using frame by (simp add: mint_def)
  moreover have "orders_ok db'" "orders db' = orders db @ [r]" using accepted_order_shape[OF assms] by blast+
  ultimately show ?thesis by (simp add: table_evolves_def) (blast intro: row_evolves_refl)
qed

lemma expire_evolves:
  assumes "orders_ok db" and "expire_stale_orders now db = (rs, db')"
  shows "orders_ok db' \<and> table_evolves db db'"
proof -
  let ?f = "\<lambda>r. if is_stale now r then r\<lparr>or_state := ORD_EXPIRED\<rparr> else r"
  have db': "db' = db\<lparr>orders := map ?f (orders db)\<rparr>" using assms(2) by (simp add: expire_stale_orders_def)
  have "or_id \<circ> ?f = or_id" by auto
  then have ids: "map or_id (orders db') = map or_id (orders db)" by (simp add: db')
  then have id_set: "or_id ` set (orders db') = or_id ` set (orders db)" by (metis list.set_map)
  have "\<forall>r \<in> set (orders db'). is_money (or_total_inr r)" using assms(1) by (auto simp: db' orders_ok_def)
  moreover have items: "order_items db' = order_items db" by (simp add: db')
  ultimately have "orders_ok db'" using assms(1) unfolding orders_ok_def ids id_set by simp
  moreover have rows: "set (orders db') = ?f ` set (orders db)" by (simp add: db')
  have evolve: "row_evolves r (?f r)" for r by (simp add: row_evolves_def is_stale_def)
  have "\<exists>r' \<in> set (orders db'). row_evolves r r'" if "r \<in> set (orders db)" for r
    unfolding rows by (rule bexI[of _ "?f r"], rule evolve, rule imageI, rule that)
  ultimately show ?thesis by (simp add: table_evolves_def items)
qed

lemma derive_evolves:
  assumes "orders_ok db" and "r \<in> set (orders db)" and "derive_from_prints r db = (r', db')"
    and "or_state r \<in> {PAID, DISPATCHED, PARTIALLY_FAILED}"
  shows "orders_ok db' \<and> table_evolves db db'"
proof (cases "task_states_at (documents_of_order r db) (or_kiosk_id r) (or_created_at r) db = []")
  case True
  then show ?thesis using assms evolves_same[OF assms(1)] by (simp add: derive_from_prints_def)
next
  case False
  then have "db' = save_order r' db" "row_evolves r r'"
    using assms(3,4) by (auto simp: derive_from_prints_def Let_def row_evolves_def state_from_prints_def)
  then show ?thesis using evolves_put[OF assms(1,2), of r' db'] by simp
qed

lemma refresh_evolves:
  assumes "orders_ok db" and "refresh_order_state d k_id db = (x, db')"
  shows "orders_ok db' \<and> table_evolves db db'"
proof (cases "order_in_flight d k_id db")
  case Nil
  then show ?thesis using assms evolves_same[OF assms(1)] by (simp add: refresh_order_state_def)
next
  case (Cons i rest)
  then have "i \<in> set (order_in_flight d k_id db)" by simp
  then obtain r where r: "order_row (oi_order_id i) db = Some r" "or_state r = PAID \<or> or_state r = DISPATCHED"
    by (auto simp: order_in_flight_def split: option.splits)
  then have "r \<in> set (orders db)" by (auto simp: order_row_def dest: row_by_SomeD)
  moreover obtain r' db1 where "derive_from_prints r db = (r', db1)" by fastforce
  ultimately show ?thesis
    using derive_evolves[OF assms(1)] assms(2) Cons r by (auto simp: refresh_order_state_def)
qed

lemma refund_evolves:
  assumes "orders_ok db" and "apply_payment_refund o_id back paid now db = (x, db')"
  shows "orders_ok db' \<and> table_evolves db db'"
proof (cases "db' = db")
  case True
  then show ?thesis using assms(1) by (simp add: table_evolves_refl)
next
  case False
  then obtain i r where r: "order_row i db = Some r" "db' = save_order (r\<lparr>or_state := ORD_REFUNDED, or_refunded_at := Some now\<rparr>) db"
    using assms(2) by (auto simp: apply_payment_refund_def Let_def split: option.splits if_splits)
  then have "r \<in> set (orders db)" by (auto simp: order_row_def dest: row_by_SomeD)
  moreover have "row_evolves r (r\<lparr>or_state := ORD_REFUNDED, or_refunded_at := Some now\<rparr>)"
    by (cases "or_state r") (simp_all add: row_evolves_def)
  ultimately show ?thesis using evolves_put[OF assms(1)] r(2) by simp
qed

lemma ledger_keeps_orders:
  fixes db :: "'a orders_db_scheme"
  shows "kiosk_paper_ledger k k_id p a ref db = Inr db' \<Longrightarrow> orders db' = orders db \<and> order_items db' = order_items db"
  by (auto simp: kiosk_paper_ledger_def consume_paper_def bind_res_Inr_iff Let_def log_paper_def record_audit_def save_paper_def
      paper_row_def split: prod.splits option.splits if_splits)

lemma confirm_each_keeps_orders:
  fixes db :: "'a orders_db_scheme"
  shows "confirm_each (kiosk_paper_ledger k) now ts db = Inr (cs, db') \<Longrightarrow> orders db' = orders db \<and> order_items db' = order_items db"
proof (induction ts arbitrary: db cs)
  case (Cons t ts)
  then obtain t' db1 cs' where c: "confirm_printed (kiosk_paper_ledger k) no_outcome t now db = Inr (t', db1)"
    and rest: "confirm_each (kiosk_paper_ledger k) now ts db1 = Inr (cs', db')"
    by (auto simp: bind_res_Inr_iff)
  have "orders db1 = orders db \<and> order_items db1 = order_items db"
    using c by (auto simp: confirm_printed_def bind_res_Inr_iff Let_def no_outcome_def save_task_def
        dest!: ledger_keeps_orders split: if_splits)
  with Cons.IH[OF rest] show ?case by simp
qed simp

lemma confirm_evolves:
  assumes "orders_ok db" and "r \<in> set (orders db)"
    and "confirm_order_printed (kiosk_paper_ledger k) r now db = Inr (cs, r', db')"
  shows "orders_ok db' \<and> table_evolves db db'"
proof -
  from assms(3) have st: "or_state r = PARTIALLY_FAILED" by (auto simp: confirm_order_printed_def split: if_splits)
  from assms(3) obtain db1 where c: "confirm_failed_prints (kiosk_paper_ledger k) (documents_of_order r db) (or_kiosk_id r)
      (or_created_at r) now db = Inr (cs, db1)" and d: "derive_from_prints r db1 = (r', db')"
    by (auto simp: confirm_order_printed_def bind_res_Inr_iff split: if_splits prod.splits)
  have f: "orders db1 = orders db" "order_items db1 = order_items db"
    using confirm_each_keeps_orders[OF c[unfolded confirm_failed_prints_def]] by auto
  have "orders_ok db1" using assms(1) f orders_ok_frame[of db1 db] by simp
  with derive_evolves[OF this _ d] assms(2) f st show ?thesis by (simp add: table_evolves_def)
qed

lemma order_step_evolves:
  assumes "order_step db db'" and "orders_ok db"
  shows "orders_ok db' \<and> table_evolves db db'"
  using assms
proof (cases rule: order_step.cases)
  case (settled o_id ref now ts)
  show ?thesis
  proof (cases "db' = db")
    case True
    then show ?thesis using assms(2) by (simp add: table_evolves_refl)
  next
    case False
    then obtain i r r' where "order_row i db = Some r" "mark_paid r ref now db = Inr (ts, r', db')"
      using settled by (auto simp: settle_paid_order_def bind_res_Inr_iff split: option.splits)
    then show ?thesis using mark_paid_evolves[OF assms(2)] by (auto simp: order_row_def dest: row_by_SomeD)
  qed
next
  case (placed u k requests meth now r)
  then show ?thesis using place_evolves[OF assms(2)] by blast
next
  case (printed d k_id x)
  then show ?thesis using refresh_evolves[OF assms(2)] by blast
next
  case expired
  then show ?thesis using expire_evolves[OF assms(2)] by blast
next
  case refunded
  then show ?thesis using refund_evolves[OF assms(2)] by blast
next
  case elsewhere
  then show ?thesis using evolves_same[OF assms(2)] by blast
next
  case wallet_paid
  then show ?thesis using wallet_paid_evolves[OF assms(2)] by blast
next
  case gateway_paid
  then show ?thesis using mark_paid_evolves[OF assms(2)] by blast
next
  case confirmed
  then show ?thesis using confirm_evolves[OF assms(2)] by blast
qed

lemma order_run_evolves:
  assumes "order_step\<^sup>*\<^sup>* db db'" and "orders_ok db"
  shows "orders_ok db' \<and> table_evolves db db'"
  using assms
proof (induction rule: rtranclp_induct)
  case base
  then show ?case by (simp add: table_evolves_refl)
next
  case (step a b)
  then show ?case using order_step_evolves table_evolves_trans by blast
qed

text \<open>
  C3. Whatever happens to the orders tables, an order only moves along its life: what it costs, whose
  it is, how it is paid and when it expires are fixed when it is placed; a refunded order stays
  refunded; an expired one is never paid, printed or reopened and can only still be refunded; a
  completed one can only still be refunded; and no order ever disappears or goes back to awaiting payment.
\<close>

theorem an_order_lives_once:
  assumes "order_step\<^sup>*\<^sup>* db db'" and "orders_ok db" and "r \<in> set (orders db)"
  shows "\<exists>r'. order_row (or_id r) db' = Some r' \<and> or_state r' \<in> may_follow (or_state r)
    \<and> or_total_inr r' = or_total_inr r \<and> or_subtotal_inr r' = or_subtotal_inr r \<and> or_fee_inr r' = or_fee_inr r
    \<and> or_user_id r' = or_user_id r \<and> or_kiosk_id r' = or_kiosk_id r \<and> or_payment_method r' = or_payment_method r
    \<and> or_expires_at r' = or_expires_at r \<and> (or_state r \<noteq> AWAITING_PAYMENT \<longrightarrow> or_state r' \<noteq> AWAITING_PAYMENT)"
proof -
  from order_run_evolves[OF assms(1,2)] have ok: "orders_ok db'" and t: "table_evolves db db'" by auto
  then obtain r' where r': "r' \<in> set (orders db')" "row_evolves r r'" using assms(3) by (auto simp: table_evolves_def)
  then have "order_row (or_id r) db' = Some r'" using order_row_ok[OF ok r'(1)] by (simp add: row_evolves_def)
  moreover have "or_state r \<noteq> AWAITING_PAYMENT \<longrightarrow> or_state r' \<noteq> AWAITING_PAYMENT"
    using r'(2) by (cases "or_state r") (auto simp: row_evolves_def)
  ultimately show ?thesis using r'(2) by (auto simp: row_evolves_def)
qed

theorem an_order_lives_once_witness:
  "\<exists>r' db'. order_step\<^sup>*\<^sup>* buying_example db' \<and> order_row (or_id order_example) db' = Some r' \<and> or_total_inr r' = or_total_inr order_example
     \<and> or_state r' = ORD_EXPIRED"
proof -
  let ?db' = "snd (expire_stale_orders 100 buying_example)"
  have step: "order_step\<^sup>*\<^sup>* buying_example ?db'"
    by (rule r_into_rtranclp, rule order_step.expired[where now = 100 and rs = "fst (expire_stale_orders 100 buying_example)"]) simp
  from an_order_lives_once[OF step buying_example_ok(1,3)] obtain r' where
    r': "order_row (or_id order_example) ?db' = Some r'" "or_total_inr r' = or_total_inr order_example" by blast
  moreover have "order_row (or_id order_example) ?db' = Some (order_example\<lparr>or_state := ORD_EXPIRED\<rparr>)"
    by (simp add: expire_stale_orders_def order_row_def buying_example_def order_example_def is_stale_def)
  ultimately have "r' = order_example\<lparr>or_state := ORD_EXPIRED\<rparr>" by simp
  then have "or_state r' = ORD_EXPIRED" by simp
  with r' step show ?thesis by blast
qed

section \<open>Following the prints\<close>

lemma head_is_least:
  assumes "sort_key f xs = x # rest"
  shows "x \<in> set xs \<and> (\<forall>y \<in> set xs. f x \<le> f y)"
proof -
  have "sorted (map f (x # rest))" using sorted_sort_key[of f xs] assms by simp
  moreover have "set (x # rest) = set xs" using set_sort[of f xs] assms by simp
  ultimately show ?thesis by auto
qed

text \<open>An order that is in flight and has a line for this document at this kiosk.\<close>

definition prints_for :: "nat \<Rightarrow> nat \<Rightarrow> order \<Rightarrow> 'a orders_db_scheme \<Rightarrow> bool" where
  "prints_for d k_id r db \<longleftrightarrow> or_kiosk_id r = k_id \<and> or_state r \<in> {PAID, DISPATCHED}
     \<and> (\<exists>i \<in> set (order_items db). oi_order_id i = or_id r \<and> oi_document_id i = Some d)"

lemma in_flight_item:
  assumes "orders_ok db" and "order_in_flight d k_id db = i # rest"
  obtains r where "r \<in> set (orders db)" "prints_for d k_id r db" "order_row (oi_order_id i) db = Some r" "oi_order_id i = or_id r"
    "\<And>s. s \<in> set (orders db) \<Longrightarrow> prints_for d k_id s db \<Longrightarrow> newest_paid_key (Some r) \<le> newest_paid_key (Some s)"
proof -
  let ?P = "\<lambda>i. oi_document_id i = Some d \<and> (case order_row (oi_order_id i) db of None \<Rightarrow> False
     | Some r \<Rightarrow> or_kiosk_id r = k_id \<and> (or_state r = PAID \<or> or_state r = DISPATCHED))"
  have h: "i \<in> set (filter ?P (order_items db))"
    "\<forall>j \<in> set (filter ?P (order_items db)). newest_paid_key (order_row (oi_order_id i) db) \<le> newest_paid_key (order_row (oi_order_id j) db)"
    using head_is_least[OF assms(2)[unfolded order_in_flight_def]] by blast+
  then obtain r where r: "order_row (oi_order_id i) db = Some r" "or_kiosk_id r = k_id" "or_state r = PAID \<or> or_state r = DISPATCHED"
    "oi_document_id i = Some d" "i \<in> set (order_items db)"
    by (auto split: option.splits)
  then have m: "r \<in> set (orders db)" "or_id r = oi_order_id i" by (auto simp: order_row_def dest: row_by_SomeD)
  have p: "prints_for d k_id r db" using r m by (auto simp: prints_for_def)
  have least: "newest_paid_key (Some r) \<le> newest_paid_key (Some s)" if s: "s \<in> set (orders db)" "prints_for d k_id s db" for s
  proof -
    obtain j where "j \<in> set (order_items db)" "oi_order_id j = or_id s" "oi_document_id j = Some d"
      using s(2) by (auto simp: prints_for_def)
    moreover have "order_row (or_id s) db = Some s" by (rule order_row_ok[OF assms(1) s(1)])
    ultimately have "j \<in> set (filter ?P (order_items db))" using s(2) by (auto simp: prints_for_def)
    from bspec[OF h(2) this] r(1) \<open>order_row (or_id s) db = Some s\<close> \<open>oi_order_id j = or_id s\<close> show ?thesis by simp
  qed
  show thesis by (rule that[OF m(1) p r(1) m(2)[symmetric] least])
qed

lemma in_flight_empty:
  assumes "orders_ok db" and "r \<in> set (orders db)" and "prints_for d k_id r db"
  shows "order_in_flight d k_id db \<noteq> []"
proof -
  obtain i where i: "i \<in> set (order_items db)" "oi_order_id i = or_id r" "oi_document_id i = Some d"
    using assms(3) by (auto simp: prints_for_def)
  have "order_row (oi_order_id i) db = Some r" using order_row_ok[OF assms(1,2)] i(2) by simp
  then have "i \<in> set (order_in_flight d k_id db)" using i assms(3) by (auto simp: order_in_flight_def prints_for_def)
  then show ?thesis by auto
qed

lemma derived_row:
  assumes "orders_ok db" and "r \<in> set (orders db)" and "derive_from_prints r db = (r', db')"
  shows "or_id r' = or_id r \<and> order_row (or_id r) db' = Some r' \<and> (\<forall>i. i \<noteq> or_id r \<longrightarrow> order_row i db' = order_row i db)"
  using assms order_row_ok[OF assms(1,2)]
  by (auto simp: derive_from_prints_def Let_def order_row_def row_by_put_row split: if_splits)

text \<open>
  C4. An order follows its prints: when a task of a document moves and one order alone is in flight
  for it at that kiosk, that order is DISPATCHED while any of its prints is unfinished, COMPLETED once
  every one came out, PARTIALLY_FAILED once all are over and one did not, and no other order moves.
\<close>

theorem an_order_follows_its_prints:
  assumes "orders_ok db" and "r \<in> set (orders db)" and "prints_for d k_id r db"
    and "\<And>s. s \<in> set (orders db) \<Longrightarrow> prints_for d k_id s db \<Longrightarrow> s = r"
    and "task_states_at (documents_of_order r db) k_id (or_created_at r) db = states" and "states \<noteq> []"
  shows "\<exists>r' db'. refresh_order_state d k_id db = (Some r', db') \<and> order_row (or_id r) db' = Some r'
    \<and> (or_state r' = COMPLETED \<longleftrightarrow> set states = {PRINTED})
    \<and> (or_state r' = DISPATCHED \<longleftrightarrow> \<not> set states \<subseteq> {PRINTED, TASK_FAILED, CANCELLED})
    \<and> (or_state r' = PARTIALLY_FAILED \<longleftrightarrow> set states \<subseteq> {PRINTED, TASK_FAILED, CANCELLED} \<and> set states \<noteq> {PRINTED})
    \<and> (\<forall>i. i \<noteq> or_id r \<longrightarrow> order_row i db' = order_row i db)"
proof -
  obtain i rest where ir: "order_in_flight d k_id db = i # rest"
    using in_flight_empty[OF assms(1-3)] by (cases "order_in_flight d k_id db") auto
  obtain s where "s \<in> set (orders db)" "prints_for d k_id s db" "order_row (oi_order_id i) db = Some s"
    by (rule in_flight_item[OF assms(1) ir]) (rule that; assumption)
  then have s: "order_row (oi_order_id i) db = Some r" using assms(4) by blast
  obtain r' db' where dv: "derive_from_prints r db = (r', db')" by fastforce
  have k: "or_kiosk_id r = k_id" using assms(3) by (simp add: prints_for_def)
  have run: "refresh_order_state d k_id db = (Some r', db')" by (simp add: refresh_order_state_def ir s dv)
  have st: "or_state r' = state_from_prints states"
    using dv assms(5,6) k by (auto simp: derive_from_prints_def Let_def)
  have going: "(or_state r' = DISPATCHED) = (\<not> set states \<subseteq> {PRINTED, TASK_FAILED, CANCELLED})"
    unfolding st by (auto simp: state_from_prints_def list_ex_iff TERMINAL_TASK_STATES_def)
  have "set states \<subseteq> {PRINTED} \<longleftrightarrow> set states = {PRINTED}" using assms(6) by (cases states) auto
  then have out: "(or_state r' = COMPLETED) = (set states = {PRINTED})"
    unfolding st by (auto simp: state_from_prints_def list_ex_iff list_all_iff TERMINAL_TASK_STATES_def)
  have "or_state r' \<in> {DISPATCHED, COMPLETED, PARTIALLY_FAILED}" by (simp add: st state_from_prints_def)
  with going out have part: "(or_state r' = PARTIALLY_FAILED) = (set states \<subseteq> {PRINTED, TASK_FAILED, CANCELLED} \<and> set states \<noteq> {PRINTED})"
    by (cases "or_state r'") auto
  note d_row = derived_row[OF assms(1,2) dv]
  show ?thesis
    by (intro exI[of _ r'] exI[of _ db'] conjI)
      (rule run, rule d_row[THEN conjunct2, THEN conjunct1], rule out, rule going, rule part, rule d_row[THEN conjunct2, THEN conjunct2])
qed

text \<open>
  (Property). Only the newest of them: when two paid orders hold the same document at the same kiosk, news of
  its prints never reaches the older one, even when everything the older one queued has been printed, so
  it stays as it was for as long as the newer one is in flight.
\<close>

theorem older_order_hears_nothing:
  assumes "orders_ok db" and "r \<in> set (orders db)" and "s \<in> set (orders db)"
    and "prints_for d k_id r db" and "prints_for d k_id s db"
    and "or_paid_at r = Some t" and "or_paid_at s = Some u" and "t < u"
  shows "order_row (or_id r) (snd (refresh_order_state d k_id db)) = Some r"
proof -
  obtain i rest where ir: "order_in_flight d k_id db = i # rest"
    using in_flight_empty[OF assms(1,2,4)] by (cases "order_in_flight d k_id db") auto
  obtain x where x: "x \<in> set (orders db)" "order_row (oi_order_id i) db = Some x" "newest_paid_key (Some x) \<le> newest_paid_key (Some s)"
    by (rule in_flight_item[OF assms(1) ir]) (use assms(3,5) that in blast)
  have "newest_paid_key (Some r) = (1, - t)" "newest_paid_key (Some s) = (1, - u)"
    using assms(6,7) by (simp_all add: newest_paid_key_def)
  then have "newest_paid_key (Some s) < newest_paid_key (Some r)" using assms(8) by simp
  then have "x \<noteq> r" using x(3) by auto
  moreover have "distinct (map or_id (orders db))" using assms(1) by (simp add: orders_ok_def)
  ultimately have "or_id x \<noteq> or_id r" using distinct_key_eq[of or_id "orders db" r x] assms(2) x(1) by blast
  moreover obtain x' db' where dv: "derive_from_prints x db = (x', db')" by fastforce
  ultimately have "order_row (or_id r) db' = order_row (or_id r) db" using derived_row[OF assms(1) x(1) dv] by metis
  moreover have "snd (refresh_order_state d k_id db) = db'" by (simp add: refresh_order_state_def ir x(2) dv)
  ultimately show ?thesis using order_row_ok[OF assms(1,2)] by simp
qed

definition printed_example :: orders_db where
  "printed_example = buying_example\<lparr>orders := [order_example\<lparr>or_state := PAID, or_paid_at := Some 5\<rparr>],
     print_tasks := [task_example\<lparr>tk_state := PRINTED\<rparr>]\<rparr>"

theorem an_order_follows_its_prints_witness:
  "\<exists>r' db'. refresh_order_state 1 1 printed_example = (Some r', db') \<and> or_state r' = COMPLETED"
proof -
  let ?r = "order_example\<lparr>or_state := PAID, or_paid_at := Some 5\<rparr>"
  have tables: "orders printed_example = [?r]" "order_items printed_example = [item_example]"
    "print_tasks printed_example = [task_example\<lparr>tk_state := PRINTED\<rparr>]"
    by (simp_all add: printed_example_def buying_example_def)
  have ok: "orders_ok printed_example"
    using item_example_priced by (simp add: orders_ok_def tables) (simp add: order_example_def item_example_def)
  have "?r \<in> set (orders printed_example)" "prints_for 1 1 ?r printed_example"
    by (simp add: tables, simp add: prints_for_def tables) (simp add: order_example_def item_example_def)
  moreover have "s = ?r" if "s \<in> set (orders printed_example)" "prints_for 1 1 s printed_example" for s
    using that by (simp add: tables)
  moreover have "task_states_at (documents_of_order ?r printed_example) 1 (or_created_at ?r) printed_example = [PRINTED]"
    by (simp add: documents_of_order_def items_of_def tables)
      (simp add: order_example_def item_example_def task_states_at_def one_orders_def tables task_example_def map_filter_simps)
  ultimately obtain r' db' where "refresh_order_state 1 1 printed_example = (Some r', db')"
    "(or_state r' = COMPLETED) = (set [PRINTED] = {PRINTED})"
    using an_order_follows_its_prints[OF ok, of ?r 1 1 "[PRINTED]"] by blast
  then show ?thesis by auto
qed

definition twice_example :: orders_db where
  "twice_example = buying_example\<lparr>orders := [order_example\<lparr>or_state := PAID, or_paid_at := Some 5\<rparr>,
       order_example\<lparr>or_id := 2, or_state := PAID, or_paid_at := Some 9\<rparr>],
     order_items := [item_example, item_example\<lparr>oi_id := 2, oi_order_id := 2\<rparr>],
     print_tasks := [task_example\<lparr>tk_state := PRINTED\<rparr>]\<rparr>"

theorem older_order_hears_nothing_witness:
  "order_row 1 (snd (refresh_order_state 1 1 twice_example)) = Some (order_example\<lparr>or_state := PAID, or_paid_at := Some 5\<rparr>)"
proof -
  let ?r = "order_example\<lparr>or_state := PAID, or_paid_at := Some 5\<rparr>"
  let ?s = "order_example\<lparr>or_id := 2, or_state := PAID, or_paid_at := Some 9\<rparr>"
  have tables: "orders twice_example = [?r, ?s]" "order_items twice_example = [item_example, item_example\<lparr>oi_id := 2, oi_order_id := 2\<rparr>]"
    by (simp_all add: twice_example_def)
  have "item_priced (item_example\<lparr>oi_id := 2, oi_order_id := 2\<rparr>)"
    using item_example_priced by (simp add: item_priced_def item_options_def)
  then have ok: "orders_ok twice_example"
    using item_example_priced by (simp add: orders_ok_def tables) (simp add: order_example_def item_example_def)
  have mem: "?r \<in> set (orders twice_example)" "?s \<in> set (orders twice_example)" by (simp_all add: tables)
  have p: "prints_for 1 1 ?r twice_example" "prints_for 1 1 ?s twice_example"
    by (simp_all add: prints_for_def tables) (simp_all add: order_example_def item_example_def)
  have "or_paid_at ?r = Some 5" "or_paid_at ?s = Some 9" "(5::int) < 9" "or_id ?r = 1"
    by (simp_all add: order_example_def)
  with older_order_hears_nothing[OF ok mem p this(1-3)] show ?thesis by simp
qed

section \<open>Money that comes too late, and an order that is free\<close>

lemma late_payment_is_refused:
  assumes "orders_ok db" and "r \<in> set (orders db)"
    and "or_state r = ORD_EXPIRED \<or> or_state r = AWAITING_PAYMENT \<and> (\<exists>e. or_expires_at r = Some e \<and> e \<le> now)"
  shows "\<exists>d. settle_paid_order (Some (or_id r)) ref now db = Inl (Conflict d)"
  using assms(3) order_row_ok[OF assms(1,2)]
  by (auto simp: settle_paid_order_def mark_paid_def require_payable_def SETTLED_ORDER_STATES_def)

text \<open>
  A price of zero is within every band, so an order can come to nothing; neither way of paying
  accepts it, and it waits until it expires.
\<close>

lemma free_order_cannot_be_paid:
  assumes "orders_ok db" and "place_order u k requests meth now db = Inr (r, db')" and "or_subtotal_inr r = 0"
  shows "\<exists>e. pay_with_wallet r t db2 = Inl e"
    and "open_checkout rz (or_user_id r) PRINT_ORDER (or_total_inr r) (or_public_id r) (Some k) creds gw c (Some (or_id r)) None db2
      = Inl (BadRequest NOTHING_TO_PAY)"
proof -
  have "as_money 0 = 0" by (rule as_money_id) simp
  then have "gateway_fee 0 = 0" by (simp add: gateway_fee_def FEE_CAP_INR_def)
  then have "or_total_inr r = 0" using accepted_order_shape[OF assms(1,2)] assms(3) by simp
  with \<open>as_money 0 = 0\<close> show "open_checkout rz (or_user_id r) PRINT_ORDER (or_total_inr r) (or_public_id r) (Some k) creds gw c (Some (or_id r)) None db2
      = Inl (BadRequest NOTHING_TO_PAY)" by (simp add: open_checkout_def)
  from \<open>or_total_inr r = 0\<close> \<open>as_money 0 = 0\<close> show "\<exists>e. pay_with_wallet r t db2 = Inl e"
    by (cases "require_payable r t") (auto simp: pay_with_wallet_def debit_def)
qed

end
