(* ===== verification/OrderViews.thy ===== *)
theory OrderViews
  imports OrderLife
begin

text \<open>
  \<^verbatim>\<open>orders/views.py\<close>: the orders as the surfaces read them, by public id, by student and by shop, and
  how each line of an order printed. Also the words \<^verbatim>\<open>orders/invoice.py\<close> puts on a receipt.
\<close>

section \<open>The read models\<close>

record order_line_view =
  ol_document_id :: "string option"
  ol_filename :: "string option"
  ol_kind :: string
  ol_colour :: bool
  ol_duplex :: bool
  ol_copies :: int
  ol_page_range :: "string option"
  ol_page_count :: int
  ol_sheets :: int
  ol_amount_inr :: rat

record order_view =
  ov_id :: string
  ov_kiosk_id :: string
  ov_kiosk_name :: string
  ov_state :: order_state
  ov_payment_method :: "string option"
  ov_subtotal_inr :: rat
  ov_fee_inr :: rat
  ov_total_inr :: rat
  ov_expires_at :: "datetime option"
  ov_paid_at :: "datetime option"
  ov_refunded_at :: "datetime option"
  ov_created_at :: datetime
  ov_items :: "order_line_view list"

fun payment_method_value :: "payment_method \<Rightarrow> string" where
  "payment_method_value BY_WALLET = ''wallet''"
| "payment_method_value BY_GATEWAY = ''gateway''"

fun item_kind_value :: "item_kind \<Rightarrow> string" where
  "item_kind_value DOCUMENT_ITEM = ''document''"
| "item_kind_value SHOP_ITEM = ''shop_item''"

type_synonym names = "nat \<Rightarrow> (string \<times> string) option"

definition public_ids :: "order list \<Rightarrow> 'a orders_db_scheme \<Rightarrow> names \<times> names" where
  "public_ids rs db =
     (let kiosk_ids = map or_kiosk_id rs;
          document_ids = concat (map (\<lambda>r. List.map_filter oi_document_id (items_of (or_id r) db)) rs)
      in (\<lambda>i. if i \<in> set kiosk_ids then map_option (\<lambda>k. (ki_public_id k, ki_name k)) (kiosk_row i db) else None,
          \<lambda>i. if i \<in> set document_ids
              then map_option (\<lambda>d. (do_public_id d, do_original_filename d)) (document_row i db) else None))"

definition line_view :: "names \<Rightarrow> order_item \<Rightarrow> order_line_view" where
  "line_view docs i =
     (let found = (case oi_document_id i of None \<Rightarrow> None | Some d \<Rightarrow> docs d) in
      \<lparr>ol_document_id = map_option fst found, ol_filename = map_option snd found,
       ol_kind = item_kind_value (oi_kind i), ol_colour = oi_colour i, ol_duplex = oi_duplex i,
       ol_copies = oi_copies i, ol_page_range = oi_page_range i, ol_page_count = oi_page_count i,
       ol_sheets = oi_sheets i, ol_amount_inr = oi_amount_inr i\<rparr>)"

definition view :: "order \<Rightarrow> names \<Rightarrow> names \<Rightarrow> 'a orders_db_scheme \<Rightarrow> order_view" where
  "view r ks docs db =
     (let shop = (case ks (or_kiosk_id r) of None \<Rightarrow> ('''', '''') | Some s \<Rightarrow> s) in
      \<lparr>ov_id = or_public_id r, ov_kiosk_id = fst shop, ov_kiosk_name = snd shop, ov_state = or_state r,
       ov_payment_method = map_option payment_method_value (or_payment_method r),
       ov_subtotal_inr = or_subtotal_inr r, ov_fee_inr = or_fee_inr r, ov_total_inr = or_total_inr r,
       ov_expires_at = or_expires_at r, ov_paid_at = or_paid_at r, ov_refunded_at = or_refunded_at r,
       ov_created_at = or_created_at r, ov_items = map (line_view docs) (items_of (or_id r) db)\<rparr>)"

definition views_of :: "order list \<Rightarrow> 'a orders_db_scheme \<Rightarrow> order_view list" where
  "views_of rs db = (let (ks, docs) = public_ids rs db in map (\<lambda>r. view r ks docs db) rs)"

definition view_of :: "order \<Rightarrow> 'a orders_db_scheme \<Rightarrow> order_view" where
  "view_of r db = (let (ks, docs) = public_ids [r] db in view r ks docs db)"

section \<open>The lookups\<close>

definition order_by_public_id :: "string \<Rightarrow> 'a orders_db_scheme \<Rightarrow> order option" where
  "order_by_public_id public_id db = first_where (\<lambda>r. or_public_id r = public_id) (orders db)"

definition order_for :: "nat \<Rightarrow> string \<Rightarrow> 'a orders_db_scheme \<Rightarrow> order option" where
  "order_for user_id public_id db =
     first_where (\<lambda>r. or_public_id r = public_id \<and> or_user_id r = user_id) (orders db)"

definition newest_first :: "order list \<Rightarrow> order list" where
  "newest_first rs = sort_key (\<lambda>r. (- or_created_at r, - int (or_id r))) rs"

definition orders_at_kiosks :: "nat list \<Rightarrow> nat \<Rightarrow> 'a orders_db_scheme \<Rightarrow> order_view list" where
  "orders_at_kiosks ids limit db =
     (if ids = [] then []
      else views_of (take limit (newest_first (filter (\<lambda>r. or_kiosk_id r \<in> set ids) (orders db)))) db)"

definition paid_in_window :: "datetime option \<Rightarrow> datetime option \<Rightarrow> order \<Rightarrow> bool" where
  "paid_in_window since until r \<longleftrightarrow>
     (case or_paid_at r of
        None \<Rightarrow> False
      | Some t \<Rightarrow> (case since of None \<Rightarrow> True | Some s \<Rightarrow> s \<le> t) \<and> (case until of None \<Rightarrow> True | Some u \<Rightarrow> t < u))"

definition paid_orders_at_kiosks ::
  "nat list \<Rightarrow> datetime option \<Rightarrow> datetime option \<Rightarrow> nat \<Rightarrow> 'a orders_db_scheme \<Rightarrow> order_view list" where
  "paid_orders_at_kiosks ids since until limit db =
     (if ids = [] then []
      else views_of (take limit (sort_key (\<lambda>r. (- the (or_paid_at r), - int (or_id r)))
             (filter (\<lambda>r. or_kiosk_id r \<in> set ids \<and> paid_in_window since until r) (orders db)))) db)"

definition document_is_in_an_order :: "nat \<Rightarrow> 'a orders_db_scheme \<Rightarrow> bool" where
  "document_is_in_an_order document_id db \<longleftrightarrow>
     first_where (\<lambda>i. oi_document_id i = Some document_id) (order_items db) \<noteq> None"

definition orders_of :: "nat \<Rightarrow> nat \<Rightarrow> 'a orders_db_scheme \<Rightarrow> order_view list" where
  "orders_of user_id limit db =
     views_of (take limit (newest_first (filter (\<lambda>r. or_user_id r = user_id) (orders db)))) db"

section \<open>How each line printed\<close>

fun task_state_value :: "task_state \<Rightarrow> string" where
  "task_state_value QUEUED = ''queued''"
| "task_state_value SENT_TO_DEVICE = ''sent_to_device''"
| "task_state_value TASK_PRINTING = ''printing''"
| "task_state_value PRINTED = ''printed''"
| "task_state_value TASK_FAILED = ''failed''"
| "task_state_value BLOCKED = ''blocked''"
| "task_state_value CANCELLED = ''cancelled''"

definition ON_THE_MACHINE :: "task_state set" where
  "ON_THE_MACHINE = {SENT_TO_DEVICE, TASK_PRINTING}"

definition how_it_went :: "task_state list \<Rightarrow> string option" where
  "how_it_went states =
     (if states = [] then None
      else if TASK_FAILED \<in> set states then Some (task_state_value TASK_FAILED)
      else if list_all (\<lambda>s. s = PRINTED) states then Some (task_state_value PRINTED)
      else if list_ex (\<lambda>s. s \<in> ON_THE_MACHINE) states then Some (task_state_value TASK_PRINTING)
      else map_option task_state_value (find (\<lambda>w. w \<in> set states) [BLOCKED, QUEUED, CANCELLED]))"

definition print_states_of :: "order \<Rightarrow> 'a orders_db_scheme \<Rightarrow> string option list" where
  "print_states_of r db =
     (let states = document_task_states (documents_of_order r db) (or_kiosk_id r) (or_created_at r) db in
      map (\<lambda>i. case oi_document_id i of
                 None \<Rightarrow> None
               | Some d \<Rightarrow> how_it_went (case map_of states d of None \<Rightarrow> [] | Some ss \<Rightarrow> ss))
        (items_of (or_id r) db))"

section \<open>The words of a receipt\<close>

text \<open>
  \<^verbatim>\<open>f"Rs {value:,.2f}"\<close> of a money column, which holds whole paise: the rupees are grouped by threes.
\<close>

function group_digits :: "string \<Rightarrow> string" where
  "group_digits ds =
     (if length ds \<le> 3 then ds
      else group_digits (take (length ds - 3) ds) @ '','' @ drop (length ds - 3) ds)"
  by pat_completeness auto

termination group_digits
  by (relation "measure length") auto

declare group_digits.simps [simp del]

definition receipt_money :: "rat \<Rightarrow> string" where
  "receipt_money v =
     (let p = to_paise v; q = nat \<bar>p\<bar> in
      ''Rs '' @ (if p < 0 then ''-'' else []) @ group_digits (show_nat (q div 100)) @ ''.'' @
      [digit_char (q mod 100 div 10), digit_char (q mod 10)])"

definition middle_dot :: string where
  "middle_dot = [CHR 0xC2, CHR 0xB7]"

definition describe_line :: "order_line_view \<Rightarrow> string" where
  "describe_line i =
     join_with ('' '' @ middle_dot @ '' '')
       ([if ol_colour i then ''Colour'' else ''Black & white'',
         if ol_duplex i then ''both sides'' else ''one side'',
         show_int (ol_page_count i) @ '' page'' @ (if ol_page_count i \<noteq> 1 then ''s'' else [])]
        @ (if 1 < ol_copies i then [show_int (ol_copies i) @ '' copies''] else [])
        @ (case ol_page_range i of
             Some sel \<Rightarrow> if sel = [] then [] else [''pages '' @ sel]
           | None \<Rightarrow> []))"

section \<open>The columns agree with the state\<close>

lemma printed_column:
  "how_it_went ss = None \<or> how_it_went ss = Some ''printed'' \<longleftrightarrow> (\<forall>s \<in> set ss. s = PRINTED)"
proof (cases "list_all (\<lambda>s. s = PRINTED) ss")
  case True
  then show ?thesis by (auto simp: how_it_went_def list_all_iff)
next
  case False
  then obtain s where s: "s \<in> set ss" "s \<noteq> PRINTED" by (auto simp: list_all_iff)
  have "how_it_went ss \<noteq> None"
  proof (cases "s = TASK_FAILED \<or> s \<in> ON_THE_MACHINE")
    case True
    then show ?thesis using s False by (auto simp: how_it_went_def list_ex_iff)
  next
    case nowhere: False
    then have "s \<in> {BLOCKED, QUEUED, CANCELLED}" using s(2) by (cases s) (auto simp: ON_THE_MACHINE_def)
    with s have "find (\<lambda>w. w \<in> set ss) [BLOCKED, QUEUED, CANCELLED] \<noteq> None" by auto
    with False s show ?thesis by (auto simp: how_it_went_def)
  qed
  moreover have "how_it_went ss \<noteq> Some ''printed''"
    using False by (auto simp: how_it_went_def ON_THE_MACHINE_def)
  ultimately show ?thesis using s by blast
qed

lemma failed_column: "how_it_went ss = Some ''failed'' \<longleftrightarrow> TASK_FAILED \<in> set ss"
  by (auto simp: how_it_went_def)

text \<open>The states behind one line: those of the tasks of its document which are this order's.\<close>

lemma column_states:
  assumes "d \<in> set ds"
  shows "(case map_of (document_task_states ds k since db) d of None \<Rightarrow> [] | Some ss \<Rightarrow> ss)
    = map tk_state (filter (\<lambda>t. one_orders ds k since t \<and> tk_document_id t = d) (print_tasks db))"
proof -
  let ?mine = "filter (one_orders ds k since) (print_tasks db)"
  have m: "map_of (map (\<lambda>d. (d, f d)) xs) d = (if d \<in> set xs then Some (f d) else None)" for f :: "nat \<Rightarrow> task_state list" and xs
    by (induction xs) auto
  have none: "filter (\<lambda>t. one_orders ds k since t \<and> tk_document_id t = d) (print_tasks db) = []"
    if "d \<notin> tk_document_id ` set ?mine" using that by (auto simp: filter_empty_conv)
  show ?thesis using assms none by (auto simp: document_task_states_def m conj_commute)
qed

lemma documents_of_order_mem: "d \<in> set (documents_of_order r db) \<longleftrightarrow> (\<exists>i \<in> set (items_of (or_id r) db). oi_document_id i = Some d)"
  by (force simp: documents_of_order_def List.map_filter_def image_iff)

definition line_states :: "order \<Rightarrow> nat \<Rightarrow> 'a orders_db_scheme \<Rightarrow> task_state list" where
  "line_states r d db = map tk_state (filter (\<lambda>t. one_orders (documents_of_order r db) (or_kiosk_id r) (or_created_at r) t
     \<and> tk_document_id t = d) (print_tasks db))"

lemma print_states_alt:
  "print_states_of r db = map (\<lambda>i. case oi_document_id i of None \<Rightarrow> None | Some d \<Rightarrow> how_it_went (line_states r d db)) (items_of (or_id r) db)"
proof -
  have "(case oi_document_id i of None \<Rightarrow> None | Some d \<Rightarrow>
          how_it_went (case map_of (document_task_states (documents_of_order r db) (or_kiosk_id r) (or_created_at r) db) d of
            None \<Rightarrow> [] | Some ss \<Rightarrow> ss))
      = (case oi_document_id i of None \<Rightarrow> None | Some d \<Rightarrow> how_it_went (line_states r d db))"
    if "i \<in> set (items_of (or_id r) db)" for i
  proof (cases "oi_document_id i")
    case (Some d)
    then have "d \<in> set (documents_of_order r db)" using that documents_of_order_mem by blast
    from column_states[OF this, of "or_kiosk_id r" "or_created_at r" db] Some show ?thesis by (simp only: line_states_def option.case)
  qed simp
  then show ?thesis by (simp add: print_states_of_def)
qed

text \<open>The order's prints are the prints of its lines.\<close>

lemma order_prints_by_line:
  assumes "documents_of_order r db \<noteq> []"
  shows "set (task_states_at (documents_of_order r db) (or_kiosk_id r) (or_created_at r) db)
    = (\<Union>d \<in> set (documents_of_order r db). set (line_states r d db))"
  using assms by (auto simp: task_states_at_def line_states_def one_orders_def)

lemma columns_all:
  "(\<forall>c \<in> set (print_states_of r db). c = None \<or> P c) \<longleftrightarrow>
     (\<forall>d \<in> set (documents_of_order r db). how_it_went (line_states r d db) = None \<or> P (how_it_went (line_states r d db)))"
  unfolding print_states_alt set_map ball_simps documents_of_order_mem Ball_def[of "set (documents_of_order r db)"]
  by (auto split: option.splits)

lemma column_somewhere:
  "Some w \<in> set (print_states_of r db) \<longleftrightarrow> (\<exists>d \<in> set (documents_of_order r db). how_it_went (line_states r d db) = Some w)"
  unfolding print_states_alt set_map image_iff Bex_def[of "set (documents_of_order r db)"] documents_of_order_mem
  by (auto split: option.splits)

text \<open>
  (Property). How each line printed and the state of the order are one reading of the same tasks: an
  order with prints is complete exactly when every line shows that it printed, or shows nothing
  because nothing was sent for it, and some print failed exactly when some line says so.
\<close>

theorem columns_agree_with_the_state:
  assumes "task_states_at (documents_of_order r db) (or_kiosk_id r) (or_created_at r) db = states" and "states \<noteq> []"
  shows "(state_from_prints states = COMPLETED \<longleftrightarrow> (\<forall>c \<in> set (print_states_of r db). c = None \<or> c = Some ''printed''))
    \<and> (TASK_FAILED \<in> set states \<longleftrightarrow> Some ''failed'' \<in> set (print_states_of r db))"
proof -
  have docs: "documents_of_order r db \<noteq> []" using assms by (auto simp: task_states_at_def)
  note all = order_prints_by_line[OF docs, unfolded assms(1)]
  have "state_from_prints states = COMPLETED \<longleftrightarrow> (\<forall>s \<in> set states. s = PRINTED)"
    using assms(2) by (auto simp: state_from_prints_def list_ex_iff list_all_iff TERMINAL_TASK_STATES_def)
  then have "state_from_prints states = COMPLETED \<longleftrightarrow> (\<forall>c \<in> set (print_states_of r db). c = None \<or> c = Some ''printed'')"
    unfolding columns_all printed_column all by blast
  moreover have "TASK_FAILED \<in> set states \<longleftrightarrow> Some ''failed'' \<in> set (print_states_of r db)"
    unfolding column_somewhere failed_column all by blast
  ultimately show ?thesis by simp
qed

theorem columns_agree_with_the_state_witness:
  "print_states_of (order_example\<lparr>or_state := PAID, or_paid_at := Some 5\<rparr>) printed_example = [Some ''printed'']
     \<and> state_from_prints [PRINTED] = COMPLETED"
proof -
  let ?r = "order_example\<lparr>or_state := PAID, or_paid_at := Some 5\<rparr>"
  have tables: "orders printed_example = [?r]" "order_items printed_example = [item_example]"
    "print_tasks printed_example = [task_example\<lparr>tk_state := PRINTED\<rparr>]"
    by (simp_all add: printed_example_def buying_example_def)
  have t: "task_states_at (documents_of_order ?r printed_example) (or_kiosk_id ?r) (or_created_at ?r) printed_example = [PRINTED]"
    by (simp add: documents_of_order_def items_of_def tables)
      (simp add: order_example_def item_example_def task_states_at_def one_orders_def tables task_example_def map_filter_simps)
  have items: "items_of (or_id ?r) printed_example = [item_example]"
    by (simp add: items_of_def tables) (simp add: order_example_def item_example_def)
  have docs: "documents_of_order ?r printed_example = [1]"
    unfolding documents_of_order_def items by (simp add: map_filter_simps item_example_def)
  have "line_states ?r 1 printed_example = [PRINTED]"
    unfolding line_states_def docs tables by (simp add: one_orders_def task_example_def order_example_def)
  then have "print_states_of ?r printed_example = [Some ''printed'']"
    unfolding print_states_alt items by (simp add: item_example_def how_it_went_def)
  with columns_agree_with_the_state[OF t] show ?thesis by simp
qed

end
