(* ===== verification/Notifying.thy ===== *)
theory Notifying
  imports Ops
begin

text \<open>
  \<^verbatim>\<open>core/notifier.py\<close> and \<^verbatim>\<open>notifying.py\<close>: the messages that leave the system, what is escaped in them,
  and what happens when one cannot be sent. The mail provider is the parameter \<open>post\<close>: it answers a
  message with a status code, or raises (\<open>None\<close>).
\<close>

section \<open>The messages\<close>

text \<open>The methods of \<^verbatim>\<open>Notifier\<close>, the address first.\<close>

datatype mail =
    EmailVerification string string
  | PasswordReset string string
  | StaffInvite string string string
  | RefundToWallet string string string string
  | RefundToSource string string string
  | KioskOffline string string "string option"
  | PaperLow string string int

text \<open>\<^verbatim>\<open>html.escape\<close>\<close>

fun escape_char :: "char \<Rightarrow> string" where
  "escape_char c =
     (if c = CHR ''&'' then ''&amp;''
      else if c = CHR ''<'' then ''&lt;''
      else if c = CHR ''>'' then ''&gt;''
      else if c = CHR 34 then ''&quot;''
      else if c = CHR 39 then ''&#x27;''
      else [c])"

definition html_escape :: "string \<Rightarrow> string" where
  "html_escape s = concat (map escape_char s)"

record message =
  ms_kind :: string
  ms_email :: string
  ms_subject :: string
  ms_body :: string

definition anchor :: "string \<Rightarrow> string \<Rightarrow> string" where
  "anchor link words = ''<p><a href='' @ [CHR 34] @ link @ [CHR 34] @ ''>'' @ words @ ''</a></p>''"

definition bold :: "string \<Rightarrow> string" where
  "bold words = ''<b>'' @ words @ ''</b>''"

primrec brevo_message :: "string \<Rightarrow> mail \<Rightarrow> message" where
  "brevo_message app (EmailVerification email token) =
     \<lparr>ms_kind = ''email_verification'', ms_email = email, ms_subject = ''Confirm your email address'',
      ms_body = ''<p>Welcome to Printvendo.</p>''
        @ anchor (app @ ''/verify-email?token='' @ token) ''Confirm your email address''
        @ ''<p>If you did not create an account, you can ignore this.</p>''\<rparr>"
| "brevo_message app (PasswordReset email token) =
     \<lparr>ms_kind = ''password_reset'', ms_email = email, ms_subject = ''Reset your Printvendo password'',
      ms_body = ''<p>Someone asked to reset the password on this account.</p>''
        @ anchor (app @ ''/reset-password?token='' @ token) ''Choose a new password''
        @ ''<p>If that was not you, nothing has changed and you can ignore this.</p>''\<rparr>"
| "brevo_message app (StaffInvite email token kiosk_name) =
     \<lparr>ms_kind = ''staff_invite'', ms_email = email,
      ms_subject = ''You have been invited to '' @ kiosk_name @ '' on Printvendo'',
      ms_body = ''<p>You have been invited to work at '' @ bold (html_escape kiosk_name) @ ''.</p>''
        @ anchor (app @ ''/accept-invite?token='' @ token) ''Accept the invitation''
        @ ''<p>Nothing is shared with them until you accept.</p>''\<rparr>"
| "brevo_message app (RefundToWallet email amount balance order_id) =
     \<lparr>ms_kind = ''refund_to_wallet'', ms_email = email,
      ms_subject = rupee @ amount @ '' is back in your Printvendo balance'',
      ms_body = ''<p>We have put '' @ bold (rupee @ amount) @ '' back into your Printvendo balance.</p>''
        @ ''<p>Your balance is now '' @ bold (rupee @ balance) @ ''.</p>''
        @ ''<p>This was for order '' @ order_id @ ''.</p>''
        @ ''<p>You can spend it on your next print. Nothing else is needed from you.</p>''\<rparr>"
| "brevo_message app (RefundToSource email amount order_id) =
     \<lparr>ms_kind = ''refund_to_source'', ms_email = email,
      ms_subject = ''Your refund of '' @ rupee @ amount @ '' is on its way'',
      ms_body = ''<p>We have refunded '' @ bold (rupee @ amount) @ '' for order '' @ order_id @ ''.</p>''
        @ ''<p>It goes back to whatever you paid with, and will show on your bank or card statement.</p>''
        @ ''<p>Some banks show it straight away. If it is not there yet, it usually arrives within ''
        @ bold ''1 to 2 working days'' @ ''.</p>'' @ ''<p>You do not need to do anything.</p>''\<rparr>"
| "brevo_message app (KioskOffline email kiosk_name last_seen) =
     \<lparr>ms_kind = ''kiosk_offline'', ms_email = email, ms_subject = kiosk_name @ '' is offline'',
      ms_body = ''<p>'' @ bold (html_escape kiosk_name)
        @ '' has stopped answering, so students are not being offered it and nothing can print there.</p>''
        @ (case last_seen of
             None \<Rightarrow> ''<p>It has not been heard from at all.</p>''
           | Some t \<Rightarrow> if t = [] then ''<p>It has not been heard from at all.</p>''
                       else ''<p>It was last heard from at '' @ bold (html_escape t) @ ''.</p>'')
        @ ''<p>Usual causes: the machine is switched off, the shop's internet is down, or the agent has stopped.</p>''
        @ ''<p>You will not get another email about this shop until it comes back and goes offline again.</p>''\<rparr>"
| "brevo_message app (PaperLow email kiosk_name left) =
     \<lparr>ms_kind = ''paper_low'', ms_email = email,
      ms_subject = (if left \<le> 0 then kiosk_name @ '' is out of paper''
                    else kiosk_name @ '' has '' @ show_int left @ '' sheets left''),
      ms_body = (if left \<le> 0
          then ''<p>'' @ bold (html_escape kiosk_name)
            @ '' is out of paper. Students cannot print there until it is refilled.</p>''
          else ''<p>'' @ bold (html_escape kiosk_name) @ '' has '' @ bold (show_int left)
            @ '' sheets of paper left, and stops taking orders when it runs out.</p>'')
        @ ''<p>Please refill the tray and record the refill in the Printvendo app, so the count matches what is in the printer.</p>''
        @ ''<p>You will not get another email about this tray until it has been refilled and runs low again.</p>''\<rparr>"

section \<open>Sending\<close>

text \<open>\<^verbatim>\<open>app_base_url.rstrip("/")\<close>\<close>

definition app_base :: "string \<Rightarrow> string" where
  "app_base url = rev (dropWhile (\<lambda>c. c = CHR ''/'') (rev url))"

type_synonym 's notifier = "mail \<Rightarrow> 's \<Rightarrow> 's"

definition brevo_send ::
  "(message \<Rightarrow> nat option) \<Rightarrow> (string \<Rightarrow> string \<Rightarrow> 's \<Rightarrow> 's) \<Rightarrow> string \<Rightarrow> 's notifier" where
  "brevo_send post on_failure url m s =
     (let msg = brevo_message (app_base url) m in
      case post msg of
        Some code \<Rightarrow> if 400 \<le> code then on_failure (ms_kind msg) (ms_email msg) s else s
      | None \<Rightarrow> on_failure (ms_kind msg) (ms_email msg) s)"

definition SEND_FAILED :: string where
  "SEND_FAILED = ''email.send.failed''"

definition MAIL_IS_DOWN :: string where
  "MAIL_IS_DOWN = ''Email is not being delivered. Invitations and password resets are not arriving.''"

definition report_unsent :: "datetime \<Rightarrow> string \<Rightarrow> string \<Rightarrow> 'a ops_db_scheme \<Rightarrow> 'a ops_db_scheme" where
  "report_unsent now kind email db =
     snd (raise_alert SEND_FAILED CRITICAL MAIL_IS_DOWN SEND_FAILED None None
            (Some (PDict [(''last_failure'', PStr kind)])) now db)"

text \<open>With no key the messages are only written to the log.\<close>

definition notifier_for ::
  "string \<Rightarrow> string \<Rightarrow> (message \<Rightarrow> nat option) \<Rightarrow> datetime \<Rightarrow> 'a ops_db_scheme notifier" where
  "notifier_for api_key url post now =
     (if strip api_key = [] then (\<lambda>m db. db) else brevo_send post (report_unsent now) url)"

section \<open>What a notifier may touch\<close>

text \<open>
  The contract the use cases rely on: sending a message never raises, and touches nothing but the
  alerts an operator reads.
\<close>

locale courier =
  fixes send :: "'a ops_db_scheme notifier"
  assumes touches_alerts: "\<exists>n a. send m db = db\<lparr>drawn := n, admin_alerts := a\<rparr>"
begin

lemma send_cases: obtains n a where "send m db = db\<lparr>drawn := n, admin_alerts := a\<rparr>"
  using touches_alerts by blast

end

lemma raise_alert_shape:
  obtains a n where "snd (raise_alert kind severity summary k et ei detail now db) = db\<lparr>drawn := n, admin_alerts := a\<rparr>"
proof (cases "first_where (open_for k) (admin_alerts db)")
  case None
  then show ?thesis by (intro that) (simp add: raise_alert_def mint_def Let_def)
next
  case (Some e)
  then obtain a where "snd (raise_alert kind severity summary k et ei detail now db) = db\<lparr>admin_alerts := a\<rparr>"
    by (simp add: raise_alert_def Let_def)
  then have "snd (raise_alert kind severity summary k et ei detail now db) = db\<lparr>drawn := drawn db, admin_alerts := a\<rparr>"
    by simp
  then show ?thesis by (rule that)
qed

lemma notifier_shape:
  obtains a n where "notifier_for key url post now m db = db\<lparr>drawn := n, admin_alerts := a\<rparr>"
proof -
  have "\<exists>a n. report_unsent now kind email db = db\<lparr>drawn := n, admin_alerts := a\<rparr>" for kind email
    unfolding report_unsent_def by (metis raise_alert_shape)
  moreover have "\<exists>a n. db = db\<lparr>drawn := n, admin_alerts := a\<rparr>"
    by (rule exI[of _ "admin_alerts db"], rule exI[of _ "drawn db"]) simp
  ultimately have "\<exists>a n. notifier_for key url post now m db = db\<lparr>drawn := n, admin_alerts := a\<rparr>"
    by (auto simp: notifier_for_def brevo_send_def Let_def split: option.split)
  then show ?thesis using that by blast
qed

interpretation brevo: courier "notifier_for key url post now" for key url post now
  by unfold_locales (metis notifier_shape)

section \<open>What a person chose stays text\<close>

lemma html_escape_clean: "set (html_escape s) \<inter> {CHR ''<'', CHR ''>'', CHR 34, CHR 39} = {}"
proof -
  have "set (escape_char c) \<inter> {CHR ''<'', CHR ''>'', CHR 34, CHR 39} = {}" for c by simp
  then show ?thesis unfolding html_escape_def by (induction s) auto
qed

text \<open>
  (Property). A shop's name, which its owner typed, cannot put markup into a message the system sends
  to a stranger: every message that names a shop is fixed text around the escaped name, and the
  escaped name holds no tag and closes no attribute.
\<close>

theorem names_carry_no_markup:
  "set (html_escape shop) \<inter> {CHR ''<'', CHR ''>'', CHR 34, CHR 39} = {}
   \<and> (\<exists>pre post. \<forall>name. ms_body (brevo_message app (StaffInvite email token name)) = pre @ html_escape name @ post)
   \<and> (\<exists>pre post. \<forall>name. ms_body (brevo_message app (KioskOffline email name t)) = pre @ html_escape name @ post)
   \<and> (\<exists>pre post. \<forall>name. ms_body (brevo_message app (PaperLow email name n)) = pre @ html_escape name @ post)"
proof (intro conjI)
  show "\<exists>pre post. \<forall>name. ms_body (brevo_message app (StaffInvite email token name)) = pre @ html_escape name @ post"
    by (rule exI[of _ "''<p>You have been invited to work at '' @ ''<b>''"], rule exI, rule allI)
      (unfold brevo_message.simps bold_def message.simps append_assoc, rule refl)
  show "\<exists>pre post. \<forall>name. ms_body (brevo_message app (KioskOffline email name t)) = pre @ html_escape name @ post"
    by (rule exI[of _ "''<p>'' @ ''<b>''"], rule exI, rule allI)
      (unfold brevo_message.simps bold_def message.simps append_assoc, rule refl)
  show "\<exists>pre post. \<forall>name. ms_body (brevo_message app (PaperLow email name n)) = pre @ html_escape name @ post"
  proof (cases "n \<le> 0")
    case True
    show ?thesis
      by (rule exI[of _ "''<p>'' @ ''<b>''"], rule exI, rule allI)
        (unfold brevo_message.simps bold_def message.simps if_P[OF True] append_assoc, rule refl)
  next
    case False
    show ?thesis
      by (rule exI[of _ "''<p>'' @ ''<b>''"], rule exI, rule allI)
        (unfold brevo_message.simps bold_def message.simps if_not_P[OF False] append_assoc, rule refl)
  qed
qed (rule html_escape_clean)

section \<open>A provider that is down\<close>

text \<open>Every failed send is reported under one key, so the console holds one open row for it.\<close>

lemma raise_alert_open:
  assumes "alerts_ok db"
  shows "k \<in> set (open_keys (admin_alerts (snd (raise_alert kind sev summary k et ei detail now db))))"
proof (cases "first_where (open_for k) (admin_alerts db)")
  case None
  then show ?thesis by (simp add: raise_alert_def mint_def Let_def open_keys_def)
next
  case (Some a)
  then have a: "a \<in> set (admin_alerts db)" "open_for k a" by (auto dest: first_where_SomeD)
  then have "k \<in> set (open_keys (admin_alerts db))" using open_for_iff_key by blast
  with Some show ?thesis
    by (simp add: raise_alert_def Let_def open_keys_put_same[OF _ a(1)] assms[unfolded alerts_ok_def])
qed

lemma report_unsent_ok:
  assumes "alerts_ok db"
  shows "alerts_ok (report_unsent now kind email db)"
    and "count_list (open_keys (admin_alerts (report_unsent now kind email db))) SEND_FAILED = 1"
proof -
  show ok: "alerts_ok (report_unsent now kind email db)"
    unfolding report_unsent_def by (rule raise_alert_ok[OF assms])
  have "SEND_FAILED \<in> set (open_keys (admin_alerts (report_unsent now kind email db)))"
    unfolding report_unsent_def by (rule raise_alert_open[OF assms])
  with ok show "count_list (open_keys (admin_alerts (report_unsent now kind email db))) SEND_FAILED = 1"
    unfolding alerts_ok_def by (intro count_list_distinct) blast+
qed

end
