(* ===== verification/Composition.thy ===== *)
theory Composition
  imports OrderViews Webhook
begin

text \<open>
  The adapters of \<^verbatim>\<open>api/deps.py\<close>: what the modules declare and leave to the composition root, on the
  modules that can answer. Each is an interpretation of the contract its user states, so what was
  proved inside the contract holds of the program as it is wired.
\<close>

section \<open>The adapters\<close>

text \<open>\<^verbatim>\<open>OrderRefundSink.on_refund\<close>: money an order was paid with has gone back.\<close>

definition order_refund_sink :: "datetime \<Rightarrow> 'a orders_db_scheme refund_sink" where
  "order_refund_sink now p r db =
     snd (apply_payment_refund (py_order_id p) (py_refunded_inr p) (py_amount_inr p) now db)"

text \<open>\<^verbatim>\<open>OrderProgress.task_moved\<close>\<close>

definition order_progress :: "'a orders_db_scheme task_outcome" where
  "order_progress t db = snd (refresh_order_state (tk_document_id t) (tk_kiosk_id t) db)"

text \<open>The outcome the program wires in is one the paper ledger can be used with: it moves orders only.\<close>

lemma order_progress_leaves_trays: "leaves_trays order_progress"
  by (auto simp: leaves_trays_def order_progress_def refresh_order_state_def derive_from_prints_def save_order_def Let_def
      split: list.split option.split)

text \<open>\<^verbatim>\<open>OrderedDocuments.is_referenced\<close>\<close>

definition ordered_documents :: "nat \<Rightarrow> 'a orders_db_scheme \<Rightarrow> bool" where
  "ordered_documents document_id db = document_is_in_an_order document_id db"

text \<open>
  \<^verbatim>\<open>WebhookSettlement\<close>. A capture that bought nothing that still exists is logged and kept.
\<close>

definition settle_an_order :: "datetime \<Rightarrow> payment \<Rightarrow> 'a orders_db_scheme \<Rightarrow> 'a orders_db_scheme result" where
  "settle_an_order now p db =
     bind_res (settle_paid_order (py_order_id p) (py_razorpay_payment_id p)
                 (case py_captured_at p of Some t \<Rightarrow> t | None \<Rightarrow> now) db) (\<lambda>(_, db'). Inr db')"

definition settle_a_topup :: "payment \<Rightarrow> 'a wallet_db_scheme \<Rightarrow> 'a wallet_db_scheme result" where
  "settle_a_topup p db =
     bind_res (credit (py_user_id p) (py_amount_inr p) TOPUP
                 (case or_else (py_razorpay_payment_id p) (Some (py_public_id p)) of Some ref \<Rightarrow> ref | None \<Rightarrow> [])
                 None db) (\<lambda>(_, db'). Inr db')"

definition settle_a_subscription :: "datetime \<Rightarrow> payment \<Rightarrow> 'a billing_db_scheme \<Rightarrow> 'a billing_db_scheme result" where
  "settle_a_subscription now p db =
     (case py_subscription_id p of
        None \<Rightarrow> Inr db
      | Some i \<Rightarrow>
          (case subscription_row i db of
             None \<Rightarrow> Inr db
           | Some s \<Rightarrow> bind_res (activate_subscription s now db) (\<lambda>(_, db'). Inr db')))"

definition webhook_settlement :: "datetime \<Rightarrow> 'a orders_db_scheme settlement" where
  "webhook_settlement now =
     \<lparr>settle_print_order = settle_an_order now, settle_wallet_topup = settle_a_topup,
      settle_subscription = settle_a_subscription now\<rparr>"

section \<open>The refund sink keeps the books\<close>

lemma apply_payment_refund_frame:
  "payments (snd (apply_payment_refund o_id a b now db)) = payments db"
  "refunds (snd (apply_payment_refund o_id a b now db)) = refunds db"
  "wallets (snd (apply_payment_refund o_id a b now db)) = wallets db"
  "wallet_entries (snd (apply_payment_refund o_id a b now db)) = wallet_entries db"
  "audit_log (snd (apply_payment_refund o_id a b now db)) = audit_log db"
  "users (snd (apply_payment_refund o_id a b now db)) = users db"
  "order_items (snd (apply_payment_refund o_id a b now db)) = order_items db"
  by (simp_all add: apply_payment_refund_def Let_def save_order_def split: option.splits)

interpretation order_sink: refund_listener "order_refund_sink now" for now
  by unfold_locales (simp_all add: order_refund_sink_def apply_payment_refund_frame)

section \<open>Settling keeps the books\<close>

lemma enqueue_items_books:
  fixes db :: "'a orders_db_scheme"
  shows "enqueue_items k is db = Inr (ts, db') \<Longrightarrow> payments db' = payments db \<and> refunds db' = refunds db
    \<and> wallets db' = wallets db \<and> wallet_entries db' = wallet_entries db"
proof (induction "is" arbitrary: db ts)
  case (Cons i rest)
  have one: "payments s' = payments s \<and> refunds s' = refunds s \<and> wallets s' = wallets s \<and> wallet_entries s' = wallet_entries s"
    if "enqueue_task d k opts n pos s = Inr (t, s')" for d opts n pos t and s s' :: "'a orders_db_scheme"
    using that by (auto simp: enqueue_task_def bind_res_Inr_iff Let_def mint_def mark_for_wake_def split: if_splits)
  show ?case
    using Cons.prems by (auto simp: bind_res_Inr_iff split: if_splits dest!: one Cons.IH)
qed simp

lemma mark_paid_books:
  "mark_paid r ref now db = Inr (ts, r', db') \<Longrightarrow> payments db' = payments db \<and> refunds db' = refunds db
    \<and> wallets db' = wallets db \<and> wallet_entries db' = wallet_entries db"
  by (auto simp: mark_paid_def bind_res_Inr_iff Let_def save_order_def dest!: enqueue_items_books)

lemma settle_paid_order_books:
  "settle_paid_order o_id ref now db = Inr (ts, db') \<Longrightarrow> payments db' = payments db \<and> refunds db' = refunds db
    \<and> wallets db' = wallets db \<and> wallet_entries db' = wallet_entries db"
  by (auto simp: settle_paid_order_def bind_res_Inr_iff split: option.splits dest!: mark_paid_books)

lemma activate_books:
  fixes db :: "'a payments_db_scheme"
  shows "activate_subscription s now db = Inr (s', db') \<Longrightarrow> payments db' = payments db \<and> refunds db' = refunds db
    \<and> wallets db' = wallets db \<and> wallet_entries db' = wallet_entries db"
  by (auto simp: activate_subscription_def Let_def save_subscription_def split: if_splits option.splits)

lemma settle_keeps_the_books:
  "settle (webhook_settlement now) p db = Inr db' \<Longrightarrow> payments db' = payments db \<and> refunds db' = refunds db"
  by (auto simp: settle_def webhook_settlement_def settle_an_order_def settle_a_topup_def settle_a_subscription_def
      bind_res_Inr_iff split: payment_kind.splits option.splits
      dest!: settle_paid_order_books credit_frame activate_books)

interpretation wired: webhook_wiring "order_refund_sink now" "webhook_settlement now'" for now now'
  by unfold_locales (rule settle_keeps_the_books)

section \<open>What a delivery does, as the program is wired\<close>

text \<open>
  C10. Razorpay delivers until it is answered. A delivery that was answered leaves the books sound, and
  delivering it again at once is answered and changes nothing. A delivery that was acted on changes nothing however
  much later it comes again, whatever has happened in between, as long as its payment is the row it left or is
  captured (for a refund that is reported: whatever became of the row) and no refund was struck out: no second
  capture, no second credit, no second refund, no second activation.
\<close>

theorem a_redelivery_changes_nothing:
  fixes db :: "'a orders_db_scheme"
  assumes "books_ok db"
    and "handle_webhook mac parse body sg secret (webhook_settlement now) (Some (order_refund_sink now)) who now db = Inr (out, db')"
  shows "books_ok db'
    \<and> (\<exists>o2. handle_webhook mac parse body sg secret (webhook_settlement later) (Some (order_refund_sink later)) who later db' = Inr (o2, db'))
    \<and> (wo_handled out \<longrightarrow> (\<exists>payload dl. parse body = Some payload \<and> read_delivery payload = Inr (Inr dl) \<and> still_settled dl db' db'
         \<and> (\<forall>db2. still_settled dl db' db2 \<longrightarrow> (\<exists>o2. handle_webhook mac parse body sg secret (webhook_settlement later)
              (Some (order_refund_sink later)) who later db2 = Inr (o2, db2)))))"
  using wired.redelivery[OF assms] wired.redelivered_later[OF assms] by blast

text \<open>A delivery read off the body: a capture, of a payment that waits for it.\<close>

definition capture_of ::
  "mac \<Rightarrow> (string \<Rightarrow> pyval option) \<Rightarrow> string \<Rightarrow> string option \<Rightarrow> string \<Rightarrow> payment \<Rightarrow> string \<Rightarrow> bool" where
  "capture_of mac parse body sg secret p pid \<longleftrightarrow>
     verify_webhook_signature mac body sg secret = Inr True
     \<and> (\<exists>payload dl. parse body = Some payload \<and> read_delivery payload = Inr (Inr dl) \<and> dl_event dl = EVENT_CAPTURED
          \<and> as_text (dl_payment_id dl) = Inr pid \<and> py_razorpay_order_id p = Some (dl_order_id dl)) \<and> py_status p \<noteq> CAPTURED"

definition captured_row :: "payment \<Rightarrow> string \<Rightarrow> datetime \<Rightarrow> payment" where
  "captured_row p pid now = p\<lparr>py_status := CAPTURED, py_razorpay_payment_id := Some pid, py_captured_at := Some now\<rparr>"

lemma capture_delivered_to_settlement:
  fixes db :: "'a orders_db_scheme"
  assumes ok: "books_ok db" and p: "p \<in> set (payments db)" and cap: "capture_of mac parse body sg secret p pid"
    and new: "\<forall>q \<in> set (payments db). py_id q \<noteq> py_id p \<longrightarrow> py_razorpay_payment_id q \<noteq> Some pid"
  shows "handle_webhook mac parse body sg secret st sink (py_collecting_user_id p) now db =
    bind_res (settle st (captured_row p pid now) (save_payment (captured_row p pid now) db))
      (\<lambda>db'. Inr (outcome (PStr EVENT_CAPTURED) True ''captured and settled'', db'))"
proof -
  from cap obtain payload dl where c: "verify_webhook_signature mac body sg secret = Inr True" "parse body = Some payload"
    "read_delivery payload = Inr (Inr dl)" "dl_event dl = EVENT_CAPTURED" "as_text (dl_payment_id dl) = Inr pid"
    "py_razorpay_order_id p = Some (dl_order_id dl)" "py_status p \<noteq> CAPTURED"
    by (auto simp: capture_of_def)
  have look: "payment_for_razorpay_order (dl_order_id dl) db = Some p"
    unfolding payment_for_razorpay_order_def using ok p c(6) by (intro first_where_unique_col) (auto simp: books_ok_def)
  have rc: "record_capture p pid now db = Inr (captured_row p pid now, save_payment (captured_row p pid now) db)"
    using c(7) new by (auto simp: record_capture_def captured_row_def Let_def)
  have "EVENT_CAPTURED \<noteq> EVENT_FAILED" "EVENT_CAPTURED \<noteq> EVENT_REFUNDED"
    by (simp_all add: EVENT_CAPTURED_def EVENT_FAILED_def EVENT_REFUNDED_def)
  then show ?thesis using c look rc by (simp add: handle_webhook_def apply_delivery_def Let_def)
qed

lemma capture_settles_shape:
  fixes db :: "'a orders_db_scheme"
  assumes ok: "books_ok db" "orders_ok db" and p: "p \<in> set (payments db)" and r: "r \<in> set (orders db)"
    and cap: "capture_of mac parse body sg secret p pid"
    and new: "\<forall>q \<in> set (payments db). py_id q \<noteq> py_id p \<longrightarrow> py_razorpay_payment_id q \<noteq> Some pid"
    and buys: "py_kind p = PRINT_ORDER" "py_order_id p = Some (or_id r)"
  shows "case require_payable r now of
      Inr _ \<Rightarrow> (\<exists>out ts db'. handle_webhook mac parse body sg secret (webhook_settlement now) sink (py_collecting_user_id p) now db
            = Inr (out, db') \<and> wo_handled out \<and> books_ok db' \<and> payments db' = put_row py_id (captured_row p pid now) (payments db)
          \<and> order_row (or_id r) db' = Some (paid_row r (Some pid) now) \<and> print_tasks db' = print_tasks db @ ts
          \<and> list_all2 (item_queued (or_kiosk_id r)) (filter printable (items_of (or_id r) db)) ts)
    | Inl e \<Rightarrow> handle_webhook mac parse body sg secret (webhook_settlement now) sink (py_collecting_user_id p) now db = Inl e
          \<and> status_code e = 409"
proof -
  let ?p = "captured_row p pid now"
  let ?s = "save_payment ?p db"
  note go = capture_delivered_to_settlement[OF ok(1) p cap new, of "webhook_settlement now" sink now]
  have s: "orders ?s = orders db" "order_items ?s = order_items db" "print_tasks ?s = print_tasks db" by (simp_all add: save_payment_def)
  have row: "order_row (or_id r) ?s = Some r" using order_row_ok[OF ok(2) r] by (simp add: order_row_def s)
  have st: "settle (webhook_settlement now) ?p ?s = bind_res (mark_paid r (Some pid) now ?s) (\<lambda>(_, _, db'). Inr db')"
    using buys by (simp add: settle_def webhook_settlement_def settle_an_order_def settle_paid_order_def captured_row_def
        row[unfolded captured_row_def] bind_res_assoc case_prod_unfold)
  show ?thesis
  proof (cases "require_payable r now")
    case (Inl e)
    then have "settle (webhook_settlement now) ?p ?s = Inl e" by (simp add: st mark_paid_refused)
    with Inl payable_refusal[OF Inl] go show ?thesis by auto
  next
    case (Inr u)
    have ok': "orders_ok ?s" using ok(2) s orders_ok_frame[of ?s db] by simp
    from mark_paid_effect[OF ok', of r now "Some pid"] Inr obtain ts db' where
      m: "mark_paid r (Some pid) now ?s = Inr (ts, paid_row r (Some pid) now, db')"
      and t: "list_all2 (item_queued (or_kiosk_id r)) (filter printable (items_of (or_id r) ?s)) ts"
      and qd: "queued_onto ts (save_order (paid_row r (Some pid) now) ?s) db'" by auto
    have set: "settle (webhook_settlement now) ?p ?s = Inr db'" by (simp add: st m)
    note f = queued_onto_frame[OF qd]
    have "books_ok ?s" using books_update[OF ok(1) p, of ?p] new by (simp add: captured_row_def)
    then have "books_ok db'" using wired.settle_books[OF set] by simp
    moreover have "payments db' = put_row py_id ?p (payments db)" using f by (simp add: save_payment_def)
    moreover have "order_row (or_id r) db' = Some (paid_row r (Some pid) now)"
      using f row by (simp add: order_row_def s row_by_put_row paid_row_def)
    moreover have "print_tasks db' = print_tasks db @ ts" using f by (simp add: s)
    moreover have "items_of (or_id r) ?s = items_of (or_id r) db" by (rule items_of_frame[OF s(2)])
    ultimately show ?thesis using Inr go t by (simp add: set outcome_def)
  qed
qed

text \<open>
  C11. A captured payment and the order it was for, on the program as it is wired. When the
  order can still be paid, the delivery records the capture, makes the order PAID as of the capture
  and queues one print per document of the order, all in one. When it cannot, because it expired, was
  paid by another payment, or has ended, the delivery is refused with a conflict: the capture is not
  recorded, nothing says the money has arrived, and Razorpay delivers again for as long as it tries.
\<close>

theorem a_capture_pays_its_order:
  fixes db :: "'a orders_db_scheme"
  assumes ok: "books_ok db" "orders_ok db" and p: "p \<in> set (payments db)" and r: "r \<in> set (orders db)"
    and cap: "capture_of mac parse body sg secret p pid"
    and new: "\<forall>q \<in> set (payments db). py_id q \<noteq> py_id p \<longrightarrow> py_razorpay_payment_id q \<noteq> Some pid"
    and buys: "py_kind p = PRINT_ORDER" "py_order_id p = Some (or_id r)"
  shows "case require_payable r now of
      Inr _ \<Rightarrow> (\<exists>out ts db'. handle_webhook mac parse body sg secret (webhook_settlement now) sink (py_collecting_user_id p) now db
            = Inr (out, db') \<and> wo_handled out \<and> books_ok db' \<and> payments db' = put_row py_id (captured_row p pid now) (payments db)
          \<and> order_row (or_id r) db' = Some (paid_row r (Some pid) now) \<and> print_tasks db' = print_tasks db @ ts
          \<and> list_all2 (item_queued (or_kiosk_id r)) (filter printable (items_of (or_id r) db)) ts)
    | Inl e \<Rightarrow> handle_webhook mac parse body sg secret (webhook_settlement now) sink (py_collecting_user_id p) now db = Inl e
          \<and> status_code e = 409"
  by (rule capture_settles_shape[OF assms])

definition capturing_example :: orders_db where
  "capturing_example = orders_blank\<lparr>payments := [open_payment_example], orders := [order_example], order_items := [item_example]\<rparr>"

lemma capturing_example_ok: "books_ok capturing_example" "orders_ok capturing_example"
    "open_payment_example \<in> set (payments capturing_example)" "order_example \<in> set (orders capturing_example)"
    "capture_of toy_mac (\<lambda>_. Some capture_body) ''body'' (Some ''mac:key:body'') ''key'' open_payment_example ''pay_7''"
    "\<forall>q \<in> set (payments capturing_example). py_id q \<noteq> py_id open_payment_example \<longrightarrow> py_razorpay_payment_id q \<noteq> Some ''pay_7''"
    "py_kind open_payment_example = PRINT_ORDER" "py_order_id open_payment_example = Some (or_id order_example)"
    "py_collecting_user_id open_payment_example = Some 1"
proof -
  have t: "payments capturing_example = [open_payment_example]" "refunds capturing_example = []"
    "orders capturing_example = [order_example]" "order_items capturing_example = [item_example]"
    by (simp_all add: capturing_example_def orders_blank_def)
  show "books_ok capturing_example" using books_example_ok by (simp add: books_ok_def t books_example_def payments_blank_def)
  show "orders_ok capturing_example" using item_example_priced
    by (simp add: orders_ok_def t) (simp add: order_example_def item_example_def)
  have "verify_webhook_signature toy_mac ''body'' (Some ''mac:key:body'') ''key'' = Inr True" by code_simp
  then show "capture_of toy_mac (\<lambda>_. Some capture_body) ''body'' (Some ''mac:key:body'') ''key'' open_payment_example ''pay_7''"
    by (simp add: capture_of_def capture_body_read open_payment_example_def owner_payment_example_def)
  show "open_payment_example \<in> set (payments capturing_example)" "order_example \<in> set (orders capturing_example)" by (simp_all add: t)
  show "\<forall>q \<in> set (payments capturing_example). py_id q \<noteq> py_id open_payment_example \<longrightarrow> py_razorpay_payment_id q \<noteq> Some ''pay_7''"
    by (simp add: t)
qed (simp_all add: open_payment_example_def owner_payment_example_def order_example_def)

lemma order_example_payable: "require_payable order_example 9 = Inr ()" "require_payable order_example 200 = Inl (Conflict ORDER_EXPIRED)"
  by (simp_all add: require_payable_def order_example_def SETTLED_ORDER_STATES_def)

theorem a_capture_pays_its_order_witness:
  "\<exists>out db'. handle_webhook toy_mac (\<lambda>_. Some capture_body) ''body'' (Some ''mac:key:body'') ''key'' (webhook_settlement 9)
      (Some (order_refund_sink 9)) (Some 1) 9 capturing_example = Inr (out, db')
    \<and> order_row (or_id order_example) db' = Some (paid_row order_example (Some ''pay_7'') 9)
    \<and> handle_webhook toy_mac (\<lambda>_. Some capture_body) ''body'' (Some ''mac:key:body'') ''key'' (webhook_settlement 200)
      (Some (order_refund_sink 200)) (Some 1) 200 capturing_example = Inl (Conflict ORDER_EXPIRED)"
  using a_capture_pays_its_order[OF capturing_example_ok(1-8), of 9 "Some (order_refund_sink 9)"]
    a_capture_pays_its_order[OF capturing_example_ok(1-8), of 200 "Some (order_refund_sink 200)"]
  unfolding order_example_payable sum.case capturing_example_ok(9) by blast

theorem a_redelivery_changes_nothing_witness:
  "\<exists>out o2 o3 db'. handle_webhook toy_mac (\<lambda>_. Some capture_body) ''body'' (Some ''mac:key:body'') ''key'' (webhook_settlement 9)
      (Some (order_refund_sink 9)) (Some 1) 9 capturing_example = Inr (out, db') \<and> wo_handled out
    \<and> handle_webhook toy_mac (\<lambda>_. Some capture_body) ''body'' (Some ''mac:key:body'') ''key'' (webhook_settlement 500)
      (Some (order_refund_sink 500)) (Some 1) 500 db' = Inr (o2, db')
    \<and> handle_webhook toy_mac (\<lambda>_. Some capture_body) ''body'' (Some ''mac:key:body'') ''key'' (webhook_settlement 500)
      (Some (order_refund_sink 500)) (Some 1) 500 (db'\<lparr>orders := []\<rparr>) = Inr (o3, db'\<lparr>orders := []\<rparr>)"
proof -
  from capture_settles_shape[OF capturing_example_ok(1-8), of 9 "Some (order_refund_sink 9)"]
  obtain out db' where run: "handle_webhook toy_mac (\<lambda>_. Some capture_body) ''body'' (Some ''mac:key:body'') ''key'' (webhook_settlement 9)
      (Some (order_refund_sink 9)) (Some 1) 9 capturing_example = Inr (out, db')" "wo_handled out"
    unfolding order_example_payable sum.case capturing_example_ok(9) by blast
  have "still_settled dl db' (db'\<lparr>orders := []\<rparr>) = still_settled dl db' db'" for dl
    by (simp add: still_settled_def payment_for_razorpay_order_def books_ok_def)
  with a_redelivery_changes_nothing[OF capturing_example_ok(1) run(1), of 500] run show ?thesis by blast
qed

end
