(* ===== verification/Refunding.thy ===== *)
theory Refunding
  imports Composition Notifying
begin

text \<open>
  \<^verbatim>\<open>refunding.py\<close>: giving back what was paid for an order, the one use case behind the administrator's
  and the owner's door, with the routes \<^verbatim>\<open>api/admin/refunds.py\<close> and \<^verbatim>\<open>api/owner/refunds.py\<close>.
\<close>

section \<open>The use case\<close>

definition NOTHING_PAID :: string where
  "NOTHING_PAID = ''Nothing has been paid for that order, so there is nothing to give back.''"

definition FOREIGN_MONEY :: string where
  "FOREIGN_MONEY = ''That payment was collected by Printvendo rather than by your own account, so it cannot be refunded from here. Ask Printvendo to refund it.''"

definition GUEST_HAS_NO_WALLET :: string where
  "GUEST_HAS_NO_WALLET = ''That order was placed by a guest, who has no balance to credit. Refund it to the original payment method instead.''"

record issued_refund =
  ir_id :: string
  ir_payment_id :: string
  ir_order_id :: string
  ir_amount_inr :: rat
  ir_destination :: string
  ir_refunded_total_inr :: rat
  ir_created_at :: datetime

fun destination_value :: "refund_destination \<Rightarrow> string" where
  "destination_value TO_SOURCE = ''source''"
| "destination_value TO_WALLET = ''wallet''"

definition chosen_destination :: "payment \<Rightarrow> refund_destination option \<Rightarrow> refund_destination" where
  "chosen_destination p asked =
     (case asked of
        Some d \<Rightarrow> d
      | None \<Rightarrow> if py_source p = SRC_WALLET then TO_WALLET else TO_SOURCE)"

text \<open>\<^verbatim>\<open>db.get(User, id)\<close>\<close>

definition user_of :: "nat \<Rightarrow> 'a identity_db_scheme \<Rightarrow> user option" where
  "user_of i db = row_by us_id (users db) i"

definition tell_them ::
  "'a orders_db_scheme notifier \<Rightarrow> order \<Rightarrow> rat \<Rightarrow> refund_destination \<Rightarrow> 'a orders_db_scheme \<Rightarrow> 'a orders_db_scheme" where
  "tell_them send r amount d db =
     (case user_of (or_user_id r) db of
        None \<Rightarrow> db
      | Some payer \<Rightarrow>
          if us_email payer = [] then db
          else if d = TO_WALLET
          then send (RefundToWallet (us_email payer) (show_money amount)
                       (show_money (balance_of (us_id payer) db)) (or_public_id r)) db
          else send (RefundToSource (us_email payer) (show_money amount) (or_public_id r)) db)"

definition record_refund_audit ::
  "order \<Rightarrow> payment \<Rightarrow> refund_row \<Rightarrow> refund_destination \<Rightarrow> nat \<Rightarrow> string option \<Rightarrow> 'a ops_db_scheme \<Rightarrow> 'a ops_db_scheme" where
  "record_refund_audit r p row d actor reason db =
     snd (record_audit ''payment.refunded'' ''payment'' (Some (py_public_id p)) (Some actor) None
       (Some (PDict [(''refund_id'', PStr (rf_public_id row)), (''amount_inr'', PStr (show_money (rf_amount_inr row))),
                     (''destination'', PStr (destination_value d)), (''order_id'', PStr (or_public_id r))])) reason db)"

definition refund_an_order ::
  "razorpay_gateway \<Rightarrow> secret_box \<Rightarrow> string \<Rightarrow> string \<Rightarrow> 'a orders_db_scheme refund_sink \<Rightarrow>
   'a orders_db_scheme notifier \<Rightarrow> order \<Rightarrow> nat \<Rightarrow> string \<Rightarrow> rat option \<Rightarrow> refund_destination option \<Rightarrow>
   string option \<Rightarrow> bool \<Rightarrow> 'a orders_db_scheme \<Rightarrow> (issued_refund \<times> 'a orders_db_scheme) result" where
  "refund_an_order rz box key_id key_secret sink send r actor key amount asked reason own_takings_only db =
     (case payment_for_order (or_id r) db of
        None \<Rightarrow> Inl (NotFound NOTHING_PAID)
      | Some p \<Rightarrow>
          if own_takings_only \<and> py_collecting_user_id p \<noteq> Some actor then Inl (Conflict FOREIGN_MONEY)
          else
            let owed = (case amount of Some a \<Rightarrow> a | None \<Rightarrow> py_amount_inr p - py_refunded_inr p);
                d = chosen_destination p asked;
                payer = user_of (or_user_id r) db in
            if d = TO_WALLET \<and> (case payer of Some u \<Rightarrow> us_is_guest u | None \<Rightarrow> False)
            then Inl (Conflict GUEST_HAS_NO_WALLET)
            else
              bind_res (if d = TO_SOURCE then bind_res (credentials_for_payment box key_id key_secret p db) (\<lambda>c. Inr (Some c))
                        else Inr None) (\<lambda>creds.
                let already_done = (refund_for_key key db \<noteq> None) in
                bind_res (refund p owed d key (Some actor) reason (Some rz) creds None (Some sink) db) (\<lambda>(row, p', db1).
                  let db2 = (if already_done then db1
                             else record_refund_audit r p' row d actor reason (tell_them send r (rf_amount_inr row) d db1))
                  in Inr (\<lparr>ir_id = rf_public_id row, ir_payment_id = py_public_id p', ir_order_id = or_public_id r,
                           ir_amount_inr = rf_amount_inr row, ir_destination = destination_value d,
                           ir_refunded_total_inr = py_refunded_inr p', ir_created_at = rf_created_at row\<rparr>, db2))))"

section \<open>The two doors\<close>

definition NO_SUCH_ORDER :: string where
  "NO_SUCH_ORDER = ''That order does not exist.''"

definition admin_order :: "string \<Rightarrow> 'a orders_db_scheme \<Rightarrow> order result" where
  "admin_order order_id db =
     (case parse_id order_id ORDER of
        Inl _ \<Rightarrow> Inl (NotFound NO_SUCH_ORDER)
      | Inr _ \<Rightarrow> (case order_by_public_id order_id db of
                    None \<Rightarrow> Inl (NotFound NO_SUCH_ORDER)
                  | Some r \<Rightarrow> Inr r))"

definition order_at :: "nat \<Rightarrow> string \<Rightarrow> 'a orders_db_scheme \<Rightarrow> order result" where
  "order_at kiosk_id order_id db =
     (case parse_id order_id ORDER of
        Inl _ \<Rightarrow> Inl (NotFound NO_SUCH_ORDER)
      | Inr _ \<Rightarrow> (case order_by_public_id order_id db of
                    None \<Rightarrow> Inl (NotFound NO_SUCH_ORDER)
                  | Some r \<Rightarrow> if or_kiosk_id r \<noteq> kiosk_id then Inl (NotFound NO_SUCH_ORDER) else Inr r))"

definition refund_any_order ::
  "razorpay_gateway \<Rightarrow> secret_box \<Rightarrow> string \<Rightarrow> string \<Rightarrow> 'a orders_db_scheme notifier \<Rightarrow> datetime \<Rightarrow> user \<Rightarrow> string \<Rightarrow>
   string \<Rightarrow> rat option \<Rightarrow> refund_destination option \<Rightarrow> string option \<Rightarrow> 'a orders_db_scheme \<Rightarrow>
   (issued_refund \<times> 'a orders_db_scheme) result" where
  "refund_any_order rz box key_id key_secret send now admin order_id key amount asked reason db =
     bind_res (require_role ADMIN admin db) (\<lambda>_.
     bind_res (admin_order order_id db) (\<lambda>r.
       refund_an_order rz box key_id key_secret (order_refund_sink now) send r (us_id admin) key amount asked reason False db))"

definition refund_an_order_here ::
  "razorpay_gateway \<Rightarrow> secret_box \<Rightarrow> string \<Rightarrow> string \<Rightarrow> 'a orders_db_scheme notifier \<Rightarrow> datetime \<Rightarrow> user \<Rightarrow> string \<Rightarrow>
   string \<Rightarrow> string \<Rightarrow> rat option \<Rightarrow> string option \<Rightarrow> 'a orders_db_scheme \<Rightarrow>
   (issued_refund \<times> 'a orders_db_scheme) result" where
  "refund_an_order_here rz box key_id key_secret send now actor kiosk_id order_id key amount reason db =
     bind_res (require_role OWNER actor db) (\<lambda>_.
     bind_res (get_kiosk (kiosk_scope actor db) kiosk_id db) (\<lambda>k.
     bind_res (order_at (ki_id k) order_id db) (\<lambda>r.
       refund_an_order rz box key_id key_secret (order_refund_sink now) send r (us_id actor) key amount None reason True db)))"

text \<open>\<^verbatim>\<open>confirm_an_order_printed\<close>: it printed after all, with what the device had reported in the trail.\<close>

fun order_state_value :: "order_state \<Rightarrow> string" where
  "order_state_value DRAFT = ''draft''"
| "order_state_value AWAITING_PAYMENT = ''awaiting_payment''"
| "order_state_value PAID = ''paid''"
| "order_state_value DISPATCHED = ''dispatched''"
| "order_state_value COMPLETED = ''completed''"
| "order_state_value ORD_EXPIRED = ''expired''"
| "order_state_value ORD_REFUNDED = ''refunded''"
| "order_state_value PARTIALLY_FAILED = ''partially_failed''"

definition opt_str :: "string option \<Rightarrow> pyval" where
  "opt_str s = (case s of None \<Rightarrow> PNone | Some t \<Rightarrow> PStr t)"

definition confirm_an_order_printed ::
  "user \<Rightarrow> string \<Rightarrow> string option \<Rightarrow> datetime \<Rightarrow> 'a orders_db_scheme \<Rightarrow> (order \<times> 'a orders_db_scheme) result" where
  "confirm_an_order_printed admin order_id note_text now db =
     bind_res (require_role ADMIN admin db) (\<lambda>_.
     bind_res (admin_order order_id db) (\<lambda>r.
     bind_res (get_kiosk (kiosk_scope admin db) (ov_kiosk_id (view_of r db)) db) (\<lambda>k.
     bind_res (confirm_order_printed (kiosk_paper_ledger k) r now db) (\<lambda>(confirmed, r', db1).
       Inr (r', snd (record_audit ''order.confirmed_printed'' ''order'' (Some (or_public_id r)) (Some (us_id admin))
         (Some (PDict [(''state'', PStr (order_state_value (or_state r))),
            (''prints'', PList (map (\<lambda>c. PDict [(''task_id'', PStr (cp_task_id c)),
               (''error_code'', opt_str (cp_error_code c)), (''error_message'', opt_str (cp_error_message c))]) confirmed))]))
         (Some (PDict [(''state'', PStr (order_state_value (or_state r')))])) note_text db1))))))"

section \<open>The payment of an order\<close>

lemma newest_payment_iff:
  assumes "distinct (map py_id (payments db))"
  shows "newest_payment m db = Some p \<longleftrightarrow>
    p \<in> set (payments db) \<and> m p \<and> (\<forall>q \<in> set (payments db). m q \<longrightarrow> py_id q \<le> py_id p)"
proof (cases "sort_key (\<lambda>p. - int (py_id p)) (filter m (payments db))")
  case Nil
  then have "filter m (payments db) = []" by (metis length_0_conv length_sort)
  then show ?thesis using Nil by (auto simp: newest_payment_def filter_empty_conv)
next
  case (Cons a as)
  have members: "set (a # as) = {q \<in> set (payments db). m q}" unfolding Cons[symmetric] by auto
  have "sorted (map (\<lambda>p. - int (py_id p)) (a # as))" unfolding Cons[symmetric] by (rule sorted_sort_key)
  then have top: "\<forall>q \<in> set as. py_id q \<le> py_id a" by auto
  have a: "a \<in> set (payments db)" "m a" "\<forall>q \<in> set (payments db). m q \<longrightarrow> py_id q \<le> py_id a"
    using members top by auto
  have "newest_payment m db = Some a" by (simp add: newest_payment_def Cons)
  moreover have "p = a" if "p \<in> set (payments db)" "m p" "\<forall>q \<in> set (payments db). m q \<longrightarrow> py_id q \<le> py_id p"
    using distinct_key_eq[OF assms a(1) that(1)] that a by (meson antisym)
  ultimately show ?thesis using a by auto
qed

lemma payment_for_order_SomeD:
  assumes "books_ok db" and "payment_for_order i db = Some p"
  shows "p \<in> set (payments db)" "py_order_id p = Some i" "py_kind p = PRINT_ORDER"
  using assms newest_payment_iff[OF books_ok_ids[OF assms(1)]] by (auto simp: payment_for_order_def)

text \<open>Updating the row of the payment found, without moving it to another order, finds the update.\<close>

lemma payment_for_order_put:
  assumes ok: "books_ok db" and p: "payment_for_order i db = Some p"
    and db': "payments db' = put_row py_id p' (payments db)"
    and same: "py_id p' = py_id p" "py_order_id p' = py_order_id p" "py_kind p' = py_kind p"
  shows "payment_for_order i db' = Some p'"
proof -
  note d = payment_for_order_SomeD[OF ok p]
  have ids: "distinct (map py_id (payments db))" "distinct (map py_id (payments db'))"
    using books_ok_ids[OF ok] by (simp_all add: db' distinct_put_row)
  have "p' \<in> set (payments db')" using d(1) same(1) by (auto simp: db' set_put_row)
  moreover have "py_id q \<le> py_id p'" if "q \<in> set (payments db')" "py_order_id q = Some i" "py_kind q = PRINT_ORDER" for q
    using that p newest_payment_iff[OF ids(1)] same by (auto simp: payment_for_order_def db' set_put_row split: if_splits)
  ultimately show ?thesis using d same by (auto simp: payment_for_order_def newest_payment_iff[OF ids(2)])
qed

section \<open>What a refund leaves alone\<close>

abbreviation bystanders :: "'a orders_db_scheme \<Rightarrow> _" where
  "bystanders db \<equiv> (users db, payment_configs db, orders db, order_items db, audit_log db)"

lemma refund_bystanders:
  fixes db :: "'a orders_db_scheme"
  assumes "refund p amount d key actor reason rz creds ext None db = Inr (row, p', db')"
  shows "bystanders db' = bystanders db"
proof (cases "refund_for_key key db")
  case (Some already)
  with assms show ?thesis by (auto simp: refund_def split: if_splits)
next
  case None
  have ins: "bystanders s' = bystanders s" if "insert_refund p a d key sent actor reason s = Inr (row, s')"
    for a sent row and s s' :: "'a orders_db_scheme"
    using that by (auto simp: insert_refund_def Let_def mint_def split: if_splits)
  have cred: "bystanders s' = bystanders s" if "credit u a kd ref n s = Inr (e, s')" for u a kd ref n e and s s' :: "'a orders_db_scheme"
    using that by (auto simp: credit_def move_def wallet_for_def Let_def mint_def split: option.splits if_splits)
  from assms None obtain sent row1 db1 db3 where i:
    "insert_refund p (as_money amount) d key sent actor reason db = Inr (row1, db1)"
    "(if d = TO_WALLET then bind_res (credit (py_user_id p) (as_money amount) ENTRY_REFUND (''refund:'' @ key) reason
        (save_payment (after_refund (as_money amount) p) db1)) (\<lambda>(_, db3). Inr db3)
      else Inr (save_payment (after_refund (as_money amount) p) db1)) = Inr db3" "db' = db3"
    by (auto simp: refund_def Let_def bind_res_Inr_iff split: if_splits)
  with ins[OF i(1)] show ?thesis by (auto simp: bind_res_Inr_iff save_payment_def split: if_splits dest!: cred)
qed

section \<open>The desk\<close>

definition issued :: "order \<Rightarrow> payment \<Rightarrow> refund_row \<Rightarrow> refund_destination \<Rightarrow> issued_refund" where
  "issued r p' row d = \<lparr>ir_id = rf_public_id row, ir_payment_id = py_public_id p', ir_order_id = or_public_id r,
     ir_amount_inr = rf_amount_inr row, ir_destination = destination_value d,
     ir_refunded_total_inr = py_refunded_inr p', ir_created_at = rf_created_at row\<rparr>"

text \<open>The gates in front of the money, for a first attempt and for a retry alike.\<close>

definition admitted ::
  "secret_box \<Rightarrow> string \<Rightarrow> string \<Rightarrow> order \<Rightarrow> payment \<Rightarrow> nat \<Rightarrow> refund_destination \<Rightarrow> bool \<Rightarrow>
   credentials option \<Rightarrow> 'a payments_db_scheme \<Rightarrow> bool" where
  "admitted box kid ks r p actor d own creds db \<longleftrightarrow>
     (own \<longrightarrow> py_collecting_user_id p = Some actor)
     \<and> (d = TO_WALLET \<longrightarrow> \<not> (case user_of (or_user_id r) db of Some u \<Rightarrow> us_is_guest u | None \<Rightarrow> False))
     \<and> (if d = TO_SOURCE then bind_res (credentials_for_payment box kid ks p db) (\<lambda>c. Inr (Some c)) else Inr None) = Inr creds"

text \<open>A refund desk: whoever sends the messages, and whoever listens to refunds.\<close>

locale refund_desk = courier send + refund_listener on_refund
  for send :: "'a orders_db_scheme notifier" and on_refund :: "'a orders_db_scheme refund_sink"
begin

lemma told: obtains n a where "tell_them send r amount d db = db\<lparr>drawn := n, admin_alerts := a\<rparr>"
proof -
  have "\<exists>n a. db = db\<lparr>drawn := n, admin_alerts := a\<rparr>"
    by (rule exI[of _ "drawn db"], rule exI[of _ "admin_alerts db"]) simp
  then have "\<exists>n a. tell_them send r amount d db = db\<lparr>drawn := n, admin_alerts := a\<rparr>"
    using touches_alerts by (auto simp: tell_them_def split: option.split)
  then show thesis using that by blast
qed

lemma refund_an_order_admitted:
  assumes "payment_for_order (or_id r) db = Some p" and "admitted box kid ks r p actor (chosen_destination p asked) own creds db"
  shows "refund_an_order rz box kid ks on_refund send r actor key amount asked reason own db =
    bind_res (refund p (case amount of Some a \<Rightarrow> a | None \<Rightarrow> py_amount_inr p - py_refunded_inr p) (chosen_destination p asked)
        key (Some actor) reason (Some rz) creds None (Some on_refund) db) (\<lambda>(row, p', db1).
      Inr (issued r p' row (chosen_destination p asked),
           if refund_for_key key db \<noteq> None then db1
           else record_refund_audit r p' row (chosen_destination p asked) actor reason
                  (tell_them send r (rf_amount_inr row) (chosen_destination p asked) db1)))"
proof (cases "chosen_destination p asked")
  case TO_SOURCE
  show ?thesis using assms(2) unfolding refund_an_order_def assms(1) option.case Let_def admitted_def TO_SOURCE issued_def
    by auto
next
  case TO_WALLET
  show ?thesis using assms(2) unfolding refund_an_order_def assms(1) option.case Let_def admitted_def TO_WALLET issued_def
    by auto
qed

lemma refund_an_order_cases:
  assumes "refund_an_order rz box kid ks on_refund send r actor key amount asked reason own db = Inr (out, db')"
  obtains p creds where "payment_for_order (or_id r) db = Some p"
    "admitted box kid ks r p actor (chosen_destination p asked) own creds db"
proof -
  from assms obtain p where p: "payment_for_order (or_id r) db = Some p"
    by (auto simp: refund_an_order_def split: option.splits)
  from assms have "\<exists>creds. admitted box kid ks r p actor (chosen_destination p asked) own creds db"
    by (cases "chosen_destination p asked")
      (auto simp: refund_an_order_def p admitted_def Let_def bind_res_Inr_iff split: if_splits)
  with p that show thesis by blast
qed

lemma first_refund:
  assumes run: "refund_an_order rz box kid ks on_refund send r actor key amount asked reason own db = Inr (out, db')"
    and new: "refund_for_key key db = None"
  obtains p creds p' row db0 n a e where "payment_for_order (or_id r) db = Some p"
    "admitted box kid ks r p actor (chosen_destination p asked) own creds db"
    "refund p (case amount of Some a \<Rightarrow> a | None \<Rightarrow> py_amount_inr p - py_refunded_inr p) (chosen_destination p asked)
        key (Some actor) reason (Some rz) creds None None db = Inr (row, p', db0)"
    "out = issued r p' row (chosen_destination p asked)"
    "db' = (on_refund p' row db0)\<lparr>drawn := n, admin_alerts := a, audit_log := audit_log (on_refund p' row db0) @ [e]\<rparr>"
    "au_action e = ''payment.refunded''" "au_entity_id e = Some (py_public_id p')" "au_actor_user_id e = Some actor"
proof -
  obtain p creds where p: "payment_for_order (or_id r) db = Some p"
    and ok: "admitted box kid ks r p actor (chosen_destination p asked) own creds db"
    by (rule refund_an_order_cases[OF run])
  let ?d = "chosen_destination p asked"
  from run obtain row p' db1 where rf: "refund p (case amount of Some a \<Rightarrow> a | None \<Rightarrow> py_amount_inr p - py_refunded_inr p) ?d
        key (Some actor) reason (Some rz) creds None (Some on_refund) db = Inr (row, p', db1)"
    and out: "out = issued r p' row ?d"
    and db': "db' = record_refund_audit r p' row ?d actor reason (tell_them send r (rf_amount_inr row) ?d db1)"
    unfolding refund_an_order_admitted[OF p ok] by (auto simp: bind_res_Inr_iff new)
  obtain db0 where rf0: "refund p (case amount of Some a \<Rightarrow> a | None \<Rightarrow> py_amount_inr p - py_refunded_inr p) ?d
        key (Some actor) reason (Some rz) creds None None db = Inr (row, p', db0)" and db1: "db1 = on_refund p' row db0"
    using refund_unheard[OF rf new] by blast
  obtain n a where told: "tell_them send r (rf_amount_inr row) ?d db1 = db1\<lparr>drawn := n, admin_alerts := a\<rparr>" by (rule told)
  obtain e where e: "db' = db1\<lparr>drawn := n, admin_alerts := a, audit_log := audit_log db1 @ [e]\<rparr>"
    "au_action e = ''payment.refunded''" "au_entity_id e = Some (py_public_id p')" "au_actor_user_id e = Some actor"
    by (simp add: db' told record_refund_audit_def record_audit_def Let_def)
  show thesis by (rule that[OF p ok rf0 out]) (use e db1 in simp_all)
qed

end

interpretation desk: refund_desk "notifier_for api_key url post now" "order_refund_sink now'" for api_key url post now now'
  ..

section \<open>A refund is exact, and made once\<close>

lemma sink_closes:
  assumes ok: "orders_ok db" and r: "r \<in> set (orders db)" and oid: "py_order_id p = Some (or_id r)"
    and money: "is_money (py_amount_inr p)" "is_money (py_refunded_inr p)" "py_refunded_inr p \<le> py_amount_inr p"
  shows "order_row (or_id r) (order_refund_sink now p row db)
    = Some (if py_refunded_inr p = py_amount_inr p then r\<lparr>or_state := ORD_REFUNDED, or_refunded_at := Some now\<rparr> else r)"
proof -
  note row = order_row_ok[OF ok r]
  have "order_row (or_id r) (save_order (r\<lparr>or_state := ORD_REFUNDED, or_refunded_at := Some now\<rparr>) db)
    = Some (r\<lparr>or_state := ORD_REFUNDED, or_refunded_at := Some now\<rparr>)"
    using row by (simp add: order_row_def row_by_put_row)
  then show ?thesis using row oid money
    by (auto simp: order_refund_sink_def apply_payment_refund_def Let_def as_money_id)
qed

lemma retry_is_free:
  assumes "payment_for_order (or_id r) db = Some p" and "admitted box kid ks r p actor (chosen_destination p asked) own creds db"
    and "refund_for_key key db = Some row" and "rf_payment_id row = py_id p"
  shows "refund_an_order rz box kid ks (order_refund_sink now) (notifier_for api_key url post now2) r actor key amount asked reason own db
    = Inr (issued r p row (chosen_destination p asked), db)"
  unfolding desk.refund_an_order_admitted[OF assms(1,2)] refund_repeat[OF assms(3,4)] by (simp add: assms(3))

lemma admitted_frame:
  assumes "admitted box kid ks r p actor d own creds db" and "users db' = users db" "payment_configs db' = payment_configs db"
    and "py_source p' = py_source p" "py_collecting_user_id p' = py_collecting_user_id p" "or_user_id r' = or_user_id r"
  shows "admitted box kid ks r' p' actor d own creds db'"
proof -
  have u: "user_of (or_user_id r') db' = user_of (or_user_id r) db" using assms by (simp add: user_of_def)
  have c: "credentials_for_payment box kid ks p' db' = credentials_for_payment box kid ks p db"
    using assms by (simp add: credentials_for_payment_def get_config_def cong: option.case_cong)
  show ?thesis using assms(1) unfolding admitted_def u c assms(5) .
qed

lemma first_refund_shape:
  fixes db :: "'a orders_db_scheme"
  assumes ok: "books_ok db" "wallets_ok db" "orders_ok db" and r: "r \<in> set (orders db)"
    and run: "refund_an_order rz box kid ks (order_refund_sink now) (notifier_for api_key url post now2) r actor key amount
        asked reason own db = Inr (out, db')"
    and new: "refund_for_key key db = None"
  shows "\<exists>p p' r'. payment_for_order (or_id r) db = Some p \<and> payment_for_order (or_id r) db' = Some p'
    \<and> ir_amount_inr out = as_money (case amount of Some a \<Rightarrow> a | None \<Rightarrow> py_amount_inr p - py_refunded_inr p)
    \<and> 0 < ir_amount_inr out \<and> py_refunded_inr p' = py_refunded_inr p + ir_amount_inr out
    \<and> py_amount_inr p' = py_amount_inr p \<and> py_refunded_inr p' \<le> py_amount_inr p'
    \<and> (own \<longrightarrow> py_collecting_user_id p = Some actor)
    \<and> (chosen_destination p asked = TO_WALLET \<longrightarrow> py_collecting_user_id p = None)
    \<and> books_ok db' \<and> wallets_ok db'
    \<and> (\<forall>u. balance_of u db' = balance_of u db
          + (if chosen_destination p asked = TO_WALLET \<and> u = py_user_id p then ir_amount_inr out else 0))
    \<and> r' = (if py_refunded_inr p' = py_amount_inr p' then r\<lparr>or_state := ORD_REFUNDED, or_refunded_at := Some now\<rparr> else r)
    \<and> order_row (or_id r) db' = Some r'
    \<and> (\<exists>e. audit_log db' = audit_log db @ [e] \<and> au_action e = ''payment.refunded'' \<and> au_actor_user_id e = Some actor)
    \<and> (\<forall>rz2 now3 now4 amount2 reason2. refund_an_order rz2 box kid ks (order_refund_sink now3)
          (notifier_for api_key url post now4) r' actor key amount2 asked reason2 own db' = Inr (out, db'))"
proof -
  obtain p creds p' row db0 n a e where p: "payment_for_order (or_id r) db = Some p"
    and adm: "admitted box kid ks r p actor (chosen_destination p asked) own creds db"
    and rf: "refund p (case amount of Some a \<Rightarrow> a | None \<Rightarrow> py_amount_inr p - py_refunded_inr p) (chosen_destination p asked)
        key (Some actor) reason (Some rz) creds None None db = Inr (row, p', db0)"
    and out: "out = issued r p' row (chosen_destination p asked)"
    and db': "db' = (order_refund_sink now p' row db0)\<lparr>drawn := n, admin_alerts := a,
        audit_log := audit_log (order_refund_sink now p' row db0) @ [e]\<rparr>"
    and e: "au_action e = ''payment.refunded''" "au_actor_user_id e = Some actor"
    by (rule desk.first_refund[OF run new])
  let ?d = "chosen_destination p asked"
  let ?a = "as_money (case amount of Some a \<Rightarrow> a | None \<Rightarrow> py_amount_inr p - py_refunded_inr p)"
  note pd = payment_for_order_SomeD[OF ok(1) p]
  note b = books_refund[OF ok(1) pd(1) rf new]
  have sound: "payment_sound (refunds db) p" by (rule books_ok_payment[OF ok(1) pd(1)])
  have c: "0 < ?a" "?a \<le> as_money (py_amount_inr p) - as_money (py_refunded_inr p)" "p' = after_refund ?a p"
      "rf_amount_inr row = ?a" "rf_payment_id row = py_id p" "rf_idempotency_key row = key"
      "?d = TO_WALLET \<longrightarrow> py_collecting_user_id p = None"
    using refund_new_cases[OF rf new] by metis+
  note ex = after_refund_exact[OF sound c(1,2), folded c(3)] after_refund_exact(4-10)[OF sound c(1,2), of ?a, folded c(3)]
  have kept: "py_kind p' = py_kind p" "py_source p' = py_source p" by (simp_all add: c(3) after_refund_def Let_def)
  have rest: "users db0 = users db" "payment_configs db0 = payment_configs db" "orders db0 = orders db"
      "order_items db0 = order_items db" "audit_log db0 = audit_log db"
    using refund_bystanders[OF rf] by auto
  have fields: "payments db' = payments db0" "refunds db' = refunds db0" "wallets db' = wallets db0"
      "wallet_entries db' = wallet_entries db0" "users db' = users db" "payment_configs db' = payment_configs db"
      "audit_log db' = audit_log db @ [e]" "orders db' = orders (order_refund_sink now p' row db0)"
    using rest by (simp_all add: db' order_refund_sink_def apply_payment_refund_frame)
      (simp add: apply_payment_refund_def Let_def save_order_def split: option.split)
  have ok0: "orders_ok db0" "r \<in> set (orders db0)" using ok(3) r rest orders_ok_frame[of db0 db] by auto
  have money: "is_money (py_amount_inr p')" "is_money (py_refunded_inr p')" "py_refunded_inr p' \<le> py_amount_inr p'"
    using ex sound by (auto simp: payment_sound_def)
  let ?r = "if py_refunded_inr p' = py_amount_inr p' then r\<lparr>or_state := ORD_REFUNDED, or_refunded_at := Some now\<rparr> else r"
  have row': "order_row (or_id r) db' = Some ?r"
    using sink_closes[OF ok0 _ money, of now row] ex pd(2) by (simp add: order_row_def fields)
  have books: "books_ok db'" using b(1) by (simp add: books_ok_def fields)
  have "payments db' = put_row py_id p' (payments db)" by (simp add: fields b(3))
  from payment_for_order_put[OF ok(1) p this] ex kept have p': "payment_for_order (or_id r) db' = Some p'" by auto
  have bal: "wallets_ok db' = wallets_ok db0" "balance_of u db' = balance_of u db0" for u
    using fields by (simp_all add: wallets_ok_def balance_of_def wallet_of_def)
  have dest: "chosen_destination p' asked = ?d" by (simp add: chosen_destination_def kept)
  have adm': "admitted box kid ks ?r p' actor (chosen_destination p' asked) own creds db'"
    unfolding dest by (rule admitted_frame[OF adm fields(5,6) kept(2)]) (use ex in auto)
  have "refund_for_key key db' = Some row"
    using refund_key_found[OF rf ok(1) pd(1)] by (simp add: refund_for_key_def fields)
  from retry_is_free[OF _ adm' this, of rz2 now3 api_key url post now4 amount2 reason2 for rz2 now3 now4 amount2 reason2] p' c(5) ex
  have again: "refund_an_order rz2 box kid ks (order_refund_sink now3) (notifier_for api_key url post now4) ?r actor key amount2
      asked reason2 own db' = Inr (out, db')" for rz2 now3 now4 amount2 reason2
    unfolding dest by (simp add: out issued_def)
  have g1: "ir_amount_inr out = ?a" by (simp add: out issued_def c(4))
  have g2: "0 < ir_amount_inr out" using c(1) by (simp add: g1)
  have g3: "py_refunded_inr p' = py_refunded_inr p + ir_amount_inr out" "py_amount_inr p' = py_amount_inr p"
    using ex by (simp_all add: g1)
  have g4: "own \<longrightarrow> py_collecting_user_id p = Some actor" using adm by (simp add: admitted_def)
  have g5: "wallets_ok db'" using refund_balances[OF rf new ok(2)] by (simp add: bal)
  have g6: "\<forall>u. balance_of u db' = balance_of u db + (if ?d = TO_WALLET \<and> u = py_user_id p then ir_amount_inr out else 0)"
    using refund_balances[OF rf new ok(2)] by (simp add: bal g1)
  have g7: "\<exists>e. audit_log db' = audit_log db @ [e] \<and> au_action e = ''payment.refunded'' \<and> au_actor_user_id e = Some actor"
    using fields(7) e by blast
  have g8: "\<forall>rz2 now3 now4 amount2 reason2. refund_an_order rz2 box kid ks (order_refund_sink now3)
      (notifier_for api_key url post now4) ?r actor key amount2 asked reason2 own db' = Inr (out, db')"
    using again by blast
  show ?thesis
    by (intro exI[of _ p] exI[of _ p'] exI[of _ ?r] conjI)
      (rule p p' g1 g2 g3 money(3) g4 c(7) books g5 g6 refl row' g7 g8)+
qed

text \<open>
  C9. A refund, on the program as it is wired. The first request with a key gives back exactly what was
  asked for, or everything still owed, off the payment of that order: the payment grows by it and
  never past what was paid, a balance grows by it only when the money goes to a balance, which only
  platform takings may, the order is closed exactly when everything has gone back, and the trail gains one entry. Asked
  again with the same key, whatever the amount, the same refund is answered and nothing moves, the
  gateway is not called and nobody is written to a second time.
\<close>

theorem a_refund_is_exact_and_once:
  fixes db :: "'a orders_db_scheme"
  assumes ok: "books_ok db" "wallets_ok db" "orders_ok db" and r: "r \<in> set (orders db)"
    and run: "refund_an_order rz box kid ks (order_refund_sink now) (notifier_for api_key url post now2) r actor key amount
        asked reason own db = Inr (out, db')"
    and new: "refund_for_key key db = None"
  shows "\<exists>p p' r'. payment_for_order (or_id r) db = Some p \<and> payment_for_order (or_id r) db' = Some p'
    \<and> ir_amount_inr out = as_money (case amount of Some a \<Rightarrow> a | None \<Rightarrow> py_amount_inr p - py_refunded_inr p)
    \<and> 0 < ir_amount_inr out \<and> py_refunded_inr p' = py_refunded_inr p + ir_amount_inr out
    \<and> py_amount_inr p' = py_amount_inr p \<and> py_refunded_inr p' \<le> py_amount_inr p'
    \<and> (own \<longrightarrow> py_collecting_user_id p = Some actor)
    \<and> (chosen_destination p asked = TO_WALLET \<longrightarrow> py_collecting_user_id p = None)
    \<and> books_ok db' \<and> wallets_ok db'
    \<and> (\<forall>u. balance_of u db' = balance_of u db
          + (if chosen_destination p asked = TO_WALLET \<and> u = py_user_id p then ir_amount_inr out else 0))
    \<and> r' = (if py_refunded_inr p' = py_amount_inr p' then r\<lparr>or_state := ORD_REFUNDED, or_refunded_at := Some now\<rparr> else r)
    \<and> order_row (or_id r) db' = Some r'
    \<and> (\<exists>e. audit_log db' = audit_log db @ [e] \<and> au_action e = ''payment.refunded'' \<and> au_actor_user_id e = Some actor)
    \<and> (\<forall>rz2 now3 now4 amount2 reason2. refund_an_order rz2 box kid ks (order_refund_sink now3)
          (notifier_for api_key url post now4) r' actor key amount2 asked reason2 own db' = Inr (out, db'))"
  by (rule first_refund_shape[OF assms])

definition refunded_payment_example :: payment where
  "refunded_payment_example = \<lparr>py_id = 1, py_public_id = ''pay_1'', py_user_id = 2, py_kind = PRINT_ORDER, py_order_id = Some 1,
     py_subscription_id = None, py_kiosk_id = Some 1, py_source = SRC_WALLET, py_collecting_user_id = None,
     py_razorpay_order_id = None, py_razorpay_payment_id = None, py_amount_inr = 6, py_refunded_inr = 0, py_status = CAPTURED,
     py_failure_reason = None, py_created_at = 0, py_captured_at = Some 5\<rparr>"

definition refund_example :: orders_db where
  "refund_example = buying_example\<lparr>orders := [order_example\<lparr>or_state := PARTIALLY_FAILED, or_paid_at := Some 5\<rparr>],
     payments := [refunded_payment_example]\<rparr>"

definition quiet_gateway :: razorpay_gateway where
  "quiet_gateway = \<lparr>rg_create_order = (\<lambda>_ _ _. Inr ''order''), rg_refund = (\<lambda>_ _ _ _. Inr ''rfnd'')\<rparr>"

lemma refund_example_ok: "books_ok refund_example" "wallets_ok refund_example" "orders_ok refund_example"
    "order_example\<lparr>or_state := PARTIALLY_FAILED, or_paid_at := Some 5\<rparr> \<in> set (orders refund_example)"
proof -
  show "wallets_ok refund_example" using buying_example_ok(2) wallets_frame[of refund_example buying_example] by (simp add: refund_example_def)
  show "orders_ok refund_example" using item_example_priced
    by (simp add: orders_ok_def refund_example_def buying_example_def) (simp add: order_example_def item_example_def)
  show "books_ok refund_example"
    by (simp add: books_ok_def refund_example_def buying_example_def orders_blank_def refunded_payment_example_def
        payment_sound_def unique_col_def)
qed (simp add: refund_example_def)

theorem a_refund_is_exact_and_once_witness:
  "\<exists>out db'. refund_an_order quiet_gateway toy_box [] [] (order_refund_sink 9) (notifier_for [] [] (\<lambda>_. None) 9)
      (order_example\<lparr>or_state := PARTIALLY_FAILED, or_paid_at := Some 5\<rparr>) 7 ''k'' None None None False refund_example = Inr (out, db')
    \<and> ir_amount_inr out = 6 \<and> balance_of 2 db' = 56"
proof -
  let ?r = "order_example\<lparr>or_state := PARTIALLY_FAILED, or_paid_at := Some 5\<rparr>"
  let ?run = "refund_an_order quiet_gateway toy_box [] [] (order_refund_sink 9) (notifier_for [] [] (\<lambda>_. None) 9) ?r 7 ''k'' None
      None None False refund_example"
  have six: "as_money 6 = 6" by (rule as_money_id) simp
  have p: "payment_for_order (or_id ?r) refund_example = Some refunded_payment_example"
    by (simp add: payment_for_order_def newest_payment_def refund_example_def)
      (simp add: refunded_payment_example_def order_example_def)
  have key: "refund_for_key ''k'' refund_example = None"
    by (simp add: refund_for_key_def refund_example_def buying_example_def orders_blank_def)
  have d: "chosen_destination refunded_payment_example None = TO_WALLET"
    by (simp add: chosen_destination_def refunded_payment_example_def)
  have adm: "admitted toy_box [] [] ?r refunded_payment_example 7 TO_WALLET False None refund_example"
    by (simp add: admitted_def user_of_def refund_example_def buying_example_def orders_blank_def)
  let ?p = refunded_payment_example
  have f: "py_status ?p = CAPTURED" "py_collecting_user_id ?p = None" "py_amount_inr ?p = 6" "py_refunded_inr ?p = 0" "py_user_id ?p = 2"
    by (simp_all add: refunded_payment_example_def)
  have t: "refunds refund_example = []" "wallets refund_example = [\<lparr>wa_id = 1, wa_user_id = 2, wa_balance_inr = 50, wa_created_at = 0\<rparr>]"
    "wallet_entries refund_example = [\<lparr>we_id = 1, we_public_id = ''wlt_1'', we_wallet_id = 1, we_kind = TOPUP, we_amount_inr = 50,
       we_balance_after_inr = 50, we_reference = ''topup'', we_note = None, we_created_at = 0\<rparr>]"
    by (simp_all add: refund_example_def buying_example_def orders_blank_def)
  have "\<not> isl (refund ?p 6 TO_WALLET ''k'' (Some 7) None (Some quiet_gateway) None None (Some (order_refund_sink 9)) refund_example)"
    by (simp add: refund_def key six f REFUNDABLE_def may_go_to_wallet_def send_refund_def insert_refund_def Let_def mint_def
        save_payment_def credit_def wallet_for_def wallet_of_def move_def already_recorded_def t)
  then have "\<not> isl ?run"
    unfolding desk.refund_an_order_admitted[OF p adm[folded d]] d by (auto simp: bind_res_def f split: sum.splits)
  then obtain out db' where run: "?run = Inr (out, db')" by (cases ?run) auto
  from a_refund_is_exact_and_once[OF refund_example_ok run key] obtain q where
    q: "payment_for_order (or_id ?r) refund_example = Some q"
    and amount: "ir_amount_inr out = as_money (py_amount_inr q - py_refunded_inr q)"
    and bal: "\<forall>u. balance_of u db' = balance_of u refund_example
      + (if chosen_destination q None = TO_WALLET \<and> u = py_user_id q then ir_amount_inr out else 0)"
    by (elim exE conjE) (rule that, assumption, simp, assumption)
  have "q = ?p" using p q by simp
  then have "ir_amount_inr out = 6" using amount by (simp add: f six)
  moreover from this have "balance_of 2 db' = balance_of 2 refund_example + 6" using bal d by (simp add: \<open>q = ?p\<close> f)
  moreover have "balance_of 2 refund_example = 50" using buying_example_funds(1) by (simp add: balance_of_def wallet_of_def refund_example_def)
  ultimately show ?thesis using run by auto
qed

section \<open>Whose money an owner gives back\<close>

text \<open>
  C12. The owner's door gives back only money that owner's own account collected, at a shop in
  the caller's scope: no balance moves, and no other payment's row is touched. A refiller who comes
  through a role held elsewhere is stopped by the money itself.
\<close>

theorem owner_gives_back_only_its_own:
  fixes db :: "'a orders_db_scheme"
  assumes ok: "books_ok db" "wallets_ok db"
    and run: "refund_an_order_here rz box kid ks (notifier_for api_key url post now2) now actor kiosk_id order_id key amount
        reason db = Inr (out, db')"
  shows "\<exists>k r p. get_kiosk (kiosk_scope actor db) kiosk_id db = Inr k \<and> order_by_public_id order_id db = Some r
    \<and> or_kiosk_id r = ki_id k \<and> payment_for_order (or_id r) db = Some p \<and> py_collecting_user_id p = Some (us_id actor)
    \<and> ir_payment_id out = py_public_id p \<and> (\<forall>u. balance_of u db' = balance_of u db)
    \<and> (\<forall>q \<in> set (payments db). py_id q \<noteq> py_id p \<longrightarrow> q \<in> set (payments db'))"
proof -
  from run obtain k r where k: "get_kiosk (kiosk_scope actor db) kiosk_id db = Inr k" and r: "order_at (ki_id k) order_id db = Inr r"
    and go: "refund_an_order rz box kid ks (order_refund_sink now) (notifier_for api_key url post now2) r (us_id actor) key amount
        None reason True db = Inr (out, db')"
    by (auto simp: refund_an_order_here_def bind_res_Inr_iff)
  have found: "order_by_public_id order_id db = Some r" "or_kiosk_id r = ki_id k"
    using r by (auto simp: order_at_def split: sum.splits option.splits if_splits)
  obtain p creds where p: "payment_for_order (or_id r) db = Some p"
    and adm: "admitted box kid ks r p (us_id actor) (chosen_destination p None) True creds db"
    by (rule desk.refund_an_order_cases[OF go])
  have own: "py_collecting_user_id p = Some (us_id actor)" using adm by (simp add: admitted_def)
  have "ir_payment_id out = py_public_id p \<and> (\<forall>u. balance_of u db' = balance_of u db)
    \<and> (\<forall>q \<in> set (payments db). py_id q \<noteq> py_id p \<longrightarrow> q \<in> set (payments db'))"
  proof (cases "refund_for_key key db")
    case None
    show ?thesis
    proof (rule desk.first_refund[OF go None])
      fix p2 creds2 p' row db0 n a e
      assume p2: "payment_for_order (or_id r) db = Some p2"
        and rf: "refund p2 (case amount of Some a \<Rightarrow> a | None \<Rightarrow> py_amount_inr p2 - py_refunded_inr p2) (chosen_destination p2 None)
          key (Some (us_id actor)) reason (Some rz) creds2 None None db = Inr (row, p', db0)"
        and out: "out = issued r p' row (chosen_destination p2 None)"
        and db': "db' = (order_refund_sink now p' row db0)\<lparr>drawn := n, admin_alerts := a,
          audit_log := audit_log (order_refund_sink now p' row db0) @ [e]\<rparr>"
      have same: "p2 = p" using p p2 by simp
      note pd = payment_for_order_SomeD[OF ok(1) p2]
      from refund_new_cases[OF rf None] have w: "chosen_destination p2 None = TO_WALLET \<longrightarrow> py_collecting_user_id p2 = None"
        and p': "p' = after_refund (as_money (case amount of Some a \<Rightarrow> a | None \<Rightarrow> py_amount_inr p2 - py_refunded_inr p2)) p2"
        by metis+
      have "balance_of u db' = balance_of u db" for u
        using refund_balances[OF rf None ok(2), of u] w own same
        by (auto simp: db' balance_of_def wallet_of_def order_refund_sink_def apply_payment_refund_frame)
      moreover have "payments db' = put_row py_id p' (payments db)"
        using books_refund(3)[OF ok(1) pd(1) rf None] by (simp add: db' order_refund_sink_def apply_payment_refund_frame)
      moreover have "py_id p' = py_id p" "py_public_id p' = py_public_id p"
        by (simp_all add: p' same after_refund_def Let_def)
      ultimately show ?thesis by (auto simp: out issued_def set_put_row)
    qed
  next
    case (Some row)
    from go have "refund p (case amount of Some a \<Rightarrow> a | None \<Rightarrow> py_amount_inr p - py_refunded_inr p) (chosen_destination p None) key
        (Some (us_id actor)) reason (Some rz) creds None (Some (order_refund_sink now)) db = Inr (row, p, db)"
      unfolding desk.refund_an_order_admitted[OF p adm] by (auto simp: refund_def Some split: if_splits)
    then have "out = issued r p row (chosen_destination p None)" "db' = db"
      using go unfolding desk.refund_an_order_admitted[OF p adm] by (simp_all add: Some)
    then show ?thesis by (simp add: issued_def)
  qed
  with k found p own show ?thesis by blast
qed

definition counter_order :: order where
  "counter_order = order_example\<lparr>or_public_id := ''ord_0000000000000000'', or_state := PARTIALLY_FAILED,
     or_total_inr := 20, or_paid_at := Some 5\<rparr>"

definition counter_kiosk :: kiosk where
  "counter_kiosk = kiosk_example\<lparr>ki_public_id := ''ksk_0000000000000000'', ki_type := SOLD\<rparr>"

definition counter_example :: orders_db where
  "counter_example = orders_blank\<lparr>users := [user_example],
     user_roles := [\<lparr>ur_id = 1, ur_user_id = 1, ur_role = OWNER, ur_granted_at = 0\<rparr>], kiosks := [counter_kiosk],
     kiosk_assignments := [\<lparr>ka_id = 1, ka_kiosk_id = 1, ka_user_id = 1, ka_role = KIOSK_OWNER, ka_created_at = 0\<rparr>],
     payment_configs := [config_example], payments := [owner_payment_example], orders := [counter_order]\<rparr>"

lemma counter_example_ok: "books_ok counter_example" "wallets_ok counter_example"
  by (simp add: counter_example_def books_ok_def orders_blank_def owner_payment_example_def payment_sound_def unique_col_def,
      simp add: counter_example_def wallets_ok_def orders_blank_def)

theorem owner_gives_back_only_its_own_witness:
  "\<exists>out db'. refund_an_order_here quiet_gateway toy_box [] [] (notifier_for [] [] (\<lambda>_. None) 9) 9 user_example
      ''ksk_0000000000000000'' ''ord_0000000000000000'' ''k'' (Some 5) None counter_example = Inr (out, db')
    \<and> ir_payment_id out = ''pay_1'' \<and> balance_of 2 db' = balance_of 2 counter_example"
proof -
  let ?run = "refund_an_order_here quiet_gateway toy_box [] [] (notifier_for [] [] (\<lambda>_. None) 9) 9 user_example
      ''ksk_0000000000000000'' ''ord_0000000000000000'' ''k'' (Some 5) None counter_example"
  have ids: "parse_id ''ksk_0000000000000000'' KIOSK = Inr ''0000000000000000''"
    "parse_id ''ord_0000000000000000'' ORDER = Inr ''0000000000000000''" by code_simp+
  have role: "require_role OWNER user_example counter_example = Inr user_example"
    by (simp add: require_role_def roles_of_def counter_example_def user_example_def)
  have k: "get_kiosk (kiosk_scope user_example counter_example) ''ksk_0000000000000000'' counter_example = Inr counter_kiosk"
    by (simp add: get_kiosk_def ids counter_example_def counter_kiosk_def allows_def kiosk_scope_def roles_of_def user_example_def
        kiosk_example_def)
  have r: "order_at (ki_id counter_kiosk) ''ord_0000000000000000'' counter_example = Inr counter_order"
    by (simp add: order_at_def ids order_by_public_id_def counter_example_def)
      (simp add: counter_order_def counter_kiosk_def kiosk_example_def order_example_def)
  have p: "payment_for_order (or_id counter_order) counter_example = Some owner_payment_example"
    by (simp add: payment_for_order_def newest_payment_def counter_example_def)
      (simp add: owner_payment_example_def counter_order_def order_example_def)
  have d: "chosen_destination owner_payment_example None = TO_SOURCE"
    by (simp add: chosen_destination_def owner_payment_example_def)
  have c: "get_config 1 counter_example = Some config_example"
    by (simp add: get_config_def counter_example_def config_example_def)
  have creds: "credentials_for_payment toy_box [] [] owner_payment_example counter_example
      = Inr \<lparr>rz_key_id = ''rzp_live_x'', rz_key_secret = ''secret''\<rparr>"
    using collecting_example_facts(5) c
    by (simp add: credentials_for_payment_def owner_payment_example_def config_example_def truthy_def)
  have adm: "admitted toy_box [] [] counter_order owner_payment_example 1 TO_SOURCE True
      (Some \<lparr>rz_key_id = ''rzp_live_x'', rz_key_secret = ''secret''\<rparr>) counter_example"
    by (simp add: admitted_def creds) (simp add: owner_payment_example_def)
  have five: "as_money 5 = 5" "as_money 20 = 20" "as_money 0 = 0" by (rule as_money_id, simp)+
  have "\<not> isl (refund owner_payment_example 5 TO_SOURCE ''k'' (Some 1) None (Some quiet_gateway)
      (Some \<lparr>rz_key_id = ''rzp_live_x'', rz_key_secret = ''secret''\<rparr>) None (Some (order_refund_sink 9)) counter_example)"
    by (simp add: refund_def refund_for_key_def refund_for_razorpay_id_def five REFUNDABLE_def may_go_to_source_def
        send_refund_def insert_refund_def Let_def mint_def counter_example_def orders_blank_def quiet_gateway_def)
      (simp add: owner_payment_example_def five)
  moreover have "us_id user_example = 1" by (simp add: user_example_def)
  ultimately have "\<not> isl ?run"
    using desk.refund_an_order_admitted[OF p adm[folded d], of quiet_gateway 9 "[]" "[]" "\<lambda>_. None" 9 "''k''" "Some 5" None]
    by (auto simp: refund_an_order_here_def role k r d bind_res_def split: sum.splits)
  then obtain out db' where run: "?run = Inr (out, db')" by (cases ?run) auto
  from owner_gives_back_only_its_own[OF counter_example_ok run] obtain k2 r2 p2 where
    "order_by_public_id ''ord_0000000000000000'' counter_example = Some r2" "payment_for_order (or_id r2) counter_example = Some p2"
    "ir_payment_id out = py_public_id p2" "\<forall>u. balance_of u db' = balance_of u counter_example" by blast
  moreover from this have "r2 = counter_order" by (simp add: order_by_public_id_def counter_example_def counter_order_def)
  ultimately show ?thesis using run p by (auto simp: owner_payment_example_def)
qed

section \<open>A checkout opened twice\<close>

text \<open>
  (Property). The payment of an order is looked up as its newest one, whatever became of it. When a
  student opens the checkout twice and pays the first, the abandoned second hides the money: no request refunds
  the order, through either door, for any amount, to any destination.
\<close>

theorem an_abandoned_checkout_hides_the_payment:
  fixes db :: "'a orders_db_scheme"
  assumes ok: "books_ok db" and paid: "a \<in> set (payments db)" "py_order_id a = Some (or_id r)" "py_kind a = PRINT_ORDER" "py_status a = CAPTURED"
    and second: "b \<in> set (payments db)" "py_order_id b = Some (or_id r)" "py_kind b = PRINT_ORDER" "py_status b = CREATED"
    and newer: "\<forall>q \<in> set (payments db). py_order_id q = Some (or_id r) \<longrightarrow> py_id q \<le> py_id b"
    and new: "refund_for_key key db = None"
  shows "payment_for_order (or_id r) db = Some b \<and> a \<noteq> b
    \<and> (\<exists>e. refund_an_order rz box kid ks sink send r actor key amount asked reason own db = Inl e)"
proof -
  have b: "payment_for_order (or_id r) db = Some b"
    unfolding payment_for_order_def newest_payment_iff[OF books_ok_ids[OF ok]] using second newer by blast
  have "\<exists>e. refund b x d key act why g c None sk db = Inl e" for x d act why g c sk
    using second(4) new by (auto simp: refund_def Let_def REFUNDABLE_def)
  then have refused: "\<not> (\<exists>y. refund b x d key act why g c None sk db = Inr y)" for x d act why g c sk
    by (metis Inl_Inr_False)
  have "\<exists>e. refund_an_order rz box kid ks sink send r actor key amount asked reason own db = Inl e"
  proof (cases "refund_an_order rz box kid ks sink send r actor key amount asked reason own db")
    case (Inr x)
    then have False using refused unfolding refund_an_order_def b option.case
      by (auto simp: bind_res_Inr_iff Let_def split: if_splits)
    then show ?thesis ..
  qed auto
  moreover have "a \<noteq> b" using paid(4) second(4) by auto
  ultimately show ?thesis using b by blast
qed

definition twice_opened :: orders_db where
  "twice_opened = orders_blank\<lparr>payments := [owner_payment_example,
     owner_payment_example\<lparr>py_id := 2, py_public_id := ''pay_2'', py_razorpay_order_id := Some ''order_2'',
       py_razorpay_payment_id := None, py_status := CREATED, py_captured_at := None\<rparr>], orders := [counter_order]\<rparr>"

theorem an_abandoned_checkout_hides_the_payment_witness:
  "\<exists>e. refund_an_order quiet_gateway toy_box ''p'' ''q'' (order_refund_sink 9) (notifier_for [] [] (\<lambda>_. None) 9) counter_order 1
     ''k'' None None None False twice_opened = Inl e"
proof -
  let ?b = "owner_payment_example\<lparr>py_id := 2, py_public_id := ''pay_2'', py_razorpay_order_id := Some ''order_2'',
       py_razorpay_payment_id := None, py_status := CREATED, py_captured_at := None\<rparr>"
  have t: "payments twice_opened = [owner_payment_example, ?b]" "refunds twice_opened = []"
    by (simp_all add: twice_opened_def orders_blank_def)
  have "books_ok twice_opened"
    by (simp add: books_ok_def t) (simp add: owner_payment_example_def payment_sound_def unique_col_def)
  moreover have "refund_for_key ''k'' twice_opened = None" by (simp add: refund_for_key_def t)
  moreover have "or_id counter_order = 1" by (simp add: counter_order_def order_example_def)
  ultimately show ?thesis
    using an_abandoned_checkout_hides_the_payment[of twice_opened owner_payment_example counter_order ?b "''k''"]
    by (auto simp: t owner_payment_example_def)
qed

end
