(* ===== verification/Calendar.thy ===== *)
theory Calendar
  imports Ids
begin

text \<open>
  Instants as text. A \<^verbatim>\<open>datetime\<close> is a number of microseconds since 1970 in UTC; \<^verbatim>\<open>strftime\<close> and
  \<^verbatim>\<open>isoformat\<close> read a calendar off it, computed here by counting the 400-year cycles of the
  Gregorian calendar.
\<close>

definition day_of :: "datetime \<Rightarrow> int" where
  "day_of t = t div days 1"

definition civil :: "int \<Rightarrow> int \<times> int \<times> int" where
  "civil d =
     (let z = d + 719468;
          era = z div 146097;
          doe = z mod 146097;
          yoe = (doe - doe div 1460 + doe div 36524 - doe div 146096) div 365;
          doy = doe - (365 * yoe + yoe div 4 - yoe div 100);
          mp = (5 * doy + 2) div 153;
          dd = doy - (153 * mp + 2) div 5 + 1;
          mm = (if mp < 10 then mp + 3 else mp - 9);
          yy = yoe + era * 400
      in (if mm \<le> 2 then yy + 1 else yy, mm, dd))"

definition zero_pad :: "nat \<Rightarrow> int \<Rightarrow> string" where
  "zero_pad w n = (let s = show_int n in replicate (w - length s) (CHR ''0'') @ s)"

definition month_name :: "int \<Rightarrow> string" where
  "month_name m =
     (if 1 \<le> m \<and> m \<le> 12
      then [''Jan'', ''Feb'', ''Mar'', ''Apr'', ''May'', ''Jun'', ''Jul'', ''Aug'', ''Sep'', ''Oct'', ''Nov'', ''Dec''] ! nat (m - 1)
      else [])"

definition hour_of :: "datetime \<Rightarrow> int" where
  "hour_of t = t mod days 1 div hours 1"

definition minute_of :: "datetime \<Rightarrow> int" where
  "minute_of t = t mod hours 1 div minutes 1"

definition second_of :: "datetime \<Rightarrow> int" where
  "second_of t = t mod minutes 1 div seconds 1"

text \<open>\<^verbatim>\<open>strftime("%d %b %Y")\<close>, \<^verbatim>\<open>strftime("%d %b %Y, %H:%M UTC")\<close> and \<^verbatim>\<open>f"{now:%Y/%m}"\<close>\<close>

definition show_day :: "datetime \<Rightarrow> string" where
  "show_day t = (case civil (day_of t) of (y, m, d) \<Rightarrow> zero_pad 2 d @ '' '' @ month_name m @ '' '' @ show_int y)"

definition show_when :: "datetime \<Rightarrow> string" where
  "show_when t = show_day t @ '', '' @ zero_pad 2 (hour_of t) @ '':'' @ zero_pad 2 (minute_of t) @ '' UTC''"

definition show_month :: "datetime \<Rightarrow> string" where
  "show_month t = (case civil (day_of t) of (y, m, d) \<Rightarrow> show_int y @ ''/'' @ zero_pad 2 m)"

text \<open>\<^verbatim>\<open>isoformat()\<close> of an aware UTC datetime: the fraction is left out when it is zero.\<close>

definition iso_date :: "int \<Rightarrow> string" where
  "iso_date dn = (case civil dn of (y, m, d) \<Rightarrow> zero_pad 4 y @ ''-'' @ zero_pad 2 m @ ''-'' @ zero_pad 2 d)"

definition iso_format :: "datetime \<Rightarrow> string" where
  "iso_format t =
     (let us = t mod seconds 1 in
      iso_date (day_of t) @ ''T'' @ zero_pad 2 (hour_of t) @ '':'' @ zero_pad 2 (minute_of t) @ '':''
        @ zero_pad 2 (second_of t) @ (if us = 0 then [] else ''.'' @ zero_pad 6 us) @ ''+00:00'')"

lemma civil_epoch: "civil 0 = (1970, 1, 1)"
  by code_simp

lemma civil_leap_day: "civil 19782 = (2024, 2, 29)"
  by code_simp

lemma civil_after_leap_day: "civil 19783 = (2024, 3, 1)"
  by code_simp

end
