(* ===== verification/Documents.thy ===== *)
theory Documents
  imports PrintQueue Calendar
begin

text \<open>
  Taking a file from a student and letting go of it again: \<^verbatim>\<open>printing/storage.py\<close> (keys and where they
  lead), \<^verbatim>\<open>printing/pdfs.py\<close> (what is accepted, and the smaller copy), \<^verbatim>\<open>printing/documents.py\<close> and
  the upload route of \<^verbatim>\<open>api/student/documents.py\<close>. The disk is a map from resolved paths to bytes
  without symbolic links; pikepdf and Ghostscript are parameters. File names are ASCII here.
\<close>

section \<open>Keys\<close>

datatype storage_area = ORIGINAL | NORMALISED | PROOF

fun area_value :: "storage_area \<Rightarrow> string" where
  "area_value ORIGINAL = ''originals''"
| "area_value NORMALISED = ''normalised''"
| "area_value PROOF = ''proofs''"

definition is_alnum :: "char \<Rightarrow> bool" where
  "is_alnum c = (let n = (of_char c :: nat) in 48 \<le> n \<and> n \<le> 57 \<or> 65 \<le> n \<and> n \<le> 90 \<or> 97 \<le> n \<and> n \<le> 122)"

text \<open>\<^verbatim>\<open>PurePosixPath(filename).suffix\<close>: of the last segment, from its last dot unless that opens or ends it.\<close>

definition last_segment :: "string \<Rightarrow> string" where
  "last_segment f = (case rev (filter (\<lambda>s. s \<noteq> [] \<and> s \<noteq> ''.'') (split_on (CHR ''/'') f)) of [] \<Rightarrow> [] | s # _ \<Rightarrow> s)"

definition path_suffix :: "string \<Rightarrow> string" where
  "path_suffix f =
     (let name = last_segment f;
          ext = takeWhile (\<lambda>c. c \<noteq> CHR ''.'') (rev name) in
      if CHR ''.'' \<in> set name \<and> ext \<noteq> [] \<and> length ext + 1 < length name then CHR ''.'' # rev ext else [])"

definition MAX_SUFFIX_LENGTH :: nat where
  "MAX_SUFFIX_LENGTH = 12"

definition safe_suffix :: "string \<Rightarrow> string" where
  "safe_suffix filename =
     (let ext = filter is_alnum (path_suffix filename) in
      if ext = [] then [] else take MAX_SUFFIX_LENGTH (CHR ''.'' # ext))"

text \<open>\<open>uuid4().hex\<close>: thirty-two hexadecimal letters of the random source.\<close>

definition uuid_hex :: "'a core_db_scheme \<Rightarrow> string \<times> 'a core_db_scheme" where
  "uuid_hex db =
     (map (\<lambda>i. ''0123456789abcdef'' ! (entropy db (drawn db + i) mod 16)) [0..<32], db\<lparr>drawn := drawn db + 32\<rparr>)"

definition new_key :: "storage_area \<Rightarrow> nat \<Rightarrow> string \<Rightarrow> datetime \<Rightarrow> 'a core_db_scheme \<Rightarrow> string \<times> 'a core_db_scheme" where
  "new_key area user_id filename now db =
     (let (hex, db1) = uuid_hex db in
      (area_value area @ ''/'' @ show_month now @ ''/usr'' @ show_nat user_id @ ''_'' @ hex @ safe_suffix filename, db1))"

type_synonym place = "string list"

fun resolve :: "place \<Rightarrow> string list \<Rightarrow> place" where
  "resolve up [] = rev up"
| "resolve up (s # ss) =
     (if s = [] \<or> s = ''.'' then resolve up ss
      else if s = ''..'' then resolve (tl up) ss
      else resolve (s # up) ss)"

fun starts_with :: "'b list \<Rightarrow> 'b list \<Rightarrow> bool" where
  "starts_with [] ys = True"
| "starts_with (x # xs) [] = False"
| "starts_with (x # xs) (y # ys) = (x = y \<and> starts_with xs ys)"

definition INVALID_KEY :: app_error where
  "INVALID_KEY = Unhandled ''InvalidStorageKey''"

definition path_of :: "place \<Rightarrow> string \<Rightarrow> place result" where
  "path_of base key =
     (if strip key = [] then Inl INVALID_KEY
      else
        let candidate = map (\<lambda>c. if c = CHR 92 then CHR ''/'' else c) key in
        if hd candidate = CHR ''/'' then Inl INVALID_KEY
        else let resolved = resolve (rev base) (split_on (CHR ''/'') candidate) in
          if starts_with base resolved then Inr resolved else Inl INVALID_KEY)"

section \<open>The disk\<close>

type_synonym files = "place \<Rightarrow> string option"

definition write_file :: "place \<Rightarrow> string \<Rightarrow> string \<Rightarrow> files \<Rightarrow> files result" where
  "write_file base key data fs = bind_res (path_of base key) (\<lambda>p. Inr (fs(p := Some data)))"

definition delete_file :: "place \<Rightarrow> string \<Rightarrow> files \<Rightarrow> files result" where
  "delete_file base key fs = bind_res (path_of base key) (\<lambda>p. Inr (fs(p := None)))"

definition size_of :: "place \<Rightarrow> string \<Rightarrow> files \<Rightarrow> nat option" where
  "size_of base key fs =
     (case path_of base key of Inl _ \<Rightarrow> None | Inr p \<Rightarrow> map_option length (fs p))"

definition save_file ::
  "place \<Rightarrow> storage_area \<Rightarrow> nat \<Rightarrow> string \<Rightarrow> string \<Rightarrow> datetime \<Rightarrow> files \<Rightarrow> 'a core_db_scheme \<Rightarrow>
   (string \<times> files \<times> 'a core_db_scheme) result" where
  "save_file base area user_id filename data now fs db =
     (let (key, db1) = new_key area user_id filename now db in
      bind_res (write_file base key data fs) (\<lambda>fs1. Inr (key, fs1, db1)))"

section \<open>What is accepted\<close>

text \<open>What \<^verbatim>\<open>pikepdf.open\<close> makes of the bytes.\<close>

datatype pdf_opened = PdfPages nat | PdfProtected | PdfDamaged

definition PDF_MAGIC :: string where
  "PDF_MAGIC = ''%PDF-''"

definition too_large :: "nat \<Rightarrow> string" where
  "too_large limit = ''That file is too large. The limit is '' @ show_nat (limit div 1048576) @ '' MB.''"

record pdf_facts =
  pf_page_count :: nat
  pf_byte_size :: nat

definition inspect_pdf :: "(string \<Rightarrow> pdf_opened) \<Rightarrow> nat \<Rightarrow> nat \<Rightarrow> string \<Rightarrow> pdf_facts result" where
  "inspect_pdf open_pdf max_bytes max_pages data =
     (if data = [] then Inl (BadRequest ''That file is empty.'')
      else if max_bytes < length data then Inl (BadRequest (too_large max_bytes))
      else if \<not> starts_with PDF_MAGIC data then Inl (BadRequest ''That is not a PDF. Please upload a PDF file.'')
      else case open_pdf data of
        PdfProtected \<Rightarrow> Inl (BadRequest ''This PDF is password-protected. Remove the password and try again.'')
      | PdfDamaged \<Rightarrow> Inl (BadRequest ''This PDF appears to be damaged. Please re-export it from a PDF viewer or scanner app and try again.'')
      | PdfPages pages \<Rightarrow>
          if pages < 1 then Inl (BadRequest ''This PDF has no pages.'')
          else if max_pages < pages then Inl (BadRequest (''This PDF has '' @ show_nat pages
            @ '' pages, which is more than the '' @ show_nat max_pages @ ''-page limit for a single upload.''))
          else Inr \<lparr>pf_page_count = pages, pf_byte_size = length data\<rparr>)"

text \<open>
  \<^verbatim>\<open>_read\<close>: the upload in chunks. \<open>chunk i\<close> is what the \<open>i\<close>-th read answers; the loop keeps the total
  beside the chunks and is left on an empty one or past the limit.
\<close>

function read_upload :: "(nat \<Rightarrow> string) \<Rightarrow> nat \<Rightarrow> nat \<Rightarrow> nat \<Rightarrow> string list \<Rightarrow> (string list \<times> nat) result" where
  "read_upload chunk limit i sofar chunks =
     (let c = chunk i in
      if c = [] then Inr (chunks, i)
      else if limit < sofar + length c then Inl (BadRequest (too_large limit))
      else read_upload chunk limit (i + 1) (sofar + length c) (chunks @ [c]))"
  by pat_completeness auto
termination
  by (relation "measure (\<lambda>(chunk, limit, i, sofar, chunks). limit - sofar)") (auto simp: neq_Nil_conv)

declare read_upload.simps [simp del]

section \<open>Documents\<close>

definition NO_FILE :: string where
  "NO_FILE = ''That document is no longer available. Please upload it again.''"

definition save_document :: "document \<Rightarrow> 'a printing_db_scheme \<Rightarrow> 'a printing_db_scheme" where
  "save_document d db = db\<lparr>documents := put_row do_id d (documents db)\<rparr>"

definition create_document ::
  "(string \<Rightarrow> pdf_opened) \<Rightarrow> place \<Rightarrow> nat \<Rightarrow> nat \<Rightarrow> nat \<Rightarrow> string \<Rightarrow> string \<Rightarrow> datetime \<Rightarrow> files \<Rightarrow>
   'a printing_db_scheme \<Rightarrow> (document \<times> files \<times> 'a printing_db_scheme) result" where
  "create_document open_pdf base max_bytes max_pages user_id filename data now fs db =
     bind_res (inspect_pdf open_pdf max_bytes max_pages data) (\<lambda>facts.
     bind_res (save_file base ORIGINAL user_id filename data now fs db) (\<lambda>(key, fs1, db1).
       let (pid, db2) = mint DOCUMENT db1;
           d = \<lparr>do_id = fresh_key do_id (documents db), do_public_id = pid, do_user_id = user_id,
                do_original_filename = filename, do_original_path = Some key, do_normalised_path = None,
                do_page_count = Some (int (pf_page_count facts)), do_byte_size = Some (int (pf_byte_size facts)),
                do_state = READY, do_rejection_reason = None, do_created_at = tx_now db\<rparr>
       in Inr (d, fs1, db2\<lparr>documents := documents db @ [d]\<rparr>)))"

definition printable_key :: "document \<Rightarrow> string result" where
  "printable_key d =
     (let key = or_else (do_normalised_path d) (do_original_path d) in
      if truthy key then Inr (the key) else Inl (NotFound NO_FILE))"

text \<open>
  \<^verbatim>\<open>should_normalise\<close> and \<^verbatim>\<open>normalise_pdf\<close>. \<open>ghostscript\<close> answers the candidate it wrote, if there is an
  executable and the run ended well; a candidate is kept when it is smaller and as long.
\<close>

definition should_normalise :: "nat \<Rightarrow> nat option \<Rightarrow> bool" where
  "should_normalise min_bytes on_disk = (case on_disk of None \<Rightarrow> False | Some n \<Rightarrow> min_bytes \<le> n)"

definition page_count_of :: "(string \<Rightarrow> pdf_opened) \<Rightarrow> string \<Rightarrow> nat option" where
  "page_count_of open_pdf data = (case open_pdf data of PdfPages n \<Rightarrow> Some n | _ \<Rightarrow> None)"

definition normalise_pdf :: "(string \<Rightarrow> pdf_opened) \<Rightarrow> (string \<Rightarrow> string option) \<Rightarrow> string \<Rightarrow> string option" where
  "normalise_pdf open_pdf ghostscript source =
     (case ghostscript source of
        None \<Rightarrow> None
      | Some candidate \<Rightarrow>
          if length source \<le> length candidate then None
          else
            let before = page_count_of open_pdf source; after = page_count_of open_pdf candidate in
            if after = None \<or> before \<noteq> after then None else Some candidate)"

definition normalise_document ::
  "(string \<Rightarrow> pdf_opened) \<Rightarrow> (string \<Rightarrow> string option) \<Rightarrow> nat \<Rightarrow> place \<Rightarrow> document \<Rightarrow> datetime \<Rightarrow> files \<Rightarrow>
   'a printing_db_scheme \<Rightarrow> (bool \<times> document \<times> files \<times> 'a printing_db_scheme) result" where
  "normalise_document open_pdf ghostscript min_bytes base d now fs db =
     (if \<not> truthy (do_original_path d) then Inr (False, d, fs, db)
      else
        bind_res (path_of base (the (do_original_path d))) (\<lambda>source.
        if \<not> should_normalise min_bytes (map_option length (fs source)) then Inr (False, d, fs, db)
        else
          let (key, db1) = new_key NORMALISED (do_user_id d) (do_original_filename d) now db in
          bind_res (path_of base key) (\<lambda>target.
          case normalise_pdf open_pdf ghostscript (the (fs source)) of
            None \<Rightarrow> Inr (False, d, fs, db1)
          | Some smaller \<Rightarrow>
              let d' = d\<lparr>do_normalised_path := Some key\<rparr> in
              Inr (True, d', fs(target := Some smaller), save_document d' db1))))"

definition is_pending :: "document \<Rightarrow> bool" where
  "is_pending d \<longleftrightarrow> do_state d = READY \<and> do_normalised_path d = None \<and> do_original_path d \<noteq> None"

definition normalise_pending ::
  "(string \<Rightarrow> pdf_opened) \<Rightarrow> (string \<Rightarrow> string option) \<Rightarrow> nat \<Rightarrow> place \<Rightarrow> nat \<Rightarrow> datetime \<Rightarrow> files \<Rightarrow>
   'a printing_db_scheme \<Rightarrow> (files \<times> 'a printing_db_scheme) result" where
  "normalise_pending open_pdf ghostscript min_bytes base limit now fs db =
     fold_res (\<lambda>d (fs, db).
         bind_res (normalise_document open_pdf ghostscript min_bytes base d now fs db) (\<lambda>(made, d', fs', db'). Inr (fs', db')))
       (take limit (sort_key do_created_at (filter is_pending (documents db)))) (fs, db)"

section \<open>Letting go\<close>

definition WAITING_TO_PRINT :: string where
  "WAITING_TO_PRINT = ''That document is still waiting to print. It can be deleted once the job has finished.''"

definition ALREADY_PRINTED :: string where
  "ALREADY_PRINTED = ''That file has already been sent to a printer, so it is kept as a record of what was printed. Its contents are deleted automatically after seven days.''"

definition IN_USE_BY_AN_ORDER :: string where
  "IN_USE_BY_AN_ORDER = ''That file is part of an order. Cancel the order, or let it expire, and it can be deleted then.''"

definition artefacts :: "document \<Rightarrow> string list" where
  "artefacts d =
     (if truthy (do_original_path d) then [the (do_original_path d)] else [])
     @ (if truthy (do_normalised_path d) then [the (do_normalised_path d)] else [])"

definition delete_document ::
  "place \<Rightarrow> (nat \<Rightarrow> 'a printing_db_scheme \<Rightarrow> bool) \<Rightarrow> document \<Rightarrow> files \<Rightarrow> 'a printing_db_scheme \<Rightarrow>
   (files \<times> 'a printing_db_scheme) result" where
  "delete_document base is_referenced d fs db =
     (let states = map tk_state (filter (\<lambda>t. tk_document_id t = do_id d) (print_tasks db)) in
      if list_ex (\<lambda>s. s \<notin> TERMINAL_TASK_STATES) states then Inl (Conflict WAITING_TO_PRINT)
      else if states \<noteq> [] then Inl (Conflict ALREADY_PRINTED)
      else if is_referenced (do_id d) db then Inl (Conflict IN_USE_BY_AN_ORDER)
      else bind_res (fold_res (delete_file base) (artefacts d) fs) (\<lambda>fs1.
             Inr (fs1, db\<lparr>documents := filter (\<lambda>e. do_id e \<noteq> do_id d) (documents db)\<rparr>)))"

definition still_wanted :: "'a printing_db_scheme \<Rightarrow> nat set" where
  "still_wanted db = tk_document_id ` set (filter (\<lambda>t. tk_state t \<notin> TERMINAL_TASK_STATES) (print_tasks db))"

definition is_purgeable :: "datetime \<Rightarrow> 'a printing_db_scheme \<Rightarrow> document \<Rightarrow> bool" where
  "is_purgeable cutoff db d \<longleftrightarrow>
     do_created_at d < cutoff \<and> do_state d \<noteq> DOC_EXPIRED \<and> do_id d \<notin> still_wanted db"

definition purged :: "document \<Rightarrow> document" where
  "purged d = d\<lparr>do_original_path := None, do_normalised_path := None, do_state := DOC_EXPIRED\<rparr>"

definition purge_expired_files ::
  "place \<Rightarrow> datetime \<Rightarrow> datetime \<Rightarrow> files \<Rightarrow> 'a printing_db_scheme \<Rightarrow>
   (document list \<times> files \<times> 'a printing_db_scheme) result" where
  "purge_expired_files base older_than now fs db =
     (let stale = filter (is_purgeable (now - older_than) db) (documents db) in
      bind_res (fold_res (\<lambda>d (fs, db).
          bind_res (fold_res (delete_file base) (artefacts d) fs) (\<lambda>fs1. Inr (fs1, save_document (purged d) db)))
        stale (fs, db)) (\<lambda>(fs1, db1). Inr (map purged stale, fs1, db1)))"

section \<open>The student's routes\<close>

definition upload ::
  "(string \<Rightarrow> pdf_opened) \<Rightarrow> place \<Rightarrow> nat \<Rightarrow> nat \<Rightarrow> user \<Rightarrow> string option \<Rightarrow> (nat \<Rightarrow> string) \<Rightarrow> datetime \<Rightarrow> files \<Rightarrow>
   'a printing_db_scheme \<Rightarrow> (document \<times> files \<times> 'a printing_db_scheme) result" where
  "upload open_pdf base max_bytes max_pages u filename chunk now fs db =
     bind_res (read_upload chunk max_bytes 0 0 []) (\<lambda>(chunks, _).
       create_document open_pdf base max_bytes max_pages (us_id u)
         (if truthy filename then the filename else ''document.pdf'') (concat chunks) now fs db)"

definition remove_document ::
  "place \<Rightarrow> (nat \<Rightarrow> 'a printing_db_scheme \<Rightarrow> bool) \<Rightarrow> user \<Rightarrow> string \<Rightarrow> files \<Rightarrow> 'a printing_db_scheme \<Rightarrow>
   (files \<times> 'a printing_db_scheme) result" where
  "remove_document base is_referenced u document_id fs db =
     bind_res (document_for_user (us_id u) document_id db) (\<lambda>d. delete_document base is_referenced d fs db)"

section \<open>Where a key leads\<close>

lemma starts_with_iff: "starts_with xs ys \<longleftrightarrow> (\<exists>rest. ys = xs @ rest)"
  by (induction xs ys rule: starts_with.induct) auto

lemma path_of_inside: "path_of base key = Inr p \<Longrightarrow> \<exists>rest. p = base @ rest"
  by (auto simp: path_of_def Let_def starts_with_iff split: if_splits) metis

lemma resolve_plain:
  assumes "\<forall>s \<in> set ss. s \<noteq> [] \<and> s \<noteq> ''.'' \<and> s \<noteq> ''..''"
  shows "resolve up ss = rev up @ ss"
  using assms by (induction ss arbitrary: up) auto

lemma digit_no_slash [simp]: "is_digit c \<Longrightarrow> c \<noteq> CHR ''/'' \<and> c \<noteq> CHR 92 \<and> c \<noteq> CHR ''.''"
  by (auto simp: is_digit_def)

lemma show_nat_no_slash [simp]: "CHR ''/'' \<notin> set (show_nat n)" "CHR 92 \<notin> set (show_nat n)" "CHR ''.'' \<notin> set (show_nat n)"
  using show_nat_digits[of n] digit_no_slash by blast+

lemma show_int_no_slash [simp]: "CHR ''/'' \<notin> set (show_int n)" "CHR 92 \<notin> set (show_int n)" "CHR ''.'' \<notin> set (show_int n)"
  by (auto simp: show_int_def)

lemma show_int_nonempty [simp]: "show_int n \<noteq> []"
  by (simp add: show_int_def show_nat_nonempty)

lemma zero_pad_no_slash [simp]: "CHR ''/'' \<notin> set (zero_pad w n)" "CHR 92 \<notin> set (zero_pad w n)" "CHR ''.'' \<notin> set (zero_pad w n)"
  by (auto simp: zero_pad_def Let_def)

lemma zero_pad_nonempty [simp]: "zero_pad w n \<noteq> []"
  by (simp add: zero_pad_def Let_def)

lemma hex_no_slash [simp]:
  "CHR ''/'' \<notin> set (fst (uuid_hex db))" "CHR 92 \<notin> set (fst (uuid_hex db))"
proof -
  have "set (fst (uuid_hex db)) \<subseteq> set ''0123456789abcdef''"
    unfolding uuid_hex_def by (auto simp del: list.set intro!: nth_mem simp: subset_iff)
  then show "CHR ''/'' \<notin> set (fst (uuid_hex db))" "CHR 92 \<notin> set (fst (uuid_hex db))" by auto
qed

lemma safe_suffix_no_slash [simp]: "CHR ''/'' \<notin> set (safe_suffix f)" "CHR 92 \<notin> set (safe_suffix f)"
proof -
  have "set (safe_suffix f) \<subseteq> insert (CHR ''.'') {c. is_alnum c}"
    by (auto simp: safe_suffix_def Let_def dest: in_set_takeD)
  moreover have "\<not> is_alnum (CHR ''/'')" "\<not> is_alnum (CHR 92)" by (simp_all add: is_alnum_def)
  ultimately show "CHR ''/'' \<notin> set (safe_suffix f)" "CHR 92 \<notin> set (safe_suffix f)" by auto
qed

lemma area_no_slash [simp]: "CHR ''/'' \<notin> set (area_value a)" "CHR 92 \<notin> set (area_value a)" "CHR ''.'' \<notin> set (area_value a)"
  "area_value a \<noteq> []"
  by (cases a; simp)+

definition key_name :: "nat \<Rightarrow> string \<Rightarrow> 'a core_db_scheme \<Rightarrow> string" where
  "key_name u f db = ''usr'' @ show_nat u @ ''_'' @ fst (uuid_hex db) @ safe_suffix f"

lemma strip_keeps: "c \<in> set s \<Longrightarrow> \<not> is_space c \<Longrightarrow> strip s \<noteq> []"
  by (metis dropWhile_eq_Nil_conv rev_is_Nil_conv set_rev strip_def dropWhile_eq_Cons_conv hd_Cons_tl set_dropWhileD in_set_conv_decomp list.set_intros(1))

lemma new_key_place:
  assumes "civil (day_of now) = (y, m, d)"
  shows "path_of base (fst (new_key a u f now db)) = Inr (base @ [area_value a, show_int y, zero_pad 2 m, key_name u f db])"
proof -
  let ?k = "fst (new_key a u f now db)" and ?segs = "[area_value a, show_int y, zero_pad 2 m, key_name u f db]"
  have k: "?k = area_value a @ CHR ''/'' # show_int y @ CHR ''/'' # zero_pad 2 m @ CHR ''/'' # key_name u f db"
    by (simp add: new_key_def show_month_def assms key_name_def case_prod_beta Let_def)
  have free: "CHR ''/'' \<notin> set (key_name u f db)" "CHR 92 \<notin> set (key_name u f db)"
    by (simp_all add: key_name_def)
  then have segs: "split_on (CHR ''/'') ?k = ?segs"
    unfolding k by (simp add: split_on_append split_on_free)
  have same: "map (\<lambda>c. if c = CHR 92 then CHR ''/'' else c) ?k = ?k"
    using free unfolding k by (intro map_idI) auto
  have "CHR ''u'' \<in> set ?k" "\<not> is_space (CHR ''u'')" unfolding k by (simp_all add: key_name_def is_space_def)
  then have "strip ?k \<noteq> []" by (rule strip_keeps)
  moreover have "hd ?k \<noteq> CHR ''/''" unfolding k by (metis area_no_slash(1,4) hd_append2 hd_in_set)
  moreover have "resolve (rev base) ?segs = base @ ?segs"
  proof (subst resolve_plain)
    have "s \<noteq> ''.'' \<and> s \<noteq> ''..''" if "CHR ''.'' \<notin> set s" for s :: string using that by auto
    then show "\<forall>s \<in> set ?segs. s \<noteq> [] \<and> s \<noteq> ''.'' \<and> s \<noteq> ''..''" by (auto simp: key_name_def)
  qed simp
  ultimately show ?thesis unfolding path_of_def Let_def same segs by (simp add: starts_with_iff)
qed

text \<open>
  C26. Nothing a student names leaves the store: whatever the file is called, the key made for it
  leads to a file of its own directory four levels under the root, and a key out of a tampered row
  that would climb out of the root is refused before the disk is touched.
\<close>

theorem stored_under_the_root:
  "(\<exists>y m. path_of base (fst (new_key a u f now db)) = Inr (base @ [area_value a, y, m, key_name u f db]))
   \<and> (case path_of base key of Inl e \<Rightarrow> status_code e = 500 | Inr p \<Rightarrow> \<exists>rest. p = base @ rest)"
proof (intro conjI)
  obtain y m d where "civil (day_of now) = (y, m, d)" by (cases "civil (day_of now)")
  from new_key_place[OF this] show "\<exists>y m. path_of base (fst (new_key a u f now db)) = Inr (base @ [area_value a, y, m, key_name u f db])"
    by blast
  have "e = INVALID_KEY" if "path_of base key = Inl e" for e
    using that by (auto simp: path_of_def Let_def split: if_splits)
  then show "case path_of base key of Inl e \<Rightarrow> status_code e = 500 | Inr p \<Rightarrow> \<exists>rest. p = base @ rest"
    using path_of_inside by (auto split: sum.split simp: INVALID_KEY_def)
qed

section \<open>Reading an upload ends\<close>

lemma read_upload_shape:
  assumes "sofar = length (concat chunks)" and "chunks = map chunk [0..<i]" and "\<forall>j < i. chunk j \<noteq> []" and "sofar \<le> limit"
  shows "case read_upload chunk limit i sofar chunks of
      Inr (cs, n) \<Rightarrow> cs = map chunk [0..<n] \<and> chunk n = [] \<and> (\<forall>j < n. chunk j \<noteq> []) \<and> length (concat cs) \<le> limit
    | Inl e \<Rightarrow> e = BadRequest (too_large limit) \<and> (\<exists>n. (\<forall>j \<le> n. chunk j \<noteq> [])
         \<and> length (concat (map chunk [0..<n])) \<le> limit \<and> limit < length (concat (map chunk [0..<n])) + length (chunk n))"
  using assms
proof (induction chunk limit i sofar chunks rule: read_upload.induct)
  case (1 chunk limit i sofar chunks)
  show ?case
  proof (cases "chunk i = []")
    case True
    then show ?thesis using 1(2-5) by (subst read_upload.simps) (simp add: Let_def)
  next
    case False
    show ?thesis
    proof (cases "limit < sofar + length (chunk i)")
      case True
      then show ?thesis using False 1(2-5) by (subst read_upload.simps) (auto simp: Let_def le_less intro!: exI[of _ i])
    next
      case fits: False
      have step: "read_upload chunk limit i sofar chunks = read_upload chunk limit (i + 1) (sofar + length (chunk i)) (chunks @ [chunk i])"
        using False fits by (subst read_upload.simps) (simp add: Let_def)
      show ?thesis unfolding step
        by (rule 1(1)[OF refl False fits]) (use 1(2-5) False fits in \<open>auto simp: less_Suc_eq\<close>)
    qed
  qed
qed

lemma chunks_bound: "\<forall>j < n. chunk j \<noteq> [] \<Longrightarrow> n \<le> length (concat (map chunk [0..<n]))"
proof (induction n)
  case (Suc n)
  then have "n \<le> length (concat (map chunk [0..<n]))" "0 < length (chunk n)" by auto
  then have "Suc n \<le> length (concat (map chunk [0..<n])) + length (chunk n)" by linarith
  then show ?case by simp
qed simp

text \<open>
  C27. Reading an upload ends, however long a client keeps sending: the loop asks for at most one
  chunk more than the limit has bytes, keeps nothing beyond the limit, and answers everything that
  was sent when it fits, or refuses at the first chunk that does not.
\<close>

theorem reading_an_upload_ends:
  "case read_upload chunk limit 0 0 [] of
      Inr (cs, n) \<Rightarrow> n \<le> limit \<and> chunk n = [] \<and> cs = map chunk [0..<n] \<and> length (concat cs) \<le> limit
    | Inl e \<Rightarrow> e = BadRequest (too_large limit) \<and> (\<exists>n \<le> limit. length (concat (map chunk [0..<n])) \<le> limit
         \<and> limit < length (concat (map chunk [0..<Suc n])))"
proof -
  have s: "case read_upload chunk limit 0 0 [] of
      Inr (cs, n) \<Rightarrow> cs = map chunk [0..<n] \<and> chunk n = [] \<and> (\<forall>j < n. chunk j \<noteq> []) \<and> length (concat cs) \<le> limit
    | Inl e \<Rightarrow> e = BadRequest (too_large limit) \<and> (\<exists>n. (\<forall>j \<le> n. chunk j \<noteq> [])
         \<and> length (concat (map chunk [0..<n])) \<le> limit \<and> limit < length (concat (map chunk [0..<n])) + length (chunk n))"
    by (rule read_upload_shape) simp_all
  show ?thesis
  proof (cases "read_upload chunk limit 0 0 []")
    case (Inl e)
    with s obtain n where n: "\<forall>j \<le> n. chunk j \<noteq> []" "length (concat (map chunk [0..<n])) \<le> limit"
      "limit < length (concat (map chunk [0..<n])) + length (chunk n)" "e = BadRequest (too_large limit)" by auto
    have "n \<le> length (concat (map chunk [0..<n]))" by (rule chunks_bound) (use n(1) in auto)
    then have "n \<le> limit" using n(2) by linarith
    moreover have "limit < length (concat (map chunk [0..<Suc n]))" using n(3) by simp
    ultimately show ?thesis unfolding Inl sum.case using n(2,4) by blast
  next
    case (Inr r)
    obtain cs n where r: "r = (cs, n)" by fastforce
    with s Inr have n: "cs = map chunk [0..<n]" "chunk n = []" "\<forall>j < n. chunk j \<noteq> []" "length (concat cs) \<le> limit" by auto
    have "n \<le> length (concat (map chunk [0..<n]))" by (rule chunks_bound) (rule n(3))
    then have "n \<le> limit" using n(1,4) by simp
    with n show ?thesis unfolding Inr r by simp
  qed
qed

section \<open>What a printer is given\<close>

text \<open>
  A document that can be ordered names a file that is there and is as long as the row says, which is
  what its price and its sheets are counted from. No file serves two documents.
\<close>

definition places :: "place \<Rightarrow> document \<Rightarrow> place set" where
  "places base d = {p. \<exists>k \<in> set (artefacts d). path_of base k = Inr p}"

definition holds_file :: "(string \<Rightarrow> pdf_opened) \<Rightarrow> place \<Rightarrow> files \<Rightarrow> document \<Rightarrow> bool" where
  "holds_file open_pdf base fs d \<longleftrightarrow> (\<exists>key p data n. printable_key d = Inr key \<and> path_of base key = Inr p
     \<and> fs p = Some data \<and> open_pdf data = PdfPages n \<and> do_page_count d = Some (int n))"

definition library_ok :: "(string \<Rightarrow> pdf_opened) \<Rightarrow> place \<Rightarrow> files \<Rightarrow> 'a printing_db_scheme \<Rightarrow> bool" where
  "library_ok open_pdf base fs db \<longleftrightarrow> distinct (map do_id (documents db))
     \<and> (\<forall>d \<in> set (documents db). \<forall>k \<in> set (artefacts d). \<exists>p. path_of base k = Inr p)
     \<and> (\<forall>d \<in> set (documents db). do_state d = READY \<longrightarrow> holds_file open_pdf base fs d)
     \<and> (\<forall>d \<in> set (documents db). \<forall>e \<in> set (documents db). do_id d \<noteq> do_id e \<longrightarrow> places base d \<inter> places base e = {})"

lemma printable_artefact: "printable_key d = Inr k \<Longrightarrow> k \<in> set (artefacts d)"
  by (auto simp: printable_key_def artefacts_def or_else_def Let_def truthy_def split: if_splits)

lemma holds_frame:
  assumes "holds_file open_pdf base fs d" and "\<And>p. p \<in> places base d \<Longrightarrow> fs' p = fs p"
  shows "holds_file open_pdf base fs' d"
proof -
  obtain key p data n where h: "printable_key d = Inr key" "path_of base key = Inr p" "fs p = Some data"
    "open_pdf data = PdfPages n" "do_page_count d = Some (int n)" using assms(1) by (auto simp: holds_file_def)
  have "p \<in> places base d" using printable_artefact[OF h(1)] h(2) by (auto simp: places_def)
  from assms(2)[OF this] h show ?thesis by (auto simp: holds_file_def)
qed

lemma library_okD:
  assumes "library_ok open_pdf base fs db" and "d \<in> set (documents db)"
  shows "k \<in> set (artefacts d) \<Longrightarrow> \<exists>p. path_of base k = Inr p"
    and "do_state d = READY \<Longrightarrow> holds_file open_pdf base fs d"
    and "e \<in> set (documents db) \<Longrightarrow> do_id d \<noteq> do_id e \<Longrightarrow> places base d \<inter> places base e = {}"
  using assms unfolding library_ok_def by blast+

text \<open>A new file: nobody was ever given its name, which is what \<^verbatim>\<open>uuid4\<close> is for.\<close>

definition unclaimed :: "place \<Rightarrow> storage_area \<Rightarrow> nat \<Rightarrow> string \<Rightarrow> datetime \<Rightarrow> 'a printing_db_scheme \<Rightarrow> bool" where
  "unclaimed base a u f now db \<longleftrightarrow>
     (\<forall>d \<in> set (documents db). \<forall>p. path_of base (fst (new_key a u f now db)) = Inr p \<longrightarrow> p \<notin> places base d)"

lemma path_of_nonempty: "path_of base k = Inr p \<Longrightarrow> k \<noteq> []"
  by (auto simp: path_of_def strip_def)

lemma new_key_tables [simp]:
  "documents (snd (new_key a u f now db)) = documents db"
  "print_tasks (snd (new_key a u f now db)) = print_tasks db"
  by (simp_all add: new_key_def uuid_hex_def)

lemma inspect_pages:
  "inspect_pdf open_pdf mb mp data = Inr facts \<Longrightarrow> open_pdf data = PdfPages (pf_page_count facts)"
  by (auto simp: inspect_pdf_def split: if_splits pdf_opened.splits)

lemma create_effect:
  assumes "create_document open_pdf base mb mp u f data now fs db = Inr (d, fs', db')"
  obtains n p where "open_pdf data = PdfPages n" "path_of base (fst (new_key ORIGINAL u f now db)) = Inr p"
    "documents db' = documents db @ [d]" "fs' = fs(p := Some data)" "artefacts d = [fst (new_key ORIGINAL u f now db)]"
    "do_page_count d = Some (int n)" "do_id d = fresh_key do_id (documents db)"
    "printable_key d = Inr (fst (new_key ORIGINAL u f now db))"
proof -
  let ?key = "fst (new_key ORIGINAL u f now db)"
  from assms obtain facts p where i: "inspect_pdf open_pdf mb mp data = Inr facts" and p: "path_of base ?key = Inr p"
    by (auto simp: create_document_def bind_res_Inr_iff save_file_def write_file_def case_prod_beta Let_def)
  have ne: "?key \<noteq> []" by (rule path_of_nonempty[OF p])
  have w: "write_file base ?key data fs = Inr (fs(p := Some data))" by (simp add: write_file_def p)
  have d: "d = \<lparr>do_id = fresh_key do_id (documents db), do_public_id = do_public_id d, do_user_id = u,
                do_original_filename = f, do_original_path = Some ?key, do_normalised_path = None,
                do_page_count = Some (int (pf_page_count facts)), do_byte_size = Some (int (pf_byte_size facts)),
                do_state = READY, do_rejection_reason = None, do_created_at = tx_now db\<rparr>"
    and t: "documents db' = documents db @ [d]" "fs' = fs(p := Some data)"
    using assms i w by (auto simp: create_document_def save_file_def case_prod_beta Let_def)
  show thesis
  proof (rule that[OF inspect_pages[OF i] p t])
    show "artefacts d = [?key]" "do_page_count d = Some (int (pf_page_count facts))"
      "do_id d = fresh_key do_id (documents db)" "printable_key d = Inr ?key"
      by (subst d, simp add: artefacts_def printable_key_def or_else_def truthy_def ne)+
  qed
qed

lemma create_keeps:
  assumes ok: "library_ok open_pdf base fs db" and free: "unclaimed base ORIGINAL u f now db"
    and run: "create_document open_pdf base mb mp u f data now fs db = Inr (d, fs', db')"
  shows "library_ok open_pdf base fs' db'"
proof -
  obtain n p where c: "open_pdf data = PdfPages n" "path_of base (fst (new_key ORIGINAL u f now db)) = Inr p"
    "documents db' = documents db @ [d]" "fs' = fs(p := Some data)" "artefacts d = [fst (new_key ORIGINAL u f now db)]"
    "do_page_count d = Some (int n)" "do_id d = fresh_key do_id (documents db)"
    "printable_key d = Inr (fst (new_key ORIGINAL u f now db))"
    by (rule create_effect[OF run]) (rule that; assumption)
  have pd: "places base d = {p}" using c(2,5) by (auto simp: places_def)
  have apart: "p \<notin> places base e" if "e \<in> set (documents db)" for e
    using free c(2) that unfolding unclaimed_def by blast
  have "holds_file open_pdf base fs' d" unfolding holds_file_def using c by auto
  moreover have "holds_file open_pdf base fs' e" if "e \<in> set (documents db)" "do_state e = READY" for e
    by (rule holds_frame[OF library_okD(2)[OF ok that]]) (use apart[OF that(1)] c(4) in auto)
  moreover have "distinct (map do_id (documents db'))"
    using ok unfolding library_ok_def c(3) by (simp add: c(7) fresh_key_notin)
  ultimately show ?thesis
    using ok c(2,5) pd apart unfolding library_ok_def c(3) by auto
qed

lemma artefacts_normalised:
  assumes "do_original_path d = Some k" and "k \<noteq> []" and "do_normalised_path d = None"
  shows "artefacts d = [k]" and "printable_key d = Inr k"
    and "k' \<noteq> [] \<Longrightarrow> artefacts (d\<lparr>do_normalised_path := Some k'\<rparr>) = [k, k']"
    and "k' \<noteq> [] \<Longrightarrow> printable_key (d\<lparr>do_normalised_path := Some k'\<rparr>) = Inr k'"
  using assms by (simp_all add: artefacts_def printable_key_def or_else_def truthy_def)

lemma normalise_keeps:
  assumes ok: "library_ok open_pdf base fs db" and d: "d \<in> set (documents db)" "is_pending d"
    and free: "unclaimed base NORMALISED (do_user_id d) (do_original_filename d) now db"
    and run: "normalise_document open_pdf gs mb base d now fs db = Inr (made, d', fs', db')"
  shows "library_ok open_pdf base fs' db'"
proof (cases made)
  case False
  with run have "fs' = fs" "documents db' = documents db"
    by (auto simp: normalise_document_def Let_def case_prod_beta bind_res_Inr_iff split: if_splits option.splits)
  with ok show ?thesis by (simp add: library_ok_def)
next
  case True
  let ?key = "fst (new_key NORMALISED (do_user_id d) (do_original_filename d) now db)"
  obtain k where k: "do_original_path d = Some k" "do_normalised_path d = None" "do_state d = READY"
    using d(2) by (auto simp: is_pending_def)
  from run True k have ne: "k \<noteq> []" by (auto simp: normalise_document_def truthy_def)
  from run True k ne obtain q p smaller where q: "path_of base k = Inr q" and p: "path_of base ?key = Inr p"
    and s: "normalise_pdf open_pdf gs (the (fs q)) = Some smaller"
    and r: "fs' = fs(p := Some smaller)" "documents db' = put_row do_id (d\<lparr>do_normalised_path := Some ?key\<rparr>) (documents db)"
    by (auto simp: normalise_document_def Let_def case_prod_beta bind_res_Inr_iff truthy_def save_document_def
        split: if_splits option.splits)
  let ?d = "d\<lparr>do_normalised_path := Some ?key\<rparr>"
  note a = artefacts_normalised[OF k(1) ne k(2)]
  have pne: "?key \<noteq> []" by (rule path_of_nonempty[OF p])
  obtain data n where src: "fs q = Some data" "open_pdf data = PdfPages n" "do_page_count d = Some (int n)"
    using library_okD(2)[OF ok d(1) k(3)] a(2) q by (auto simp: holds_file_def)
  have "open_pdf smaller = PdfPages n"
    using s src by (auto simp: normalise_pdf_def Let_def page_count_of_def split: option.splits if_splits pdf_opened.splits)
  then have new: "holds_file open_pdf base fs' ?d" using a(4)[OF pne] p r(1) src(3) by (auto simp: holds_file_def)
  have apart: "p \<notin> places base e" if "e \<in> set (documents db)" for e
    using free p that unfolding unclaimed_def by blast
  have pl: "places base ?d = insert p (places base d)" using a(1) a(3)[OF pne] q p by (auto simp: places_def)
  have rows: "set (documents db') = insert ?d (set (documents db) - {d})"
  proof -
    have "e = d" if "e \<in> set (documents db)" "do_id e = do_id d" for e
      using distinct_key_eq[of do_id "documents db" d e] ok d(1) that by (auto simp: library_ok_def)
    then show ?thesis using d(1) by (auto simp: r(2) set_put_row)
  qed
  have old: "holds_file open_pdf base fs' e" if "e \<in> set (documents db)" "do_state e = READY" for e
    by (rule holds_frame[OF library_okD(2)[OF ok that]]) (use apart[OF that(1)] r(1) in auto)
  have dis: "places base ?d \<inter> places base e = {}" if "e \<in> set (documents db)" "do_id e \<noteq> do_id d" for e
    using library_okD(3)[OF ok d(1) that(1)] that(2) apart[OF that(1)] pl by auto
  have paths: "\<exists>p. path_of base x = Inr p" if "x \<in> set (artefacts ?d)" for x using that a(3)[OF pne] q p by auto
  show ?thesis unfolding library_ok_def
  proof (intro conjI ballI impI)
    show "distinct (map do_id (documents db'))" using ok by (simp add: r(2) distinct_put_row library_ok_def)
  next
    fix e x assume "e \<in> set (documents db')" "x \<in> set (artefacts e)"
    then show "\<exists>p. path_of base x = Inr p" using paths library_okD(1)[OF ok] by (auto simp: rows)
  next
    fix e assume "e \<in> set (documents db')" "do_state e = READY"
    then show "holds_file open_pdf base fs' e" using new old by (auto simp: rows)
  next
    fix e1 e2 assume e: "e1 \<in> set (documents db')" "e2 \<in> set (documents db')" "do_id e1 \<noteq> do_id e2"
    consider "e1 = ?d" | "e2 = ?d" "e1 \<in> set (documents db)" | "e1 \<in> set (documents db)" "e2 \<in> set (documents db)"
      using e by (auto simp: rows)
    then show "places base e1 \<inter> places base e2 = {}"
    proof cases
      case 1
      then have "e2 \<in> set (documents db)" "do_id e2 \<noteq> do_id d" using e by (auto simp: rows)
      with dis 1 show ?thesis by blast
    next
      case 2
      then have "do_id e1 \<noteq> do_id d" using e(3) by simp
      with dis[OF 2(2)] 2 show ?thesis by blast
    next
      case 3
      then show ?thesis using library_okD(3)[OF ok 3] e(3) by blast
    qed
  qed
qed

lemma delete_files_effect:
  "fold_res (delete_file base) ks fs = Inr fs' \<longleftrightarrow>
     (\<forall>k \<in> set ks. \<exists>p. path_of base k = Inr p)
     \<and> fs' = (\<lambda>p. if \<exists>k \<in> set ks. path_of base k = Inr p then None else fs p)"
proof (induction ks arbitrary: fs)
  case (Cons k ks)
  show ?case
  proof (cases "path_of base k")
    case (Inl e)
    then show ?thesis by (simp add: delete_file_def)
  next
    case (Inr p)
    have same: "(\<lambda>q. if \<exists>j \<in> set ks. path_of base j = Inr q then None else (fs(p := None)) q)
        = (\<lambda>q. if \<exists>j \<in> set (k # ks). path_of base j = Inr q then None else fs q)"
      using Inr by (auto simp: fun_eq_iff)
    have "delete_file base k fs = Inr (fs(p := None))" using Inr by (simp add: delete_file_def)
    then have step: "fold_res (delete_file base) (k # ks) fs = fold_res (delete_file base) ks (fs(p := None))" by simp
    show ?thesis unfolding step Cons.IH same using Inr by simp
  qed
qed auto

lemma artefacts_purged [simp]: "artefacts (purged d) = []" "do_id (purged d) = do_id d" "do_state (purged d) = DOC_EXPIRED"
  by (simp_all add: artefacts_def purged_def truthy_def)

lemma purge_fold:
  fixes db :: "'a printing_db_scheme"
  assumes "fold_res (\<lambda>d (fs, db). bind_res (fold_res (delete_file base) (artefacts d) fs)
      (\<lambda>fs1. Inr (fs1, save_document (purged d) db))) ds (fs, db) = Inr (fs', db')"
  shows "fs' = (\<lambda>p. if \<exists>d \<in> set ds. p \<in> places base d then None else fs p)
    \<and> db' = db\<lparr>documents := fold (\<lambda>d. put_row do_id (purged d)) ds (documents db)\<rparr>"
  using assms
proof (induction ds arbitrary: fs db)
  case (Cons d ds)
  then obtain fs1 where f: "fold_res (delete_file base) (artefacts d) fs = Inr fs1"
    and rest: "fold_res (\<lambda>d (fs, db). bind_res (fold_res (delete_file base) (artefacts d) fs)
      (\<lambda>fs1. Inr (fs1, save_document (purged d) db))) ds (fs1, save_document (purged d) db) = Inr (fs', db')"
    by (auto simp: bind_res_Inr_iff)
  have "fs1 = (\<lambda>p. if p \<in> places base d then None else fs p)"
    using f[unfolded delete_files_effect] by (simp add: places_def)
  with Cons.IH[OF rest] show ?case by (auto simp: save_document_def)
qed simp

lemma fold_put_rows:
  assumes "distinct (map do_id rows)" and "set ds \<subseteq> set rows"
  shows "fold (\<lambda>d. put_row do_id (purged d)) ds rows = map (\<lambda>d. if d \<in> set ds then purged d else d) rows"
proof -
  have "fold (\<lambda>d. put_row do_id (purged d)) ds (map (\<lambda>d. if d \<in> set done_so then purged d else d) rows)
      = map (\<lambda>d. if d \<in> set done_so \<union> set ds then purged d else d) rows"
    if "set ds \<subseteq> set rows" "set done_so \<subseteq> set rows" for done_so
    using that
  proof (induction ds arbitrary: done_so)
    case (Cons d ds)
    have same: "e = d" if "e \<in> set rows" "do_id e = do_id d" for e
      using distinct_key_eq[OF assms(1), of d e] Cons.prems(1) that by auto
    have "put_row do_id (purged d) (map (\<lambda>d. if d \<in> set done_so then purged d else d) rows)
        = map (\<lambda>e. if e \<in> set (d # done_so) then purged e else e) rows"
      using same by (auto simp: put_row_def)
    then show ?case using Cons.IH[of "d # done_so"] Cons.prems by (simp add: insert_commute Un_commute)
  qed simp
  from this[of "[]"] assms(2) show ?thesis by simp
qed

lemma purge_effect:
  assumes "library_ok open_pdf base fs db" and "purge_expired_files base older now fs db = Inr (ds, fs', db')"
  shows "db' = db\<lparr>documents := map (\<lambda>d. if is_purgeable (now - older) db d then purged d else d) (documents db)\<rparr>"
    and "fs' = (\<lambda>p. if \<exists>d \<in> set (documents db). is_purgeable (now - older) db d \<and> p \<in> places base d then None else fs p)"
proof -
  let ?ds = "filter (is_purgeable (now - older) db) (documents db)"
  from assms(2) have "fold_res (\<lambda>d (fs, db). bind_res (fold_res (delete_file base) (artefacts d) fs)
      (\<lambda>fs1. Inr (fs1, save_document (purged d) db))) ?ds (fs, db) = Inr (fs', db')"
    by (auto simp: purge_expired_files_def Let_def bind_res_Inr_iff)
  from purge_fold[OF this]
  have e: "fs' = (\<lambda>p. if \<exists>d \<in> set ?ds. p \<in> places base d then None else fs p)"
    "db' = db\<lparr>documents := fold (\<lambda>d. put_row do_id (purged d)) ?ds (documents db)\<rparr>" by blast+
  have "distinct (map do_id (documents db))" using assms(1) by (simp add: library_ok_def)
  from fold_put_rows[OF this, of ?ds] show "db' = db\<lparr>documents := map (\<lambda>d. if is_purgeable (now - older) db d then purged d else d) (documents db)\<rparr>"
    unfolding e(2) by (auto intro!: arg_cong[where f = "\<lambda>x. db\<lparr>documents := x\<rparr>"])
  show "fs' = (\<lambda>p. if \<exists>d \<in> set (documents db). is_purgeable (now - older) db d \<and> p \<in> places base d then None else fs p)"
    unfolding e(1) by (auto simp: fun_eq_iff)
qed

lemma purge_keeps:
  assumes ok: "library_ok open_pdf base fs db" and run: "purge_expired_files base older now fs db = Inr (ds, fs', db')"
  shows "library_ok open_pdf base fs' db'"
proof -
  note e = purge_effect[OF ok run]
  let ?gone = "is_purgeable (now - older) db"
  have rows: "documents db' = map (\<lambda>d. if ?gone d then purged d else d) (documents db)" by (simp add: e(1))
  have mem: "(\<exists>d \<in> set (documents db). ?gone d \<and> x = purged d) \<or> x \<in> set (documents db) \<and> \<not> ?gone x"
    if "x \<in> set (documents db')" for x using that by (auto simp: rows)
  have none: "places base (purged d) = {}" for d by (simp add: places_def)
  show ?thesis unfolding library_ok_def
  proof (intro conjI ballI impI)
    have "map do_id (documents db') = map do_id (documents db)" by (auto simp: rows)
    with ok show "distinct (map do_id (documents db'))" by (simp add: library_ok_def)
  next
    fix d k assume "d \<in> set (documents db')" "k \<in> set (artefacts d)"
    then show "\<exists>p. path_of base k = Inr p" using mem library_okD(1)[OF ok] by fastforce
  next
    fix d assume d: "d \<in> set (documents db')" "do_state d = READY"
    then have m: "d \<in> set (documents db)" "\<not> ?gone d" using mem[OF d(1)] by auto
    show "holds_file open_pdf base fs' d"
    proof (rule holds_frame[OF library_okD(2)[OF ok m(1) d(2)]])
      fix p assume "p \<in> places base d"
      then have "\<not> (\<exists>e \<in> set (documents db). ?gone e \<and> p \<in> places base e)"
        using library_okD(3)[OF ok m(1)] m distinct_key_eq[of do_id "documents db"] ok
        by (metis disjoint_iff library_ok_def)
      then show "fs' p = fs p" unfolding e(2) by (rule if_not_P)
    qed
  next
    fix d e assume "d \<in> set (documents db')" "e \<in> set (documents db')" "do_id d \<noteq> do_id e"
    then show "places base d \<inter> places base e = {}"
      using mem[of d] mem[of e] library_okD(3)[OF ok] none by fastforce
  qed
qed

lemma delete_keeps:
  assumes ok: "library_ok open_pdf base fs db" and d: "d \<in> set (documents db)"
    and run: "delete_document base used d fs db = Inr (fs', db')"
  shows "library_ok open_pdf base fs' db'"
proof -
  from run have "fold_res (delete_file base) (artefacts d) fs = Inr fs'"
    and rows: "documents db' = filter (\<lambda>e. do_id e \<noteq> do_id d) (documents db)"
    by (auto simp: delete_document_def Let_def bind_res_Inr_iff split: if_splits)
  then have fs': "fs' = (\<lambda>p. if p \<in> places base d then None else fs p)"
    unfolding delete_files_effect places_def by simp
  have "holds_file open_pdf base fs' e" if "e \<in> set (documents db)" "do_id e \<noteq> do_id d" "do_state e = READY" for e
    by (rule holds_frame[OF library_okD(2)[OF ok that(1,3)]])
      (use library_okD(3)[OF ok d that(1)] that(2) in \<open>auto simp: fs'\<close>)
  moreover have "distinct (map do_id (documents db'))" using ok by (simp add: rows library_ok_def distinct_map_filter)
  ultimately show ?thesis using ok unfolding library_ok_def rows by auto
qed

section \<open>Along any run\<close>

text \<open>What may happen to the files. A new file has a name nobody was given before.\<close>

inductive library_step ::
  "(string \<Rightarrow> pdf_opened) \<Rightarrow> place \<Rightarrow> files \<times> 'a printing_db_scheme \<Rightarrow> files \<times> 'a printing_db_scheme \<Rightarrow> bool"
  for open_pdf :: "string \<Rightarrow> pdf_opened" and base :: place where
  uploaded: "unclaimed base ORIGINAL u f now db \<Longrightarrow>
    create_document open_pdf base mb mp u f data now fs db = Inr (d, fs', db') \<Longrightarrow> library_step open_pdf base (fs, db) (fs', db')"
| shrunk: "d \<in> set (documents db) \<Longrightarrow> is_pending d \<Longrightarrow>
    unclaimed base NORMALISED (do_user_id d) (do_original_filename d) now db \<Longrightarrow>
    normalise_document open_pdf gs mn base d now fs db = Inr (made, d', fs', db') \<Longrightarrow> library_step open_pdf base (fs, db) (fs', db')"
| removed: "d \<in> set (documents db) \<Longrightarrow> delete_document base used d fs db = Inr (fs', db') \<Longrightarrow>
    library_step open_pdf base (fs, db) (fs', db')"
| retired: "purge_expired_files base older now fs db = Inr (ds, fs', db') \<Longrightarrow> library_step open_pdf base (fs, db) (fs', db')"
| otherwise: "documents db' = documents db \<Longrightarrow> library_step open_pdf base (fs, db) (fs, db')"

lemma library_step_keeps:
  "library_step open_pdf base s s' \<Longrightarrow> library_ok open_pdf base (fst s) (snd s) \<Longrightarrow> library_ok open_pdf base (fst s') (snd s')"
proof (induction rule: library_step.induct)
  case (uploaded u f now db mb mp data fs d fs' db')
  from create_keeps[OF _ this(1,2)] this(3) show ?case unfolding fst_conv snd_conv .
next
  case (shrunk d db now gs mn fs made d' fs' db')
  from normalise_keeps[OF _ this(1-4)] this(5) show ?case unfolding fst_conv snd_conv .
next
  case (removed d db used fs fs' db')
  from delete_keeps[OF _ this(1,2)] this(3) show ?case unfolding fst_conv snd_conv .
next
  case (retired older now fs db ds fs' db')
  from purge_keeps[OF _ this(1)] this(2) show ?case unfolding fst_conv snd_conv .
next
  case (otherwise db' db fs)
  then show ?case by (simp add: library_ok_def)
qed

text \<open>
  C25. What is printed is what was priced: along any run of uploads, shrinkings, deletions and
  retention sweeps, a document that can be ordered has a file behind the key its device is given,
  and that file has exactly the pages its price and its sheets were counted from.
\<close>

theorem what_is_printed_was_priced:
  assumes "(library_step open_pdf base)\<^sup>*\<^sup>* (fs, db) (fs', db')" and "library_ok open_pdf base fs db"
    and "d \<in> set (documents db')" and "do_state d = READY"
  shows "\<exists>key p data n. printable_key d = Inr key \<and> path_of base key = Inr p \<and> fs' p = Some data
    \<and> open_pdf data = PdfPages n \<and> do_page_count d = Some (int n)"
proof -
  have "library_ok open_pdf base (fst (fs', db')) (snd (fs', db'))"
    using assms(1) by (induction rule: rtranclp_induct) (use assms(2) library_step_keeps in auto)
  then have "holds_file open_pdf base fs' d" using library_okD(2)[of open_pdf base fs' db' d] assms(3,4) by simp
  then show ?thesis by (simp add: holds_file_def)
qed

lemma retention_total:
  assumes "library_ok open_pdf base fs db"
  shows "\<exists>ds fs' db'. purge_expired_files base older now fs db = Inr (ds, fs', db')"
proof -
  have total_fold: "\<exists>r. fold_res (\<lambda>d (fs, db). bind_res (fold_res (delete_file base) (artefacts d) fs)
      (\<lambda>fs1. Inr (fs1, save_document (purged d) db))) ds (gs, b) = Inr r"
    if "\<forall>d \<in> set ds. \<forall>k \<in> set (artefacts d). \<exists>p. path_of base k = Inr p" for ds gs and b :: "'a printing_db_scheme"
    using that
  proof (induction ds arbitrary: gs b)
    case (Cons d ds)
    then obtain fs1 where "fold_res (delete_file base) (artefacts d) gs = Inr fs1"
      using delete_files_effect[of base "artefacts d" gs] by auto
    then show ?case using Cons by simp
  qed simp
  have "\<forall>d \<in> set (filter (is_purgeable (now - older) db) (documents db)). \<forall>k \<in> set (artefacts d). \<exists>p. path_of base k = Inr p"
    using library_okD(1)[OF assms] by auto
  from total_fold[OF this, of fs db] obtain r where
    "fold_res (\<lambda>d (fs, db). bind_res (fold_res (delete_file base) (artefacts d) fs)
      (\<lambda>fs1. Inr (fs1, save_document (purged d) db))) (filter (is_purgeable (now - older) db) (documents db)) (fs, db) = Inr r"
    by (elim exE)
  then obtain ds fs' db' where run: "purge_expired_files base older now fs db = Inr (ds, fs', db')"
    by (cases r) (simp add: purge_expired_files_def Let_def)
  then show ?thesis by blast
qed

text \<open>
  (Property). Retention takes the files of exactly the documents that are old enough, not yet expired and
  not waited for by any print, keeps their rows, touches no other file and no task, and a second
  sweep finds nothing to do; it never raises on rows whose keys the store made.
\<close>

theorem retention_is_exact:
  assumes "library_ok open_pdf base fs db"
  shows "\<exists>ds fs' db'. purge_expired_files base older now fs db = Inr (ds, fs', db')
    \<and> documents db' = map (\<lambda>d. if is_purgeable (now - older) db d then purged d else d) (documents db)
    \<and> print_tasks db' = print_tasks db
    \<and> (\<forall>d \<in> set (documents db). \<forall>p \<in> places base d. fs' p = (if is_purgeable (now - older) db d then None else fs p))
    \<and> (\<forall>p. (\<forall>d \<in> set (documents db). p \<notin> places base d) \<longrightarrow> fs' p = fs p)
    \<and> purge_expired_files base older now fs' db' = Inr ([], fs', db')"
proof -
  obtain ds fs' db' where run: "purge_expired_files base older now fs db = Inr (ds, fs', db')"
    using retention_total[OF assms] by blast
  note e = purge_effect[OF assms run]
  have rows: "documents db' = map (\<lambda>d. if is_purgeable (now - older) db d then purged d else d) (documents db)"
    and tasks: "print_tasks db' = print_tasks db" by (simp_all add: e(1))
  have taken: "fs' p = (if is_purgeable (now - older) db d then None else fs p)"
    if "d \<in> set (documents db)" "p \<in> places base d" for d p
  proof (cases "is_purgeable (now - older) db d")
    case False
    have "\<not> (\<exists>x \<in> set (documents db). is_purgeable (now - older) db x \<and> p \<in> places base x)"
      using library_okD(3)[OF assms that(1)] that(2) False distinct_key_eq[of do_id "documents db"] assms that(1)
      by (metis disjoint_iff library_ok_def)
    then show ?thesis using False unfolding e(2) by auto
  qed (use that in \<open>auto simp: e(2)\<close>)
  have others: "\<forall>p. (\<forall>d \<in> set (documents db). p \<notin> places base d) \<longrightarrow> fs' p = fs p" by (auto simp: e(2))
  have "\<not> is_purgeable (now - older) db' d" if "d \<in> set (documents db')" for d
    using that by (auto simp: rows is_purgeable_def still_wanted_def tasks)
  then have "filter (is_purgeable (now - older) db') (documents db') = []" by (simp add: filter_empty_conv)
  then have again: "purge_expired_files base older now fs' db' = Inr ([], fs', db')"
    by (simp add: purge_expired_files_def)
  show ?thesis
    by (intro exI[of _ ds] exI[of _ fs'] exI[of _ db'] conjI ballI) (rule run rows tasks taken others again | assumption)+
qed

section \<open>A concrete run\<close>

definition three_pages :: "string \<Rightarrow> pdf_opened" where
  "three_pages data = PdfPages 3"

definition essay_bytes :: string where
  "essay_bytes = ''%PDF-1.7 essay''"

definition uploaded_example :: "document \<times> files \<times> printing_db" where
  "uploaded_example =
     (case create_document three_pages [''srv''] 100 10 1 ''essay.pdf'' essay_bytes (days 3) (\<lambda>_. None) printing_blank of
        Inr r \<Rightarrow> r | Inl _ \<Rightarrow> undefined)"

lemma uploaded_example_run:
  "create_document three_pages [''srv''] 100 10 1 ''essay.pdf'' essay_bytes (days 3) (\<lambda>_. None) printing_blank = Inr uploaded_example"
proof -
  have "case create_document three_pages [''srv''] 100 10 1 ''essay.pdf'' essay_bytes (days 3) (\<lambda>_. None) printing_blank of
      Inr _ \<Rightarrow> True | Inl _ \<Rightarrow> False"
    by code_simp
  then show ?thesis unfolding uploaded_example_def by (auto split: sum.splits)
qed

lemma blank_library: "library_ok three_pages [''srv''] fs printing_blank" "unclaimed [''srv''] a u f now printing_blank"
  by (simp_all add: library_ok_def printing_blank_def unclaimed_def)

lemma uploaded_example_rows:
  obtains d fs db where "uploaded_example = (d, fs, db)" "documents db = [d]" "do_state d = READY" "do_created_at d = 0"
    "print_tasks db = []" "library_ok three_pages [''srv''] fs db"
    "(library_step three_pages [''srv''])\<^sup>*\<^sup>* (\<lambda>_. None, printing_blank) (fs, db)"
proof -
  obtain d fs db where u: "uploaded_example = (d, fs, db)" by (cases uploaded_example)
  note run = uploaded_example_run[unfolded u]
  have rows: "documents db = [d]" by (rule create_effect[OF run]) (simp add: printing_blank_def)
  have k: "do_state d = READY" "do_created_at d = 0" "print_tasks db = []"
    using run by (auto simp: create_document_def bind_res_Inr_iff save_file_def case_prod_beta Let_def mint_def printing_blank_def)
  have "library_step three_pages [''srv''] (\<lambda>_. None, printing_blank) (fs, db)"
    by (rule library_step.uploaded[OF blank_library(2) run])
  then show thesis using that[OF u rows k create_keeps[OF blank_library run]] by blast
qed

theorem what_is_printed_was_priced_witness:
  "\<exists>d fs db key p data. uploaded_example = (d, fs, db) \<and> printable_key d = Inr key \<and> path_of [''srv''] key = Inr p
     \<and> fs p = Some data \<and> do_page_count d = Some 3"
proof -
  obtain d fs db where e: "uploaded_example = (d, fs, db)" "documents db = [d]" "do_state d = READY"
    "(library_step three_pages [''srv''])\<^sup>*\<^sup>* (\<lambda>_. None, printing_blank) (fs, db)"
    by (rule uploaded_example_rows) (rule that; assumption)
  from what_is_printed_was_priced[OF e(4) blank_library(1), of d] e(2,3)
  obtain key p data n where k: "printable_key d = Inr key" "path_of [''srv''] key = Inr p" "fs p = Some data"
    "three_pages data = PdfPages n" "do_page_count d = Some (int n)" by auto
  then have "do_page_count d = Some 3" by (simp add: three_pages_def)
  with e(1) k(1-3) show ?thesis by blast
qed

theorem retention_is_exact_witness:
  "\<exists>d fs db ds fs' db'. uploaded_example = (d, fs, db)
     \<and> purge_expired_files [''srv''] (days 7) (days 8) fs db = Inr (ds, fs', db') \<and> documents db' = [purged d]
     \<and> (\<exists>ds fs' db'. purge_expired_files [''srv''] (days 7) (days 6) fs db = Inr (ds, fs', db') \<and> documents db' = [d])"
proof -
  obtain d fs db where e: "uploaded_example = (d, fs, db)" "documents db = [d]" "do_state d = READY" "do_created_at d = 0"
    "print_tasks db = []" "library_ok three_pages [''srv''] fs db"
    by (rule uploaded_example_rows) (rule that; assumption)
  have gone: "is_purgeable (days 8 - days 7) db d" "\<not> is_purgeable (days 6 - days 7) db d"
    using e(3-5) by (simp_all add: is_purgeable_def still_wanted_def days_def hours_def minutes_def seconds_def)
  from retention_is_exact[OF e(6), of "days 7" "days 8"] gone(1) e(2)
  have a: "\<exists>ds fs' db'. purge_expired_files [''srv''] (days 7) (days 8) fs db = Inr (ds, fs', db') \<and> documents db' = [purged d]"
    by auto
  from retention_is_exact[OF e(6), of "days 7" "days 6"] gone(2) e(2)
  have b: "\<exists>ds fs' db'. purge_expired_files [''srv''] (days 7) (days 6) fs db = Inr (ds, fs', db') \<and> documents db' = [d]"
    by auto
  from a b e(1) show ?thesis by blast
qed

end
