(* ===== verification/Jobs.thy ===== *)
theory Jobs
  imports Refunding Documents
begin

text \<open>
  The sweeps of \<^verbatim>\<open>jobs/tasks.py\<close>, and what the watchers leave on the console and in the post. \<open>send\<close> is
  the notifier the composition root chose.
\<close>

section \<open>Orders, tasks and files\<close>

definition expire_orders :: "datetime \<Rightarrow> 'a orders_db_scheme \<Rightarrow> string \<times> 'a orders_db_scheme" where
  "expire_orders now db =
     (let (expired, db1) = expire_stale_orders now db in
      (if expired = [] then [] else ''expired '' @ show_nat (length expired) @ '' unpaid orders'', db1))"

definition purge_files ::
  "place \<Rightarrow> int \<Rightarrow> datetime \<Rightarrow> files \<Rightarrow> 'a printing_db_scheme \<Rightarrow> (string \<times> files \<times> 'a printing_db_scheme) result" where
  "purge_files base retention_days now fs db =
     bind_res (purge_expired_files base (days retention_days) now fs db) (\<lambda>(gone, fs1, db1).
       Inr (if gone = [] then [] else ''purged the files of '' @ show_nat (length gone) @ '' documents'', fs1, db1))"

definition settle_lost_tasks :: "datetime \<Rightarrow> 'a orders_db_scheme \<Rightarrow> string \<times> 'a orders_db_scheme" where
  "settle_lost_tasks now db =
     (let (lost, db1) = fail_expired now db;
          db2 = fold (\<lambda>t db. snd (refresh_order_state (tk_document_id t) (tk_kiosk_id t) db)) lost db1 in
      (if lost = [] then []
       else show_nat (length lost) @ '' print tasks were failed after their kiosk stopped answering'', db2))"

section \<open>The watchers\<close>

definition LOW_PAPER_SHEETS :: int where
  "LOW_PAPER_SHEETS = 50"

definition OFFLINE_IS_SERIOUS_AFTER :: datetime where
  "OFFLINE_IS_SERIOUS_AFTER = hours 1"

definition selling_kiosks :: "'a kiosks_db_scheme \<Rightarrow> kiosk list" where
  "selling_kiosks db = filter (\<lambda>k. ki_stage k = LIVE) (list_kiosks system_scope False db)"

text \<open>\<^verbatim>\<open>list(dict.fromkeys(xs))\<close> keeps the first of every duplicate.\<close>

definition first_of_each :: "'b list \<Rightarrow> 'b list" where
  "first_of_each xs = rev (remdups (rev xs))"

definition people_to_tell :: "kiosk \<Rightarrow> 'a kiosks_db_scheme \<Rightarrow> string list" where
  "people_to_tell k db =
     (let people = (case owner_of k db of Some u \<Rightarrow> [u] | None \<Rightarrow> []) @ refillers_of k db @ holders_of ADMIN db in
      first_of_each (map us_email (filter (\<lambda>u. us_email u \<noteq> [] \<and> us_is_active u) people)))"

definition offline_severity :: "kiosk_device option \<Rightarrow> datetime \<Rightarrow> alert_severity" where
  "offline_severity device now =
     (case device of
        None \<Rightarrow> CRITICAL
      | Some d \<Rightarrow> (case kd_last_heartbeat_at d of
          None \<Rightarrow> CRITICAL
        | Some t \<Rightarrow> if OFFLINE_IS_SERIOUS_AFTER \<le> now - t then CRITICAL else WARNING))"

definition offline_detail :: "kiosk_device option \<Rightarrow> datetime \<Rightarrow> pyval" where
  "offline_detail device now =
     (case device of
        None \<Rightarrow> PDict [(''reason'', PStr ''no device is enrolled at this kiosk'')]
      | Some d \<Rightarrow> (case kd_last_heartbeat_at d of
          None \<Rightarrow> PDict [(''reason'', PStr ''this device has never reported'')]
        | Some t \<Rightarrow> PDict [(''last_seen_at'', PStr (iso_format t)), (''minutes_dark'', PInt ((now - t) div minutes 1)),
            (''window_minutes'', PInt (HEARTBEAT_WINDOW div minutes 1))]))"

definition tell_them_it_is_offline ::
  "'a kiosks_db_scheme notifier \<Rightarrow> kiosk \<Rightarrow> kiosk_device option \<Rightarrow> 'a kiosks_db_scheme \<Rightarrow> 'a kiosks_db_scheme" where
  "tell_them_it_is_offline send k device db =
     (let last_seen = (case device of None \<Rightarrow> None | Some d \<Rightarrow> map_option show_when (kd_last_heartbeat_at d)) in
      fold (\<lambda>address. send (KioskOffline address (ki_name k) last_seen)) (people_to_tell k db) db)"

definition offline_key :: "kiosk \<Rightarrow> string" where
  "offline_key k = ''kiosk.offline:'' @ ki_public_id k"

definition watch_one_offline ::
  "'a kiosks_db_scheme notifier \<Rightarrow> datetime \<Rightarrow> kiosk \<Rightarrow> nat \<times> 'a kiosks_db_scheme \<Rightarrow> nat \<times> 'a kiosks_db_scheme" where
  "watch_one_offline send now k = (\<lambda>(offline, db).
     (let device = device_of k db in
      if is_online device now then (offline, snd (resolve_by_key (offline_key k) now db))
      else
        let (alert, db1) = raise_alert ''kiosk.offline'' (offline_severity device now)
              (ki_name k @ '' is not reachable and cannot print.'') (offline_key k)
              (Some ''kiosk'') (Some (ki_public_id k)) (Some (offline_detail device now)) now db
        in (offline + 1, if al_occurrences alert = 1 then tell_them_it_is_offline send k device db1 else db1)))"

definition watch_offline_kiosks ::
  "'a kiosks_db_scheme notifier \<Rightarrow> datetime \<Rightarrow> 'a kiosks_db_scheme \<Rightarrow> string \<times> 'a kiosks_db_scheme" where
  "watch_offline_kiosks send now db =
     (let (offline, db1) = fold (watch_one_offline send now) (selling_kiosks db) (0, db) in
      (if offline = 0 then [] else show_nat offline @ '' kiosks are offline'', db1))"

definition tell_them_paper_is_low ::
  "'a kiosks_db_scheme notifier \<Rightarrow> kiosk \<Rightarrow> int \<Rightarrow> 'a kiosks_db_scheme \<Rightarrow> 'a kiosks_db_scheme" where
  "tell_them_paper_is_low send k sheets db =
     fold (\<lambda>address. send (PaperLow address (ki_name k) sheets)) (people_to_tell k db) db"

definition paper_key :: "kiosk \<Rightarrow> string" where
  "paper_key k = ''kiosk.paper:'' @ ki_public_id k"

definition watch_one_tray ::
  "'a kiosks_db_scheme notifier \<Rightarrow> datetime \<Rightarrow> kiosk \<Rightarrow> (nat \<times> nat) \<times> 'a kiosks_db_scheme \<Rightarrow> (nat \<times> nat) \<times> 'a kiosks_db_scheme" where
  "watch_one_tray send now k = (\<lambda>((empty, low), db).
     (let (sheets, db1) = sheets_remaining k db in
      if LOW_PAPER_SHEETS < sheets then ((empty, low), snd (resolve_by_key (paper_key k) now db1))
      else
        let (alert, db2) = raise_alert ''kiosk.paper.low'' (if sheets = 0 then CRITICAL else WARNING)
              (if sheets = 0 then ki_name k @ '' is out of paper.''
               else ki_name k @ '' has '' @ show_int sheets @ '' sheets left.'')
              (paper_key k) (Some ''kiosk'') (Some (ki_public_id k)) (Some (PDict [(''sheets_remaining'', PInt sheets)])) now db1
        in (if sheets = 0 then (empty + 1, low) else (empty, low + 1),
            if al_occurrences alert = 1 then tell_them_paper_is_low send k sheets db2 else db2)))"

definition watch_paper ::
  "'a kiosks_db_scheme notifier \<Rightarrow> datetime \<Rightarrow> 'a kiosks_db_scheme \<Rightarrow> string \<times> 'a kiosks_db_scheme" where
  "watch_paper send now db =
     (let ((empty, low), db1) = fold (watch_one_tray send now) (selling_kiosks db) ((0, 0), db) in
      (if empty = 0 \<and> low = 0 then []
       else show_nat empty @ '' kiosks out of paper, '' @ show_nat low @ '' running low'', db1))"

section \<open>What is reported, and to whom\<close>

definition raised :: "string \<Rightarrow> 'a ops_db_scheme \<Rightarrow> bool" where
  "raised key db \<longleftrightarrow> key \<in> set (open_keys (admin_alerts db))"

definition alerts_counted :: "'a ops_db_scheme \<Rightarrow> bool" where
  "alerts_counted db \<longleftrightarrow> alerts_ok db \<and> (\<forall>a \<in> set (admin_alerts db). 1 \<le> al_occurrences a)"

lemma raised_None: "first_where (open_for k) (admin_alerts db) = None \<longleftrightarrow> \<not> raised k db"
  unfolding raised_def open_for_iff_key[symmetric] by (simp add: first_where_None_iff)

lemma raise_alert_counted:
  assumes c: "alerts_counted db" and r: "raise_alert kind sev summary k et ei detail now db = (b, db')"
  shows "alerts_counted db' \<and> (\<forall>x. raised x db' \<longleftrightarrow> x = k \<or> raised x db) \<and> (al_occurrences b = 1 \<longleftrightarrow> \<not> raised k db)"
proof -
  have ok: "alerts_ok db" using c by (simp add: alerts_counted_def)
  have ok': "alerts_ok db'" using raise_alert_ok[OF ok, of kind sev summary k et ei detail now] r by simp
  show ?thesis
  proof (cases "first_where (open_for k) (admin_alerts db)")
    case None
    have a: "admin_alerts db' = admin_alerts db @ [b]" "al_dedupe_key b = k" "\<not> al_resolved b" "al_occurrences b = 1"
      using r by (auto simp: raise_alert_def None mint_def Let_def)
    show ?thesis using c ok' None[unfolded raised_None] a by (auto simp: alerts_counted_def raised_def)
  next
    case (Some a)
    then have m: "a \<in> set (admin_alerts db)" by (auto dest: first_where_SomeD)
    have b: "admin_alerts db' = put_row al_id b (admin_alerts db)" "al_id b = al_id a" "al_dedupe_key b = al_dedupe_key a"
      "al_resolved b = al_resolved a" "al_occurrences b = al_occurrences a + 1"
      using r by (auto simp: raise_alert_def Some Let_def)
    have "open_keys (admin_alerts db') = open_keys (admin_alerts db)"
      unfolding b(1) by (rule open_keys_put_same[OF _ m b(2-4)]) (use ok in \<open>simp add: alerts_ok_def\<close>)
    moreover have "raised k db" using Some raised_None[of k db] by auto
    ultimately show ?thesis using c ok' b m by (auto simp: alerts_counted_def raised_def set_put_row)
  qed
qed

lemma resolve_counted:
  assumes "alerts_counted db"
  shows "alerts_counted (snd (resolve_by_key k now db))" and "raised x (snd (resolve_by_key k now db)) \<longleftrightarrow> x \<noteq> k \<and> raised x db"
proof -
  have ok: "alerts_ok db" using assms by (simp add: alerts_counted_def)
  have ok': "alerts_ok (snd (resolve_by_key k now db))" using resolve_by_key_ok[OF ok] by blast
  have "alerts_counted (snd (resolve_by_key k now db)) \<and> (raised x (snd (resolve_by_key k now db)) \<longleftrightarrow> x \<noteq> k \<and> raised x db)"
  proof (cases "first_where (open_for k) (admin_alerts db)")
    case None
    with assms raised_None[of k db] show ?thesis by (auto simp: resolve_by_key_def)
  next
    case (Some a)
    then have a: "a \<in> set (admin_alerts db)" "\<not> al_resolved a" "al_dedupe_key a = k"
      by (auto dest!: first_where_SomeD simp: open_for_def)
    obtain b where b: "admin_alerts (snd (resolve_by_key k now db)) = put_row al_id b (admin_alerts db)" "al_id b = al_id a" "al_resolved b"
      "al_occurrences b = al_occurrences a" by (simp add: resolve_by_key_def Some Let_def)
    from open_keys_put_closed[of "admin_alerts db" a b] ok a b(2,3)
    have "set (open_keys (admin_alerts (snd (resolve_by_key k now db)))) = set (open_keys (admin_alerts db)) - {k}"
      unfolding b(1) by (simp add: alerts_ok_def)
    then show ?thesis using ok' assms a(1) b by (auto simp: alerts_counted_def raised_def set_put_row)
  qed
  then show "alerts_counted (snd (resolve_by_key k now db))" "raised x (snd (resolve_by_key k now db)) \<longleftrightarrow> x \<noteq> k \<and> raised x db" by blast+
qed

text \<open>What neither a report nor its end touches.\<close>

abbreviation shop_tables :: "'a kiosks_db_scheme \<Rightarrow> _" where
  "shop_tables db \<equiv> (kiosks db, kiosk_devices db, kiosk_papers db, users db, user_roles db, kiosk_assignments db)"

lemma alerting_shop_tables:
  fixes db :: "'a kiosks_db_scheme"
  shows "shop_tables (snd (raise_alert kind sev summary k et ei detail now db)) = shop_tables db"
    and "shop_tables (snd (resolve_by_key key now db)) = shop_tables db"
proof -
  show "shop_tables (snd (raise_alert kind sev summary k et ei detail now db)) = shop_tables db"
    by (rule raise_alert_shape[of kind sev summary k et ei detail now db]) simp
  show "shop_tables (snd (resolve_by_key key now db)) = shop_tables db"
    by (simp add: resolve_by_key_def Let_def split: option.split)
qed

text \<open>A messenger a sweep can use: it opens no alert but its own and changes nothing a sweep reads.\<close>

locale messenger =
  fixes send :: "'a kiosks_db_scheme notifier"
  assumes send_counted: "alerts_counted db \<Longrightarrow> alerts_counted (send m db)"
    and send_raised: "alerts_counted db \<Longrightarrow> x \<noteq> SEND_FAILED \<Longrightarrow> raised x (send m db) \<longleftrightarrow> raised x db"
    and send_shop_tables: "shop_tables (send m db) = shop_tables db"
begin

lemma send_all:
  assumes "alerts_counted db"
  shows "alerts_counted (fold (\<lambda>a. send (letter a)) as db)"
    and "x \<noteq> SEND_FAILED \<Longrightarrow> raised x (fold (\<lambda>a. send (letter a)) as db) \<longleftrightarrow> raised x db"
  using assms by (induction as arbitrary: db) (simp_all add: send_counted send_raised)

lemma send_all_tables: "shop_tables (fold (\<lambda>a. send (letter a)) as db) = shop_tables db"
proof (induction as arbitrary: db)
  case (Cons a as)
  then show ?case using send_shop_tables[of "letter a" db] by simp
qed simp

lemma told:
  assumes "alerts_counted db"
  shows "alerts_counted (tell_them_it_is_offline send k device db)" "alerts_counted (tell_them_paper_is_low send k n db)"
  unfolding tell_them_it_is_offline_def tell_them_paper_is_low_def Let_def by (rule send_all(1)[OF assms])+

lemma told_raised:
  assumes "alerts_counted db" and "x \<noteq> SEND_FAILED"
  shows "raised x (tell_them_it_is_offline send k device db) \<longleftrightarrow> raised x db"
    "raised x (tell_them_paper_is_low send k n db) \<longleftrightarrow> raised x db"
  unfolding tell_them_it_is_offline_def tell_them_paper_is_low_def Let_def by (rule send_all(2)[OF assms])+

end

text \<open>A watcher: one report per shop, opened while the shop is ill and closed when it is not.\<close>

locale watcher =
  fixes step :: "kiosk \<Rightarrow> 'c \<times> 'a kiosks_db_scheme \<Rightarrow> 'c \<times> 'a kiosks_db_scheme"
    and key :: "kiosk \<Rightarrow> string" and ill :: "kiosk \<Rightarrow> 'a kiosks_db_scheme \<Rightarrow> bool"
  assumes key_inj: "key j = key k \<longleftrightarrow> ki_public_id j = ki_public_id k"
    and key_own: "key k \<noteq> SEND_FAILED"
    and step_counted: "alerts_counted db \<Longrightarrow> alerts_counted (snd (step k (c, db)))"
    and step_raised: "alerts_counted db \<Longrightarrow> x \<noteq> SEND_FAILED \<Longrightarrow>
      raised x (snd (step k (c, db))) \<longleftrightarrow> (if x = key k then ill k db else raised x db)"
    and step_ill: "ill j (snd (step k (c, db))) \<longleftrightarrow> ill j db"
begin

lemma sweep:
  assumes "distinct (map ki_public_id ks)" and "alerts_counted db"
  shows "alerts_counted (snd (fold step ks (c, db)))
    \<and> (\<forall>x. x \<noteq> SEND_FAILED \<longrightarrow> (raised x (snd (fold step ks (c, db)))
         \<longleftrightarrow> (case find (\<lambda>k. key k = x) ks of Some k \<Rightarrow> ill k db | None \<Rightarrow> raised x db)))"
  using assms
proof (induction ks arbitrary: c db)
  case (Cons k ks)
  obtain c1 db1 where s: "step k (c, db) = (c1, db1)" by fastforce
  have ok: "alerts_counted db1" using step_counted[OF Cons.prems(2), of k c] s by simp
  have IH: "alerts_counted (snd (fold step ks (c1, db1)))"
    "\<And>x. x \<noteq> SEND_FAILED \<Longrightarrow> raised x (snd (fold step ks (c1, db1)))
         \<longleftrightarrow> (case find (\<lambda>k. key k = x) ks of Some k \<Rightarrow> ill k db1 | None \<Rightarrow> raised x db1)"
    using Cons.IH[of db1 c1] Cons.prems(1) ok by auto
  have one: "ill j db1 \<longleftrightarrow> ill j db" for j using step_ill[of j k c db] s by simp
  have r: "x \<noteq> SEND_FAILED \<Longrightarrow> raised x db1 \<longleftrightarrow> (if x = key k then ill k db else raised x db)" for x
    using step_raised[OF Cons.prems(2), of x k c] s by simp
  have apart: "find (\<lambda>j. key j = key k) ks = None"
    using Cons.prems(1) by (auto simp: find_None_iff key_inj image_iff)
  have "raised x (snd (fold step ks (c1, db1)))
      \<longleftrightarrow> (case find (\<lambda>k. key k = x) (k # ks) of Some k \<Rightarrow> ill k db | None \<Rightarrow> raised x db)" if "x \<noteq> SEND_FAILED" for x
    using IH(2)[OF that] r[OF that] one apart by (cases "x = key k") (auto split: option.split)
  then show ?case using IH(1) s by simp
qed simp

end

lemma device_of_tables: "shop_tables db' = shop_tables db \<Longrightarrow> device_of k db' = device_of k db"
  by (simp add: device_of_def)

lemma selling_tables: "shop_tables db' = shop_tables db \<Longrightarrow> selling_kiosks db' = selling_kiosks db"
  by (simp add: selling_kiosks_def list_kiosks_def)

lemma people_tables: "shop_tables db' = shop_tables db \<Longrightarrow> people_to_tell k db' = people_to_tell k db"
  by (simp add: people_to_tell_def owner_of_def refillers_of_def holders_of_def roles_of_def staffed_def)

lemma keys_inject [simp]:
  "offline_key j = offline_key k \<longleftrightarrow> ki_public_id j = ki_public_id k" "offline_key k \<noteq> SEND_FAILED"
  "paper_key j = paper_key k \<longleftrightarrow> ki_public_id j = ki_public_id k" "paper_key k \<noteq> SEND_FAILED"
proof -
  have heads: "hd (offline_key k) = CHR ''k''" "hd (paper_key k) = CHR ''k''" "hd SEND_FAILED = CHR ''e''"
    unfolding offline_key_def paper_key_def SEND_FAILED_def append_Cons list.sel by (rule refl)+
  then show "offline_key k \<noteq> SEND_FAILED" "paper_key k \<noteq> SEND_FAILED" by auto
  show "offline_key j = offline_key k \<longleftrightarrow> ki_public_id j = ki_public_id k"
    "paper_key j = paper_key k \<longleftrightarrow> ki_public_id j = ki_public_id k"
    unfolding offline_key_def paper_key_def by (rule same_append_eq)+
qed

abbreviation is_dark :: "datetime \<Rightarrow> kiosk \<Rightarrow> 'a kiosks_db_scheme \<Rightarrow> bool" where
  "is_dark now k db \<equiv> \<not> is_online (device_of k db) now"

abbreviation is_low :: "kiosk \<Rightarrow> 'a kiosks_db_scheme \<Rightarrow> bool" where
  "is_low k db \<equiv> remaining k db \<le> LOW_PAPER_SHEETS"

text \<open>One shop's turn, under any messenger.\<close>

lemma offline_turn:
  obtains (well) "is_online (device_of k db) now" "watch_one_offline send now k (c, db) = (c, snd (resolve_by_key (offline_key k) now db))"
  | (dark) b db1 sev summary detail where "\<not> is_online (device_of k db) now"
      "raise_alert ''kiosk.offline'' sev summary (offline_key k) (Some ''kiosk'') (Some (ki_public_id k)) detail now db = (b, db1)"
      "watch_one_offline send now k (c, db)
         = (c + 1, if al_occurrences b = 1 then tell_them_it_is_offline send k (device_of k db) db1 else db1)"
proof (cases "is_online (device_of k db) now")
  case True
  then show thesis by (intro well) (simp_all add: watch_one_offline_def)
next
  case False
  obtain b db1 where "raise_alert ''kiosk.offline'' (offline_severity (device_of k db) now)
      (ki_name k @ '' is not reachable and cannot print.'') (offline_key k)
      (Some ''kiosk'') (Some (ki_public_id k)) (Some (offline_detail (device_of k db) now)) now db = (b, db1)" by fastforce
  with False show thesis by (intro dark) (simp_all add: watch_one_offline_def)
qed

lemma sheets_remaining_db:
  obtains db1 where "sheets_remaining k db = (remaining k db, db1)" "admin_alerts db1 = admin_alerts db"
    "\<And>j. remaining j db1 = remaining j db"
    "(kiosks db1, kiosk_devices db1, users db1, user_roles db1, kiosk_assignments db1)
       = (kiosks db, kiosk_devices db, users db, user_roles db, kiosk_assignments db)"
proof -
  obtain paper db1 where p: "paper_row k db = (paper, db1)" by fastforce
  have "remaining j db1 = remaining j db" for j using tray_paper_row[OF p] by (simp add: remaining_def)
  moreover have "sheets_remaining k db = (remaining k db, db1)" by (simp add: sheets_remaining_def p remaining_def tray_def)
  moreover have "admin_alerts db1 = admin_alerts db" "(kiosks db1, kiosk_devices db1, users db1, user_roles db1, kiosk_assignments db1)
       = (kiosks db, kiosk_devices db, users db, user_roles db, kiosk_assignments db)"
    using p by (auto simp: paper_row_def Let_def split: option.splits)
  ultimately show thesis using that by blast
qed

lemma tray_turn:
  obtains (well) db1 where "\<not> is_low k db" "sheets_remaining k db = (remaining k db, db1)"
      "snd (watch_one_tray send now k (c, db)) = snd (resolve_by_key (paper_key k) now db1)"
  | (low) b db1 db2 sev summary detail where "is_low k db" "sheets_remaining k db = (remaining k db, db1)"
      "raise_alert ''kiosk.paper.low'' sev summary (paper_key k) (Some ''kiosk'') (Some (ki_public_id k)) detail now db1 = (b, db2)"
      "snd (watch_one_tray send now k (c, db))
         = (if al_occurrences b = 1 then tell_them_paper_is_low send k (remaining k db) db2 else db2)"
proof -
  obtain db1 where s: "sheets_remaining k db = (remaining k db, db1)" by (rule sheets_remaining_db)
  obtain e l where c: "c = (e, l)" by fastforce
  show thesis
  proof (cases "is_low k db")
    case False
    then show thesis by (intro well[OF False s]) (simp add: watch_one_tray_def s c)
  next
    case True
    obtain b db2 where "raise_alert ''kiosk.paper.low'' (if remaining k db = 0 then CRITICAL else WARNING)
        (if remaining k db = 0 then ki_name k @ '' is out of paper.''
         else ki_name k @ '' has '' @ show_int (remaining k db) @ '' sheets left.'')
        (paper_key k) (Some ''kiosk'') (Some (ki_public_id k))
        (Some (PDict [(''sheets_remaining'', PInt (remaining k db))])) now db1 = (b, db2)" by fastforce
    with True show thesis by (intro low[OF True s]) (assumption, simp add: watch_one_tray_def s c)
  qed
qed

lemma tables_after_report:
  fixes db :: "'a kiosks_db_scheme"
  assumes "raise_alert kind sev summary k et ei detail now db = (b, db')"
  shows "shop_tables db' = shop_tables db"
  using alerting_shop_tables(1)[of kind sev summary k et ei detail now db] assms by simp

lemma is_low_tables: "kiosk_papers db' = kiosk_papers db \<Longrightarrow> remaining k db' = remaining k db"
  by (simp add: remaining_def tray_def paper_row_def Let_def split: option.split)

context messenger
begin

lemma offline_tables: "shop_tables (snd (watch_one_offline send now k (c, db))) = shop_tables db"
proof (cases rule: offline_turn[where k = k and db = db and now = now and send = send and c = c])
  case well
  then show ?thesis using alerting_shop_tables(2) by simp
next
  case (dark b db1 sev summary detail)
  have "shop_tables (tell_them_it_is_offline send k (device_of k db) db1) = shop_tables db1"
    unfolding tell_them_it_is_offline_def Let_def by (rule send_all_tables)
  then show ?thesis using dark(3) tables_after_report[OF dark(2)] by simp
qed

end

context messenger
begin

lemma offline_sweep_tables: "shop_tables (snd (fold (watch_one_offline send now) ks (c, db))) = shop_tables db"
proof (induction ks arbitrary: c db)
  case (Cons k ks)
  obtain c1 db1 where "watch_one_offline send now k (c, db) = (c1, db1)" by fastforce
  then show ?case using Cons[of c1 db1] offline_tables[of now k c db] by simp
qed simp

end

sublocale messenger \<subseteq> offline: watcher "watch_one_offline send now" offline_key "is_dark now" for now
proof unfold_locales
  fix db :: "'a kiosks_db_scheme" and k c assume ok: "alerts_counted db"
  show "alerts_counted (snd (watch_one_offline send now k (c, db)))"
  proof (cases rule: offline_turn[where k = k and db = db and now = now and send = send and c = c])
    case well
    then show ?thesis using resolve_counted(1)[OF ok] by simp
  next
    case (dark b db1 sev summary detail)
    have "alerts_counted db1" using raise_alert_counted[OF ok dark(2)] by blast
    then show ?thesis using told(1) dark(3) by simp
  qed
next
  fix db :: "'a kiosks_db_scheme" and k c x assume ok: "alerts_counted db" and x: "x \<noteq> SEND_FAILED"
  show "raised x (snd (watch_one_offline send now k (c, db))) \<longleftrightarrow> (if x = offline_key k then is_dark now k db else raised x db)"
  proof (cases rule: offline_turn[where k = k and db = db and now = now and send = send and c = c])
    case well
    then show ?thesis using resolve_counted(2)[OF ok] by simp
  next
    case (dark b db1 sev summary detail)
    note r = raise_alert_counted[OF ok dark(2)]
    then have "alerts_counted db1" by blast
    from told_raised(1)[OF this x] r dark show ?thesis by auto
  qed
next
  fix db :: "'a kiosks_db_scheme" and j k c
  have "shop_tables (snd (watch_one_offline send now k (c, db))) = shop_tables db" by (rule offline_tables)
  from device_of_tables[OF this] show "is_dark now j (snd (watch_one_offline send now k (c, db))) \<longleftrightarrow> is_dark now j db" by simp
qed simp_all

sublocale messenger \<subseteq> trays: watcher "watch_one_tray send now" paper_key is_low for now
proof unfold_locales
  fix db :: "'a kiosks_db_scheme" and k c assume ok: "alerts_counted db"
  obtain db0 where s: "sheets_remaining k db = (remaining k db, db0)" "admin_alerts db0 = admin_alerts db"
    by (rule sheets_remaining_db)
  have ok0: "alerts_counted db0" using ok s(2) by (simp add: alerts_counted_def alerts_ok_def)
  show "alerts_counted (snd (watch_one_tray send now k (c, db)))"
  proof (cases rule: tray_turn[where k = k and db = db and now = now and send = send and c = c])
    case (well db1)
    then show ?thesis using resolve_counted(1)[OF ok0] s(1) by simp
  next
    case (low b db1 db2 sev summary detail)
    then have "db1 = db0" using s(1) by simp
    then have "alerts_counted db2" using raise_alert_counted[OF ok0] low(3) by blast
    then show ?thesis using told(2) low(4) by simp
  qed
next
  fix db :: "'a kiosks_db_scheme" and k c x assume ok: "alerts_counted db" and x: "x \<noteq> SEND_FAILED"
  obtain db0 where s: "sheets_remaining k db = (remaining k db, db0)" "admin_alerts db0 = admin_alerts db"
    by (rule sheets_remaining_db)
  have ok0: "alerts_counted db0" and r0: "raised y db0 = raised y db" for y
    using ok s(2) by (simp_all add: alerts_counted_def alerts_ok_def raised_def)
  show "raised x (snd (watch_one_tray send now k (c, db))) \<longleftrightarrow> (if x = paper_key k then is_low k db else raised x db)"
  proof (cases rule: tray_turn[where k = k and db = db and now = now and send = send and c = c])
    case (well db1)
    then show ?thesis using resolve_counted(2)[OF ok0] s(1) r0 by simp
  next
    case (low b db1 db2 sev summary detail)
    then have "db1 = db0" using s(1) by simp
    with raise_alert_counted[OF ok0] low(3)
    have r: "alerts_counted db2" "\<forall>y. raised y db2 \<longleftrightarrow> y = paper_key k \<or> raised y db0" by blast+
    from told_raised(2)[OF r(1) x] r(2) low(1,4) r0 show ?thesis by auto
  qed
next
  fix db :: "'a kiosks_db_scheme" and j k c
  have "remaining j (snd (watch_one_tray send now k (c, db))) = remaining j db"
  proof (cases rule: tray_turn[where k = k and db = db and now = now and send = send and c = c])
    case (well db1)
    have "remaining j db1 = remaining j db" using well(2) by (metis sheets_remaining_db prod.inject)
    moreover have "kiosk_papers (snd (resolve_by_key (paper_key k) now db1)) = kiosk_papers db1"
      using alerting_shop_tables(2)[of "paper_key k" now db1] by simp
    ultimately show ?thesis using well(3) is_low_tables by metis
  next
    case (low b db1 db2 sev summary detail)
    have "remaining j db1 = remaining j db" using low(2) by (metis sheets_remaining_db prod.inject)
    moreover have "kiosk_papers db2 = kiosk_papers db1" using tables_after_report[OF low(3)] by simp
    moreover have "kiosk_papers (tell_them_paper_is_low send k (remaining k db) db2) = kiosk_papers db2"
      using send_all_tables[of "\<lambda>a. PaperLow a (ki_name k) (remaining k db)"] by (simp add: tell_them_paper_is_low_def)
    ultimately show ?thesis using low(4) is_low_tables by metis
  qed
  then show "is_low j (snd (watch_one_tray send now k (c, db))) \<longleftrightarrow> is_low j db" by simp
qed simp_all

text \<open>The notifier of production is such a messenger.\<close>

interpretation by_mail: messenger "notifier_for key url post now" for key url post now
proof unfold_locales
  fix db :: "'a kiosks_db_scheme" and m x
  have sent: "notifier_for key url post now m db = db \<or> (\<exists>kind email. notifier_for key url post now m db = report_unsent now kind email db)"
    by (auto simp: notifier_for_def brevo_send_def Let_def split: option.split)
  have one: "alerts_counted (report_unsent now kind email db) \<and> (x \<noteq> SEND_FAILED \<longrightarrow> (raised x (report_unsent now kind email db) \<longleftrightarrow> raised x db))"
    if "alerts_counted db" for kind email
    unfolding report_unsent_def by (metis raise_alert_counted[OF that] prod.collapse)
  show "alerts_counted db \<Longrightarrow> alerts_counted (notifier_for key url post now m db)" using sent one by metis
  show "alerts_counted db \<Longrightarrow> x \<noteq> SEND_FAILED \<Longrightarrow> raised x (notifier_for key url post now m db) \<longleftrightarrow> raised x db" using sent one by metis
  show "shop_tables (notifier_for key url post now m db) = shop_tables db"
    by (rule notifier_shape[of key url post now m db]) simp
qed

lemma selling_iff: "k \<in> set (selling_kiosks db) \<longleftrightarrow> k \<in> set (kiosks db) \<and> ki_stage k = LIVE \<and> ki_is_active k"
  by (auto simp: selling_kiosks_def list_kiosks_def system_scope_def)

lemma selling_distinct:
  assumes "distinct (map ki_public_id (kiosks db))"
  shows "distinct (map ki_public_id (selling_kiosks db))"
proof -
  have "distinct (map f (sort_key g xs))" if "distinct (map f xs)" for f :: "kiosk \<Rightarrow> string" and g :: "kiosk \<Rightarrow> string" and xs
    using that by (simp add: distinct_map)
  then show ?thesis unfolding selling_kiosks_def list_kiosks_def using distinct_map_filter[OF assms] distinct_map_filter by blast
qed

lemma found_by_key:
  assumes "\<And>i j. key i = key j \<longleftrightarrow> ki_public_id i = ki_public_id j" and "distinct (map ki_public_id (kiosks db))" and "k \<in> set (kiosks db)"
  shows "find (\<lambda>j. key j = key k) (selling_kiosks db) = (if ki_stage k = LIVE \<and> ki_is_active k then Some k else None)"
proof (cases "find (\<lambda>j. key j = key k) (selling_kiosks db)")
  case None
  then show ?thesis using assms(3) selling_iff[of k db] by (auto simp: find_None_iff)
next
  case (Some j)
  then have "j \<in> set (selling_kiosks db)" "ki_public_id j = ki_public_id k" by (auto simp: find_Some_iff assms(1))
  then have "j = k" using distinct_key_eq[OF assms(2), of k j] assms(3) selling_iff[of j db] by auto
  then show ?thesis using Some \<open>j \<in> _\<close> selling_iff[of k db] by auto
qed

text \<open>
  C28. After a sweep the console says how the selling shops are: a shop that takes orders has an
  open report exactly when its machine is not answering, and one exactly when its tray is low, however
  the sweep before it left things and whether or not a message could be sent. A shop that is not
  selling keeps the report it had: nothing stands it down.
\<close>

theorem open_reports_are_current:
  assumes "alerts_counted db" and "distinct (map ki_public_id (kiosks db))" and "k \<in> set (kiosks db)"
  shows "(raised (offline_key k) (snd (watch_offline_kiosks (notifier_for key url post now) now db))
        \<longleftrightarrow> (if ki_stage k = LIVE \<and> ki_is_active k then is_dark now k db else raised (offline_key k) db))
    \<and> (raised (paper_key k) (snd (watch_paper (notifier_for key url post now) now db))
        \<longleftrightarrow> (if ki_stage k = LIVE \<and> ki_is_active k then is_low k db else raised (paper_key k) db))"
proof
  note d = selling_distinct[OF assms(2)]
  have o: "snd (watch_offline_kiosks (notifier_for key url post now) now db) = snd (fold (watch_one_offline (notifier_for key url post now) now) (selling_kiosks db) (0, db))"
    by (simp add: watch_offline_kiosks_def case_prod_beta Let_def)
  show "raised (offline_key k) (snd (watch_offline_kiosks (notifier_for key url post now) now db))
        \<longleftrightarrow> (if ki_stage k = LIVE \<and> ki_is_active k then is_dark now k db else raised (offline_key k) db)"
    using by_mail.offline.sweep[OF d assms(1), of key url post now now 0] found_by_key[OF keys_inject(1) assms(2,3)]
    unfolding o by auto
  have p: "snd (watch_paper (notifier_for key url post now) now db) = snd (fold (watch_one_tray (notifier_for key url post now) now) (selling_kiosks db) ((0, 0), db))"
    by (simp add: watch_paper_def case_prod_beta Let_def)
  show "raised (paper_key k) (snd (watch_paper (notifier_for key url post now) now db))
        \<longleftrightarrow> (if ki_stage k = LIVE \<and> ki_is_active k then is_low k db else raised (paper_key k) db)"
    using by_mail.trays.sweep[OF d assms(1), of key url post now now "(0, 0)"] found_by_key[OF keys_inject(3) assms(2,3)]
    unfolding p by auto
qed

theorem open_reports_are_current_witness:
  "raised (offline_key kiosk_example) (snd (watch_offline_kiosks (notifier_for ''key'' ''https://x.test'' (\<lambda>_. None) 9) 9 kiosks_example))
   \<and> \<not> raised (paper_key kiosk_example) (snd (watch_paper (notifier_for ''key'' ''https://x.test'' (\<lambda>_. None) 9) 9 kiosks_example))"
proof -
  have c: "alerts_counted kiosks_example" "distinct (map ki_public_id (kiosks kiosks_example))" "kiosk_example \<in> set (kiosks kiosks_example)"
    by (simp_all add: alerts_counted_def alerts_ok_def kiosks_example_def)
  have "is_dark 9 kiosk_example kiosks_example" "ki_stage kiosk_example = LIVE" "ki_is_active kiosk_example"
    by (simp_all add: device_of_def kiosks_example_def is_online_def kiosk_example_def)
  with open_reports_are_current[OF c, of "''key''" "''https://x.test''" "\<lambda>_. None" 9] kiosks_example_papers(2)
  show ?thesis by (simp add: LOW_PAPER_SHEETS_def)
qed

text \<open>A shop taken out of service while it was dark: the report outlives every sweep.\<close>

definition closed_example :: kiosks_db where
  "closed_example = (snd (raise_alert ''kiosk.offline'' WARNING [] (offline_key kiosk_example) None None None 1 kiosks_example))
     \<lparr>kiosks := [kiosk_example\<lparr>ki_stage := MAINTENANCE\<rparr>]\<rparr>"

lemma report_outlives_its_shop:
  "raised (offline_key kiosk_example) closed_example
   \<and> raised (offline_key kiosk_example) (snd (watch_offline_kiosks send now closed_example))"
proof -
  have "raised (offline_key kiosk_example) closed_example"
    by (simp add: closed_example_def raise_alert_def kiosks_example_def mint_def raised_def Let_def)
  moreover have "selling_kiosks closed_example = []"
    by (simp add: selling_kiosks_def list_kiosks_def closed_example_def system_scope_def kiosk_example_def)
  ultimately show ?thesis by (simp add: watch_offline_kiosks_def)
qed

section \<open>One message per outage\<close>

text \<open>The notifier that writes down what would have been sent, as \<^verbatim>\<open>LoggingNotifier\<close> does.\<close>

record logged_db = orders_db +
  outbox :: "mail list"

definition log_it :: "'a logged_db_scheme notifier" where
  "log_it m db = db\<lparr>outbox := outbox db @ [m]\<rparr>"

interpretation by_log: messenger "log_it :: 'a logged_db_scheme notifier"
  by unfold_locales (simp_all add: log_it_def alerts_counted_def alerts_ok_def raised_def)

text \<open>A watcher that writes to people when it opens a report, and only then.\<close>

locale mailing_watcher = watcher step key ill
  for step :: "kiosk \<Rightarrow> 'c \<times> 'a kiosks_db_scheme \<Rightarrow> 'c \<times> 'a kiosks_db_scheme"
    and key :: "kiosk \<Rightarrow> string" and ill :: "kiosk \<Rightarrow> 'a kiosks_db_scheme \<Rightarrow> bool" +
  fixes letters :: "'a kiosks_db_scheme \<Rightarrow> mail list" and news :: "kiosk \<Rightarrow> 'a kiosks_db_scheme \<Rightarrow> mail list"
  assumes step_letters: "alerts_counted db \<Longrightarrow>
      letters (snd (step k (c, db))) = letters db @ (if ill k db \<and> \<not> raised (key k) db then news k db else [])"
    and step_news: "news j (snd (step k (c, db))) = news j db"
begin

lemma sweep_letters:
  assumes "distinct (map ki_public_id ks)" and "alerts_counted db"
  shows "letters (snd (fold step ks (c, db)))
    = letters db @ concat (map (\<lambda>k. if ill k db \<and> \<not> raised (key k) db then news k db else []) ks)"
  using assms
proof (induction ks arbitrary: c db)
  case (Cons k ks)
  obtain c1 db1 where s: "step k (c, db) = (c1, db1)" by fastforce
  have ok: "alerts_counted db1" using step_counted[OF Cons.prems(2), of k c] s by simp
  have same: "(if ill j db1 \<and> \<not> raised (key j) db1 then news j db1 else [])
      = (if ill j db \<and> \<not> raised (key j) db then news j db else [])" if "j \<in> set ks" for j
  proof -
    have "key j \<noteq> key k" using Cons.prems(1) that by (auto simp: key_inj image_iff)
    then have "raised (key j) db1 \<longleftrightarrow> raised (key j) db"
      using step_raised[OF Cons.prems(2) key_own, of j k c] s by simp
    then show ?thesis using step_ill[of j k c db] step_news[of j k c db] s by simp
  qed
  have tail: "concat (map (\<lambda>k. if ill k db1 \<and> \<not> raised (key k) db1 then news k db1 else []) ks)
      = concat (map (\<lambda>k. if ill k db \<and> \<not> raised (key k) db then news k db else []) ks)"
    by (rule arg_cong[where f = concat], rule map_cong[OF refl same])
  have "letters db1 = letters db @ (if ill k db \<and> \<not> raised (key k) db then news k db else [])"
    using step_letters[OF Cons.prems(2), of k c] s by simp
  then show ?case using Cons.IH[of db1 c1] Cons.prems(1) ok tail s by simp
qed simp

end

definition offline_news :: "kiosk \<Rightarrow> 'a kiosks_db_scheme \<Rightarrow> mail list" where
  "offline_news k db = map (\<lambda>a. KioskOffline a (ki_name k)
     (case device_of k db of None \<Rightarrow> None | Some d \<Rightarrow> map_option show_when (kd_last_heartbeat_at d))) (people_to_tell k db)"

definition paper_news :: "kiosk \<Rightarrow> 'a kiosks_db_scheme \<Rightarrow> mail list" where
  "paper_news k db = map (\<lambda>a. PaperLow a (ki_name k) (remaining k db)) (people_to_tell k db)"

lemma fold_log_it: "outbox (fold (\<lambda>a. log_it (letter a)) as db) = outbox db @ map letter as"
  by (induction as arbitrary: db) (simp_all add: log_it_def)

lemma log_it_frame:
  "shop_tables (fold (\<lambda>a. log_it (letter a)) as db) = shop_tables db"
  "outbox (snd (resolve_by_key k now db)) = outbox db"
  "outbox (snd (raise_alert kind sev summary k et ei detail now db)) = outbox db"
  "outbox (snd (sheets_remaining kk db)) = outbox db"
proof -
  show "shop_tables (fold (\<lambda>a. log_it (letter a)) as db) = shop_tables db" by (rule by_log.send_all_tables)
  show "outbox (snd (resolve_by_key k now db)) = outbox db" by (simp add: resolve_by_key_def Let_def split: option.split)
  show "outbox (snd (raise_alert kind sev summary k et ei detail now db)) = outbox db"
    by (rule raise_alert_shape[of kind sev summary k et ei detail now db]) simp
  show "outbox (snd (sheets_remaining kk db)) = outbox db"
    by (simp add: sheets_remaining_def paper_row_def Let_def split: option.split)
qed

interpretation offline_log: mailing_watcher "watch_one_offline (log_it :: 'a logged_db_scheme notifier) now" offline_key "is_dark now" outbox offline_news
  for now
proof unfold_locales
  fix db :: "'a logged_db_scheme" and k c assume ok: "alerts_counted db"
  show "outbox (snd (watch_one_offline log_it now k (c, db)))
    = outbox db @ (if is_dark now k db \<and> \<not> raised (offline_key k) db then offline_news k db else [])"
  proof (cases rule: offline_turn[where k = k and db = db and now = now and send = log_it and c = c])
    case well
    then show ?thesis by (simp add: log_it_frame)
  next
    case (dark b db1 sev summary detail)
    have new: "al_occurrences b = 1 \<longleftrightarrow> \<not> raised (offline_key k) db" using raise_alert_counted[OF ok dark(2)] by blast
    have "outbox db1 = outbox db"
      using log_it_frame(3)[of "''kiosk.offline''" sev summary "offline_key k" _ _ detail now db] dark(2) by (metis snd_conv)
    moreover have "outbox (tell_them_it_is_offline log_it k (device_of k db) db1) = outbox db1 @ offline_news k db"
      unfolding tell_them_it_is_offline_def Let_def fold_log_it offline_news_def people_tables[OF tables_after_report[OF dark(2)]]
      by (rule refl)
    ultimately show ?thesis using new dark(1,3) by simp
  qed
next
  fix db :: "'a logged_db_scheme" and j k c
  have "shop_tables (snd (watch_one_offline log_it now k (c, db))) = shop_tables db"
    by (rule by_log.offline_tables)
  from device_of_tables[OF this, of j] people_tables[OF this, of j]
  show "offline_news j (snd (watch_one_offline log_it now k (c, db))) = offline_news j db" by (simp add: offline_news_def)
qed

interpretation paper_log: mailing_watcher "watch_one_tray (log_it :: 'a logged_db_scheme notifier) now" paper_key is_low outbox paper_news
  for now
proof unfold_locales
  fix db :: "'a logged_db_scheme" and k c assume ok: "alerts_counted db"
  obtain db0 where s: "sheets_remaining k db = (remaining k db, db0)" "admin_alerts db0 = admin_alerts db"
    "(kiosks db0, kiosk_devices db0, users db0, user_roles db0, kiosk_assignments db0)
       = (kiosks db, kiosk_devices db, users db, user_roles db, kiosk_assignments db)"
    by (rule sheets_remaining_db)
  have box: "outbox db0 = outbox db" using log_it_frame(4)[of k db] s(1) by simp
  have ok0: "alerts_counted db0" and r0: "raised (paper_key k) db0 = raised (paper_key k) db"
    using ok s(2) by (simp_all add: alerts_counted_def alerts_ok_def raised_def)
  show "outbox (snd (watch_one_tray log_it now k (c, db)))
    = outbox db @ (if is_low k db \<and> \<not> raised (paper_key k) db then paper_news k db else [])"
  proof (cases rule: tray_turn[where k = k and db = db and now = now and send = log_it and c = c])
    case (well db1)
    then have "db1 = db0" using s(1) by simp
    with well box show ?thesis by (simp add: log_it_frame)
  next
    case (low b db1 db2 sev summary detail)
    then have db1: "db1 = db0" using s(1) by simp
    have new: "al_occurrences b = 1 \<longleftrightarrow> \<not> raised (paper_key k) db"
      using raise_alert_counted[OF ok0 low(3)[unfolded db1]] r0 by blast
    have "outbox db2 = outbox db"
      using log_it_frame(3)[of "''kiosk.paper.low''" sev summary "paper_key k" _ _ detail now db1] low(3) db1 box by (metis snd_conv)
    moreover have "people_to_tell k db2 = people_to_tell k db"
      using tables_after_report[OF low(3)] s(3) db1
      by (simp add: people_to_tell_def owner_of_def refillers_of_def holders_of_def roles_of_def staffed_def)
    then have "outbox (tell_them_paper_is_low log_it k (remaining k db) db2) = outbox db2 @ paper_news k db"
      unfolding tell_them_paper_is_low_def fold_log_it paper_news_def by simp
    ultimately show ?thesis using new low(1,4) by simp
  qed
next
  fix db :: "'a logged_db_scheme" and j k c
  obtain db0 where s: "sheets_remaining k db = (remaining k db, db0)" "admin_alerts db0 = admin_alerts db"
    "\<And>j. remaining j db0 = remaining j db"
    "(kiosks db0, kiosk_devices db0, users db0, user_roles db0, kiosk_assignments db0)
       = (kiosks db, kiosk_devices db, users db, user_roles db, kiosk_assignments db)"
    by (rule sheets_remaining_db[of k db]) (rule that; assumption)
  have "shop_tables (snd (watch_one_tray log_it now k (c, db))) = shop_tables db0"
  proof (cases rule: tray_turn[where k = k and db = db and now = now and send = log_it and c = c])
    case (well db1)
    then show ?thesis using s(1) alerting_shop_tables(2)[of "paper_key k" now db1] by simp
  next
    case (low b db1 db2 sev summary detail)
    have "shop_tables (tell_them_paper_is_low log_it k (remaining k db) db2) = shop_tables db2"
      unfolding tell_them_paper_is_low_def by (rule log_it_frame(1))
    then show ?thesis using low s(1) tables_after_report[OF low(3)] by simp
  qed
  then have t: "shop_tables (snd (watch_one_tray log_it now k (c, db))) = shop_tables db0" .
  then have "remaining j (snd (watch_one_tray log_it now k (c, db))) = remaining j db"
    using is_low_tables[of "snd (watch_one_tray log_it now k (c, db))" db0 j] s(3) by simp
  moreover have "people_to_tell j (snd (watch_one_tray log_it now k (c, db))) = people_to_tell j db"
    using t s(4) by (simp add: people_to_tell_def owner_of_def refillers_of_def holders_of_def roles_of_def staffed_def)
  ultimately show "paper_news j (snd (watch_one_tray log_it now k (c, db))) = paper_news j db"
    by (simp add: paper_news_def)
qed

text \<open>
  (Property). A shop going dark is one message to each of its people: the sweep writes, for exactly the
  selling shops that are not answering and had no open report, to its owner, its refillers and the
  administrators, each once and none of them deactivated; as long as no other shop goes dark, no
  later sweep writes again.
\<close>

theorem one_message_per_outage:
  fixes db :: "'a logged_db_scheme"
  assumes "alerts_counted db" and "distinct (map ki_public_id (kiosks db))"
    and "\<forall>k \<in> set (selling_kiosks db). is_dark later k db \<longrightarrow> is_dark now k db"
  shows "outbox (snd (watch_offline_kiosks log_it now db)) = outbox db @ concat (map (\<lambda>k. offline_news k db)
        (filter (\<lambda>k. is_dark now k db \<and> \<not> raised (offline_key k) db) (selling_kiosks db)))
    \<and> outbox (snd (watch_offline_kiosks log_it later (snd (watch_offline_kiosks log_it now db))))
        = outbox (snd (watch_offline_kiosks log_it now db))
    \<and> distinct (people_to_tell k db) \<and> [] \<notin> set (people_to_tell k db)"
proof -
  have run: "snd (watch_offline_kiosks log_it t s) = snd (fold (watch_one_offline log_it t) (selling_kiosks s) (0, s))"
    for t and s :: "'a logged_db_scheme" by (simp add: watch_offline_kiosks_def case_prod_beta Let_def)
  have chosen: "concat (map (\<lambda>k. if p k then f k else []) ks) = concat (map f (filter p ks))" for p and f :: "kiosk \<Rightarrow> mail list" and ks
    by (induction ks) auto
  let ?one = "snd (watch_offline_kiosks log_it now db)"
  note d = selling_distinct[OF assms(2)]
  have first: "outbox ?one = outbox db @ concat (map (\<lambda>k. offline_news k db)
      (filter (\<lambda>k. is_dark now k db \<and> \<not> raised (offline_key k) db) (selling_kiosks db)))"
    unfolding run offline_log.sweep_letters[OF d assms(1)] chosen by (rule refl)
  have tables: "shop_tables ?one = shop_tables db" unfolding run by (rule by_log.offline_sweep_tables)
  have ok: "alerts_counted ?one" unfolding run using by_log.offline.sweep[OF d assms(1)] by blast
  have sell: "selling_kiosks ?one = selling_kiosks db" by (rule selling_tables[OF tables])
  have quiet: "\<not> (is_dark later k ?one \<and> \<not> raised (offline_key k) ?one)" if k: "k \<in> set (selling_kiosks db)" for k
  proof (cases "is_dark later k db")
    case True
    then have "is_dark now k db" using assms(3) k by blast
    moreover have "find (\<lambda>j. offline_key j = offline_key k) (selling_kiosks db) = Some k"
      using found_by_key[OF keys_inject(1) assms(2)] k selling_iff[of k db] by simp
    ultimately have "raised (offline_key k) ?one"
      unfolding run using by_log.offline.sweep[OF d assms(1), of now 0] keys_inject(2)[of k] by auto
    then show ?thesis by blast
  next
    case False
    then show ?thesis using device_of_tables[OF tables, of k] by simp
  qed
  have "outbox (snd (watch_offline_kiosks log_it later ?one))
      = outbox ?one @ concat (map (\<lambda>k. offline_news k ?one)
          (filter (\<lambda>k. is_dark later k ?one \<and> \<not> raised (offline_key k) ?one) (selling_kiosks db)))"
    unfolding run[of later] sell offline_log.sweep_letters[OF d ok] chosen by (rule refl)
  moreover have "filter (\<lambda>k. is_dark later k ?one \<and> \<not> raised (offline_key k) ?one) (selling_kiosks db) = []"
    using quiet by (simp add: filter_empty_conv)
  ultimately have second: "outbox (snd (watch_offline_kiosks log_it later ?one)) = outbox ?one" by simp
  have "distinct (people_to_tell k db)" "[] \<notin> set (people_to_tell k db)"
    by (auto simp: people_to_tell_def first_of_each_def Let_def)
  with first second show ?thesis by blast
qed

definition quiet_shop :: logged_db where
  "quiet_shop = (orders_db.extend orders_blank (logged_db.fields []))
     \<lparr>kiosks := [kiosk_example], users := [user_example], user_roles := [\<lparr>ur_id = 1, ur_user_id = 1, ur_role = ADMIN, ur_granted_at = 0\<rparr>]\<rparr>"

theorem one_message_per_outage_witness:
  "outbox (snd (watch_offline_kiosks log_it 9 quiet_shop)) = [KioskOffline ''a@x.test'' ''Library'' None]
   \<and> outbox (snd (watch_offline_kiosks log_it 99 (snd (watch_offline_kiosks log_it 9 quiet_shop))))
     = [KioskOffline ''a@x.test'' ''Library'' None]"
proof -
  have t: "kiosks quiet_shop = [kiosk_example]" "admin_alerts quiet_shop = []" "kiosk_devices quiet_shop = []"
    "outbox quiet_shop = []" "users quiet_shop = [user_example]" "kiosk_assignments quiet_shop = []"
    "user_roles quiet_shop = [\<lparr>ur_id = 1, ur_user_id = 1, ur_role = ADMIN, ur_granted_at = 0\<rparr>]"
    by (simp_all add: quiet_shop_def orders_db.extend_def logged_db.fields_def orders_blank_def)
  have c: "alerts_counted quiet_shop" "distinct (map ki_public_id (kiosks quiet_shop))"
    by (simp_all add: t alerts_counted_def alerts_ok_def)
  have dark: "is_dark n kiosk_example quiet_shop" for n by (simp add: device_of_def t is_online_def)
  have sell: "selling_kiosks quiet_shop = [kiosk_example]"
    by (simp add: selling_kiosks_def list_kiosks_def t system_scope_def kiosk_example_def)
  have news: "offline_news kiosk_example quiet_shop = [KioskOffline ''a@x.test'' ''Library'' None]"
    by (simp add: offline_news_def device_of_def t people_to_tell_def owner_of_def refillers_of_def staffed_def holders_of_def
        roles_of_def first_of_each_def user_example_def kiosk_example_def)
  have "\<not> raised (offline_key kiosk_example) quiet_shop" by (simp add: raised_def t)
  with one_message_per_outage[OF c, of 99 9 kiosk_example] dark sell news t(4) show ?thesis by simp
qed

end
