(* ===== verification/Scheduler.thy ===== *)
theory Scheduler
  imports Jobs
begin

text \<open>
  \<^verbatim>\<open>jobs/scheduler.py\<close>: which jobs there are, when each is due and what one tick does. The advisory lock
  of Postgres is the parameter \<open>acquired\<close>: whether this worker gets the lock of a job at this tick.
  With it, what the sweeps do to the orders they meet.
\<close>

section \<open>The scheduler\<close>

text \<open>
  A job's run is a sweep over the state, inside one transaction: an error leaves the state as it was.
  The scheduler keeps when each job last lasts here; nothing else.
\<close>

record 's job =
  jb_name :: string
  jb_interval :: datetime
  jb_lock_key :: int
  jb_run :: "'s \<Rightarrow> (string \<times> 's) result"

type_synonym last_run = "string \<rightharpoonup> datetime"

definition due :: "'s job list \<Rightarrow> last_run \<Rightarrow> datetime \<Rightarrow> 's job list" where
  "due js lasts now =
     filter (\<lambda>j. case lasts (jb_name j) of None \<Rightarrow> True | Some t \<Rightarrow> jb_interval j \<le> now - t) js"

definition run_one :: "(int \<Rightarrow> bool) \<Rightarrow> datetime \<Rightarrow> 's job \<Rightarrow> last_run \<times> 's \<Rightarrow> last_run \<times> 's" where
  "run_one acquired now j = (\<lambda>(lasts, s).
     if \<not> acquired (jb_lock_key j) then (lasts, s)
     else case jb_run j s of
       Inl _ \<Rightarrow> (lasts, s)
     | Inr (summary, s') \<Rightarrow> (lasts(jb_name j \<mapsto> now), s'))"

definition run_due :: "(int \<Rightarrow> bool) \<Rightarrow> 's job list \<Rightarrow> datetime \<Rightarrow> last_run \<times> 's \<Rightarrow> string list \<times> last_run \<times> 's" where
  "run_due acquired js now = (\<lambda>(lasts, s).
     let ready = due js lasts now in (map jb_name ready, fold (run_one acquired now) ready (lasts, s)))"

text \<open>The jobs, over the database and the disk.\<close>

definition on_database :: "('d \<Rightarrow> string \<times> 'd) \<Rightarrow> 'd \<times> files \<Rightarrow> (string \<times> 'd \<times> files) result" where
  "on_database sweep = (\<lambda>(db, fs). let (summary, db1) = sweep db in Inr (summary, db1, fs))"

definition JOBS ::
  "'a orders_db_scheme notifier \<Rightarrow> place \<Rightarrow> int \<Rightarrow> datetime \<Rightarrow> ('a orders_db_scheme \<times> files) job list" where
  "JOBS send base retention_days now =
     [\<lparr>jb_name = ''expire-orders'', jb_interval = minutes 1, jb_lock_key = 8100001, jb_run = on_database (expire_orders now)\<rparr>,
      \<lparr>jb_name = ''purge-files'', jb_interval = hours 1, jb_lock_key = 8100002,
       jb_run = (\<lambda>(db, fs). bind_res (purge_files base retention_days now fs db) (\<lambda>(summary, fs1, db1). Inr (summary, db1, fs1)))\<rparr>,
      \<lparr>jb_name = ''settle-lost-tasks'', jb_interval = minutes 1, jb_lock_key = 8100005, jb_run = on_database (settle_lost_tasks now)\<rparr>,
      \<lparr>jb_name = ''watch-offline-kiosks'', jb_interval = minutes 5, jb_lock_key = 8100003, jb_run = on_database (watch_offline_kiosks send now)\<rparr>,
      \<lparr>jb_name = ''watch-paper'', jb_interval = minutes 10, jb_lock_key = 8100004, jb_run = on_database (watch_paper send now)\<rparr>]"

section \<open>One tick\<close>

definition after_run :: "(int \<Rightarrow> bool) \<Rightarrow> 's job \<Rightarrow> 's \<Rightarrow> 's" where
  "after_run acquired j s =
     (if acquired (jb_lock_key j) then (case jb_run j s of Inl _ \<Rightarrow> s | Inr (summary, s') \<Rightarrow> s') else s)"

lemma run_one_shape:
  "run_one acquired now j (lasts, s)
     = (if acquired (jb_lock_key j) \<and> \<not> isl (jb_run j s) then lasts(jb_name j \<mapsto> now) else lasts, after_run acquired j s)"
  by (auto simp: run_one_def after_run_def split: sum.split)

lemma fold_run_one:
  "snd (fold (run_one acquired now) js (lasts, s)) = fold (after_run acquired) js s
   \<and> (\<forall>n. fst (fold (run_one acquired now) js (lasts, s)) n = lasts n
        \<or> n \<in> jb_name ` set js \<and> fst (fold (run_one acquired now) js (lasts, s)) n = Some now)"
proof (induction js arbitrary: lasts s)
  case (Cons j js)
  define lasts1 where "lasts1 = (if acquired (jb_lock_key j) \<and> \<not> isl (jb_run j s) then lasts(jb_name j \<mapsto> now) else lasts)"
  have step: "fold (run_one acquired now) (j # js) (lasts, s) = fold (run_one acquired now) js (lasts1, after_run acquired j s)"
    by (simp add: run_one_shape lasts1_def)
  note IH = Cons.IH[of lasts1 "after_run acquired j s"]
  have "lasts1 n = lasts n \<or> n = jb_name j \<and> lasts1 n = Some now" for n by (auto simp: lasts1_def)
  note one = this
  define r where "r = fold (run_one acquired now) js (lasts1, after_run acquired j s)"
  have IH': "snd r = fold (after_run acquired) js (after_run acquired j s)"
    "r' = lasts1 n \<or> n \<in> jb_name ` set js \<and> r' = Some now" if "r' = fst r n" for n r'
    using IH that by (simp_all add: r_def)
  have "fst r n = lasts n \<or> n \<in> jb_name ` set (j # js) \<and> fst r n = Some now" for n
    using IH'(2)[OF refl, of n] one[of n] by auto
  then show ?case unfolding step r_def[symmetric] using IH'(1)[OF refl] by simp
qed simp

lemma due_iff: "j \<in> set (due js lasts now) \<longleftrightarrow>
    j \<in> set js \<and> (case lasts (jb_name j) of None \<Rightarrow> True | Some t \<Rightarrow> jb_interval j \<le> now - t)"
  by (simp add: due_def)

text \<open>
  (Property). A tick attempts exactly the jobs that are due, in their order, each under its own lock and in
  its own transaction, so one that fails or runs elsewhere leaves the state to the others. A job that
  ran is not attempted again before its interval is over; one that did not is attempted at the next
  tick, however soon that is.
\<close>

theorem a_tick_runs_what_is_due:
  assumes "run_due acquired js now (lasts, s) = (names, lasts', s')"
  shows "names = map jb_name (due js lasts now) \<and> s' = fold (after_run acquired) (due js lasts now) s
    \<and> (\<forall>j \<in> set js. lasts' (jb_name j) = Some now \<longrightarrow> (\<forall>later. later < now + jb_interval j \<longrightarrow> j \<notin> set (due js lasts' later)))
    \<and> (\<forall>j \<in> set (due js lasts now). lasts' (jb_name j) = lasts (jb_name j) \<longrightarrow> (\<forall>later \<ge> now. j \<in> set (due js lasts' later)))
    \<and> (\<forall>j \<in> set js. lasts' (jb_name j) \<noteq> lasts (jb_name j) \<longrightarrow> lasts' (jb_name j) = Some now)"
proof -
  let ?f = "fold (run_one acquired now) (due js lasts now) (lasts, s)"
  have r: "names = map jb_name (due js lasts now)" "lasts' = fst ?f" "s' = snd ?f"
    using assms by (auto simp: run_due_def Let_def)
  note f = fold_run_one[of acquired now "due js lasts now" lasts s]
  have runs: "s' = fold (after_run acquired) (due js lasts now) s" using f r by blast
  have changed: "lasts' n = lasts n \<or> lasts' n = Some now" for n using f r by blast
  have waits: "j \<notin> set (due js lasts' later)" if "lasts' (jb_name j) = Some now" "later < now + jb_interval j" for j later
    using that by (simp add: due_iff)
  have again: "j \<in> set (due js lasts' later)" if "j \<in> set (due js lasts now)" "lasts' (jb_name j) = lasts (jb_name j)" "now \<le> later" for j later
    using that by (auto simp: due_iff split: option.splits)
  show ?thesis using r(1) runs waits again changed by blast
qed

theorem a_tick_runs_what_is_due_witness:
  "\<exists>names lasts' s'. run_due (\<lambda>_. True) [\<lparr>jb_name = ''count'', jb_interval = minutes 1, jb_lock_key = 1, jb_run = (\<lambda>n. Inr ([], n + 1))\<rparr>]
      0 (Map.empty, 0 :: nat) = (names, lasts', s') \<and> names = [''count''] \<and> s' = 1
   \<and> due [\<lparr>jb_name = ''count'', jb_interval = minutes 1, jb_lock_key = 1, jb_run = (\<lambda>n :: nat. Inr ([], n + 1))\<rparr>] lasts' (seconds 59) = []"
proof -
  let ?j = "\<lparr>jb_name = ''count'', jb_interval = minutes 1, jb_lock_key = 1, jb_run = (\<lambda>n :: nat. Inr ([], n + 1))\<rparr>"
  obtain names lasts' s' where r: "run_due (\<lambda>_. True) [?j] 0 (Map.empty, 0) = (names, lasts', s')"
    by (cases "run_due (\<lambda>_. True) [?j] 0 (Map.empty, 0)")
  note t = a_tick_runs_what_is_due[OF r]
  have d: "due [?j] Map.empty 0 = [?j]" by (simp add: due_def)
  then have ran: "names = [''count'']" "s' = 1" using t by (simp_all add: after_run_def)
  have "lasts' ''count'' = Some 0" using r unfolding run_due_def prod.case d Let_def by (auto simp: run_one_def)
  with t have "?j \<notin> set (due [?j] lasts' (seconds 59))" by (simp add: minutes_def seconds_def)
  then have "due [?j] lasts' (seconds 59) = []" by (auto simp: due_def)
  with r ran show ?thesis by blast
qed

lemma JOBS_locks_distinct: "distinct (map jb_lock_key (JOBS send base retention_days now))" "distinct (map jb_name (JOBS send base retention_days now))"
  unfolding JOBS_def by simp_all

section \<open>The order of a silent machine\<close>

text \<open>
  While the sweep runs only \<open>orders\<close> changes, and only like this: the orders in \<open>S\<close>, all of which were in
  flight, have the state their prints add up to.
\<close>

definition print_states :: "order \<Rightarrow> 'a orders_db_scheme \<Rightarrow> task_state list" where
  "print_states r db = task_states_at (documents_of_order r db) (or_kiosk_id r) (or_created_at r) db"

definition derived :: "'a orders_db_scheme \<Rightarrow> order \<Rightarrow> order" where
  "derived db r = r\<lparr>or_state := state_from_prints (print_states r db)\<rparr>"

definition caught_up :: "nat set \<Rightarrow> 'a orders_db_scheme \<Rightarrow> 'a orders_db_scheme" where
  "caught_up S db = db\<lparr>orders := map (\<lambda>r. if or_id r \<in> S then derived db r else r) (orders db)\<rparr>"

definition can_catch_up :: "nat set \<Rightarrow> 'a orders_db_scheme \<Rightarrow> bool" where
  "can_catch_up S db \<longleftrightarrow> (\<forall>r \<in> set (orders db). or_id r \<in> S \<longrightarrow> or_state r \<in> {PAID, DISPATCHED} \<and> print_states r db \<noteq> [])"

lemma derived_simps [simp]:
  "or_id (derived db r) = or_id r" "or_kiosk_id (derived db r) = or_kiosk_id r" "or_created_at (derived db r) = or_created_at r"
  "or_total_inr (derived db r) = or_total_inr r" "or_state (derived db r) = state_from_prints (print_states r db)"
  by (simp_all add: derived_def)

lemma caught_up_tables [simp]:
  "order_items (caught_up S db) = order_items db" "print_tasks (caught_up S db) = print_tasks db"
  "orders (caught_up S db) = map (\<lambda>r. if or_id r \<in> S then derived db r else r) (orders db)"
  by (simp_all add: caught_up_def)

lemma print_states_caught_up [simp]:
  "print_states q (caught_up S db) = print_states q db" "print_states (derived db r) db = print_states r db"
  by (simp_all add: print_states_def documents_of_order_def items_of_def task_states_at_def)

lemma derived_derived: "or_id q = or_id r \<Longrightarrow> q = r \<or> q = derived db r \<Longrightarrow>
    q\<lparr>or_state := state_from_prints (print_states q db)\<rparr> = derived db r"
  by (auto simp: derived_def) (simp add: derived_def[symmetric])

lemma caught_up_ok: "orders_ok db \<Longrightarrow> orders_ok (caught_up S db)"
proof -
  assume ok: "orders_ok db"
  have ids: "map or_id (orders (caught_up S db)) = map or_id (orders db)" by simp
  then have "or_id ` set (orders (caught_up S db)) = or_id ` set (orders db)" unfolding set_map[symmetric] by (rule arg_cong)
  moreover have "\<forall>r \<in> set (orders (caught_up S db)). is_money (or_total_inr r)" using ok by (auto simp: orders_ok_def)
  ultimately show ?thesis using ok ids unfolding orders_ok_def caught_up_tables(1) by argo
qed

lemma derive_caught_up:
  assumes "orders_ok db" and r: "r \<in> set (orders db)" and q: "q = (if or_id r \<in> S then derived db r else r)"
  shows "snd (derive_from_prints q (caught_up S db))
    = (if print_states r db = [] then caught_up S db else caught_up (insert (or_id r) S) db)"
proof (cases "print_states r db = []")
  case True
  then have "print_states q (caught_up S db) = []" by (simp add: q)
  with True show ?thesis by (simp add: derive_from_prints_def print_states_def[symmetric])
next
  case False
  have ps: "print_states q db = print_states r db" by (simp add: q)
  have "q\<lparr>or_state := state_from_prints (print_states r db)\<rparr> = derived db r"
    by (simp add: q derived_def)
  then have "snd (derive_from_prints q (caught_up S db)) = save_order (derived db r) (caught_up S db)"
    using False by (simp add: derive_from_prints_def print_states_def[symmetric] ps Let_def)
  moreover have "put_row or_id (derived db r) (orders (caught_up S db)) = orders (caught_up (insert (or_id r) S) db)"
  proof -
    have "x = r" if "x \<in> set (orders db)" "or_id x = or_id r" for x
      using distinct_key_eq[of or_id "orders db" r x] assms(1) r that by (auto simp: orders_ok_def)
    then show ?thesis by (auto simp: put_row_def)
  qed
  ultimately show ?thesis using False by (simp add: save_order_def caught_up_def)
qed

text \<open>The only order in flight that has this document at this kiosk, with a print of it.\<close>

definition sole_order :: "nat \<Rightarrow> nat \<Rightarrow> order \<Rightarrow> 'a orders_db_scheme \<Rightarrow> bool" where
  "sole_order d k r db \<longleftrightarrow> prints_for d k r db \<and> print_states r db \<noteq> []
     \<and> (\<forall>s \<in> set (orders db). prints_for d k s db \<longrightarrow> s = r)"

lemma refresh_caught_up:
  assumes ok: "orders_ok db" and c: "can_catch_up S db"
  shows "\<exists>S'. snd (refresh_order_state d k (caught_up S db)) = caught_up S' db \<and> can_catch_up S' db \<and> S \<subseteq> S'
    \<and> (\<forall>r \<in> set (orders db). sole_order d k r db \<longrightarrow> or_id r \<in> S')"
proof -
  let ?mid = "caught_up S db"
  note mid_ok = caught_up_ok[OF ok, of S]
  show ?thesis
  proof (cases "order_in_flight d k ?mid")
    case Nil
    have "or_id r \<in> S" if r: "r \<in> set (orders db)" "sole_order d k r db" for r
    proof (rule ccontr)
      assume out: "or_id r \<notin> S"
      have "r \<in> set (orders ?mid)" unfolding caught_up_tables set_map by (rule image_eqI[OF _ r(1)]) (simp add: out)
      moreover have "prints_for d k r ?mid" using r(2) unfolding sole_order_def prints_for_def caught_up_tables by blast
      ultimately show False using in_flight_empty[OF mid_ok] Nil by blast
    qed
    moreover have "snd (refresh_order_state d k ?mid) = ?mid" by (simp add: refresh_order_state_def Nil)
    ultimately show ?thesis using c by blast
  next
    case (Cons i rest)
    obtain q where q: "q \<in> set (orders ?mid)" "prints_for d k q ?mid" "order_row (oi_order_id i) ?mid = Some q"
      by (rule in_flight_item[OF mid_ok Cons]) (rule that; assumption)
    obtain p where p: "p \<in> set (orders db)" "q = (if or_id p \<in> S then derived db p else p)" using q(1) by auto
    have fp: "prints_for d k p db"
    proof (cases "or_id p \<in> S")
      case True
      then have "or_state p \<in> {PAID, DISPATCHED}" using c p(1) unfolding can_catch_up_def by blast
      with q(2) p(2) True show ?thesis by (auto simp: prints_for_def)
    next
      case False
      with q(2) p(2) show ?thesis by (auto simp: prints_for_def)
    qed
    have run: "snd (refresh_order_state d k ?mid) = (if print_states p db = [] then ?mid else caught_up (insert (or_id p) S) db)"
      using derive_caught_up[OF ok p] by (simp add: refresh_order_state_def Cons q(3) case_prod_beta Let_def)
    define S' where "S' = (if print_states p db = [] then S else insert (or_id p) S)"
    have to: "snd (refresh_order_state d k ?mid) = caught_up S' db" using run by (simp add: S'_def)
    have grows: "S \<subseteq> S'" by (auto simp: S'_def)
    have can: "can_catch_up S' db" unfolding can_catch_up_def
    proof (intro ballI impI)
      fix x assume x: "x \<in> set (orders db)" "or_id x \<in> S'"
      show "or_state x \<in> {PAID, DISPATCHED} \<and> print_states x db \<noteq> []"
      proof (cases "or_id x \<in> S")
        case True
        then show ?thesis using c x(1) unfolding can_catch_up_def by blast
      next
        case False
        then have e: "or_id x = or_id p" "print_states p db \<noteq> []" using x(2) by (auto simp: S'_def split: if_splits)
        then have "x = p" using distinct_key_eq[of or_id "orders db" p x] ok p(1) x(1) by (auto simp: orders_ok_def)
        then show ?thesis using e(2) fp by (simp add: prints_for_def)
      qed
    qed
    have "or_id r \<in> S'" if "sole_order d k r db" for r
    proof -
      have "p = r" using that p(1) fp by (auto simp: sole_order_def)
      then show ?thesis using that by (simp add: S'_def sole_order_def)
    qed
    then show ?thesis using to can grows by blast
  qed
qed

lemma refresh_all_caught_up:
  assumes ok: "orders_ok db" and c: "can_catch_up S db"
  shows "\<exists>S'. fold (\<lambda>t db. snd (refresh_order_state (tk_document_id t) (tk_kiosk_id t) db)) ts (caught_up S db) = caught_up S' db
    \<and> can_catch_up S' db \<and> S \<subseteq> S'
    \<and> (\<forall>t \<in> set ts. \<forall>r \<in> set (orders db). sole_order (tk_document_id t) (tk_kiosk_id t) r db \<longrightarrow> or_id r \<in> S')"
  using c
proof (induction ts arbitrary: S)
  case Nil
  then show ?case by (intro exI[of _ S]) simp
next
  case (Cons t ts)
  obtain S1 where s1: "snd (refresh_order_state (tk_document_id t) (tk_kiosk_id t) (caught_up S db)) = caught_up S1 db"
    "can_catch_up S1 db" "S \<subseteq> S1" "\<forall>r \<in> set (orders db). sole_order (tk_document_id t) (tk_kiosk_id t) r db \<longrightarrow> or_id r \<in> S1"
    using refresh_caught_up[OF ok Cons.prems, of "tk_document_id t" "tk_kiosk_id t"] by blast
  obtain S2 where s2: "fold (\<lambda>t db. snd (refresh_order_state (tk_document_id t) (tk_kiosk_id t) db)) ts (caught_up S1 db) = caught_up S2 db"
    "can_catch_up S2 db" "S1 \<subseteq> S2"
    "\<forall>t \<in> set ts. \<forall>r \<in> set (orders db). sole_order (tk_document_id t) (tk_kiosk_id t) r db \<longrightarrow> or_id r \<in> S2"
    using Cons.IH[OF s1(2)] by blast
  have "fold (\<lambda>t db. snd (refresh_order_state (tk_document_id t) (tk_kiosk_id t) db)) (t # ts) (caught_up S db) = caught_up S2 db"
    using s1(1) s2(1) by simp
  moreover have "\<forall>t' \<in> set (t # ts). \<forall>r \<in> set (orders db). sole_order (tk_document_id t') (tk_kiosk_id t') r db \<longrightarrow> or_id r \<in> S2"
    using s1(4) s2(3,4) by auto
  ultimately show ?case using s2(2,3) s1(3) by (intro exI[of _ S2]) blast
qed

text \<open>The sweep, said of the table it finds: what is silent fails, for that reason, and nothing else is touched.\<close>

definition fallen_silent :: "datetime \<Rightarrow> print_task \<Rightarrow> bool" where
  "fallen_silent now t \<longleftrightarrow> tk_state t \<in> {SENT_TO_DEVICE, TASK_PRINTING} \<and> (\<exists>e. tk_lease_expires_at t = Some e \<and> e < now)"

definition failed_silently :: "datetime \<Rightarrow> print_task \<Rightarrow> print_task" where
  "failed_silently now t = t\<lparr>tk_state := TASK_FAILED, tk_error_code := Some ''LEASE_EXPIRED'', tk_error_message := Some LEASE_EXPIRED_MESSAGE,
     tk_finished_at := Some now, tk_lease_expires_at := None\<rparr>"

definition states_after_silence :: "datetime \<Rightarrow> order \<Rightarrow> 'a orders_db_scheme \<Rightarrow> task_state list" where
  "states_after_silence now r db =
     map (\<lambda>t. if fallen_silent now t then TASK_FAILED else tk_state t)
       (filter (one_orders (documents_of_order r db) (or_kiosk_id r) (or_created_at r)) (print_tasks db))"

lemma fallen_silent_lost: "fallen_silent now t = lease_lost now t"
  by (auto simp: fallen_silent_def lease_lost_def HELD_def split: option.splits)

lemma failed_silently_lost: "failed_silently now t = lost_task now t"
  by (simp add: failed_silently_def lost_task_def)

lemma lost_states:
  assumes "documents_of_order r db \<noteq> []"
  shows "print_states r (snd (fail_expired now db)) = states_after_silence now r db"
proof -
  have docs: "documents_of_order r (snd (fail_expired now db)) = documents_of_order r db"
    by (simp add: documents_of_order_def items_of_def fail_expired_def)
  have "one_orders ds i since (if lease_lost now t then lost_task now t else t) = one_orders ds i since t" for ds i since t
    by (simp add: one_orders_def lost_task_def)
  then show ?thesis using assms unfolding print_states_def task_states_at_def docs states_after_silence_def fallen_silent_lost
    by (simp add: fail_expired_def filter_map comp_def) (simp add: lost_task_def if_distrib)
qed

text \<open>
  C29. An order does not wait for a machine that fell silent: the sweep fails every print a machine was holding
  when its lease ran out, with the reason LEASE_EXPIRED and never back to the queue, leaves every other print as it
  was, and moves the order such a print belongs to, to PARTIALLY_FAILED when nothing else of it
  is still to come and to DISPATCHED when something is; it is never left PAID, and never COMPLETED.
\<close>

theorem a_silent_machine_settles_its_order:
  assumes ok: "orders_ok db" and r: "r \<in> set (orders db)" and t: "t \<in> set (print_tasks db)" "fallen_silent now t"
    and mine: "prints_for (tk_document_id t) (tk_kiosk_id t) r db" "or_created_at r \<le> tk_created_at t"
    and sole: "\<forall>s \<in> set (orders db). prints_for (tk_document_id t) (tk_kiosk_id t) s db \<longrightarrow> s = r"
  shows "print_tasks (snd (settle_lost_tasks now db)) = map (\<lambda>x. if fallen_silent now x then failed_silently now x else x) (print_tasks db)
    \<and> (\<exists>r'. order_row (or_id r) (snd (settle_lost_tasks now db)) = Some r'
          \<and> or_state r' = (if \<forall>st \<in> set (states_after_silence now r db). st \<in> {PRINTED, TASK_FAILED, CANCELLED}
                           then PARTIALLY_FAILED else DISPATCHED))"
proof -
  have lost: "lease_lost now t" using t(2) by (simp add: fallen_silent_lost)
  let ?db = "snd (fail_expired now db)" and ?t = "lost_task now t"
  have tables: "orders ?db = orders db" "order_items ?db = order_items db"
    "print_tasks ?db = map (\<lambda>t. if lease_lost now t then lost_task now t else t) (print_tasks db)"
    by (simp_all add: fail_expired_def)
  have ok': "orders_ok ?db" using ok orders_ok_frame[of ?db db] tables by simp
  have same: "prints_for d k s ?db \<longleftrightarrow> prints_for d k s db" for d k s by (simp add: prints_for_def tables)
  have lt: "tk_document_id ?t = tk_document_id t" "tk_kiosk_id ?t = tk_kiosk_id t" "tk_created_at ?t = tk_created_at t" "tk_state ?t = TASK_FAILED"
    by (simp_all add: lost_task_def)
  have doc: "tk_document_id t \<in> set (documents_of_order r ?db)"
    using mine(1) by (auto simp: documents_of_order_def items_of_def tables prints_for_def map_filter_def image_iff)
  have "?t \<in> set (print_tasks ?db)" using t(1) lost by (auto simp: tables)
  then have failed: "TASK_FAILED \<in> set (print_states r ?db)"
    using doc mine lt by (force simp: print_states_def task_states_at_def one_orders_def prints_for_def)
  have only: "sole_order (tk_document_id ?t) (tk_kiosk_id ?t) r ?db"
    using mine(1) sole failed by (auto simp: sole_order_def same tables lt)
  have "?t \<in> set (fst (fail_expired now db))" using t(1) lost by (simp add: fail_expired_def)
  moreover obtain S where S: "fold (\<lambda>t db. snd (refresh_order_state (tk_document_id t) (tk_kiosk_id t) db)) (fst (fail_expired now db)) (caught_up {} ?db)
      = caught_up S ?db" "\<forall>t \<in> set (fst (fail_expired now db)). \<forall>r \<in> set (orders ?db). sole_order (tk_document_id t) (tk_kiosk_id t) r ?db \<longrightarrow> or_id r \<in> S"
    using refresh_all_caught_up[OF ok', of "{}" "fst (fail_expired now db)"] by (auto simp: can_catch_up_def)
  ultimately have mem: "or_id r \<in> S" using only r tables(1) by auto
  have "caught_up {} ?db = ?db" by (simp add: caught_up_def)
  with S(1) have run: "snd (settle_lost_tasks now db) = caught_up S ?db"
    by (simp add: settle_lost_tasks_def case_prod_beta Let_def)
  have "derived ?db r \<in> set (orders (caught_up S ?db))" using mem r tables(1) by auto
  from order_row_ok[OF caught_up_ok[OF ok'] this] have "order_row (or_id r) (snd (settle_lost_tasks now db)) = Some (derived ?db r)"
    unfolding run by simp
  moreover have "or_state (derived ?db r) = (if set (print_states r ?db) \<subseteq> TERMINAL_TASK_STATES then PARTIALLY_FAILED else DISPATCHED)"
    using failed by (auto simp: state_from_prints_def list_ex_iff list_all_iff)
  moreover have "documents_of_order r db \<noteq> []"
    using doc by (auto simp: documents_of_order_def items_of_def tables)
  ultimately have "\<exists>r'. order_row (or_id r) (snd (settle_lost_tasks now db)) = Some r'
      \<and> or_state r' = (if \<forall>st \<in> set (states_after_silence now r db). st \<in> {PRINTED, TASK_FAILED, CANCELLED} then PARTIALLY_FAILED else DISPATCHED)"
    by (auto simp: lost_states TERMINAL_TASK_STATES_def subset_iff)
  moreover have "print_tasks (snd (settle_lost_tasks now db)) = map (\<lambda>x. if fallen_silent now x then failed_silently now x else x) (print_tasks db)"
    by (simp add: run tables fallen_silent_lost failed_silently_lost)
  ultimately show ?thesis by blast
qed

definition silent_example :: orders_db where
  "silent_example = orders_blank\<lparr>orders := [order_example\<lparr>or_state := PAID, or_paid_at := Some 5\<rparr>], order_items := [item_example],
     print_tasks := [task_example\<lparr>tk_state := SENT_TO_DEVICE, tk_lease_expires_at := Some 50\<rparr>]\<rparr>"

theorem a_silent_machine_settles_its_order_witness:
  "(\<exists>r'. order_row 1 (snd (settle_lost_tasks 60 silent_example)) = Some r' \<and> or_state r' = PARTIALLY_FAILED)
   \<and> map tk_state (print_tasks (snd (settle_lost_tasks 60 silent_example))) = [TASK_FAILED]"
proof -
  let ?r = "order_example\<lparr>or_state := PAID, or_paid_at := Some 5\<rparr>"
  let ?t = "task_example\<lparr>tk_state := SENT_TO_DEVICE, tk_lease_expires_at := Some 50\<rparr>"
  have tables: "orders silent_example = [?r]" "order_items silent_example = [item_example]" "print_tasks silent_example = [?t]"
    by (simp_all add: silent_example_def)
  have ok: "orders_ok silent_example"
    using item_example_priced by (simp add: orders_ok_def tables) (simp add: order_example_def item_example_def)
  have mem: "?r \<in> set (orders silent_example)" "?t \<in> set (print_tasks silent_example)" by (simp_all add: tables)
  have lost: "fallen_silent 60 ?t" by (simp add: fallen_silent_def)
  have mine: "prints_for (tk_document_id ?t) (tk_kiosk_id ?t) ?r silent_example" "or_created_at ?r \<le> tk_created_at ?t"
    by (simp_all add: prints_for_def tables) (simp_all add: order_example_def item_example_def task_example_def)
  have sole: "\<forall>s \<in> set (orders silent_example). prints_for (tk_document_id ?t) (tk_kiosk_id ?t) s silent_example \<longrightarrow> s = ?r"
    by (simp add: tables)
  have "\<forall>st \<in> set (states_after_silence 60 ?r silent_example). st \<in> {PRINTED, TASK_FAILED, CANCELLED}"
    using lost by (auto simp: states_after_silence_def tables)
  with a_silent_machine_settles_its_order[OF ok mem(1) mem(2) lost mine sole] lost show ?thesis
    by (auto simp: order_example_def tables failed_silently_def)
qed

section \<open>What retention does not ask\<close>

text \<open>
  (Property). Retention asks the queue and not the orders: a document that is old enough and whose order
  waits for its money is not yet in any queue, so its file is taken; the payment is still accepted,
  the print is queued, and the device that claims it is told the document is gone.
\<close>

theorem retention_takes_an_ordered_file:
  assumes "orders_ok db" and "library_ok open_pdf base fs db" and "r \<in> set (orders db)" and "require_payable r now = Inr ()"
    and "i \<in> set (items_of (or_id r) db)" and "printable i" and "oi_document_id i = Some (do_id d)"
    and "d \<in> set (documents db)" and "is_purgeable (now - older) db d"
  shows "\<exists>ds fs' db1 ts r' db2 t d'. purge_expired_files base older now fs db = Inr (ds, fs', db1)
    \<and> mark_paid r ref now db1 = Inr (ts, r', db2) \<and> t \<in> set ts \<and> tk_document_id t = do_id d
    \<and> document_row (do_id d) db2 = Some d' \<and> printable_key d' = Inl (NotFound NO_FILE)"
proof -
  obtain ds fs' db1 where p: "purge_expired_files base older now fs db = Inr (ds, fs', db1)"
    using retention_total[OF assms(2), of older now] by blast
  note e = purge_effect[OF assms(2) p]
  have f: "orders db1 = orders db" "order_items db1 = order_items db" by (simp_all add: e(1))
  have ok1: "orders_ok db1" using assms(1) orders_ok_frame[OF f] by simp
  obtain ts db2 where m: "mark_paid r ref now db1 = Inr (ts, paid_row r ref now, db2)"
    "list_all2 (item_queued (or_kiosk_id r)) (filter printable (items_of (or_id r) db1)) ts"
    "queued_onto ts (save_order (paid_row r ref now) db1) db2"
    using mark_paid_effect[OF ok1 assms(4), of ref] by blast
  have "i \<in> set (filter printable (items_of (or_id r) db1))" using assms(5,6) items_of_frame[OF f(2)] by simp
  then obtain t where t: "t \<in> set ts" "item_queued (or_kiosk_id r) i t"
    using m(2) by (metis in_set_conv_nth list_all2_lengthD list_all2_nthD nth_mem)
  then have doc: "tk_document_id t = do_id d" using assms(7) by (simp add: item_queued_def)
  have "documents db2 = documents db1" using m(3) by (auto simp: queued_onto_def save_order_def)
  moreover have "purged d \<in> set (documents db1)" using assms(8,9) by (auto simp: e(1))
  moreover have "distinct (map do_id (documents db1))"
    using purge_keeps[OF assms(2) p] by (simp add: library_ok_def)
  ultimately have "document_row (do_id d) db2 = Some (purged d)"
    using row_by_distinct[of do_id "documents db1" "purged d"] by (simp add: document_row_def)
  moreover have "printable_key (purged d) = Inl (NotFound NO_FILE)"
    by (simp add: printable_key_def purged_def or_else_def truthy_def)
  ultimately show ?thesis using p m(1) t(1) doc by blast
qed

definition old_essay :: document where
  "old_essay = essay\<lparr>do_original_path := Some ''originals/a.pdf''\<rparr>"

definition old_files :: files where
  "old_files = [[''srv'', ''originals'', ''a.pdf''] \<mapsto> essay_bytes]"

lemma old_essay_path: "path_of [''srv''] ''originals/a.pdf'' = Inr [''srv'', ''originals'', ''a.pdf'']"
  by code_simp

definition ordered_example :: orders_db where
  "ordered_example = orders_blank\<lparr>orders := [order_example\<lparr>or_expires_at := Some (days 9)\<rparr>], order_items := [item_example], documents := [old_essay]\<rparr>"

theorem retention_takes_an_ordered_file_witness:
  "\<exists>ds fs' db1 ts r' db2. purge_expired_files [''srv''] (days 7) (days 8) old_files ordered_example = Inr (ds, fs', db1)
     \<and> mark_paid (order_example\<lparr>or_expires_at := Some (days 9)\<rparr>) None (days 8) db1 = Inr (ts, r', db2) \<and> ts \<noteq> []"
proof -
  let ?r = "order_example\<lparr>or_expires_at := Some (days 9)\<rparr>"
  have tables: "orders ordered_example = [?r]" "order_items ordered_example = [item_example]" "documents ordered_example = [old_essay]"
    "print_tasks ordered_example = []"
    by (simp_all add: ordered_example_def orders_blank_def)
  have ok: "orders_ok ordered_example"
    using item_example_priced by (simp add: orders_ok_def tables) (simp add: order_example_def item_example_def)
  have lib: "library_ok three_pages [''srv''] old_files ordered_example"
    by (simp add: library_ok_def tables)
      (simp add: old_essay_def essay_def artefacts_def truthy_def old_essay_path holds_file_def printable_key_def or_else_def
        old_files_def three_pages_def)
  have r: "?r \<in> set (orders ordered_example)" "require_payable ?r (days 8) = Inr ()"
    by (simp_all add: tables require_payable_ok_iff) (simp_all add: order_example_def days_def hours_def minutes_def seconds_def)
  have i: "item_example \<in> set (items_of (or_id ?r) ordered_example)" "printable item_example" "oi_document_id item_example = Some (do_id old_essay)"
    by (simp_all add: items_of_def tables printable_def) (simp_all add: order_example_def item_example_def old_essay_def essay_def)
  have d: "old_essay \<in> set (documents ordered_example)" "is_purgeable (days 8 - days 7) ordered_example old_essay"
    by (simp_all add: tables is_purgeable_def still_wanted_def) (simp_all add: old_essay_def essay_def days_def hours_def minutes_def seconds_def)
  from retention_takes_an_ordered_file[OF ok lib r i d, of None] show ?thesis by fastforce
qed

end
