(* ===== verification/StudentApi.thy ===== *)
theory StudentApi
  imports Composition KioskAccess Refunding
begin

text \<open>
  What a student can ask for: \<^verbatim>\<open>api/student/visibility.py\<close> (one predicate for the map and the order
  route), \<^verbatim>\<open>orders.py\<close> (placing, paying from the balance, opening a checkout and confirming it),
  \<^verbatim>\<open>wallet.py\<close>, \<^verbatim>\<open>kiosks.py\<close> and \<^verbatim>\<open>staff.py\<close>. The signed-in account is an argument; the drawing of a
  receipt is the parameter \<open>draw\<close>. Request bodies are records of fields the framework has already
  typed.
\<close>

section \<open>Which shops\<close>

definition student_may_order :: "datetime \<Rightarrow> kiosk \<Rightarrow> 'a payments_db_scheme \<Rightarrow> bool" where
  "student_may_order now k db =
     (if ki_stage k \<noteq> LIVE then False
      else if \<not> can_take_payment now db k then False
      else is_online (device_of k db) now)"

definition UNRESTRICTED :: scope where
  "UNRESTRICTED = \<lparr>is_unrestricted = True, kiosk_ids = {}\<rparr>"

record student_kiosk =
  sk_id :: string
  sk_name :: string
  sk_latitude :: "rat option"
  sk_longitude :: "rat option"
  sk_location :: "string option"
  sk_accepts_wallet :: bool
  sk_offers_colour :: bool
  sk_is_favourite :: bool
  sk_is_out_of_paper :: bool
  sk_sheets_remaining :: int
  sk_paper_capacity :: int
  sk_bw_single :: rat
  sk_bw_double :: rat
  sk_color_single :: rat
  sk_color_double :: rat

definition student_kiosk_of :: "nat set \<Rightarrow> kiosk \<Rightarrow> 'a kiosks_db_scheme \<Rightarrow> student_kiosk \<times> 'a kiosks_db_scheme" where
  "student_kiosk_of saved k db =
     (let prices = effective_prices k;
          (remaining, db1) = sheets_remaining k db;
          (capacity, db2) = tray_capacity k db1
      in (\<lparr>sk_id = ki_public_id k, sk_name = ki_name k, sk_latitude = ki_latitude k, sk_longitude = ki_longitude k,
           sk_location = ki_location k, sk_accepts_wallet = ki_accepts_wallet k, sk_offers_colour = ki_offers_colour k,
           sk_is_favourite = (ki_id k \<in> saved), sk_is_out_of_paper = (remaining \<le> 0),
           sk_sheets_remaining = remaining, sk_paper_capacity = capacity,
           sk_bw_single = prices ''bw_single'', sk_bw_double = prices ''bw_double'',
           sk_color_single = prices ''color_single'', sk_color_double = prices ''color_double''\<rparr>, db2))"

fun each_shop :: "('k \<Rightarrow> 'd \<Rightarrow> 'v \<times> 'd) \<Rightarrow> 'k list \<Rightarrow> 'd \<Rightarrow> 'v list \<times> 'd" where
  "each_shop f [] db = ([], db)"
| "each_shop f (k # ks) db = (let (v, db1) = f k db; (vs, db2) = each_shop f ks db1 in (v # vs, db2))"

text \<open>
  The list is filtered and mapped in one pass; what building an entry may add to the database is the
  tray's row of a shop that has none, which no filter reads.
\<close>

definition list_printable_kiosks ::
  "user \<Rightarrow> datetime \<Rightarrow> 'a payments_db_scheme \<Rightarrow> student_kiosk list \<times> 'a payments_db_scheme" where
  "list_printable_kiosks u now db =
     (let saved = favourite_kiosk_ids (us_id u) db
      in each_shop (student_kiosk_of saved)
           (filter (\<lambda>k. student_may_order now k db) (list_kiosks UNRESTRICTED False db)) db)"

definition savable :: "string \<Rightarrow> datetime \<Rightarrow> 'a payments_db_scheme \<Rightarrow> kiosk result" where
  "savable kiosk_id now db =
     (case parse_id kiosk_id KIOSK of
        Inl _ \<Rightarrow> Inl (NotFound NO_SUCH_KIOSK)
      | Inr _ \<Rightarrow>
          bind_res (get_kiosk UNRESTRICTED kiosk_id db) (\<lambda>k.
            if \<not> student_may_order now k db then Inl (NotFound NO_SUCH_KIOSK) else Inr k))"

definition get_printable_kiosk ::
  "user \<Rightarrow> string \<Rightarrow> datetime \<Rightarrow> 'a payments_db_scheme \<Rightarrow> (student_kiosk \<times> 'a payments_db_scheme) result" where
  "get_printable_kiosk u kiosk_id now db =
     (case parse_id kiosk_id KIOSK of
        Inl _ \<Rightarrow> Inl (NotFound NO_SUCH_KIOSK)
      | Inr _ \<Rightarrow>
          bind_res (get_kiosk UNRESTRICTED kiosk_id db) (\<lambda>k.
            if \<not> student_may_order now k db then Inl (NotFound NO_SUCH_KIOSK)
            else Inr (student_kiosk_of (favourite_kiosk_ids (us_id u) db) k db)))"

definition save_favourite :: "user \<Rightarrow> string \<Rightarrow> datetime \<Rightarrow> 'a payments_db_scheme \<Rightarrow> 'a payments_db_scheme result" where
  "save_favourite u kiosk_id now db =
     bind_res (savable kiosk_id now db) (\<lambda>k. Inr (favourite_kiosk (us_id u) k db))"

definition forget_favourite :: "user \<Rightarrow> string \<Rightarrow> datetime \<Rightarrow> 'a payments_db_scheme \<Rightarrow> 'a payments_db_scheme result" where
  "forget_favourite u kiosk_id now db =
     bind_res (savable kiosk_id now db) (\<lambda>k. Inr (unfavourite_kiosk (us_id u) k db))"

section \<open>Orders\<close>

definition NOT_A_GATEWAY_ORDER :: string where
  "NOT_A_GATEWAY_ORDER = ''That order is not being paid by card.''"

definition NO_CHECKOUT :: string where
  "NO_CHECKOUT = ''That order has no payment to confirm.''"

definition NOT_PAID_YET :: string where
  "NOT_PAID_YET = ''There is no receipt for this order yet, because it has not been paid for.''"

record order_line_request =
  lr_document_id :: string
  lr_colour :: bool
  lr_duplex :: bool
  lr_copies :: int
  lr_page_range :: "string option"

record place_order_request =
  pr_kiosk_id :: string
  pr_payment_method :: payment_method
  pr_items :: "order_line_request list"

record checkout_response =
  ck_razorpay_order_id :: "string option"
  ck_razorpay_key_id :: string
  ck_amount_inr :: rat
  ck_order_id :: string

record verify_request =
  vr_razorpay_order_id :: string
  vr_razorpay_payment_id :: string
  vr_razorpay_signature :: string

text \<open>The settings the routes read.\<close>

record razorpay_settings =
  se_key_id :: string
  se_key_secret :: string
  se_webhook_secret :: string

definition order_or_404 :: "user \<Rightarrow> string \<Rightarrow> 'a orders_db_scheme \<Rightarrow> order result" where
  "order_or_404 u order_id db =
     (case parse_id order_id ORDER of
        Inl _ \<Rightarrow> Inl (NotFound NO_SUCH_ORDER)
      | Inr _ \<Rightarrow>
          (case order_for (us_id u) order_id db of
             None \<Rightarrow> Inl (NotFound NO_SUCH_ORDER)
           | Some r \<Rightarrow> Inr r))"

definition requested_line :: "user \<Rightarrow> 'a orders_db_scheme \<Rightarrow> order_line_request \<Rightarrow> requested_document result" where
  "requested_line u db line =
     bind_res (document_for_user (us_id u) (lr_document_id line) db) (\<lambda>d.
     bind_res (create_options (case do_page_count d of Some n \<Rightarrow> n | None \<Rightarrow> 0)
                 (lr_colour line) (lr_duplex line) (lr_copies line) (lr_page_range line)) (\<lambda>opts.
       Inr \<lparr>rq_document = d, rq_options = opts\<rparr>))"

definition place ::
  "user \<Rightarrow> place_order_request \<Rightarrow> datetime \<Rightarrow> 'a orders_db_scheme \<Rightarrow> (order_view \<times> 'a orders_db_scheme) result" where
  "place u body now db =
     bind_res (get_kiosk UNRESTRICTED (pr_kiosk_id body) db) (\<lambda>k.
       if \<not> student_may_order now k db then Inl (NotFound NO_SUCH_KIOSK)
       else
         bind_res (map_res (requested_line u db) (pr_items body)) (\<lambda>requests.
         bind_res (place_order u k requests (pr_payment_method body) now db) (\<lambda>(r, db1).
           Inr (view_of r db1, db1))))"

definition list_orders :: "user \<Rightarrow> nat \<Rightarrow> 'a orders_db_scheme \<Rightarrow> order_view list" where
  "list_orders u limit db = orders_of (us_id u) limit db"

definition get_order :: "user \<Rightarrow> string \<Rightarrow> 'a orders_db_scheme \<Rightarrow> order_view result" where
  "get_order u order_id db = bind_res (order_or_404 u order_id db) (\<lambda>r. Inr (view_of r db))"

definition order_invoice ::
  "(order_view \<Rightarrow> string \<Rightarrow> 'f) \<Rightarrow> user \<Rightarrow> string \<Rightarrow> 'a orders_db_scheme \<Rightarrow> ('f \<times> string) result" where
  "order_invoice draw u order_id db =
     bind_res (order_or_404 u order_id db) (\<lambda>r.
       if or_paid_at r = None then Inl (Conflict NOT_PAID_YET)
       else Inr (draw (view_of r db) (us_email u), ''printvendo-'' @ or_public_id r @ ''.pdf''))"

definition pay_from_wallet ::
  "user \<Rightarrow> string \<Rightarrow> datetime \<Rightarrow> 'a orders_db_scheme \<Rightarrow> (order_view \<times> 'a orders_db_scheme) result" where
  "pay_from_wallet u order_id now db =
     bind_res (order_or_404 u order_id db) (\<lambda>r.
     bind_res (pay_with_wallet r now db) (\<lambda>(_, r', db1). Inr (view_of r' db1, db1)))"

definition open_gateway_checkout ::
  "razorpay_gateway \<Rightarrow> secret_box \<Rightarrow> razorpay_settings \<Rightarrow> user \<Rightarrow> string \<Rightarrow> datetime \<Rightarrow> 'a orders_db_scheme \<Rightarrow>
   (checkout_response \<times> 'a orders_db_scheme) result" where
  "open_gateway_checkout rz box cfg u order_id now db =
     bind_res (order_or_404 u order_id db) (\<lambda>r.
       if or_payment_method r \<noteq> Some BY_GATEWAY then Inl (BadRequest NOT_A_GATEWAY_ORDER)
       else if or_state r \<noteq> AWAITING_PAYMENT then Inl (Conflict ALREADY_PAID)
       else
         bind_res (kiosk_by_internal_id UNRESTRICTED (or_kiosk_id r) db) (\<lambda>k.
         bind_res (credentials_for box (se_key_id cfg) (se_key_secret cfg) now k db) (\<lambda>c.
         bind_res (open_checkout rz (us_id u) PRINT_ORDER (or_total_inr r) (or_public_id r) (Some k)
                     (cn_credentials c) (cn_gateway c) (cn_collecting_user_id c) (Some (or_id r)) None db) (\<lambda>(p, db1).
           Inr (\<lparr>ck_razorpay_order_id = py_razorpay_order_id p, ck_razorpay_key_id = rz_key_id (cn_credentials c),
                 ck_amount_inr = py_amount_inr p, ck_order_id = or_public_id r\<rparr>, db1)))))"

definition verify ::
  "mac \<Rightarrow> secret_box \<Rightarrow> razorpay_settings \<Rightarrow> user \<Rightarrow> string \<Rightarrow> verify_request \<Rightarrow> datetime \<Rightarrow> 'a orders_db_scheme \<Rightarrow>
   (order_view \<times> 'a orders_db_scheme) result" where
  "verify mac box cfg u order_id body now db =
     bind_res (order_or_404 u order_id db) (\<lambda>r.
       case payment_for_razorpay_order (vr_razorpay_order_id body) db of
         None \<Rightarrow> Inl (NotFound NO_CHECKOUT)
       | Some p \<Rightarrow>
           if py_order_id p \<noteq> Some (or_id r) then Inl (NotFound NO_CHECKOUT)
           else
             bind_res (kiosk_by_internal_id UNRESTRICTED (or_kiosk_id r) db) (\<lambda>k.
             bind_res (credentials_for box (se_key_id cfg) (se_key_secret cfg) now k db) (\<lambda>c.
               if py_status p = CAPTURED \<and> py_razorpay_payment_id p = Some (vr_razorpay_payment_id body)
               then Inr (view_of r db, db)
               else
                 bind_res (confirm_payment mac p (vr_razorpay_payment_id body) (Some (vr_razorpay_signature body))
                             (rz_key_secret (cn_credentials c)) now db) (\<lambda>(_, db1).
                 bind_res (mark_paid r (Some (vr_razorpay_payment_id body)) now db1) (\<lambda>(_, r', db2).
                   Inr (view_of r' db2, db2))))))"

section \<open>The balance\<close>

definition MIN_TOPUP :: rat where
  "MIN_TOPUP = 10"

definition MAX_TOPUP :: rat where
  "MAX_TOPUP = 10000"

definition TOPUP_BOUNDS :: string where
  "TOPUP_BOUNDS = ''Top-ups must be between '' @ rupee @ ''10 and '' @ rupee @ ''10000.''"

definition NO_TOPUPS :: string where
  "NO_TOPUPS = ''Top-ups are unavailable right now. Please try again later.''"

definition my_balance :: "user \<Rightarrow> 'a wallet_db_scheme \<Rightarrow> rat" where
  "my_balance u db = balance_of (us_id u) db"

definition my_statement :: "user \<Rightarrow> nat \<Rightarrow> 'a wallet_db_scheme \<Rightarrow> wallet_entry list" where
  "my_statement u limit db = statement (us_id u) limit db"

definition open_topup ::
  "razorpay_gateway \<Rightarrow> razorpay_settings \<Rightarrow> user \<Rightarrow> rat \<Rightarrow> 'a payments_db_scheme \<Rightarrow>
   (checkout_response \<times> 'a payments_db_scheme) result" where
  "open_topup rz cfg u amount_inr db =
     (let amount = as_money amount_inr in
      if amount < MIN_TOPUP \<or> MAX_TOPUP < amount then Inl (BadRequest TOPUP_BOUNDS)
      else if se_key_id cfg = [] \<or> se_key_secret cfg = [] then Inl (BadRequest NO_TOPUPS)
      else
        bind_res (open_checkout rz (us_id u) WALLET_TOPUP amount (''topup:'' @ us_public_id u) None
                    \<lparr>rz_key_id = se_key_id cfg, rz_key_secret = se_key_secret cfg\<rparr> PLATFORM_GATEWAY None None None db)
          (\<lambda>(p, db1).
             Inr (\<lparr>ck_razorpay_order_id = py_razorpay_order_id p, ck_razorpay_key_id = se_key_id cfg,
                   ck_amount_inr = py_amount_inr p, ck_order_id = py_public_id p\<rparr>, db1)))"

section \<open>Joining a shop\<close>

text \<open>The answer names the shop, so an invitation to one that is gone is an attribute error.\<close>

definition accept ::
  "crypto \<Rightarrow> string \<Rightarrow> user \<Rightarrow> datetime \<Rightarrow> 'a kiosks_db_scheme \<Rightarrow>
   (string \<times> assignment_role \<times> 'a kiosks_db_scheme) result" where
  "accept cr token u now db =
     bind_res (accept_invite cr token u now db) (\<lambda>(k, role, db1).
       case k of
         None \<Rightarrow> Inl (Unhandled ''AttributeError: the kiosk of the invitation is gone'')
       | Some k \<Rightarrow> Inr (ki_public_id k, role, db1))"

section \<open>One capture, two doors\<close>

lemma credentials_frame:
  assumes "users db' = users db" and "kiosk_assignments db' = kiosk_assignments db" and "subscriptions db' = subscriptions db"
    and "payment_configs db' = payment_configs db"
  shows "credentials_for box kid ks now k db' = credentials_for box kid ks now k db"
proof -
  have o: "owner_of k db' = owner_of k db" using assms(1,2) by (simp add: owner_of_def staffed_def)
  have c: "get_config i db' = get_config i db" for i using assms(4) by (simp add: get_config_def)
  have a: "has_active_subscription i now db' = has_active_subscription i now db" for i
    using assms(3) by (simp add: has_active_subscription_def active_subscription_def)
  have u: "has_usable_keys i db' = has_usable_keys i db" for i by (simp add: has_usable_keys_def c)
  show ?thesis by (cases "owner_of k db") (simp_all add: credentials_for_def kiosk_payment_gate_def o c a u)
qed

lemma first_where_put:
  assumes "first_where f rows = Some r" and "distinct (map key rows)" and "key r' = key r" and "f r'"
  shows "first_where f (put_row key r' rows) = Some r'"
  using assms
proof (induction rows)
  case (Cons x rows)
  show ?case
  proof (cases "f x")
    case True
    with Cons.prems show ?thesis by (simp add: put_row_def)
  next
    case False
    then have r: "first_where f rows = Some r" using Cons.prems by simp
    then have "r \<in> set rows" by (auto dest: first_where_SomeD)
    with Cons.prems have "key x \<noteq> key r'" by auto
    with False Cons r show ?thesis by (simp add: put_row_def)
  qed
qed simp

lemma order_or_404_Inr:
  "order_or_404 u oid db = Inr r \<longleftrightarrow> (\<exists>x. parse_id oid ORDER = Inr x) \<and> order_for (us_id u) oid db = Some r"
  by (auto simp: order_or_404_def split: sum.splits option.splits)

lemma order_or_404_of: "order_or_404 u oid db = Inr r \<Longrightarrow> r \<in> set (orders db) \<and> or_public_id r = oid \<and> or_user_id r = us_id u"
  by (auto simp: order_or_404_Inr order_for_def dest: first_where_SomeD)

lemma order_or_404_put:
  assumes "order_or_404 u oid db = Inr r" and "distinct (map or_id (orders db))" and "orders db' = put_row or_id r' (orders db)"
    and "or_id r' = or_id r" "or_public_id r' = or_public_id r" "or_user_id r' = or_user_id r"
  shows "order_or_404 u oid db' = Inr r'"
  using assms order_or_404_of[OF assms(1)]
  by (auto simp: order_or_404_Inr order_for_def intro!: first_where_put)

lemma kiosk_by_internal_id_frame:
  "kiosks db' = kiosks db \<Longrightarrow> kiosk_by_internal_id sc i db' = kiosk_by_internal_id sc i db"
  by (simp add: kiosk_by_internal_id_def kiosk_row_def)

text \<open>The callback, where its order, its checkout and the keys of its shop are found.\<close>

lemma verify_found:
  assumes "order_or_404 u oid db = Inr r" and "payment_for_razorpay_order (vr_razorpay_order_id body) db = Some p"
    and "py_order_id p = Some (or_id r)" and "kiosk_by_internal_id UNRESTRICTED (or_kiosk_id r) db = Inr k"
    and "credentials_for box (se_key_id cfg) (se_key_secret cfg) now k db = Inr c"
  shows "verify mac box cfg u oid body now db =
    (if py_status p = CAPTURED \<and> py_razorpay_payment_id p = Some (vr_razorpay_payment_id body) then Inr (view_of r db, db)
     else bind_res (confirm_payment mac p (vr_razorpay_payment_id body) (Some (vr_razorpay_signature body))
                     (rz_key_secret (cn_credentials c)) now db) (\<lambda>(_, db1).
          bind_res (mark_paid r (Some (vr_razorpay_payment_id body)) now db1) (\<lambda>(_, r', db2). Inr (view_of r' db2, db2))))"
  using assms by (simp add: verify_def)

lemma view_of_state [simp]: "ov_state (view_of r db) = or_state r"
  by (simp add: view_of_def public_ids_def view_def Let_def case_prod_beta)

text \<open>A callback that is genuine under a key, for the checkout \<open>p\<close>.\<close>

definition genuine :: "mac \<Rightarrow> payment \<Rightarrow> verify_request \<Rightarrow> string \<Rightarrow> bool" where
  "genuine mac p body key_secret \<longleftrightarrow> py_razorpay_order_id p = Some (vr_razorpay_order_id body)
     \<and> verify_payment_signature mac (vr_razorpay_order_id body) (vr_razorpay_payment_id body)
         (Some (vr_razorpay_signature body)) key_secret = Inr True"

lemma genuine_confirms:
  assumes "genuine mac p body key" and "py_status p \<noteq> CAPTURED"
    and "\<forall>q \<in> set (payments db). py_id q \<noteq> py_id p \<longrightarrow> py_razorpay_payment_id q \<noteq> Some (vr_razorpay_payment_id body)"
  shows "confirm_payment mac p (vr_razorpay_payment_id body) (Some (vr_razorpay_signature body)) key now db
    = Inr (captured_row p (vr_razorpay_payment_id body) now, save_payment (captured_row p (vr_razorpay_payment_id body) now) db)"
  using assms by (auto simp: genuine_def confirm_payment_def record_capture_def captured_row_def Let_def)

lemma paid_row_simps [simp]:
  "or_id (paid_row r ref now) = or_id r" "or_public_id (paid_row r ref now) = or_public_id r"
  "or_user_id (paid_row r ref now) = or_user_id r" "or_kiosk_id (paid_row r ref now) = or_kiosk_id r"
  "or_state (paid_row r ref now) = PAID"
  by (simp_all add: paid_row_def)

lemma both_doors_shape:
  fixes db :: "'a orders_db_scheme"
  assumes ok: "books_ok db" "orders_ok db" and p: "p \<in> set (payments db)" and r: "order_or_404 u oid db = Inr r"
    and cap: "capture_of mac parse body sg secret p (vr_razorpay_payment_id cb)"
    and new: "\<forall>q \<in> set (payments db). py_id q \<noteq> py_id p \<longrightarrow> py_razorpay_payment_id q \<noteq> Some (vr_razorpay_payment_id cb)"
    and buys: "py_kind p = PRINT_ORDER" "py_order_id p = Some (or_id r)" and pay: "require_payable r now = Inr ()"
    and k: "kiosk_by_internal_id UNRESTRICTED (or_kiosk_id r) db = Inr k"
    and c: "credentials_for box (se_key_id cfg) (se_key_secret cfg) now k db = Inr c"
    and sig: "genuine mac p cb (rz_key_secret (cn_credentials c))"
  obtains ts db' where
    "handle_webhook mac parse body sg secret (webhook_settlement now) (Some (order_refund_sink now)) (py_collecting_user_id p) now db
       = Inr (outcome (PStr EVENT_CAPTURED) True ''captured and settled'', db')"
    "verify mac box cfg u oid cb now db = Inr (view_of (paid_row r (Some (vr_razorpay_payment_id cb)) now) db', db')"
    "queued_onto ts (save_order (paid_row r (Some (vr_razorpay_payment_id cb)) now)
       (save_payment (captured_row p (vr_razorpay_payment_id cb) now) db)) db'"
    "list_all2 (item_queued (or_kiosk_id r)) (filter printable (items_of (or_id r) db)) ts"
proof -
  let ?pid = "vr_razorpay_payment_id cb" and ?p = "captured_row p (vr_razorpay_payment_id cb) now"
  let ?s = "save_payment ?p db"
  note row = order_or_404_of[OF r]
  have s: "orders ?s = orders db" "order_items ?s = order_items db" by (simp_all add: save_payment_def)
  have "orders_ok ?s" using ok(2) s orders_ok_frame[of ?s db] by simp
  from mark_paid_effect[OF this pay, of "Some ?pid"] obtain ts db' where
    m: "mark_paid r (Some ?pid) now ?s = Inr (ts, paid_row r (Some ?pid) now, db')"
      "list_all2 (item_queued (or_kiosk_id r)) (filter printable (items_of (or_id r) ?s)) ts"
      "queued_onto ts (save_order (paid_row r (Some ?pid) now) ?s) db'" by auto
  have own: "order_row (or_id r) ?s = Some r" using order_row_ok[OF ok(2)] row by (simp add: order_row_def s)
  have "settle (webhook_settlement now) ?p ?s = Inr db'"
    using buys m(1) own[unfolded captured_row_def]
    by (simp add: settle_def webhook_settlement_def settle_an_order_def settle_paid_order_def captured_row_def bind_res_assoc case_prod_unfold)
  then have w: "handle_webhook mac parse body sg secret (webhook_settlement now) (Some (order_refund_sink now)) (py_collecting_user_id p) now db
       = Inr (outcome (PStr EVENT_CAPTURED) True ''captured and settled'', db')"
    using capture_delivered_to_settlement[OF ok(1) p cap new] by simp
  have st: "py_status p \<noteq> CAPTURED" using cap by (simp add: capture_of_def)
  have look: "payment_for_razorpay_order (vr_razorpay_order_id cb) db = Some p"
    unfolding payment_for_razorpay_order_def using ok(1) p sig
    by (intro first_where_unique_col) (auto simp: books_ok_def genuine_def)
  have v: "verify mac box cfg u oid cb now db = Inr (view_of (paid_row r (Some ?pid) now) db', db')"
    unfolding verify_found[OF r look buys(2) k c] using st genuine_confirms[OF sig st new] m(1) by simp
  have "items_of (or_id r) ?s = items_of (or_id r) db" by (rule items_of_frame[OF s(2)])
  then show ?thesis using that[OF w v m(3)] m(2) by simp
qed

text \<open>
  C30. One capture reaches the server through two doors, the browser's callback and Razorpay's
  delivery, in either order, and settles once: each of them alone leaves the same database, with the
  payment captured, the order PAID and its prints queued; after it, the other is answered as a success,
  shows the order as PAID and changes nothing, as long as the shop can still collect.
\<close>

theorem one_capture_two_doors:
  fixes db :: "'a orders_db_scheme"
  assumes ok: "books_ok db" "orders_ok db" and p: "p \<in> set (payments db)" and r: "order_or_404 u oid db = Inr r"
    and cap: "capture_of mac parse body sg secret p (vr_razorpay_payment_id cb)"
    and new: "\<forall>q \<in> set (payments db). py_id q \<noteq> py_id p \<longrightarrow> py_razorpay_payment_id q \<noteq> Some (vr_razorpay_payment_id cb)"
    and buys: "py_kind p = PRINT_ORDER" "py_order_id p = Some (or_id r)" and pay: "require_payable r now = Inr ()"
    and k: "kiosk_by_internal_id UNRESTRICTED (or_kiosk_id r) db = Inr k"
    and c: "credentials_for box (se_key_id cfg) (se_key_secret cfg) now k db = Inr c"
    and sig: "genuine mac p cb (rz_key_secret (cn_credentials c))"
    and later: "credentials_for box (se_key_id cfg) (se_key_secret cfg) later k db = Inr c'"
  shows "\<exists>out v v' o2 db'.
      handle_webhook mac parse body sg secret (webhook_settlement now) (Some (order_refund_sink now)) (py_collecting_user_id p) now db = Inr (out, db')
    \<and> verify mac box cfg u oid cb now db = Inr (v, db')
    \<and> verify mac box cfg u oid cb later db' = Inr (v', db') \<and> ov_state v' = PAID
    \<and> handle_webhook mac parse body sg secret (webhook_settlement later) (Some (order_refund_sink later)) (py_collecting_user_id p) later db' = Inr (o2, db')
    \<and> order_row (or_id r) db' = Some (paid_row r (Some (vr_razorpay_payment_id cb)) now)
    \<and> (\<exists>ts. print_tasks db' = print_tasks db @ ts
         \<and> list_all2 (item_queued (or_kiosk_id r)) (filter printable (items_of (or_id r) db)) ts)"
proof -
  let ?pid = "vr_razorpay_payment_id cb" and ?p = "captured_row p (vr_razorpay_payment_id cb) now"
  obtain ts db' where w: "handle_webhook mac parse body sg secret (webhook_settlement now) (Some (order_refund_sink now)) (py_collecting_user_id p) now db
       = Inr (outcome (PStr EVENT_CAPTURED) True ''captured and settled'', db')"
    and v: "verify mac box cfg u oid cb now db = Inr (view_of (paid_row r (Some ?pid) now) db', db')"
    and q: "queued_onto ts (save_order (paid_row r (Some ?pid) now) (save_payment ?p db)) db'"
    and ts: "list_all2 (item_queued (or_kiosk_id r)) (filter printable (items_of (or_id r) db)) ts"
    by (rule both_doors_shape[OF ok p r cap new buys pay k c sig])
  have f: "payments db' = put_row py_id ?p (payments db)" "orders db' = put_row or_id (paid_row r (Some ?pid) now) (orders db)"
      "print_tasks db' = print_tasks db @ ts" "kiosks db' = kiosks db" "users db' = users db"
      "kiosk_assignments db' = kiosk_assignments db" "subscriptions db' = subscriptions db" "payment_configs db' = payment_configs db"
    using q by (auto simp: queued_onto_def save_order_def save_payment_def)
  have "books_ok db' \<and> (\<exists>o2. handle_webhook mac parse body sg secret (webhook_settlement later) (Some (order_refund_sink later))
      (py_collecting_user_id p) later db' = Inr (o2, db'))"
    by (rule wired.redelivery[OF ok(1) w])
  then obtain o2 where ok': "books_ok db'" and
    w2: "handle_webhook mac parse body sg secret (webhook_settlement later) (Some (order_refund_sink later)) (py_collecting_user_id p) later db' = Inr (o2, db')"
    by blast
  have r': "order_or_404 u oid db' = Inr (paid_row r (Some ?pid) now)"
    by (rule order_or_404_put[OF r _ f(2)]) (use ok(2) in \<open>simp_all add: orders_ok_def\<close>)
  have look: "payment_for_razorpay_order (vr_razorpay_order_id cb) db' = Some ?p"
    by (rule lookup_updated[OF ok' f(1) p]) (use sig in \<open>simp_all add: captured_row_def genuine_def\<close>)
  have "credentials_for box (se_key_id cfg) (se_key_secret cfg) later k db' = Inr c'"
    using later credentials_frame[OF f(5-8)] by simp
  moreover have "kiosk_by_internal_id UNRESTRICTED (or_kiosk_id (paid_row r (Some ?pid) now)) db' = Inr k"
    using k kiosk_by_internal_id_frame[OF f(4)] by simp
  ultimately have "verify mac box cfg u oid cb later db' = Inr (view_of (paid_row r (Some ?pid) now) db', db')"
    using verify_found[OF r' look] buys by (simp add: captured_row_def)
  moreover have "order_row (or_id r) db' = Some (paid_row r (Some ?pid) now)"
    using order_row_ok[OF ok(2)] order_or_404_of[OF r] by (simp add: order_row_def f(2) row_by_put_row)
  ultimately show ?thesis using w v w2 f(3) ts by (metis paid_row_simps(5) view_of_state)
qed

definition card_order :: order where
  "card_order = order_example\<lparr>or_public_id := ''ord_0000000000000000'', or_payment_method := Some BY_GATEWAY\<rparr>"

definition card_payment :: payment where
  "card_payment = open_payment_example\<lparr>py_collecting_user_id := None, py_source := SRC_PLATFORM_GATEWAY\<rparr>"

definition card_example :: orders_db where
  "card_example = orders_blank\<lparr>kiosks := [kiosk_example], payments := [card_payment], orders := [card_order], order_items := [item_example]\<rparr>"

definition student_example :: user where
  "student_example = user_example\<lparr>us_id := 2\<rparr>"

definition card_settings :: razorpay_settings where
  "card_settings = \<lparr>se_key_id = ''rzp'', se_key_secret = ''key'', se_webhook_secret = ''hook''\<rparr>"

definition card_callback :: verify_request where
  "card_callback = \<lparr>vr_razorpay_order_id = ''order_1'', vr_razorpay_payment_id = ''pay_7'',
     vr_razorpay_signature = ''mac:key:order_1|pay_7''\<rparr>"

lemma card_example_ok: "books_ok card_example" "orders_ok card_example"
    "card_payment \<in> set (payments card_example)"
    "order_or_404 student_example ''ord_0000000000000000'' card_example = Inr card_order"
    "capture_of toy_mac (\<lambda>_. Some capture_body) ''body'' (Some ''mac:hook:body'') ''hook'' card_payment (vr_razorpay_payment_id card_callback)"
    "\<forall>q \<in> set (payments card_example). py_id q \<noteq> py_id card_payment \<longrightarrow> py_razorpay_payment_id q \<noteq> Some (vr_razorpay_payment_id card_callback)"
    "py_kind card_payment = PRINT_ORDER" "py_order_id card_payment = Some (or_id card_order)"
    "require_payable card_order 9 = Inr ()"
    "kiosk_by_internal_id UNRESTRICTED (or_kiosk_id card_order) card_example = Inr kiosk_example"
    "credentials_for toy_box (se_key_id card_settings) (se_key_secret card_settings) t kiosk_example card_example
       = Inr \<lparr>cn_gateway = PLATFORM_GATEWAY, cn_credentials = \<lparr>rz_key_id = ''rzp'', rz_key_secret = ''key''\<rparr>, cn_collecting_user_id = None\<rparr>"
    "genuine toy_mac card_payment card_callback ''key''"
proof -
  have t: "payments card_example = [card_payment]" "refunds card_example = []" "kiosks card_example = [kiosk_example]"
    "orders card_example = [card_order]" "order_items card_example = [item_example]"
    by (simp_all add: card_example_def orders_blank_def)
  show "books_ok card_example"
    by (simp add: books_ok_def t card_payment_def open_payment_example_def owner_payment_example_def payment_sound_def unique_col_def)
  show "orders_ok card_example" using item_example_priced
    by (simp add: orders_ok_def t) (simp add: card_order_def order_example_def item_example_def)
  show "card_payment \<in> set (payments card_example)" by (simp add: t)
  have "\<exists>x. parse_id ''ord_0000000000000000'' ORDER = Inr x"
    by (rule exI[of _ "(case parse_id ''ord_0000000000000000'' ORDER of Inr x \<Rightarrow> x)"]) code_simp
  moreover have "order_for (us_id student_example) ''ord_0000000000000000'' card_example = Some card_order"
    by (simp add: order_for_def t) (simp add: student_example_def user_example_def card_order_def order_example_def)
  ultimately show "order_or_404 student_example ''ord_0000000000000000'' card_example = Inr card_order"
    by (simp add: order_or_404_Inr)
  have "verify_webhook_signature toy_mac ''body'' (Some ''mac:hook:body'') ''hook'' = Inr True" by code_simp
  then show "capture_of toy_mac (\<lambda>_. Some capture_body) ''body'' (Some ''mac:hook:body'') ''hook'' card_payment (vr_razorpay_payment_id card_callback)"
    by (simp add: capture_of_def capture_body_read card_payment_def open_payment_example_def owner_payment_example_def card_callback_def)
  show "\<forall>q \<in> set (payments card_example). py_id q \<noteq> py_id card_payment \<longrightarrow> py_razorpay_payment_id q \<noteq> Some (vr_razorpay_payment_id card_callback)"
    by (simp add: t)
  have k: "ki_type kiosk_example = PLATFORM" "ki_id kiosk_example = 1" by (simp_all add: kiosk_example_def)
  show "kiosk_by_internal_id UNRESTRICTED (or_kiosk_id card_order) card_example = Inr kiosk_example"
    by (simp add: kiosk_by_internal_id_def kiosk_row_def t card_order_def order_example_def UNRESTRICTED_def k row_by_def allows_def)
  show "credentials_for toy_box (se_key_id card_settings) (se_key_secret card_settings) t kiosk_example card_example
       = Inr \<lparr>cn_gateway = PLATFORM_GATEWAY, cn_credentials = \<lparr>rz_key_id = ''rzp'', rz_key_secret = ''key''\<rparr>, cn_collecting_user_id = None\<rparr>"
    by (simp add: credentials_for_def kiosk_payment_gate_def k OWNER_COLLECTS_def card_settings_def)
  have "verify_payment_signature toy_mac ''order_1'' ''pay_7'' (Some ''mac:key:order_1|pay_7'') ''key'' = Inr True" by code_simp
  then show "genuine toy_mac card_payment card_callback ''key''"
    by (simp add: genuine_def card_callback_def card_payment_def open_payment_example_def owner_payment_example_def)
qed (simp_all add: card_payment_def open_payment_example_def owner_payment_example_def card_order_def order_example_def
      require_payable_def SETTLED_ORDER_STATES_def)

theorem one_capture_two_doors_witness:
  "\<exists>out v v' db'. handle_webhook toy_mac (\<lambda>_. Some capture_body) ''body'' (Some ''mac:hook:body'') ''hook'' (webhook_settlement 9)
      (Some (order_refund_sink 9)) (py_collecting_user_id card_payment) 9 card_example = Inr (out, db')
    \<and> verify toy_mac toy_box card_settings student_example ''ord_0000000000000000'' card_callback 9 card_example = Inr (v, db')
    \<and> verify toy_mac toy_box card_settings student_example ''ord_0000000000000000'' card_callback 50 db' = Inr (v', db')
    \<and> ov_state v' = PAID"
  using one_capture_two_doors[OF card_example_ok(1-11), of 50] card_example_ok(11,12) by simp blast

section \<open>Opening a checkout\<close>

lemma open_checkout_shape:
  fixes db :: "'a payments_db_scheme"
  assumes "rg_create_order rz (to_paise (as_money amount)) receipt creds = Inr rid" and "source_of_gateway gw = Inr src"
    and "\<forall>q \<in> set (payments db). py_razorpay_order_id q \<noteq> Some rid" and "0 < as_money amount" and "books_ok db"
  obtains p db' where "open_checkout rz u kind amount receipt k creds gw who o_id s_id db = Inr (p, db')"
    "books_ok db'" "payments db' = payments db @ [p]" "py_kind p = kind" "py_order_id p = o_id" "py_status p = CREATED"
    "py_razorpay_order_id p = Some rid" "py_razorpay_payment_id p = None" "py_collecting_user_id p = who"
    "py_amount_inr p = as_money amount" "py_source p = src" "py_user_id p = u" "py_refunded_inr p = 0"
    "\<exists>d. db' = db\<lparr>drawn := d, payments := payments db @ [p]\<rparr>"
proof -
  define v where "v = \<lparr>py_id = 0, py_public_id = [], py_user_id = u, py_kind = kind, py_order_id = o_id,
             py_subscription_id = s_id, py_kiosk_id = map_option ki_id k, py_source = src,
             py_collecting_user_id = who, py_razorpay_order_id = Some rid,
             py_razorpay_payment_id = None, py_amount_inr = as_money amount, py_refunded_inr = 0, py_status = CREATED,
             py_failure_reason = None, py_created_at = 0, py_captured_at = None\<rparr>"
  obtain p db' where i: "insert_payment v db = Inr (p, db')" "\<exists>d. db' = db\<lparr>drawn := d, payments := payments db @ [p]\<rparr>"
    using assms(3) by (auto simp: insert_payment_def v_def Let_def mint_def)
  have o: "open_checkout rz u kind amount receipt k creds gw who o_id s_id db = Inr (p, db')"
    using assms(1,2,4) i by (simp add: open_checkout_def Let_def v_def)
  note c = insert_payment_cases[OF i(1)]
  obtain i1 i2 t where p: "p = v\<lparr>py_id := i1, py_public_id := i2, py_refunded_inr := 0, py_failure_reason := None, py_created_at := t\<rparr>"
    using c by metis
  have "books_ok db'" by (rule books_insert[OF assms(5) i(1)]) (use assms(4) in \<open>simp_all add: v_def\<close>)
  then show ?thesis using o c i(2) p by (intro that[of p db']) (simp_all add: v_def)
qed

definition may_check_out :: "secret_box \<Rightarrow> razorpay_settings \<Rightarrow> user \<Rightarrow> string \<Rightarrow> datetime \<Rightarrow> order \<Rightarrow> kiosk \<Rightarrow> collection \<Rightarrow>
    'a orders_db_scheme \<Rightarrow> bool" where
  "may_check_out box cfg u oid now r k c db \<longleftrightarrow> order_or_404 u oid db = Inr r \<and> or_payment_method r = Some BY_GATEWAY
     \<and> or_state r = AWAITING_PAYMENT \<and> kiosk_by_internal_id UNRESTRICTED (or_kiosk_id r) db = Inr k
     \<and> credentials_for box (se_key_id cfg) (se_key_secret cfg) now k db = Inr c"

lemma collection_has_source: "credentials_for box kid ks now k db = Inr c \<Longrightarrow> \<exists>src. source_of_gateway (cn_gateway c) = Inr src"
  by (cases rule: credentials_for_cases) auto

lemma checkout_shape:
  fixes db :: "'a orders_db_scheme"
  assumes ok: "books_ok db" and may: "may_check_out box cfg u oid now r k c db"
    and rid: "rg_create_order rz (to_paise (as_money (or_total_inr r))) (or_public_id r) (cn_credentials c) = Inr rid"
      "\<forall>q \<in> set (payments db). py_razorpay_order_id q \<noteq> Some rid" and pos: "0 < as_money (or_total_inr r)"
  obtains p db' where "open_gateway_checkout rz box cfg u oid now db
      = Inr (\<lparr>ck_razorpay_order_id = Some rid, ck_razorpay_key_id = rz_key_id (cn_credentials c),
              ck_amount_inr = as_money (or_total_inr r), ck_order_id = oid\<rparr>, db')"
    "books_ok db'" "payments db' = payments db @ [p]" "py_kind p = PRINT_ORDER" "py_order_id p = Some (or_id r)"
    "py_status p = CREATED" "py_razorpay_order_id p = Some rid" "py_collecting_user_id p = cn_collecting_user_id c"
    "py_amount_inr p = as_money (or_total_inr r)" "orders db' = orders db" "order_items db' = order_items db"
proof -
  have m: "order_or_404 u oid db = Inr r" "or_payment_method r = Some BY_GATEWAY" "or_state r = AWAITING_PAYMENT"
    "kiosk_by_internal_id UNRESTRICTED (or_kiosk_id r) db = Inr k" "credentials_for box (se_key_id cfg) (se_key_secret cfg) now k db = Inr c"
    using may by (simp_all add: may_check_out_def)
  have pub: "or_public_id r = oid" using order_or_404_of[OF m(1)] by simp
  obtain src where "source_of_gateway (cn_gateway c) = Inr src" using collection_has_source[OF m(5)] by blast
  from open_checkout_shape[OF rid(1) this rid(2) pos ok, of "us_id u" PRINT_ORDER "Some k" "cn_collecting_user_id c" "Some (or_id r)" None]
  obtain p db' where o: "open_checkout rz (us_id u) PRINT_ORDER (or_total_inr r) (or_public_id r) (Some k) (cn_credentials c) (cn_gateway c)
      (cn_collecting_user_id c) (Some (or_id r)) None db = Inr (p, db')"
    "books_ok db'" "payments db' = payments db @ [p]" "py_kind p = PRINT_ORDER" "py_order_id p = Some (or_id r)" "py_status p = CREATED"
    "py_razorpay_order_id p = Some rid" "py_collecting_user_id p = cn_collecting_user_id c"
    "py_amount_inr p = as_money (or_total_inr r)" "\<exists>d. db' = db\<lparr>drawn := d, payments := payments db @ [p]\<rparr>"
    by metis
  have "open_gateway_checkout rz box cfg u oid now db
      = Inr (\<lparr>ck_razorpay_order_id = Some rid, ck_razorpay_key_id = rz_key_id (cn_credentials c),
              ck_amount_inr = as_money (or_total_inr r), ck_order_id = oid\<rparr>, db')"
    using m o(1,7,9) by (simp add: open_gateway_checkout_def pub)
  then show ?thesis using o by (intro that[of db' p]) auto
qed

text \<open>
  C35. The route that opens a checkout does not look at the clock: an order whose twenty minutes
  are over, and which the sweep has not reached, is still given a Razorpay order to pay. Any genuine
  capture of that checkout is then refused as expired, for as long as Razorpay delivers it, and the
  money stays unrecorded.
\<close>

theorem an_expired_order_can_be_charged:
  fixes db :: "'a orders_db_scheme"
  assumes ok: "books_ok db" "orders_ok db" and may: "may_check_out box cfg u oid now r k c db"
    and gone: "or_expires_at r = Some e" "e \<le> now"
    and rid: "rg_create_order rz (to_paise (as_money (or_total_inr r))) (or_public_id r) (cn_credentials c) = Inr rid"
      "\<forall>q \<in> set (payments db). py_razorpay_order_id q \<noteq> Some rid" and pos: "0 < as_money (or_total_inr r)"
  shows "\<exists>resp p db'. open_gateway_checkout rz box cfg u oid now db = Inr (resp, db') \<and> ck_razorpay_order_id resp = Some rid
    \<and> p \<in> set (payments db') \<and> py_razorpay_order_id p = Some rid \<and> py_status p = CREATED
    \<and> (\<forall>mac parse body sg secret sink pid t. now \<le> t \<longrightarrow> capture_of mac parse body sg secret p pid
        \<longrightarrow> (\<forall>q \<in> set (payments db'). py_id q \<noteq> py_id p \<longrightarrow> py_razorpay_payment_id q \<noteq> Some pid)
        \<longrightarrow> handle_webhook mac parse body sg secret (webhook_settlement t) sink (py_collecting_user_id p) t db'
              = Inl (Conflict ORDER_EXPIRED))"
proof -
  obtain p db' where o: "open_gateway_checkout rz box cfg u oid now db
      = Inr (\<lparr>ck_razorpay_order_id = Some rid, ck_razorpay_key_id = rz_key_id (cn_credentials c),
              ck_amount_inr = as_money (or_total_inr r), ck_order_id = oid\<rparr>, db')"
    "books_ok db'" "payments db' = payments db @ [p]" "py_kind p = PRINT_ORDER" "py_order_id p = Some (or_id r)"
    "py_status p = CREATED" "py_razorpay_order_id p = Some rid" "orders db' = orders db" "order_items db' = order_items db"
    by (rule checkout_shape[OF ok(1) may rid pos])
  have p: "p \<in> set (payments db')" by (simp add: o(3))
  have "order_or_404 u oid db = Inr r" "or_state r = AWAITING_PAYMENT" using may by (simp_all add: may_check_out_def)
  then have r: "r \<in> set (orders db')" and late: "require_payable r t = Inl (Conflict ORDER_EXPIRED)" if "now \<le> t" for t
    using order_or_404_of gone that by (auto simp: o(8) require_payable_def SETTLED_ORDER_STATES_def)
  have ok': "orders_ok db'" using ok(2) orders_ok_frame[OF o(8,9)] by simp
  have "handle_webhook mac parse body sg secret (webhook_settlement t) sink (py_collecting_user_id p) t db' = Inl (Conflict ORDER_EXPIRED)"
    if "now \<le> t" "capture_of mac parse body sg secret p pid"
      "\<forall>q \<in> set (payments db'). py_id q \<noteq> py_id p \<longrightarrow> py_razorpay_payment_id q \<noteq> Some pid" for mac parse body sg secret sink pid t
    using capture_settles_shape[OF o(2) ok' p r[OF that(1)] that(2,3) o(4,5), of t sink] late[OF that(1)] by simp
  then show ?thesis using o(1,6,7) p by (intro exI conjI allI impI) auto
qed

theorem an_expired_order_can_be_charged_witness:
  "\<exists>resp db'. open_gateway_checkout quiet_gateway toy_box card_settings student_example ''ord_0000000000000000'' 200 card_example = Inr (resp, db')
     \<and> ck_razorpay_order_id resp = Some ''order''"
proof -
  have "or_payment_method card_order = Some BY_GATEWAY" "or_state card_order = AWAITING_PAYMENT"
    "or_expires_at card_order = Some 100" "as_money (or_total_inr card_order) = 6"
    "rg_create_order quiet_gateway a b d = Inr ''order''" for a b d
    using is_money_of_int[of 6] by (simp_all add: card_order_def order_example_def quiet_gateway_def)
  moreover have "\<forall>q \<in> set (payments card_example). py_razorpay_order_id q \<noteq> Some ''order''"
    by (simp add: card_example_def card_payment_def open_payment_example_def owner_payment_example_def)
  ultimately show ?thesis
    using an_expired_order_can_be_charged[OF card_example_ok(1,2), of toy_box card_settings student_example "''ord_0000000000000000''" 200
      card_order kiosk_example _ 100 quiet_gateway "''order''"] card_example_ok(4,10,11)
    by (simp add: may_check_out_def) blast
qed

section \<open>Today's keys\<close>

text \<open>
  (Property). The callback is checked under the keys the shop collects with now, and asks whether it
  collects at all before it looks at what was captured. A callback that is genuine under the keys of the
  account which took the money is refused when the shop has been closed since, though the payment may
  already be captured and its order paid, and refused as a forgery when the keys have been replaced.
\<close>

theorem callback_judged_by_todays_keys:
  assumes r: "order_or_404 u oid db = Inr r" and p: "payment_for_razorpay_order (vr_razorpay_order_id cb) db = Some p"
    and b: "py_order_id p = Some (or_id r)" and k: "kiosk_by_internal_id UNRESTRICTED (or_kiosk_id r) db = Inr k"
    and took: "credentials_for_payment box (se_key_id cfg) (se_key_secret cfg) p db = Inr creds"
      "genuine mac p cb (rz_key_secret creds)"
  shows "(kiosk_payment_gate now db k = CLOSED \<longrightarrow> verify mac box cfg u oid cb now db = Inl (BadRequest KIOSK_CLOSED))
    \<and> (\<forall>c. credentials_for box (se_key_id cfg) (se_key_secret cfg) now k db = Inr c \<and> py_status p \<noteq> CAPTURED
           \<and> verify_payment_signature mac (vr_razorpay_order_id cb) (vr_razorpay_payment_id cb) (Some (vr_razorpay_signature cb))
                (rz_key_secret (cn_credentials c)) = Inr False
        \<longrightarrow> verify mac box cfg u oid cb now db = Inl (BadRequest BAD_SIGNATURE))"
proof (intro conjI allI impI)
  assume "kiosk_payment_gate now db k = CLOSED"
  then show "verify mac box cfg u oid cb now db = Inl (BadRequest KIOSK_CLOSED)"
    using r p b k by (simp add: verify_def credentials_for_def)
next
  fix c assume c: "credentials_for box (se_key_id cfg) (se_key_secret cfg) now k db = Inr c \<and> py_status p \<noteq> CAPTURED
    \<and> verify_payment_signature mac (vr_razorpay_order_id cb) (vr_razorpay_payment_id cb) (Some (vr_razorpay_signature cb))
        (rz_key_secret (cn_credentials c)) = Inr False"
  with took(2) verify_found[OF r p b k, of box cfg now c mac] show "verify mac box cfg u oid cb now db = Inl (BadRequest BAD_SIGNATURE)"
    by (simp add: confirm_payment_def genuine_def)
qed

definition lapsed_example :: orders_db where
  "lapsed_example = orders_blank\<lparr>kiosks := [owned_kiosk], payment_configs := [config_example],
     payments := [owner_payment_example\<lparr>py_razorpay_payment_id := Some ''pay_7''\<rparr>],
     orders := [card_order\<lparr>or_state := PAID\<rparr>], order_items := [item_example]\<rparr>"

definition owners_callback :: verify_request where
  "owners_callback = \<lparr>vr_razorpay_order_id = ''order_1'', vr_razorpay_payment_id = ''pay_7'',
     vr_razorpay_signature = ''mac:secret:order_1|pay_7''\<rparr>"

theorem callback_judged_by_todays_keys_witness:
  "verify toy_mac toy_box card_settings student_example ''ord_0000000000000000'' owners_callback 9 lapsed_example
     = Inl (BadRequest KIOSK_CLOSED)"
proof -
  let ?r = "card_order\<lparr>or_state := PAID\<rparr>" and ?p = "owner_payment_example\<lparr>py_razorpay_payment_id := Some ''pay_7''\<rparr>"
  have t: "payments lapsed_example = [?p]" "kiosks lapsed_example = [owned_kiosk]" "payment_configs lapsed_example = [config_example]"
    "orders lapsed_example = [?r]" "kiosk_assignments lapsed_example = []" "users lapsed_example = []"
    by (simp_all add: lapsed_example_def orders_blank_def)
  have "\<exists>x. parse_id ''ord_0000000000000000'' ORDER = Inr x" using card_example_ok(4) by (simp add: order_or_404_Inr)
  then have r: "order_or_404 student_example ''ord_0000000000000000'' lapsed_example = Inr ?r"
    by (simp add: order_or_404_Inr order_for_def t) (simp add: student_example_def user_example_def card_order_def order_example_def)
  have p: "payment_for_razorpay_order (vr_razorpay_order_id owners_callback) lapsed_example = Some ?p"
    by (simp add: payment_for_razorpay_order_def t owners_callback_def owner_payment_example_def)
  have b: "py_order_id ?p = Some (or_id ?r)" by (simp add: owner_payment_example_def card_order_def order_example_def)
  have kt: "ki_type owned_kiosk \<in> OWNER_COLLECTS" "ki_id owned_kiosk = 1"
    by (simp_all add: owned_kiosk_def kiosk_example_def OWNER_COLLECTS_def)
  have k: "kiosk_by_internal_id UNRESTRICTED (or_kiosk_id ?r) lapsed_example = Inr owned_kiosk"
    by (simp add: kiosk_by_internal_id_def kiosk_row_def t card_order_def order_example_def UNRESTRICTED_def kt row_by_def allows_def)
  have took: "credentials_for_payment toy_box (se_key_id card_settings) (se_key_secret card_settings) ?p lapsed_example
      = Inr \<lparr>rz_key_id = ''rzp_live_x'', rz_key_secret = ''secret''\<rparr>"
    by (simp add: credentials_for_payment_def get_config_def t) code_simp
  have "verify_payment_signature toy_mac ''order_1'' ''pay_7'' (Some ''mac:secret:order_1|pay_7'') ''secret'' = Inr True" by code_simp
  then have g: "genuine toy_mac ?p owners_callback (rz_key_secret \<lparr>rz_key_id = ''rzp_live_x'', rz_key_secret = ''secret''\<rparr>)"
    by (simp add: genuine_def owners_callback_def owner_payment_example_def)
  have "kiosk_payment_gate 9 lapsed_example owned_kiosk = CLOSED"
    using kt(1) by (simp add: kiosk_payment_gate_def owner_of_def staffed_def t)
  then show ?thesis using callback_judged_by_todays_keys[OF r p b k took g, of 9] by simp
qed

end
