(* ===== verification/DeviceApi.thy ===== *)
theory DeviceApi
  imports StudentApi Jobs
begin

text \<open>
  What the machine in a shop and the people who fill its tray can ask for: \<^verbatim>\<open>api/device/agent.py\<close>
  (enrolment and the heartbeat), \<^verbatim>\<open>commands.py\<close> (commands and the health of the printer), \<^verbatim>\<open>tasks.py\<close>
  (work, its file and its outcome) and \<^verbatim>\<open>api/refiller/kiosks.py\<close>. A request of a machine names no shop:
  the machine its token belongs to is an argument, and the shop is that machine's.
\<close>

section \<open>Enrolling and being alive\<close>

record device_register_request =
  dr_enrolment_code :: string
  dr_device_key :: "string option"
  dr_agent_version :: "string option"
  dr_capabilities :: "string option"

record device_register_response =
  ds_device_key :: string
  ds_token :: string
  ds_kiosk_id :: string
  ds_kiosk_name :: string

definition register_machine ::
  "crypto \<Rightarrow> device_register_request \<Rightarrow> datetime \<Rightarrow> 'a kiosks_db_scheme \<Rightarrow>
   (device_register_response \<times> 'a kiosks_db_scheme) result" where
  "register_machine cr payload now db =
     bind_res (register_device cr (dr_enrolment_code payload) (dr_device_key payload) (dr_agent_version payload)
                 (dr_capabilities payload) now db) (\<lambda>(issued, db1).
     bind_res (kiosk_of_device (id_device issued) db1) (\<lambda>k.
       Inr (\<lparr>ds_device_key = kd_device_key (id_device issued), ds_token = id_token issued,
             ds_kiosk_id = ki_public_id k, ds_kiosk_name = ki_name k\<rparr>, db1)))"

fun device_status_value :: "device_status \<Rightarrow> string" where
  "device_status_value DEV_OFFLINE = ''offline''"
| "device_status_value DEV_ONLINE = ''online''"
| "device_status_value DEV_PRINTING = ''printing''"
| "device_status_value DEV_ERROR = ''error''"

definition status_from :: "string option \<Rightarrow> device_status result" where
  "status_from raw =
     (case raw of
        None \<Rightarrow> Inr DEV_ONLINE
      | Some s \<Rightarrow>
          (case find (\<lambda>st. device_status_value st = lower (strip s)) [DEV_OFFLINE, DEV_ONLINE, DEV_PRINTING, DEV_ERROR] of
             Some st \<Rightarrow> Inr st
           | None \<Rightarrow> Inl (BadRequest (py_repr s @ '' is not a device status. Use one of: offline, online, printing, error.''))))"

record heartbeat_request =
  hb_agent_version :: "string option"
  hb_status :: "string option"
  hb_ssh_host :: "string option"
  hb_task_id :: "string option"

record heartbeat_response =
  hr_kiosk_id :: string
  hr_kiosk_name :: string
  hr_queue_depth :: nat
  hr_sheets_remaining :: int
  hr_paper_capacity :: int

definition heartbeat ::
  "heartbeat_request \<Rightarrow> kiosk_device \<Rightarrow> datetime \<Rightarrow> 'a printing_db_scheme \<Rightarrow>
   (heartbeat_response \<times> 'a printing_db_scheme) result" where
  "heartbeat payload d now db =
     bind_res (status_from (hb_status payload)) (\<lambda>st.
       let (d', db1) = record_heartbeat d (hb_agent_version payload) (hb_ssh_host payload) st now db;
           db2 = (if truthy (hb_task_id payload)
                  then snd (renew_held_lease (kd_kiosk_id d') (the (hb_task_id payload)) now db1) else db1)
       in bind_res (kiosk_of_device d' db2) (\<lambda>k.
            let (remaining, db3) = sheets_remaining k db2;
                (capacity, db4) = tray_capacity k db3
            in Inr (\<lparr>hr_kiosk_id = ki_public_id k, hr_kiosk_name = ki_name k, hr_queue_depth = queue_depth (ki_id k) db2,
                     hr_sheets_remaining = remaining, hr_paper_capacity = capacity\<rparr>, db4)))"

section \<open>Commands and the health of the printer\<close>

definition next_commands ::
  "kiosk_device \<Rightarrow> datetime \<Rightarrow> 'a kiosks_db_scheme \<Rightarrow> device_command list \<times> 'a kiosks_db_scheme" where
  "next_commands d now db = claim_commands d now db"

definition report_result ::
  "string \<Rightarrow> bool \<Rightarrow> string option \<Rightarrow> kiosk_device \<Rightarrow> datetime \<Rightarrow> 'a kiosks_db_scheme \<Rightarrow>
   (device_command \<times> 'a kiosks_db_scheme) result" where
  "report_result command_id succeeded error_message d now db = report_command d command_id succeeded error_message now db"

definition stuck_key :: "kiosk \<Rightarrow> string" where
  "stuck_key k = ''printer-stuck:'' @ ki_public_id k"

definition raise_stuck :: "kiosk \<Rightarrow> string option \<Rightarrow> datetime \<Rightarrow> 'a ops_db_scheme \<Rightarrow> 'a ops_db_scheme" where
  "raise_stuck k detail now db =
     snd (raise_alert ''kiosk.printer_stuck'' CRITICAL (ki_name k @ '' cannot finish a print job and has been closed.'')
            (stuck_key k) (Some ''kiosk'') (Some (ki_public_id k))
            (if truthy detail then Some (PDict [(''reported'', PStr (the detail))]) else None) now db)"

definition printer_health ::
  "bool \<Rightarrow> string option \<Rightarrow> kiosk_device \<Rightarrow> datetime \<Rightarrow> 'a payments_db_scheme \<Rightarrow> 'a payments_db_scheme result" where
  "printer_health stuck detail d now db =
     bind_res (kiosk_of_device d db) (\<lambda>k.
       if stuck then
         bind_res (report_stuck (gate_billing now) d k now db) (\<lambda>(closed, _, k', db1).
           Inr (if closed then raise_stuck k' detail now db1 else db1))
       else
         bind_res (report_recovered (gate_billing now) d k db) (\<lambda>(reopened, _, _, db1).
           Inr (if reopened then snd (resolve_by_key (stuck_key k) now db1) else db1)))"

section \<open>Work\<close>

record device_task_response =
  dt_task_id :: string
  dt_document_id :: string
  dt_filename :: string
  dt_file_url :: string
  dt_page_count :: "int option"
  dt_copies :: int
  dt_duplex :: bool
  dt_colour :: bool
  dt_page_range :: "string option"
  dt_expected_sheets :: int
  dt_lease_expires_at :: "datetime option"

definition device_task_of :: "print_task \<Rightarrow> document \<Rightarrow> device_task_response" where
  "device_task_of t d =
     \<lparr>dt_task_id = tk_public_id t, dt_document_id = do_public_id d, dt_filename = do_original_filename d,
      dt_file_url = ''/v1/device/tasks/'' @ tk_public_id t @ ''/file'', dt_page_count = do_page_count d,
      dt_copies = tk_copies t, dt_duplex = tk_duplex t, dt_colour = tk_colour t, dt_page_range = tk_page_range t,
      dt_expected_sheets = tk_predicted_sheets t, dt_lease_expires_at = tk_lease_expires_at t\<rparr>"

text \<open>\<open>locked\<close> are the rows other claims hold at that moment, which this one skips.\<close>

definition next_task ::
  "nat set \<Rightarrow> kiosk_device \<Rightarrow> datetime \<Rightarrow> 'a printing_db_scheme \<Rightarrow>
   (device_task_response option \<times> 'a printing_db_scheme) result" where
  "next_task locked d now db =
     (case claim_next_task locked (kd_kiosk_id d) now db of
        (None, db1) \<Rightarrow> Inr (None, db1)
      | (Some t, db1) \<Rightarrow> bind_res (document_of t db1) (\<lambda>doc. Inr (Some (device_task_of t doc), db1)))"

definition NO_LONGER_HELD :: string where
  "NO_LONGER_HELD = ''This kiosk is not currently printing that job.''"

definition FILE_MISSING :: string where
  "FILE_MISSING = ''That document's file is missing. Please ask the student to upload it again.''"

definition task_file :: "place \<Rightarrow> string \<Rightarrow> kiosk_device \<Rightarrow> files \<Rightarrow> 'a printing_db_scheme \<Rightarrow> string result" where
  "task_file base task_id d fs db =
     bind_res (task_for_kiosk (kd_kiosk_id d) task_id db) (\<lambda>t.
       if tk_state t \<noteq> SENT_TO_DEVICE \<and> tk_state t \<noteq> TASK_PRINTING then Inl (Conflict NO_LONGER_HELD)
       else
         bind_res (document_of t db) (\<lambda>doc.
         bind_res (printable_key doc) (\<lambda>key.
         bind_res (path_of base key) (\<lambda>p.
           case fs p of None \<Rightarrow> Inl (NotFound FILE_MISSING) | Some contents \<Rightarrow> Inr contents))))"

definition REPORTABLE :: "task_state set" where
  "REPORTABLE = {TASK_PRINTING, PRINTED, TASK_FAILED, BLOCKED}"

definition unreportable :: "string \<Rightarrow> string" where
  "unreportable raw = py_repr raw @ '' is not something a kiosk can report. Use one of: blocked, failed, printed, printing.''"

definition reported_state :: "string \<Rightarrow> task_state result" where
  "reported_state raw =
     (case find (\<lambda>st. task_state_value st = lower (strip raw))
             [QUEUED, SENT_TO_DEVICE, TASK_PRINTING, PRINTED, TASK_FAILED, BLOCKED, CANCELLED] of
        None \<Rightarrow> Inl (BadRequest (unreportable raw))
      | Some st \<Rightarrow> if st \<notin> REPORTABLE then Inl (BadRequest (unreportable raw)) else Inr st)"

record task_status_request =
  ts_state :: string
  ts_sheets_used :: "int option"
  ts_error_code :: "string option"
  ts_error_message :: "string option"

definition report_status ::
  "string \<Rightarrow> task_status_request \<Rightarrow> kiosk_device \<Rightarrow> datetime \<Rightarrow> 'a orders_db_scheme \<Rightarrow>
   (device_task_response \<times> 'a orders_db_scheme) result" where
  "report_status task_id payload d now db =
     bind_res (task_for_kiosk (kd_kiosk_id d) task_id db) (\<lambda>t.
     bind_res (reported_state (ts_state payload)) (\<lambda>st.
     bind_res (kiosk_of_device d db) (\<lambda>k.
     bind_res
       (if st = TASK_PRINTING then start_printing order_progress t now db
        else if st = PRINTED then
          report_printed (kiosk_paper_ledger k) order_progress t (ts_sheets_used payload) now db
        else if st = TASK_FAILED then
          report_failed (kiosk_paper_ledger k) order_progress t (ts_sheets_used payload) (ts_error_code payload)
            (ts_error_message payload) now db
        else report_blocked t (if truthy (ts_error_code payload) then the (ts_error_code payload) else ''BLOCKED'')
            (ts_error_message payload) now db)
       (\<lambda>(t', db1). bind_res (document_of t' db1) (\<lambda>doc. Inr (device_task_of t' doc, db1))))))"

section \<open>The round of a refiller\<close>

record paper_response =
  pa_capacity :: int
  pa_sheets_remaining :: int

record refiller_kiosk =
  fk_id :: string
  fk_name :: string
  fk_location :: "string option"
  fk_is_active :: bool
  fk_paper :: paper_response

text \<open>A tray without a row has the capacity a row would be made with.\<close>

definition paper_of :: "kiosk \<Rightarrow> 'a kiosks_db_scheme \<Rightarrow> paper_response \<times> 'a kiosks_db_scheme" where
  "paper_of k db =
     (let capacity = (case row_by kp_kiosk_id (kiosk_papers db) (ki_id k) of Some p \<Rightarrow> kp_capacity p | None \<Rightarrow> 250);
          (remaining, db1) = sheets_remaining k db
      in (\<lparr>pa_capacity = capacity, pa_sheets_remaining = remaining\<rparr>, db1))"

definition refiller_kiosk_of :: "kiosk \<Rightarrow> 'a kiosks_db_scheme \<Rightarrow> refiller_kiosk \<times> 'a kiosks_db_scheme" where
  "refiller_kiosk_of k db =
     (let (paper, db1) = paper_of k db
      in (\<lparr>fk_id = ki_public_id k, fk_name = ki_name k, fk_location = ki_location k, fk_is_active = ki_is_active k,
           fk_paper = paper\<rparr>, db1))"

text \<open>What the router does before its own work: the role, the scope, the shop within it.\<close>

definition refiller_route :: "user \<Rightarrow> string \<Rightarrow> 'a kiosks_db_scheme \<Rightarrow> kiosk result" where
  "refiller_route u kiosk_id db =
     bind_res (require_any_role {REFILLER, ADMIN} u db) (\<lambda>_. get_kiosk (kiosk_scope u db) kiosk_id db)"

definition my_rounds :: "user \<Rightarrow> 'a kiosks_db_scheme \<Rightarrow> (refiller_kiosk list \<times> 'a kiosks_db_scheme) result" where
  "my_rounds u db =
     bind_res (require_any_role {REFILLER, ADMIN} u db) (\<lambda>_.
       Inr (each_shop refiller_kiosk_of (list_kiosks (kiosk_scope u db) False db) db))"

definition kiosk_detail :: "user \<Rightarrow> string \<Rightarrow> 'a kiosks_db_scheme \<Rightarrow> (refiller_kiosk \<times> 'a kiosks_db_scheme) result" where
  "kiosk_detail u kiosk_id db = bind_res (refiller_route u kiosk_id db) (\<lambda>k. Inr (refiller_kiosk_of k db))"

definition get_paper :: "user \<Rightarrow> string \<Rightarrow> 'a kiosks_db_scheme \<Rightarrow> (paper_response \<times> 'a kiosks_db_scheme) result" where
  "get_paper u kiosk_id db = bind_res (refiller_route u kiosk_id db) (\<lambda>k. Inr (paper_of k db))"

definition update_paper ::
  "user \<Rightarrow> string \<Rightarrow> int option \<Rightarrow> int option \<Rightarrow> string option \<Rightarrow> 'a kiosks_db_scheme \<Rightarrow>
   (paper_response \<times> 'a kiosks_db_scheme) result" where
  "update_paper u kiosk_id capacity sheets_left note db =
     bind_res (refiller_route u kiosk_id db) (\<lambda>k.
     bind_res (set_paper k capacity sheets_left (Some (us_id u)) note db) (\<lambda>(_, db1). Inr (paper_of k db1)))"

definition refill :: "user \<Rightarrow> string \<Rightarrow> 'a kiosks_db_scheme \<Rightarrow> (paper_response \<times> 'a kiosks_db_scheme) result" where
  "refill u kiosk_id db =
     bind_res (refiller_route u kiosk_id db) (\<lambda>k.
       let (_, db1) = reset_paper k (Some (us_id u)) db in Inr (paper_of k db1))"

definition report_empty :: "user \<Rightarrow> string \<Rightarrow> 'a kiosks_db_scheme \<Rightarrow> (paper_response \<times> 'a kiosks_db_scheme) result" where
  "report_empty u kiosk_id db =
     bind_res (refiller_route u kiosk_id db) (\<lambda>k.
     bind_res (mark_out_of_paper k (Some (us_id u)) db) (\<lambda>(_, db1). Inr (paper_of k db1)))"

definition refill_logs :: "user \<Rightarrow> string \<Rightarrow> int \<Rightarrow> 'a kiosks_db_scheme \<Rightarrow> paper_refill_log list result" where
  "refill_logs u kiosk_id limit db =
     bind_res (refiller_route u kiosk_id db) (\<lambda>k. Inr (list_refill_logs k limit db))"

section \<open>What a machine can reach\<close>

text \<open>
  What a report about the print \<open>t\<close> at the shop \<open>k\<close> may write, out of the whole database: the row of
  \<open>t\<close>, the tray of \<open>k\<close> and its two logs, and the state of one order of \<open>k\<close> in flight that holds the
  document of \<open>t\<close>, which becomes what its prints say.
\<close>

definition its_order :: "kiosk \<Rightarrow> print_task \<Rightarrow> order \<Rightarrow> 'a orders_db_scheme \<Rightarrow> bool" where
  "its_order k t r db \<longleftrightarrow> r \<in> set (orders db) \<and> or_kiosk_id r = ki_id k \<and> or_state r \<in> {PAID, DISPATCHED}
     \<and> (\<exists>x \<in> set (order_items db). oi_order_id x = or_id r \<and> oi_document_id x = Some (tk_document_id t))"

definition follows_its_prints :: "kiosk \<Rightarrow> print_task \<Rightarrow> 'a orders_db_scheme \<Rightarrow> print_task list \<Rightarrow> order list \<Rightarrow> bool" where
  "follows_its_prints k t db ts os \<longleftrightarrow> os = orders db
     \<or> (\<exists>r. its_order k t r db \<and> os = put_row or_id (r\<lparr>or_state :=
          state_from_prints (task_states_at (documents_of_order r db) (ki_id k) (or_created_at r) (db\<lparr>print_tasks := ts\<rparr>))\<rparr>) (orders db))"

definition tray_written :: "kiosk \<Rightarrow> kiosk_paper list \<Rightarrow> kiosk_paper list \<Rightarrow> paper_refill_log list \<Rightarrow> audit_entry list \<Rightarrow> bool" where
  "tray_written k ps ps' ls as \<longleftrightarrow> filter (\<lambda>p. kp_kiosk_id p \<noteq> ki_id k) ps' = filter (\<lambda>p. kp_kiosk_id p \<noteq> ki_id k) ps
     \<and> (\<forall>l \<in> set ls. pl_kiosk_id l = ki_id k)
     \<and> (\<forall>e \<in> set as. au_entity_type e = ''kiosk'' \<and> au_entity_id e = Some (ki_public_id k))"

definition only_at :: "kiosk \<Rightarrow> print_task \<Rightarrow> 'a orders_db_scheme \<Rightarrow> 'a orders_db_scheme \<Rightarrow> bool" where
  "only_at k t db db' \<longleftrightarrow> (\<exists>t' ts ps ls as os. moved_row t t' \<and> ts = put_row tk_id t' (print_tasks db)
     \<and> tray_written k (kiosk_papers db) ps ls as \<and> follows_its_prints k t db ts os
     \<and> db' = db\<lparr>print_tasks := ts, kiosk_papers := ps, paper_refill_logs := paper_refill_logs db @ ls,
                audit_log := audit_log db @ as, orders := os\<rparr>)"

lemma filter_put_row: "key r = i \<Longrightarrow> filter (\<lambda>p. key p \<noteq> i) (put_row key r rows) = filter (\<lambda>p. key p \<noteq> i) rows"
  by (induction rows) auto

lemma paper_row_effect:
  "\<exists>p ps. paper_row k db = (p, db\<lparr>kiosk_papers := ps\<rparr>) \<and> kp_kiosk_id p = ki_id k
     \<and> filter (\<lambda>p. kp_kiosk_id p \<noteq> ki_id k) ps = filter (\<lambda>p. kp_kiosk_id p \<noteq> ki_id k) (kiosk_papers db)"
proof (cases "row_by kp_kiosk_id (kiosk_papers db) (ki_id k)")
  case None
  then show ?thesis by (auto simp: paper_row_def Let_def)
next
  case (Some p)
  then have "paper_row k db = (p, db\<lparr>kiosk_papers := kiosk_papers db\<rparr>)" by (simp add: paper_row_def)
  with row_by_SomeD[OF Some] show ?thesis by blast
qed

lemma consume_writes:
  assumes "consume_paper k p a r db = Inr (n, db')" and q: "paper_row k db = (q, db\<lparr>kiosk_papers := qs\<rparr>)" "kp_kiosk_id q = ki_id k"
  shows "\<exists>q' l e. kp_kiosk_id q' = ki_id k \<and> pl_kiosk_id l = ki_id k \<and> au_entity_type e = ''kiosk'' \<and> au_entity_id e = Some (ki_public_id k)
    \<and> db' = db\<lparr>kiosk_papers := put_row kp_kiosk_id q' qs, paper_refill_logs := paper_refill_logs db @ [l], audit_log := audit_log db @ [e]\<rparr>"
proof -
  let ?q = "q\<lparr>kp_used := min (kp_capacity q) (kp_used q + (case a of Some a \<Rightarrow> a | None \<Rightarrow> p))\<rparr>"
  have "kp_kiosk_id ?q = ki_id k" using q(2) by simp
  then show ?thesis using assms(1)
    by (auto simp: consume_paper_def bind_res_Inr_iff Let_def q(1) log_paper_def record_audit_def save_paper_def
        intro!: exI[of _ ?q] exI[where x = "\<lparr>pl_id = _, pl_kiosk_id = ki_id k, pl_actor_user_id = _, pl_sheets_added = _,
          pl_capacity_at_change = _, pl_used_before_change = _, pl_note = _, pl_created_at = _\<rparr>"]
        exI[where x = "\<lparr>au_id = _, au_actor_user_id = _, au_action = _, au_entity_type = ''kiosk'', au_entity_id = Some (ki_public_id k),
          au_before = _, au_after = _, au_note = _, au_created_at = _\<rparr>"])
qed

lemma ledger_effect:
  assumes "kiosk_paper_ledger k j p a r db = Inr db'"
  shows "\<exists>ps ls as. db' = db\<lparr>kiosk_papers := ps, paper_refill_logs := paper_refill_logs db @ ls, audit_log := audit_log db @ as\<rparr>
    \<and> tray_written k (kiosk_papers db) ps ls as"
proof -
  obtain q qs where q: "paper_row k db = (q, db\<lparr>kiosk_papers := qs\<rparr>)" "kp_kiosk_id q = ki_id k"
    "filter (\<lambda>p. kp_kiosk_id p \<noteq> ki_id k) qs = filter (\<lambda>p. kp_kiosk_id p \<noteq> ki_id k) (kiosk_papers db)"
    using paper_row_effect by blast
  obtain n where "consume_paper k p a (Some r) db = Inr (n, db')"
    using assms by (auto simp: kiosk_paper_ledger_def bind_res_Inr_iff split: if_splits)
  then have "\<exists>q' l e. kp_kiosk_id q' = ki_id k \<and> pl_kiosk_id l = ki_id k \<and> au_entity_type e = ''kiosk'' \<and> au_entity_id e = Some (ki_public_id k)
    \<and> db' = db\<lparr>kiosk_papers := put_row kp_kiosk_id q' qs, paper_refill_logs := paper_refill_logs db @ [l], audit_log := audit_log db @ [e]\<rparr>"
    by (rule consume_writes[OF _ q(1,2)])
  then obtain q' l e where w: "kp_kiosk_id q' = ki_id k" "pl_kiosk_id l = ki_id k" "au_entity_type e = ''kiosk''" "au_entity_id e = Some (ki_public_id k)"
    "db' = db\<lparr>kiosk_papers := put_row kp_kiosk_id q' qs, paper_refill_logs := paper_refill_logs db @ [l], audit_log := audit_log db @ [e]\<rparr>" by blast
  then have "tray_written k (kiosk_papers db) (put_row kp_kiosk_id q' qs) [l] [e]"
    using q(3) by (simp add: tray_written_def filter_put_row)
  with w(5) show ?thesis by blast
qed

lemma order_in_flight_its:
  assumes "x \<in> set (order_in_flight (tk_document_id t) (ki_id k) db)" and "order_row (oi_order_id x) db = Some r"
  shows "its_order k t r db"
proof -
  have x: "x \<in> set (order_items db)" "oi_document_id x = Some (tk_document_id t)" "or_kiosk_id r = ki_id k" "or_state r \<in> {PAID, DISPATCHED}"
    using assms by (auto simp: order_in_flight_def)
  moreover have "r \<in> set (orders db)" "or_id r = oi_order_id x" using row_by_SomeD assms(2) by (fastforce simp: order_row_def)+
  ultimately show ?thesis unfolding its_order_def by metis
qed

lemma progress_effect:
  assumes "tk_document_id u = tk_document_id t" and "tk_kiosk_id u = ki_id k"
  shows "\<exists>os. order_progress u db = db\<lparr>orders := os\<rparr> \<and> follows_its_prints k t db (print_tasks db) os"
proof -
  have same: "\<exists>os. db = db\<lparr>orders := os\<rparr> \<and> follows_its_prints k t db (print_tasks db) os"
    by (rule exI[of _ "orders db"]) (simp add: follows_its_prints_def)
  show ?thesis
  proof (cases "order_in_flight (tk_document_id u) (tk_kiosk_id u) db")
    case Nil
    with same show ?thesis by (simp add: order_progress_def refresh_order_state_def)
  next
    case (Cons x xs)
    show ?thesis
    proof (cases "order_row (oi_order_id x) db")
      case None
      with Cons same show ?thesis by (simp add: order_progress_def refresh_order_state_def)
    next
      case (Some r)
      have its: "its_order k t r db" by (rule order_in_flight_its[OF _ Some]) (use Cons assms in simp)
      then have at: "or_kiosk_id r = ki_id k" by (simp add: its_order_def)
      define states where "states = task_states_at (documents_of_order r db) (ki_id k) (or_created_at r) db"
      have "order_progress u db = (if states = [] then db else save_order (r\<lparr>or_state := state_from_prints states\<rparr>) db)"
        using Cons Some by (simp add: order_progress_def refresh_order_state_def derive_from_prints_def Let_def at states_def)
      moreover have "follows_its_prints k t db (print_tasks db) (put_row or_id (r\<lparr>or_state := state_from_prints states\<rparr>) (orders db))"
        unfolding follows_its_prints_def states_def using its by auto
      ultimately show ?thesis using same unfolding save_order_def by (cases "states = []") auto
    qed
  qed
qed

lemma follows_elsewhere:
  "follows_its_prints k t (db\<lparr>print_tasks := ts, kiosk_papers := ps, paper_refill_logs := ls, audit_log := as\<rparr>) ts os
     \<longleftrightarrow> follows_its_prints k t db ts os"
  by (simp add: follows_its_prints_def its_order_def task_states_at_def documents_of_order_def items_of_def)

lemma only_at_steps:
  assumes t: "moved_row t t'" "tk_kiosk_id t = ki_id k" and l: "kiosk_paper_ledger k j p a r (save_task t' db) = Inr db1"
  shows "only_at k t db (order_progress t' db1)"
proof -
  let ?ts = "put_row tk_id t' (print_tasks db)"
  obtain ps ls as where w: "db1 = save_task t' db\<lparr>kiosk_papers := ps, paper_refill_logs := paper_refill_logs (save_task t' db) @ ls,
      audit_log := audit_log (save_task t' db) @ as\<rparr>" "tray_written k (kiosk_papers (save_task t' db)) ps ls as"
    using ledger_effect[OF l] by blast
  have db1: "db1 = db\<lparr>print_tasks := ?ts, kiosk_papers := ps, paper_refill_logs := paper_refill_logs db @ ls, audit_log := audit_log db @ as\<rparr>"
    unfolding w(1) by (simp add: save_task_def)
  obtain os where os: "order_progress t' db1 = db1\<lparr>orders := os\<rparr>" "follows_its_prints k t db1 (print_tasks db1) os"
    using progress_effect[of t' t k db1] t by (auto simp: moved_row_def)
  have "follows_its_prints k t db ?ts os" using os(2) unfolding db1 by (simp add: follows_elsewhere)
  moreover have "tray_written k (kiosk_papers db) ps ls as" using w(2) by (simp add: save_task_def)
  moreover have "order_progress t' db1 = db\<lparr>print_tasks := ?ts, kiosk_papers := ps, paper_refill_logs := paper_refill_logs db @ ls,
      audit_log := audit_log db @ as, orders := os\<rparr>" unfolding os(1) by (simp add: db1)
  ultimately show ?thesis unfolding only_at_def using t(1) by blast
qed

lemma only_at_start:
  assumes t: "moved_row t t'" "tk_kiosk_id t = ki_id k"
  shows "only_at k t db (order_progress t' (save_task t' db))"
proof -
  let ?s = "save_task t' db" and ?ts = "put_row tk_id t' (print_tasks db)"
  obtain os where os: "order_progress t' ?s = ?s\<lparr>orders := os\<rparr>" "follows_its_prints k t ?s ?ts os"
    using progress_effect[of t' t k ?s] t by (auto simp: moved_row_def save_task_def)
  have same: "?s = db\<lparr>print_tasks := ?ts, kiosk_papers := kiosk_papers db, paper_refill_logs := paper_refill_logs db @ [],
      audit_log := audit_log db @ []\<rparr>" by (simp add: save_task_def)
  have "follows_its_prints k t db ?ts os" using os(2) by (simp add: follows_its_prints_def its_order_def task_states_at_def documents_of_order_def items_of_def save_task_def)
  moreover have "order_progress t' ?s = db\<lparr>print_tasks := ?ts, kiosk_papers := kiosk_papers db, paper_refill_logs := paper_refill_logs db @ [],
      audit_log := audit_log db @ [], orders := os\<rparr>" unfolding os(1) by (simp add: save_task_def)
  moreover have "tray_written k (kiosk_papers db) (kiosk_papers db) [] []" by (simp add: tray_written_def)
  ultimately show ?thesis unfolding only_at_def using t(1) by blast
qed

lemma only_at_block:
  assumes "moved_row t t'"
  shows "only_at k t db (save_task t' db)"
proof -
  have "tray_written k (kiosk_papers db) (kiosk_papers db) [] []" by (simp add: tray_written_def)
  moreover have "follows_its_prints k t db ts (orders db)" for ts by (simp add: follows_its_prints_def)
  moreover have "save_task t' db = db\<lparr>print_tasks := put_row tk_id t' (print_tasks db), kiosk_papers := kiosk_papers db,
      paper_refill_logs := paper_refill_logs db @ [], audit_log := audit_log db @ [], orders := orders db\<rparr>" by (simp add: save_task_def)
  ultimately show ?thesis unfolding only_at_def using assms by blast
qed

lemma task_for_kiosk_InrD: "task_for_kiosk i pid db = Inr t \<Longrightarrow> t \<in> set (print_tasks db) \<and> tk_public_id t = pid \<and> tk_kiosk_id t = i"
  by (auto simp: task_for_kiosk_def split: sum.splits option.splits dest: first_where_SomeD)

lemma kiosk_of_device_InrD: "kiosk_of_device d db = Inr k \<Longrightarrow> kiosk_row (kd_kiosk_id d) db = Some k \<and> ki_id k = kd_kiosk_id d"
  by (auto simp: kiosk_of_device_def kiosk_row_def split: option.splits dest: row_by_SomeD)

lemma report_reaches:
  fixes db :: "'a orders_db_scheme"
  assumes "report_status task_id payload d now db = Inr (resp, db')"
  shows "\<exists>t \<in> set (print_tasks db). \<exists>k. kiosk_row (kd_kiosk_id d) db = Some k \<and> tk_public_id t = task_id \<and> tk_kiosk_id t = ki_id k
    \<and> ki_id k = kd_kiosk_id d \<and> tk_state t \<in> IN_HAND \<and> only_at k t db db'"
proof -
  from assms obtain t st k y where y: "task_for_kiosk (kd_kiosk_id d) task_id db = Inr t" "kiosk_of_device d db = Inr k"
    "(if st = TASK_PRINTING then start_printing order_progress t now db
      else if st = PRINTED then report_printed (kiosk_paper_ledger k) order_progress t (ts_sheets_used payload) now db
      else if st = TASK_FAILED then
        report_failed (kiosk_paper_ledger k) order_progress t (ts_sheets_used payload) (ts_error_code payload) (ts_error_message payload) now db
      else report_blocked t (if truthy (ts_error_code payload) then the (ts_error_code payload) else ''BLOCKED'')
          (ts_error_message payload) now db) = Inr y" "snd y = db'"
    unfolding report_status_def bind_res_Inr_iff by (auto simp: bind_res_Inr_iff case_prod_beta)
  have yy: "y = (fst y, db')" using y(4) by (metis prod.collapse)
  have k: "kiosk_row (kd_kiosk_id d) db = Some k" "ki_id k = kd_kiosk_id d" using kiosk_of_device_InrD[OF y(2)] by simp_all
  have t: "t \<in> set (print_tasks db)" "tk_public_id t = task_id" "tk_kiosk_id t = ki_id k" using task_for_kiosk_InrD[OF y(1)] k(2) by simp_all
  consider "start_printing order_progress t now db = Inr (fst y, db')"
    | "report_printed (kiosk_paper_ledger k) order_progress t (ts_sheets_used payload) now db = Inr (fst y, db')"
    | "report_failed (kiosk_paper_ledger k) order_progress t (ts_sheets_used payload) (ts_error_code payload) (ts_error_message payload) now db = Inr (fst y, db')"
    | "report_blocked t (if truthy (ts_error_code payload) then the (ts_error_code payload) else ''BLOCKED'') (ts_error_message payload) now db = Inr (fst y, db')"
    using y(3) yy by presburger
  then have "tk_state t \<in> IN_HAND \<and> only_at k t db db'"
  proof cases
    case 1
    from start_printing_shape[OF this] show ?thesis using only_at_start[OF _ t(3)] by blast
  next
    case 2
    from report_printed_shape[OF this] show ?thesis using only_at_steps[OF _ t(3)] by blast
  next
    case 3
    from report_failed_shape[OF this] show ?thesis using only_at_steps[OF _ t(3)] by blast
  next
    case 4
    from report_blocked_shape[OF this] show ?thesis using only_at_block by blast
  qed
  with t k show ?thesis by blast
qed

lemma next_reaches:
  assumes "next_task locked d now db = Inr (Some resp, db')"
  shows "\<exists>t \<in> set (print_tasks db). tk_kiosk_id t = kd_kiosk_id d \<and> tk_state t = QUEUED \<and> tk_id t \<notin> locked
    \<and> dt_task_id resp = tk_public_id t \<and> db' = db\<lparr>print_tasks := put_row tk_id (claimed_task now t) (print_tasks db)\<rparr>"
proof -
  obtain u doc where u: "claim_next_task locked (kd_kiosk_id d) now db = (Some u, db')" "resp = device_task_of u doc"
    using assms by (auto simp: next_task_def bind_res_Inr_iff split: prod.splits option.splits)
  from claim_SomeD[OF u(1)] u(2) show ?thesis
    by (auto simp: device_task_of_def claimed_task_def save_task_def)
qed

lemma nothing_claimed: "next_task locked d now db = Inr (None, db') \<Longrightarrow> db' = db"
  by (auto simp: next_task_def claim_next_task_def bind_res_Inr_iff Let_def split: list.splits)

lemma file_reaches:
  assumes "task_file base task_id d fs db = Inr contents"
  shows "\<exists>t \<in> set (print_tasks db). tk_public_id t = task_id \<and> tk_kiosk_id t = kd_kiosk_id d \<and> tk_state t \<in> IN_HAND
    \<and> (\<exists>doc key p. document_row (tk_document_id t) db = Some doc \<and> printable_key doc = Inr key
         \<and> path_of base key = Inr p \<and> fs p = Some contents)"
  using assms
  by (auto simp: task_file_def bind_res_Inr_iff document_of_def IN_HAND_def split: if_splits option.splits dest!: task_for_kiosk_InrD)

text \<open>
  C33. A machine reaches its own shop and nothing else. A report it makes is about a print of its own
  shop that is in its hands, and in the whole database it writes that print's row, the tray of that
  shop with its two logs, and the state of at most one order: one of that shop in flight that holds the print's
  document, which becomes what its prints then say. Asked for work it hands out nothing and writes
  nothing, or one print queued at that shop, whose row is all it writes. The file it is
  given is the stored copy of the document of a print in its hands, byte for byte.
\<close>

theorem a_machine_reaches_its_own_shop:
  fixes db :: "'a orders_db_scheme"
  shows "(case report_status task_id payload d now db of
      Inl _ \<Rightarrow> True
    | Inr (resp, db') \<Rightarrow> \<exists>t \<in> set (print_tasks db). \<exists>k. kiosk_row (kd_kiosk_id d) db = Some k \<and> tk_public_id t = task_id
        \<and> tk_kiosk_id t = ki_id k \<and> ki_id k = kd_kiosk_id d \<and> tk_state t \<in> IN_HAND \<and> only_at k t db db')
    \<and> (case next_task locked d now db of
      Inl _ \<Rightarrow> True
    | Inr (None, db') \<Rightarrow> db' = db
    | Inr (Some resp, db') \<Rightarrow> \<exists>t \<in> set (print_tasks db). tk_kiosk_id t = kd_kiosk_id d \<and> tk_state t = QUEUED \<and> tk_id t \<notin> locked
        \<and> dt_task_id resp = tk_public_id t \<and> db' = db\<lparr>print_tasks := put_row tk_id (claimed_task now t) (print_tasks db)\<rparr>)
    \<and> (case task_file base task_id d fs db of
      Inl _ \<Rightarrow> True
    | Inr contents \<Rightarrow> \<exists>t \<in> set (print_tasks db). tk_public_id t = task_id \<and> tk_kiosk_id t = kd_kiosk_id d \<and> tk_state t \<in> IN_HAND
        \<and> (\<exists>doc key p. document_row (tk_document_id t) db = Some doc \<and> printable_key doc = Inr key
             \<and> path_of base key = Inr p \<and> fs p = Some contents))"
proof (intro conjI)
  show "case report_status task_id payload d now db of
      Inl _ \<Rightarrow> True
    | Inr (resp, db') \<Rightarrow> \<exists>t \<in> set (print_tasks db). \<exists>k. kiosk_row (kd_kiosk_id d) db = Some k \<and> tk_public_id t = task_id
        \<and> tk_kiosk_id t = ki_id k \<and> ki_id k = kd_kiosk_id d \<and> tk_state t \<in> IN_HAND \<and> only_at k t db db'"
    using report_reaches[of task_id payload d now db] by (auto split: sum.split)
  show "case next_task locked d now db of
      Inl _ \<Rightarrow> True
    | Inr (None, db') \<Rightarrow> db' = db
    | Inr (Some resp, db') \<Rightarrow> \<exists>t \<in> set (print_tasks db). tk_kiosk_id t = kd_kiosk_id d \<and> tk_state t = QUEUED \<and> tk_id t \<notin> locked
        \<and> dt_task_id resp = tk_public_id t \<and> db' = db\<lparr>print_tasks := put_row tk_id (claimed_task now t) (print_tasks db)\<rparr>"
    using next_reaches[of locked d now db] nothing_claimed[of locked d now db] by (simp split: sum.split prod.split option.split)
qed (use file_reaches[of base task_id d fs db] in \<open>simp split: sum.split\<close>)

section \<open>A printer that sticks and recovers\<close>

definition closed_by_machine :: "kiosk \<Rightarrow> kiosk" where
  "closed_by_machine k = k\<lparr>ki_stage := MAINTENANCE, ki_note := Some STUCK_NOTE\<rparr>"

lemma closed_by_machine_simps [simp]:
  "ki_id (closed_by_machine k) = ki_id k" "ki_public_id (closed_by_machine k) = ki_public_id k"
  "stuck_key (closed_by_machine k) = stuck_key k" "ki_stage (closed_by_machine k) = MAINTENANCE"
  "requires_owner_billing (closed_by_machine k) = requires_owner_billing k"
  by (simp_all add: closed_by_machine_def stuck_key_def requires_owner_billing_def)

lemma raise_stuck_frame:
  "kiosks (raise_stuck k detail now db) = kiosks db" "kiosk_devices (raise_stuck k detail now db) = kiosk_devices db"
  by (auto simp: raise_stuck_def raise_alert_def mint_def Let_def split: option.split)

lemma raise_stuck_raised:
  assumes "alerts_counted db"
  shows "alerts_counted (raise_stuck k detail now db) \<and> raised (stuck_key k) (raise_stuck k detail now db)"
proof -
  obtain b db' where r: "raise_alert ''kiosk.printer_stuck'' CRITICAL (ki_name k @ '' cannot finish a print job and has been closed.'')
            (stuck_key k) (Some ''kiosk'') (Some (ki_public_id k))
            (if truthy detail then Some (PDict [(''reported'', PStr (the detail))]) else None) now db = (b, db')" by fastforce
  with raise_alert_counted[OF assms r] show ?thesis by (simp add: raise_stuck_def)
qed

lemma resolve_frame:
  "kiosks (snd (resolve_by_key key now db)) = kiosks db" "kiosk_devices (snd (resolve_by_key key now db)) = kiosk_devices db"
  by (auto simp: resolve_by_key_def Let_def split: option.split)

lemma stuck_closes:
  assumes k: "kiosk_of_device d db = Inr k" and live: "ki_stage k = LIVE" "kd_stuck_since d = None"
  shows "printer_health True detail d now db
    = Inr (raise_stuck (closed_by_machine k) detail now (save_kiosk (closed_by_machine k) (save_device (d\<lparr>kd_stuck_since := Some now\<rparr>) db)))"
  using assms by (simp add: printer_health_def report_stuck_def move_to_def can_transition_def Let_def closed_by_machine_def)

lemma recovery_reopens:
  assumes k: "kiosk_of_device d db = Inr k" and shut: "ki_stage k = MAINTENANCE" "kd_stuck_since d \<noteq> None"
    and may: "requires_owner_billing k \<longrightarrow> gate_billing now (save_device (d\<lparr>kd_stuck_since := None\<rparr>) db) k"
  shows "printer_health False detail d now db
    = Inr (snd (resolve_by_key (stuck_key k) now
        (save_kiosk (k\<lparr>ki_stage := LIVE, ki_note := None\<rparr>) (save_kiosk (k\<lparr>ki_stage := LIVE\<rparr>) (save_device (d\<lparr>kd_stuck_since := None\<rparr>) db)))))"
  using assms by (auto simp: printer_health_def report_recovered_def move_to_def can_transition_def Let_def)

lemma own_kiosk: "kiosk_of_device d db = Inr k \<Longrightarrow> kiosk_row (ki_id k) db = Some k"
  using kiosk_of_device_InrD by fastforce

lemma gate_billing_frame:
  assumes "users db' = users db" and "kiosk_assignments db' = kiosk_assignments db" and "subscriptions db' = subscriptions db"
    and "payment_configs db' = payment_configs db" and "ki_type k' = ki_type k" "ki_id k' = ki_id k"
  shows "gate_billing now db' k' = gate_billing now db k"
proof -
  have o: "owner_of k' db' = owner_of k db" using assms(1,2,6) by (simp add: owner_of_def staffed_def)
  have a: "has_active_subscription i now db' = has_active_subscription i now db" for i
    using assms(3) by (simp add: has_active_subscription_def active_subscription_def)
  have u: "has_usable_keys i db' = has_usable_keys i db" for i
    using assms(4) by (simp add: has_usable_keys_def get_config_def)
  show ?thesis by (cases "owner_of k db") (simp_all add: gate_billing_def kiosk_payment_gate_def o a u assms(5))
qed

text \<open>
  (Property). A printer that sticks closes its shop and says so once: the shop goes to MAINTENANCE with
  the reason, one alert is open, and the machine repeating itself changes nothing. When it prints again
  and the owner can still collect, the shop is LIVE again without the reason, the alert is stood down
  and the machine holds no claim on the shop, whatever else has happened to the database that leaves
  the shop, its machine and who collects there alone.
\<close>

theorem a_stuck_printer_closes_and_reopens:
  fixes db :: "'a payments_db_scheme"
  assumes ok: "alerts_counted db" "distinct (map kd_id (kiosk_devices db))" and k: "kiosk_of_device d db = Inr k" and d: "d \<in> set (kiosk_devices db)"
    and live: "ki_stage k = LIVE" "kd_stuck_since d = None"
  shows "\<exists>db1. let k1 = closed_by_machine k; d1 = d\<lparr>kd_stuck_since := Some now\<rparr> in
      printer_health True detail d now db = Inr db1 \<and> kiosk_row (ki_id k) db1 = Some k1
    \<and> row_by kd_id (kiosk_devices db1) (kd_id d) = Some d1 \<and> raised (stuck_key k) db1
    \<and> printer_health True again d1 later db1 = Inr db1
    \<and> (\<forall>db2 :: 'a payments_db_scheme. alerts_counted db2 \<and> kiosks db2 = kiosks db1 \<and> kiosk_devices db2 = kiosk_devices db1
         \<and> (requires_owner_billing k \<longrightarrow> gate_billing t db2 k) \<longrightarrow>
         (\<exists>db3. printer_health False x d1 t db2 = Inr db3 \<and> kiosk_row (ki_id k) db3 = Some (k\<lparr>ki_note := None\<rparr>)
            \<and> row_by kd_id (kiosk_devices db3) (kd_id d) = Some d \<and> \<not> raised (stuck_key k) db3))"
proof -
  define k1 where "k1 = closed_by_machine k"
  define d1 where "d1 = d\<lparr>kd_stuck_since := Some now\<rparr>"
  define db1 where "db1 = raise_stuck k1 detail now (save_kiosk k1 (save_device d1 db))"
  have ids: "ki_id k1 = ki_id k" "ki_public_id k1 = ki_public_id k" "stuck_key k1 = stuck_key k" "ki_stage k1 = MAINTENANCE"
    "requires_owner_billing k1 = requires_owner_billing k" "kd_id d1 = kd_id d" "kd_kiosk_id d1 = kd_kiosk_id d" "kd_stuck_since d1 = Some now"
    by (simp_all add: k1_def d1_def)
  have own: "kiosk_row (ki_id k) db = Some k" "ki_id k = kd_kiosk_id d" using kiosk_of_device_InrD[OF k] own_kiosk[OF k] by simp_all
  have go: "printer_health True detail d now db = Inr db1" using stuck_closes[OF k live] by (simp add: db1_def k1_def d1_def)
  have ks: "kiosks db1 = put_row ki_id k1 (kiosks db)" "kiosk_devices db1 = put_row kd_id d1 (kiosk_devices db)"
    by (simp_all add: db1_def raise_stuck_frame save_kiosk_def save_device_def)
  have row: "kiosk_row (ki_id k) db1 = Some k1" using own(1) ids by (simp add: kiosk_row_def ks row_by_put_row)
  have dev: "row_by kd_id (kiosk_devices db1) (kd_id d) = Some d1"
    using row_by_distinct[OF ok(2) d] ids by (simp add: ks row_by_put_row)
  have "alerts_counted (save_kiosk k1 (save_device d1 db))" using ok(1) by (simp add: save_kiosk_def save_device_def alerts_counted_def alerts_ok_def)
  from raise_stuck_raised[OF this, of k1 detail now] have up: "raised (stuck_key k) db1" by (simp add: db1_def ids)
  have at1: "kiosk_of_device d1 db1 = Inr k1" using row own(2) ids by (simp add: kiosk_of_device_def)
  have again: "printer_health True again d1 later db1 = Inr db1" by (simp add: printer_health_def at1 report_stuck_def ids)
  have "\<exists>db3. printer_health False x d1 t db2 = Inr db3 \<and> kiosk_row (ki_id k) db3 = Some (k\<lparr>ki_note := None\<rparr>)
      \<and> row_by kd_id (kiosk_devices db3) (kd_id d) = Some d \<and> \<not> raised (stuck_key k) db3"
    if a: "alerts_counted db2" "kiosks db2 = kiosks db1" "kiosk_devices db2 = kiosk_devices db1" "requires_owner_billing k \<longrightarrow> gate_billing t db2 k"
    for db2 :: "'a payments_db_scheme"
  proof -
    have at2: "kiosk_of_device d1 db2 = Inr k1" using at1 a(2) by (simp add: kiosk_of_device_def kiosk_row_def)
    have "gate_billing t (save_device (d1\<lparr>kd_stuck_since := None\<rparr>) db2) k1 = gate_billing t db2 k"
      by (rule gate_billing_frame) (simp_all add: save_device_def k1_def closed_by_machine_def)
    then have go2: "printer_health False x d1 t db2 = Inr (snd (resolve_by_key (stuck_key k1) t
        (save_kiosk (k1\<lparr>ki_stage := LIVE, ki_note := None\<rparr>) (save_kiosk (k1\<lparr>ki_stage := LIVE\<rparr>) (save_device (d1\<lparr>kd_stuck_since := None\<rparr>) db2)))))"
      (is "_ = Inr ?e") using recovery_reopens[OF at2 ids(4)] a(4) ids by simp
    let ?s = "save_kiosk (k1\<lparr>ki_stage := LIVE, ki_note := None\<rparr>) (save_kiosk (k1\<lparr>ki_stage := LIVE\<rparr>) (save_device (d1\<lparr>kd_stuck_since := None\<rparr>) db2))"
    have same: "k1\<lparr>ki_stage := LIVE, ki_note := None\<rparr> = k\<lparr>ki_note := None\<rparr>" "d1\<lparr>kd_stuck_since := None\<rparr> = d"
      using live by (simp_all add: k1_def closed_by_machine_def d1_def)
    have "alerts_counted ?s" using a(1) by (simp add: save_kiosk_def save_device_def alerts_counted_def alerts_ok_def)
    from resolve_counted(2)[OF this, of "stuck_key k" "stuck_key k" t] have "\<not> raised (stuck_key k) ?e" by (simp add: ids)
    moreover have "kiosk_row (ki_id k) ?e = Some (k\<lparr>ki_note := None\<rparr>)"
      using row a(2) ids(1) by (simp add: kiosk_row_def resolve_frame save_kiosk_def save_device_def row_by_put_row same)
    moreover have "row_by kd_id (kiosk_devices ?e) (kd_id d) = Some d"
      using dev a(3) by (simp add: resolve_frame save_kiosk_def save_device_def row_by_put_row same)
    ultimately show ?thesis using go2 by blast
  qed
  then show ?thesis using go row dev up again unfolding Let_def k1_def[symmetric] d1_def[symmetric] by blast
qed

text \<open>
  A shop that somebody reopened by hand while its machine was stuck keeps the alert when the machine
  recovers: the claim is released and the alert is not.
\<close>

lemma a_reopened_shop_keeps_its_alert:
  assumes "kiosk_of_device d db = Inr k" and "ki_stage k \<noteq> MAINTENANCE" and "kd_stuck_since d \<noteq> None"
  shows "printer_health False detail d now db = Inr (save_device (d\<lparr>kd_stuck_since := None\<rparr>) db)
    \<and> raised (stuck_key k) (save_device (d\<lparr>kd_stuck_since := None\<rparr>) db) = raised (stuck_key k) db"
  using assms by (auto simp: printer_health_def report_recovered_def raised_def save_device_def Let_def)

definition machine_example :: kiosk_device where
  "machine_example = \<lparr>kd_id = 1, kd_public_id = ''dev_1'', kd_kiosk_id = 1, kd_device_key = ''pi'', kd_token_hash = ''h'',
     kd_status = DEV_ONLINE, kd_capabilities = None, kd_agent_version = None, kd_ssh_host = None, kd_update_status = None,
     kd_last_heartbeat_at = Some 0, kd_stuck_since = None, kd_created_at = 0\<rparr>"

definition stuck_example :: payments_db where
  "stuck_example = payments_blank\<lparr>kiosks := [kiosk_example], kiosk_devices := [machine_example]\<rparr>"

theorem a_stuck_printer_closes_and_reopens_witness:
  "\<exists>db1. printer_health True None machine_example 5 stuck_example = Inr db1 \<and> raised ''printer-stuck:ksk_1'' db1
     \<and> printer_health True (Some ''jam'') (machine_example\<lparr>kd_stuck_since := Some 5\<rparr>) 6 db1 = Inr db1
     \<and> (\<exists>db3. printer_health False None (machine_example\<lparr>kd_stuck_since := Some 5\<rparr>) 7 db1 = Inr db3
            \<and> \<not> raised ''printer-stuck:ksk_1'' db3)"
proof -
  have k: "kiosk_of_device machine_example stuck_example = Inr kiosk_example"
    by (simp add: kiosk_of_device_def kiosk_row_def stuck_example_def payments_blank_def machine_example_def kiosk_example_def)
  have key: "stuck_key kiosk_example = ''printer-stuck:ksk_1''" "\<not> requires_owner_billing kiosk_example"
    by (simp_all add: stuck_key_def kiosk_example_def requires_owner_billing_def OWNER_GATEWAY_TYPES_def)
  have ok: "alerts_counted stuck_example" "distinct (map kd_id (kiosk_devices stuck_example))" "machine_example \<in> set (kiosk_devices stuck_example)"
    "ki_stage kiosk_example = LIVE" "kd_stuck_since machine_example = None"
    by (simp_all add: alerts_counted_def alerts_ok_def open_keys_def stuck_example_def payments_blank_def kiosk_example_def machine_example_def)
  obtain db1 where go: "printer_health True None machine_example 5 stuck_example = Inr db1" "raised ''printer-stuck:ksk_1'' db1"
    "printer_health True (Some ''jam'') (machine_example\<lparr>kd_stuck_since := Some 5\<rparr>) 6 db1 = Inr db1"
    and back_up: "\<forall>db2 :: payments_db. alerts_counted db2 \<and> kiosks db2 = kiosks db1 \<and> kiosk_devices db2 = kiosk_devices db1 \<longrightarrow>
      (\<exists>db3. printer_health False None (machine_example\<lparr>kd_stuck_since := Some 5\<rparr>) 7 db2 = Inr db3 \<and> \<not> raised ''printer-stuck:ksk_1'' db3)"
    using a_stuck_printer_closes_and_reopens[OF ok(1,2) k ok(3-5), of 5 None "Some ''jam''" 6 7 None] key(2)
    unfolding Let_def key(1) by blast
  have "db1 = raise_stuck (closed_by_machine kiosk_example) None 5
      (save_kiosk (closed_by_machine kiosk_example) (save_device (machine_example\<lparr>kd_stuck_since := Some 5\<rparr>) stuck_example))"
    using go(1) stuck_closes[OF k ok(4,5)] by simp
  moreover have "alerts_counted (save_kiosk (closed_by_machine kiosk_example) (save_device (machine_example\<lparr>kd_stuck_since := Some 5\<rparr>) stuck_example))"
    using ok(1) by (simp add: save_kiosk_def save_device_def alerts_counted_def alerts_ok_def)
  ultimately have "alerts_counted db1" using raise_stuck_raised by blast
  with go back_up show ?thesis by blast
qed

end
