(* ===== verification/EdgeLimits.thy ===== *)
theory EdgeLimits
  imports RateLimit Identity
begin

text \<open>
  \<^verbatim>\<open>api/ratelimit.py\<close>: abuse ceilings applied before a request reaches a route. The table of ceilings,
  who a request is counted as, and the middleware over the in-process counter. Headers are a map from
  lower-case names; one clock serves the counter (in seconds) and the expiry of a token.
\<close>

section \<open>The table\<close>

definition PERIODS :: "(string \<times> int) list" where
  "PERIODS = [(''second'', 1), (''minute'', 60), (''hour'', 3600), (''day'', 86400)]"

definition ADDRESS_FANOUT :: int where
  "ADDRESS_FANOUT = 20"

definition LIMITS :: "((string \<times> string) \<times> string list) list" where
  "LIMITS =
    [((''POST'', ''/v1/app/auth/login''), [''30/minute'', ''300/hour'']),
     ((''POST'', ''/v1/app/auth/register''), [''20/minute'', ''200/hour'']),
     ((''POST'', ''/v1/app/auth/guest''), [''30/minute'', ''300/hour'']),
     ((''POST'', ''/v1/app/auth/google''), [''30/minute'', ''300/hour'']),
     ((''POST'', ''/v1/app/auth/refresh''), [''120/minute'']),
     ((''POST'', ''/v1/app/auth/logout''), [''120/minute'']),
     ((''POST'', ''/v1/app/auth/change-password''), [''20/minute'']),
     ((''POST'', ''/v1/app/auth/verify-email''), [''30/minute'']),
     ((''POST'', ''/v1/app/auth/reset-password''), [''20/minute'']),
     ((''POST'', ''/v1/app/staff/accept-invite''), [''20/minute'']),
     ((''POST'', ''/v1/device/register''), [''10/minute'', ''60/hour'']),
     ((''POST'', ''/v1/app/auth/forgot-password''), [''10/minute'', ''60/hour'']),
     ((''POST'', ''/v1/app/auth/resend-verification''), [''10/minute'', ''60/hour''])]"

text \<open>\<^verbatim>\<open>limit.partition("/")\<close>; the counts of the table are decimal digits, the only form of \<^verbatim>\<open>int()\<close> modelled.\<close>

definition partition_at :: "char \<Rightarrow> string \<Rightarrow> string \<times> string" where
  "partition_at c s = (takeWhile (\<lambda>x. x \<noteq> c) s, drop 1 (dropWhile (\<lambda>x. x \<noteq> c) s))"

definition parse_limit :: "string \<Rightarrow> (int \<times> int) result" where
  "parse_limit limit =
     (let (count, period) = partition_at (CHR ''/'') limit in
      case map_of PERIODS period of
        None \<Rightarrow> Inl (Unhandled ''ValueError: not a rate limit'')
      | Some w \<Rightarrow> if count = [] \<or> \<not> list_all is_digit count then Inl (Unhandled ''ValueError: invalid literal for int()'')
                  else Inr (int (nat_of_digits count), w))"

type_synonym edge_rules = "((string \<times> string) \<times> (int \<times> int) list) list"

definition load_rules :: "((string \<times> string) \<times> string list) list \<Rightarrow> edge_rules result" where
  "load_rules tbl = map_res (\<lambda>(route, limits). bind_res (map_res parse_limit limits) (\<lambda>ls. Inr (route, ls))) tbl"

section \<open>Who is calling\<close>

definition UNKNOWN_CALLER :: string where
  "UNKNOWN_CALLER = ''unknown''"

type_synonym headers = "string \<Rightarrow> string option"

definition client_key :: "headers \<Rightarrow> string option \<Rightarrow> bool \<Rightarrow> string" where
  "client_key headers peer trust_proxy =
     (let hops = (if trust_proxy
                  then filter (\<lambda>h. h \<noteq> []) (map strip (split_on (CHR '','')
                         (case headers ''x-forwarded-for'' of Some v \<Rightarrow> v | None \<Rightarrow> [])))
                  else [])
      in if hops \<noteq> [] then last hops
         else if truthy peer then the peer else UNKNOWN_CALLER)"

definition account_key :: "crypto \<Rightarrow> headers \<Rightarrow> string \<Rightarrow> datetime \<Rightarrow> string option" where
  "account_key cr headers secret now =
     (let authorization = (case headers ''authorization'' of Some v \<Rightarrow> v | None \<Rightarrow> []);
          (kind, tok) = partition_at (CHR '' '') authorization
      in if lower kind \<noteq> ''bearer'' \<or> strip tok = [] then None
         else map_option tc_subject (decode_token cr (strip tok) ACCESS secret now))"

section \<open>The middleware\<close>

record edge_request =
  eq_method :: string
  eq_path :: string
  eq_headers :: headers
  eq_peer :: "string option"

record edge =
  ed_rules :: edge_rules
  ed_trust_proxy :: bool
  ed_secret :: string

type_synonym edge_bucket = "string \<times> int \<times> int"

definition route_of :: "edge_request \<Rightarrow> string" where
  "route_of q = eq_method q @ '' '' @ eq_path q"

text \<open>The buckets one request spends, in order: a name, a ceiling and a window.\<close>

definition buckets_of :: "crypto \<Rightarrow> edge \<Rightarrow> edge_request \<Rightarrow> datetime \<Rightarrow> edge_bucket list" where
  "buckets_of cr e q now =
     (case map_of (ed_rules e) (eq_method q, eq_path q) of
        None \<Rightarrow> []
      | Some rules \<Rightarrow>
          let address = client_key (eq_headers q) (eq_peer q) (ed_trust_proxy e);
              account = (if ed_secret e = [] then None else account_key cr (eq_headers q) (ed_secret e) now);
              route = route_of q
          in concat (map (\<lambda>(limit, w).
               case account of
                 Some a \<Rightarrow> [(route @ ''|acct:'' @ a, limit, w), (route @ ''|addr:'' @ address, limit * ADDRESS_FANOUT, w)]
               | None \<Rightarrow> [(route @ ''|addr:'' @ address, limit, w)]) rules))"

fun spend :: "edge_bucket list \<Rightarrow> rat \<Rightarrow> memory_counts \<Rightarrow> int option \<times> memory_counts" where
  "spend [] now m = (None, m)"
| "spend ((key, most, w) # rest) now m =
     (let (d, m') = memory_hit key most w now m in
      if allowed d then spend rest now m' else (Some (retry_after d), m'))"

definition seconds_of :: "datetime \<Rightarrow> rat" where
  "seconds_of t = of_int t / 1000000"

text \<open>\<open>None\<close>: the request goes on to its route. \<open>Some n\<close>: 429, and when to come back.\<close>

definition at_the_edge :: "crypto \<Rightarrow> edge \<Rightarrow> edge_request \<Rightarrow> datetime \<Rightarrow> memory_counts \<Rightarrow> int option \<times> memory_counts" where
  "at_the_edge cr e q now m = spend (buckets_of cr e q now) (seconds_of now) m"

section \<open>Ceilings hold\<close>

text \<open>A day's traffic: the requests that go on to their routes, with the time they came.\<close>

fun let_through :: "crypto \<Rightarrow> edge \<Rightarrow> (edge_request \<times> datetime) list \<Rightarrow> memory_counts \<Rightarrow> (edge_request \<times> datetime) list" where
  "let_through cr e [] m = []"
| "let_through cr e ((q, now) # rest) m =
     (let (refused, m') = at_the_edge cr e q now m in
      (if refused = None then [(q, now)] else []) @ let_through cr e rest m')"

definition in_window :: "datetime \<Rightarrow> int \<Rightarrow> int \<Rightarrow> bool" where
  "in_window now w i \<longleftrightarrow> fst (window_of (seconds_of now) w) = i"

lemma limits_load:
  "case load_rules LIMITS of Inl _ \<Rightarrow> False | Inr rules \<Rightarrow> list_all (\<lambda>(_, ls). list_all (\<lambda>(n, w). 0 < n \<and> 0 < w) ls) rules"
  by code_simp

lemma window_before:
  assumes "0 < w" and "t \<le> t'" and "fst (window_of t' w) = i"
  shows "t < of_int ((i + 1) * w)"
proof -
  obtain ends where "window_of t' w = (i, ends)" using assms(3) by (cases "window_of t' w") simp
  from window_of_bounds(2,3)[OF assms(1) this] assms(2) show ?thesis by simp
qed

lemma hit_counts:
  assumes wf: "mem_wf m" and w: "0 < w" and hit: "memory_hit key most w now m = (d, m')"
  shows "mem_wf m' \<and> (allowed d \<longleftrightarrow> mem_count m (key, w, fst (window_of now w)) < most)
    \<and> (\<forall>k v j. now < of_int ((j + 1) * v) \<longrightarrow> mem_count m' (k, v, j) =
         mem_count m (k, v, j) + (if allowed d \<and> k = key \<and> v = w \<and> j = fst (window_of now w) then 1 else 0))"
proof -
  obtain i ends where win: "window_of now w = (i, ends)" by force
  note b = window_of_bounds[OF w win]
  let ?c = "mem_count (sweep now m) (key, w, i)"
  have c: "?c = mem_count m (key, w, i)" using mem_count_sweep[OF wf] b(2,3) by simp
  have m': "m' = (if most \<le> ?c then sweep now m else AList.update (key, w, i) (?c + 1, of_int ((i + 1) * w)) (sweep now m))"
    and d: "d = (if most \<le> ?c then refusal now ends else ALLOWED)"
    using hit win b(3) by (auto simp: memory_hit_def mem_count_def Let_def split: if_splits)
  have "mem_wf m'" unfolding m' using wf by (simp only: mem_wf_sweep mem_wf_update split: if_split) simp
  moreover have "mem_count m' (k, v, j) = mem_count m (k, v, j) + (if allowed d \<and> k = key \<and> v = w \<and> j = i then 1 else 0)"
    if "now < of_int ((j + 1) * v)" for k v j
    using mem_count_sweep[OF wf that, of k] c by (auto simp: m' d mem_count_update refusal_def ALLOWED_def)
  ultimately show ?thesis using c d win by (auto simp: refusal_def ALLOWED_def)
qed

lemma spend_counts:
  assumes "mem_wf m" and "\<forall>(k, c, v) \<in> set bs. 0 < v" and "spend bs now m = (r, m')" and "now < of_int ((i + 1) * w)"
  shows "mem_wf m' \<and> mem_count m (key, w, i) \<le> mem_count m' (key, w, i)
    \<and> (r = None \<and> (key, most, w) \<in> set bs \<and> fst (window_of now w) = i \<longrightarrow>
         mem_count m (key, w, i) < most \<and> mem_count m (key, w, i) + 1 \<le> mem_count m' (key, w, i))"
  using assms(1-3)
proof (induction bs arbitrary: m)
  case (Cons x bs)
  obtain k c v where x: "x = (k, c, v)" by (cases x) auto
  obtain d m1 where hit: "memory_hit k c v now m = (d, m1)" by fastforce
  have v: "0 < v" using Cons.prems(2) x by simp
  note h = hit_counts[OF Cons.prems(1) v hit]
  have mono: "mem_count m (key, w, i) \<le> mem_count m1 (key, w, i)" using h assms(4) by simp
  show ?case
  proof (cases "allowed d")
    case False
    then show ?thesis using Cons.prems(3) h mono by (auto simp: x hit)
  next
    case True
    then have rest: "spend bs now m1 = (r, m')" using Cons.prems(3) by (simp add: x hit)
    from Cons.IH[OF _ _ rest] h Cons.prems(2) have ih: "mem_wf m' \<and> mem_count m1 (key, w, i) \<le> mem_count m' (key, w, i)
      \<and> (r = None \<and> (key, most, w) \<in> set bs \<and> fst (window_of now w) = i \<longrightarrow>
         mem_count m1 (key, w, i) < most \<and> mem_count m1 (key, w, i) + 1 \<le> mem_count m' (key, w, i))" by auto
    show ?thesis
    proof (cases "x = (key, most, w) \<and> fst (window_of now w) = i")
      case True
      then have "mem_count m (key, w, i) < most" "mem_count m1 (key, w, i) = mem_count m (key, w, i) + 1"
        using h \<open>allowed d\<close> assms(4) x by auto
      with ih mono show ?thesis by auto
    next
      case False
      with ih mono x show ?thesis by auto
    qed
  qed
qed simp

definition spends :: "crypto \<Rightarrow> edge \<Rightarrow> string \<Rightarrow> int \<Rightarrow> int \<Rightarrow> int \<Rightarrow> edge_request \<times> datetime \<Rightarrow> bool" where
  "spends cr e key most w i qt \<longleftrightarrow> (key, most, w) \<in> set (buckets_of cr e (fst qt) (snd qt)) \<and> in_window (snd qt) w i"

definition windows_ok :: "edge \<Rightarrow> bool" where
  "windows_ok e \<longleftrightarrow> (\<forall>(route, rules) \<in> set (ed_rules e). \<forall>(limit, w) \<in> set rules. 0 < w)"

lemma buckets_windows:
  assumes "windows_ok e"
  shows "\<forall>(k, c, v) \<in> set (buckets_of cr e q now). 0 < v"
proof (cases "map_of (ed_rules e) (eq_method q, eq_path q)")
  case (Some rules)
  then have "\<forall>r \<in> set rules. 0 < snd r" using assms by (fastforce simp: windows_ok_def dest!: map_of_SomeD)
  moreover have "\<exists>r \<in> set rules. snd (snd x) = snd r" if "x \<in> set (buckets_of cr e q now)" for x
    using that by (force simp: buckets_of_def Some Let_def case_prod_beta split: option.splits)
  ultimately show ?thesis by fastforce
qed (simp add: buckets_of_def)

lemma let_through_times: "set (let_through cr e reqs m) \<subseteq> set reqs"
proof (induction reqs arbitrary: m)
  case (Cons qt reqs)
  show ?case using Cons[of "snd (at_the_edge cr e (fst qt) (snd qt) m)"] by (cases qt) (auto simp: case_prod_beta Let_def)
qed simp

lemma let_through_counts:
  assumes "windows_ok e" and "0 < w" and "sorted (map snd reqs)" and "mem_wf m"
  shows "filter (spends cr e key most w i) (let_through cr e reqs m) = []
    \<or> mem_count m (key, w, i) + int (length (filter (spends cr e key most w i) (let_through cr e reqs m))) \<le> most"
  using assms(3,4)
proof (induction reqs arbitrary: m)
  case (Cons qt reqs)
  obtain q now where qt: "qt = (q, now)" by fastforce
  obtain r m1 where at1: "at_the_edge cr e q now m = (r, m1)" by fastforce
  let ?P = "spends cr e key most w i" and ?until = "of_int ((i + 1) * w) :: rat"
  have sorted: "sorted (map snd reqs)" and first: "\<forall>x \<in> set reqs. now \<le> snd x" using Cons.prems(1) qt by auto
  have early: "seconds_of now < ?until" if "x \<in> set (qt # reqs)" "?P x" for x
  proof -
    have "seconds_of now \<le> seconds_of (snd x)" using that(1) first qt by (auto simp: seconds_of_def)
    then show ?thesis using window_before[OF assms(2)] that(2) by (simp add: spends_def in_window_def)
  qed
  show ?case
  proof (cases "seconds_of now < ?until")
    case False
    then have "\<forall>x \<in> set (qt # reqs). \<not> ?P x" using early by blast
    then show ?thesis using let_through_times[of cr e "qt # reqs" m] by (metis filter_empty_conv subsetD)
  next
    case True
    from spend_counts[OF Cons.prems(2) buckets_windows[OF assms(1)] at1[unfolded at_the_edge_def] True, of key most]
    have s: "mem_wf m1" "mem_count m (key, w, i) \<le> mem_count m1 (key, w, i)"
      "r = None \<and> ?P qt \<longrightarrow> mem_count m (key, w, i) < most \<and> mem_count m (key, w, i) + 1 \<le> mem_count m1 (key, w, i)"
      by (auto simp: spends_def in_window_def qt)
    let ?tail = "filter ?P (let_through cr e reqs m1)"
    have ih: "?tail = [] \<or> mem_count m1 (key, w, i) + int (length ?tail) \<le> most" by (rule Cons.IH[OF sorted s(1)])
    show ?thesis
    proof (cases "r = None \<and> ?P qt")
      case True
      then have "filter ?P (let_through cr e (qt # reqs) m) = qt # ?tail" by (simp add: qt at1)
      with ih s(2,3) True show ?thesis by (auto simp: qt)
    next
      case False
      then have "filter ?P (let_through cr e (qt # reqs) m) = ?tail" by (auto simp: qt at1)
      with ih s(2) show ?thesis by auto
    qed
  qed
qed simp

definition caller_account :: "crypto \<Rightarrow> edge \<Rightarrow> edge_request \<times> datetime \<Rightarrow> string option" where
  "caller_account cr e qt = (if ed_secret e = [] then None else account_key cr (eq_headers (fst qt)) (ed_secret e) (snd qt))"

definition caller_address :: "edge \<Rightarrow> edge_request \<times> datetime \<Rightarrow> string" where
  "caller_address e qt = client_key (eq_headers (fst qt)) (eq_peer (fst qt)) (ed_trust_proxy e)"

definition on_route :: "string \<Rightarrow> string \<Rightarrow> int \<Rightarrow> int \<Rightarrow> edge_request \<times> datetime \<Rightarrow> bool" where
  "on_route meth path w i qt \<longleftrightarrow> eq_method (fst qt) = meth \<and> eq_path (fst qt) = path \<and> in_window (snd qt) w i"

lemma on_route_spends:
  assumes "map_of (ed_rules e) (meth, path) = Some rules" and "(limit, w) \<in> set rules" and "on_route meth path w i qt"
  shows "caller_account cr e qt = Some a \<Longrightarrow> spends cr e (meth @ '' '' @ path @ ''|acct:'' @ a) limit w i qt"
    and "caller_account cr e qt = Some a \<Longrightarrow> spends cr e (meth @ '' '' @ path @ ''|addr:'' @ caller_address e qt) (limit * ADDRESS_FANOUT) w i qt"
    and "caller_account cr e qt = None \<Longrightarrow> spends cr e (meth @ '' '' @ path @ ''|addr:'' @ caller_address e qt) limit w i qt"
  using assms
  by (auto simp: spends_def on_route_def buckets_of_def caller_account_def caller_address_def route_of_def Let_def
      intro!: bexI[of _ "(limit, w)"])

lemma filter_length_mono: "(\<And>x. P x \<Longrightarrow> Q x) \<Longrightarrow> length (filter P xs) \<le> length (filter Q xs)"
  by (induction xs) (auto intro: le_SucI)

lemma spends_bounded:
  assumes "windows_ok e" and "0 < w" and "sorted (map snd reqs)" and "0 \<le> most"
    and "\<And>qt. P qt \<Longrightarrow> spends cr e key most w i qt"
  shows "int (length (filter P (let_through cr e reqs []))) \<le> most"
proof -
  let ?l = "let_through cr e reqs []"
  have "mem_wf []" by (simp add: mem_wf_def)
  from let_through_counts[OF assms(1-3) this, of cr key most i]
  have "int (length (filter (spends cr e key most w i) ?l)) \<le> most" using assms(4) by (auto simp: mem_count_def)
  with filter_length_mono[of P "spends cr e key most w i" ?l] assms(5) show ?thesis by force
qed

text \<open>
  C34. The ceilings hold for any traffic in order of time, over every window of the clock: on a
  route with a limit, no more requests than the limit go on that come from one account, or without a
  verified token from one address; and no more than twenty times the limit that carry tokens and come
  from one address, however many accounts they belong to.
\<close>

theorem edge_ceilings_hold:
  assumes "windows_ok e" and "sorted (map snd reqs)" and "map_of (ed_rules e) (meth, path) = Some rules"
    and "(limit, w) \<in> set rules" and "0 \<le> limit"
  shows "int (length (filter (\<lambda>qt. on_route meth path w i qt \<and> caller_account cr e qt = Some a) (let_through cr e reqs []))) \<le> limit
    \<and> int (length (filter (\<lambda>qt. on_route meth path w i qt \<and> caller_account cr e qt = None \<and> caller_address e qt = x)
          (let_through cr e reqs []))) \<le> limit
    \<and> int (length (filter (\<lambda>qt. on_route meth path w i qt \<and> caller_account cr e qt \<noteq> None \<and> caller_address e qt = x)
          (let_through cr e reqs []))) \<le> 20 * limit"
proof -
  have w: "0 < w" using assms(1,3,4) by (fastforce simp: windows_ok_def dest!: map_of_SomeD)
  note bound = spends_bounded[OF assms(1) w assms(2)] and route = on_route_spends[OF assms(3,4)]
  have "0 \<le> limit * ADDRESS_FANOUT" using assms(5) by (simp add: ADDRESS_FANOUT_def)
  then have "int (length (filter (\<lambda>qt. on_route meth path w i qt \<and> caller_account cr e qt \<noteq> None \<and> caller_address e qt = x)
          (let_through cr e reqs []))) \<le> limit * ADDRESS_FANOUT"
    by (rule bound[where key = "meth @ '' '' @ path @ ''|addr:'' @ x" and i = i]) (use route(2) in blast)
  moreover have "int (length (filter (\<lambda>qt. on_route meth path w i qt \<and> caller_account cr e qt = Some a) (let_through cr e reqs []))) \<le> limit"
    by (rule bound[OF assms(5), where key = "meth @ '' '' @ path @ ''|acct:'' @ a" and i = i]) (use route(1) in blast)
  moreover have "int (length (filter (\<lambda>qt. on_route meth path w i qt \<and> caller_account cr e qt = None \<and> caller_address e qt = x)
          (let_through cr e reqs []))) \<le> limit"
    by (rule bound[OF assms(5), where key = "meth @ '' '' @ path @ ''|addr:'' @ x" and i = i]) (use route(3) in blast)
  ultimately show ?thesis by (simp add: ADDRESS_FANOUT_def)
qed

definition LOGIN :: "string" where
  "LOGIN = ''/v1/app/auth/login''"

definition edge_example :: edge where
  "edge_example = \<lparr>ed_rules = [((''POST'', LOGIN), [(30, 60), (300, 3600)])], ed_trust_proxy = False, ed_secret = ''s''\<rparr>"

definition sign_in :: "string \<Rightarrow> string option \<Rightarrow> edge_request" where
  "sign_in address tok = \<lparr>eq_method = ''POST'', eq_path = LOGIN,
     eq_headers = (\<lambda>h. if h = ''authorization'' then map_option (\<lambda>t. ''Bearer '' @ t) tok else None), eq_peer = Some address\<rparr>"

theorem edge_ceilings_hold_witness:
  "\<forall>cr. int (length (filter (\<lambda>qt. on_route ''POST'' LOGIN 60 0 qt \<and> caller_account cr edge_example qt = None \<and> caller_address edge_example qt = ''1.2.3.4'')
      (let_through cr edge_example [(sign_in ''1.2.3.4'' None, 0), (sign_in ''1.2.3.4'' None, 9)] []))) \<le> 30"
proof
  fix cr
  have "windows_ok edge_example" "map_of (ed_rules edge_example) (''POST'', LOGIN) = Some [(30, 60), (300, 3600)]"
    by (simp_all add: edge_example_def windows_ok_def)
  from edge_ceilings_hold[OF this(1) _ this(2), of "[(sign_in ''1.2.3.4'' None, 0), (sign_in ''1.2.3.4'' None, 9)]" 30 60 0 cr _ "''1.2.3.4''"]
  show "int (length (filter (\<lambda>qt. on_route ''POST'' LOGIN 60 0 qt \<and> caller_account cr edge_example qt = None \<and> caller_address edge_example qt = ''1.2.3.4'')
      (let_through cr edge_example [(sign_in ''1.2.3.4'' None, 0), (sign_in ''1.2.3.4'' None, 9)] []))) \<le> 30"
    by simp
qed

section \<open>Signing in with a token in hand\<close>

lemma spend_step:
  assumes "mem_wf m" and "0 < w" and "mem_count m (key, w, fst (window_of now w)) < most"
  shows "\<exists>m'. spend ((key, most, w) # rest) now m = spend rest now m' \<and> mem_wf m'
    \<and> (\<forall>k v j. now < of_int ((j + 1) * v) \<longrightarrow> mem_count m' (k, v, j) =
         mem_count m (k, v, j) + (if k = key \<and> v = w \<and> j = fst (window_of now w) then 1 else 0))"
proof -
  obtain d m' where hit: "memory_hit key most w now m = (d, m')" by fastforce
  from hit_counts[OF assms(1,2) hit] assms(3) hit show ?thesis by auto
qed

lemma spend_full:
  assumes "mem_wf m" and "0 < w" and "most \<le> mem_count m (key, w, fst (window_of now w))"
  shows "fst (spend ((key, most, w) # rest) now m) \<noteq> None"
proof -
  obtain d m' where hit: "memory_hit key most w now m = (d, m')" by fastforce
  from hit_counts[OF assms(1,2) hit] assms(3) hit show ?thesis by auto
qed

lemma now_in_window: "0 < w \<Longrightarrow> now < of_int ((fst (window_of now w) + 1) * w)"
  using window_before[of w now now "fst (window_of now w)"] by simp

lemma spend_fits:
  assumes "mem_wf m" and "\<forall>(k, c, v) \<in> set bs. 0 < v \<and> mem_count m (k, v, fst (window_of now v)) < c"
    and "distinct (map (\<lambda>(k, c, v). (k, v)) bs)"
  shows "fst (spend bs now m) = None"
  using assms
proof (induction bs arbitrary: m)
  case (Cons x bs)
  obtain k c v where x: "x = (k, c, v)" by (cases x) auto
  obtain m1 where m1: "spend (x # bs) now m = spend bs now m1" "mem_wf m1"
    "\<forall>k' v' j. now < of_int ((j + 1) * v') \<longrightarrow> mem_count m1 (k', v', j) =
         mem_count m (k', v', j) + (if k' = k \<and> v' = v \<and> j = fst (window_of now v) then 1 else 0)"
    using spend_step[OF Cons.prems(1), of v k now c bs] Cons.prems(2) x by auto
  have "mem_count m1 (k', v', fst (window_of now v')) < c'" if y: "(k', c', v') \<in> set bs" for k' c' v'
  proof -
    have "(k', v') \<noteq> (k, v)" using Cons.prems(3) y by (force simp: x)
    moreover have "0 < v'" "mem_count m (k', v', fst (window_of now v')) < c'" using Cons.prems(2) y by auto
    ultimately show ?thesis using m1(3) now_in_window[of v' now] by auto
  qed
  then have "fst (spend bs now m1) = None" using Cons.prems(2,3) m1(2) by (intro Cons.IH) auto
  then show ?case by (simp add: m1(1))
qed simp

definition count_at :: "string \<Rightarrow> int \<Rightarrow> datetime \<Rightarrow> memory_counts \<Rightarrow> int" where
  "count_at key w now m = mem_count m (key, w, fst (window_of (seconds_of now) w))"

text \<open>
  (Property). Sign-in is not bounded by the address alone: an address that has spent its thirty
  attempts of the minute is refused without a token, and the same attempt from the same address goes on
  when it carries the token of any account that has not spent its own, a guest's for instance, until
  the address has made six hundred.
\<close>

theorem a_token_widens_sign_in:
  assumes "mem_wf m" and "map_of (ed_rules e) (''POST'', LOGIN) = Some [(30, 60), (300, 3600)]"
    and q: "eq_method q = ''POST'' \<and> eq_path q = LOGIN" "caller_account cr e (q, now) = None" "caller_address e (q, now) = x"
    and g: "eq_method g = ''POST'' \<and> eq_path g = LOGIN" "caller_account cr e (g, now) = Some a" "caller_address e (g, now) = x"
    and full: "30 \<le> count_at (''POST '' @ LOGIN @ ''|addr:'' @ x) 60 now m"
    and room: "count_at (''POST '' @ LOGIN @ ''|addr:'' @ x) 60 now m < 600" "count_at (''POST '' @ LOGIN @ ''|addr:'' @ x) 3600 now m < 6000"
      "count_at (''POST '' @ LOGIN @ ''|acct:'' @ a) 60 now m < 30" "count_at (''POST '' @ LOGIN @ ''|acct:'' @ a) 3600 now m < 300"
  shows "fst (at_the_edge cr e q now m) \<noteq> None \<and> fst (at_the_edge cr e g now m) = None"
proof
  let ?addr = "''POST '' @ LOGIN @ ''|addr:'' @ x" and ?acct = "''POST '' @ LOGIN @ ''|acct:'' @ a" and ?t = "seconds_of now"
  have bq: "buckets_of cr e q now = [(?addr, 30, 60), (?addr, 300, 3600)]"
    using q assms(2) by (auto simp: buckets_of_def caller_account_def caller_address_def route_of_def Let_def)
  show "fst (at_the_edge cr e q now m) \<noteq> None"
    unfolding at_the_edge_def bq by (rule spend_full[OF assms(1)]) (use full in \<open>simp_all add: count_at_def\<close>)
  have bg: "buckets_of cr e g now = [(?acct, 30, 60), (?addr, 600, 60), (?acct, 300, 3600), (?addr, 6000, 3600)]"
    using g assms(2) by (auto simp: buckets_of_def caller_account_def caller_address_def route_of_def Let_def ADDRESS_FANOUT_def)
  have "fst (spend [(?acct, 30, 60), (?addr, 600, 60), (?acct, 300, 3600), (?addr, 6000, 3600)] ?t m) = None"
    by (rule spend_fits[OF assms(1)]) (use room in \<open>simp_all add: count_at_def\<close>)
  then show "fst (at_the_edge cr e g now m) = None" by (simp add: at_the_edge_def bg)
qed

definition guest_crypto :: crypto where
  "guest_crypto = \<lparr>sha256_hex = (\<lambda>s. s), pw_hash = (\<lambda>_ p. p), pw_verify = (\<lambda>p h. Some (p = h)), pw_needs_update = (\<lambda>_. Some False),
     jwt_encode = (\<lambda>p s. jp_sub p), jwt_decode = (\<lambda>now t s. Some \<lparr>jp_sub = t, jp_typ = Some ''access'', jp_jti = [], jp_iat = 0, jp_exp = 1, jp_fam = None\<rparr>)\<rparr>"

theorem a_token_widens_sign_in_witness:
  "fst (at_the_edge guest_crypto edge_example (sign_in ''1.2.3.4'' None) 0 [((''POST '' @ LOGIN @ ''|addr:1.2.3.4'', 60, 0), (30, 60))]) \<noteq> None
   \<and> fst (at_the_edge guest_crypto edge_example (sign_in ''1.2.3.4'' (Some ''guest'')) 0 [((''POST '' @ LOGIN @ ''|addr:1.2.3.4'', 60, 0), (30, 60))]) = None"
proof -
  have b: "account_key guest_crypto (eq_headers (sign_in ''1.2.3.4'' (Some ''guest''))) ''s'' 0 = Some ''guest''"
    "account_key guest_crypto (eq_headers (sign_in ''1.2.3.4'' None)) ''s'' 0 = None" by code_simp+
  show ?thesis
    by (rule a_token_widens_sign_in[where x = "''1.2.3.4''" and a = "''guest''"])
      (use b in \<open>simp_all add: count_at_def mem_count_def window_of_def seconds_of_def mem_wf_def edge_example_def sign_in_def caller_account_def caller_address_def client_key_def truthy_def\<close>)
qed

end
