(* ===== verification/StudentAuth.thy ===== *)
theory StudentAuth
  imports Notifying Identity
begin

text \<open>
  \<^verbatim>\<open>api/student/auth.py\<close>: signing in and out of the student app. The refresh token leaves in a cookie and
  never in a body; the access token leaves in the body. \<open>send\<close> is the notifier of the request, \<open>env\<close>
  and \<open>client_id\<close> are settings. A handler that raises leaves nothing behind, as \<^verbatim>\<open>get_db\<close> rolls back.
\<close>

section \<open>What is answered\<close>

record token_response =
  tr_access_token :: string
  tr_is_guest :: bool
  tr_email_verified :: bool

record refresh_cookie =
  rc_value :: string
  rc_secure :: bool
  rc_max_age :: int
  rc_path :: string

record me_response =
  me_id :: string
  me_email :: string
  me_full_name :: "string option"
  me_is_guest :: bool
  me_email_verified :: bool
  me_roles :: "string list"

definition COOKIE_PATH :: string where
  "COOKIE_PATH = ''/v1/app/auth''"

definition NO_SESSION :: string where
  "NO_SESSION = ''You need to sign in to do that.''"

definition refresh_cookie_of :: "string \<Rightarrow> string \<Rightarrow> refresh_cookie" where
  "refresh_cookie_of env tok =
     \<lparr>rc_value = tok, rc_secure = (env \<noteq> ''dev''), rc_max_age = REFRESH_LIFETIME div 1000000, rc_path = COOKIE_PATH\<rparr>"

type_synonym session_answer = "token_response \<times> refresh_cookie"

definition signed_in ::
  "crypto \<Rightarrow> string \<Rightarrow> string \<Rightarrow> user \<Rightarrow> datetime \<Rightarrow> 'a identity_db_scheme \<Rightarrow> session_answer \<times> 'a identity_db_scheme" where
  "signed_in cr secret env u now db =
     (let ((access, refresh), db1) = issue_tokens cr u secret now db
      in ((\<lparr>tr_access_token = access, tr_is_guest = us_is_guest u, tr_email_verified = us_email_verified u\<rparr>,
           refresh_cookie_of env refresh), db1))"

text \<open>A use case of identity that hands its session back even when it raises; the request drops it.\<close>

definition committed :: "'r result \<times> 's \<Rightarrow> ('r \<times> 's) result" where
  "committed outcome = (case outcome of (Inl e, _) \<Rightarrow> Inl e | (Inr r, s) \<Rightarrow> Inr (r, s))"

section \<open>The routes\<close>

definition register_account ::
  "crypto \<Rightarrow> string \<Rightarrow> string \<Rightarrow> 'a identity_db_scheme notifier \<Rightarrow> string \<Rightarrow> string \<Rightarrow> string option \<Rightarrow> datetime \<Rightarrow>
   'a identity_db_scheme \<Rightarrow> (session_answer \<times> 'a identity_db_scheme) result" where
  "register_account cr secret env send email password full_name now db =
     bind_res (committed (register_user cr email password full_name db)) (\<lambda>(u, db1).
       let (tok, db2) = start_verification cr u now db1
       in Inr (signed_in cr secret env u now (send (EmailVerification (us_email u) tok) db2)))"

definition login ::
  "crypto \<Rightarrow> string \<Rightarrow> string \<Rightarrow> string \<Rightarrow> string \<Rightarrow> datetime \<Rightarrow> 'a identity_db_scheme \<Rightarrow>
   (session_answer \<times> 'a identity_db_scheme) result" where
  "login cr secret env email password now db =
     bind_res (authenticate cr email password db) (\<lambda>(u, db1). Inr (signed_in cr secret env u now db1))"

definition guest_login ::
  "crypto \<Rightarrow> string \<Rightarrow> string \<Rightarrow> datetime \<Rightarrow> 'a identity_db_scheme \<Rightarrow> (session_answer \<times> 'a identity_db_scheme) result" where
  "guest_login cr secret env now db =
     bind_res (committed (create_guest cr db)) (\<lambda>(u, db1). Inr (signed_in cr secret env u now db1))"

definition google_login ::
  "crypto \<Rightarrow> (string \<Rightarrow> string \<Rightarrow> google_claims option) \<Rightarrow> string \<Rightarrow> string \<Rightarrow> string \<Rightarrow> string \<Rightarrow> datetime \<Rightarrow>
   'a identity_db_scheme \<Rightarrow> (session_answer \<times> 'a identity_db_scheme) result" where
  "google_login cr verifier client_id secret env id_token now db =
     bind_res (committed (sign_in_with_google cr verifier id_token client_id db)) (\<lambda>(u, db1).
       Inr (signed_in cr secret env u now db1))"

definition refresh_session ::
  "crypto \<Rightarrow> string \<Rightarrow> string \<Rightarrow> string option \<Rightarrow> datetime \<Rightarrow> 'a identity_db_scheme \<Rightarrow>
   (session_answer \<times> 'a identity_db_scheme) result" where
  "refresh_session cr secret env cookie now db =
     (if \<not> truthy cookie then Inl (Unauthorized NO_SESSION)
      else bind_res (committed (rotate_refresh cr (the cookie) secret now db)) (\<lambda>((access, new_refresh), db1).
        Inr ((\<lparr>tr_access_token = access, tr_is_guest = False, tr_email_verified = False\<rparr>,
              refresh_cookie_of env new_refresh), db1)))"

text \<open>The cookie is deleted in the answer whether there was one or not.\<close>

definition logout :: "crypto \<Rightarrow> string option \<Rightarrow> datetime \<Rightarrow> 'a identity_db_scheme \<Rightarrow> 'a identity_db_scheme" where
  "logout cr cookie now db = (if truthy cookie then revoke_refresh cr (the cookie) now db else db)"

fun role_value :: "user_role \<Rightarrow> string" where
  "role_value ADMIN = ''admin''"
| "role_value OWNER = ''owner''"
| "role_value REFILLER = ''refiller''"
| "role_value STUDENT = ''student''"

definition me_of :: "user \<Rightarrow> 'a identity_db_scheme \<Rightarrow> me_response" where
  "me_of u db =
     \<lparr>me_id = us_public_id u, me_email = us_email u, me_full_name = us_full_name u, me_is_guest = us_is_guest u,
      me_email_verified = us_email_verified u,
      me_roles = map role_value (filter (\<lambda>r. r \<in> roles_of (us_id u) db) [ADMIN, OWNER, REFILLER, STUDENT])\<rparr>"

definition confirm_email ::
  "crypto \<Rightarrow> string \<Rightarrow> datetime \<Rightarrow> 'a identity_db_scheme \<Rightarrow> (me_response \<times> 'a identity_db_scheme) result" where
  "confirm_email cr tok now db = bind_res (verify_email cr tok now db) (\<lambda>(u, db1). Inr (me_of u db1, db1))"

definition VERIFICATION_SENT :: string where
  "VERIFICATION_SENT = ''If that address needs verifying, a new link is on its way.''"

definition resend_verification ::
  "crypto \<Rightarrow> 'a identity_db_scheme notifier \<Rightarrow> user \<Rightarrow> datetime \<Rightarrow> 'a identity_db_scheme \<Rightarrow> string \<times> 'a identity_db_scheme" where
  "resend_verification cr send u now db =
     (VERIFICATION_SENT,
      if \<not> us_email_verified u \<and> \<not> us_is_guest u
      then let (tok, db1) = start_verification cr u now db in send (EmailVerification (us_email u) tok) db1
      else db)"

definition RESET_SENT :: string where
  "RESET_SENT = ''If that address has an account, a reset link is on its way.''"

definition forgot_password ::
  "crypto \<Rightarrow> 'a identity_db_scheme notifier \<Rightarrow> string \<Rightarrow> datetime \<Rightarrow> 'a identity_db_scheme \<Rightarrow> string \<times> 'a identity_db_scheme" where
  "forgot_password cr send email now db =
     (let (started, db1) = start_reset cr email now db
      in (RESET_SENT, case started of None \<Rightarrow> db1 | Some (u, tok) \<Rightarrow> send (PasswordReset (us_email u) tok) db1))"

definition reset_password ::
  "crypto \<Rightarrow> string \<Rightarrow> string \<Rightarrow> string \<Rightarrow> string \<Rightarrow> datetime \<Rightarrow> 'a identity_db_scheme \<Rightarrow>
   (session_answer \<times> 'a identity_db_scheme) result" where
  "reset_password cr secret env tok password now db =
     bind_res (complete_reset cr tok password now db) (\<lambda>(u, db1). Inr (signed_in cr secret env u now db1))"

definition change_own_password ::
  "crypto \<Rightarrow> string \<Rightarrow> string \<Rightarrow> user \<Rightarrow> string \<Rightarrow> string \<Rightarrow> datetime \<Rightarrow> 'a identity_db_scheme \<Rightarrow>
   (session_answer \<times> 'a identity_db_scheme) result" where
  "change_own_password cr secret env u current new now db =
     bind_res (change_password cr u current new now db) (\<lambda>(u', db1). Inr (signed_in cr secret env u' now db1))"

section \<open>One session left\<close>

lemma signed_in_tokens:
  assumes "signed_in cr secret env u now db = ((resp, cookie), db')"
  shows "\<exists>r. refresh_tokens db' = refresh_tokens db @ [r] \<and> rt_user_id r = us_id u
    \<and> rt_token_hash r = sha256_hex cr (rc_value cookie) \<and> rt_revoked_at r = None \<and> rt_expires_at r = now + REFRESH_LIFETIME"
proof -
  obtain fam db1 where f: "token_hex 16 db = (fam, db1)" by fastforce
  obtain access db2 where a: "create_token cr (us_public_id u) ACCESS secret ACCESS_LIFETIME None now db1 = (access, db2)" by fastforce
  obtain fresh db3 where n: "new_refresh cr (us_id u) fam now db2 = (fresh, db3)" by fastforce
  have "refresh_tokens db1 = refresh_tokens db" using f by (auto simp: token_hex_def draw_letters_def)
  then have "refresh_tokens db2 = refresh_tokens db"
    using create_token_keeps(1)[of cr "us_public_id u" ACCESS secret ACCESS_LIFETIME None now db1] a by simp
  moreover have "db' = db3" "rc_value cookie = fresh"
    using assms by (auto simp: signed_in_def issue_tokens_def f a n refresh_cookie_of_def)
  ultimately show ?thesis using new_refresh_table[of cr "us_id u" fam now db2] n by (simp add: n)
qed

lemma only_session:
  assumes dead: "\<forall>row \<in> set (refresh_tokens db). rt_user_id row = us_id u \<longrightarrow> rt_revoked_at row = Some (dead_since now)"
    and s: "signed_in cr secret env u now db = ((resp, cookie), db')"
    and look: "lookup_refresh cr session db' = Some row" "rt_user_id row = us_id u"
    and ok: "fst (rotate_refresh cr session sec later db') = Inr pair" and "now \<le> later"
  shows "sha256_hex cr session = sha256_hex cr (rc_value cookie)"
proof (rule ccontr)
  assume other: "sha256_hex cr session \<noteq> sha256_hex cr (rc_value cookie)"
  obtain r where r: "refresh_tokens db' = refresh_tokens db @ [r]" "rt_token_hash r = sha256_hex cr (rc_value cookie)"
    using signed_in_tokens[OF s] by blast
  have "row \<in> set (refresh_tokens db')" "rt_token_hash row = sha256_hex cr session"
    using look(1) by (auto simp: lookup_refresh_def dest: first_where_SomeD)
  then have "row \<in> set (refresh_tokens db) \<or> row = r" "row \<noteq> r" using r other by auto
  then have "row \<in> set (refresh_tokens db)" by blast
  then have "replayed row later" using dead look(2) replayed_dead[OF assms(6)] by blast
  with look(1) ok show False by (simp add: rotate_refresh_def split: if_splits)
qed

lemma revoke_all_dead:
  assumes "row \<in> set (refresh_tokens (revoke_all u now db))" and "rt_user_id row = u"
  shows "rt_revoked_at row = Some (dead_since now)"
proof -
  have "row \<in> rt_revoked_at_update (\<lambda>_. Some (dead_since now)) ` (set (refresh_tokens db) \<inter> {r. rt_user_id r = u})"
    using assms unfolding revoke_all_def revoke_where_def by simp
  then show ?thesis by (elim imageE) simp
qed

lemma reset_leaves_dead:
  assumes "complete_reset cr tok pw now db = Inr (u, db')"
  shows "\<forall>row \<in> set (refresh_tokens db'). rt_user_id row = us_id u \<longrightarrow> rt_revoked_at row = Some (dead_since now)"
  using complete_reset_shape[OF assms] revoke_all_dead by blast

lemma change_leaves_dead:
  assumes "change_password cr acct current new now db = Inr (u, db')"
  shows "\<forall>row \<in> set (refresh_tokens db'). rt_user_id row = us_id u \<longrightarrow> rt_revoked_at row = Some (dead_since now)"
proof -
  have "\<exists>db2. db' = revoke_all (us_id u) now db2"
    using assms by (auto simp: change_password_def Let_def hash_password_def split: if_splits)
  with revoke_all_dead show ?thesis by blast
qed

text \<open>What a new password leaves of the account: its row, and the tokens it had, every one dead.\<close>

lemma reset_row:
  assumes "complete_reset cr tok pw now db = Inr (u, db1)"
  shows "users db1 = put_row us_id u (users db) \<and> map rt_token_hash (refresh_tokens db1) = map rt_token_hash (refresh_tokens db)"
  using assms
  by (auto simp: complete_reset_def redeem_def bind_res_Inr_iff Let_def hash_password_def revoke_all_def revoke_where_def save_user_def
      comp_def if_distrib split: option.splits if_splits)

lemma change_row:
  assumes "change_password cr acct current new now db = Inr (u, db1)"
  shows "users db1 = put_row us_id u (users db) \<and> map rt_token_hash (refresh_tokens db1) = map rt_token_hash (refresh_tokens db)"
  using assms
  by (auto simp: change_password_def Let_def hash_password_def revoke_all_def revoke_where_def save_user_def comp_def if_distrib split: if_splits)

lemma signed_in_users: "signed_in cr secret env u now db = (a, db') \<Longrightarrow> users db' = users db"
  by (auto simp: signed_in_def issue_tokens_def token_hex_def draw_letters_def create_token_def new_refresh_def token_urlsafe_def Let_def case_prod_beta)

lemma fresh_session_works:
  assumes s: "signed_in cr secret env u now db1 = ((resp, cookie), db')"
    and rows: "users db1 = put_row us_id u (users db)" "map rt_token_hash (refresh_tokens db1) = map rt_token_hash (refresh_tokens db)"
    and known: "us_id u \<in> us_id ` set (users db)" "us_is_active u"
    and fresh: "\<forall>row \<in> set (refresh_tokens db). rt_token_hash row \<noteq> sha256_hex cr (rc_value cookie)" and t: "t < now + days 30"
  shows "\<exists>pair. fst (rotate_refresh cr (rc_value cookie) sec t db') = Inr pair"
proof -
  obtain r where r: "refresh_tokens db' = refresh_tokens db1 @ [r]" "rt_user_id r = us_id u" "rt_token_hash r = sha256_hex cr (rc_value cookie)"
    "rt_revoked_at r = None" "rt_expires_at r = now + REFRESH_LIFETIME" using signed_in_tokens[OF s] by blast
  have "sha256_hex cr (rc_value cookie) \<notin> rt_token_hash ` set (refresh_tokens db1)"
    using fresh rows(2) by (metis (no_types, lifting) image_iff list.set_map)
  then have "first_where (\<lambda>x. rt_token_hash x = sha256_hex cr (rc_value cookie)) (refresh_tokens db1) = None"
    unfolding first_where_None_iff by (metis imageI)
  then have look: "lookup_refresh cr (rc_value cookie) db' = Some r"
    using r by (simp add: lookup_refresh_def first_where_append)
  have "row_by us_id (users db') (us_id u) = Some u"
  proof -
    have "row_by us_id (users db) (us_id u) \<noteq> None" using known(1) by (auto simp: row_by_None_iff)
    then show ?thesis using signed_in_users[OF s] rows(1) by (auto simp: row_by_put_row)
  qed
  then show ?thesis unfolding rotate_success_iff using look r known(2) t by (auto simp: replayed_def REFRESH_LIFETIME_def)
qed

text \<open>
  C32. After a password is reset from a link, or changed while signed in, the account has exactly one
  session left in the world, the one the answer's cookie carries: whatever refresh token of that
  account is presented afterwards is exchanged only if it is that cookie's; and the cookie's is exchanged, at any
  moment of the thirty days it is given, when the account exists and is active and its new token is not one
  the table already knew.
\<close>

theorem one_session_after_a_new_password:
  assumes "reset_password cr secret env tok password now db = Inr ((resp, cookie), db') \<and> complete_reset cr tok password now db = Inr (u, db1)
      \<or> change_own_password cr secret env acct current new now db = Inr ((resp, cookie), db')
          \<and> change_password cr acct current new now db = Inr (u, db1)"
  shows "(\<forall>session row later sec pair. lookup_refresh cr session db' = Some row \<and> rt_user_id row = us_id u \<and> now \<le> later
        \<and> fst (rotate_refresh cr session sec later db') = Inr pair \<longrightarrow> sha256_hex cr session = sha256_hex cr (rc_value cookie))
    \<and> (us_is_active u \<and> us_id u \<in> us_id ` set (users db)
        \<and> (\<forall>row \<in> set (refresh_tokens db). rt_token_hash row \<noteq> sha256_hex cr (rc_value cookie)) \<longrightarrow>
        (\<forall>sec t. t < now + days 30 \<longrightarrow> (\<exists>pair. fst (rotate_refresh cr (rc_value cookie) sec t db') = Inr pair)))"
proof -
  have s: "signed_in cr secret env u now db1 = ((resp, cookie), db')"
    using assms by (auto simp: reset_password_def change_own_password_def)
  have dead: "\<forall>row \<in> set (refresh_tokens db1). rt_user_id row = us_id u \<longrightarrow> rt_revoked_at row = Some (dead_since now)"
    using assms reset_leaves_dead change_leaves_dead by blast
  have rows: "users db1 = put_row us_id u (users db)" "map rt_token_hash (refresh_tokens db1) = map rt_token_hash (refresh_tokens db)"
    using assms reset_row change_row by blast+
  show ?thesis using only_session[OF dead s] fresh_session_works[OF s rows] by blast
qed

text \<open>
  A refreshed session is described with the defaults of the answer: a guest who refreshes is told it is
  not a guest, and a verified account that it is not verified.
\<close>

lemma refresh_forgets_who_it_is:
  "refresh_session cr secret env cookie now db = Inr ((resp, c), db') \<Longrightarrow> \<not> tr_is_guest resp \<and> \<not> tr_email_verified resp"
  by (auto simp: refresh_session_def bind_res_Inr_iff split: if_splits)

lemma forgetting_tells_nothing:
  "fst (forgot_password cr send email now db) = fst (forgot_password cr send2 email2 now2 db2)"
  by (simp add: forgot_password_def case_prod_beta Let_def)

lemma new_password_example:
  "case change_own_password toy_crypto ''s'' ''dev'' user_example ''pw'' ''new'' 5 identity_blank of
     Inl _ \<Rightarrow> False | Inr ((resp, cookie), db') \<Rightarrow> rc_value cookie \<noteq> ''t1''"
  by code_simp

theorem one_session_after_a_new_password_witness:
  "\<exists>resp cookie db'. change_own_password toy_crypto ''s'' ''dev'' user_example ''pw'' ''new'' 5 identity_blank = Inr ((resp, cookie), db')
     \<and> (\<forall>pair. fst (rotate_refresh toy_crypto ''t1'' ''s'' 9 db') \<noteq> Inr pair)
     \<and> (\<exists>pair. fst (rotate_refresh toy_crypto (rc_value cookie) ''s'' 9 db') = Inr pair)"
proof -
  obtain resp cookie db' where go: "change_own_password toy_crypto ''s'' ''dev'' user_example ''pw'' ''new'' 5 identity_blank = Inr ((resp, cookie), db')"
    "rc_value cookie \<noteq> ''t1''" using new_password_example by (auto split: sum.splits prod.splits)
  obtain u db1 where ch: "change_password toy_crypto user_example ''pw'' ''new'' 5 identity_blank = Inr (u, db1)"
    "signed_in toy_crypto ''s'' ''dev'' u 5 db1 = ((resp, cookie), db')"
    using go(1) by (auto simp: change_own_password_def bind_res_Inr_iff)
  note both = one_session_after_a_new_password[OF disjI2[OF conjI[OF go(1) ch(1)]]]
  have u: "us_id u = 1" "us_is_active u" "\<forall>r \<in> set (refresh_tokens db1). rt_user_id r = 1"
    using ch(1) by (auto simp: change_password_def hash_password_def Let_def user_example_def revoke_all_def revoke_where_def save_user_def
        identity_blank_def refresh_example_def split: if_splits)
  obtain r where "refresh_tokens db' = refresh_tokens db1 @ [r]" "rt_user_id r = us_id u" using signed_in_tokens[OF ch(2)] by blast
  then have own: "rt_user_id row = us_id u" if "lookup_refresh toy_crypto ''t1'' db' = Some row" for row
    using that u by (auto simp: lookup_refresh_def dest!: first_where_SomeD)
  have "fst (rotate_refresh toy_crypto ''t1'' ''s'' 9 db') \<noteq> Inr pair" for pair
  proof
    assume ok: "fst (rotate_refresh toy_crypto ''t1'' ''s'' 9 db') = Inr pair"
    then obtain row where row: "lookup_refresh toy_crypto ''t1'' db' = Some row" by (cases "lookup_refresh toy_crypto ''t1'' db'") (auto simp: rotate_refresh_def)
    have "(5::int) \<le> 9" by simp
    with both row own[OF row] ok have "sha256_hex toy_crypto ''t1'' = sha256_hex toy_crypto (rc_value cookie)" by blast
    then show False using go(2) by (simp add: toy_crypto_def)
  qed
  moreover have "us_id u \<in> us_id ` set (users identity_blank)" using u(1) by (simp add: identity_blank_def user_example_def)
  moreover have "\<forall>row \<in> set (refresh_tokens identity_blank). rt_token_hash row \<noteq> sha256_hex toy_crypto (rc_value cookie)"
    using go(2) by (simp add: identity_blank_def refresh_example_def toy_crypto_def)
  moreover have "(9::int) < 5 + days 30" by (simp add: days_def hours_def minutes_def seconds_def)
  ultimately show ?thesis using both u(2) go(1) by blast
qed

end
