(* ===== verification/WebhookApi.thy ===== *)
theory WebhookApi
  imports StudentApi
begin

text \<open>
  \<^verbatim>\<open>api/webhooks.py\<close>: the two doors Razorpay delivers to, the platform's and one per owner. The door
  names the account, the account selects the secret, and only then is the body read.
\<close>

definition UNKNOWN_ACCOUNT :: string where
  "UNKNOWN_ACCOUNT = ''No such webhook endpoint.''"

definition deliver ::
  "mac \<Rightarrow> (string \<Rightarrow> pyval option) \<Rightarrow> secret_box \<Rightarrow> razorpay_settings \<Rightarrow> string \<Rightarrow> string option \<Rightarrow> nat option \<Rightarrow> datetime \<Rightarrow>
   'a orders_db_scheme \<Rightarrow> (webhook_outcome \<times> 'a orders_db_scheme) result" where
  "deliver mac parse box cfg body sg who now db =
     bind_res (webhook_secret_for who box (se_webhook_secret cfg) db) (\<lambda>secret.
       handle_webhook mac parse body sg secret (webhook_settlement now) (Some (order_refund_sink now)) who now db)"

definition platform_webhook ::
  "mac \<Rightarrow> (string \<Rightarrow> pyval option) \<Rightarrow> secret_box \<Rightarrow> razorpay_settings \<Rightarrow> string \<Rightarrow> string option \<Rightarrow> datetime \<Rightarrow>
   'a orders_db_scheme \<Rightarrow> (webhook_outcome \<times> 'a orders_db_scheme) result" where
  "platform_webhook mac parse box cfg body sg now db = deliver mac parse box cfg body sg None now db"

definition owner_webhook ::
  "mac \<Rightarrow> (string \<Rightarrow> pyval option) \<Rightarrow> secret_box \<Rightarrow> razorpay_settings \<Rightarrow> string \<Rightarrow> string \<Rightarrow> string option \<Rightarrow> datetime \<Rightarrow>
   'a orders_db_scheme \<Rightarrow> (webhook_outcome \<times> 'a orders_db_scheme) result" where
  "owner_webhook mac parse box cfg owner_id body sg now db =
     (case get_by_public_id owner_id db of
        None \<Rightarrow> Inl (NotFound UNKNOWN_ACCOUNT)
      | Some owner \<Rightarrow> deliver mac parse box cfg body sg (Some (us_id owner)) now db)"

section \<open>A door moves its own payments\<close>

definition touches :: "payment \<Rightarrow> payment list \<Rightarrow> payment list \<Rightarrow> bool" where
  "touches p ps ps' \<longleftrightarrow> ps' = ps \<or> (\<exists>p'. py_id p' = py_id p \<and> ps' = put_row py_id p' ps)"

lemma touches_put: "py_id p' = py_id p \<Longrightarrow> touches p ps (put_row py_id p' ps)"
  by (auto simp: touches_def)

lemma refund_touches:
  fixes db :: "'a orders_db_scheme"
  assumes "refund p amount TO_SOURCE key actor reason None None ext (Some (order_refund_sink now)) db = Inr (r, p', db')"
  shows "touches p (payments db) (payments db')"
proof (cases "refund_for_key key db")
  case None
  from assms None show ?thesis
  proof (cases rule: refund_new_cases)
    case (1 db1 db3)
    then have "payments db3 = put_row py_id p' (payments db)" "py_id p' = py_id p"
      by (simp_all add: save_payment_def after_refund_def Let_def)
    then show ?thesis using 1 by (auto simp: touches_def order_refund_sink_def apply_payment_refund_frame)
  qed
next
  case (Some old)
  then have "db' = db" using assms by (auto simp: refund_def Let_def bind_res_Inr_iff split: if_splits)
  then show ?thesis by (simp add: touches_def)
qed

lemma external_refund_touches:
  fixes db :: "'a orders_db_scheme"
  assumes "record_external_refund p ref (Some (order_refund_sink now)) db = Inr (out, db')"
  shows "touches p (payments db) (payments db')"
proof (cases "db' = db")
  case False
  obtain raw_id raw_amount where k: "get_key ref ''id'' PNone = Inr raw_id" "get_key ref ''amount'' PNone = Inr raw_amount"
    using assms by (auto simp: record_external_refund_def bind_res_Inr_iff)
  have c: "py_truth raw_id" "as_int raw_amount \<noteq> None" using assms False by (auto simp: record_external_refund_def k split: if_splits)
  then obtain i where i: "as_text raw_id = Inr i" "refund_for_razorpay_id i db = None"
    using assms False by (auto simp: record_external_refund_def k bind_res_Inr_iff split: if_splits)
  note g = k c i
  let ?run = "refund p (from_paise (the (as_int raw_amount))) TO_SOURCE (external_key i) None (Some REFUND_AT_RAZORPAY) None None
        (Some i) (Some (order_refund_sink now)) db"
  obtain r p' where "?run = Inr (r, p', db')"
  proof (cases ?run)
    case (Inl e)
    then show ?thesis using assms g False by (auto simp: record_external_refund_def split: app_error.splits)
  next
    case (Inr x)
    then show ?thesis using assms g that by (cases x) (auto simp: record_external_refund_def)
  qed
  then show ?thesis by (rule refund_touches)
qed (simp add: touches_def)

lemma delivery_touches:
  fixes db :: "'a orders_db_scheme"
  assumes "apply_delivery dl p (webhook_settlement now) (Some (order_refund_sink now)) now db = Inr (out, db')"
  shows "touches p (payments db) (payments db')"
proof (cases "dl_event dl = EVENT_REFUNDED")
  case True
  then show ?thesis using assms external_refund_touches by (simp add: apply_delivery_def Let_def)
next
  case other: False
  show ?thesis
  proof (cases "payments db' = payments db")
    case False
    show ?thesis
    proof (cases "dl_event dl = EVENT_FAILED")
      case True
      then obtain reason p' where "record_failure p reason db = Inr (p', db')"
        using assms other False by (auto simp: apply_delivery_def Let_def bind_res_Inr_iff split: if_splits)
      then have "payments db' = put_row py_id p' (payments db)" "py_id p' = py_id p"
        by (auto simp: record_failure_def save_payment_def Let_def split: if_splits)
      then show ?thesis using touches_put by metis
    next
      case False
      then obtain i p' db1 where "record_capture p i now db = Inr (p', db1)" "settle (webhook_settlement now) p' db1 = Inr db'"
        using assms other \<open>payments db' \<noteq> payments db\<close> by (auto simp: apply_delivery_def Let_def bind_res_Inr_iff split: if_splits)
      moreover from wired.settle_keeps[OF this(2)] have "payments db' = payments db1" by simp
      ultimately have "payments db' = put_row py_id p' (payments db)" "py_id p' = py_id p"
        by (auto simp: record_capture_def save_payment_def Let_def split: if_splits)
      then show ?thesis using touches_put by metis
    qed
  qed (simp add: touches_def)
qed

text \<open>
  C31. The door names the account, and behind it only that account's takings move: a delivery
  accepted at an owner's door leaves every payment another account collected, the platform's included,
  exactly as it was, and changes something only under the owner's own signing secret: a door that names
  nobody accepts nothing, and one whose owner has set no secret changes nothing.
\<close>

theorem an_owners_door_moves_its_own:
  fixes db :: "'a orders_db_scheme"
  assumes ok: "books_ok db" and run: "owner_webhook mac parse box cfg owner_id body sg now db = Inr (out, db')"
  shows "\<exists>owner secret. get_by_public_id owner_id db = Some owner
    \<and> webhook_secret_for (Some (us_id owner)) box (se_webhook_secret cfg) db = Inr secret
    \<and> (\<forall>q \<in> set (payments db). py_collecting_user_id q \<noteq> Some (us_id owner) \<longrightarrow> q \<in> set (payments db'))
    \<and> (db' \<noteq> db \<longrightarrow> secret \<noteq> [] \<and> (\<exists>s. sg = Some s \<and> strip s = mac secret body))"
proof -
  obtain owner secret where o: "get_by_public_id owner_id db = Some owner"
    "webhook_secret_for (Some (us_id owner)) box (se_webhook_secret cfg) db = Inr secret"
    "handle_webhook mac parse body sg secret (webhook_settlement now) (Some (order_refund_sink now)) (Some (us_id owner)) now db = Inr (out, db')"
    using run by (auto simp: owner_webhook_def deliver_def bind_res_Inr_iff split: option.splits)
  from o(3) show ?thesis
  proof (cases rule: handle_webhook_cases)
    case nothing
    with o(1,2) show ?thesis by auto
  next
    case (applied payload dl p)
    from delivery_touches[OF applied(8)] have t: "touches p (payments db) (payments db')" .
    have others: "q \<in> set (payments db')" if q: "q \<in> set (payments db)" "py_collecting_user_id q \<noteq> Some (us_id owner)" for q
    proof -
      have "py_id q \<noteq> py_id p"
      proof
        assume "py_id q = py_id p"
        then have "q = p" using books_ok_ids[OF ok] q(1) applied(5) by (metis row_by_distinct option.inject)
        with q(2) applied(7) show False by simp
      qed
      then show ?thesis using t q(1) by (auto simp: touches_def set_put_row)
    qed
    have "secret \<noteq> [] \<and> (\<exists>s. sg = Some s \<and> strip s = mac secret body)"
      using applied(1) by (auto simp: verify_webhook_signature_def signature_matches_def compare_digest_def split: if_splits option.splits)
    with o(1,2) others show ?thesis by blast
  qed
qed

definition owners_example :: orders_db where
  "owners_example = capturing_example\<lparr>users := [user_example],
     payment_configs := [config_example\<lparr>pc_webhook_secret_encrypted := Some ''ekey''\<rparr>]\<rparr>"

theorem an_owners_door_moves_its_own_witness:
  "\<exists>out db'. owner_webhook toy_mac (\<lambda>_. Some capture_body) toy_box card_settings ''usr_0000000000000000'' ''body'' (Some ''mac:key:body'') 9 owners_example
      = Inr (out, db') \<and> wo_handled out
    \<and> (\<forall>q \<in> set (payments owners_example). py_collecting_user_id q \<noteq> Some 1 \<longrightarrow> q \<in> set (payments db'))"
proof -
  have t: "payments owners_example = payments capturing_example" "refunds owners_example = refunds capturing_example"
    "orders owners_example = orders capturing_example" "order_items owners_example = order_items capturing_example"
    "users owners_example = [user_example]" by (simp_all add: owners_example_def)
  have ok: "books_ok owners_example" "orders_ok owners_example"
    using capturing_example_ok(1,2) by (simp_all add: books_ok_def orders_ok_def t)
  note c = capturing_example_ok(3-9)[folded t]
  have "\<exists>x. parse_id ''usr_0000000000000000'' USER = Inr x"
    by (rule exI[of _ "(case parse_id ''usr_0000000000000000'' USER of Inr x \<Rightarrow> x)"]) code_simp
  then have who: "get_by_public_id ''usr_0000000000000000'' owners_example = Some user_example"
    by (auto simp: get_by_public_id_def t user_example_def)
  have sec: "webhook_secret_for (Some 1) toy_box (se_webhook_secret card_settings) owners_example = Inr ''key''"
    by (simp add: webhook_secret_for_def get_config_def owners_example_def config_example_def decrypt_webhook_secret_def truthy_def
        decrypt_def toy_box_def)
  from capture_settles_shape[OF ok c(1-6), of 9 "Some (order_refund_sink 9)"] obtain out db' where
    run: "handle_webhook toy_mac (\<lambda>_. Some capture_body) ''body'' (Some ''mac:key:body'') ''key'' (webhook_settlement 9)
      (Some (order_refund_sink 9)) (Some 1) 9 owners_example = Inr (out, db')" "wo_handled out"
    unfolding order_example_payable sum.case c(7) by blast
  then have go: "owner_webhook toy_mac (\<lambda>_. Some capture_body) toy_box card_settings ''usr_0000000000000000'' ''body'' (Some ''mac:key:body'') 9 owners_example
      = Inr (out, db')"
    using who sec by (simp add: owner_webhook_def deliver_def user_example_def)
  from an_owners_door_moves_its_own[OF ok(1) this] who go run(2) show ?thesis by (auto simp: user_example_def)
qed

end
