(* ===== verification/OwnerApi.thy ===== *)
theory OwnerApi
  imports DeviceApi
begin

text \<open>
  \<^verbatim>\<open>api/owner/kiosks.py\<close>: what an owner can do with a shop, its prices, its paper, its staff and its
  machine. Every route of the router passes \<open>owner_route\<close> of KioskAccess first; the signed-in account is
  an argument.
\<close>

section \<open>The shop\<close>

record owner_kiosk =
  ow_id :: string
  ow_name :: string
  ow_kiosk_type :: kiosk_type
  ow_stage :: onboarding_stage
  ow_note :: "string option"
  ow_is_active :: bool
  ow_is_selling :: bool
  ow_accepts_wallet :: bool
  ow_offers_colour :: bool
  ow_location :: "string option"
  ow_paper :: paper_response

definition owner_kiosk_of :: "kiosk \<Rightarrow> 'a kiosks_db_scheme \<Rightarrow> owner_kiosk \<times> 'a kiosks_db_scheme" where
  "owner_kiosk_of k db =
     (let (p, db1) = paper_of k db
      in (\<lparr>ow_id = ki_public_id k, ow_name = ki_name k, ow_kiosk_type = ki_type k, ow_stage = ki_stage k,
           ow_note = ki_note k, ow_is_active = ki_is_active k, ow_is_selling = is_selling k,
           ow_accepts_wallet = ki_accepts_wallet k, ow_offers_colour = ki_offers_colour k,
           ow_location = ki_location k, ow_paper = p\<rparr>, db1))"

definition list_my_kiosks :: "user \<Rightarrow> 'a kiosks_db_scheme \<Rightarrow> (owner_kiosk list \<times> 'a kiosks_db_scheme) result" where
  "list_my_kiosks u db =
     bind_res (require_any_role {OWNER, ADMIN} u db) (\<lambda>_.
       Inr (each_shop owner_kiosk_of (list_kiosks (kiosk_scope u db) False db) db))"

definition get_my_kiosk :: "user \<Rightarrow> string \<Rightarrow> 'a kiosks_db_scheme \<Rightarrow> (owner_kiosk \<times> 'a kiosks_db_scheme) result" where
  "get_my_kiosk u kiosk_id db = bind_res (owner_route u kiosk_id db) (\<lambda>k. Inr (owner_kiosk_of k db))"

definition set_colour ::
  "user \<Rightarrow> string \<Rightarrow> bool \<Rightarrow> 'a kiosks_db_scheme \<Rightarrow> (owner_kiosk \<times> 'a kiosks_db_scheme) result" where
  "set_colour u kiosk_id offers_colour db =
     bind_res (owner_route u kiosk_id db) (\<lambda>k.
       let (k', db1) = set_offers_colour k offers_colour db;
           (_, db2) = record_audit ''kiosk.colour.changed'' ''kiosk'' (Some (ki_public_id k')) (Some (us_id u))
             (Some (PDict [(''offers_colour'', PBool (ki_offers_colour k))]))
             (Some (PDict [(''offers_colour'', PBool (ki_offers_colour k'))])) None db1
       in Inr (owner_kiosk_of k' db2))"

section \<open>Prices and paper\<close>

definition get_pricing ::
  "'a kiosks_db_scheme band_source \<Rightarrow> user \<Rightarrow> string \<Rightarrow> 'a kiosks_db_scheme \<Rightarrow> ((string \<times> rat) list \<times> price_band) result" where
  "get_pricing bands u kiosk_id db =
     bind_res (owner_route u kiosk_id db) (\<lambda>k. Inr (read_pricing bands k db))"

record pricing_update =
  pu_bw_single :: "rat option"
  pu_bw_double :: "rat option"
  pu_color_single :: "rat option"
  pu_color_double :: "rat option"

text \<open>\<^verbatim>\<open>payload.model_dump(exclude_none=True)\<close>\<close>

definition given_prices :: "pricing_update \<Rightarrow> (string \<times> rat option) list" where
  "given_prices p =
     filter (\<lambda>(_, v). v \<noteq> None)
       [(''bw_single'', pu_bw_single p), (''bw_double'', pu_bw_double p),
        (''color_single'', pu_color_single p), (''color_double'', pu_color_double p)]"

definition update_pricing ::
  "'a kiosks_db_scheme band_source \<Rightarrow> user \<Rightarrow> string \<Rightarrow> pricing_update \<Rightarrow> 'a kiosks_db_scheme \<Rightarrow>
   (((string \<times> rat) list \<times> price_band) \<times> 'a kiosks_db_scheme) result" where
  "update_pricing bands u kiosk_id payload db =
     bind_res (owner_route u kiosk_id db) (\<lambda>k.
     bind_res (set_pricing bands k (given_prices payload) db) (\<lambda>(pricing, _, db1). Inr (pricing, db1)))"

definition owner_paper :: "user \<Rightarrow> string \<Rightarrow> 'a kiosks_db_scheme \<Rightarrow> (paper_response \<times> 'a kiosks_db_scheme) result" where
  "owner_paper u kiosk_id db = bind_res (owner_route u kiosk_id db) (\<lambda>k. Inr (paper_of k db))"

definition owner_update_paper ::
  "user \<Rightarrow> string \<Rightarrow> int option \<Rightarrow> int option \<Rightarrow> string option \<Rightarrow> 'a kiosks_db_scheme \<Rightarrow>
   (paper_response \<times> 'a kiosks_db_scheme) result" where
  "owner_update_paper u kiosk_id capacity sheets_left why db =
     bind_res (owner_route u kiosk_id db) (\<lambda>k.
     bind_res (set_paper k capacity sheets_left (Some (us_id u)) why db) (\<lambda>(_, db1). Inr (paper_of k db1)))"

definition refill_paper :: "user \<Rightarrow> string \<Rightarrow> 'a kiosks_db_scheme \<Rightarrow> (paper_response \<times> 'a kiosks_db_scheme) result" where
  "refill_paper u kiosk_id db =
     bind_res (owner_route u kiosk_id db) (\<lambda>k. Inr (paper_of k (snd (reset_paper k (Some (us_id u)) db))))"

definition owner_refill_logs :: "user \<Rightarrow> string \<Rightarrow> int \<Rightarrow> 'a kiosks_db_scheme \<Rightarrow> paper_refill_log list result" where
  "owner_refill_logs u kiosk_id limit db =
     bind_res (owner_route u kiosk_id db) (\<lambda>k. Inr (list_refill_logs k limit db))"

section \<open>Staff\<close>

fun assignment_role_value :: "assignment_role \<Rightarrow> string" where
  "assignment_role_value KIOSK_OWNER = ''owner''"
| "assignment_role_value KIOSK_REFILLER = ''refiller''"

definition role_from :: "string \<Rightarrow> string \<Rightarrow> assignment_role result" where
  "role_from raw complaint =
     (case find (\<lambda>r. assignment_role_value r = raw) [KIOSK_OWNER, KIOSK_REFILLER] of
        Some r \<Rightarrow> Inr r
      | None \<Rightarrow> Inl (BadRequest (py_repr raw @ complaint)))"

definition kiosk_staff :: "user \<Rightarrow> string \<Rightarrow> 'a kiosks_db_scheme \<Rightarrow> (user \<times> assignment_role) list result" where
  "kiosk_staff u kiosk_id db = bind_res (owner_route u kiosk_id db) (\<lambda>k. Inr (list_staff k db))"

definition invite ::
  "crypto \<Rightarrow> 'a kiosks_db_scheme notifier \<Rightarrow> user \<Rightarrow> string \<Rightarrow> string \<Rightarrow> string \<Rightarrow> datetime \<Rightarrow> 'a kiosks_db_scheme \<Rightarrow>
   'a kiosks_db_scheme result" where
  "invite cr send u kiosk_id email raw_role now db =
     bind_res (owner_route u kiosk_id db) (\<lambda>k.
     bind_res (role_from raw_role '' is not a role you can invite.'') (\<lambda>role.
     bind_res (invite_staff cr k email role (us_id u) now db) (\<lambda>(token, db1).
       Inr (send (StaffInvite email token (ki_name k)) db1))))"

definition remove_staff ::
  "user \<Rightarrow> string \<Rightarrow> string \<Rightarrow> string \<Rightarrow> 'a kiosks_db_scheme \<Rightarrow> 'a kiosks_db_scheme result" where
  "remove_staff u kiosk_id user_id raw_role db =
     bind_res (owner_route u kiosk_id db) (\<lambda>k.
     bind_res (role_from raw_role '' is not a role.'') (\<lambda>role.
     bind_res (resolve_staff_user k user_id db) (\<lambda>target. Inr (unassign k (us_id target) role db))))"

section \<open>The machine in the shop\<close>

record device_status_response =
  dx_registered :: bool
  dx_device_key :: "string option"
  dx_status :: "device_status option"
  dx_agent_version :: "string option"
  dx_ssh_host :: "string option"
  dx_last_heartbeat_at :: "datetime option"
  dx_online :: bool
  dx_stuck_since :: "datetime option"

definition status_of_device :: "user \<Rightarrow> string \<Rightarrow> datetime \<Rightarrow> 'a kiosks_db_scheme \<Rightarrow> device_status_response result" where
  "status_of_device u kiosk_id now db =
     bind_res (owner_route u kiosk_id db) (\<lambda>k.
       case device_of k db of
         None \<Rightarrow> Inr \<lparr>dx_registered = False, dx_device_key = None, dx_status = None, dx_agent_version = None,
                      dx_ssh_host = None, dx_last_heartbeat_at = None, dx_online = False, dx_stuck_since = None\<rparr>
       | Some d \<Rightarrow> Inr \<lparr>dx_registered = True, dx_device_key = Some (kd_device_key d), dx_status = Some (kd_status d),
                      dx_agent_version = kd_agent_version d, dx_ssh_host = kd_ssh_host d,
                      dx_last_heartbeat_at = kd_last_heartbeat_at d, dx_online = is_online (Some d) now,
                      dx_stuck_since = kd_stuck_since d\<rparr>)"

definition enrol_device ::
  "crypto \<Rightarrow> user \<Rightarrow> string \<Rightarrow> datetime \<Rightarrow> 'a kiosks_db_scheme \<Rightarrow> (issued_enrolment \<times> 'a kiosks_db_scheme) result" where
  "enrol_device cr u kiosk_id now db =
     bind_res (owner_route u kiosk_id db) (\<lambda>k. Inr (issue_enrolment_code cr k (Some (us_id u)) now db))"

definition revoke_kiosk_device :: "user \<Rightarrow> string \<Rightarrow> 'a kiosks_db_scheme \<Rightarrow> 'a kiosks_db_scheme result" where
  "revoke_kiosk_device u kiosk_id db = bind_res (owner_route u kiosk_id db) (\<lambda>k. Inr (revoke_device k db))"

fun command_value :: "device_command_kind \<Rightarrow> string" where
  "command_value RESTART_AGENT = ''restart_agent''"
| "command_value RESTART_PRINTING = ''restart_printing''"
| "command_value UPDATE_AGENT = ''update_agent''"

definition ask_the_machine ::
  "user \<Rightarrow> string \<Rightarrow> device_command_kind \<Rightarrow> datetime \<Rightarrow> 'a kiosks_db_scheme \<Rightarrow> (device_command \<times> 'a kiosks_db_scheme) result" where
  "ask_the_machine u kiosk_id kind now db =
     bind_res (owner_route u kiosk_id db) (\<lambda>k.
     bind_res (request_command k kind (Some (us_id u)) now db) (\<lambda>(c, db1).
       Inr (c, snd (record_audit ''kiosk.device.command.requested'' ''kiosk'' (Some (ki_public_id k)) (Some (us_id u)) None
         (Some (PDict [(''command'', PStr (command_value (dc_kind c))), (''command_id'', PStr (dc_public_id c))])) None db1))))"

text \<open>A negative limit is an error of the database.\<close>

definition machine_commands :: "user \<Rightarrow> string \<Rightarrow> int \<Rightarrow> 'a kiosks_db_scheme \<Rightarrow> device_command list result" where
  "machine_commands u kiosk_id limit db =
     bind_res (owner_route u kiosk_id db) (\<lambda>k.
       if limit < 0 then Inl (Unhandled ''DataError'') else Inr (recent_commands k (nat limit) db))"

text \<open>\<^verbatim>\<open>set_status\<close> as it is called: the text of the stage, and the shop as the answer shows it.\<close>

definition stage_from :: "string \<Rightarrow> onboarding_stage result" where
  "stage_from raw =
     (case find (\<lambda>st. stage_value st = raw)
             [REGISTERED, APPROVED, CONFIGURED, LIVE, MAINTENANCE, SUSPENDED_BILLING, RETIRED] of
        Some st \<Rightarrow> Inr st
      | None \<Rightarrow> Inl (BadRequest (py_repr raw @ '' is not a kiosk status.'')))"

definition post_status ::
  "'a kiosks_db_scheme billing_check \<Rightarrow> user \<Rightarrow> string \<Rightarrow> string \<Rightarrow> 'a kiosks_db_scheme \<Rightarrow>
   (owner_kiosk \<times> 'a kiosks_db_scheme) result" where
  "post_status billing u kiosk_id raw db =
     bind_res (owner_route u kiosk_id db) (\<lambda>_.
     bind_res (stage_from raw) (\<lambda>target.
     bind_res (set_status billing u kiosk_id target db) (\<lambda>(k', db1). Inr (owner_kiosk_of k' db1))))"

section \<open>Staying within reach\<close>

text \<open>Everything the database keeps about one shop, and everything it keeps about none.\<close>

definition at_shop where
  "at_shop j db =
     (filter (\<lambda>k. ki_id k = j) (kiosks db), filter (\<lambda>p. kp_kiosk_id p = j) (kiosk_papers db),
      filter (\<lambda>d. kd_kiosk_id d = j) (kiosk_devices db), filter (\<lambda>e. de_kiosk_id e = j) (device_enrolments db),
      filter (\<lambda>a. ka_kiosk_id a = j) (kiosk_assignments db), filter (\<lambda>i. si_kiosk_id i = j) (staff_invites db),
      filter (\<lambda>c. dc_kiosk_id c = j) (device_commands db), filter (\<lambda>l. pl_kiosk_id l = j) (paper_refill_logs db))"

definition beyond_shops where
  "beyond_shops db = (users db, user_roles db, one_time_tokens db, refresh_tokens db, admin_alerts db,
     kiosk_favourites db, kiosks_db.more db)"

definition only_within :: "nat set \<Rightarrow> 'a kiosks_db_scheme \<Rightarrow> 'a kiosks_db_scheme \<Rightarrow> bool" where
  "only_within A db db' \<longleftrightarrow> (\<forall>j. j \<notin> A \<longrightarrow> at_shop j db' = at_shop j db) \<and> beyond_shops db' = beyond_shops db"

lemma only_within_refl [simp]: "only_within A db db"
  by (simp add: only_within_def)

lemma only_within_trans: "only_within A a b \<Longrightarrow> only_within A b c \<Longrightarrow> only_within A a c"
  by (simp add: only_within_def)

lemma filter_put_row_other: "key r \<noteq> j \<Longrightarrow> filter (\<lambda>x. key x = j) (put_row key r rows) = filter (\<lambda>x. key x = j) rows"
  by (induction rows) auto

lemma filter_map_other:
  "(\<And>x. P x \<Longrightarrow> f x = x) \<Longrightarrow> (\<And>x. \<not> P x \<Longrightarrow> \<not> P (f x)) \<Longrightarrow> filter P (map f xs) = filter P xs"
  by (induction xs) auto

lemma within_kiosk: "ki_id k \<in> A \<Longrightarrow> only_within A db (save_kiosk k db)"
  by (auto simp: only_within_def at_shop_def beyond_shops_def save_kiosk_def intro!: filter_put_row_other)

lemma within_audit: "only_within A db (snd (record_audit a t i who b c n db))"
  by (simp add: only_within_def at_shop_def beyond_shops_def record_audit_def Let_def)

lemma within_paper_row: "ki_id k \<in> A \<Longrightarrow> only_within A db (snd (paper_row k db))"
  by (auto simp: only_within_def at_shop_def beyond_shops_def paper_row_def Let_def split: option.splits)

lemma within_save_paper: "kp_kiosk_id p \<in> A \<Longrightarrow> only_within A db (save_paper p db)"
  by (auto simp: only_within_def at_shop_def beyond_shops_def save_paper_def intro!: filter_put_row_other)

lemma within_log:
  assumes "ki_id k \<in> A" shows "only_within A db (log_paper k p a b who n act db)"
  using assms by (auto simp: only_within_def at_shop_def beyond_shops_def log_paper_def record_audit_def Let_def)

lemma paper_row_key: "kp_kiosk_id (fst (paper_row k db)) = ki_id k"
  by (auto simp: paper_row_def Let_def split: option.splits dest: row_by_SomeD)

lemma within_tray:
  assumes "ki_id k \<in> A" and "kp_kiosk_id p = ki_id k"
  shows "only_within A db (log_paper k p a b who n act (save_paper p (snd (paper_row k db))))"
  using assms within_paper_row[of k A db] within_save_paper[of p A "snd (paper_row k db)"] within_log[of k A]
  by (metis only_within_trans)

lemma within_paper_of: "ki_id k \<in> A \<Longrightarrow> only_within A db (snd (paper_of k db))"
  using within_paper_row[of k A db] by (simp add: paper_of_def sheets_remaining_def Let_def case_prod_beta)

lemma within_owner_kiosk_of: "ki_id k \<in> A \<Longrightarrow> only_within A db (snd (owner_kiosk_of k db))"
  using within_paper_of[of k A db] by (simp add: owner_kiosk_of_def Let_def case_prod_beta)

lemma within_reset: "ki_id k \<in> A \<Longrightarrow> only_within A db (snd (reset_paper k who db))"
  using within_tray[of k A "clear_warning_throttle (fst (paper_row k db)\<lparr>kp_used := 0\<rparr>)"] paper_row_key[of k db]
  by (simp add: reset_paper_def Let_def case_prod_beta clear_warning_throttle_def)

lemma within_set_paper: "ki_id k \<in> A \<Longrightarrow> set_paper k c s who n db = Inr (m, db') \<Longrightarrow> only_within A db db'"
  by (auto simp: set_paper_def Let_def case_prod_beta bind_res_Inr_iff clear_warning_throttle_def paper_row_key
      intro!: within_tray split: if_splits option.splits)

lemma within_move: "ki_id k \<in> A \<Longrightarrow> move_to oc k target n db = Inr (k', db') \<Longrightarrow> only_within A db db' \<and> ki_id k' \<in> A"
  by (drule move_to_InrD) (auto intro: within_kiosk)

lemma within_invite:
  "ki_id k \<in> A \<Longrightarrow> invite_staff cr k email role who now db = Inr (tok, db') \<Longrightarrow> only_within A db db'"
  by (auto simp: invite_staff_def Let_def case_prod_beta only_within_def at_shop_def beyond_shops_def token_urlsafe_def
      draw_letters_def open_invite_def split: if_splits list.splits intro!: filter_map_other)

lemma within_unassign: "ki_id k \<in> A \<Longrightarrow> only_within A db (unassign k i role db)"
  by (auto simp: only_within_def at_shop_def beyond_shops_def unassign_def intro!: filter_cong)

lemma within_enrol: "ki_id k \<in> A \<Longrightarrow> only_within A db (snd (issue_enrolment_code cr k who now db))"
  by (auto simp: issue_enrolment_code_def Let_def case_prod_beta only_within_def at_shop_def beyond_shops_def
      token_urlsafe_def draw_letters_def intro!: filter_map_other split: if_splits)

lemma within_revoke: "ki_id k \<in> A \<Longrightarrow> only_within A db (revoke_device k db)"
  by (auto simp: only_within_def at_shop_def beyond_shops_def revoke_device_def intro!: filter_cong)

lemma within_command:
  "ki_id k \<in> A \<Longrightarrow> request_command k kind who now db = Inr (c, db') \<Longrightarrow> only_within A db db'"
  by (auto simp: request_command_def mint_def Let_def only_within_def at_shop_def beyond_shops_def mark_for_wake_def
      split: if_splits option.splits)

text \<open>
  One request of a signed-in account to the router, whatever its body; the mail that an invitation sends
  leaves the database alone.
\<close>

definition no_mail :: "'s notifier" where
  "no_mail m s = s"

inductive owner_step ::
  "crypto \<Rightarrow> 'a kiosks_db_scheme billing_check \<Rightarrow> 'a kiosks_db_scheme band_source \<Rightarrow> user \<Rightarrow>
   'a kiosks_db_scheme \<Rightarrow> 'a kiosks_db_scheme \<Rightarrow> bool"
  for cr :: crypto and billing :: "'a kiosks_db_scheme billing_check" and bands :: "'a kiosks_db_scheme band_source" and u :: user
where
  listed: "list_my_kiosks u db = Inr (ks, db') \<Longrightarrow> owner_step cr billing bands u db db'"
| looked: "get_my_kiosk u kid db = Inr (k, db') \<Longrightarrow> owner_step cr billing bands u db db'"
| moved: "post_status billing u kid raw db = Inr (k, db') \<Longrightarrow> owner_step cr billing bands u db db'"
| coloured: "set_colour u kid offers db = Inr (k, db') \<Longrightarrow> owner_step cr billing bands u db db'"
| priced: "update_pricing bands u kid payload db = Inr (r, db') \<Longrightarrow> owner_step cr billing bands u db db'"
| weighed: "owner_paper u kid db = Inr (r, db') \<Longrightarrow> owner_step cr billing bands u db db'"
| stocked: "owner_update_paper u kid c s why db = Inr (r, db') \<Longrightarrow> owner_step cr billing bands u db db'"
| refilled: "refill_paper u kid db = Inr (r, db') \<Longrightarrow> owner_step cr billing bands u db db'"
| invited: "invite cr no_mail u kid email role now db = Inr db' \<Longrightarrow> owner_step cr billing bands u db db'"
| removed: "remove_staff u kid who role db = Inr db' \<Longrightarrow> owner_step cr billing bands u db db'"
| enrolled: "enrol_device cr u kid now db = Inr (code, db') \<Longrightarrow> owner_step cr billing bands u db db'"
| detached: "revoke_kiosk_device u kid db = Inr db' \<Longrightarrow> owner_step cr billing bands u db db'"
| commanded: "ask_the_machine u kid kind now db = Inr (c, db') \<Longrightarrow> owner_step cr billing bands u db db'"

definition in_reach :: "user \<Rightarrow> 'a kiosks_db_scheme \<Rightarrow> nat set" where
  "in_reach u db = {j. allows (kiosk_scope u db) j}"

lemma owner_route_reach: "owner_route u kid db = Inr k \<Longrightarrow> ki_id k \<in> in_reach u db"
  by (auto simp: owner_route_def bind_res_Inr_iff get_kiosk_Inr_iff in_reach_def)

lemma within_each:
  "ki_id ` set ks \<subseteq> A \<Longrightarrow> only_within A db (snd (each_shop owner_kiosk_of ks db))"
proof (induction ks arbitrary: db)
  case (Cons k ks)
  then have "only_within A db (snd (owner_kiosk_of k db))" by (auto intro: within_owner_kiosk_of)
  with Cons show ?case by (auto simp: Let_def case_prod_beta intro: only_within_trans)
qed simp

lemma within_seen: "ki_id k \<in> A \<Longrightarrow> only_within A db db1 \<Longrightarrow> owner_kiosk_of k db1 = (r, db') \<Longrightarrow> only_within A db db'"
  using within_owner_kiosk_of[of k A db1] by (auto intro: only_within_trans)

lemma within_tray_seen: "ki_id k \<in> A \<Longrightarrow> only_within A db db1 \<Longrightarrow> paper_of k db1 = (r, db') \<Longrightarrow> only_within A db db'"
  using within_paper_of[of k A db1] by (auto intro: only_within_trans)

lemma owner_step_within:
  assumes "owner_step cr billing bands u db db'" shows "only_within (in_reach u db) db db'"
  using assms
proof cases
  case (listed ks)
  have "ki_id ` set (list_kiosks (kiosk_scope u db) False db) \<subseteq> in_reach u db"
    by (auto simp: list_kiosks_def in_reach_def allows_def)
  from within_each[OF this, of db] show ?thesis using listed by (auto simp: list_my_kiosks_def bind_res_Inr_iff)
next
  case (looked kid k)
  then show ?thesis
    by (auto simp: get_my_kiosk_def bind_res_Inr_iff dest!: owner_route_reach intro: within_seen[OF _ only_within_refl])
next
  case (moved kid raw k)
  then obtain k0 target k' db1 where m: "owner_route u kid db = Inr k0" "move_to billing k0 target None db = Inr (k', db1)"
    "owner_kiosk_of k' db1 = (k, db')"
    by (auto simp: post_status_def set_status_def bind_res_Inr_iff split: if_splits)
  from within_move[OF owner_route_reach[OF m(1)] m(2)] m(3) show ?thesis by (auto intro: within_seen)
next
  case (coloured kid offers k)
  then obtain k0 where c: "owner_route u kid db = Inr k0"
    "owner_kiosk_of (k0\<lparr>ki_offers_colour := offers\<rparr>) (snd (record_audit ''kiosk.colour.changed'' ''kiosk''
        (Some (ki_public_id k0)) (Some (us_id u)) (Some (PDict [(''offers_colour'', PBool (ki_offers_colour k0))]))
        (Some (PDict [(''offers_colour'', PBool offers)])) None (save_kiosk (k0\<lparr>ki_offers_colour := offers\<rparr>) db))) = (k, db')"
    by (auto simp: set_colour_def set_offers_colour_def bind_res_Inr_iff Let_def case_prod_beta)
  from owner_route_reach[OF c(1)] show ?thesis
    by (intro within_seen[OF _ _ c(2)] only_within_trans[OF within_kiosk within_audit]) simp_all
next
  case (priced kid payload r)
  then obtain k pr k' where p: "owner_route u kid db = Inr k" "set_pricing bands k (given_prices payload) db = Inr (pr, k', db')"
    by (auto simp: update_pricing_def bind_res_Inr_iff)
  have "ki_id (fold put_price ps x) = ki_id x" for ps x
    by (induction ps arbitrary: x) (auto simp: put_price_def split: prod.splits)
  with set_pricing_shape[OF p(2)] have "db' = save_kiosk k' db" "ki_id k' = ki_id k" by auto
  with owner_route_reach[OF p(1)] show ?thesis by (simp add: within_kiosk)
next
  case (weighed kid r)
  then show ?thesis
    by (auto simp: owner_paper_def bind_res_Inr_iff dest!: owner_route_reach intro: within_tray_seen[OF _ only_within_refl])
next
  case (stocked kid c s why r)
  then obtain k m db1 where "owner_route u kid db = Inr k" "set_paper k c s (Some (us_id u)) why db = Inr (m, db1)"
    "paper_of k db1 = (r, db')"
    by (auto simp: owner_update_paper_def bind_res_Inr_iff)
  then show ?thesis by (meson owner_route_reach within_set_paper within_tray_seen)
next
  case (refilled kid r)
  then show ?thesis
    by (auto simp: refill_paper_def bind_res_Inr_iff dest!: owner_route_reach intro: within_tray_seen within_reset)
next
  case (invited kid email role now)
  then show ?thesis
    by (auto simp: invite_def no_mail_def bind_res_Inr_iff dest!: owner_route_reach intro: within_invite)
next
  case (removed kid who role)
  then show ?thesis by (auto simp: remove_staff_def bind_res_Inr_iff dest!: owner_route_reach intro: within_unassign)
next
  case (enrolled kid now code)
  then show ?thesis
    by (auto simp: enrol_device_def bind_res_Inr_iff dest!: owner_route_reach) (metis snd_conv within_enrol)
next
  case (detached kid)
  then show ?thesis by (auto simp: revoke_kiosk_device_def bind_res_Inr_iff dest!: owner_route_reach intro: within_revoke)
next
  case (commanded kid kind now c)
  then show ?thesis
    by (auto simp: ask_the_machine_def bind_res_Inr_iff dest!: owner_route_reach
        intro: only_within_trans[OF within_command within_audit])
qed

lemma reach_shrinks:
  assumes "only_within (in_reach u db) db db'" shows "in_reach u db' \<subseteq> in_reach u db"
proof
  fix j assume j: "j \<in> in_reach u db'"
  show "j \<in> in_reach u db"
  proof (rule ccontr)
    assume n: "j \<notin> in_reach u db"
    then have a: "filter (\<lambda>a. ka_kiosk_id a = j) (kiosk_assignments db') = filter (\<lambda>a. ka_kiosk_id a = j) (kiosk_assignments db)"
      and r: "roles_of i db' = roles_of i db" for i
      using assms by (auto simp: only_within_def at_shop_def beyond_shops_def roles_of_def)
    from a have "{x \<in> set (kiosk_assignments db'). ka_kiosk_id x = j} = {x \<in> set (kiosk_assignments db). ka_kiosk_id x = j}"
      by (metis set_filter)
    with j n r show False by (auto simp: in_reach_def allows_def kiosk_scope_def split: if_splits)
  qed
qed

lemma only_within_mono: "A \<subseteq> B \<Longrightarrow> only_within A db db' \<Longrightarrow> only_within B db db'"
  by (auto simp: only_within_def)

text \<open>
  C36. Along any run of requests one account makes to the owner's router, whatever they are, every shop
  out of its reach at the start keeps its row, its tray, its machine, its codes, its staff, its
  invitations, its commands and its refill log; nobody's account or role, no alert, no wallet, payment,
  print or order changes at all; and the account never comes to reach a shop it did not reach.
\<close>

theorem an_owner_stays_in_reach:
  assumes "(owner_step cr billing bands u)\<^sup>*\<^sup>* db db'"
  shows "in_reach u db' \<subseteq> in_reach u db \<and> (\<forall>j. j \<notin> in_reach u db \<longrightarrow> at_shop j db' = at_shop j db)
    \<and> beyond_shops db' = beyond_shops db"
proof -
  have "in_reach u db' \<subseteq> in_reach u db \<and> only_within (in_reach u db) db db'"
    using assms
  proof induction
    case (step y z)
    from owner_step_within[OF step.hyps(2)] reach_shrinks[OF owner_step_within[OF step.hyps(2)]] step.IH
    show ?case by (meson only_within_mono only_within_trans order_trans)
  qed simp
  then show ?thesis by (simp add: only_within_def)
qed

section \<open>Taking a shop over\<close>

definition owners_at :: "kiosk \<Rightarrow> 'a kiosks_db_scheme \<Rightarrow> nat set" where
  "owners_at k db = ka_user_id ` {a \<in> set (kiosk_assignments db). ka_kiosk_id a = ki_id k \<and> ka_role a = KIOSK_OWNER}"

lemma owners_at_mem:
  "i \<in> owners_at k db \<longleftrightarrow> (\<exists>a \<in> set (kiosk_assignments db). ka_kiosk_id a = ki_id k \<and> ka_role a = KIOSK_OWNER \<and> ka_user_id a = i)"
  unfolding owners_at_def image_iff by blast

lemma staffed_mem: "(x, a) \<in> set (staffed P db) \<longleftrightarrow> a \<in> set (kiosk_assignments db) \<and> P a \<and> x \<in> set (users db) \<and> us_id x = ka_user_id a"
  by (auto simp: staffed_def)

lemma owner_of_sole:
  assumes "u \<in> set (users db)" "distinct (map us_id (users db))" "owners_at k db = {us_id u}"
  shows "owner_of k db = Some u"
proof -
  let ?xs = "staffed (\<lambda>a. ka_kiosk_id a = ki_id k \<and> ka_role a = KIOSK_OWNER) db"
  let ?ys = "sort_key (\<lambda>(u, a). ka_created_at a) ?xs"
  have all: "fst x = u" if "x \<in> set ?ys" for x
  proof -
    obtain y a where x: "x = (y, a)" by fastforce
    with that have y: "y \<in> set (users db)" "us_id y = ka_user_id a" "ka_user_id a \<in> owners_at k db"
      by (auto simp: staffed_mem owners_at_def)
    with assms(3) have "us_id y = us_id u" by simp
    then show ?thesis using distinct_key_eq[OF assms(2) y(1) assms(1)] x by simp
  qed
  have "us_id u \<in> owners_at k db" using assms(3) by simp
  then obtain a where "a \<in> set (kiosk_assignments db)" "ka_kiosk_id a = ki_id k" "ka_role a = KIOSK_OWNER" "ka_user_id a = us_id u"
    unfolding owners_at_def by auto
  then have "(u, a) \<in> set ?ys" using assms(1) by (simp add: staffed_mem)
  then obtain y ys where y: "?ys = y # ys" by (cases ?ys) auto
  then show ?thesis using all[of y] by (simp add: owner_of_def)
qed

lemma invite_anew:
  assumes "CHR ''@'' \<in> set e" "e = lower (strip email)"
    and "\<forall>x \<in> set (users db). us_id x \<in> owners_at k db \<longrightarrow> \<not> ilike (us_email x) e"
  obtains sup row where "invite_staff cr k email KIOSK_OWNER who now db = Inr (fst (token_urlsafe 32 db),
      db\<lparr>drawn := drawn (snd (token_urlsafe 32 db)), staff_invites := sup @ [row]\<rparr>)"
    "map si_token_hash sup = map si_token_hash (staff_invites db)" "si_token_hash row = sha256_hex cr (fst (token_urlsafe 32 db))"
    "si_email row = e" "si_role row = KIOSK_OWNER" "si_kiosk_id row = ki_id k" "si_accepted_at row = None"
    "si_revoked_at row = None" "now < si_expires_at row"
proof -
  let ?sup = "map (\<lambda>i. if open_invite k e KIOSK_OWNER i then i\<lparr>si_revoked_at := Some now\<rparr> else i) (staff_invites db)"
  let ?tok = "fst (token_urlsafe 32 db)"
  let ?row = "\<lparr>si_id = fresh_key si_id ?sup, si_kiosk_id = ki_id k, si_invited_by_user_id = who, si_email = e, si_role = KIOSK_OWNER,
    si_token_hash = sha256_hex cr ?tok, si_expires_at = now + INVITE_LIFETIME, si_accepted_at = None, si_revoked_at = None,
    si_created_at = tx_now db\<rparr>"
  have none: "filter (\<lambda>(x, a). ilike (us_email x) e) (staffed (\<lambda>a. ka_kiosk_id a = ki_id k \<and> ka_role a = KIOSK_OWNER) db) = []"
    using assms(3) by (force simp: filter_empty_conv staffed_mem owners_at_def)
  have ne: "e \<noteq> []" using assms(1) by auto
  have "invite_staff cr k email KIOSK_OWNER who now db = Inr (?tok,
      db\<lparr>drawn := drawn (snd (token_urlsafe 32 db)), staff_invites := ?sup @ [?row]\<rparr>)"
    using assms(1) none ne unfolding invite_staff_def assms(2)[symmetric]
    by (simp add: Let_def token_urlsafe_def draw_letters_def)
  moreover have "map si_token_hash ?sup = map si_token_hash (staff_invites db)" by (simp add: comp_def)
  moreover have "0 < INVITE_LIFETIME" by (simp add: INVITE_LIFETIME_def)
  ultimately show ?thesis by (intro that[of ?sup ?row]) simp_all
qed

text \<open>
  C37. Whoever owns a shop somewhere and refills the paper of this one can take it over by three requests,
  none of which anybody else has to agree to and none of which leaves a trace in the audit trail: invite
  its own address as an owner, accept, and remove the owner. From then on the takings of the shop are
  collected by its own account.
\<close>

theorem a_refiller_takes_over_the_shop:
  fixes db :: "'a payments_db_scheme"
  assumes shop: "parse_id (ki_public_id k) KIOSK = Inr b" "k \<in> set (kiosks db)" "distinct (map ki_public_id (kiosks db))"
      "distinct (map ki_id (kiosks db))"
    and refills: "\<exists>a \<in> set (kiosk_assignments db). ka_user_id a = us_id u \<and> ka_kiosk_id a = ki_id k \<and> ka_role a = KIOSK_REFILLER"
    and elsewhere: "OWNER \<in> roles_of (us_id u) db"
    and people: "u \<in> set (users db)" "v \<in> set (users db)" "distinct (map us_id (users db))" "distinct (map us_public_id (users db))"
    and owner: "owners_at k db = {us_id v}" "us_id u \<noteq> us_id v" "parse_id (us_public_id v) USER = Inr b'"
    and address: "CHR ''@'' \<in> set (lower (strip (us_email u)))" "\<not> ilike (us_email v) (lower (strip (us_email u)))"
    and fresh: "sha256_hex cr (fst (token_urlsafe 32 db)) \<notin> si_token_hash ` set (staff_invites db)"
  shows "\<exists>tok db1 db2 db3.
      (\<forall>send. invite cr send u (ki_public_id k) (us_email u) ''owner'' now db = Inr (send (StaffInvite (us_email u) tok (ki_name k)) db1))
    \<and> accept_invite cr tok u now db1 = Inr (Some k, KIOSK_OWNER, db2)
    \<and> remove_staff u (ki_public_id k) (us_public_id v) ''owner'' db2 = Inr db3
    \<and> owner_of k db = Some v \<and> owner_of k db3 = Some u \<and> audit_log db3 = audit_log db
    \<and> (ki_type k \<in> OWNER_COLLECTS \<and> has_active_subscription (us_id u) now db \<and> has_usable_keys (us_id u) db
        \<longrightarrow> kiosk_payment_gate now db3 k = OWNER_GATEWAY)"
proof -
  have route: "owner_route u (ki_public_id k) d = Inr k" if "kiosks d = kiosks db" "user_roles d = user_roles db"
    "set (kiosk_assignments db) \<subseteq> set (kiosk_assignments d)" for d :: "'a payments_db_scheme"
  proof -
    have "reaches u k d" using refills that(3) by (auto simp: reaches_def)
    then have "get_kiosk (kiosk_scope u d) (ki_public_id k) d = Inr k"
      using shop(1) first_where_unique[OF shop(3,2)] that(1) by (simp add: get_kiosk_Inr_iff allows_kiosk_scope)
    moreover have "OWNER \<in> roles_of (us_id u) d" using elsewhere that(2) by (simp add: roles_of_def)
    ultimately show ?thesis by (auto simp: owner_route_def require_any_role_def)
  qed
  let ?tok = "fst (token_urlsafe 32 db)" and ?e = "lower (strip (us_email u))"
  have "\<forall>x \<in> set (users db). us_id x \<in> owners_at k db \<longrightarrow> \<not> ilike (us_email x) ?e"
    using address(2) owner(1) distinct_key_eq[OF people(3) _ people(2)] by (metis singletonD)
  from invite_anew[OF address(1) refl this, of cr "us_id u" now] obtain sup row where
    iv: "invite_staff cr k (us_email u) KIOSK_OWNER (us_id u) now db = Inr (?tok,
        db\<lparr>drawn := drawn (snd (token_urlsafe 32 db)), staff_invites := sup @ [row]\<rparr>)"
      "map si_token_hash sup = map si_token_hash (staff_invites db)"
    and row: "si_token_hash row = sha256_hex cr ?tok" "si_email row = ?e" "si_role row = KIOSK_OWNER"
      "si_kiosk_id row = ki_id k" "si_accepted_at row = None" "si_revoked_at row = None" "now < si_expires_at row"
    by blast
  define db1 where "db1 = db\<lparr>drawn := drawn (snd (token_urlsafe 32 db)), staff_invites := sup @ [row]\<rparr>"
  define mine where "mine = \<lparr>ka_id = fresh_key ka_id (kiosk_assignments db), ka_kiosk_id = ki_id k, ka_user_id = us_id u,
    ka_role = KIOSK_OWNER, ka_created_at = tx_now db\<rparr>"
  define db2 where "db2 = db1\<lparr>staff_invites := put_row si_id (row\<lparr>si_accepted_at := Some now\<rparr>) (sup @ [row]),
    kiosk_assignments := kiosk_assignments db @ [mine]\<rparr>"
  define db3 where "db3 = db2\<lparr>kiosk_assignments :=
    filter (\<lambda>a. \<not> (ka_kiosk_id a = ki_id k \<and> ka_user_id a = us_id v \<and> ka_role a = KIOSK_OWNER)) (kiosk_assignments db @ [mine])\<rparr>"
  have asked: "invite cr send u (ki_public_id k) (us_email u) ''owner'' now db = Inr (send (StaffInvite (us_email u) ?tok (ki_name k)) db1)" for send
    by (simp add: invite_def route role_from_def iv(1) db1_def)
  have "\<forall>i \<in> set sup. si_token_hash i \<noteq> sha256_hex cr ?tok"
    using fresh iv(2) by (metis (no_types, lifting) image_eqI set_map)
  then have found: "invite_of cr ?tok db1 = Some row"
    using row(1) first_where_None_iff[of "\<lambda>i. si_token_hash i = sha256_hex cr ?tok" sup]
    by (simp add: invite_of_def db1_def first_where_append)
  have "us_id u \<notin> owners_at k db" using owner(1,2) by simp
  then have "first_where (\<lambda>a. ka_kiosk_id a = ki_id k \<and> ka_user_id a = us_id u \<and> ka_role a = KIOSK_OWNER) (kiosk_assignments db) = None"
    by (auto simp: first_where_None_iff owners_at_mem)
  moreover have "kiosk_row (ki_id k) db1 = Some k" using row_by_distinct[OF shop(4,2)] by (simp add: kiosk_row_def db1_def)
  moreover have "grant_role (us_id u) OWNER db2 = db2"
    using elsewhere by (simp add: grant_role_def roles_of_def db2_def db1_def)
  ultimately have accepted: "accept_invite cr ?tok u now db1 = Inr (Some k, KIOSK_OWNER, db2)"
    using found row by (simp add: accept_invite_def Let_def db2_def mine_def not_le) (simp add: db1_def)
  obtain a where a: "a \<in> set (kiosk_assignments db)" "ka_kiosk_id a = ki_id k" "ka_user_id a = us_id v"
    using owner(1) owners_at_mem[of "us_id v" k db] by auto
  have "resolve_staff_user k (us_public_id v) db2 = Inr v"
  proof -
    let ?P = "\<lambda>(x, a). us_public_id x = us_public_id v"
    have "\<exists>y. first_where ?P (staffed (\<lambda>a. ka_kiosk_id a = ki_id k) db2) = Some y"
      using a people(2) first_where_None_iff[of ?P "staffed (\<lambda>a. ka_kiosk_id a = ki_id k) db2"]
      by (cases "first_where ?P (staffed (\<lambda>a. ka_kiosk_id a = ki_id k) db2)") (force simp: staffed_mem db2_def db1_def)+
    then obtain x c where "first_where ?P (staffed (\<lambda>a. ka_kiosk_id a = ki_id k) db2) = Some (x, c)" by force
    moreover from first_where_SomeD[OF this] have "x \<in> set (users db)" "us_public_id x = us_public_id v"
      by (auto simp: staffed_mem db2_def db1_def)
    then have "x = v" using distinct_key_eq[OF people(4) _ people(2)] by metis
    ultimately show ?thesis using owner(3) by (simp add: resolve_staff_user_def)
  qed
  moreover have "owner_route u (ki_public_id k) db2 = Inr k" by (rule route) (auto simp: db2_def db1_def)
  ultimately have removed: "remove_staff u (ki_public_id k) (us_public_id v) ''owner'' db2 = Inr db3"
    by (simp add: remove_staff_def role_from_def unassign_def db3_def) (simp add: db2_def)
  have "i \<in> owners_at k db3 \<longleftrightarrow> i = us_id u \<or> i \<in> owners_at k db \<and> i \<noteq> us_id v" for i
    unfolding owners_at_mem using owner(2) by (auto simp: db3_def mine_def)
  then have "owners_at k db3 = {us_id u}" using owner(1) by auto
  then have o: "owner_of k db3 = Some u"
    by (intro owner_of_sole) (simp_all add: people(1,3) db3_def db2_def db1_def)
  have "kiosk_payment_gate now db3 k = OWNER_GATEWAY"
    if "ki_type k \<in> OWNER_COLLECTS" "has_active_subscription (us_id u) now db" "has_usable_keys (us_id u) db"
    using that o by (simp add: gate_owner_iff has_active_iff has_usable_keys_def get_config_def db3_def db2_def db1_def)
  moreover have "owner_of k db = Some v" by (rule owner_of_sole[OF people(2,3) owner(1)])
  moreover have "audit_log db3 = audit_log db" by (simp add: db3_def db2_def db1_def)
  ultimately show ?thesis using asked accepted removed o by blast
qed

definition shop_kiosk :: kiosk where
  "shop_kiosk = owned_kiosk\<lparr>ki_public_id := ''ksk_0000000000000000''\<rparr>"

definition rival :: user where
  "rival = user_example\<lparr>us_id := 2, us_public_id := ''usr_0000000000000001'', us_email := ''b@y.test''\<rparr>"

definition shared_example :: payments_db where
  "shared_example = payments_blank\<lparr>users := [user_example, rival], kiosks := [shop_kiosk],
     user_roles := [\<lparr>ur_id = 1, ur_user_id = 1, ur_role = OWNER, ur_granted_at = 0\<rparr>,
                    \<lparr>ur_id = 2, ur_user_id = 2, ur_role = OWNER, ur_granted_at = 0\<rparr>],
     kiosk_assignments := [\<lparr>ka_id = 1, ka_kiosk_id = 1, ka_user_id = 2, ka_role = KIOSK_OWNER, ka_created_at = 0\<rparr>,
       \<lparr>ka_id = 2, ka_kiosk_id = 1, ka_user_id = 1, ka_role = KIOSK_REFILLER, ka_created_at = 0\<rparr>],
     subscriptions := [running_example], payment_configs := [config_example]\<rparr>"

lemma shared_owners: "owners_at shop_kiosk shared_example = {us_id rival}"
proof -
  have "i \<in> owners_at shop_kiosk shared_example \<longleftrightarrow> i = us_id rival" for i
    by (auto simp: owners_at_mem shared_example_def shop_kiosk_def owned_kiosk_def kiosk_example_def rival_def)
  then show ?thesis by blast
qed

theorem a_refiller_takes_over_the_shop_witness:
  "\<exists>db3 :: payments_db. owner_of shop_kiosk shared_example = Some rival \<and> owner_of shop_kiosk db3 = Some user_example
     \<and> kiosk_payment_gate 5 db3 shop_kiosk = OWNER_GATEWAY \<and> audit_log db3 = []"
proof -
  have p: "parse_id (ki_public_id shop_kiosk) KIOSK = Inr ''0000000000000000''"
    "parse_id (us_public_id rival) USER = Inr ''0000000000000001''"
    and e: "CHR ''@'' \<in> set (lower (strip (us_email user_example)))"
    "\<not> ilike (us_email rival) (lower (strip (us_email user_example)))" by code_simp+
  have s: "shop_kiosk \<in> set (kiosks shared_example)" "distinct (map ki_public_id (kiosks shared_example))"
    "distinct (map ki_id (kiosks shared_example))"
    "\<exists>a \<in> set (kiosk_assignments shared_example). ka_user_id a = us_id user_example \<and> ka_kiosk_id a = ki_id shop_kiosk
       \<and> ka_role a = KIOSK_REFILLER"
    "OWNER \<in> roles_of (us_id user_example) shared_example" "user_example \<in> set (users shared_example)" "rival \<in> set (users shared_example)"
    "distinct (map us_id (users shared_example))" "distinct (map us_public_id (users shared_example))"
    "us_id user_example \<noteq> us_id rival"
    by (auto simp: shared_example_def shop_kiosk_def owned_kiosk_def kiosk_example_def user_example_def rival_def roles_of_def)
  have f: "sha256_hex toy_crypto (fst (token_urlsafe 32 shared_example)) \<notin> si_token_hash ` set (staff_invites shared_example)"
    by (simp add: shared_example_def payments_blank_def)
  have g: "ki_type shop_kiosk \<in> OWNER_COLLECTS" by (simp add: shop_kiosk_def owned_kiosk_def OWNER_COLLECTS_def)
  have "has_active_subscription (us_id user_example) 5 shared_example"
    using collecting_example_facts(2,3) by (simp add: has_active_iff collecting_example_def shared_example_def)
  moreover have "has_usable_keys (us_id user_example) shared_example"
    by (simp add: has_usable_keys_def get_config_def shared_example_def config_example_def user_example_def truthy_def)
  moreover have "audit_log shared_example = []" by (simp add: shared_example_def payments_blank_def)
  ultimately show ?thesis
    using a_refiller_takes_over_the_shop[OF p(1) s(1-9) shared_owners s(10) p(2) e f, of 5] g by auto
qed

theorem an_owner_stays_in_reach_witness:
  "\<exists>r db'. set_colour user_example ''ksk_0000000000000000'' False shared_example = Inr (r, db') \<and> db' \<noteq> shared_example
     \<and> (\<forall>j. j \<noteq> 1 \<longrightarrow> at_shop j db' = at_shop j shared_example) \<and> in_reach user_example db' \<subseteq> {1}"
proof -
  have i: "in_reach user_example shared_example = {1}"
    by (auto simp: in_reach_def allows_def kiosk_scope_def shared_example_def user_example_def rival_def roles_of_def)
  have p: "parse_id ''ksk_0000000000000000'' KIOSK = Inr ''0000000000000000''" by code_simp
  have "owner_route user_example ''ksk_0000000000000000'' shared_example = Inr shop_kiosk"
    using i p by (auto simp: owner_route_def require_any_role_def get_kiosk_def in_reach_def shared_example_def shop_kiosk_def
        owned_kiosk_def kiosk_example_def roles_of_def user_example_def)
  then obtain r db' where s: "set_colour user_example ''ksk_0000000000000000'' False shared_example = Inr (r, db')"
    by (cases "set_colour user_example ''ksk_0000000000000000'' False shared_example")
      (auto simp: set_colour_def Let_def case_prod_beta)
  then have "audit_log db' \<noteq> audit_log shared_example"
    using \<open>owner_route _ _ _ = _\<close>
    by (auto simp: set_colour_def set_offers_colour_def Let_def case_prod_beta record_audit_def owner_kiosk_of_def
        paper_of_def sheets_remaining_def paper_row_def save_kiosk_def shared_example_def payments_blank_def split: option.splits)
  then have "db' \<noteq> shared_example" by auto
  with an_owner_stays_in_reach[OF r_into_rtranclp[where r = "owner_step toy_crypto (gate_billing 5) platform_band user_example"],
      OF owner_step.coloured, OF s] i s show ?thesis by auto
qed

end
