(* ===== verification/Provisioning.thy ===== *)
theory Provisioning
  imports OwnerApi
begin

text \<open>
  \<^verbatim>\<open>app/provisioning.py\<close>: standing a shop up in one call, as far as its type allows, with what is still
  outstanding in sentences.
\<close>

section \<open>What is still outstanding\<close>

definition NO_OWNER :: string where
  "NO_OWNER = ''This shop has no owner yet, so nobody can collect its takings. Invite one, and the shop goes live once they accept.''"

definition INVITE_PENDING :: string where
  "INVITE_PENDING = ''An invitation has been sent and is waiting to be accepted. Nothing else can be set up until somebody claims the shop.''"

definition NO_SUBSCRIPTION :: string where
  "NO_SUBSCRIPTION = ''The owner has no subscription in force. Grant a trial, or ask them to buy one, before the shop can start selling.''"

definition NO_KEYS_YET :: string where
  "NO_KEYS_YET = ''The owner has not connected their Razorpay account, so there is nowhere for their takings to go.''"

definition blocking_reasons :: "datetime \<Rightarrow> kiosk \<Rightarrow> 'a payments_db_scheme \<Rightarrow> string list" where
  "blocking_reasons now k db =
     (if ki_type k \<notin> {SOLD, SAAS} then []
      else case owner_of k db of
        None \<Rightarrow> [NO_OWNER]
      | Some owner \<Rightarrow>
          if kiosk_payment_gate now db k = CLOSED
          then (if \<not> has_active_subscription (us_id owner) now db then [NO_SUBSCRIPTION] else [])
             @ (if \<not> has_usable_keys (us_id owner) db then [NO_KEYS_YET] else [])
          else [])"

definition readiness :: "datetime \<Rightarrow> kiosk \<Rightarrow> 'a payments_db_scheme \<Rightarrow> bool \<times> string list" where
  "readiness now k db = (let reasons = blocking_reasons now k db in (reasons = [] \<and> ki_stage k = LIVE, reasons))"

section \<open>Standing a shop up\<close>

record provisioned_kiosk =
  pk_kiosk :: kiosk
  pk_enrolment_code :: string
  pk_blocked_by :: "string list"
  pk_owner_invite_token :: "string option"

record provision_request =
  pq_name :: string
  pq_kiosk_type :: kiosk_type
  pq_prices :: "(string \<times> rat) list"
  pq_location :: "string option"
  pq_latitude :: "rat option"
  pq_longitude :: "rat option"
  pq_paper_capacity :: "int option"
  pq_sheets_in_tray :: "int option"
  pq_owner_email :: "string option"

text \<open>\<open>capacity\<close> is never absent: a kiosk is created with its tray's row.\<close>

definition provision_kiosk ::
  "crypto \<Rightarrow> 'a payments_db_scheme band_source \<Rightarrow> 'a payments_db_scheme billing_check \<Rightarrow> provision_request \<Rightarrow> nat \<Rightarrow> datetime \<Rightarrow>
   'a payments_db_scheme \<Rightarrow> (provisioned_kiosk \<times> 'a payments_db_scheme) result" where
  "provision_kiosk cr bands billing q actor now db =
     bind_res (create_kiosk (pq_name q) (pq_kiosk_type q) (pq_location q) (pq_latitude q) (pq_longitude q) (pq_paper_capacity q) db)
       (\<lambda>(k0, db0).
     bind_res (move_to billing k0 APPROVED None db0) (\<lambda>(k1, db1).
     bind_res (if pq_prices q = [] then Inr (k1, db1)
               else bind_res (set_pricing bands k1 (map (\<lambda>(f, v). (f, Some v)) (pq_prices q)) db1) (\<lambda>(_, k, db'). Inr (k, db')))
       (\<lambda>(k2, db2).
     bind_res (move_to billing k2 CONFIGURED None db2) (\<lambda>(k3, db3).
       let capacity = (case row_by kp_kiosk_id (kiosk_papers db3) (ki_id k3) of
             Some paper \<Rightarrow> Some (case pq_paper_capacity q of Some c \<Rightarrow> if c = 0 then kp_capacity paper else c | None \<Rightarrow> kp_capacity paper)
           | None \<Rightarrow> pq_paper_capacity q)
       in
     bind_res (set_paper k3 capacity (if pq_sheets_in_tray q \<noteq> None then pq_sheets_in_tray q else capacity) (Some actor)
                 (Some ''stocked at setup'') db3) (\<lambda>(_, db4).
     bind_res (if pq_kiosk_type q \<notin> {SOLD, SAAS} then set_accepts_wallet k3 True db4 else Inr (k3, db4)) (\<lambda>(k5, db5).
     bind_res (if truthy (pq_owner_email q)
               then bind_res (invite_staff cr k5 (the (pq_owner_email q)) KIOSK_OWNER actor now db5) (\<lambda>(tok, db'). Inr (Some tok, db'))
               else Inr (None, db5)) (\<lambda>(invite, db6).
       let reasons = blocking_reasons now k5 db6;
           blocked = (if invite \<noteq> None \<and> reasons = [NO_OWNER] then [INVITE_PENDING] else reasons)
       in
     bind_res (if blocked = [] then move_to billing k5 LIVE None db6 else Inr (k5, db6)) (\<lambda>(k7, db7).
       let (enrolment, db8) = issue_enrolment_code cr k7 (Some actor) now db7
       in Inr (\<lparr>pk_kiosk = k7, pk_enrolment_code = ie_code enrolment, pk_blocked_by = blocked, pk_owner_invite_token = invite\<rparr>, db8)))))))))"

section \<open>What the report says\<close>

text \<open>
  (Property). The report and the gate are one rule: a shop is reported ready exactly when it is live and the gate
  would take a payment there now, and a sentence is outstanding exactly when the gate would refuse one.
\<close>

theorem readiness_is_the_gate:
  "(fst (readiness now k db) \<longleftrightarrow> ki_stage k = LIVE \<and> can_take_payment now db k)
   \<and> (snd (readiness now k db) = [] \<longleftrightarrow> can_take_payment now db k)"
  by (auto simp: readiness_def blocking_reasons_def Let_def can_take_payment_def kiosk_payment_gate_def OWNER_COLLECTS_def
      split: option.splits)

section \<open>How far a new shop gets\<close>

text \<open>The new row is the last one of its table; staff and trays are as given.\<close>

definition stood :: "kiosk list \<Rightarrow> kiosk_assignment list \<Rightarrow> kiosk_paper list \<Rightarrow> kiosk \<Rightarrow> 'a kiosks_db_scheme \<Rightarrow> bool" where
  "stood K A P k d \<longleftrightarrow> kiosks d = K @ [k] \<and> ki_id k \<notin> ki_id ` set K \<and> kiosk_assignments d = A \<and> kiosk_papers d = P"

definition same_shop :: "kiosk \<Rightarrow> kiosk \<Rightarrow> bool" where
  "same_shop k k' \<longleftrightarrow> ki_id k' = ki_id k \<and> ki_public_id k' = ki_public_id k \<and> ki_type k' = ki_type k \<and> ki_name k' = ki_name k
     \<and> ki_is_active k' = ki_is_active k"

lemma put_row_snoc: "key r' = key r \<Longrightarrow> key r \<notin> key ` set rows \<Longrightarrow> put_row key r' (rows @ [r]) = rows @ [r']"
  by (induction rows) auto

lemma stood_save: "stood K A P k d \<Longrightarrow> ki_id k' = ki_id k \<Longrightarrow> stood K A P k' (save_kiosk k' d)"
  by (auto simp: stood_def save_kiosk_def put_row_snoc)

lemma stood_create:
  assumes "create_kiosk name kind loc lat long cap db = Inr (k, d)"
  obtains c row where "stood (kiosks db) (kiosk_assignments db) (kiosk_papers db @ [row]) k d" "ki_type k = kind"
    "ki_stage k = REGISTERED" "ki_name k = strip name" "\<not> ki_accepts_wallet k" "ki_is_active k"
    "kp_kiosk_id row = ki_id k" "kp_capacity row = c" "kp_used row = 0" "1 \<le> c"
    "c = (case cap of None \<Rightarrow> 250 | Some c \<Rightarrow> c)"
proof -
  from assms have "\<exists>c row. stood (kiosks db) (kiosk_assignments db) (kiosk_papers db @ [row]) k d \<and> ki_type k = kind
    \<and> ki_stage k = REGISTERED \<and> ki_name k = strip name \<and> \<not> ki_accepts_wallet k \<and> ki_is_active k
    \<and> kp_kiosk_id row = ki_id k \<and> kp_capacity row = c \<and> kp_used row = 0 \<and> 1 \<le> c
    \<and> c = (case cap of None \<Rightarrow> 250 | Some c \<Rightarrow> c)"
    by (auto simp: create_kiosk_def Let_def mint_def stood_def DEFAULT_PAPER_CAPACITY_def split: if_splits option.splits)
      (metis fresh_key_notin image_eqI)+
  then show ?thesis using that by blast
qed

lemma stood_move:
  assumes "move_to oc k t None d = Inr (k', d')" "stood K A P k d" "ki_stage k \<noteq> t"
  shows "stood K A P k' d' \<and> same_shop k k' \<and> ki_stage k' = t \<and> ki_accepts_wallet k' = ki_accepts_wallet k"
  using assms by (auto simp: move_to_def Let_def same_shop_def split: if_splits intro!: stood_save)

lemma put_price_keeps:
  "same_shop k (fold put_price ps k) \<and> ki_stage (fold put_price ps k) = ki_stage k
   \<and> ki_accepts_wallet (fold put_price ps k) = ki_accepts_wallet k"
  by (induction ps arbitrary: k) (auto simp: same_shop_def put_price_def split: prod.splits)

lemma stood_pricing:
  assumes "set_pricing bands k prices d = Inr (pr, k', d')" "stood K A P k d"
  shows "stood K A P k' d' \<and> same_shop k k' \<and> ki_stage k' = ki_stage k \<and> ki_accepts_wallet k' = ki_accepts_wallet k"
proof -
  obtain ps where "k' = fold put_price ps k" "d' = save_kiosk k' d" using set_pricing_shape[OF assms(1)] by blast
  with put_price_keeps[of k ps] stood_save[OF assms(2), of k'] show ?thesis by (simp add: same_shop_def)
qed

lemma set_paper_rest:
  "set_paper k c s who n d = Inr (m, d') \<Longrightarrow> kiosks d' = kiosks d \<and> kiosk_assignments d' = kiosk_assignments d"
  by (auto simp: set_paper_def Let_def case_prod_beta bind_res_Inr_iff log_paper_def record_audit_def save_paper_def
      paper_row_def split: if_splits option.splits)

lemma invite_rest:
  "invite_staff cr k e r who now d = Inr (tok, d') \<Longrightarrow>
   kiosks d' = kiosks d \<and> kiosk_assignments d' = kiosk_assignments d \<and> kiosk_papers d' = kiosk_papers d"
  by (auto simp: invite_staff_def Let_def case_prod_beta token_urlsafe_def draw_letters_def split: if_splits list.splits)

lemma enrol_rest:
  "kiosks (snd (issue_enrolment_code cr k who now d)) = kiosks d
   \<and> kiosk_assignments (snd (issue_enrolment_code cr k who now d)) = kiosk_assignments d
   \<and> kiosk_papers (snd (issue_enrolment_code cr k who now d)) = kiosk_papers d"
  by (simp add: issue_enrolment_code_def Let_def case_prod_beta token_urlsafe_def draw_letters_def)

lemma nobody_yet:
  assumes "stood K A P k d" "\<forall>a \<in> set A. ka_kiosk_id a \<in> ki_id ` set K"
  shows "owner_of k d = None"
proof -
  let ?xs = "staffed (\<lambda>a. ka_kiosk_id a = ki_id k \<and> ka_role a = KIOSK_OWNER) d"
  have "(x, a) \<notin> set ?xs" for x a
  proof
    assume "(x, a) \<in> set ?xs"
    then have "a \<in> set A" "ka_kiosk_id a = ki_id k" using assms(1) by (auto simp: staffed_mem stood_def)
    with assms show False by (metis stood_def)
  qed
  then have "?xs = []" by (metis list.set_intros(1) neq_Nil_conv surj_pair)
  then show ?thesis by (simp add: owner_of_def)
qed

lemma tray_of_table: "kiosk_papers d = kiosk_papers d' \<Longrightarrow> ki_id k = ki_id k' \<Longrightarrow> tray k d = tray k' d' \<and> remaining k d = remaining k' d'"
  by (simp add: tray_def remaining_def paper_row_def Let_def split: option.splits)

text \<open>The run, step by step.\<close>

definition tray_size :: "provision_request \<Rightarrow> kiosk \<Rightarrow> 'a kiosks_db_scheme \<Rightarrow> int option" where
  "tray_size q k d =
     (case row_by kp_kiosk_id (kiosk_papers d) (ki_id k) of
        Some paper \<Rightarrow> Some (case pq_paper_capacity q of Some c \<Rightarrow> if c = 0 then kp_capacity paper else c | None \<Rightarrow> kp_capacity paper)
      | None \<Rightarrow> pq_paper_capacity q)"

definition outstanding :: "datetime \<Rightarrow> string option \<Rightarrow> kiosk \<Rightarrow> 'a payments_db_scheme \<Rightarrow> string list" where
  "outstanding now invited k d =
     (if invited \<noteq> None \<and> blocking_reasons now k d = [NO_OWNER] then [INVITE_PENDING] else blocking_reasons now k d)"

lemma provision_run:
  assumes run: "provision_kiosk cr bands billing q actor now db = Inr (r, db')"
  shows "\<exists>k0 d0 k1 d1 k2 d2 k3 d3 m d4 k5 d5 inv d6 k7 d7.
      create_kiosk (pq_name q) (pq_kiosk_type q) (pq_location q) (pq_latitude q) (pq_longitude q) (pq_paper_capacity q) db = Inr (k0, d0)
    \<and> move_to billing k0 APPROVED None d0 = Inr (k1, d1)
    \<and> (if pq_prices q = [] then Inr (k1, d1)
        else bind_res (set_pricing bands k1 (map (\<lambda>(f, v). (f, Some v)) (pq_prices q)) d1) (\<lambda>(_, k, db'). Inr (k, db'))) = Inr (k2, d2)
    \<and> move_to billing k2 CONFIGURED None d2 = Inr (k3, d3)
    \<and> set_paper k3 (tray_size q k3 d3) (if pq_sheets_in_tray q \<noteq> None then pq_sheets_in_tray q else tray_size q k3 d3) (Some actor)
        (Some ''stocked at setup'') d3 = Inr (m, d4)
    \<and> (if pq_kiosk_type q \<notin> {SOLD, SAAS} then set_accepts_wallet k3 True d4 else Inr (k3, d4)) = Inr (k5, d5)
    \<and> (if truthy (pq_owner_email q)
        then bind_res (invite_staff cr k5 (the (pq_owner_email q)) KIOSK_OWNER actor now d5) (\<lambda>(tok, db'). Inr (Some tok, db'))
        else Inr (None, d5)) = Inr (inv, d6)
    \<and> (if outstanding now inv k5 d6 = [] then move_to billing k5 LIVE None d6 else Inr (k5, d6)) = Inr (k7, d7)
    \<and> \<lparr>pk_kiosk = k7, pk_enrolment_code = ie_code (fst (issue_enrolment_code cr k7 (Some actor) now d7)),
        pk_blocked_by = outstanding now inv k5 d6, pk_owner_invite_token = inv\<rparr> = r
    \<and> snd (issue_enrolment_code cr k7 (Some actor) now d7) = db'"
    using run unfolding provision_kiosk_def tray_size_def outstanding_def
    by (simp only: bind_res_Inr_iff split_paired_Ex case_prod_beta fst_conv snd_conv Let_def sum.inject prod.inject)
      (elim exE conjE, (rule exI)+, intro conjI, assumption+)

text \<open>
  C38. Standing a shop up takes it exactly as far as its type allows. A shop of the platform's own is LIVE,
  accepts wallet balance and has nothing outstanding; one sold or rented to an owner stops at CONFIGURED,
  accepts no balance and has one sentence outstanding, that an invitation waits or that there is no owner.
  Either way the shop is the one new row, every other shop and all staff are as before, the tray holds what
  was said, and the code that is answered enrols a machine there for twelve hours.
\<close>

theorem a_shop_goes_as_far_as_it_may:
  fixes db :: "'a payments_db_scheme"
  assumes run: "provision_kiosk cr bands billing q actor now db = Inr (r, db')"
    and staff: "\<forall>a \<in> set (kiosk_assignments db). ka_kiosk_id a \<in> ki_id ` set (kiosks db)"
    and trays: "papers_ok db" "kp_kiosk_id ` set (kiosk_papers db) \<subseteq> ki_id ` set (kiosks db)"
  shows "kiosks db' = kiosks db @ [pk_kiosk r] \<and> kiosk_assignments db' = kiosk_assignments db
    \<and> ki_id (pk_kiosk r) \<notin> ki_id ` set (kiosks db) \<and> ki_type (pk_kiosk r) = pq_kiosk_type q \<and> ki_name (pk_kiosk r) = strip (pq_name q)
    \<and> (if pq_kiosk_type q = PLATFORM
        then ki_stage (pk_kiosk r) = LIVE \<and> ki_accepts_wallet (pk_kiosk r) \<and> pk_blocked_by r = []
        else ki_stage (pk_kiosk r) = CONFIGURED \<and> \<not> ki_accepts_wallet (pk_kiosk r)
          \<and> pk_blocked_by r = [if truthy (pq_owner_email q) then INVITE_PENDING else NO_OWNER])
    \<and> (let c = (case pq_paper_capacity q of None \<Rightarrow> 250 | Some c \<Rightarrow> c) in kp_capacity (tray (pk_kiosk r) db') = c
        \<and> remaining (pk_kiosk r) db' = (case pq_sheets_in_tray q of None \<Rightarrow> c | Some s \<Rightarrow> s))
    \<and> (\<exists>e \<in> set (device_enrolments db'). de_kiosk_id e = ki_id (pk_kiosk r) \<and> de_code_hash e = sha256_hex cr (pk_enrolment_code r)
        \<and> de_used_at e = None \<and> de_expires_at e = now + hours 12)"
proof -
  let ?K = "kiosks db" and ?A = "kiosk_assignments db" and ?owned = "pq_kiosk_type q \<in> {SOLD, SAAS}"
  from provision_run[OF run] obtain k0 d0 k1 d1 k2 d2 k3 d3 m d4 k5 d5 inv d6 k7 d7 where
    c: "create_kiosk (pq_name q) (pq_kiosk_type q) (pq_location q) (pq_latitude q) (pq_longitude q) (pq_paper_capacity q) db = Inr (k0, d0)"
    and m1: "move_to billing k0 APPROVED None d0 = Inr (k1, d1)"
    and pr: "(if pq_prices q = [] then Inr (k1, d1)
        else bind_res (set_pricing bands k1 (map (\<lambda>(f, v). (f, Some v)) (pq_prices q)) d1) (\<lambda>(_, k, db'). Inr (k, db'))) = Inr (k2, d2)"
    and m3: "move_to billing k2 CONFIGURED None d2 = Inr (k3, d3)"
    and sp: "set_paper k3 (tray_size q k3 d3) (if pq_sheets_in_tray q \<noteq> None then pq_sheets_in_tray q else tray_size q k3 d3) (Some actor)
        (Some ''stocked at setup'') d3 = Inr (m, d4)"
    and w: "(if pq_kiosk_type q \<notin> {SOLD, SAAS} then set_accepts_wallet k3 True d4 else Inr (k3, d4)) = Inr (k5, d5)"
    and iv: "(if truthy (pq_owner_email q)
        then bind_res (invite_staff cr k5 (the (pq_owner_email q)) KIOSK_OWNER actor now d5) (\<lambda>(tok, db'). Inr (Some tok, db'))
        else Inr (None, d5)) = Inr (inv, d6)"
    and lv: "(if outstanding now inv k5 d6 = [] then move_to billing k5 LIVE None d6 else Inr (k5, d6)) = Inr (k7, d7)"
    and rr: "\<lparr>pk_kiosk = k7, pk_enrolment_code = ie_code (fst (issue_enrolment_code cr k7 (Some actor) now d7)),
        pk_blocked_by = outstanding now inv k5 d6, pk_owner_invite_token = inv\<rparr> = r"
    and db': "snd (issue_enrolment_code cr k7 (Some actor) now d7) = db'"
    by (elim exE conjE) (rule that; assumption)
  have r: "pk_kiosk r = k7" "pk_blocked_by r = outstanding now inv k5 d6"
    "pk_enrolment_code r = ie_code (fst (issue_enrolment_code cr k7 (Some actor) now d7))" "db' = snd (issue_enrolment_code cr k7 (Some actor) now d7)"
    by (auto simp: rr[symmetric] db')
  obtain c row where s0: "stood ?K ?A (kiosk_papers db @ [row]) k0 d0" "ki_type k0 = pq_kiosk_type q" "ki_stage k0 = REGISTERED"
      "ki_name k0 = strip (pq_name q)" "\<not> ki_accepts_wallet k0"
    and row: "kp_kiosk_id row = ki_id k0" "kp_capacity row = c" "kp_used row = 0" "1 \<le> c"
      "c = (case pq_paper_capacity q of None \<Rightarrow> 250 | Some c \<Rightarrow> c)"
    by (rule stood_create[OF c]) (rule that; assumption)
  have s1: "stood ?K ?A (kiosk_papers db @ [row]) k1 d1 \<and> same_shop k0 k1 \<and> ki_stage k1 = APPROVED \<and> \<not> ki_accepts_wallet k1"
    using stood_move[OF m1 s0(1)] s0(3,5) by simp
  have s2: "stood ?K ?A (kiosk_papers db @ [row]) k2 d2 \<and> same_shop k0 k2 \<and> ki_stage k2 = APPROVED \<and> \<not> ki_accepts_wallet k2"
    using pr s1 stood_pricing by (fastforce simp: bind_res_Inr_iff same_shop_def split: if_splits)
  have s3: "stood ?K ?A (kiosk_papers db @ [row]) k3 d3 \<and> same_shop k0 k3 \<and> ki_stage k3 = CONFIGURED \<and> \<not> ki_accepts_wallet k3"
    using stood_move[OF m3] s2 by (auto simp: same_shop_def)
  have new: "ki_id k0 \<notin> ki_id ` set ?K" using s0(1) by (simp add: stood_def)
  with trays row have ok: "papers_ok d3" using s3 by (auto simp: stood_def papers_ok_def tray_ok_def)
  have "row_by kp_kiosk_id (kiosk_papers d3) (ki_id k3) = Some row"
    using row_by_distinct[of kp_kiosk_id "kiosk_papers d3" row] ok s3 row(1) by (simp add: papers_ok_def stood_def same_shop_def)
  with row(2,4,5) have cap: "tray_size q k3 d3 = Some c" by (auto simp: tray_size_def split: option.splits)
  have stocked: "kp_capacity (tray k3 d4) = c" "remaining k3 d4 = (case pq_sheets_in_tray q of None \<Rightarrow> c | Some s \<Rightarrow> s)"
    using set_paper_changed[OF ok sp[unfolded cap]] by (auto simp: paper_changed_def split: option.splits if_splits)
  have s4: "stood ?K ?A (kiosk_papers d4) k3 d4" using s3 set_paper_rest[OF sp] by (simp add: stood_def)
  have s5: "stood ?K ?A (kiosk_papers d4) k5 d5 \<and> same_shop k0 k5 \<and> ki_stage k5 = CONFIGURED \<and> (ki_accepts_wallet k5 \<longleftrightarrow> \<not> ?owned)"
  proof (cases ?owned)
    case True
    with w s4 s3 show ?thesis by auto
  next
    case False
    with w have "k5 = k3\<lparr>ki_accepts_wallet := True\<rparr>" "d5 = save_kiosk k5 d4"
      by (auto simp: set_accepts_wallet_def Let_def split: if_splits)
    with stood_save[OF s4, of k5] s3 False show ?thesis by (simp add: same_shop_def)
  qed
  have s6: "stood ?K ?A (kiosk_papers d4) k5 d6 \<and> (inv \<noteq> None \<longleftrightarrow> truthy (pq_owner_email q))"
    using iv s5 by (auto simp: bind_res_Inr_iff stood_def dest!: invite_rest split: if_splits)
  have ty: "ki_type k5 = pq_kiosk_type q" using s5 s0(2) by (simp add: same_shop_def)
  have reasons: "outstanding now inv k5 d6 = (if ?owned then [if truthy (pq_owner_email q) then INVITE_PENDING else NO_OWNER] else [])"
    using nobody_yet[OF conjunct1[OF s6] staff] ty s6 by (simp add: blocking_reasons_def outstanding_def)
  have s7: "stood ?K ?A (kiosk_papers d4) k7 d7 \<and> same_shop k0 k7 \<and> ki_stage k7 = (if ?owned then CONFIGURED else LIVE)
    \<and> (ki_accepts_wallet k7 \<longleftrightarrow> \<not> ?owned)"
  proof (cases ?owned)
    case True
    with lv reasons s5 s6 show ?thesis by (auto split: if_splits)
  next
    case False
    with lv reasons have "move_to billing k5 LIVE None d6 = Inr (k7, d7)" by auto
    from stood_move[OF this conjunct1[OF s6]] s5 False show ?thesis by (auto simp: same_shop_def)
  qed
  have at: "kiosks db' = ?K @ [k7]" "kiosk_assignments db' = ?A" "kiosk_papers db' = kiosk_papers d4" "ki_id k7 = ki_id k3"
    using s7 s3 enrol_rest[of cr k7 "Some actor" now d7] r(4) by (auto simp: stood_def same_shop_def)
  have "tray k7 db' = tray k3 d4 \<and> remaining k7 db' = remaining k3 d4" by (rule tray_of_table[OF at(3,4)])
  moreover have "\<exists>e \<in> set (device_enrolments db'). de_kiosk_id e = ki_id k7 \<and> de_code_hash e = sha256_hex cr (pk_enrolment_code r)
      \<and> de_used_at e = None \<and> de_expires_at e = now + hours 12"
    unfolding r(3,4) by (simp add: issue_enrolment_code_def Let_def case_prod_beta ENROLMENT_LIFETIME_def)
  moreover have "?owned \<longleftrightarrow> pq_kiosk_type q \<noteq> PLATFORM" by (cases "pq_kiosk_type q") auto
  moreover have "ki_id k7 \<notin> ki_id ` set ?K" "ki_type k7 = pq_kiosk_type q" "ki_name k7 = strip (pq_name q)"
    using s7 s0(2,4) new by (auto simp: same_shop_def)
  ultimately show ?thesis
    using s7 stocked reasons s6 r(1,2) at(1,2) row(5) by auto
qed

definition library_request :: provision_request where
  "library_request = \<lparr>pq_name = '' Library '', pq_kiosk_type = SAAS, pq_prices = [], pq_location = None, pq_latitude = None,
     pq_longitude = None, pq_paper_capacity = Some 500, pq_sheets_in_tray = Some 20, pq_owner_email = Some ''b@y.test''\<rparr>"

theorem a_shop_goes_as_far_as_it_may_witness:
  "\<exists>r db'. provision_kiosk toy_crypto platform_band (gate_billing 5) library_request 1 5 payments_blank = Inr (r, db')
     \<and> kiosks db' = [pk_kiosk r] \<and> ki_stage (pk_kiosk r) = CONFIGURED \<and> pk_blocked_by r = [INVITE_PENDING]
     \<and> remaining (pk_kiosk r) db' = 20"
proof -
  have "(case provision_kiosk toy_crypto platform_band (gate_billing 5) library_request 1 5 payments_blank of Inl _ \<Rightarrow> False | Inr _ \<Rightarrow> True)"
    by code_simp
  then obtain r db' where run: "provision_kiosk toy_crypto platform_band (gate_billing 5) library_request 1 5 payments_blank = Inr (r, db')"
    by (auto split: sum.splits)
  have "\<forall>a \<in> set (kiosk_assignments payments_blank). ka_kiosk_id a \<in> ki_id ` set (kiosks payments_blank)"
    "papers_ok payments_blank" "kp_kiosk_id ` set (kiosk_papers payments_blank) \<subseteq> ki_id ` set (kiosks payments_blank)"
    "kiosks payments_blank = []"
    by (simp_all add: payments_blank_def papers_ok_def)
  from a_shop_goes_as_far_as_it_may[OF run this(1-3)] this(4) run show ?thesis
    by (simp add: library_request_def truthy_def)
qed

end
