(* ===== verification/AdminApi.thy ===== *)
theory AdminApi
  imports Provisioning StudentAuth
begin

text \<open>
  The administrator's console: \<^verbatim>\<open>api/admin/kiosks.py\<close> (putting a shop into the world and moving it along)
  and \<^verbatim>\<open>api/admin/accounts.py\<close> (finding a person and deciding what they may do). Every route demands the
  role ADMIN first, and every one that changes something leaves an entry in the audit trail.
\<close>

section \<open>Shops\<close>

record admin_kiosk =
  ax_id :: string
  ax_name :: string
  ax_kiosk_type :: kiosk_type
  ax_stage :: onboarding_stage
  ax_note :: "string option"
  ax_is_active :: bool
  ax_is_selling :: bool
  ax_accepts_wallet :: bool
  ax_offers_colour :: bool
  ax_location :: "string option"
  ax_latitude :: "rat option"
  ax_longitude :: "rat option"
  ax_owner_id :: "string option"
  ax_owner_email :: "string option"
  ax_paper :: paper_response

definition admin_kiosk_of :: "kiosk \<Rightarrow> 'a kiosks_db_scheme \<Rightarrow> admin_kiosk \<times> 'a kiosks_db_scheme" where
  "admin_kiosk_of k db =
     (let owner = owner_of k db; (p, db1) = paper_of k db
      in (\<lparr>ax_id = ki_public_id k, ax_name = ki_name k, ax_kiosk_type = ki_type k, ax_stage = ki_stage k,
           ax_note = ki_note k, ax_is_active = ki_is_active k, ax_is_selling = is_selling k,
           ax_accepts_wallet = ki_accepts_wallet k, ax_offers_colour = ki_offers_colour k, ax_location = ki_location k,
           ax_latitude = ki_latitude k, ax_longitude = ki_longitude k, ax_owner_id = map_option us_public_id owner,
           ax_owner_email = map_option us_email owner, ax_paper = p\<rparr>, db1))"

definition kiosk_type_from :: "string \<Rightarrow> kiosk_type result" where
  "kiosk_type_from raw =
     (case find (\<lambda>t. kiosk_type_value t = raw) [PLATFORM, SOLD, SAAS] of
        Some t \<Rightarrow> Inr t
      | None \<Rightarrow> Inl (BadRequest (py_repr raw @ '' is not a kind of kiosk.'')))"

record create_kiosk_request =
  cq_name :: string
  cq_kiosk_type :: string
  cq_location :: "string option"
  cq_latitude :: "rat option"
  cq_longitude :: "rat option"
  cq_paper_capacity :: "int option"

definition register_kiosk ::
  "create_kiosk_request \<Rightarrow> user \<Rightarrow> 'a kiosks_db_scheme \<Rightarrow> (admin_kiosk \<times> 'a kiosks_db_scheme) result" where
  "register_kiosk body admin db =
     bind_res (require_role ADMIN admin db) (\<lambda>_.
     bind_res (kiosk_type_from (cq_kiosk_type body)) (\<lambda>kind.
     bind_res (create_kiosk (cq_name body) kind (cq_location body) (cq_latitude body) (cq_longitude body)
                 (cq_paper_capacity body) db) (\<lambda>(k, db1).
       Inr (admin_kiosk_of k (snd (record_audit ''kiosk.created'' ''kiosk'' (Some (ki_public_id k)) (Some (us_id admin)) None
         (Some (PDict [(''name'', PStr (ki_name k)), (''kiosk_type'', PStr (kiosk_type_value (ki_type k)))])) None db1))))))"

record provision_body =
  pb_name :: string
  pb_kiosk_type :: string
  pb_prices :: pricing_update
  pb_location :: "string option"
  pb_latitude :: "rat option"
  pb_longitude :: "rat option"
  pb_paper_capacity :: "int option"
  pb_sheets_in_tray :: "int option"
  pb_owner_email :: "string option"

record provisioned_response =
  pz_kiosk :: admin_kiosk
  pz_selling :: bool
  pz_blocked_by :: "string list"
  pz_enrolment_code :: string
  pz_enrolment_expires_at :: datetime

definition provision ::
  "crypto \<Rightarrow> 'a payments_db_scheme notifier \<Rightarrow> provision_body \<Rightarrow> user \<Rightarrow> datetime \<Rightarrow> 'a payments_db_scheme \<Rightarrow>
   (provisioned_response \<times> 'a payments_db_scheme) result" where
  "provision cr send body admin now db =
     bind_res (require_role ADMIN admin db) (\<lambda>_.
     bind_res (kiosk_type_from (pb_kiosk_type body)) (\<lambda>kind.
     bind_res (provision_kiosk cr (subscription_band now) (gate_billing now)
         \<lparr>pq_name = pb_name body, pq_kiosk_type = kind, pq_prices = supplied (given_prices (pb_prices body)),
          pq_location = pb_location body, pq_latitude = pb_latitude body, pq_longitude = pb_longitude body,
          pq_paper_capacity = pb_paper_capacity body, pq_sheets_in_tray = pb_sheets_in_tray body,
          pq_owner_email = pb_owner_email body\<rparr> (us_id admin) now db) (\<lambda>(r, db1).
       let k = pk_kiosk r;
           db2 = (case pk_owner_invite_token r of
                    None \<Rightarrow> db1
                  | Some token \<Rightarrow> send (StaffInvite (case pb_owner_email body of Some e \<Rightarrow> e | None \<Rightarrow> []) token (ki_name k)) db1);
           db3 = snd (record_audit ''kiosk.provisioned'' ''kiosk'' (Some (ki_public_id k)) (Some (us_id admin)) None
             (Some (PDict [(''name'', PStr (ki_name k)), (''kiosk_type'', PStr (kiosk_type_value (ki_type k))),
                (''stage'', PStr (stage_value (ki_stage k))), (''blocked_by'', PList (map PStr (pk_blocked_by r)))])) None db2);
           (shown, db4) = admin_kiosk_of k db3
       in Inr (\<lparr>pz_kiosk = shown, pz_selling = fst (readiness now k db3), pz_blocked_by = pk_blocked_by r,
                pz_enrolment_code = pk_enrolment_code r, pz_enrolment_expires_at = now + ENROLMENT_LIFETIME\<rparr>, db4))))"

text \<open>The routes about one shop: the role, the scope, the read.\<close>

definition admin_route :: "user \<Rightarrow> string \<Rightarrow> 'a kiosks_db_scheme \<Rightarrow> kiosk result" where
  "admin_route admin kiosk_id db =
     bind_res (require_role ADMIN admin db) (\<lambda>_. get_kiosk (kiosk_scope admin db) kiosk_id db)"

definition one_kiosk :: "string \<Rightarrow> user \<Rightarrow> 'a kiosks_db_scheme \<Rightarrow> (admin_kiosk \<times> 'a kiosks_db_scheme) result" where
  "one_kiosk kiosk_id admin db = bind_res (admin_route admin kiosk_id db) (\<lambda>k. Inr (admin_kiosk_of k db))"

definition any_stage_from :: "string \<Rightarrow> onboarding_stage result" where
  "any_stage_from raw =
     (case find (\<lambda>st. stage_value st = raw)
             [REGISTERED, APPROVED, CONFIGURED, LIVE, MAINTENANCE, SUSPENDED_BILLING, RETIRED] of
        Some st \<Rightarrow> Inr st
      | None \<Rightarrow> Inl (BadRequest (py_repr raw @ '' is not a kiosk stage.'')))"

definition set_stage ::
  "'a kiosks_db_scheme billing_check \<Rightarrow> string \<Rightarrow> string \<Rightarrow> string option \<Rightarrow> user \<Rightarrow> 'a kiosks_db_scheme \<Rightarrow>
   (admin_kiosk \<times> 'a kiosks_db_scheme) result" where
  "set_stage billing kiosk_id raw why admin db =
     bind_res (admin_route admin kiosk_id db) (\<lambda>k.
     bind_res (any_stage_from raw) (\<lambda>target.
     bind_res (move_to billing k target why db) (\<lambda>(k', db1).
       Inr (admin_kiosk_of k' (snd (record_audit ''kiosk.stage.changed'' ''kiosk'' (Some (ki_public_id k')) (Some (us_id admin))
         (Some (PDict [(''onboarding_stage'', PStr (stage_value (ki_stage k)))]))
         (Some (PDict [(''onboarding_stage'', PStr (stage_value (ki_stage k')))])) why db1))))))"

definition set_type ::
  "string \<Rightarrow> string \<Rightarrow> user \<Rightarrow> 'a kiosks_db_scheme \<Rightarrow> (admin_kiosk \<times> 'a kiosks_db_scheme) result" where
  "set_type kiosk_id raw admin db =
     bind_res (admin_route admin kiosk_id db) (\<lambda>k.
     bind_res (kiosk_type_from raw) (\<lambda>kind.
       let (k', db1) = change_type k kind db
       in Inr (admin_kiosk_of k' (snd (record_audit ''kiosk.type.changed'' ''kiosk'' (Some (ki_public_id k')) (Some (us_id admin))
         (Some (PDict [(''kiosk_type'', PStr (kiosk_type_value (ki_type k)))]))
         (Some (PDict [(''kiosk_type'', PStr (kiosk_type_value (ki_type k'))),
            (''onboarding_stage'', PStr (stage_value (ki_stage k')))])) None db1)))))"

definition set_wallet ::
  "string \<Rightarrow> bool \<Rightarrow> user \<Rightarrow> 'a kiosks_db_scheme \<Rightarrow> (admin_kiosk \<times> 'a kiosks_db_scheme) result" where
  "set_wallet kiosk_id accepts admin db =
     bind_res (admin_route admin kiosk_id db) (\<lambda>k.
     bind_res (set_accepts_wallet k accepts db) (\<lambda>(k', db1).
       Inr (admin_kiosk_of k' (snd (record_audit ''kiosk.wallet.changed'' ''kiosk'' (Some (ki_public_id k')) (Some (us_id admin))
         (Some (PDict [(''accepts_wallet'', PBool (ki_accepts_wallet k))]))
         (Some (PDict [(''accepts_wallet'', PBool (ki_accepts_wallet k'))])) None db1)))))"

definition opt_float :: "rat option \<Rightarrow> pyval" where
  "opt_float v = (case v of None \<Rightarrow> PNone | Some f \<Rightarrow> PFloat f)"

definition where_it_is :: "kiosk \<Rightarrow> pyval" where
  "where_it_is k = PDict [(''latitude'', opt_float (ki_latitude k)), (''longitude'', opt_float (ki_longitude k)),
     (''location_description'', opt_str (ki_location k))]"

definition place_kiosk ::
  "string \<Rightarrow> string option \<Rightarrow> rat option \<Rightarrow> rat option \<Rightarrow> user \<Rightarrow> 'a kiosks_db_scheme \<Rightarrow>
   (admin_kiosk \<times> 'a kiosks_db_scheme) result" where
  "place_kiosk kiosk_id description lat long admin db =
     bind_res (admin_route admin kiosk_id db) (\<lambda>k.
     bind_res (set_location k description lat long db) (\<lambda>(k', db1).
       Inr (admin_kiosk_of k' (snd (record_audit ''kiosk.location.set'' ''kiosk'' (Some (ki_public_id k')) (Some (us_id admin))
         (Some (where_it_is k)) (Some (where_it_is k')) None db1)))))"

definition invite_owner ::
  "crypto \<Rightarrow> 'a kiosks_db_scheme notifier \<Rightarrow> string \<Rightarrow> string \<Rightarrow> user \<Rightarrow> datetime \<Rightarrow> 'a kiosks_db_scheme \<Rightarrow>
   'a kiosks_db_scheme result" where
  "invite_owner cr send kiosk_id email admin now db =
     bind_res (admin_route admin kiosk_id db) (\<lambda>k.
     bind_res (invite_staff cr k email KIOSK_OWNER (us_id admin) now db) (\<lambda>(token, db1).
       Inr (snd (record_audit ''kiosk.owner.invited'' ''kiosk'' (Some (ki_public_id k)) (Some (us_id admin)) None
         (Some (PDict [(''email'', PStr email)])) None (send (StaffInvite email token (ki_name k)) db1)))))"

section \<open>People\<close>

definition NO_SUCH_ACCOUNT :: string where
  "NO_SUCH_ACCOUNT = ''That account does not exist.''"

definition NOT_YOURSELF :: string where
  "NOT_YOURSELF = ''You cannot remove your own admin access. Ask another admin to do it, so there is always somebody who can.''"

definition NOT_YOUR_OWN_ACCOUNT :: string where
  "NOT_YOUR_OWN_ACCOUNT = ''You cannot deactivate your own account.''"

definition LISTABLE_ROLES :: "user_role list" where
  "LISTABLE_ROLES = [OWNER, REFILLER, ADMIN]"

definition NAME_SOMEBODY :: string where
  "NAME_SOMEBODY = ''Search for an exact email address, or list a role: '' @ join_with '', '' (map role_value LISTABLE_ROLES) @ ''.''"

definition NO_STUDENT_DIRECTORY :: string where
  "NO_STUDENT_DIRECTORY = ''Students cannot be listed -- there are too many of them for it to be anything but a directory. Search for an exact email address instead.''"

record account_response =
  ac_id :: string
  ac_email :: string
  ac_full_name :: "string option"
  ac_roles :: "string list"
  ac_is_active :: bool
  ac_is_guest :: bool
  ac_email_verified :: bool
  ac_created_at :: datetime

text \<open>The four values of a role, in the order of the alphabet.\<close>

definition account_of :: "user \<Rightarrow> 'a identity_db_scheme \<Rightarrow> account_response" where
  "account_of u db =
     \<lparr>ac_id = us_public_id u, ac_email = us_email u, ac_full_name = us_full_name u,
      ac_roles = map role_value (filter (\<lambda>r. r \<in> roles_of (us_id u) db) [ADMIN, OWNER, REFILLER, STUDENT]),
      ac_is_active = us_is_active u, ac_is_guest = us_is_guest u, ac_email_verified = us_email_verified u,
      ac_created_at = us_created_at u\<rparr>"

definition any_account :: "string \<Rightarrow> 'a identity_db_scheme \<Rightarrow> user result" where
  "any_account account_id db =
     (case get_any_by_public_id account_id db of None \<Rightarrow> Inl (NotFound NO_SUCH_ACCOUNT) | Some u \<Rightarrow> Inr u)"

definition named_role :: "string \<Rightarrow> user_role option" where
  "named_role raw = find (\<lambda>r. role_value r = raw) [ADMIN, OWNER, REFILLER, STUDENT]"

definition by_role :: "string \<Rightarrow> 'a identity_db_scheme \<Rightarrow> user list result" where
  "by_role raw db =
     (case named_role raw of
        None \<Rightarrow> Inl (BadRequest NAME_SOMEBODY)
      | Some wanted \<Rightarrow> if wanted \<notin> set LISTABLE_ROLES then Inl (BadRequest NO_STUDENT_DIRECTORY)
                       else Inr (holders_of wanted db))"

definition find_accounts ::
  "string option \<Rightarrow> string option \<Rightarrow> user \<Rightarrow> 'a identity_db_scheme \<Rightarrow> account_response list result" where
  "find_accounts email role admin db =
     bind_res (require_role ADMIN admin db) (\<lambda>_.
       case role of
         Some raw \<Rightarrow> bind_res (by_role raw db) (\<lambda>us. Inr (map (\<lambda>u. account_of u db) us))
       | None \<Rightarrow> (case email of
           None \<Rightarrow> Inl (BadRequest NAME_SOMEBODY)
         | Some e \<Rightarrow> Inr (map (\<lambda>u. account_of u db) (find_by_email e db))))"

definition one_account :: "string \<Rightarrow> user \<Rightarrow> 'a identity_db_scheme \<Rightarrow> account_response result" where
  "one_account account_id admin db =
     bind_res (require_role ADMIN admin db) (\<lambda>_. bind_res (any_account account_id db) (\<lambda>u. Inr (account_of u db)))"

text \<open>What the body may name: a hand-made credit never looks like money that arrived.\<close>

datatype credit_kind = CREDIT_ADJUSTMENT | CREDIT_PROMO

fun credited_as :: "credit_kind \<Rightarrow> entry_kind" where
  "credited_as CREDIT_ADJUSTMENT = ADJUSTMENT"
| "credited_as CREDIT_PROMO = PROMO"

fun credit_value :: "credit_kind \<Rightarrow> string" where
  "credit_value CREDIT_ADJUSTMENT = ''adjustment''"
| "credit_value CREDIT_PROMO = ''promo''"

record credited_response =
  cw_account_id :: string
  cw_balance :: rat
  cw_entry_id :: string

definition credit_wallet ::
  "string \<Rightarrow> rat \<Rightarrow> credit_kind \<Rightarrow> string \<Rightarrow> user \<Rightarrow> 'a wallet_db_scheme \<Rightarrow> (credited_response \<times> 'a wallet_db_scheme) result" where
  "credit_wallet account_id amount kind why admin db =
     bind_res (require_role ADMIN admin db) (\<lambda>_.
     bind_res (any_account account_id db) (\<lambda>u.
       let (ref, db1) = mint WALLET_ENTRY db in
     bind_res (credit (us_id u) amount (credited_as kind) (''admin:'' @ us_public_id admin @ '':'' @ ref) (Some why) db1)
       (\<lambda>(entry, db2).
       let db3 = snd (record_audit ''wallet.credited'' ''user'' (Some (us_public_id u)) (Some (us_id admin)) None
             (Some (PDict [(''amount_inr'', PStr (show_money amount)), (''kind'', PStr (credit_value kind)), (''note'', PStr why)]))
             None db2)
       in Inr (\<lparr>cw_account_id = us_public_id u, cw_balance = balance_of (us_id u) db3, cw_entry_id = we_public_id entry\<rparr>, db3))))"

definition role_named :: "string \<Rightarrow> user_role result" where
  "role_named raw = (case named_role raw of Some r \<Rightarrow> Inr r | None \<Rightarrow> Inl (BadRequest (py_repr raw @ '' is not a role.'')))"

definition audit_person :: "string \<Rightarrow> user \<Rightarrow> user \<Rightarrow> pyval \<Rightarrow> 'a ops_db_scheme \<Rightarrow> 'a ops_db_scheme" where
  "audit_person action u admin what db =
     snd (record_audit action ''user'' (Some (us_public_id u)) (Some (us_id admin)) None (Some what) None db)"

definition grant :: "string \<Rightarrow> string \<Rightarrow> user \<Rightarrow> 'a identity_db_scheme \<Rightarrow> (account_response \<times> 'a identity_db_scheme) result" where
  "grant account_id raw admin db =
     bind_res (require_role ADMIN admin db) (\<lambda>_.
     bind_res (any_account account_id db) (\<lambda>u.
     bind_res (role_named raw) (\<lambda>role.
       let db1 = audit_person ''identity.role.granted'' u admin (PDict [(''role'', PStr (role_value role))])
                   (grant_role (us_id u) role db)
       in Inr (account_of u db1, db1))))"

definition revoke :: "string \<Rightarrow> string \<Rightarrow> user \<Rightarrow> 'a identity_db_scheme \<Rightarrow> (account_response \<times> 'a identity_db_scheme) result" where
  "revoke account_id raw admin db =
     bind_res (require_role ADMIN admin db) (\<lambda>_.
     bind_res (any_account account_id db) (\<lambda>u.
     bind_res (role_named raw) (\<lambda>role.
       if role = ADMIN \<and> us_id u = us_id admin then Inl (BadRequest NOT_YOURSELF)
       else let db1 = audit_person ''identity.role.revoked'' u admin (PDict [(''role'', PStr (role_value role))])
                        (revoke_role (us_id u) role db)
            in Inr (account_of u db1, db1))))"

definition deactivate :: "string \<Rightarrow> user \<Rightarrow> datetime \<Rightarrow> 'a identity_db_scheme \<Rightarrow> (account_response \<times> 'a identity_db_scheme) result" where
  "deactivate account_id admin now db =
     bind_res (require_role ADMIN admin db) (\<lambda>_.
     bind_res (any_account account_id db) (\<lambda>u.
       if us_id u = us_id admin then Inl (BadRequest NOT_YOUR_OWN_ACCOUNT)
       else let (u', db1) = set_user_active u False now db;
                db2 = audit_person ''identity.account.deactivated'' u' admin (PDict [(''is_active'', PBool False)]) db1
            in Inr (account_of u' db2, db2)))"

definition activate :: "string \<Rightarrow> user \<Rightarrow> datetime \<Rightarrow> 'a identity_db_scheme \<Rightarrow> (account_response \<times> 'a identity_db_scheme) result" where
  "activate account_id admin now db =
     bind_res (require_role ADMIN admin db) (\<lambda>_.
     bind_res (any_account account_id db) (\<lambda>u.
       let (u', db1) = set_user_active u True now db;
           db2 = audit_person ''identity.account.activated'' u' admin (PDict [(''is_active'', PBool True)]) db1
       in Inr (account_of u' db2, db2)))"

section \<open>A wider scope, not a way round the rules\<close>

text \<open>One request about the shop \<open>kid\<close>, with the entry the trail owes it: none for a read.\<close>

inductive admin_step ::
  "crypto \<Rightarrow> datetime \<Rightarrow> user \<Rightarrow> string \<Rightarrow> string option \<Rightarrow> 'a payments_db_scheme \<Rightarrow> 'a payments_db_scheme \<Rightarrow> bool"
  for cr :: crypto and now :: datetime and u :: user and kid :: string
where
  seen_shop: "one_kiosk kid u db = Inr (r, db') \<Longrightarrow> admin_step cr now u kid None db db'"
| staged: "set_stage (gate_billing now) kid raw why u db = Inr (r, db') \<Longrightarrow> admin_step cr now u kid (Some ''kiosk.stage.changed'') db db'"
| retyped: "set_type kid raw u db = Inr (r, db') \<Longrightarrow> admin_step cr now u kid (Some ''kiosk.type.changed'') db db'"
| walleted: "set_wallet kid accepts u db = Inr (r, db') \<Longrightarrow> admin_step cr now u kid (Some ''kiosk.wallet.changed'') db db'"
| placed: "place_kiosk kid desc lat long u db = Inr (r, db') \<Longrightarrow> admin_step cr now u kid (Some ''kiosk.location.set'') db db'"
| offered: "invite_owner cr no_mail kid email u now db = Inr db' \<Longrightarrow> admin_step cr now u kid (Some ''kiosk.owner.invited'') db db'"

text \<open>What one request may make of a shop \<open>k\<close>.\<close>

definition lawful :: "datetime \<Rightarrow> 'a payments_db_scheme \<Rightarrow> kiosk \<Rightarrow> kiosk \<Rightarrow> bool" where
  "lawful now db k k' \<longleftrightarrow> ki_id k' = ki_id k \<and> ki_public_id k' = ki_public_id k
     \<and> (ki_type k' = ki_type k \<longrightarrow> ki_stage k' = ki_stage k \<or> (ki_stage k, ki_stage k') \<in> set stage_chart)
     \<and> (ki_type k' \<noteq> ki_type k \<longrightarrow> ki_stage k' = (if ki_type k' \<in> OWNER_COLLECTS \<and> ki_stage k \<in> {LIVE, MAINTENANCE, CONFIGURED}
          then APPROVED else ki_stage k))
     \<and> (ki_stage k' = LIVE \<and> ki_type k' \<in> OWNER_COLLECTS \<and> (ki_stage k \<noteq> LIVE \<or> ki_type k \<notin> OWNER_COLLECTS)
         \<longrightarrow> kiosk_payment_gate now db k = OWNER_GATEWAY)
     \<and> (ki_accepts_wallet k' \<longrightarrow> ki_accepts_wallet k \<or> ki_type k' \<notin> OWNER_COLLECTS)"

definition accounted :: "user \<Rightarrow> string \<Rightarrow> string \<Rightarrow> 'a kiosks_db_scheme \<Rightarrow> 'a kiosks_db_scheme \<Rightarrow> bool" where
  "accounted u kid act db db' \<longleftrightarrow> (\<exists>e. audit_log db' = audit_log db @ [e] \<and> au_actor_user_id e = Some (us_id u)
     \<and> au_action e = act \<and> au_entity_type e = ''kiosk'' \<and> au_entity_id e = Some kid)"

lemma admin_kiosk_of_rest:
  "kiosks (snd (admin_kiosk_of k d)) = kiosks d \<and> audit_log (snd (admin_kiosk_of k d)) = audit_log d"
  by (auto simp: admin_kiosk_of_def paper_of_def sheets_remaining_def paper_row_def Let_def case_prod_beta split: option.splits)

lemma audited_shown:
  assumes "admin_kiosk_of k' (snd (record_audit act ''kiosk'' (Some pid) (Some (us_id u)) b a n d1)) = (r, db')" and "audit_log d1 = audit_log db"
  shows "kiosks db' = kiosks d1 \<and> accounted u pid act db db'"
proof -
  have "db' = snd (admin_kiosk_of k' (snd (record_audit act ''kiosk'' (Some pid) (Some (us_id u)) b a n d1)))" by (simp add: assms(1))
  then show ?thesis
    using admin_kiosk_of_rest[of k' "snd (record_audit act ''kiosk'' (Some pid) (Some (us_id u)) b a n d1)"] assms(2)
    by (auto simp: accounted_def record_audit_def Let_def)
qed

lemma admin_route_InrD:
  "admin_route u kid db = Inr k \<Longrightarrow> ADMIN \<in> roles_of (us_id u) db \<and> k \<in> set (kiosks db) \<and> ki_public_id k = kid"
  by (auto simp: admin_route_def bind_res_Inr_iff require_role_def get_kiosk_Inr_iff dest!: first_where_SomeD split: if_splits)

lemma lawful_refl: "lawful now db k k"
  by (auto simp: lawful_def)

lemma lawful_move: "move_to (gate_billing now) k t n db = Inr (k', db1) \<Longrightarrow> lawful now db k k'"
  by (auto simp: move_to_def lawful_def chart_is_the_table[symmetric] gate_billing_def requires_owner_billing_def
      OWNER_GATEWAY_TYPES_def OWNER_COLLECTS_def Let_def split: if_splits)

lemma lawful_retype: "change_type k kind db = (k', db1) \<Longrightarrow> lawful now db k k'"
  by (auto simp: change_type_def lawful_def requires_owner_billing_def OWNER_GATEWAY_TYPES_def OWNER_COLLECTS_def
      Let_def split: if_splits)

text \<open>What each request does: the shop it names, one row lawfully rewritten, one entry.\<close>

definition ruled :: "datetime \<Rightarrow> user \<Rightarrow> string \<Rightarrow> string option \<Rightarrow> 'a payments_db_scheme \<Rightarrow> 'a payments_db_scheme \<Rightarrow> bool" where
  "ruled now u kid act db db' \<longleftrightarrow> ADMIN \<in> roles_of (us_id u) db \<and> (\<exists>k \<in> set (kiosks db). ki_public_id k = kid
     \<and> (case act of
          None \<Rightarrow> kiosks db' = kiosks db \<and> audit_log db' = audit_log db
        | Some a \<Rightarrow> accounted u kid a db db' \<and> (\<exists>k'. lawful now db k k' \<and> kiosks db' = put_row ki_id k' (kiosks db))))"

lemma put_row_itself:
  assumes "distinct (map ki_id (kiosks db))" "k \<in> set (kiosks db)" shows "put_row ki_id k (kiosks db) = kiosks db"
  unfolding put_row_def by (rule map_idI) (use distinct_key_eq[OF assms] in auto)

lemma ruledI:
  assumes "admin_route u kid db = Inr k" "lawful now db k k'" "d1 = db \<and> k' = k \<or> d1 = save_kiosk k' db" "distinct (map ki_id (kiosks db))"
    and "admin_kiosk_of k' (snd (record_audit act ''kiosk'' (Some (ki_public_id k')) (Some (us_id u)) b a n d1)) = (r, db')"
  shows "ruled now u kid (Some act) db db'"
proof -
  have k: "k \<in> set (kiosks db)" "ki_public_id k' = kid" using admin_route_InrD[OF assms(1)] assms(2) by (simp_all add: lawful_def)
  have "audit_log d1 = audit_log db" using assms(3) by (auto simp: save_kiosk_def)
  with audited_shown[OF assms(5)] k(2) have a: "kiosks db' = kiosks d1" "accounted u kid act db db'" by auto
  have "kiosks db' = put_row ki_id k' (kiosks db)"
    using a(1) assms(3) put_row_itself[OF assms(4) k(1)] by (auto simp: save_kiosk_def)
  with admin_route_InrD[OF assms(1)] assms(2) a(2) show ?thesis unfolding ruled_def by auto
qed

lemma invite_untold: "invite_staff cr k e r who now d = Inr (tok, d') \<Longrightarrow> audit_log d' = audit_log d"
  by (auto simp: invite_staff_def Let_def case_prod_beta token_urlsafe_def draw_letters_def split: if_splits list.splits)

lemma admin_step_ruled:
  assumes "admin_step cr now u kid act db db'" and dist: "distinct (map ki_id (kiosks db))"
  shows "ruled now u kid act db db'"
  using assms(1)
proof cases
  case (seen_shop r)
  then obtain k where k: "admin_route u kid db = Inr k" "admin_kiosk_of k db = (r, db')"
    by (auto simp: one_kiosk_def bind_res_Inr_iff)
  with admin_kiosk_of_rest[of k db] admin_route_InrD[OF k(1)] seen_shop(1) show ?thesis by (auto simp: ruled_def)
next
  case (staged raw why r)
  then obtain k target k' d1 where k: "admin_route u kid db = Inr k" "move_to (gate_billing now) k target why db = Inr (k', d1)"
    and s: "admin_kiosk_of k' (snd (record_audit ''kiosk.stage.changed'' ''kiosk'' (Some (ki_public_id k')) (Some (us_id u))
         (Some (PDict [(''onboarding_stage'', PStr (stage_value (ki_stage k)))]))
         (Some (PDict [(''onboarding_stage'', PStr (stage_value (ki_stage k')))])) why d1)) = (r, db')"
    by (auto simp: set_stage_def bind_res_Inr_iff)
  have "d1 = db \<and> k' = k \<or> d1 = save_kiosk k' db" using move_to_InrD[OF k(2)] by blast
  from ruledI[OF k(1) lawful_move[OF k(2)] this dist s] staged(1) show ?thesis by simp
next
  case (retyped raw r)
  then obtain k kind where k: "admin_route u kid db = Inr k" "kiosk_type_from raw = Inr kind"
    by (auto simp: set_type_def bind_res_Inr_iff)
  obtain k' d1 where c: "change_type k kind db = (k', d1)" by fastforce
  then have "d1 = db \<and> k' = k \<or> d1 = save_kiosk k' db" by (auto simp: change_type_def Let_def split: if_splits)
  moreover have "admin_kiosk_of k' (snd (record_audit ''kiosk.type.changed'' ''kiosk'' (Some (ki_public_id k')) (Some (us_id u))
         (Some (PDict [(''kiosk_type'', PStr (kiosk_type_value (ki_type k)))]))
         (Some (PDict [(''kiosk_type'', PStr (kiosk_type_value (ki_type k'))),
            (''onboarding_stage'', PStr (stage_value (ki_stage k')))])) None d1)) = (r, db')"
    using retyped by (simp add: set_type_def k c)
  ultimately show ?thesis using ruledI[OF k(1) lawful_retype[OF c] _ dist] retyped(1) by blast
next
  case (walleted accepts r)
  then obtain k k' d1 where k: "admin_route u kid db = Inr k" "set_accepts_wallet k accepts db = Inr (k', d1)"
    and s: "admin_kiosk_of k' (snd (record_audit ''kiosk.wallet.changed'' ''kiosk'' (Some (ki_public_id k')) (Some (us_id u))
         (Some (PDict [(''accepts_wallet'', PBool (ki_accepts_wallet k))]))
         (Some (PDict [(''accepts_wallet'', PBool (ki_accepts_wallet k'))])) None d1)) = (r, db')"
    by (auto simp: set_wallet_def bind_res_Inr_iff)
  have "d1 = save_kiosk k' db" "lawful now db k k'"
    using k(2) by (auto simp: set_accepts_wallet_def lawful_def OWNER_GATEWAY_TYPES_def OWNER_COLLECTS_def Let_def split: if_splits)
  with ruledI[OF k(1) _ _ dist s] walleted(1) show ?thesis by blast
next
  case (placed desc lat long r)
  then obtain k k' d1 where k: "admin_route u kid db = Inr k" "set_location k desc lat long db = Inr (k', d1)"
    and s: "admin_kiosk_of k' (snd (record_audit ''kiosk.location.set'' ''kiosk'' (Some (ki_public_id k')) (Some (us_id u))
         (Some (where_it_is k)) (Some (where_it_is k')) None d1)) = (r, db')"
    by (auto simp: place_kiosk_def bind_res_Inr_iff)
  have "d1 = save_kiosk k' db" "lawful now db k k'"
    using k(2) by (auto simp: set_location_def lawful_def Let_def split: if_splits option.splits)
  with ruledI[OF k(1) _ _ dist s] placed(1) show ?thesis by blast
next
  case (offered email)
  then obtain k tok d1 where k: "admin_route u kid db = Inr k" "invite_staff cr k email KIOSK_OWNER (us_id u) now db = Inr (tok, d1)"
    and s: "db' = snd (record_audit ''kiosk.owner.invited'' ''kiosk'' (Some (ki_public_id k)) (Some (us_id u)) None
         (Some (PDict [(''email'', PStr email)])) None d1)"
    by (auto simp: invite_owner_def no_mail_def bind_res_Inr_iff)
  note r = admin_route_InrD[OF k(1)]
  have "accounted u kid ''kiosk.owner.invited'' db db'"
    using s invite_untold[OF k(2)] r by (simp add: accounted_def record_audit_def Let_def)
  moreover have "kiosks db' = put_row ki_id k (kiosks db)"
    using s invite_rest[OF k(2)] put_row_itself[OF dist] r by (simp add: record_audit_def Let_def)
  moreover have "lawful now db k k" by (rule lawful_refl)
  ultimately show ?thesis using r unfolding ruled_def offered(1) option.case by blast
qed

text \<open>
  C39. Being an administrator is a wider scope and never a way round the rules. One request about a shop
  needs the role and is about a shop that exists under the id it names. A read changes no shop and nothing in
  the trail. Any other request rewrites that shop's row and no other: of its type the stage stays or moves along
  the chart, and one that changes the type sends a shop which was configured, live or in maintenance back to APPROVED
  when its owner is to collect there; it opens a shop an owner collects at only when the gate says the owner can, and
  never comes to allow wallet balance at such a shop. And it leaves exactly one entry in the trail, whether or not it changed
  the row, that names the administrator, the shop and what was done.
\<close>

theorem an_administrator_is_no_bypass:
  fixes db :: "'a payments_db_scheme"
  assumes "admin_step cr now u kid act db db'" and "distinct (map ki_id (kiosks db))"
  shows "ADMIN \<in> roles_of (us_id u) db \<and> (\<exists>k \<in> set (kiosks db). ki_public_id k = kid
     \<and> (case act of
          None \<Rightarrow> kiosks db' = kiosks db \<and> audit_log db' = audit_log db
        | Some a \<Rightarrow> accounted u kid a db db' \<and> (\<exists>k'. lawful now db k k' \<and> kiosks db' = put_row ki_id k' (kiosks db))))"
  using admin_step_ruled[OF assms] unfolding ruled_def .

definition console_kiosk :: kiosk where
  "console_kiosk = kiosk_example\<lparr>ki_public_id := ''ksk_0000000000000000'', ki_accepts_wallet := False\<rparr>"

definition console_example :: payments_db where
  "console_example = payments_blank\<lparr>users := [user_example], kiosks := [console_kiosk],
     user_roles := [\<lparr>ur_id = 1, ur_user_id = 1, ur_role = ADMIN, ur_granted_at = 0\<rparr>]\<rparr>"

theorem an_administrator_is_no_bypass_witness:
  "\<exists>r db'. set_wallet ''ksk_0000000000000000'' True user_example console_example = Inr (r, db')
     \<and> kiosk_row 1 db' = Some (console_kiosk\<lparr>ki_accepts_wallet := True\<rparr>)
     \<and> accounted user_example ''ksk_0000000000000000'' ''kiosk.wallet.changed'' console_example db'"
proof -
  have "(case set_wallet ''ksk_0000000000000000'' True user_example console_example of Inl _ \<Rightarrow> False
      | Inr (r, d) \<Rightarrow> kiosk_row 1 d = Some (console_kiosk\<lparr>ki_accepts_wallet := True\<rparr>))" by code_simp
  then obtain r db' where s: "set_wallet ''ksk_0000000000000000'' True user_example console_example = Inr (r, db')"
    "kiosk_row 1 db' = Some (console_kiosk\<lparr>ki_accepts_wallet := True\<rparr>)"
    by (auto split: sum.splits)
  have k: "distinct (map ki_id (kiosks console_example))" by (simp add: console_example_def)
  from an_administrator_is_no_bypass[OF walleted[OF s(1), of toy_crypto 5] k] s show ?thesis by auto
qed

text \<open>
  Turning a shop of the platform's own into one sold to an owner leaves the mark that it accepts wallet
  balance, which the operation that sets it refuses there.
\<close>

lemma a_sold_shop_still_offers_the_balance:
  assumes "ki_type k = PLATFORM" "ki_accepts_wallet k" "change_type k SOLD db = (k', db')"
  shows "ki_accepts_wallet k' \<and> set_accepts_wallet k' True db' = Inl (BadRequest WALLET_IS_PLATFORM)
    \<and> \<not> wallet_may_be_spent now db'' k'"
  using assms by (auto simp: change_type_def set_accepts_wallet_def OWNER_GATEWAY_TYPES_def wallet_may_be_spent_def
      kiosk_payment_gate_def OWNER_COLLECTS_def Let_def split: if_splits option.splits)

section \<open>Staying in charge\<close>

text \<open>One request about the account \<open>aid\<close>, with the action the trail owes it.\<close>

inductive account_step :: "user \<Rightarrow> string \<Rightarrow> string \<Rightarrow> 'a wallet_db_scheme \<Rightarrow> 'a wallet_db_scheme \<Rightarrow> bool" for u :: user and aid :: string
where
  granted: "grant aid raw u db = Inr (r, db') \<Longrightarrow> account_step u aid ''identity.role.granted'' db db'"
| taken: "revoke aid raw u db = Inr (r, db') \<Longrightarrow> account_step u aid ''identity.role.revoked'' db db'"
| switched_off: "deactivate aid u now db = Inr (r, db') \<Longrightarrow> account_step u aid ''identity.account.deactivated'' db db'"
| switched_on: "activate aid u now db = Inr (r, db') \<Longrightarrow> account_step u aid ''identity.account.activated'' db db'"
| credited: "credit_wallet aid amount kind why u db = Inr (c, db') \<Longrightarrow> account_step u aid ''wallet.credited'' db db'"

text \<open>Any number of them, in order: the account and the action of each.\<close>

inductive account_run :: "user \<Rightarrow> (string \<times> string) list \<Rightarrow> 'a wallet_db_scheme \<Rightarrow> 'a wallet_db_scheme \<Rightarrow> bool" for u :: user
where
  nothing_asked: "account_run u [] db db"
| asked: "account_step u aid act db db1 \<Longrightarrow> account_run u reqs db1 db' \<Longrightarrow> account_run u ((aid, act) # reqs) db db'"

definition in_charge :: "user \<Rightarrow> 'a identity_db_scheme \<Rightarrow> bool" where
  "in_charge u db \<longleftrightarrow> ADMIN \<in> roles_of (us_id u) db \<and> (\<exists>x \<in> set (users db). us_id x = us_id u \<and> us_is_active x)"

definition tells :: "user \<Rightarrow> string \<times> string \<Rightarrow> audit_entry \<Rightarrow> bool" where
  "tells u req e \<longleftrightarrow> au_actor_user_id e = Some (us_id u) \<and> au_entity_type e = ''user'' \<and> au_entity_id e = Some (fst req)
     \<and> au_action e = snd req"

definition told_by :: "user \<Rightarrow> string \<times> string \<Rightarrow> 'a ops_db_scheme \<Rightarrow> 'a ops_db_scheme \<Rightarrow> bool" where
  "told_by u req db db' \<longleftrightarrow> (\<exists>e. audit_log db' = audit_log db @ [e] \<and> tells u req e)"

lemma audit_person_told:
  "audit_log d = audit_log db \<Longrightarrow> us_public_id v = aid \<Longrightarrow> told_by u (aid, a) db (audit_person a v u w d)"
  by (simp add: told_by_def tells_def audit_person_def record_audit_def Let_def)

lemma any_account_InrD: "any_account aid db = Inr v \<Longrightarrow> us_public_id v = aid"
  by (auto simp: any_account_def get_any_by_public_id_def split: option.splits sum.splits dest: first_where_SomeD)

lemma audit_person_rest [simp]:
  "users (audit_person a v u w d) = users d" "user_roles (audit_person a v u w d) = user_roles d"
  by (simp_all add: audit_person_def record_audit_def Let_def)

lemma in_charge_put:
  assumes "in_charge u db" "user_roles d = user_roles db" "users d = put_row us_id v (users db)" "us_id v = us_id u \<longrightarrow> us_is_active v"
  shows "in_charge u d"
proof -
  obtain x where x: "x \<in> set (users db)" "us_id x = us_id u" "us_is_active x" using assms(1) by (auto simp: in_charge_def)
  have "(if us_id v = us_id u then v else x) \<in> set (users d)"
    using x by (auto simp: assms(3) set_put_row image_iff intro!: bexI[of _ x])
  with x assms show ?thesis unfolding in_charge_def roles_of_def by (metis (full_types))
qed

lemma account_step_keeps:
  assumes "account_step u aid act db db'"
  shows "told_by u (aid, act) db db' \<and> (in_charge u db \<longrightarrow> in_charge u db')"
  using assms
proof cases
  case (granted raw r)
  then show ?thesis
    by (auto simp: grant_def bind_res_Inr_iff Let_def in_charge_def roles_of_def grant_role_def any_account_InrD intro!: audit_person_told)
next
  case (taken raw r)
  then obtain v role where "db' = audit_person ''identity.role.revoked'' v u (PDict [(''role'', PStr (role_value role))]) (revoke_role (us_id v) role db)"
    "\<not> (role = ADMIN \<and> us_id v = us_id u)" "us_public_id v = aid"
    by (auto simp: revoke_def bind_res_Inr_iff Let_def any_account_InrD split: if_splits)
  then show ?thesis by (auto simp: in_charge_def roles_of_def revoke_role_def taken(1) intro!: audit_person_told)
next
  case (switched_off now r)
  then obtain v d where v: "us_id v \<noteq> us_id u" "d = revoke_all (us_id v) now db" "us_public_id v = aid"
    and db': "db' = audit_person ''identity.account.deactivated'' (v\<lparr>us_is_active := False\<rparr>) u (PDict [(''is_active'', PBool False)])
      (save_user (v\<lparr>us_is_active := False\<rparr>) d)"
    by (auto simp: deactivate_def bind_res_Inr_iff Let_def set_user_active_def any_account_InrD split: if_splits)
  have "told_by u (aid, act) db db'"
    unfolding db' switched_off(1) by (rule audit_person_told) (simp_all add: save_user_def v(2,3) revoke_all_def revoke_where_def)
  moreover have "in_charge u db'" if "in_charge u db"
    by (rule in_charge_put[OF that, of _ "v\<lparr>us_is_active := False\<rparr>"])
      (simp_all add: db' save_user_def v revoke_all_def revoke_where_def)
  ultimately show ?thesis by blast
next
  case (switched_on now r)
  then obtain v where "any_account aid db = Inr v" and db': "db' = audit_person ''identity.account.activated'' (v\<lparr>us_is_active := True\<rparr>) u (PDict [(''is_active'', PBool True)])
      (save_user (v\<lparr>us_is_active := True\<rparr>) db)"
    by (auto simp: activate_def bind_res_Inr_iff Let_def set_user_active_def)
  then have v: "us_public_id v = aid" by (simp add: any_account_InrD)
  have "told_by u (aid, act) db db'" unfolding db' switched_on(1) by (rule audit_person_told) (simp_all add: save_user_def v)
  moreover have "in_charge u db'" if "in_charge u db"
    by (rule in_charge_put[OF that, of _ "v\<lparr>us_is_active := True\<rparr>"]) (simp_all add: db' save_user_def)
  ultimately show ?thesis by blast
next
  case (credited amount kind why c)
  then obtain a where a: "any_account aid db = Inr a" by (auto simp: credit_wallet_def bind_res_Inr_iff)
  obtain ref d1 where m: "mint WALLET_ENTRY db = (ref, d1)" by fastforce
  obtain e d2 where cr: "credit (us_id a) amount (credited_as kind) (''admin:'' @ us_public_id u @ '':'' @ ref) (Some why) d1 = Inr (e, d2)"
    using credited a m by (cases "credit (us_id a) amount (credited_as kind) (''admin:'' @ us_public_id u @ '':'' @ ref) (Some why) d1")
      (auto simp: credit_wallet_def bind_res_Inr_iff)
  have db': "db' = snd (record_audit ''wallet.credited'' ''user'' (Some (us_public_id a)) (Some (us_id u)) None
      (Some (PDict [(''amount_inr'', PStr (show_money amount)), (''kind'', PStr (credit_value kind)), (''note'', PStr why)])) None d2)"
    using credited a m cr by (auto simp: credit_wallet_def bind_res_Inr_iff Let_def)
  from cr m have "d1 = snd (mint WALLET_ENTRY db)" by simp
  with cr have "users d2 = users db" "user_roles d2 = user_roles db" "audit_log d2 = audit_log db"
    by (auto simp: credit_def move_def wallet_for_def Let_def mint_def split: option.splits if_splits)
  then show ?thesis by (simp add: db' told_by_def tells_def in_charge_def roles_of_def record_audit_def Let_def any_account_InrD[OF a] credited(1))
qed

text \<open>
  C40. However many requests an administrator makes of the accounts console, their own account among the
  targets or not, they stay an active administrator: there is always somebody who can undo it. Every one of those
  requests is in the trail, one entry each and in their order, that names the administrator, the account and what was
  done to it, and the trail holds nothing else new.
\<close>

theorem an_administrator_stays_in_charge:
  assumes "account_run u reqs db db'" and "in_charge u db"
  shows "in_charge u db' \<and> (\<exists>es. audit_log db' = audit_log db @ es \<and> list_all2 (tells u) reqs es)"
  using assms
proof induction
  case (nothing_asked db)
  then show ?case by simp
next
  case (asked aid act db db1 reqs db')
  from account_step_keeps[OF asked.hyps(1)] asked.prems obtain e where e: "audit_log db1 = audit_log db @ [e]" "tells u (aid, act) e" "in_charge u db1"
    by (auto simp: told_by_def)
  then obtain es where "in_charge u db'" "audit_log db' = audit_log db1 @ es" "list_all2 (tells u) reqs es" using asked.IH by blast
  with e show ?case by (intro conjI exI[of _ "e # es"]) simp_all
qed

theorem an_administrator_stays_in_charge_witness:
  "\<exists>r db'. activate ''usr_0000000000000000'' user_example 5 console_example = Inr (r, db') \<and> in_charge user_example db'
     \<and> (\<exists>e. audit_log db' = [e] \<and> tells user_example (''usr_0000000000000000'', ''identity.account.activated'') e)
     \<and> deactivate ''usr_0000000000000000'' user_example 5 console_example = Inl (BadRequest NOT_YOUR_OWN_ACCOUNT)"
proof -
  have "(case activate ''usr_0000000000000000'' user_example 5 console_example of Inl _ \<Rightarrow> False | Inr _ \<Rightarrow> True)"
    by code_simp
  then obtain r db' where a: "activate ''usr_0000000000000000'' user_example 5 console_example = Inr (r, db')"
    by (auto split: sum.splits)
  have c: "in_charge user_example console_example"
    by (simp add: in_charge_def roles_of_def console_example_def user_example_def)
  have "(case deactivate ''usr_0000000000000000'' user_example 5 console_example of
      Inl e \<Rightarrow> e = BadRequest NOT_YOUR_OWN_ACCOUNT | Inr _ \<Rightarrow> False)" by code_simp
  then have "deactivate ''usr_0000000000000000'' user_example 5 console_example = Inl (BadRequest NOT_YOUR_OWN_ACCOUNT)"
    by (auto split: sum.splits)
  moreover have "account_run user_example [(''usr_0000000000000000'', ''identity.account.activated'')] console_example db'"
    by (rule asked[OF switched_on[OF a] nothing_asked])
  from an_administrator_stays_in_charge[OF this c]
  have "in_charge user_example db' \<and> (\<exists>e. audit_log db' = [e] \<and> tells user_example (''usr_0000000000000000'', ''identity.account.activated'') e)"
    by (auto simp: console_example_def payments_blank_def list_all2_Cons1)
  ultimately show ?thesis using a by blast
qed

end
