(* ===== verification/Spec2Isabelle.thy ===== *)
theory Spec2Isabelle
  imports RateLimit PrintOptions Ops Identity Wallet Paper Onboarding Pricing PrintQueue PrintTasks
    PaperAdapter Devices KioskAccess Billing Gate Payments Earnings Webhook OrderLife OrderViews Notifying Composition Refunding Scheduler StudentApi DeviceApi EdgeLimits StudentAuth WebhookApi OwnerApi AdminApi
begin

text \<open>
  The backend of a printing service. Students upload documents and pay for having them printed at
  \<^emph>\<open>kiosks\<close>, shops with a machine, a printer and a tray of paper. A kiosk is run by the platform, which
  collects there itself, or by an owner who holds a subscription and collects with an account of their
  own at the payment gateway. Refillers keep trays full, administrators install shops and give money
  back.

  \<^bold>\<open>How the program is put together.\<close> \<^verbatim>\<open>app/core\<close> is the foundation. \<^verbatim>\<open>app/modules\<close> holds one package for
  each bounded context: identity, kiosks, wallet, billing, payments, printing, orders, ops. A module
  touches its own tables and declares, as an interface, what it needs of another: printing needs a
  paper ledger and somebody to tell about outcomes, payments needs a settlement and a refund sink,
  kiosks needs to know who can collect. \<^verbatim>\<open>api/deps.py\<close> wires the interfaces to the modules that provide
  them. Above the modules stand the use cases that span them (\<^verbatim>\<open>refunding.py\<close>, \<^verbatim>\<open>provisioning.py\<close>), the
  routes (\<^verbatim>\<open>api/student\<close>, \<^verbatim>\<open>api/owner\<close>, \<^verbatim>\<open>api/admin\<close>, \<^verbatim>\<open>api/refiller\<close>, \<^verbatim>\<open>api/device\<close>, \<^verbatim>\<open>api/webhooks.py\<close>) and
  the scheduled sweeps (\<^verbatim>\<open>jobs\<close>). Everything is kept in one database; a request, a delivery and a sweep
  each run in one transaction, committed when the handler returns and rolled back when it raises.

  \<^bold>\<open>The state.\<close> A database session is a record that grows context by context: \<open>core_db\<close> (Ids: the random
  numbers still to be drawn, the clock of the transaction, the wakes to be published on commit), then
  \<open>ops_db\<close>, \<open>identity_db\<close>, \<open>kiosks_db\<close>, \<open>wallet_db\<close>, \<open>billing_db\<close>, \<open>payments_db\<close>, \<open>printing_db\<close> and
  \<open>orders_db\<close>, each with the tables of its \<^verbatim>\<open>models.py\<close>. A table is the list of its rows in the order of
  insertion. An operation is polymorphic in what extends its own tables, so that one definition serves
  every layer above it, and what it can touch shows in its type. A row held by the Python session is
  the record itself: an operation takes it and answers the changed row with the changed database.

  \<^bold>\<open>Conventions.\<close> Whatever raises answers a sum, \<open>Inl\<close> an \<open>app_error\<close> of \<^verbatim>\<open>core/errors.py\<close> and \<open>Inr\<close> the
  value with the database; an error carries no database, which is the rollback. \<open>bind_res\<close> is the
  sequence of two such steps. Where a function commits before it raises, or swallows an error, it
  answers the pair explicitly (\<open>rotate_refresh\<close>, \<open>tell_them\<close>, \<open>run_one\<close>). Money is \<open>rat\<close>, as Python's
  \<^verbatim>\<open>Decimal\<close>, quantised by \<open>as_money\<close>. An instant is an integer number of microseconds since 1970, in
  UTC; \<open>now\<close> is an argument wherever the code reads the clock, and \<open>tx_now\<close> is the clock of the
  transaction that fills the columns with a server default. Strings are lists of characters read as
  the bytes of their UTF-8 form. A JSON value is a \<open>pyval\<close>. Definitions compute, and the witnesses
  evaluate them.

  \<^bold>\<open>Theories and what they model.\<close>

  \<^descr> \<^bold>\<open>Foundation.\<close> Prelude: errors and their envelope (\<^verbatim>\<open>core/errors.py\<close>), results, tables, lists. Money:
  \<^verbatim>\<open>core/money.py\<close>. Ids: \<^verbatim>\<open>core/ids.py\<close> and the wakes of \<^verbatim>\<open>core/bus.py\<close>. RateLimit: \<^verbatim>\<open>core/ratelimit.py\<close>,
  with the locale \<open>rate_counter\<close> interpreted on the memory store and on the Redis store. Calendar:
  \<^verbatim>\<open>strftime\<close> and \<^verbatim>\<open>isoformat\<close> where a text is part of the behaviour. Ops: \<^verbatim>\<open>modules/ops\<close>, the audit trail,
  its scrubbing, and alerts with their deduplication.

  \<^descr> \<^bold>\<open>Identity.\<close> IdentityModels and Identity: \<^verbatim>\<open>modules/identity\<close> and \<^verbatim>\<open>core/security.py\<close>: accounts, guests,
  roles, passwords, tokens, one-time links, refresh tokens with rotation and replay, Google sign-in.

  \<^descr> \<^bold>\<open>Kiosks.\<close> KioskModels; Onboarding (stages and their table, the registry, device commands, a stuck
  printer); Paper (trays and the refill log); Pricing; Devices (enrolment, tokens, heartbeats);
  KioskAccess (scopes, scoped reads, staff and invitations, favourites, the owner's switch).

  \<^descr> \<^bold>\<open>Money that is held.\<close> WalletModels and Wallet: the ledger. BillingModels and Billing: plans, bands,
  discounts, quotes, purchases, subscriptions, trials. PaymentModels; Gate (whose account collects, with
  which keys); Payments (checkouts, signatures, captures, refunds; the locale \<open>refund_listener\<close>);
  Earnings; Webhook (one handler for every delivery; the locale \<open>webhook_wiring\<close>).

  \<^descr> \<^bold>\<open>Printing.\<close> PrintOptions (page ranges, impressions, sheets); PrintingModels; PrintQueue (enqueueing,
  claiming, leases); PrintTasks (reports, and the locale \<open>paper_ledger\<close>, which PaperAdapter interprets on
  a kiosk's tray); Documents (storage keys and paths, uploads, the smaller copy, retention).

  \<^descr> \<^bold>\<open>Orders.\<close> OrderModels; Orders (quotes, placing, paying, refunds); OrderLife (the state machine of an
  order over every operation that touches one); OrderViews (what the surfaces read, the wording of a
  receipt).

  \<^descr> \<^bold>\<open>Composition.\<close> Composition: the adapters of \<^verbatim>\<open>api/deps.py\<close>, with the interpretations of
  \<open>refund_listener\<close> and \<open>webhook_wiring\<close> on them. Notifying: \<^verbatim>\<open>core/notifier.py\<close> and \<^verbatim>\<open>notifying.py\<close>, with
  the locale \<open>courier\<close>. Refunding: \<^verbatim>\<open>refunding.py\<close> and both refund doors, with the locale \<open>refund_desk\<close>,
  which extends \<open>courier\<close> and \<open>refund_listener\<close>. Jobs and Scheduler: the sweeps of \<^verbatim>\<open>jobs/tasks.py\<close> and one
  tick of \<^verbatim>\<open>jobs/scheduler.py\<close>, with the locales \<open>messenger\<close>, \<open>watcher\<close> and \<open>mailing_watcher\<close>.

  \<^descr> \<^bold>\<open>Routes.\<close> StudentApi: orders, checkout, callback, wallet, favourites, staff invitations. StudentAuth:
  \<^verbatim>\<open>api/student/auth.py\<close>. DeviceApi: machines and refillers. WebhookApi: both doors of \<^verbatim>\<open>api/webhooks.py\<close>.
  EdgeLimits: the middleware of \<^verbatim>\<open>api/ratelimit.py\<close>. OwnerApi:
  the shop, its prices, paper, staff and machine of \<^verbatim>\<open>api/owner/kiosks.py\<close>. Provisioning: \<^verbatim>\<open>provisioning.py\<close>.
  AdminApi: \<^verbatim>\<open>api/admin/kiosks.py\<close> and \<^verbatim>\<open>accounts.py\<close>.

  \<^bold>\<open>What the lemmas show.\<close> The numbered properties say, in this order of weight: that an order is paid
  once (and a payment is captured once, until money is given back on it, which reopens its row), with money that was really taken, for the prints it asked for, through whichever of the doors
  the capture arrives (Orders, Payments, Composition, StudentApi, WebhookApi); that money is routed to
  and refunded from one account, at most what was taken (Gate, Refunding, Earnings); that an order and
  a print task move only along their lives and the order follows its prints (OrderLife, PrintTasks,
  Scheduler); that trays, wallets and subscriptions keep their books (PaperAdapter, Wallet, Billing);
  that a caller reaches only what is theirs (KioskAccess, Devices, DeviceApi, StudentAuth, Identity);
  that a shop sells only when somebody collects (Onboarding, Provisioning, AdminApi); and bounds, round trips and
  termination of the smaller parts. Some state where the code does less than it says: each of those
  exhibits the behaviour, with a witness that runs into it. Beside them stand the lemmas they share:
  shapes of results (\<open>..._InrD\<close>, \<open>..._shape\<close>, \<open>..._cases\<close>), frames (what an operation leaves alone) and the
  laws of the adapters. Specifications that stand beside the code and model none of it are defined next to
  the property that uses them: runs of requests (\<open>payment_step\<close>, \<open>task_step\<close>, \<open>order_step\<close>, \<open>admin_step\<close>,
  \<open>account_run\<close>), what may be written (\<open>only_at\<close>, \<open>lawful\<close>, \<open>accounted\<close>), what a later database must still hold
  (\<open>still_settled\<close>), the price list and the stage chart written out (\<open>listed\<close>, \<open>line_price\<close>, \<open>stage_chart\<close>).

  \<^bold>\<open>Loops and bounds.\<close> Every loop of the code runs over a finite collection and is structural recursion
  or a fold, but for two: reading an upload in pieces (\<open>read_upload\<close>, a recursion on the pieces the client
  sends, whose termination is the property \<open>reading_an_upload_ends\<close>) and the forever loops around the
  scheduler's tick and the device socket, which are not modelled: one turn of the first is \<open>run_due\<close>. No
  definition takes fuel. Integers are Python's and unbounded; the widths of the database's columns are
  not modelled.

  \<^bold>\<open>What is a parameter.\<close> Code outside the repository is an argument: password hashing, digests and
  signed tokens (record \<open>crypto\<close>), encryption at rest (\<open>secret_box\<close>), the payment gateway's client
  (\<open>razorpay_gateway\<close>), the message authentication code of a signature (\<open>mac\<close>), the JSON parser, the mail
  provider (\<open>post\<close>) and the notifier built over it (\<open>send\<close>), the PDF reader, the PDF compressor, the disk
  (\<open>files\<close>), the advisory lock, the Redis pipeline. Where a theorem needs a law of one of them, the law is a
  hypothesis of that theorem, and its witness supplies a function that has it.

  \<^bold>\<open>Not modelled.\<close> The database engine itself: isolation between concurrent transactions, races that
  end in an integrity error, collation, the length of columns and \<^verbatim>\<open>updated_at\<close>. Ids drawn at random are
  taken from a stream and their collisions are not modelled. The validation of request bodies by the
  schema library, dependency injection, HTTP itself, and the device socket, which carries a wake and no
  data. Drawing on a PDF page (\<^verbatim>\<open>core/documents.py\<close>, \<^verbatim>\<open>printing/photos.py\<close>, the layout of the two
  invoices): calls of a library; the wording and the amounts of a receipt are in OrderViews. The HTTP
  client of the gateway (\<^verbatim>\<open>payments/razorpay.py\<close>). The rest of the owner's routes and the administrator's
  (\<^verbatim>\<open>api/owner/billing.py\<close>, \<^verbatim>\<open>payment_config.py\<close>, \<^verbatim>\<open>earnings.py\<close>, \<^verbatim>\<open>api/admin/billing.py\<close>,
  \<^verbatim>\<open>payment_config.py\<close>, \<^verbatim>\<open>ops.py\<close>), the command line and the one-off migration: thin layers over operations
  that are modelled.
\<close>

end
